(* ===== verification/Prelude.thy ===== *)
theory Prelude
  imports Main "HOL-Library.AList" "HOL-Library.Multiset"
begin

section \<open>Shared vocabulary: JavaScript values, strings and ordered maps\<close>

text \<open>
  Strings are HOL strings, one \<open>char\<close> for one JavaScript code unit below 256; case
  mapping is that of ASCII. An optional or nullable property is an \<open>option\<close>: the
  modelled code reads such a property only through \<open>??\<close>, \<open>== null\<close> or a truth test,
  which treat \<open>null\<close> and \<open>undefined\<close> alike. Integers the code keeps below \<open>2^53\<close> or
  as BigInt are \<open>int\<close> or \<open>nat\<close>.
\<close>

named_theorems js_simps \<open>unfolding rules of the JavaScript helpers\<close>

subsection \<open>Optional values\<close>

definition coalesce :: "'a option \<Rightarrow> 'a \<Rightarrow> 'a" where
  "coalesce x d = (case x of None \<Rightarrow> d | Some v \<Rightarrow> v)"

definition or_else :: "'a option \<Rightarrow> 'a option \<Rightarrow> 'a option" where
  "or_else x y = (case x of None \<Rightarrow> y | Some v \<Rightarrow> Some v)"

definition truthy :: "string option \<Rightarrow> bool" where
  "truthy x = (case x of None \<Rightarrow> False | Some s \<Rightarrow> s \<noteq> [])"

definition keep_truthy :: "string option \<Rightarrow> string option" where
  "keep_truthy x = (if truthy x then x else None)"

lemma coalesce_simps [simp]: "coalesce None d = d" "coalesce (Some v) d = v"
  by (simp_all add: coalesce_def)

lemma or_else_simps [simp]: "or_else None y = y" "or_else (Some v) y = Some v"
    "or_else x None = x"
  by (simp_all add: or_else_def split: option.splits)

lemma truthy_simps [simp]: "\<not> truthy None" "truthy (Some s) \<longleftrightarrow> s \<noteq> []"
  by (simp_all add: truthy_def)

lemma truthyE: "truthy x \<Longrightarrow> (\<And>s. x = Some s \<Longrightarrow> s \<noteq> [] \<Longrightarrow> thesis) \<Longrightarrow> thesis"
  by (cases x) auto

lemma keep_truthy_simps [simp]:
  "keep_truthy None = None" "keep_truthy (Some s) = (if s = [] then None else Some s)"
  by (simp_all add: keep_truthy_def)

lemma keep_truthy_id: "truthy x \<Longrightarrow> keep_truthy x = x"
  by (simp add: keep_truthy_def)

lemma keep_truthy_None: "\<not> truthy x \<Longrightarrow> keep_truthy x = None"
  by (simp add: keep_truthy_def)

subsection \<open>String operations\<close>

definition js_space :: "char \<Rightarrow> bool" where
  "js_space c = (c \<in> {CHR 0x09, CHR 0x0A, CHR 0x0B, CHR 0x0C, CHR 0x0D, CHR '' '', CHR 0xA0})"

definition js_trim :: "string \<Rightarrow> string" where
  "js_trim s = rev (dropWhile js_space (rev (dropWhile js_space s)))"

definition lower_char :: "char \<Rightarrow> char" where
  "lower_char c = (let n = of_char c :: nat in if 65 \<le> n \<and> n \<le> 90 then char_of (n + 32) else c)"

definition upper_char :: "char \<Rightarrow> char" where
  "upper_char c = (let n = of_char c :: nat in if 97 \<le> n \<and> n \<le> 122 then char_of (n - 32) else c)"

lemma dropWhile_again: "dropWhile P (dropWhile P xs) = dropWhile P xs"
  by (induction xs) auto

lemma js_trim_idem [simp]: "js_trim (js_trim s) = js_trim s"
proof -
  define t where "t = dropWhile js_space s"
  define u where "u = rev (dropWhile js_space (rev t))"
  have "t = u @ rev (takeWhile js_space (rev t))"
    unfolding u_def by (metis rev_append rev_rev_ident takeWhile_dropWhile_id)
  moreover have "dropWhile js_space t = t" unfolding t_def by (rule dropWhile_again)
  ultimately have "dropWhile js_space u = u"
    by (cases u) (auto split: if_splits, metis append_Cons dropWhile.simps(2) hd_dropWhile list.distinct(1) list.sel(1))
  moreover have "dropWhile js_space (rev u) = rev u" unfolding u_def by (simp add: dropWhile_again)
  ultimately show ?thesis by (simp add: js_trim_def t_def [symmetric] u_def [symmetric])
qed

definition to_lower :: "string \<Rightarrow> string" where "to_lower s = map lower_char s"
definition to_upper :: "string \<Rightarrow> string" where "to_upper s = map upper_char s"

definition starts_with :: "string \<Rightarrow> string \<Rightarrow> bool" where
  "starts_with s p = (take (length p) s = p)"

definition js_slice :: "nat \<Rightarrow> nat \<Rightarrow> 'a list \<Rightarrow> 'a list" where
  "js_slice a b s = drop a (take b s)"

fun index_of :: "'a \<Rightarrow> 'a list \<Rightarrow> nat option" where
  "index_of c [] = None"
| "index_of c (x # xs) = (if x = c then Some 0 else map_option Suc (index_of c xs))"

fun split_on :: "char \<Rightarrow> string \<Rightarrow> string list" where
  "split_on c [] = [[]]"
| "split_on c (x # xs) =
     (if x = c then [] # split_on c xs
      else (case split_on c xs of [] \<Rightarrow> [[x]] | w # ws \<Rightarrow> (x # w) # ws))"

text \<open>\<open>s.trim().replace(/\s+/g, " ")\<close>, on an already trimmed string.\<close>

declare length_dropWhile_le [termination_simp]

fun squeeze_spaces :: "string \<Rightarrow> string" where
  "squeeze_spaces [] = []"
| "squeeze_spaces (c # cs) =
     (if js_space c then CHR '' '' # squeeze_spaces (dropWhile js_space cs)
      else c # squeeze_spaces cs)"

declare squeeze_spaces.simps(2) [simp del]

lemma of_char_char_of_ascii: "n < 256 \<Longrightarrow> of_char (char_of n :: char) = (n :: nat)"
  by simp

lemma lower_char_idem [simp]: "lower_char (lower_char c) = lower_char c"
  by (simp add: lower_char_def Let_def)

lemma to_lower_idem [simp]: "to_lower (to_lower s) = to_lower s"
  by (induction s) (simp_all add: to_lower_def)

lemma length_to_lower [simp]: "length (to_lower s) = length s"
  by (simp add: to_lower_def)

lemma to_lower_append: "to_lower (s @ t) = to_lower s @ to_lower t"
  by (simp add: to_lower_def)

lemma js_trim_Nil [simp]: "js_trim [] = []"
  by (simp add: js_trim_def)

lemma dropWhile_id_hd: "xs \<noteq> [] \<Longrightarrow> \<not> P (hd xs) \<Longrightarrow> dropWhile P xs = xs"
  by (cases xs) auto

lemma js_trim_noop:
  assumes "s \<noteq> [] \<Longrightarrow> \<not> js_space (hd s) \<and> \<not> js_space (last s)"
  shows "js_trim s = s"
  using assms by (cases "s = []") (simp_all add: js_trim_def dropWhile_id_hd hd_rev)

lemma index_of_None: "index_of c xs = None \<longleftrightarrow> c \<notin> set xs"
  by (induction xs) auto

lemma index_of_Some:
  "index_of c xs = Some i \<Longrightarrow> i < length xs \<and> xs ! i = c \<and> c \<notin> set (take i xs)"
  by (induction xs arbitrary: i) (auto split: if_splits)

lemma split_on_not_Nil [simp]: "split_on c s \<noteq> []"
  by (induction s) (auto split: list.splits)

lemma split_on_no_sep: "c \<notin> set s \<Longrightarrow> split_on c s = [s]"
  by (induction s) auto

lemma split_on_append:
  "c \<notin> set s \<Longrightarrow> split_on c (s @ c # t) = s # split_on c t"
  by (induction s) auto

subsection \<open>Decimal digits\<close>

definition is_digit :: "char \<Rightarrow> bool" where
  "is_digit c = (48 \<le> (of_char c :: nat) \<and> (of_char c :: nat) \<le> 57)"

definition digit_char :: "nat \<Rightarrow> char" where "digit_char d = char_of (48 + d)"
definition digit_val :: "char \<Rightarrow> nat" where "digit_val c = of_char c - 48"

text \<open>\<open>n.toString()\<close> of a natural number and \<open>BigInt(s)\<close> of a string of digits.\<close>

fun nat_str :: "nat \<Rightarrow> string" where
  "nat_str n = (if n < 10 then [digit_char n] else nat_str (n div 10) @ [digit_char (n mod 10)])"

declare nat_str.simps [simp del]

definition str_nat :: "string \<Rightarrow> nat" where
  "str_nat s = foldl (\<lambda>a c. 10 * a + digit_val c) 0 s"

lemma digit_val_char [simp]: "d < 10 \<Longrightarrow> digit_val (digit_char d) = d"
  by (simp add: digit_val_def digit_char_def)

lemma is_digit_char [simp]: "d < 10 \<Longrightarrow> is_digit (digit_char d)"
  by (simp add: is_digit_def digit_char_def)

lemma digit_char_val: "is_digit c \<Longrightarrow> digit_char (digit_val c) = c"
  by (simp add: is_digit_def digit_char_def digit_val_def)

lemma digit_val_less: "is_digit c \<Longrightarrow> digit_val c < 10"
  by (auto simp: is_digit_def digit_val_def)

lemma digit_char_inj: "d < 10 \<Longrightarrow> e < 10 \<Longrightarrow> digit_char d = digit_char e \<longleftrightarrow> d = e"
  by (metis digit_val_char)

lemma is_digit_not_space: "is_digit c \<Longrightarrow> \<not> js_space c"
  by (auto simp: is_digit_def js_space_def)

lemma is_digit_not_dot: "is_digit c \<Longrightarrow> c \<noteq> CHR ''.''"
  by (auto simp: is_digit_def)

lemma nat_str_not_Nil [simp]: "nat_str n \<noteq> []"
  by (subst nat_str.simps) simp

lemma nat_str_digits: "\<forall>c \<in> set (nat_str n). is_digit c"
proof (induction n rule: nat_str.induct)
  case (1 n)
  then show ?case by (subst nat_str.simps) auto
qed

lemma str_nat_snoc: "str_nat (s @ [c]) = 10 * str_nat s + digit_val c"
  by (simp add: str_nat_def)

lemma str_nat_Nil [simp]: "str_nat [] = 0" by (simp add: str_nat_def)

lemma str_nat_str [simp]: "str_nat (nat_str n) = n"
proof (induction n rule: nat_str.induct)
  case (1 n)
  show ?case
  proof (cases "n < 10")
    case True
    then show ?thesis by (subst nat_str.simps) (simp add: str_nat_def)
  next
    case False
    with 1 show ?thesis by (subst nat_str.simps) (simp add: str_nat_snoc)
  qed
qed

lemma str_nat_append: "str_nat (s @ t) = str_nat s * 10 ^ length t + str_nat t"
proof (induction t rule: rev_induct)
  case (snoc c t)
  have "str_nat (s @ t @ [c]) = 10 * str_nat (s @ t) + digit_val c"
    using str_nat_snoc [of "s @ t" c] by simp
  then show ?case using snoc by (simp add: str_nat_snoc algebra_simps)
qed simp

lemma digit_val_0 [simp]: "digit_val (CHR ''0'') = 0"
  by (simp add: digit_val_def)

lemma str_nat_zeros [simp]: "str_nat (replicate k (CHR ''0'')) = 0"
  by (induction k rule: nat.induct) (simp_all add: str_nat_snoc flip: replicate_append_same)

lemma str_nat_less: "(\<forall>c \<in> set s. is_digit c) \<Longrightarrow> str_nat s < 10 ^ length s"
proof (induction s rule: rev_induct)
  case (snoc c s)
  then have "str_nat s < 10 ^ length s" "digit_val c < 10" by (auto simp: digit_val_less)
  then show ?case by (simp add: str_nat_snoc)
qed simp

lemma str_nat_0 [simp]: "str_nat ''0'' = 0"
  using str_nat_zeros [of 1] by simp

lemma digit_char_0 [simp]: "digit_char 0 = CHR ''0''"
  by (rule digit_char_val [of "CHR ''0''", simplified]) (simp add: is_digit_def)

lemma nat_str_hd_last: "is_digit (hd (nat_str n))" "is_digit (last (nat_str n))"
  using nat_str_digits [of n] by simp_all

lemma nat_str_length_bound: "n < 10 ^ Suc k \<Longrightarrow> length (nat_str n) \<le> Suc k"
proof (induction k arbitrary: n)
  case 0
  then show ?case by (subst nat_str.simps) simp
next
  case (Suc k)
  then have "n div 10 < 10 ^ Suc k" by (simp add: less_mult_imp_div_less mult.commute)
  then have "length (nat_str (n div 10)) \<le> Suc k" by (rule Suc.IH)
  then show ?case by (subst nat_str.simps) simp
qed

subsection \<open>Padding\<close>

definition pad_end :: "nat \<Rightarrow> char \<Rightarrow> string \<Rightarrow> string" where
  "pad_end n c s = s @ replicate (n - length s) c"

definition pad_start :: "nat \<Rightarrow> char \<Rightarrow> string \<Rightarrow> string" where
  "pad_start n c s = replicate (n - length s) c @ s"

definition strip_trailing :: "char \<Rightarrow> string \<Rightarrow> string" where
  "strip_trailing c s = rev (dropWhile (\<lambda>x. x = c) (rev s))"

lemma length_pad_start: "length s \<le> n \<Longrightarrow> length (pad_start n c s) = n"
  by (simp add: pad_start_def)

lemma strip_trailing_split:
  "\<exists>k. s = strip_trailing c s @ replicate k c"
proof -
  let ?t = "takeWhile (\<lambda>x. x = c) (rev s)"
  have "?t = replicate (length ?t) c"
    by (metis (full_types) replicate_length_same set_takeWhileD)
  then have "rev ?t = replicate (length ?t) c"
    by (metis rev_replicate)
  moreover have "s = strip_trailing c s @ rev ?t"
    by (metis rev_append rev_rev_ident strip_trailing_def takeWhile_dropWhile_id)
  ultimately show ?thesis by metis
qed

lemma set_strip_trailing: "set (strip_trailing c s) \<subseteq> set s"
  by (metis set_append strip_trailing_split sup_ge1)

lemma length_strip_trailing: "length (strip_trailing c s) \<le> length s"
  by (metis length_append le_add1 strip_trailing_split)

subsection \<open>Insertion-ordered maps\<close>

text \<open>
  A \<open>Map\<close> or an object used as one: \<open>set\<close> overwrites in place and appends a new key,
  as \<open>AList.update\<close> does; \<open>get\<close> is \<open>map_of\<close>.
\<close>

abbreviation js_set :: "'k \<Rightarrow> 'v \<Rightarrow> ('k \<times> 'v) list \<Rightarrow> ('k \<times> 'v) list" where
  "js_set \<equiv> AList.update"

lemma map_of_js_set [simp]: "map_of (js_set k v m) = (map_of m)(k \<mapsto> v)"
  by (simp add: update_conv')

lemma distinct_js_set: "distinct (map fst m) \<Longrightarrow> distinct (map fst (js_set k v m))"
  by (rule distinct_update)

subsection \<open>Array.prototype.find\<close>

lemma find_SomeD: "List.find P xs = Some x \<Longrightarrow> x \<in> set xs \<and> P x"
  by (auto simp: find_Some_iff)

lemma find_cong_set: "(\<And>x. x \<in> set xs \<Longrightarrow> P x = Q x) \<Longrightarrow> List.find P xs = List.find Q xs"
  by (induction xs) auto

lemma find_filter: "List.find P (filter Q xs) = List.find (\<lambda>x. Q x \<and> P x) xs"
  by (induction xs) auto

lemma find_append:
  "List.find P (xs @ ys) = (case List.find P xs of None \<Rightarrow> List.find P ys | Some x \<Rightarrow> Some x)"
  by (induction xs) auto

lemma find_map: "List.find P (map f xs) = map_option f (List.find (P \<circ> f) xs)"
  by (induction xs) auto

lemma find_None_set: "List.find P xs = None \<longleftrightarrow> (\<forall>x \<in> set xs. \<not> P x)"
  by (auto simp: find_None_iff)

lemma find_Some_split:
  "List.find P xs = Some y \<Longrightarrow> \<exists>us vs. xs = us @ y # vs \<and> P y \<and> (\<forall>z \<in> set us. \<not> P z)"
proof (induction xs)
  case (Cons x xs)
  show ?case
  proof (cases "P x")
    case True
    then show ?thesis using Cons.prems by force
  next
    case False
    then obtain us vs where "xs = us @ y # vs" "P y" "\<forall>z \<in> set us. \<not> P z"
      using Cons by auto
    then show ?thesis using False by (intro exI [of _ "x # us"] exI [of _ vs]) simp
  qed
qed simp

lemma find_stronger: "List.find P xs = Some x \<Longrightarrow> Q x \<Longrightarrow> List.find (\<lambda>y. P y \<and> Q y) xs = Some x"
  by (induction xs) (auto split: if_splits)

lemma find_unique:
  "x \<in> set xs \<Longrightarrow> P x \<Longrightarrow> (\<And>y. y \<in> set xs \<Longrightarrow> P y \<Longrightarrow> y = x) \<Longrightarrow> List.find P xs = Some x"
  by (metis find_None_iff find_SomeD not_None_eq)

subsection \<open>Array.prototype.sort\<close>

text \<open>
  The sort of ECMAScript is stable. \<open>sort_by lt\<close> is the stable sort for the
  comparator that is negative exactly where \<open>lt\<close> holds.
\<close>

fun insert_by :: "('a \<Rightarrow> 'a \<Rightarrow> bool) \<Rightarrow> 'a \<Rightarrow> 'a list \<Rightarrow> 'a list" where
  "insert_by lt x [] = [x]"
| "insert_by lt x (y # ys) = (if lt y x then y # insert_by lt x ys else x # y # ys)"

definition sort_by :: "('a \<Rightarrow> 'a \<Rightarrow> bool) \<Rightarrow> 'a list \<Rightarrow> 'a list" where
  "sort_by lt xs = foldr (insert_by lt) xs []"

definition weak_order :: "('a \<Rightarrow> 'a \<Rightarrow> bool) \<Rightarrow> bool" where
  "weak_order lt \<longleftrightarrow> (\<forall>x y. lt x y \<longrightarrow> \<not> lt y x) \<and>
     (\<forall>x y z. \<not> lt x y \<longrightarrow> \<not> lt y z \<longrightarrow> \<not> lt x z)"

lemma weak_order_asym: "weak_order lt \<Longrightarrow> lt x y \<Longrightarrow> \<not> lt y x"
  unfolding weak_order_def by blast

lemma weak_order_neg_trans: "weak_order lt \<Longrightarrow> \<not> lt x y \<Longrightarrow> \<not> lt y z \<Longrightarrow> \<not> lt x z"
  unfolding weak_order_def by blast

abbreviation by_less :: "('a \<Rightarrow> 'a \<Rightarrow> bool) \<Rightarrow> 'a list \<Rightarrow> bool" where
  "by_less lt \<equiv> sorted_wrt (\<lambda>x y. \<not> lt y x)"

lemma sort_by_simps [simp]:
  "sort_by lt [] = []" "sort_by lt (x # xs) = insert_by lt x (sort_by lt xs)"
  by (simp_all add: sort_by_def)

lemma mset_insert_by [simp]: "mset (insert_by lt x xs) = add_mset x (mset xs)"
  by (induction xs) auto

lemma mset_sort_by [simp]: "mset (sort_by lt xs) = mset xs"
  by (induction xs) auto

lemma set_sort_by [simp]: "set (sort_by lt xs) = set xs"
  by (metis mset_sort_by set_mset_mset)

lemma set_insert_by [simp]: "set (insert_by lt x xs) = insert x (set xs)"
  by (metis mset_insert_by set_mset_add_mset_insert set_mset_mset)

lemma length_sort_by [simp]: "length (sort_by lt xs) = length xs"
  by (metis mset_sort_by size_mset)

lemma sort_by_Nil_iff [simp]: "sort_by lt xs = [] \<longleftrightarrow> xs = []"
  by (metis length_0_conv length_sort_by)

lemma distinct_map_sort_by: "distinct (map f (sort_by lt xs)) = distinct (map f xs)"
proof -
  have "mset (map f (sort_by lt xs)) = mset (map f xs)" by simp
  then show ?thesis by (rule mset_eq_imp_distinct_iff)
qed

lemma by_less_insert_by:
  assumes "weak_order lt" "by_less lt xs" shows "by_less lt (insert_by lt x xs)"
  using assms(2)
proof (induction xs)
  case (Cons y ys)
  show ?case
  proof (cases "lt y x")
    case True
    then have "\<not> lt x y" using assms(1) by (rule weak_order_asym [rotated])
    then show ?thesis using Cons True by simp
  next
    case False
    have "\<not> lt z x" if "z \<in> set ys" for z
      using weak_order_neg_trans [OF assms(1)] False Cons.prems that by auto
    then show ?thesis using Cons.prems False by simp
  qed
qed simp

lemma by_less_sort_by: "weak_order lt \<Longrightarrow> by_less lt (sort_by lt xs)"
  by (induction xs) (auto simp: by_less_insert_by)

lemma sort_by_id: "by_less lt xs \<Longrightarrow> sort_by lt xs = xs"
proof (induction xs)
  case (Cons x xs)
  then show ?case by (cases xs) auto
qed simp

lemma filter_insert_by:
  assumes "weak_order lt" "by_less lt xs"
  shows "filter P (insert_by lt x xs) =
    (if P x then insert_by lt x (filter P xs) else filter P xs)"
  using assms(2)
proof (induction xs)
  case (Cons y ys)
  have "insert_by lt x (filter P ys) = x # filter P ys" if "\<not> lt y x"
  proof (cases "filter P ys")
    case (Cons z zs)
    then have "z \<in> set ys" by (metis filter_is_subset list.set_intros(1) subsetD)
    then have "\<not> lt z y" using Cons.prems by simp
    then have "\<not> lt z x" using that weak_order_neg_trans [OF assms(1)] by blast
    then show ?thesis using Cons by simp
  qed simp
  with Cons show ?case by auto
qed simp

lemma filter_sort_by:
  "weak_order lt \<Longrightarrow> filter P (sort_by lt xs) = sort_by lt (filter P xs)"
  by (induction xs) (auto simp: filter_insert_by by_less_sort_by)

lemma sort_by_first_least:
  assumes "weak_order lt" "sort_by lt xs = y # ys" "x \<in> set xs"
  shows "\<not> lt x y"
proof -
  have s: "by_less lt (y # ys)" using by_less_sort_by [OF assms(1), of xs] assms(2) by simp
  have "x \<in> set (y # ys)" using assms(2,3) by (metis set_sort_by)
  then consider "x = y" | "x \<in> set ys" by auto
  then show ?thesis
  proof cases
    case 1
    then show ?thesis using weak_order_asym [OF assms(1), of y y] by auto
  qed (use s in simp)
qed

lemma sort_by_key_eq:
  fixes f :: "'a \<Rightarrow> 'b::linorder"
  assumes "mset xs = mset ys" "sorted_wrt (\<lambda>a b. f a < f b) ys"
  shows "sort_by (\<lambda>a b. f a < f b) xs = ys"
proof -
  let ?s = "sort_by (\<lambda>a b. f a < f b) xs"
  have m: "mset ?s = mset ys" using assms(1) by simp
  have sd: "sorted (map f ys) \<and> distinct (map f ys)"
    using assms(2) strict_sorted_iff [of "map f ys"] by (simp add: sorted_wrt_map)
  have "weak_order (\<lambda>a b. f a < f b)" by (auto simp: weak_order_def)
  then have "by_less (\<lambda>a b. f a < f b) ?s" by (rule by_less_sort_by)
  then have ss: "sorted (map f ?s)" by (simp add: sorted_wrt_map not_less)
  have "mset (map f ?s) = mset (map f ys)" using m by simp
  then have ds: "distinct (map f ?s)" using sd mset_eq_imp_distinct_iff by blast
  have e: "set ?s = set ys" using m by (metis set_mset_mset)
  have "inj_on f (set ys)" using sd by (simp add: distinct_map)
  then have "inj_on f (set ?s \<union> set ys)" using e by simp
  then show ?thesis
    using sd ss ds e by (metis map_sorted_distinct_set_unique)
qed

lemma find_sorted_least:
  fixes f :: "'a \<Rightarrow> 'b::linorder"
  assumes "x \<in> set xs" "P x" "\<And>y. y \<in> set xs \<Longrightarrow> P y \<Longrightarrow> y \<noteq> x \<Longrightarrow> f x < f y"
  shows "List.find P (sort_by (\<lambda>a b. f a < f b) xs) = Some x"
proof -
  let ?s = "sort_by (\<lambda>a b. f a < f b) xs"
  obtain y where y: "List.find P ?s = Some y"
    using assms(1,2) by (metis find_None_set not_None_eq set_sort_by)
  then obtain us vs where s: "?s = us @ y # vs" and "P y" and u: "\<forall>z \<in> set us. \<not> P z"
    by (metis find_Some_split)
  have "x = y"
  proof (rule ccontr)
    assume ne: "x \<noteq> y"
    have "x \<in> set ?s" using assms(1) by simp
    then have "x \<in> set vs" using s u ne assms(2) by auto
    have "weak_order (\<lambda>a b. f a < f b)" by (auto simp: weak_order_def)
    then have "by_less (\<lambda>a b. f a < f b) ?s" by (rule by_less_sort_by)
    then have "\<not> f x < f y" using s \<open>x \<in> set vs\<close> by (auto simp: sorted_wrt_append)
    moreover have "y \<in> set xs" using y by (auto dest: find_SomeD)
    ultimately show False using assms(3) ne \<open>P y\<close> by blast
  qed
  then show ?thesis using y by simp
qed

lemma mset_filter_disjoint:
  "(\<And>x. x \<in> set xs \<Longrightarrow> \<not> (P x \<and> Q x)) \<Longrightarrow>
   mset (filter P xs) + mset (filter Q xs) = mset (filter (\<lambda>x. P x \<or> Q x) xs)"
  by (induction xs) auto

lemma weak_order_two_keys:
  "weak_order (\<lambda>a b. if p a \<and> \<not> p b then True else if p b \<and> \<not> p a then False else (f a :: int) < f b)"
  (is "weak_order ?lt")
  unfolding weak_order_def
proof (intro conjI allI impI)
  fix x y assume "?lt x y" then show "\<not> ?lt y x" by (cases "p x"; cases "p y") simp_all
next
  fix x y z assume "\<not> ?lt x y" "\<not> ?lt y z"
  then show "\<not> ?lt x z" by (cases "p x"; cases "p y"; cases "p z") simp_all
qed

lemma weak_order_key: "weak_order (\<lambda>x y. (f x :: 'b::linorder) < f y)"
  by (auto simp: weak_order_def)

end
