(* ===== verification/DecimalAmount.thy ===== *)
theory DecimalAmount
  imports Prelude
begin

section \<open>Decimal amounts (src/wallets/decimal-amount.ts)\<close>

text \<open>
  The exact conversion between the decimal string a user types and the integer base units a
  chain counts. \<open>decimalToAtomic\<close> refuses everything but a plain decimal and refuses more
  fraction digits than the asset has; \<open>atomicToDecimal\<close> prints without trailing zeros. The
  lemmas show what each accepts, that the value is exact, and that printing and parsing are
  inverse to each other.
\<close>

datatype decimal_error =
    InvalidDecimal string
  | TooManyDecimals nat nat

text \<open>The regular expression \<open>/^\d+(\.\d+)?$/\<close>.\<close>

definition DECIMAL :: "string \<Rightarrow> bool" where
  "DECIMAL t =
     (takeWhile is_digit t \<noteq> [] \<and>
      (case dropWhile is_digit t of
         [] \<Rightarrow> True
       | c # f \<Rightarrow> c = CHR ''.'' \<and> f \<noteq> [] \<and> list_all is_digit f))"

definition decimalToAtomic :: "string \<Rightarrow> nat \<Rightarrow> decimal_error + nat" where
  "decimalToAtomic amount decimals =
     (let t = js_trim amount in
      if \<not> DECIMAL t then Inl (InvalidDecimal amount)
      else
        let parts = split_on (CHR ''.'') t;
            whole = hd parts;
            frac = (case tl parts of [] \<Rightarrow> [] | f # _ \<Rightarrow> f)
        in if decimals < length frac then Inl (TooManyDecimals decimals (length frac))
           else Inr (str_nat whole * 10 ^ decimals
                     + str_nat (let p = pad_end decimals (CHR ''0'') frac
                                in if p = [] then ''0'' else p)))"

definition atomicToDecimal :: "int \<Rightarrow> nat \<Rightarrow> string" where
  "atomicToDecimal atomic decimals =
     (let neg = atomic < 0;
          n = nat (if neg then - atomic else atomic);
          scale = 10 ^ decimals;
          whole = n div scale;
          frac = strip_trailing (CHR ''0'') (pad_start decimals (CHR ''0'') (nat_str (n mod scale)))
      in (if neg then ''-'' else []) @ nat_str whole @ (if frac = [] then [] else CHR ''.'' # frac))"

subsection \<open>What the parser accepts\<close>

lemma takeWhile_all_digits: "\<forall>c \<in> set w. is_digit c \<Longrightarrow> takeWhile is_digit (w @ r) = w @ takeWhile is_digit r"
  by (simp add: takeWhile_append2)

lemma dot_not_digit [simp]: "\<not> is_digit (CHR ''.'')"
  by (simp add: is_digit_def)

lemma DECIMAL_whole: "w \<noteq> [] \<Longrightarrow> \<forall>c \<in> set w. is_digit c \<Longrightarrow> DECIMAL w"
  by (simp add: DECIMAL_def takeWhile_eq_all_conv [THEN iffD2] dropWhile_eq_Nil_conv [THEN iffD2])

lemma DECIMAL_frac:
  "w \<noteq> [] \<Longrightarrow> \<forall>c \<in> set w. is_digit c \<Longrightarrow> f \<noteq> [] \<Longrightarrow> \<forall>c \<in> set f. is_digit c \<Longrightarrow>
   DECIMAL (w @ CHR ''.'' # f)"
  by (simp add: DECIMAL_def takeWhile_append2 dropWhile_append2 list_all_iff)

lemma DECIMAL_cases:
  assumes "DECIMAL t"
  obtains (whole) w where "t = w" "w \<noteq> []" "\<forall>c \<in> set w. is_digit c"
        | (frac) w f where "t = w @ CHR ''.'' # f" "w \<noteq> []" "\<forall>c \<in> set w. is_digit c"
            "f \<noteq> []" "\<forall>c \<in> set f. is_digit c"
proof (cases "dropWhile is_digit t")
  case Nil
  then have "takeWhile is_digit t = t" by (metis append_Nil2 takeWhile_dropWhile_id)
  then show ?thesis using assms whole [of t] by (metis DECIMAL_def set_takeWhileD)
next
  case (Cons c f)
  with assms have "c = CHR ''.''" "f \<noteq> []" "\<forall>x \<in> set f. is_digit x" "takeWhile is_digit t \<noteq> []"
    by (auto simp: DECIMAL_def list_all_iff)
  moreover have "t = takeWhile is_digit t @ c # f" using Cons by (metis takeWhile_dropWhile_id)
  ultimately show ?thesis using frac by (metis set_takeWhileD)
qed

lemma digits_trim: "s \<noteq> [] \<Longrightarrow> is_digit (hd s) \<Longrightarrow> is_digit (last s) \<Longrightarrow> js_trim s = s"
  by (rule js_trim_noop) (simp add: is_digit_not_space)

lemma no_dot: "\<forall>c \<in> set w. is_digit c \<Longrightarrow> CHR ''.'' \<notin> set w"
  using dot_not_digit by blast

lemma decimalToAtomic_whole:
  assumes "js_trim s = w" "w \<noteq> []" "\<forall>c \<in> set w. is_digit c"
  shows "decimalToAtomic s d = Inr (str_nat w * 10 ^ d)"
  using assms
  by (simp add: decimalToAtomic_def DECIMAL_whole split_on_no_sep no_dot pad_end_def Let_def)

lemma decimalToAtomic_frac:
  assumes "js_trim s = w @ CHR ''.'' # f" "w \<noteq> []" "\<forall>c \<in> set w. is_digit c"
    "f \<noteq> []" "\<forall>c \<in> set f. is_digit c"
  shows "decimalToAtomic s d =
    (if d < length f then Inl (TooManyDecimals d (length f))
     else Inr (str_nat w * 10 ^ d + str_nat f * 10 ^ (d - length f)))"
  using assms
  by (simp add: decimalToAtomic_def DECIMAL_frac split_on_append split_on_no_sep no_dot
      pad_end_def Let_def str_nat_append)

lemma decimalToAtomic_invalid: "\<not> DECIMAL (js_trim s) \<Longrightarrow> decimalToAtomic s d = Inl (InvalidDecimal s)"
  by (simp add: decimalToAtomic_def)

subsection \<open>Printing\<close>

lemma frac_digits:
  "\<forall>c \<in> set (strip_trailing (CHR ''0'') (pad_start d (CHR ''0'') (nat_str n))). is_digit c"
proof
  fix c assume "c \<in> set (strip_trailing (CHR ''0'') (pad_start d (CHR ''0'') (nat_str n)))"
  then have "c \<in> set (pad_start d (CHR ''0'') (nat_str n))" using set_strip_trailing by fast
  then have "c = CHR ''0'' \<or> c \<in> set (nat_str n)" by (auto simp: pad_start_def)
  then show "is_digit c" using nat_str_digits by (auto simp: is_digit_def)
qed

lemma frac_value:
  fixes n d :: nat
  defines "f \<equiv> strip_trailing (CHR ''0'') (pad_start d (CHR ''0'') (nat_str (n mod 10 ^ d)))"
  assumes "0 < d"
  shows "length f \<le> d \<and> str_nat f * 10 ^ (d - length f) = n mod 10 ^ d"
proof -
  let ?p = "pad_start d (CHR ''0'') (nat_str (n mod 10 ^ d))"
  obtain k where d: "d = Suc k" using assms(2) by (cases d) auto
  have "length (nat_str (n mod 10 ^ d)) \<le> d"
    unfolding d by (rule nat_str_length_bound) simp
  then have l: "length ?p = d" by (rule length_pad_start)
  obtain j where j: "?p = f @ replicate j (CHR ''0'')"
    using strip_trailing_split unfolding f_def by blast
  have lf: "length f + j = d" using l j by (metis length_append length_replicate)
  have "str_nat ?p = n mod 10 ^ d" by (simp add: pad_start_def str_nat_append)
  then have "str_nat f * 10 ^ j = n mod 10 ^ d" by (simp add: j str_nat_append)
  moreover have "d - length f = j" using lf by simp
  ultimately show ?thesis using lf by simp
qed

lemma atomicToDecimal_shape:
  assumes "0 \<le> n"
  shows "\<exists>f. atomicToDecimal n d = nat_str (nat n div 10 ^ d) @ (if f = [] then [] else CHR ''.'' # f) \<and>
    (\<forall>c \<in> set f. is_digit c) \<and> length f \<le> d \<and> str_nat f * 10 ^ (d - length f) = nat n mod 10 ^ d"
proof (cases "d = 0")
  case True
  then have "atomicToDecimal n d = nat_str (nat n)"
    using assms by (simp add: atomicToDecimal_def Let_def pad_start_def strip_trailing_def nat_str.simps)
  then show ?thesis using True by (intro exI [of _ "[]"]) simp
next
  case False
  then show ?thesis
    using assms frac_value [of d "nat n"] frac_digits
    by (intro exI [of _ "strip_trailing (CHR ''0'') (pad_start d (CHR ''0'') (nat_str (nat n mod 10 ^ d)))"])
      (simp add: atomicToDecimal_def Let_def)
qed

text \<open>Printing an amount and parsing it back gives the same number of base units, at every
  number of decimals: no digit is lost or invented between the form and the chain.\<close>

theorem decimal_roundtrip:
  assumes "0 \<le> n"
  shows "decimalToAtomic (atomicToDecimal n d) d = Inr (nat n)"
proof -
  obtain f where s: "atomicToDecimal n d = nat_str (nat n div 10 ^ d) @ (if f = [] then [] else CHR ''.'' # f)"
    and f: "\<forall>c \<in> set f. is_digit c" "length f \<le> d" "str_nat f * 10 ^ (d - length f) = nat n mod 10 ^ d"
    using atomicToDecimal_shape [OF assms] by blast
  let ?w = "nat_str (nat n div 10 ^ d)"
  show ?thesis
  proof (cases "f = []")
    case True
    have "js_trim ?w = ?w" by (rule digits_trim) (simp_all add: nat_str_hd_last)
    then show ?thesis
      using True s f(3) div_mult_mod_eq [of "nat n" "10 ^ d"]
      by (simp add: decimalToAtomic_whole nat_str_digits)
  next
    case False
    have "js_trim (?w @ CHR ''.'' # f) = ?w @ CHR ''.'' # f"
      by (rule digits_trim) (use False f(1) nat_str_hd_last in simp_all)
    then show ?thesis
      using False s f div_mult_mod_eq [of "nat n" "10 ^ d"]
      by (simp add: decimalToAtomic_frac nat_str_digits)
  qed
qed

theorem decimal_roundtrip_witness:
  "decimalToAtomic (atomicToDecimal 150000000 8) 8 = Inr 150000000"
  using decimal_roundtrip [of 150000000 8] by simp

text \<open>C3. The parser accepts exactly the plain decimals with no more fraction digits than the
  asset has, and its value is then the exact one: never a rounded or truncated amount.\<close>

theorem decimalToAtomic_exact:
  "decimalToAtomic s d = Inr n \<longleftrightarrow>
    (\<exists>w f. js_trim s = w @ (if f = [] then [] else CHR ''.'' # f) \<and> w \<noteq> [] \<and>
       list_all is_digit w \<and> list_all is_digit f \<and> length f \<le> d \<and>
       n = str_nat w * 10 ^ d + str_nat f * 10 ^ (d - length f))" (is "?L \<longleftrightarrow> ?R")
proof
  assume L: ?L
  then have "DECIMAL (js_trim s)" using decimalToAtomic_invalid [of s d] by (cases "DECIMAL (js_trim s)") simp_all
  then show ?R
  proof (cases rule: DECIMAL_cases)
    case (whole w)
    then show ?thesis using L decimalToAtomic_whole [of s w d]
      by (intro exI [of _ w] exI [of _ "[]"]) (simp add: list_all_iff)
  next
    case (frac w f)
    then show ?thesis using L decimalToAtomic_frac [of s w f d]
      by (intro exI [of _ w] exI [of _ f]) (simp add: list_all_iff split: if_splits)
  qed
next
  assume ?R
  then obtain w f where wf: "js_trim s = w @ (if f = [] then [] else CHR ''.'' # f)" "w \<noteq> []"
    "list_all is_digit w" "list_all is_digit f" "length f \<le> d"
    "n = str_nat w * 10 ^ d + str_nat f * 10 ^ (d - length f)" by blast
  then show ?L
    by (cases "f = []") (simp_all add: list_all_iff decimalToAtomic_whole decimalToAtomic_frac)
qed

end
