(* ===== verification/Vault.thy ===== *)
theory Vault
  imports Complex_Main Prelude
begin

section \<open>The vault's schema (src/vault-schema.ts)\<close>

text \<open>
  The decrypted vault: the flat version 2 payload the app reads and writes, and the version 3
  payload on disk, a list of wallet entries grouped into contexts. This theory holds the data
  and every operation of the file: file naming, grouping and contexts, the migration from
  version 2, the projection back to it, the merge of a flat payload into version 3, and the
  operations on single entries. \<open>genId\<close> is the pair of an id supply and a position in it, so
  that every call draws the next id; \<open>now\<close> is the clock reading.
\<close>

subsection \<open>Data\<close>

record derivation_choice =
  dc_bitcoin :: string
  dc_solana :: string
  dc_cardano :: string
  dc_algorand :: "string option"
  dc_litecoin :: "string option"
  dc_xrp :: "string option"
  dc_tron :: "string option"
  dc_ravencoin :: "string option"
  dc_dash :: "string option"

datatype seed_format = Polyseed | Legacy

record VaultPayload =
  bip39 :: string
  xmrSeed :: "string option"
  xmrSeedFormat :: "seed_format option"
  xmrRestoreHeight :: "int option"
  zphSeed :: "string option"
  zphRestoreHeight :: "int option"
  zanoSeed :: "string option"
  zanoSeedPassphrase :: "string option"
  derivationChoice :: "derivation_choice option"
  devFeeAcknowledgedAt :: "int option"

datatype WalletKind = Bip39 | Xmr | Zph | Zano | Xelis | PrivateKey | Watch

record WalletEntry =
  w_id :: string
  w_name :: string
  w_kind :: WalletKind
  w_seed :: string
  w_createdAt :: int
  w_groupId :: "string option"
  w_derivationChoice :: "derivation_choice option"
  w_xmrSeedFormat :: "seed_format option"
  w_restoreHeight :: "int option"
  w_sidecarFile :: "string option"
  w_zanoSeedPassphrase :: "string option"
  w_chain :: "string option"
  w_address :: "string option"

record chain_balance =
  cb_balance :: string
  cb_usdAtSync :: "rat option"

record cache_row =
  cr_byChain :: "(string \<times> chain_balance) list"
  cr_syncedAt :: int

record VaultPayloadV3 =
  wallets :: "WalletEntry list"
  lastActiveWalletId :: "string option"
  legacyDevFeeAcknowledgedAt :: "int option"
  balanceCache :: "(string \<times> cache_row) list option"
  v3_zanoSeed :: "string option"
  v3_zanoSeedPassphrase :: "string option"

record WalletContext =
  ctx_id :: string
  ctx_groupId :: string
  ctx_name :: string
  ctx_members :: "WalletEntry list"

fun isSingleChainKind :: "WalletKind \<Rightarrow> bool" where
  "isSingleChainKind k = (k = PrivateKey \<or> k = Watch)"

fun kind_str :: "WalletKind \<Rightarrow> string" where
  "kind_str Bip39 = ''bip39''"
| "kind_str Xmr = ''xmr''"
| "kind_str Zph = ''zph''"
| "kind_str Zano = ''zano''"
| "kind_str Xelis = ''xelis''"
| "kind_str PrivateKey = ''privateKey''"
| "kind_str Watch = ''watch''"

text \<open>An entry with the mandatory properties only; the object literals of the code extend it.\<close>

definition mk_entry :: "string \<Rightarrow> string \<Rightarrow> WalletKind \<Rightarrow> string \<Rightarrow> int \<Rightarrow> string \<Rightarrow> WalletEntry" where
  "mk_entry i nm k sd t g =
     \<lparr>w_id = i, w_name = nm, w_kind = k, w_seed = sd, w_createdAt = t, w_groupId = Some g,
      w_derivationChoice = None, w_xmrSeedFormat = None, w_restoreHeight = None,
      w_sidecarFile = None, w_zanoSeedPassphrase = None, w_chain = None, w_address = None\<rparr>"

text \<open>The template string that joins two names by a middle dot (U+00B7).\<close>

definition dotted :: "string \<Rightarrow> string \<Rightarrow> string" where
  "dotted a b = a @ [CHR 0x20, CHR 0xB7, CHR 0x20] @ b"

subsection \<open>Sidecar file names\<close>

definition LEGACY_XMR_SIDECAR_FILE :: string where "LEGACY_XMR_SIDECAR_FILE = ''pwnda-active''"
definition LEGACY_ZPH_SIDECAR_FILE :: string where "LEGACY_ZPH_SIDECAR_FILE = ''pwnda-zph-active''"
definition LEGACY_ZANO_SIDECAR_FILE :: string where "LEGACY_ZANO_SIDECAR_FILE = ''pwnda.zan''"

fun newSidecarFile :: "WalletKind \<Rightarrow> string \<Rightarrow> string option" where
  "newSidecarFile Xmr i = Some (''pwnda-xmr-'' @ i)"
| "newSidecarFile Zph i = Some (''pwnda-zph-'' @ i)"
| "newSidecarFile Zano i = Some (''pwnda-zano-'' @ i @ ''.zan'')"
| "newSidecarFile Xelis i = Some (''pwnda-xelis-'' @ i)"
| "newSidecarFile _ i = None"

definition sidecarFileForEntry :: "WalletEntry \<Rightarrow> string option" where
  "sidecarFileForEntry e =
     (if w_kind e \<noteq> Xmr \<and> w_kind e \<noteq> Zph \<and> w_kind e \<noteq> Zano \<and> w_kind e \<noteq> Xelis then None
      else or_else (w_sidecarFile e) (newSidecarFile (w_kind e) (w_id e)))"

definition flatSidecarFileFor :: "WalletKind \<Rightarrow> string \<Rightarrow> VaultPayloadV3 option \<Rightarrow> string option" where
  "flatSidecarFileFor k i existing =
     (let legacy = (if k = Xmr then LEGACY_XMR_SIDECAR_FILE else LEGACY_ZPH_SIDECAR_FILE);
          held = list_ex (\<lambda>w. w_kind w = k \<and> sidecarFileForEntry w = Some legacy)
                   (case existing of None \<Rightarrow> [] | Some v \<Rightarrow> wallets v)
      in if held then newSidecarFile k i else Some legacy)"

subsection \<open>Seeds\<close>

definition normalizeSeed :: "string \<Rightarrow> string" where
  "normalizeSeed seed = to_lower (squeeze_spaces (js_trim seed))"

datatype FlatSeedRefusal = DifferentSeed | DifferentPassphrase

definition flatSeedRefusal :: "VaultPayload \<Rightarrow> WalletKind \<Rightarrow> string \<Rightarrow> string \<Rightarrow> FlatSeedRefusal option" where
  "flatSeedRefusal current k seed zanoPassphrase =
     (let stored = (if k = Xmr then xmrSeed current
                    else if k = Zph then zphSeed current else zanoSeed current)
      in case stored of
           None \<Rightarrow> None
         | Some st \<Rightarrow>
             if st = [] \<or> normalizeSeed st = [] then None
             else if normalizeSeed st \<noteq> normalizeSeed seed then Some DifferentSeed
             else if k = Zano \<and> coalesce (zanoSeedPassphrase current) [] \<noteq> zanoPassphrase
             then Some DifferentPassphrase
             else None)"

definition findDuplicateSeed :: "VaultPayloadV3 \<Rightarrow> string \<Rightarrow> WalletEntry option" where
  "findDuplicateSeed v3 seed =
     (let nrm = normalizeSeed seed
      in if nrm = [] then None
         else List.find (\<lambda>w. normalizeSeed (w_seed w) = nrm) (wallets v3))"

definition sameAddress :: "string option \<Rightarrow> string option \<Rightarrow> bool" where
  "sameAddress a b = (truthy a \<and> truthy b \<and>
     to_lower (js_trim (the a)) = to_lower (js_trim (the b)))"

definition findDuplicateAddress :: "VaultPayloadV3 \<Rightarrow> string \<Rightarrow> string \<Rightarrow> WalletEntry option" where
  "findDuplicateAddress v3 chn addr =
     List.find (\<lambda>w. w_chain w = Some chn \<and> sameAddress (w_address w) (Some addr)) (wallets v3)"

subsection \<open>Groups and contexts\<close>

definition groupKey :: "WalletEntry \<Rightarrow> string" where
  "groupKey w = coalesce (w_groupId w) (w_id w)"

definition primaryGroupId :: "VaultPayloadV3 \<Rightarrow> string option" where
  "primaryGroupId v3 =
     (let rep = or_else (List.find (\<lambda>w. w_kind w = Bip39) (wallets v3))
                  (case wallets v3 of [] \<Rightarrow> None | w # _ \<Rightarrow> Some w)
      in map_option groupKey rep)"

definition legacyZanoSeedFor :: "VaultPayloadV3 \<Rightarrow> string option \<Rightarrow> (string \<times> string option) option" where
  "legacyZanoSeedFor v3 gid =
     (if \<not> truthy (v3_zanoSeed v3) then None
      else if gid \<noteq> None \<and> gid \<noteq> primaryGroupId v3 then None
      else Some (the (v3_zanoSeed v3), keep_truthy (v3_zanoSeedPassphrase v3)))"

text \<open>\<open>byGroup\<close>: entries under their group key, in the order the keys first appear.\<close>

definition add_to_group ::
    "(string \<times> WalletEntry list) list \<Rightarrow> WalletEntry \<Rightarrow> (string \<times> WalletEntry list) list" where
  "add_to_group m w =
     (case map_of m (groupKey w) of
        Some arr \<Rightarrow> js_set (groupKey w) (arr @ [w]) m
      | None \<Rightarrow> js_set (groupKey w) [w] m)"

definition byGroup :: "VaultPayloadV3 \<Rightarrow> (string \<times> WalletEntry list) list" where
  "byGroup v3 = foldl add_to_group [] (wallets v3)"

definition member_lt :: "WalletEntry \<Rightarrow> WalletEntry \<Rightarrow> bool" where
  "member_lt a b =
     (if w_kind a = Bip39 \<and> w_kind b \<noteq> Bip39 then True
      else if w_kind b = Bip39 \<and> w_kind a \<noteq> Bip39 then False
      else w_createdAt a < w_createdAt b)"

definition mk_context :: "string \<times> WalletEntry list \<Rightarrow> WalletContext" where
  "mk_context g =
     (let sorted = sort_by member_lt (snd g); rep = hd sorted
      in \<lparr>ctx_id = w_id rep, ctx_groupId = fst g, ctx_name = w_name rep, ctx_members = sorted\<rparr>)"

definition earliest :: "WalletContext \<Rightarrow> int" where
  "earliest c = Min (set (map w_createdAt (ctx_members c)))"

definition context_lt :: "string option \<Rightarrow> WalletContext \<Rightarrow> WalletContext \<Rightarrow> bool" where
  "context_lt primaryGid a b =
     (let ap = (if Some (ctx_groupId a) = primaryGid then 0 else 1 :: int);
          bp = (if Some (ctx_groupId b) = primaryGid then 0 else 1)
      in if ap \<noteq> bp then ap < bp else earliest a < earliest b)"

definition listContexts :: "VaultPayloadV3 \<Rightarrow> WalletContext list" where
  "listContexts v3 =
     sort_by (context_lt (primaryGroupId v3)) (map mk_context (byGroup v3))"

definition contextForWallet :: "VaultPayloadV3 \<Rightarrow> string \<Rightarrow> WalletContext option" where
  "contextForWallet v3 activeWalletId =
     (let contexts = listContexts v3;
          first = (case contexts of [] \<Rightarrow> None | c # _ \<Rightarrow> Some c)
      in if activeWalletId = ''all'' then first
         else or_else
           (List.find (\<lambda>c. list_ex (\<lambda>m. w_id m = activeWalletId) (ctx_members c)) contexts) first)"

definition memberOfKind :: "WalletContext option \<Rightarrow> WalletKind \<Rightarrow> WalletEntry option" where
  "memberOfKind ctx k =
     (case ctx of None \<Rightarrow> None | Some c \<Rightarrow> List.find (\<lambda>m. w_kind m = k) (ctx_members c))"

definition shouldShowSwitcher :: "VaultPayloadV3 \<Rightarrow> bool" where
  "shouldShowSwitcher v3 = (2 \<le> length (listContexts v3))"

definition groupIdForWallet :: "VaultPayloadV3 \<Rightarrow> string option \<Rightarrow> string option" where
  "groupIdForWallet v3 activeWalletId =
     (if \<not> truthy activeWalletId \<or> activeWalletId = Some ''all'' then primaryGroupId v3
      else or_else (map_option ctx_groupId (contextForWallet v3 (the activeWalletId)))
             (primaryGroupId v3))"

subsection \<open>Version 2 to version 3\<close>

type_synonym id_supply = "nat \<Rightarrow> string"

definition migrateV2ToV3 :: "int \<Rightarrow> id_supply \<Rightarrow> nat \<Rightarrow> VaultPayload \<Rightarrow> VaultPayloadV3 \<times> nat" where
  "migrateV2ToV3 now genId n v2 =
     (let groupId = genId n;
          n = n + 1;
          ws = [(mk_entry (genId n) ''Main'' Bip39 (bip39 v2) now groupId)
                  \<lparr>w_derivationChoice := derivationChoice v2\<rparr>];
          n = n + 1;
          (ws, n) =
            (if truthy (xmrSeed v2)
             then (ws @ [(mk_entry (genId n) (dotted ''Main'' ''Monero'') Xmr (the (xmrSeed v2)) now groupId)
                     \<lparr>w_xmrSeedFormat := xmrSeedFormat v2, w_restoreHeight := xmrRestoreHeight v2,
                      w_sidecarFile := Some LEGACY_XMR_SIDECAR_FILE\<rparr>], n + 1)
             else (ws, n));
          (ws, n) =
            (if truthy (zphSeed v2)
             then (ws @ [(mk_entry (genId n) (dotted ''Main'' ''Zephyr'') Zph (the (zphSeed v2)) now groupId)
                     \<lparr>w_restoreHeight := zphRestoreHeight v2,
                      w_sidecarFile := Some LEGACY_ZPH_SIDECAR_FILE\<rparr>], n + 1)
             else (ws, n));
          (ws, n) =
            (if truthy (zanoSeed v2)
             then (ws @ [(mk_entry (genId n) (dotted ''Main'' ''Zano'') Zano (the (zanoSeed v2)) now groupId)
                     \<lparr>w_sidecarFile := Some LEGACY_ZANO_SIDECAR_FILE,
                      w_zanoSeedPassphrase := keep_truthy (zanoSeedPassphrase v2)\<rparr>], n + 1)
             else (ws, n))
      in (\<lparr>wallets = ws, lastActiveWalletId = Some ''all'',
           legacyDevFeeAcknowledgedAt = devFeeAcknowledgedAt v2, balanceCache = None,
           v3_zanoSeed = None, v3_zanoSeedPassphrase = None\<rparr>, n))"

subsection \<open>Version 3 to version 2: the read path\<close>

definition inGroup :: "string option \<Rightarrow> WalletEntry \<Rightarrow> bool" where
  "inGroup gid w = (gid = None \<or> Some (groupKey w) = gid)"

definition projectV3ToV2 :: "VaultPayloadV3 \<Rightarrow> string option \<Rightarrow> VaultPayload" where
  "projectV3ToV2 v3 activeWalletId =
     (let gid = groupIdForWallet v3 activeWalletId;
          pick = (\<lambda>k. List.find (\<lambda>w. w_kind w = k \<and> inGroup gid w) (wallets v3));
          b = pick Bip39; xmr = pick Xmr; zph = pick Zph; zano = pick Zano;
          legacyZano = (if zano \<noteq> None then None else legacyZanoSeedFor v3 gid)
      in \<lparr>bip39 = coalesce (map_option w_seed b) [],
          xmrSeed = map_option w_seed xmr,
          xmrSeedFormat = Option.bind xmr w_xmrSeedFormat,
          xmrRestoreHeight = Option.bind xmr w_restoreHeight,
          zphSeed = map_option w_seed zph,
          zphRestoreHeight = Option.bind zph w_restoreHeight,
          zanoSeed = or_else (map_option w_seed zano) (map_option fst legacyZano),
          zanoSeedPassphrase =
            or_else (Option.bind zano w_zanoSeedPassphrase) (Option.bind legacyZano snd),
          derivationChoice = Option.bind b w_derivationChoice,
          devFeeAcknowledgedAt = legacyDevFeeAcknowledgedAt v3\<rparr>)"

subsection \<open>Version 2 into version 3: the write path\<close>

definition order_of :: "WalletEntry list \<Rightarrow> string \<Rightarrow> nat" where
  "order_of ws i =
     coalesce (map_of (rev (zip (map w_id ws) [0..<length ws])) i) (2 ^ 53 - 1)"

text \<open>\<open>prev?.id ?? genId()\<close>, and the four blocks that push one entry each.\<close>

definition id_for :: "id_supply \<Rightarrow> nat \<Rightarrow> WalletEntry option \<Rightarrow> string \<times> nat" where
  "id_for genId n prev = (case prev of Some w \<Rightarrow> (w_id w, n) | None \<Rightarrow> (genId n, n + 1))"

definition flat_entry ::
    "int \<Rightarrow> string \<Rightarrow> WalletEntry option \<Rightarrow> string \<Rightarrow> WalletKind \<Rightarrow> string \<Rightarrow> string \<Rightarrow> WalletEntry" where
  "flat_entry now i prev dflt k seed gid =
     mk_entry i (coalesce (map_option w_name prev) dflt) k seed
       (coalesce (map_option w_createdAt prev) now) gid"

definition merge_bip39 ::
    "int \<Rightarrow> id_supply \<Rightarrow> nat \<Rightarrow> VaultPayload \<Rightarrow> string \<Rightarrow> WalletEntry option \<Rightarrow> WalletEntry list \<times> nat" where
  "merge_bip39 now genId n flat gid prev =
     (let (i, n) = id_for genId n prev
      in ([(flat_entry now i prev ''Main'' Bip39 (bip39 flat) gid)
             \<lparr>w_derivationChoice := derivationChoice flat\<rparr>], n))"

definition merge_xmr ::
    "int \<Rightarrow> id_supply \<Rightarrow> nat \<Rightarrow> VaultPayload \<Rightarrow> VaultPayloadV3 option \<Rightarrow> string \<Rightarrow> WalletEntry option \<Rightarrow>
     WalletEntry list \<times> nat" where
  "merge_xmr now genId n flat existing gid prev =
     (if truthy (xmrSeed flat)
      then (let (i, n) = id_for genId n prev
            in ([(flat_entry now i prev (dotted ''Main'' ''Monero'') Xmr (the (xmrSeed flat)) gid)
                  \<lparr>w_xmrSeedFormat := xmrSeedFormat flat,
                   w_restoreHeight := xmrRestoreHeight flat,
                   w_sidecarFile := (case prev of
                       Some w \<Rightarrow> or_else (w_sidecarFile w) (Some LEGACY_XMR_SIDECAR_FILE)
                     | None \<Rightarrow> flatSidecarFileFor Xmr i existing)\<rparr>], n))
      else ([], n))"

definition merge_zph ::
    "int \<Rightarrow> id_supply \<Rightarrow> nat \<Rightarrow> VaultPayload \<Rightarrow> VaultPayloadV3 option \<Rightarrow> string \<Rightarrow> WalletEntry option \<Rightarrow>
     WalletEntry list \<times> nat" where
  "merge_zph now genId n flat existing gid prev =
     (if truthy (zphSeed flat)
      then (let (i, n) = id_for genId n prev
            in ([(flat_entry now i prev (dotted ''Main'' ''Zephyr'') Zph (the (zphSeed flat)) gid)
                  \<lparr>w_restoreHeight := zphRestoreHeight flat,
                   w_sidecarFile := (case prev of
                       Some w \<Rightarrow> or_else (w_sidecarFile w) (Some LEGACY_ZPH_SIDECAR_FILE)
                     | None \<Rightarrow> flatSidecarFileFor Zph i existing)\<rparr>], n))
      else ([], n))"

definition merge_zano ::
    "int \<Rightarrow> id_supply \<Rightarrow> nat \<Rightarrow> VaultPayload \<Rightarrow> VaultPayloadV3 option \<Rightarrow> string \<Rightarrow> WalletEntry option \<Rightarrow>
     WalletEntry list \<times> nat" where
  "merge_zano now genId n flat existing gid prev =
     (if truthy (zanoSeed flat)
      then (let (i, n) = id_for genId n prev
            in ([(flat_entry now i prev (dotted ''Main'' ''Zano'') Zano (the (zanoSeed flat)) gid)
                  \<lparr>w_sidecarFile :=
                     or_else (Option.bind prev w_sidecarFile)
                       (if truthy (Option.bind existing v3_zanoSeed) \<or> existing = None
                        then Some LEGACY_ZANO_SIDECAR_FILE
                        else newSidecarFile Zano (coalesce (map_option w_id prev) gid)),
                   w_zanoSeedPassphrase := keep_truthy (zanoSeedPassphrase flat)\<rparr>], n))
      else ([], n))"

definition prev_of :: "WalletEntry list \<Rightarrow> string \<Rightarrow> WalletKind \<Rightarrow> WalletEntry option" where
  "prev_of old gid k = List.find (\<lambda>w. w_kind w = k \<and> groupKey w = gid) old"

definition mergeFlatIntoV3 ::
    "int \<Rightarrow> id_supply \<Rightarrow> nat \<Rightarrow> VaultPayload \<Rightarrow> VaultPayloadV3 option \<Rightarrow> string option \<Rightarrow>
     VaultPayloadV3 \<times> nat" where
  "mergeFlatIntoV3 now genId n flat existing activeWalletId =
     (let old = (case existing of None \<Rightarrow> [] | Some v \<Rightarrow> wallets v);
          (gid, n) =
            (case Option.bind existing (\<lambda>v. groupIdForWallet v activeWalletId) of
               Some g \<Rightarrow> (g, n) | None \<Rightarrow> (genId n, n + 1));
          (b, n) = merge_bip39 now genId n flat gid (prev_of old gid Bip39);
          (x, n) = merge_xmr now genId n flat existing gid (prev_of old gid Xmr);
          (z, n) = merge_zph now genId n flat existing gid (prev_of old gid Zph);
          (a, n) = merge_zano now genId n flat existing gid (prev_of old gid Zano);
          ws = b @ x @ z @ a;
          others = filter (\<lambda>w. groupKey w \<noteq> gid) old;
          carried = filter (\<lambda>w. groupKey w = gid \<and> w_kind w = Xelis) old;
          merged = ws @ carried @ others;
          merged = (if existing = None then merged
                    else sort_by (\<lambda>a b. order_of old (w_id a) < order_of old (w_id b)) merged)
      in (\<lparr>wallets = merged,
           lastActiveWalletId =
             Some (coalesce (Option.bind existing lastActiveWalletId) ''all''),
           legacyDevFeeAcknowledgedAt =
             or_else (devFeeAcknowledgedAt flat) (Option.bind existing legacyDevFeeAcknowledgedAt),
           balanceCache = Option.bind existing balanceCache,
           v3_zanoSeed = keep_truthy (zanoSeed flat),
           v3_zanoSeedPassphrase =
             (if truthy (zanoSeed flat) then keep_truthy (zanoSeedPassphrase flat) else None)\<rparr>, n))"

subsection \<open>Operations on single entries\<close>

record NewWalletSpec =
  s_kind :: WalletKind
  s_seed :: string
  s_name :: string
  s_derivationChoice :: "derivation_choice option"
  s_xmrSeedFormat :: "seed_format option"
  s_restoreHeight :: "int option"
  s_zanoSeedPassphrase :: "string option"
  s_chain :: "string option"
  s_address :: "string option"
  s_groupId :: "string option"

definition primaryGroupSlotFor :: "VaultPayloadV3 \<Rightarrow> WalletKind \<Rightarrow> string option" where
  "primaryGroupSlotFor v3 k =
     (if k \<noteq> Xmr \<and> k \<noteq> Zph \<and> k \<noteq> Zano \<and> k \<noteq> Xelis then None
      else case primaryGroupId v3 of
        None \<Rightarrow> None
      | Some gid \<Rightarrow>
          if list_ex (\<lambda>w. w_kind w = k \<and> groupKey w = gid) (wallets v3) then None
          else if k = Zano \<and> legacyZanoSeedFor v3 (Some gid) \<noteq> None then None
          else Some gid)"

definition isInActiveContext :: "VaultPayloadV3 \<Rightarrow> WalletEntry \<Rightarrow> bool" where
  "isInActiveContext v3 e =
     (Some (groupKey e) = groupIdForWallet v3 (Some (coalesce (lastActiveWalletId v3) ''all'')))"

definition addWalletEntry ::
    "int \<Rightarrow> id_supply \<Rightarrow> nat \<Rightarrow> VaultPayloadV3 \<Rightarrow> NewWalletSpec \<Rightarrow>
     (VaultPayloadV3 \<times> WalletEntry) \<times> nat" where
  "addWalletEntry now genId n v3 spec =
     (let i = genId n; n = n + 1;
          (g, n) = (case s_groupId spec of Some g \<Rightarrow> (g, n) | None \<Rightarrow> (genId n, n + 1));
          entry = mk_entry i (s_name spec) (s_kind spec) (s_seed spec) now g;
          entry =
            (if s_kind spec = Bip39 then entry\<lparr>w_derivationChoice := s_derivationChoice spec\<rparr>
             else if s_kind spec = Xmr \<or> s_kind spec = Zph then
               (let e = entry\<lparr>w_restoreHeight := s_restoreHeight spec,
                              w_sidecarFile := newSidecarFile (s_kind spec) i\<rparr>
                in if s_kind spec = Xmr then e\<lparr>w_xmrSeedFormat := s_xmrSeedFormat spec\<rparr> else e)
             else if s_kind spec = Zano then
               entry\<lparr>w_sidecarFile := newSidecarFile (s_kind spec) i,
                     w_zanoSeedPassphrase := keep_truthy (s_zanoSeedPassphrase spec)\<rparr>
             else if s_kind spec = Xelis then
               entry\<lparr>w_sidecarFile := newSidecarFile (s_kind spec) i\<rparr>
             else entry\<lparr>w_chain := s_chain spec, w_address := s_address spec\<rparr>)
      in ((v3\<lparr>wallets := wallets v3 @ [entry]\<rparr>, entry), n))"

datatype xelis_error = DifferentXelisSeed | WordsAlreadySavedAs string

definition addXelisWalletToContext ::
    "int \<Rightarrow> id_supply \<Rightarrow> nat \<Rightarrow> VaultPayloadV3 \<Rightarrow> string \<Rightarrow> string option \<Rightarrow>
     xelis_error + ((VaultPayloadV3 \<times> WalletEntry \<times> bool) \<times> nat)" where
  "addXelisWalletToContext now genId n v3 seed activeWalletId =
     (let gid = groupIdForWallet v3 activeWalletId;
          inContext = (\<lambda>w. gid \<noteq> None \<and> Some (groupKey w) = gid)
      in case List.find (\<lambda>w. w_kind w = Xelis \<and> inContext w) (wallets v3) of
           Some present \<Rightarrow>
             if normalizeSeed (w_seed present) = normalizeSeed seed
             then Inr ((v3, present, False), n)
             else Inl DifferentXelisSeed
         | None \<Rightarrow>
             (case findDuplicateSeed v3 seed of
                Some dup \<Rightarrow> Inl (WordsAlreadySavedAs (w_name dup))
              | None \<Rightarrow>
                  (let ctx = (if gid = None then None
                              else List.find (\<lambda>c. Some (ctx_groupId c) = gid) (listContexts v3));
                       spec = \<lparr>s_kind = Xelis, s_seed = seed,
                         s_name = (case ctx of Some c \<Rightarrow> dotted (ctx_name c) ''Xelis''
                                             | None \<Rightarrow> ''Xelis wallet''),
                         s_derivationChoice = None, s_xmrSeedFormat = None,
                         s_restoreHeight = None, s_zanoSeedPassphrase = None,
                         s_chain = None, s_address = None, s_groupId = gid\<rparr>;
                       ((nxt, entry), n) = addWalletEntry now genId n v3 spec
                   in Inr ((nxt, entry, True), n))))"

definition renameWalletEntry :: "VaultPayloadV3 \<Rightarrow> string \<Rightarrow> string \<Rightarrow> VaultPayloadV3" where
  "renameWalletEntry v3 i nm =
     v3\<lparr>wallets := map (\<lambda>w. if w_id w = i then w\<lparr>w_name := nm\<rparr> else w) (wallets v3)\<rparr>"

definition removeWalletEntry ::
    "VaultPayloadV3 \<Rightarrow> string \<Rightarrow> VaultPayloadV3 \<times> WalletEntry option \<times> bool" where
  "removeWalletEntry v3 i =
     (let removed = List.find (\<lambda>w. w_id w = i) (wallets v3);
          ws = filter (\<lambda>w. w_id w \<noteq> i) (wallets v3);
          nxt = v3\<lparr>wallets := ws\<rparr>;
          nxt = (if lastActiveWalletId nxt = Some i then nxt\<lparr>lastActiveWalletId := Some ''all''\<rparr> else nxt)
      in (nxt, removed, removed \<noteq> None \<and> ws = []))"

definition isPrimaryBip39 :: "VaultPayloadV3 \<Rightarrow> string \<Rightarrow> bool" where
  "isPrimaryBip39 v3 i =
     (case List.find (\<lambda>w. w_kind w = Bip39) (wallets v3) of
        None \<Rightarrow> False | Some p \<Rightarrow> w_id p = i)"
end
