(* ===== verification/Interfaces.thy ===== *)
theory Interfaces
  imports Prelude
begin

section \<open>Interfaces between components\<close>

text \<open>
  Three contracts that several components meet. Each is interpreted on the model of the
  component that provides it, in that component's theory.

  \<^item> \<open>event_machine\<close>: a deterministic component with an invariant that every event keeps;
    what clients use is the invariant after any run.
  \<^item> \<open>prefix_codec\<close>: an encoder with a decoder that reads one value off the front of its
    input; what clients use is that encodings are injective, that no encoding is a proper
    prefix of another, and that concatenations are read back.
  \<^item> \<open>keyed_rows\<close>: a store of rows in which a key names one row; what clients use is
    what a lookup returns after a write.
\<close>

subsection \<open>Machines with an invariant\<close>

locale event_machine =
  fixes step :: "'s \<Rightarrow> 'e \<Rightarrow> 's"
    and good :: "'s \<Rightarrow> bool"
  assumes step_good: "good s \<Longrightarrow> good (step s e)"
begin

lemma run_good: "good s \<Longrightarrow> good (foldl step s es)"
  by (induction es arbitrary: s) (auto intro: step_good)

lemma run_prefix_good: "good s \<Longrightarrow> good (foldl step s (take n es))"
  by (rule run_good)

lemma run_measure_mono:
  assumes "good s" and "\<And>s e. good s \<Longrightarrow> (m s :: 'x::preorder) \<le> m (step s e)"
  shows "m s \<le> m (foldl step s es)"
  using assms(1)
proof (induction es arbitrary: s)
  case (Cons e es)
  then have "m s \<le> m (step s e)" by (simp add: assms(2))
  also have "\<dots> \<le> m (foldl step (step s e) es)" using Cons by (simp add: step_good)
  finally show ?case by simp
qed simp

end

subsection \<open>Self-delimiting codecs\<close>

locale prefix_codec =
  fixes enc :: "'a \<Rightarrow> 'b list"
    and dec :: "'b list \<Rightarrow> ('a \<times> 'b list) option"
    and valid :: "'a \<Rightarrow> bool"
  assumes dec_enc: "valid x \<Longrightarrow> dec (enc x @ rest) = Some (x, rest)"
begin

lemma dec_enc_all: "valid x \<Longrightarrow> dec (enc x) = Some (x, [])"
  using dec_enc [of x "[]"] by simp

lemma enc_cancel:
  assumes "valid x" "valid y" "enc x @ r = enc y @ s" shows "x = y \<and> r = s"
proof -
  have "dec (enc x @ r) = Some (x, r)" using assms(1) by (rule dec_enc)
  moreover have "dec (enc x @ r) = Some (y, s)" unfolding assms(3) using assms(2) by (rule dec_enc)
  ultimately show ?thesis by simp
qed

lemma enc_inj: "valid x \<Longrightarrow> valid y \<Longrightarrow> enc x = enc y \<Longrightarrow> x = y"
  using enc_cancel [of x y "[]" "[]"] by simp

lemma enc_no_proper_prefix: "valid x \<Longrightarrow> valid y \<Longrightarrow> enc y = enc x @ r \<Longrightarrow> r = []"
  using enc_cancel [of x y r "[]"] by simp

lemma concat_enc_inj:
  "(\<forall>x \<in> set xs. valid x) \<Longrightarrow> (\<forall>y \<in> set ys. valid y) \<Longrightarrow> length xs = length ys \<Longrightarrow>
   concat (map enc xs) @ r = concat (map enc ys) @ s \<Longrightarrow> xs = ys \<and> r = s"
proof (induction xs arbitrary: ys)
  case (Cons x xs)
  then obtain y ys' where [simp]: "ys = y # ys'" by (cases ys) auto
  have "enc x @ concat (map enc xs) @ r = enc y @ concat (map enc ys') @ s"
    using Cons.prems(4) by simp
  then have xy: "x = y" and t: "concat (map enc xs) @ r = concat (map enc ys') @ s"
    using enc_cancel [of x y] Cons.prems(1,2) by simp_all
  have "xs = ys' \<and> r = s" by (rule Cons.IH) (use Cons.prems t in simp_all)
  with xy show ?case by simp
qed auto

end

subsection \<open>Stores of rows with a key\<close>

locale keyed_rows =
  fixes key :: "'r \<Rightarrow> 'k"
    and put :: "'r \<Rightarrow> 'r list \<Rightarrow> 'r list"
    and limit :: nat
  assumes put_hd: "\<exists>r' rest. put r rows = r' # rest \<and> key r' = key r"
    and put_others: "\<exists>n. tl (put r rows) = take n (filter (\<lambda>x. key x \<noteq> key r) rows)"
    and put_limit: "length (put r rows) \<le> limit"
begin

lemma put_distinct: "distinct (map key rows) \<Longrightarrow> distinct (map key (put r rows))"
proof -
  assume d: "distinct (map key rows)"
  obtain r' rest n where p: "put r rows = r' # rest" "key r' = key r"
      and n: "tl (put r rows) = take n (filter (\<lambda>x. key x \<noteq> key r) rows)"
    using put_hd put_others by metis
  then have rest: "rest = take n (filter (\<lambda>x. key x \<noteq> key r) rows)" by simp
  then have "key r \<notin> set (map key rest)" by (auto dest: in_set_takeD)
  moreover have "distinct (map key rest)"
    unfolding rest take_map [symmetric] using d by (simp add: distinct_map_filter)
  ultimately show ?thesis using p by auto
qed

lemma put_lookup_same:
  "\<exists>r'. List.find (\<lambda>x. key x = key r) (put r rows) = Some r' \<and> key r' = key r"
  using put_hd [of r rows] by auto

lemma put_keeps:
  assumes "x \<in> set (put r rows)" "key x \<noteq> key r" shows "x \<in> set rows"
proof -
  obtain r' rest n where p: "put r rows = r' # rest" "key r' = key r"
      and n: "tl (put r rows) = take n (filter (\<lambda>x. key x \<noteq> key r) rows)"
    using put_hd put_others by metis
  from p assms have "x \<in> set (tl (put r rows))" by auto
  with n show ?thesis by (metis filter_is_subset in_set_takeD subsetD)
qed

end

end
