(* ===== verification/VaultContexts.thy ===== *)
theory VaultContexts
  imports Vault Interfaces
begin

section \<open>Grouping, contexts and the migration: proofs\<close>

text \<open>
  The contexts a vault lists are exactly its groups: each entry is a member of the one context
  of its group key, the primary group comes first, and looking a wallet up selects its own
  group. The migration of a version 2 payload followed by the projection gives the payload
  back.
\<close>

subsection \<open>byGroup\<close>

lemma distinct_foldl_add_to_group:
  "distinct (map fst m) \<Longrightarrow> distinct (map fst (foldl add_to_group m ws))"
  by (induction ws arbitrary: m) (auto simp: add_to_group_def distinct_js_set split: option.splits)

lemma map_of_add_to_group:
  "map_of (add_to_group m w) =
     (map_of m)(groupKey w \<mapsto> coalesce (map_of m (groupKey w)) [] @ [w])"
  by (auto simp: add_to_group_def split: option.splits)

lemma map_of_byGroup_list:
  "map_of (foldl add_to_group [] ws) g =
     (let f = filter (\<lambda>w. groupKey w = g) ws in if f = [] then None else Some f)"
proof (induction ws rule: rev_induct)
  case (snoc w ws)
  show ?case
  proof (cases "g = groupKey w")
    case True
    have "coalesce (map_of (foldl add_to_group [] ws) (groupKey w)) [] =
        filter (\<lambda>x. groupKey x = groupKey w) ws"
      using snoc True by (simp add: Let_def)
    then show ?thesis by (simp add: map_of_add_to_group True)
  next
    case False
    then show ?thesis using snoc by (simp add: map_of_add_to_group)
  qed
qed simp

definition members_of :: "VaultPayloadV3 \<Rightarrow> string \<Rightarrow> WalletEntry list" where
  "members_of v g = filter (\<lambda>w. groupKey w = g) (wallets v)"

lemma distinct_byGroup: "distinct (map fst (byGroup v))"
  by (simp add: byGroup_def distinct_foldl_add_to_group)

lemma byGroup_iff:
  "(g, ms) \<in> set (byGroup v) \<longleftrightarrow> ms = members_of v g \<and> ms \<noteq> []"
proof -
  have "(g, ms) \<in> set (byGroup v) \<longleftrightarrow> map_of (byGroup v) g = Some ms"
    using distinct_byGroup by (metis map_of_SomeD map_of_is_SomeI)
  then show ?thesis
    by (auto simp: byGroup_def members_of_def map_of_byGroup_list Let_def)
qed

lemma mk_context_simps [simp]:
  "ctx_groupId (mk_context g) = fst g" "ctx_members (mk_context g) = sort_by member_lt (snd g)"
  by (simp_all add: mk_context_def Let_def)

lemma contexts_iff:
  "c \<in> set (listContexts v) \<longleftrightarrow>
     c = mk_context (ctx_groupId c, members_of v (ctx_groupId c)) \<and> members_of v (ctx_groupId c) \<noteq> []"
proof -
  have "c \<in> set (listContexts v) \<longleftrightarrow> (\<exists>g. (g, members_of v g) \<in> set (byGroup v) \<and> c = mk_context (g, members_of v g))"
    by (auto simp: listContexts_def byGroup_iff)
  also have "\<dots> \<longleftrightarrow> c = mk_context (ctx_groupId c, members_of v (ctx_groupId c)) \<and> members_of v (ctx_groupId c) \<noteq> []"
    by (auto simp: byGroup_iff)
  finally show ?thesis .
qed

lemma context_members:
  "c \<in> set (listContexts v) \<Longrightarrow> ctx_members c = sort_by member_lt (members_of v (ctx_groupId c))"
  using contexts_iff [of c v] by (metis mk_context_simps(2) snd_conv)

lemma context_member_iff:
  "c \<in> set (listContexts v) \<Longrightarrow> w \<in> set (ctx_members c) \<longleftrightarrow> w \<in> set (wallets v) \<and> groupKey w = ctx_groupId c"
  by (auto simp: context_members members_of_def)

lemma context_of_wallet:
  assumes "w \<in> set (wallets v)"
  shows "mk_context (groupKey w, members_of v (groupKey w)) \<in> set (listContexts v)"
proof -
  have "w \<in> set (members_of v (groupKey w))" using assms by (simp add: members_of_def)
  then have "members_of v (groupKey w) \<noteq> []" by auto
  then show ?thesis by (subst contexts_iff) simp
qed

lemma distinct_contexts: "distinct (map ctx_groupId (listContexts v))"
proof -
  have "map ctx_groupId (map mk_context (byGroup v)) = map fst (byGroup v)" by (simp add: comp_def)
  then show ?thesis by (simp only: listContexts_def distinct_map_sort_by distinct_byGroup)
qed

lemma primaryGroupId_Some:
  "wallets v \<noteq> [] \<Longrightarrow> \<exists>w \<in> set (wallets v). primaryGroupId v = Some (groupKey w)"
proof (cases "List.find (\<lambda>w. w_kind w = Bip39) (wallets v)")
  case None
  then show "wallets v \<noteq> [] \<Longrightarrow> ?thesis"
    by (cases "wallets v") (auto simp: primaryGroupId_def Let_def)
next
  case (Some w)
  then show ?thesis by (auto simp: primaryGroupId_def Let_def dest: find_SomeD)
qed

lemma weak_order_context_lt: "weak_order (context_lt p)"
  by (auto simp: weak_order_def context_lt_def Let_def split: if_splits)

lemma weak_order_member_lt: "weak_order member_lt"
  using weak_order_two_keys [of "\<lambda>w. w_kind w = Bip39" w_createdAt]
  by (simp add: member_lt_def [abs_def])

lemma listContexts_Nil_iff [simp]: "listContexts v = [] \<longleftrightarrow> wallets v = []"
proof
  assume "listContexts v = []"
  then show "wallets v = []" using context_of_wallet [of "hd (wallets v)" v] by (cases "wallets v") auto
next
  assume "wallets v = []"
  then show "listContexts v = []" by (simp add: listContexts_def byGroup_def)
qed

lemma primary_context_first:
  assumes "wallets v \<noteq> []"
  shows "Some (ctx_groupId (hd (listContexts v))) = primaryGroupId v"
proof -
  obtain w where w: "w \<in> set (wallets v)" and p: "primaryGroupId v = Some (groupKey w)"
    using primaryGroupId_Some [OF assms] by blast
  let ?c = "mk_context (groupKey w, members_of v (groupKey w))"
  obtain c cs where cs: "listContexts v = c # cs" using assms by (cases "listContexts v") auto
  have "?c \<in> set (listContexts v)" by (rule context_of_wallet [OF w])
  then have in_pre: "?c \<in> set (map mk_context (byGroup v))" by (simp add: listContexts_def)
  have "\<not> context_lt (primaryGroupId v) ?c c"
    by (rule sort_by_first_least [OF weak_order_context_lt _ in_pre]) (use cs in \<open>simp add: listContexts_def\<close>)
  then show ?thesis using p cs by (auto simp: context_lt_def Let_def split: if_splits)
qed

lemma mset_concat_partition:
  "distinct ks \<Longrightarrow> (\<And>x. x \<in> set xs \<Longrightarrow> f x \<in> set ks) \<Longrightarrow>
   mset (concat (map (\<lambda>k. filter (\<lambda>x. f x = k) xs) ks)) = mset xs"
proof (induction ks arbitrary: xs)
  case Nil
  then show ?case by (cases xs) auto
next
  case (Cons k ks)
  let ?ys = "filter (\<lambda>x. f x \<noteq> k) xs"
  have e: "map (\<lambda>k. filter (\<lambda>x. f x = k) xs) ks = map (\<lambda>k. filter (\<lambda>x. f x = k) ?ys) ks"
    using Cons.prems(1) by (auto intro!: filter_cong)
  have IH: "mset (concat (map (\<lambda>k. filter (\<lambda>x. f x = k) ?ys) ks)) = mset ?ys"
    by (rule Cons.IH) (use Cons.prems in auto)
  have "mset (concat (map (\<lambda>k. filter (\<lambda>x. f x = k) xs) (k # ks))) =
      mset (filter (\<lambda>x. f x = k) xs) + mset (concat (map (\<lambda>k. filter (\<lambda>x. f x = k) xs) ks))"
    by simp
  also have "\<dots> = mset (filter (\<lambda>x. f x = k) xs) + mset ?ys" by (simp only: e IH)
  also have "\<dots> = mset xs" by (simp flip: multiset_partition)
  finally show ?case .
qed

lemma mset_concat_mset_eq: "mset as = mset bs \<Longrightarrow> mset (concat as) = mset (concat bs)"
  by (simp add: mset_concat) (metis mset_map sum_mset_sum_list)

lemma mset_concat_contexts: "mset (concat (map ctx_members (listContexts v))) = mset (wallets v)"
proof -
  let ?ks = "map fst (byGroup v)"
  have ks: "groupKey w \<in> set ?ks" if "w \<in> set (wallets v)" for w
  proof -
    have "w \<in> set (members_of v (groupKey w))" using that by (simp add: members_of_def)
    then have "members_of v (groupKey w) \<noteq> []" by auto
    then have "(groupKey w, members_of v (groupKey w)) \<in> set (byGroup v)" by (simp add: byGroup_iff)
    then show ?thesis by force
  qed
  have g: "map snd (byGroup v) = map (\<lambda>k. filter (\<lambda>x. groupKey x = k) (wallets v)) ?ks"
    by (auto simp: byGroup_iff members_of_def)
  have "mset (map ctx_members (listContexts v)) =
      mset (map (\<lambda>g. sort_by member_lt (snd g)) (byGroup v))"
  proof -
    have "mset (map ctx_members (sort_by lt xs)) = mset (map ctx_members xs)" for lt xs
      by (simp only: mset_map mset_sort_by)
    then have "mset (map ctx_members (listContexts v)) = mset (map ctx_members (map mk_context (byGroup v)))"
      unfolding listContexts_def .
    then show ?thesis by (simp add: comp_def)
  qed
  then have "mset (concat (map ctx_members (listContexts v))) =
      mset (concat (map (\<lambda>g. sort_by member_lt (snd g)) (byGroup v)))"
    by (rule mset_concat_mset_eq)
  also have "\<dots> = mset (concat (map snd (byGroup v)))"
    by (induction "byGroup v") (simp_all add: mset_concat comp_def)
  also have "\<dots> = mset (concat (map (\<lambda>k. filter (\<lambda>x. groupKey x = k) (wallets v)) ?ks))"
    by (simp only: g)
  also have "\<dots> = mset (wallets v)" 
    by (rule mset_concat_partition [OF distinct_byGroup ks])
  finally show ?thesis .
qed

subsection \<open>Looking a wallet up\<close>

definition ids :: "VaultPayloadV3 \<Rightarrow> string list" where "ids v = map w_id (wallets v)"

lemma id_unique:
  "distinct (ids v) \<Longrightarrow> w \<in> set (wallets v) \<Longrightarrow> x \<in> set (wallets v) \<Longrightarrow> w_id w = w_id x \<Longrightarrow> w = x"
  by (auto simp: ids_def distinct_map dest: inj_onD)

text \<open>An id names a group when every entry that carries it is in that group.\<close>

definition id_names :: "VaultPayloadV3 \<Rightarrow> string \<Rightarrow> string \<Rightarrow> bool" where
  "id_names v i g \<longleftrightarrow> i \<noteq> [] \<and> i \<noteq> ''all'' \<and> (\<exists>w \<in> set (wallets v). w_id w = i) \<and>
     (\<forall>w \<in> set (wallets v). w_id w = i \<longrightarrow> groupKey w = g)"

lemma groupIdForWallet_names:
  assumes "id_names v i g" shows "groupIdForWallet v (Some i) = Some g"
proof -
  obtain w where w: "w \<in> set (wallets v)" "w_id w = i" "groupKey w = g"
    and all: "\<And>x. x \<in> set (wallets v) \<Longrightarrow> w_id x = i \<Longrightarrow> groupKey x = g"
    and i: "i \<noteq> []" "i \<noteq> ''all''"
    using assms unfolding id_names_def by blast
  let ?c = "mk_context (g, members_of v g)"
  have c: "?c \<in> set (listContexts v)" using context_of_wallet [OF w(1)] w(3) by simp
  have "List.find (\<lambda>c. list_ex (\<lambda>m. w_id m = i) (ctx_members c)) (listContexts v) = Some ?c"
  proof (rule find_unique [OF c])
    show "list_ex (\<lambda>m. w_id m = i) (ctx_members ?c)"
      using w by (auto simp: list_ex_iff members_of_def)
    fix d assume d: "d \<in> set (listContexts v)" "list_ex (\<lambda>m. w_id m = i) (ctx_members d)"
    then obtain m where "m \<in> set (wallets v)" "groupKey m = ctx_groupId d" "w_id m = i"
      by (auto simp: list_ex_iff context_member_iff)
    then have "ctx_groupId d = g" using all by auto
    then show "d = ?c" using d(1) contexts_iff [of d v] by simp
  qed
  then show ?thesis using i by (simp add: groupIdForWallet_def contextForWallet_def Let_def)
qed

lemma groupIdForWallet_id:
  assumes "distinct (ids v)" "w \<in> set (wallets v)" "w_id w \<noteq> ''all''" "w_id w \<noteq> []"
  shows "groupIdForWallet v (Some (w_id w)) = Some (groupKey w)"
proof (rule groupIdForWallet_names)
  have "x = w" if "x \<in> set (wallets v)" "w_id x = w_id w" for x
    using id_unique [OF assms(1) that(1) assms(2) that(2)] .
  then show "id_names v (w_id w) (groupKey w)" using assms(2-4) by (auto simp: id_names_def)
qed

lemma groupIdForWallet_primary [simp]:
  "groupIdForWallet v None = primaryGroupId v" "groupIdForWallet v (Some ''all'') = primaryGroupId v"
  by (simp_all add: groupIdForWallet_def)

lemma groupIdForWallet_member:
  assumes "wallets v \<noteq> []"
  shows "\<exists>w \<in> set (wallets v). groupIdForWallet v a = Some (groupKey w)"
proof -
  have ctx: "\<exists>w \<in> set (wallets v). ctx_groupId c = groupKey w" if "c \<in> set (listContexts v)" for c
    using that contexts_iff [of c v] by (cases "members_of v (ctx_groupId c)")
      (auto simp: members_of_def filter_eq_Cons_iff)
  show ?thesis
  proof (cases "contextForWallet v (the a)")
    case None
    then show ?thesis using primaryGroupId_Some [OF assms] by (simp add: groupIdForWallet_def)
  next
    case (Some c)
    have "c \<in> set (listContexts v)"
      using Some by (auto simp: contextForWallet_def Let_def or_else_def
          split: list.splits if_splits option.splits dest: find_SomeD)
    then show ?thesis
      using ctx Some primaryGroupId_Some [OF assms] by (auto simp: groupIdForWallet_def)
  qed
qed

lemma groupIdForWallet_one_group:
  "wallets v \<noteq> [] \<Longrightarrow> \<forall>w \<in> set (wallets v). groupKey w = g \<Longrightarrow> groupIdForWallet v a = Some g"
  using groupIdForWallet_member [of v a] by auto


subsection \<open>Contexts partition the vault\<close>

text \<open>The contexts partition the vault: together they hold each wallet once, every member of a
  context has the context's group key and every wallet of that group is a member, no two
  contexts share a group, and the first context is the primary one.\<close>

theorem listContexts_partition:
  "mset (concat (map ctx_members (listContexts v))) = mset (wallets v) \<and>
   (\<nexists>c. c \<in> set (listContexts v) \<and>
      {w \<in> set (wallets v). groupKey w = ctx_groupId c} \<noteq> set (ctx_members c)) \<and>
   distinct (map ctx_groupId (listContexts v)) \<and>
   map_option ctx_groupId (contextForWallet v ''all'') = primaryGroupId v"
proof (intro conjI)
  show "mset (concat (map ctx_members (listContexts v))) = mset (wallets v)"
    by (rule mset_concat_contexts)
  show "\<nexists>c. c \<in> set (listContexts v) \<and>
      {w \<in> set (wallets v). groupKey w = ctx_groupId c} \<noteq> set (ctx_members c)"
    using context_member_iff by blast
  show "distinct (map ctx_groupId (listContexts v))" by (rule distinct_contexts)
  show "map_option ctx_groupId (contextForWallet v ''all'') = primaryGroupId v"
  proof (cases "listContexts v")
    case Nil
    then have "wallets v = []" using listContexts_Nil_iff [of v] by simp
    with Nil show ?thesis by (simp add: contextForWallet_def primaryGroupId_def Let_def
        del: listContexts_Nil_iff)
  next
    case (Cons c cs)
    then have "wallets v \<noteq> []" using listContexts_Nil_iff [of v] by auto
    then show ?thesis using Cons primary_context_first [of v] by (simp add: contextForWallet_def Let_def)
  qed
qed

subsection \<open>Migration and projection\<close>

text \<open>What a flat payload says once the properties without a wallet are dropped.\<close>

definition canon :: "VaultPayload \<Rightarrow> VaultPayload" where
  "canon f = f\<lparr>xmrSeed := keep_truthy (xmrSeed f),
      xmrSeedFormat := (if truthy (xmrSeed f) then xmrSeedFormat f else None),
      xmrRestoreHeight := (if truthy (xmrSeed f) then xmrRestoreHeight f else None),
      zphSeed := keep_truthy (zphSeed f),
      zphRestoreHeight := (if truthy (zphSeed f) then zphRestoreHeight f else None),
      zanoSeed := keep_truthy (zanoSeed f),
      zanoSeedPassphrase :=
        (if truthy (zanoSeed f) then keep_truthy (zanoSeedPassphrase f) else None)\<rparr>"

lemma mk_entry_simps [simp]:
  "w_id (mk_entry i nm k sd t g) = i" "w_name (mk_entry i nm k sd t g) = nm"
  "w_kind (mk_entry i nm k sd t g) = k" "w_seed (mk_entry i nm k sd t g) = sd"
  "w_createdAt (mk_entry i nm k sd t g) = t" "w_groupId (mk_entry i nm k sd t g) = Some g"
  "w_derivationChoice (mk_entry i nm k sd t g) = None"
  "w_xmrSeedFormat (mk_entry i nm k sd t g) = None"
  "w_restoreHeight (mk_entry i nm k sd t g) = None"
  "w_sidecarFile (mk_entry i nm k sd t g) = None"
  "w_zanoSeedPassphrase (mk_entry i nm k sd t g) = None"
  by (simp_all add: mk_entry_def)

lemma groupKey_update [simp]:
  "groupKey (w\<lparr>w_derivationChoice := a\<rparr>) = groupKey w"
  "groupKey (w\<lparr>w_xmrSeedFormat := b\<rparr>) = groupKey w"
  "groupKey (w\<lparr>w_restoreHeight := c\<rparr>) = groupKey w"
  "groupKey (w\<lparr>w_sidecarFile := d\<rparr>) = groupKey w"
  "groupKey (w\<lparr>w_zanoSeedPassphrase := e\<rparr>) = groupKey w"
  "groupKey (w\<lparr>w_name := f\<rparr>) = groupKey w"
  "groupKey (w\<lparr>w_chain := h\<rparr>) = groupKey w"
  "groupKey (w\<lparr>w_address := j\<rparr>) = groupKey w"
  by (simp_all add: groupKey_def)

lemma groupKey_mk_entry [simp]: "groupKey (mk_entry i nm k sd t g) = g"
  by (simp add: groupKey_def)

lemma migrate_groups:
  "\<forall>w \<in> set (wallets (fst (migrateV2ToV3 now genId n f))). groupKey w = genId n"
  by (simp add: migrateV2ToV3_def Let_def)

lemma migrate_not_Nil: "wallets (fst (migrateV2ToV3 now genId n f)) \<noteq> []"
  by (simp add: migrateV2ToV3_def Let_def)

text \<open>Migrating a flat payload to version 3 and projecting any wallet of the result gives
  the payload back, less the properties of wallets it does not have: an upgrade loses no
  seed, format, restore height, passphrase or derivation choice.\<close>

theorem migrate_project_roundtrip:
  "projectV3ToV2 (fst (migrateV2ToV3 now genId n f)) active = canon f"
proof -
  have gid: "groupIdForWallet (fst (migrateV2ToV3 now genId n f)) active = Some (genId n)"
    by (rule groupIdForWallet_one_group [OF migrate_not_Nil migrate_groups])
  show ?thesis
    unfolding projectV3ToV2_def gid
    by (simp add: migrateV2ToV3_def Let_def inGroup_def canon_def legacyZanoSeedFor_def
        keep_truthy_def truthy_def split: option.splits)
qed
end
