(* ===== verification/VaultMerge.thy ===== *)
theory VaultMerge
  imports VaultContexts
begin

section \<open>Writing a flat payload back: proofs about mergeFlatIntoV3\<close>

text \<open>
  The merge rebuilds the entries of one context from a flat payload. The lemmas show that
  what is projected afterwards is the payload that was written, that no wallet of another
  context and no Xelis wallet is touched, and that the primary context stays primary.
\<close>

subsection \<open>The order of entries\<close>

lemma order_of_nth:
  assumes "distinct (map w_id ws)" "i < length ws"
  shows "order_of ws (w_id (ws ! i)) = i"
proof -
  have "map_of (rev (zip (map w_id ws) [0..<length ws])) (w_id (ws ! i)) = Some i"
  proof (rule map_of_is_SomeI)
    show "distinct (map fst (rev (zip (map w_id ws) [0..<length ws])))"
      using assms(1) by (simp flip: rev_map)
    show "(w_id (ws ! i), i) \<in> set (rev (zip (map w_id ws) [0..<length ws]))"
      using assms(2) by (auto simp: set_zip intro!: exI [of _ i])
  qed
  then show ?thesis by (simp add: order_of_def)
qed

lemma order_of_new:
  assumes "i \<notin> set (map w_id ws)" shows "order_of ws i = 2 ^ 53 - 1"
proof -
  have "map_of (rev (zip (map w_id ws) [0..<length ws])) i = None"
    using assms by (force simp: map_of_eq_None_iff dest: set_zip_leftD)
  then show ?thesis by (simp add: order_of_def)
qed

lemma sorted_order_of:
  "distinct (map w_id ws) \<Longrightarrow>
   sorted_wrt (\<lambda>a b. order_of ws (w_id a) < order_of ws (w_id b)) ws"
  by (simp add: sorted_wrt_iff_nth_less order_of_nth)

lemma by_less_order_of:
  "distinct (map w_id ws) \<Longrightarrow>
   sorted_wrt (\<lambda>a b. \<not> order_of ws (w_id b) < order_of ws (w_id a)) (filter P ws)"
  by (rule sorted_wrt_filter, rule sorted_wrt_mono_rel [OF _ sorted_order_of]) auto

subsection \<open>The rebuilt entries\<close>

definition merge_gid :: "id_supply \<Rightarrow> nat \<Rightarrow> VaultPayloadV3 \<Rightarrow> string option \<Rightarrow> string \<times> nat" where
  "merge_gid genId n v a =
     (case groupIdForWallet v a of Some g \<Rightarrow> (g, n) | None \<Rightarrow> (genId n, n + 1))"

definition rebuilt ::
    "int \<Rightarrow> id_supply \<Rightarrow> nat \<Rightarrow> VaultPayload \<Rightarrow> VaultPayloadV3 \<Rightarrow> string \<Rightarrow> WalletEntry list \<times> nat" where
  "rebuilt now genId n flat v gid =
     (let (b, n) = merge_bip39 now genId n flat gid (prev_of (wallets v) gid Bip39);
          (x, n) = merge_xmr now genId n flat (Some v) gid (prev_of (wallets v) gid Xmr);
          (z, n) = merge_zph now genId n flat (Some v) gid (prev_of (wallets v) gid Zph);
          (a, n) = merge_zano now genId n flat (Some v) gid (prev_of (wallets v) gid Zano)
      in (b @ x @ z @ a, n))"

lemma wallets_merge:
  "wallets (fst (mergeFlatIntoV3 now genId n flat (Some v) a)) =
     (let (gid, m) = merge_gid genId n v a
      in sort_by (\<lambda>a b. order_of (wallets v) (w_id a) < order_of (wallets v) (w_id b))
           (fst (rebuilt now genId m flat v gid) @
            filter (\<lambda>w. groupKey w = gid \<and> w_kind w = Xelis) (wallets v) @
            filter (\<lambda>w. groupKey w \<noteq> gid) (wallets v)))"
  by (simp add: mergeFlatIntoV3_def rebuilt_def merge_gid_def Let_def case_prod_beta)

lemma merge_gid_eq: "groupIdForWallet v a = Some gid \<Longrightarrow> merge_gid genId n v a = (gid, n)"
  by (simp add: merge_gid_def)

lemma merge_fields:
  "legacyDevFeeAcknowledgedAt (fst (mergeFlatIntoV3 now genId n flat (Some v) a)) =
     or_else (devFeeAcknowledgedAt flat) (legacyDevFeeAcknowledgedAt v)"
  "v3_zanoSeed (fst (mergeFlatIntoV3 now genId n flat (Some v) a)) = keep_truthy (zanoSeed flat)"
  by (simp_all add: mergeFlatIntoV3_def Let_def case_prod_beta)

lemmas merge_block_defs =
  merge_bip39_def merge_xmr_def merge_zph_def merge_zano_def flat_entry_def

lemma merge_bip39_shape:
  "\<exists>e. fst (merge_bip39 now genId n flat gid prev) = [e] \<and> w_kind e = Bip39 \<and> groupKey e = gid \<and>
     w_id e = fst (id_for genId n prev) \<and> w_seed e = bip39 flat \<and>
     w_derivationChoice e = derivationChoice flat"
  by (simp add: merge_bip39_def flat_entry_def Let_def case_prod_beta)

lemma merge_xmr_shape:
  "fst (merge_xmr now genId n flat ex gid prev) = [] \<and> \<not> truthy (xmrSeed flat) \<or>
   (\<exists>e. fst (merge_xmr now genId n flat ex gid prev) = [e] \<and> truthy (xmrSeed flat) \<and>
     w_kind e = Xmr \<and> groupKey e = gid \<and> w_id e = fst (id_for genId n prev) \<and>
     Some (w_seed e) = xmrSeed flat \<and> w_xmrSeedFormat e = xmrSeedFormat flat \<and>
     w_restoreHeight e = xmrRestoreHeight flat \<and>
     w_sidecarFile e = (case prev of Some w \<Rightarrow> or_else (w_sidecarFile w) (Some LEGACY_XMR_SIDECAR_FILE)
                     | None \<Rightarrow> flatSidecarFileFor Xmr (fst (id_for genId n prev)) ex))"
  by (auto simp: merge_xmr_def flat_entry_def Let_def case_prod_beta elim: truthyE)

lemma merge_zph_shape:
  "fst (merge_zph now genId n flat ex gid prev) = [] \<and> \<not> truthy (zphSeed flat) \<or>
   (\<exists>e. fst (merge_zph now genId n flat ex gid prev) = [e] \<and> truthy (zphSeed flat) \<and>
     w_kind e = Zph \<and> groupKey e = gid \<and> w_id e = fst (id_for genId n prev) \<and>
     Some (w_seed e) = zphSeed flat \<and> w_restoreHeight e = zphRestoreHeight flat \<and>
     w_sidecarFile e = (case prev of Some w \<Rightarrow> or_else (w_sidecarFile w) (Some LEGACY_ZPH_SIDECAR_FILE)
                     | None \<Rightarrow> flatSidecarFileFor Zph (fst (id_for genId n prev)) ex))"
  by (auto simp: merge_zph_def flat_entry_def Let_def case_prod_beta elim: truthyE)

lemma merge_zano_shape:
  "fst (merge_zano now genId n flat ex gid prev) = [] \<and> \<not> truthy (zanoSeed flat) \<or>
   (\<exists>e. fst (merge_zano now genId n flat ex gid prev) = [e] \<and> truthy (zanoSeed flat) \<and>
     w_kind e = Zano \<and> groupKey e = gid \<and> w_id e = fst (id_for genId n prev) \<and>
     Some (w_seed e) = zanoSeed flat \<and>
     w_zanoSeedPassphrase e = keep_truthy (zanoSeedPassphrase flat))"
  by (auto simp: merge_zano_def flat_entry_def Let_def case_prod_beta elim: truthyE)

text \<open>The positions in the id supply at which the four blocks run.\<close>

definition at_xmr where "at_xmr now genId n flat v gid =
  snd (merge_bip39 now genId n flat gid (prev_of (wallets v) gid Bip39))"
definition at_zph where "at_zph now genId n flat v gid =
  snd (merge_xmr now genId (at_xmr now genId n flat v gid) flat (Some v) gid (prev_of (wallets v) gid Xmr))"
definition at_zano where "at_zano now genId n flat v gid =
  snd (merge_zph now genId (at_zph now genId n flat v gid) flat (Some v) gid (prev_of (wallets v) gid Zph))"

lemma rebuilt_blocks:
  "fst (rebuilt now genId n flat v gid) =
     fst (merge_bip39 now genId n flat gid (prev_of (wallets v) gid Bip39)) @
     fst (merge_xmr now genId (at_xmr now genId n flat v gid) flat (Some v) gid (prev_of (wallets v) gid Xmr)) @
     fst (merge_zph now genId (at_zph now genId n flat v gid) flat (Some v) gid (prev_of (wallets v) gid Zph)) @
     fst (merge_zano now genId (at_zano now genId n flat v gid) flat (Some v) gid (prev_of (wallets v) gid Zano))"
  by (simp add: rebuilt_def at_xmr_def at_zph_def at_zano_def Let_def case_prod_beta)

lemma merge_bip39_mem: "w \<in> set (fst (merge_bip39 now genId n flat gid prev)) \<Longrightarrow> groupKey w = gid \<and> w_kind w = Bip39"
  using merge_bip39_shape [of now genId n flat gid prev] by auto

lemma merge_xmr_mem: "w \<in> set (fst (merge_xmr now genId n flat ex gid prev)) \<Longrightarrow> groupKey w = gid \<and> w_kind w = Xmr"
  using merge_xmr_shape [of now genId n flat ex gid prev] by auto

lemma merge_zph_mem: "w \<in> set (fst (merge_zph now genId n flat ex gid prev)) \<Longrightarrow> groupKey w = gid \<and> w_kind w = Zph"
  using merge_zph_shape [of now genId n flat ex gid prev] by auto

lemma merge_zano_mem: "w \<in> set (fst (merge_zano now genId n flat ex gid prev)) \<Longrightarrow> groupKey w = gid \<and> w_kind w = Zano"
  using merge_zano_shape [of now genId n flat ex gid prev] by auto

lemmas merge_mems = merge_bip39_mem merge_xmr_mem merge_zph_mem merge_zano_mem

lemma rebuilt_group:
  assumes "w \<in> set (fst (rebuilt now genId n flat v gid))"
  shows "groupKey w = gid \<and> w_kind w \<in> {Bip39, Xmr, Zph, Zano}"
  using assms unfolding rebuilt_blocks set_append by (elim UnE) (auto dest!: merge_mems)

lemma set_wallets_merge:
  "merge_gid genId n v a = (gid, m) \<Longrightarrow>
   set (wallets (fst (mergeFlatIntoV3 now genId n flat (Some v) a))) =
     set (fst (rebuilt now genId m flat v gid)) \<union>
     {w \<in> set (wallets v). groupKey w = gid \<and> w_kind w = Xelis} \<union>
     {w \<in> set (wallets v). groupKey w \<noteq> gid}"
  by (auto simp: wallets_merge)

text \<open>A vault with two contexts, the payload saved into the second one, and an id supply.\<close>

definition demo_ids :: id_supply where "demo_ids k = replicate (k + 2) (CHR ''x'')"

definition demo_flat :: VaultPayload where
  "demo_flat = \<lparr>bip39 = ''seed b'', xmrSeed = Some ''seed x'', xmrSeedFormat = Some Legacy,
     xmrRestoreHeight = Some 3000000, zphSeed = None, zphRestoreHeight = None,
     zanoSeed = Some ''seed y'', zanoSeedPassphrase = None, derivationChoice = None,
     devFeeAcknowledgedAt = None\<rparr>"

definition demo_vault :: VaultPayloadV3 where
  "demo_vault = \<lparr>wallets =
      [mk_entry ''a'' ''Main'' Bip39 ''seed a'' 1 ''g'',
       (mk_entry ''z'' ''Main Z'' Zano ''seed z'' 1 ''g'')\<lparr>w_sidecarFile := Some LEGACY_ZANO_SIDECAR_FILE\<rparr>,
       mk_entry ''b'' ''Two'' Bip39 ''seed b'' 2 ''h''],
     lastActiveWalletId = Some ''all'', legacyDevFeeAcknowledgedAt = Some 5, balanceCache = None,
     v3_zanoSeed = Some ''seed z'', v3_zanoSeedPassphrase = None\<rparr>"

lemma demo_distinct: "distinct (ids demo_vault)" by (simp add: demo_vault_def ids_def)

lemma demo_fresh: "demo_ids k \<notin> set (ids demo_vault)"
  by (simp add: demo_vault_def ids_def demo_ids_def)

lemma demo_group: "groupIdForWallet demo_vault (Some ''b'') = Some ''h''"
  using groupIdForWallet_id [OF demo_distinct, of "mk_entry ''b'' ''Two'' Bip39 ''seed b'' 2 ''h''"]
  by (simp add: demo_vault_def)

text \<open>C2. A flat save touches one context only: the wallets of every other context, and the Xelis
  wallets of all contexts, are the same entries in the same order as before.\<close>

theorem merge_keeps_others:
  assumes "distinct (ids v)" "merge_gid genId n v a = (gid, m)"
  shows "filter (\<lambda>w. groupKey w \<noteq> gid \<or> w_kind w = Xelis)
           (wallets (fst (mergeFlatIntoV3 now genId n flat (Some v) a))) =
         filter (\<lambda>w. groupKey w \<noteq> gid \<or> w_kind w = Xelis) (wallets v)"
proof -
  let ?P = "\<lambda>w. groupKey w \<noteq> gid \<or> w_kind w = Xelis"
  let ?lt = "\<lambda>a b. order_of (wallets v) (w_id a) < order_of (wallets v) (w_id b)"
  let ?r = "fst (rebuilt now genId m flat v gid)"
  let ?c = "filter (\<lambda>w. groupKey w = gid \<and> w_kind w = Xelis) (wallets v)"
  let ?o = "filter (\<lambda>w. groupKey w \<noteq> gid) (wallets v)"
  have "filter ?P ?r = []" using rebuilt_group [of _ now genId m flat v gid] by (fastforce simp: filter_empty_conv)
  moreover have "filter ?P ?c = ?c" "filter ?P ?o = ?o"
    by (simp_all del: filter_filter add: filter_id_conv)
  ultimately have f: "filter ?P (?r @ ?c @ ?o) = ?c @ ?o" by simp
  have "mset (?c @ ?o) = mset (filter ?P (wallets v))"
    using mset_filter_disjoint [of "wallets v" "\<lambda>w. groupKey w = gid \<and> w_kind w = Xelis" "\<lambda>w. groupKey w \<noteq> gid"]
    by (simp cong: filter_cong) (metis (mono_tags, lifting) filter_mset_cong)
  moreover have "sorted_wrt ?lt (filter ?P (wallets v))"
    using assms(1) by (intro sorted_wrt_filter sorted_order_of) (simp add: ids_def)
  ultimately have "sort_by ?lt (?c @ ?o) = filter ?P (wallets v)" by (rule sort_by_key_eq)
  then show ?thesis
    using assms(2) f by (simp add: wallets_merge filter_sort_by weak_order_key)
qed

theorem merge_keeps_others_witness:
  "filter (\<lambda>w. groupKey w \<noteq> ''h'' \<or> w_kind w = Xelis)
     (wallets (fst (mergeFlatIntoV3 9 demo_ids 0 demo_flat (Some demo_vault) (Some ''b'')))) =
   filter (\<lambda>w. groupKey w \<noteq> ''h'' \<or> w_kind w = Xelis) (wallets demo_vault)"
  by (rule merge_keeps_others [OF demo_distinct merge_gid_eq [OF demo_group]])

subsection \<open>The context written to\<close>

lemma first_bip39_order:
  assumes "distinct (ids v)" "List.find (\<lambda>w. w_kind w = Bip39) (wallets v) = Some w"
    "y \<in> set (wallets v)" "w_kind y = Bip39" "y \<noteq> w"
  shows "order_of (wallets v) (w_id w) < order_of (wallets v) (w_id y)"
proof -
  obtain us vs where s: "wallets v = us @ w # vs" and u: "\<forall>z \<in> set us. w_kind z \<noteq> Bip39"
    using find_Some_split [OF assms(2)] by auto
  then have "y \<in> set vs" using assms(3,4,5) by auto
  moreover have "sorted_wrt (\<lambda>a b. order_of (wallets v) (w_id a) < order_of (wallets v) (w_id b)) (us @ w # vs)"
    using sorted_order_of [of "wallets v"] assms(1) s by (simp add: ids_def)
  ultimately show ?thesis by (simp add: sorted_wrt_append)
qed

lemma order_of_member_less:
  assumes "distinct (ids v)" "w \<in> set (wallets v)"
  shows "order_of (wallets v) (w_id w) < length (wallets v)"
  using assms by (auto simp: in_set_conv_nth order_of_nth ids_def)

lemma merge_primary:
  assumes d: "distinct (ids v)" and len: "length (wallets v) < 2 ^ 53"
    and fresh: "\<And>k. n \<le> k \<Longrightarrow> genId k \<notin> set (ids v)"
    and b: "List.find (\<lambda>w. w_kind w = Bip39) (wallets v) = Some w"
    and g: "groupIdForWallet v a = Some gid"
  shows "primaryGroupId (fst (mergeFlatIntoV3 now genId n flat (Some v) a)) = primaryGroupId v"
proof -
  let ?key = "\<lambda>w. order_of (wallets v) (w_id w)"
  let ?r = "fst (rebuilt now genId n flat v gid)"
  let ?xs = "?r @ filter (\<lambda>w. groupKey w = gid \<and> w_kind w = Xelis) (wallets v) @
            filter (\<lambda>w. groupKey w \<noteq> gid) (wallets v)"
  obtain e where e: "fst (merge_bip39 now genId n flat gid (prev_of (wallets v) gid Bip39)) = [e]"
    and e': "w_kind e = Bip39" "groupKey e = gid"
      "w_id e = fst (id_for genId n (prev_of (wallets v) gid Bip39))"
    using merge_bip39_shape [of now genId n flat gid "prev_of (wallets v) gid Bip39"] by blast
  have "y = e" if "y \<in> set ?r" "w_kind y = Bip39" for y
    using that unfolding rebuilt_blocks set_append by (elim UnE) (auto dest: merge_mems simp: e)
  then have bips: "y = e \<or> y \<in> set (wallets v) \<and> groupKey y \<noteq> gid"
    if "y \<in> set ?xs" "w_kind y = Bip39" for y using that by auto
  have w: "w \<in> set (wallets v)" "w_kind w = Bip39" using b by (auto dest: find_SomeD)
  have "\<exists>x. List.find (\<lambda>w. w_kind w = Bip39) (sort_by (\<lambda>a b. ?key a < ?key b) ?xs) = Some x \<and>
      groupKey x = groupKey w"
  proof (cases "groupKey w = gid")
    case True
    then have "prev_of (wallets v) gid Bip39 = Some w"
      unfolding prev_of_def by (rule find_stronger [OF b])
    then have i: "w_id e = w_id w" by (simp add: e'(3) id_for_def)
    have "List.find (\<lambda>w. w_kind w = Bip39) (sort_by (\<lambda>a b. ?key a < ?key b) ?xs) = Some e"
    proof (rule find_sorted_least)
      show "e \<in> set ?xs" by (simp add: rebuilt_blocks e)
      show "w_kind e = Bip39" by (rule e')
      fix y assume y: "y \<in> set ?xs" "w_kind y = Bip39" "y \<noteq> e"
      then have "y \<in> set (wallets v)" "y \<noteq> w" using bips True by auto
      then show "?key e < ?key y" using first_bip39_order [OF d b] y(2) i by simp
    qed
    then show ?thesis using e' True by simp
  next
    case False
    have "List.find (\<lambda>w. w_kind w = Bip39) (sort_by (\<lambda>a b. ?key a < ?key b) ?xs) = Some w"
    proof (rule find_sorted_least)
      show "w \<in> set ?xs" using w False by simp
      show "w_kind w = Bip39" by (rule w)
      fix y assume y: "y \<in> set ?xs" "w_kind y = Bip39" "y \<noteq> w"
      show "?key w < ?key y"
      proof (cases "y = e")
        case True
        show ?thesis
        proof (cases "prev_of (wallets v) gid Bip39")
          case None
          then have "w_id y = genId n" using True e' by (simp add: id_for_def)
          then have "?key y = 2 ^ 53 - 1" using fresh [of n] order_of_new [of "w_id y" "wallets v"]
            by (simp add: ids_def)
          then show ?thesis using order_of_member_less [OF d w(1)] len by simp
        next
          case (Some p)
          then have p: "p \<in> set (wallets v)" "w_kind p = Bip39" "groupKey p = gid"
            by (auto simp: prev_of_def dest: find_SomeD)
          then have "p \<noteq> w" using False by auto
          moreover have "w_id y = w_id p" using True Some e' by (simp add: id_for_def)
          ultimately show ?thesis using first_bip39_order [OF d b p(1,2)] by simp
        qed
      next
        case False
        then have "y \<in> set (wallets v)" using bips y by auto
        then show ?thesis using first_bip39_order [OF d b] y by simp
      qed
    qed
    then show ?thesis by simp
  qed
  moreover have "primaryGroupId v = Some (groupKey w)" using b by (simp add: primaryGroupId_def)
  ultimately show ?thesis
    by (auto simp: primaryGroupId_def wallets_merge merge_gid_eq [OF g])
qed

text \<open>Saving never promotes a wallet: the primary context of a vault that has a recovery-phrase
  wallet is the same before and after a flat save into any of its contexts.\<close>

theorem merge_keeps_primary:
  assumes d: "distinct (ids v)" and len: "length (wallets v) < 2 ^ 53"
    and fresh: "\<And>k. n \<le> k \<Longrightarrow> genId k \<notin> set (ids v)"
    and b: "List.find (\<lambda>w. w_kind w = Bip39) (wallets v) = Some w"
    and g: "groupIdForWallet v a = Some gid"
  shows "primaryGroupId (fst (mergeFlatIntoV3 now genId n flat (Some v) a)) = primaryGroupId v"
  by (rule merge_primary [OF assms])

theorem merge_keeps_primary_witness:
  "primaryGroupId (fst (mergeFlatIntoV3 9 demo_ids 0 demo_flat (Some demo_vault) (Some ''b''))) =
   primaryGroupId demo_vault"
proof -
  have b: "List.find (\<lambda>w. w_kind w = Bip39) (wallets demo_vault) =
      Some (mk_entry ''a'' ''Main'' Bip39 ''seed a'' 1 ''g'')"
    by (simp add: demo_vault_def)
  show ?thesis
    by (rule merge_keeps_primary [OF demo_distinct _ demo_fresh b demo_group]) (simp add: demo_vault_def)
qed

subsection \<open>Reading back what was written\<close>

lemma pick_merge:
  assumes g: "merge_gid genId n v a = (gid, m)" and k: "k \<noteq> Xelis"
    and blk: "filter (\<lambda>w. w_kind w = k) (fst (rebuilt now genId m flat v gid)) = es" "length es \<le> 1"
  shows "List.find (\<lambda>w. w_kind w = k \<and> inGroup (Some gid) w)
      (wallets (fst (mergeFlatIntoV3 now genId n flat (Some v) a))) =
    (case es of [] \<Rightarrow> None | e # _ \<Rightarrow> Some e)"
proof -
  let ?ws = "wallets (fst (mergeFlatIntoV3 now genId n flat (Some v) a))"
  have mem: "w \<in> set ?ws \<and> w_kind w = k \<and> groupKey w = gid \<longleftrightarrow> w \<in> set es" for w
    using k rebuilt_group [of w now genId m flat v gid]
    by (auto simp: set_wallets_merge [OF g] blk(1) [symmetric])
  show ?thesis
  proof (cases es)
    case Nil
    then show ?thesis using mem by (auto simp: find_None_set inGroup_def)
  next
    case (Cons e r)
    then have [simp]: "es = [e]" using blk(2) by simp
    have "List.find (\<lambda>w. w_kind w = k \<and> inGroup (Some gid) w) ?ws = Some e"
      by (rule find_unique) (use mem in \<open>auto simp: inGroup_def\<close>)
    then show ?thesis by simp
  qed
qed

lemma filter_kind_blocks:
  "filter (\<lambda>w. w_kind w = k) (fst (rebuilt now genId n flat v gid)) =
    (if k = Bip39 then fst (merge_bip39 now genId n flat gid (prev_of (wallets v) gid Bip39))
     else if k = Xmr then fst (merge_xmr now genId (at_xmr now genId n flat v gid) flat (Some v) gid (prev_of (wallets v) gid Xmr))
     else if k = Zph then fst (merge_zph now genId (at_zph now genId n flat v gid) flat (Some v) gid (prev_of (wallets v) gid Zph))
     else if k = Zano then fst (merge_zano now genId (at_zano now genId n flat v gid) flat (Some v) gid (prev_of (wallets v) gid Zano))
     else [])"
proof -
  have "filter (\<lambda>w. w_kind w = k) ws = (if k = j then ws else [])" if "\<And>w. w \<in> set ws \<Longrightarrow> w_kind w = j" for ws j
    using that by (auto simp: filter_empty_conv filter_id_conv)
  then show ?thesis
    unfolding rebuilt_blocks filter_append
    by (auto simp: merge_mems [THEN conjunct2] filter_empty_conv dest: merge_mems)
qed

lemma project_merge:
  assumes g: "merge_gid genId n v a = (gid, m)"
    and g': "groupIdForWallet (fst (mergeFlatIntoV3 now genId n flat (Some v) a)) a' = Some gid"
  shows "projectV3ToV2 (fst (mergeFlatIntoV3 now genId n flat (Some v) a)) a' =
     (canon flat)\<lparr>devFeeAcknowledgedAt :=
        or_else (devFeeAcknowledgedAt flat) (legacyDevFeeAcknowledgedAt v)\<rparr>"
proof -
  note sh = merge_bip39_shape [of now genId m flat gid "prev_of (wallets v) gid Bip39"]
    merge_xmr_shape [of now genId "at_xmr now genId m flat v gid" flat "Some v" gid "prev_of (wallets v) gid Xmr"]
    merge_zph_shape [of now genId "at_zph now genId m flat v gid" flat "Some v" gid "prev_of (wallets v) gid Zph"]
    merge_zano_shape [of now genId "at_zano now genId m flat v gid" flat "Some v" gid "prev_of (wallets v) gid Zano"]
  note pick = pick_merge [OF g _ filter_kind_blocks]
  have pb: "\<exists>e. List.find (\<lambda>w. w_kind w = Bip39 \<and> inGroup (Some gid) w) (wallets (fst (mergeFlatIntoV3 now genId n flat (Some v) a))) = Some e \<and>
      w_seed e = bip39 flat \<and> w_derivationChoice e = derivationChoice flat"
    using sh(1) pick [of Bip39] by auto
  have px: "(\<not> truthy (xmrSeed flat) \<and> List.find (\<lambda>w. w_kind w = Xmr \<and> inGroup (Some gid) w) (wallets (fst (mergeFlatIntoV3 now genId n flat (Some v) a))) = None) \<or>
      (\<exists>e. List.find (\<lambda>w. w_kind w = Xmr \<and> inGroup (Some gid) w) (wallets (fst (mergeFlatIntoV3 now genId n flat (Some v) a))) = Some e \<and> truthy (xmrSeed flat) \<and>
      Some (w_seed e) = xmrSeed flat \<and> w_xmrSeedFormat e = xmrSeedFormat flat \<and> w_restoreHeight e = xmrRestoreHeight flat)"
    using sh(2) pick [of Xmr] by auto
  have pz: "(\<not> truthy (zphSeed flat) \<and> List.find (\<lambda>w. w_kind w = Zph \<and> inGroup (Some gid) w) (wallets (fst (mergeFlatIntoV3 now genId n flat (Some v) a))) = None) \<or>
      (\<exists>e. List.find (\<lambda>w. w_kind w = Zph \<and> inGroup (Some gid) w) (wallets (fst (mergeFlatIntoV3 now genId n flat (Some v) a))) = Some e \<and> truthy (zphSeed flat) \<and>
      Some (w_seed e) = zphSeed flat \<and> w_restoreHeight e = zphRestoreHeight flat)"
    using sh(3) pick [of Zph] by auto
  have pa: "(\<not> truthy (zanoSeed flat) \<and> List.find (\<lambda>w. w_kind w = Zano \<and> inGroup (Some gid) w) (wallets (fst (mergeFlatIntoV3 now genId n flat (Some v) a))) = None) \<or>
      (\<exists>e. List.find (\<lambda>w. w_kind w = Zano \<and> inGroup (Some gid) w) (wallets (fst (mergeFlatIntoV3 now genId n flat (Some v) a))) = Some e \<and> truthy (zanoSeed flat) \<and>
      Some (w_seed e) = zanoSeed flat \<and> w_zanoSeedPassphrase e = keep_truthy (zanoSeedPassphrase flat))"
    using sh(4) pick [of Zano] by auto
  from pb px pz pa show ?thesis
    unfolding projectV3ToV2_def g' Let_def
    by (elim disjE conjE exE)
      (simp_all add: canon_def keep_truthy_def legacyZanoSeedFor_def merge_fields)
qed
text \<open>C1. What is saved is what is read: projecting a context after a flat payload was merged into
  it gives that payload back, less the properties of wallets it does not have. The context is
  the primary one, or the one its recovery-phrase wallet names.\<close>

theorem merge_project_roundtrip:
  assumes d: "distinct (ids v)" and len: "length (wallets v) < 2 ^ 53"
    and fresh: "\<And>k. n \<le> k \<Longrightarrow> genId k \<notin> set (ids v)"
    and g: "groupIdForWallet v a = Some gid"
    and w: "prev_of (wallets v) gid Bip39 = Some w"
    and a: "a = None \<or> a = Some (w_id w) \<and> w_id w \<noteq> [] \<and> w_id w \<noteq> ''all''"
  shows "projectV3ToV2 (fst (mergeFlatIntoV3 now genId n flat (Some v) a)) a =
     (canon flat)\<lparr>devFeeAcknowledgedAt :=
        or_else (devFeeAcknowledgedAt flat) (legacyDevFeeAcknowledgedAt v)\<rparr>"
proof (rule project_merge [OF merge_gid_eq [OF g]])
  let ?v' = "fst (mergeFlatIntoV3 now genId n flat (Some v) a)"
  have w': "w \<in> set (wallets v)" "w_kind w = Bip39" "groupKey w = gid"
    using w by (auto simp: prev_of_def dest: find_SomeD)
  from a show "groupIdForWallet ?v' a = Some gid"
  proof
    assume a: "a = None"
    obtain b where b: "List.find (\<lambda>w. w_kind w = Bip39) (wallets v) = Some b"
      using w'(1,2) by (cases "List.find (\<lambda>w. w_kind w = Bip39) (wallets v)") (auto simp: find_None_set)
    have "primaryGroupId ?v' = primaryGroupId v" by (rule merge_primary [OF d len fresh b g])
    then show ?thesis using g a by simp
  next
    assume a: "a = Some (w_id w) \<and> w_id w \<noteq> [] \<and> w_id w \<noteq> ''all''"
    have m: "merge_gid genId n v a = (gid, n)" by (rule merge_gid_eq [OF g])
    obtain e where e1: "fst (merge_bip39 now genId n flat gid (Some w)) = [e]"
        and e2: "w_id e = fst (id_for genId n (Some w))"
      using merge_bip39_shape [of now genId n flat gid "Some w"] by blast
    have e: "e \<in> set (fst (rebuilt now genId n flat v gid))" by (simp add: rebuilt_blocks w e1)
    have ei: "w_id e = w_id w" using e2 by (simp add: id_for_def)
    have "groupKey x = gid" if x: "x \<in> set (wallets ?v')" "w_id x = w_id w" for x
    proof -
      from x(1) consider "x \<in> set (fst (rebuilt now genId n flat v gid))" | "groupKey x = gid"
        | "x \<in> set (wallets v)" by (auto simp: set_wallets_merge [OF m])
      then show ?thesis
        using rebuilt_group [of x now genId n flat v gid] id_unique [OF d _ w'(1) x(2)] w'(3)
        by cases simp_all
    qed
    moreover have "e \<in> set (wallets ?v')" using e by (simp add: set_wallets_merge [OF m])
    ultimately have "id_names ?v' (w_id w) gid" using a ei unfolding id_names_def by blast
    then show ?thesis using a by (simp add: groupIdForWallet_names)
  qed
qed

theorem merge_project_roundtrip_witness:
  "projectV3ToV2 (fst (mergeFlatIntoV3 9 demo_ids 0 demo_flat (Some demo_vault) (Some ''b''))) (Some ''b'') =
   (canon demo_flat)\<lparr>devFeeAcknowledgedAt := or_else None (legacyDevFeeAcknowledgedAt demo_vault)\<rparr>"
proof -
  have w: "prev_of (wallets demo_vault) ''h'' Bip39 = Some (mk_entry ''b'' ''Two'' Bip39 ''seed b'' 2 ''h'')"
    by (simp add: demo_vault_def prev_of_def)
  show ?thesis
    using merge_project_roundtrip [OF demo_distinct _ demo_fresh demo_group w, where now = 9 and flat = demo_flat]
    by (simp add: demo_flat_def demo_vault_def [THEN arg_cong [where f = wallets]])
qed

subsection \<open>A second Zano wallet\<close>

text \<open>Where the vault carries the vault-wide Zano seed, the first Zano wallet saved into a
  context that has none is stored under the fixed legacy file name, even when the Zano wallet
  of another context already has that file: the two then share one file.\<close>

theorem merge_zano_shares_legacy_file:
  assumes g: "groupIdForWallet v a = Some gid"
    and legacy: "truthy (v3_zanoSeed v)" and seed: "truthy (zanoSeed flat)"
    and none: "prev_of (wallets v) gid Zano = None"
    and z: "z \<in> set (wallets v)" "w_kind z = Zano" "groupKey z \<noteq> gid"
      "w_sidecarFile z = Some LEGACY_ZANO_SIDECAR_FILE"
  shows "\<exists>e. e \<in> set (wallets (fst (mergeFlatIntoV3 now genId n flat (Some v) a))) \<and>
      z \<in> set (wallets (fst (mergeFlatIntoV3 now genId n flat (Some v) a))) \<and>
      groupKey e \<noteq> groupKey z \<and> w_kind e = w_kind z \<and>
      sidecarFileForEntry e = sidecarFileForEntry z"
proof -
  have m: "merge_gid genId n v a = (gid, n)" by (rule merge_gid_eq [OF g])
  obtain e where e: "fst (merge_zano now genId (at_zano now genId n flat v gid) flat (Some v) gid None) = [e]"
      "w_kind e = Zano" "groupKey e = gid" "w_sidecarFile e = Some LEGACY_ZANO_SIDECAR_FILE"
    using seed legacy by (auto simp: merge_zano_def flat_entry_def Let_def case_prod_beta)
  then have "e \<in> set (fst (rebuilt now genId n flat v gid))"
    by (simp add: rebuilt_blocks none)
  then show ?thesis
    using e z by (intro exI [of _ e]) (simp add: set_wallets_merge [OF m] sidecarFileForEntry_def)
qed
theorem merge_zano_shares_legacy_file_witness:
  "\<exists>e z. e \<in> set (wallets (fst (mergeFlatIntoV3 9 demo_ids 0 demo_flat (Some demo_vault) (Some ''b'')))) \<and>
      z \<in> set (wallets (fst (mergeFlatIntoV3 9 demo_ids 0 demo_flat (Some demo_vault) (Some ''b'')))) \<and>
      groupKey e \<noteq> groupKey z \<and> w_kind e = w_kind z \<and>
      sidecarFileForEntry e = sidecarFileForEntry z"
proof -
  let ?v = "fst (mergeFlatIntoV3 9 demo_ids 0 demo_flat (Some demo_vault) (Some ''b''))"
  let ?z = "(mk_entry ''z'' ''Main Z'' Zano ''seed z'' 1 ''g'')\<lparr>w_sidecarFile := Some LEGACY_ZANO_SIDECAR_FILE\<rparr>"
  have "\<exists>e. e \<in> set (wallets ?v) \<and> ?z \<in> set (wallets ?v) \<and> groupKey e \<noteq> groupKey ?z \<and>
      w_kind e = w_kind ?z \<and> sidecarFileForEntry e = sidecarFileForEntry ?z"
    by (rule merge_zano_shares_legacy_file [OF demo_group])
      (simp_all add: demo_vault_def demo_flat_def prev_of_def)
  then show ?thesis by blast
qed

end
