(* ===== verification/VaultRepair.thy ===== *)
theory VaultRepair
  imports VaultContexts
begin

section \<open>Sidecar files: repairSharedSidecarFiles and the entry operations\<close>

text \<open>
  Two entries of one kind that resolve to one sidecar file open one wallet, and the session's
  address check then deletes the other's. \<open>repairSharedSidecarFiles\<close> moves all but one entry of
  each such group to a file of its own. \<open>localeCompare\<close>, whose order depends on the host's
  locale, is the parameter \<open>lc\<close> (true where the comparison is negative); nothing proved here
  depends on it.
\<close>

subsection \<open>The repair\<close>

record SidecarFileRepair =
  r_id :: string
  r_name :: string
  r_kind :: WalletKind
  r_from :: "string option"
  r_to :: "string option"

definition file_key :: "WalletKind \<Rightarrow> string \<Rightarrow> string" where
  "file_key k f = kind_str k @ ''/'' @ f"

definition entry_key :: "WalletEntry \<Rightarrow> string option" where
  "entry_key w = map_option (file_key (w_kind w)) (keep_truthy (sidecarFileForEntry w))"

text \<open>The loop over \<open>v3.wallets\<close> that fills \<open>used\<close> and \<open>sharing\<close>.\<close>

definition share_step ::
    "(string \<times> WalletEntry list) list \<times> string list \<Rightarrow> WalletEntry \<Rightarrow>
     (string \<times> WalletEntry list) list \<times> string list" where
  "share_step st w =
     (case entry_key w of
        None \<Rightarrow> st
      | Some key \<Rightarrow>
          (js_set key (coalesce (map_of (fst st) key) [] @ [w]) (fst st), List.insert key (snd st)))"

definition keeper_lt ::
    "(string \<Rightarrow> string \<Rightarrow> bool) \<Rightarrow> string option \<Rightarrow> WalletEntry \<Rightarrow> WalletEntry \<Rightarrow> bool" where
  "keeper_lt lc primaryGid a b =
     (let pa = (if Some (groupKey a) \<noteq> primaryGid then 1 else 0 :: int);
          pb = (if Some (groupKey b) \<noteq> primaryGid then 1 else 0)
      in if pa \<noteq> pb then pa < pb
         else if w_createdAt a \<noteq> w_createdAt b then w_createdAt a < w_createdAt b
         else lc (w_id a) (w_id b))"

type_synonym repair_state = "string list \<times> (string \<times> string) list \<times> SidecarFileRepair list"

definition move_step :: "string option \<Rightarrow> repair_state \<Rightarrow> WalletEntry \<Rightarrow> repair_state" where
  "move_step frm st w =
     (let (used, moveTo, repairs) = st;
          to = newSidecarFile (w_kind w) (w_id w);
          key = file_key (w_kind w) (the to)
      in if key \<in> set used then st
         else (List.insert key used, js_set (w_id w) (the to) moveTo,
               repairs @ [\<lparr>r_id = w_id w, r_name = w_name w, r_kind = w_kind w,
                           r_from = frm, r_to = to\<rparr>]))"

definition group_step ::
    "(string \<Rightarrow> string \<Rightarrow> bool) \<Rightarrow> string option \<Rightarrow> repair_state \<Rightarrow> WalletEntry list \<Rightarrow> repair_state" where
  "group_step lc primaryGid st entries =
     (if length entries < 2 then st
      else let srt = sort_by (keeper_lt lc primaryGid) entries
           in foldl (move_step (sidecarFileForEntry (hd srt))) st (tl srt))"

definition repairSharedSidecarFiles ::
    "(string \<Rightarrow> string \<Rightarrow> bool) \<Rightarrow> VaultPayloadV3 \<Rightarrow> VaultPayloadV3 \<times> SidecarFileRepair list" where
  "repairSharedSidecarFiles lc v3 =
     (let (sharing, used) = foldl share_step ([], []) (wallets v3);
          (used, moveTo, repairs) =
            foldl (group_step lc (primaryGroupId v3)) (used, [], []) (map snd sharing)
      in if repairs = [] then (v3, repairs)
         else (v3\<lparr>wallets := map (\<lambda>w. case map_of moveTo (w_id w) of
                                Some f \<Rightarrow> w\<lparr>w_sidecarFile := Some f\<rparr> | None \<Rightarrow> w) (wallets v3)\<rparr>,
               repairs))"

subsection \<open>Keys\<close>

lemma newSidecarFile_kind: "entry_key w \<noteq> None \<Longrightarrow> \<exists>f. newSidecarFile (w_kind w) (w_id w) = Some f"
  by (cases "w_kind w") (auto simp: entry_key_def sidecarFileForEntry_def)

lemma newSidecarFile_inj: "newSidecarFile k i = Some f \<Longrightarrow> newSidecarFile k j = Some f \<Longrightarrow> i = j"
  by (cases k) auto

lemma newSidecarFile_truthy: "newSidecarFile k i = Some f \<Longrightarrow> f \<noteq> []"
  by (cases k) auto

lemma kind_str_no_slash: "CHR ''/'' \<notin> set (kind_str k)"
  by (cases k) auto

lemma kind_str_inj: "kind_str j = kind_str k \<Longrightarrow> j = k"
  by (cases j; cases k) auto

lemma append_sep_cancel: "c \<notin> set s \<Longrightarrow> c \<notin> set t \<Longrightarrow> s @ c # a = t @ c # b \<Longrightarrow> s = t \<and> a = b"
proof (induction s arbitrary: t)
  case Nil
  then show ?case by (cases t) auto
next
  case (Cons x s)
  then obtain y t' where "t = y # t'" by (cases t) auto
  with Cons show ?case by auto
qed

lemma file_key_inj: "file_key j f = file_key k g \<Longrightarrow> j = k \<and> f = g"
  using append_sep_cancel [OF kind_str_no_slash kind_str_no_slash, of j f k g]
  by (auto simp: file_key_def dest: kind_str_inj)

lemma entry_key_Some:
  "entry_key w = Some k \<Longrightarrow> \<exists>f. sidecarFileForEntry w = Some f \<and> f \<noteq> [] \<and> k = file_key (w_kind w) f"
  by (cases "sidecarFileForEntry w") (auto simp: entry_key_def keep_truthy_def split: if_splits)

lemma entry_key_kind: "entry_key x = entry_key y \<Longrightarrow> entry_key x \<noteq> None \<Longrightarrow> w_kind x = w_kind y"
proof -
  assume e: "entry_key x = entry_key y" "entry_key x \<noteq> None"
  then obtain k where x: "entry_key x = Some k" and y: "entry_key y = Some k" by auto
  obtain f g where "k = file_key (w_kind x) f" "k = file_key (w_kind y) g"
    using entry_key_Some [OF x] entry_key_Some [OF y] by blast
  then have "file_key (w_kind x) f = file_key (w_kind y) g" by simp
  then show ?thesis by (rule file_key_inj [THEN conjunct1])
qed

lemma entry_key_moved:
  assumes "entry_key w \<noteq> None" "newSidecarFile (w_kind w) (w_id w) = Some f"
  shows "entry_key (w\<lparr>w_sidecarFile := Some f\<rparr>) = Some (file_key (w_kind w) f)"
  using assms newSidecarFile_truthy [OF assms(2)]
  by (cases "w_kind w") (auto simp: entry_key_def sidecarFileForEntry_def)

definition keys :: "WalletEntry list \<Rightarrow> string set" where
  "keys ws = {k. \<exists>w \<in> set ws. entry_key w = Some k}"

lemma keys_append_single:
  "keys (ws @ [w]) = (case entry_key w of None \<Rightarrow> keys ws | Some k \<Rightarrow> insert k (keys ws))"
  by (auto simp: keys_def split: option.splits)

lemma keysI: "w \<in> set ws \<Longrightarrow> entry_key w = Some k \<Longrightarrow> k \<in> keys ws"
  by (auto simp: keys_def)

subsection \<open>The two loops\<close>

lemma share_step_simps:
  "entry_key w = None \<Longrightarrow> share_step st w = st"
  "entry_key w = Some key \<Longrightarrow> share_step st w =
     (js_set key (coalesce (map_of (fst st) key) [] @ [w]) (fst st), List.insert key (snd st))"
  by (simp_all add: share_step_def)

definition share_inv :: "WalletEntry list \<Rightarrow> (string \<times> WalletEntry list) list \<times> string list \<Rightarrow> bool" where
  "share_inv ws st \<longleftrightarrow>
     (\<forall>k. map_of (fst st) k = (let f = filter (\<lambda>w. entry_key w = Some k) ws in if f = [] then None else Some f)) \<and>
     distinct (map fst (fst st)) \<and> set (snd st) = keys ws"

lemma share_step_inv:
  assumes "share_inv ws st" shows "share_inv (ws @ [w]) (share_step st w)"
proof (cases "entry_key w")
  case None
  then show ?thesis using assms by (simp add: share_inv_def share_step_simps keys_append_single)
next
  case (Some j)
  have "coalesce (map_of (fst st) j) [] = filter (\<lambda>w. entry_key w = Some j) ws"
    using assms by (simp add: share_inv_def Let_def)
  then show ?thesis
    using Some assms by (auto simp: share_inv_def share_step_simps keys_append_single distinct_js_set Let_def)
qed

lemma share_steps: "share_inv ws (foldl share_step ([], []) ws)"
  by (induction ws rule: rev_induct) (simp_all add: share_step_inv, simp add: share_inv_def keys_def)

definition move_target :: "WalletEntry \<Rightarrow> string" where
  "move_target w = file_key (w_kind w) (the (newSidecarFile (w_kind w) (w_id w)))"

definition moved :: "(string \<times> string) list \<Rightarrow> WalletEntry \<Rightarrow> bool" where
  "moved moveTo w \<longleftrightarrow> entry_key w \<noteq> None \<and> map_of moveTo (w_id w) \<noteq> None"

definition move_inv :: "WalletEntry list \<Rightarrow> repair_state \<Rightarrow> bool" where
  "move_inv ws st \<longleftrightarrow>
     (case st of (used, moveTo, repairs) \<Rightarrow>
        keys ws \<subseteq> set used \<and>
        (\<forall>i f. map_of moveTo i = Some f \<longrightarrow>
           (\<exists>w \<in> set ws. w_id w = i \<and> entry_key w \<noteq> None \<and>
              newSidecarFile (w_kind w) i = Some f \<and> move_target w \<notin> keys ws)) \<and>
        (\<forall>u \<in> set used. u \<in> keys ws \<or> (\<exists>w \<in> set ws. u = move_target w \<and> moved moveTo w)) \<and>
        (repairs = [] \<longleftrightarrow> moveTo = []))"

lemma js_set_not_Nil: "js_set k v m \<noteq> []"
  by (cases m) auto

lemma move_step_unfold:
  "move_step frm (used, moveTo, repairs) w =
     (if move_target w \<in> set used then (used, moveTo, repairs)
      else (List.insert (move_target w) used,
            js_set (w_id w) (the (newSidecarFile (w_kind w) (w_id w))) moveTo,
            repairs @ [\<lparr>r_id = w_id w, r_name = w_name w, r_kind = w_kind w, r_from = frm,
                        r_to = newSidecarFile (w_kind w) (w_id w)\<rparr>]))"
  by (simp add: move_step_def move_target_def Let_def)

lemma move_step_inv:
  assumes "move_inv ws st" "w \<in> set ws" "entry_key w \<noteq> None"
  shows "move_inv ws (move_step frm st w)"
proof -
  obtain used moveTo repairs where st: "st = (used, moveTo, repairs)" by (cases st)
  obtain f where f: "newSidecarFile (w_kind w) (w_id w) = Some f" using newSidecarFile_kind [OF assms(3)] ..
  have inv: "keys ws \<subseteq> set used"
    "\<And>i f. map_of moveTo i = Some f \<Longrightarrow> \<exists>w \<in> set ws. w_id w = i \<and> entry_key w \<noteq> None \<and>
        newSidecarFile (w_kind w) i = Some f \<and> move_target w \<notin> keys ws"
    "\<And>u. u \<in> set used \<Longrightarrow> u \<in> keys ws \<or> (\<exists>w \<in> set ws. u = move_target w \<and> moved moveTo w)"
    "repairs = [] \<longleftrightarrow> moveTo = []"
    using assms(1) unfolding move_inv_def st prod.case by blast+
  show ?thesis
  proof (cases "move_target w \<in> set used")
    case True
    then show ?thesis using assms(1) by (simp add: move_step_unfold st)
  next
    case False
    then have nk: "move_target w \<notin> keys ws" using inv(1) by blast
    let ?mt = "js_set (w_id w) f moveTo"
    have mono: "moved moveTo x \<Longrightarrow> moved ?mt x" for x by (auto simp: moved_def)
    have "moved ?mt w" using assms(3) by (simp add: moved_def)
    then have u: "u \<in> keys ws \<or> (\<exists>w \<in> set ws. u = move_target w \<and> moved ?mt w)"
      if "u \<in> set (List.insert (move_target w) used)" for u
      using that inv(3) assms(2) mono by fastforce
    have m: "\<exists>w \<in> set ws. w_id w = i \<and> entry_key w \<noteq> None \<and>
        newSidecarFile (w_kind w) i = Some g \<and> move_target w \<notin> keys ws"
      if "map_of ?mt i = Some g" for i g
      using that inv(2) [of i g] assms(2,3) f nk by (cases "i = w_id w") auto
    show ?thesis
      using False inv(1) u m f by (auto simp: move_inv_def st move_step_unfold js_set_not_Nil)
  qed
qed

lemma move_steps_inv:
  "move_inv ws st \<Longrightarrow> (\<And>w. w \<in> set es \<Longrightarrow> w \<in> set ws \<and> entry_key w \<noteq> None) \<Longrightarrow>
   move_inv ws (foldl (move_step frm) st es)"
proof (induction es arbitrary: st)
  case (Cons w es)
  have "move_inv ws (move_step frm st w)" using Cons.prems by (intro move_step_inv) auto
  then show ?case using Cons.IH Cons.prems(2) by simp
qed simp

lemma move_step_mono: "map_of (fst (snd st)) i \<noteq> None \<Longrightarrow> map_of (fst (snd (move_step frm st w))) i \<noteq> None"
  by (cases st) (auto simp: move_step_unfold)

lemma move_steps_mono:
  "map_of (fst (snd st)) i \<noteq> None \<Longrightarrow> map_of (fst (snd (foldl (move_step frm) st es))) i \<noteq> None"
proof (induction es arbitrary: st)
  case (Cons w es)
  then show ?case using move_step_mono [OF Cons.prems, of frm w] by simp
qed simp

text \<open>A wallet whose own name is not taken by another entry is moved when its turn comes.\<close>

lemma move_step_moves:
  assumes "move_inv ws st" "distinct (map w_id ws)" "w \<in> set ws" "entry_key w \<noteq> None"
    and "move_target w \<notin> keys ws"
  shows "map_of (fst (snd (move_step frm st w))) (w_id w) \<noteq> None"
proof -
  obtain used moveTo repairs where st: "st = (used, moveTo, repairs)" by (cases st)
  show ?thesis
  proof (cases "move_target w \<in> set used")
    case True
    then obtain x where x: "x \<in> set ws" "move_target w = move_target x" "moved moveTo x"
      using assms(1,5) by (auto simp: move_inv_def st)
    then have "entry_key x \<noteq> None" by (simp add: moved_def)
    then have "w_id w = w_id x"
      using x(2) newSidecarFile_kind [of x] newSidecarFile_kind [OF assms(4)]
      by (auto simp: move_target_def dest!: file_key_inj intro: newSidecarFile_inj)
    then show ?thesis using x(3) True by (simp add: st move_step_unfold moved_def)
  qed (simp add: st move_step_unfold)
qed

lemma move_steps_move:
  assumes "move_inv ws st" "distinct (map w_id ws)"
    and "\<And>w. w \<in> set es \<Longrightarrow> w \<in> set ws \<and> entry_key w \<noteq> None \<and> move_target w \<notin> keys ws"
    and "w \<in> set es"
  shows "map_of (fst (snd (foldl (move_step frm) st es))) (w_id w) \<noteq> None"
  using assms
proof (induction es arbitrary: st)
  case (Cons x es)
  have i: "move_inv ws (move_step frm st x)" using Cons.prems by (intro move_step_inv) auto
  show ?case
  proof (cases "w = x")
    case True
    then have "map_of (fst (snd (move_step frm st x))) (w_id w) \<noteq> None"
      using move_step_moves [OF Cons.prems(1,2)] Cons.prems(3) by auto
    then show ?thesis by (simp add: move_steps_mono)
  next
    case False
    then show ?thesis using Cons.IH [OF i Cons.prems(2)] Cons.prems(3,4) by auto
  qed
qed simp

subsection \<open>The groups\<close>

lemma group_step_inv:
  assumes "move_inv ws st" "\<And>w. w \<in> set es \<Longrightarrow> w \<in> set ws \<and> entry_key w \<noteq> None"
  shows "move_inv ws (group_step lc p st es)"
proof (cases "length es < 2")
  case False
  have "w \<in> set es" if "w \<in> set (tl (sort_by (keeper_lt lc p) es))" for w
    using that by (metis list.set_sel(2) set_sort_by sort_by_Nil_iff tl_Nil empty_iff list.set(1))
  then show ?thesis using False assms by (auto simp: group_step_def Let_def intro!: move_steps_inv)
qed (use assms in \<open>simp add: group_step_def\<close>)

lemma group_steps_inv:
  "move_inv ws st \<Longrightarrow> (\<And>es w. es \<in> set gs \<Longrightarrow> w \<in> set es \<Longrightarrow> w \<in> set ws \<and> entry_key w \<noteq> None) \<Longrightarrow>
   move_inv ws (foldl (group_step lc p) st gs)"
proof (induction gs arbitrary: st)
  case (Cons es gs)
  have i: "move_inv ws (group_step lc p st es)" using Cons.prems by (intro group_step_inv) auto
  have "move_inv ws (foldl (group_step lc p) (group_step lc p st es) gs)"
    by (rule Cons.IH [OF i]) (use Cons.prems(2) in \<open>metis list.set_intros(2)\<close>)
  then show ?case by simp
qed simp

lemma group_steps_mono:
  "map_of (fst (snd st)) i \<noteq> None \<Longrightarrow> map_of (fst (snd (foldl (group_step lc p) st gs))) i \<noteq> None"
proof (induction gs arbitrary: st)
  case (Cons es gs)
  have "map_of (fst (snd (group_step lc p st es))) i \<noteq> None"
    using Cons.prems move_steps_mono by (simp add: group_step_def Let_def)
  then show ?case using Cons.IH by simp
qed simp

definition other_members :: "(string \<Rightarrow> string \<Rightarrow> bool) \<Rightarrow> string option \<Rightarrow> WalletEntry list \<Rightarrow> WalletEntry list" where
  "other_members lc p es = tl (sort_by (keeper_lt lc p) es)"

lemma other_members_cover:
  "es \<noteq> [] \<Longrightarrow> set es = insert (hd (sort_by (keeper_lt lc p) es)) (set (other_members lc p es))"
  by (metis list.collapse list.simps(15) other_members_def set_sort_by sort_by_Nil_iff)

lemma group_steps_move:
  assumes "move_inv ws st" "distinct (map w_id ws)"
    and "\<And>es w. es \<in> set gs \<Longrightarrow> w \<in> set es \<Longrightarrow> w \<in> set ws \<and> entry_key w \<noteq> None"
    and "\<And>es w. es \<in> set gs \<Longrightarrow> 2 \<le> length es \<Longrightarrow> w \<in> set es \<Longrightarrow> move_target w \<notin> keys ws"
    and "es \<in> set gs" "2 \<le> length es" "w \<in> set (other_members lc p es)"
  shows "map_of (fst (snd (foldl (group_step lc p) st gs))) (w_id w) \<noteq> None"
  using assms
proof (induction gs arbitrary: st)
  case (Cons g gs)
  have i: "move_inv ws (group_step lc p st g)" using Cons.prems(1,3) by (intro group_step_inv) auto
  show ?case
  proof (cases "es = g")
    case True
    have "map_of (fst (snd (foldl (move_step (sidecarFileForEntry (hd (sort_by (keeper_lt lc p) g)))) st
        (other_members lc p g)))) (w_id w) \<noteq> None"
    proof (rule move_steps_move [OF Cons.prems(1,2)])
      fix x assume "x \<in> set (other_members lc p g)"
      moreover have "g \<noteq> []" using Cons.prems(6) True by auto
      ultimately have "x \<in> set g" using other_members_cover [of g lc p] by auto
      then show "x \<in> set ws \<and> entry_key x \<noteq> None \<and> move_target x \<notin> keys ws"
        using Cons.prems(3) [of g x] Cons.prems(4) [of g x] Cons.prems(6) True by auto
    qed (use Cons.prems True in simp)
    then have "map_of (fst (snd (group_step lc p st g))) (w_id w) \<noteq> None"
      using Cons.prems(6) True by (simp add: group_step_def other_members_def Let_def)
    then show ?thesis using group_steps_mono [of "group_step lc p st g"] by simp
  next
    case False
    then have "es \<in> set gs" using Cons.prems(5) by simp
    have "map_of (fst (snd (foldl (group_step lc p) (group_step lc p st g) gs))) (w_id w) \<noteq> None"
      by (rule Cons.IH [OF i Cons.prems(2) _ _ \<open>es \<in> set gs\<close> Cons.prems(6,7)])
        (use Cons.prems(3,4) in \<open>meson list.set_intros(2)\<close>)+
    then show ?thesis by simp
  qed
qed simp

definition repair_state :: "(string \<Rightarrow> string \<Rightarrow> bool) \<Rightarrow> VaultPayloadV3 \<Rightarrow> repair_state" where
  "repair_state lc v =
     (let (sharing, used) = foldl share_step ([], []) (wallets v)
      in foldl (group_step lc (primaryGroupId v)) (used, [], []) (map snd sharing))"

definition move_entry :: "(string \<times> string) list \<Rightarrow> WalletEntry \<Rightarrow> WalletEntry" where
  "move_entry moveTo w =
     (case map_of moveTo (w_id w) of Some f \<Rightarrow> w\<lparr>w_sidecarFile := Some f\<rparr> | None \<Rightarrow> w)"

lemma sharing_groups:
  assumes "es \<in> set (map snd (fst (foldl share_step ([], []) ws)))"
  shows "\<exists>k. es = filter (\<lambda>w. entry_key w = Some k) ws \<and> es \<noteq> []"
proof -
  obtain k where "(k, es) \<in> set (fst (foldl share_step ([], []) ws))" using assms by auto
  then have "map_of (fst (foldl share_step ([], []) ws)) k = Some es"
    using share_steps [of ws] unfolding share_inv_def by (metis map_of_is_SomeI)
  then have "(let f = filter (\<lambda>w. entry_key w = Some k) ws in if f = [] then None else Some f) = Some es"
    using share_steps [of ws] unfolding share_inv_def by metis
  then show ?thesis by (auto simp: Let_def split: if_splits)
qed

lemma sharing_group_of:
  assumes "w \<in> set ws" "entry_key w = Some k"
  shows "filter (\<lambda>w. entry_key w = Some k) ws \<in> set (map snd (fst (foldl share_step ([], []) ws)))"
proof -
  have "filter (\<lambda>w. entry_key w = Some k) ws \<noteq> []" using assms by (auto simp: filter_empty_conv)
  then have "map_of (fst (foldl share_step ([], []) ws)) k = Some (filter (\<lambda>w. entry_key w = Some k) ws)"
    using share_steps [of ws] unfolding share_inv_def Let_def by presburger
  then show ?thesis by (force dest: map_of_SomeD)
qed

lemma repair_state_inv: "move_inv (wallets v) (repair_state lc v)"
proof -
  have "move_inv (wallets v) (snd (foldl share_step ([], []) (wallets v)), [], [])"
    using share_steps [of "wallets v"] by (simp add: move_inv_def share_inv_def)
  then have "move_inv (wallets v) (foldl (group_step lc (primaryGroupId v))
      (snd (foldl share_step ([], []) (wallets v)), [], [])
      (map snd (fst (foldl share_step ([], []) (wallets v)))))"
    by (rule group_steps_inv) (use sharing_groups in fastforce)
  then show ?thesis by (simp add: repair_state_def Let_def case_prod_beta)
qed

lemma repair_unfold:
  "repairSharedSidecarFiles lc v =
     (let (used, moveTo, repairs) = repair_state lc v
      in (if repairs = [] then v else v\<lparr>wallets := map (move_entry moveTo) (wallets v)\<rparr>, repairs))"
proof -
  obtain used moveTo repairs where st: "repair_state lc v = (used, moveTo, repairs)"
    by (cases "repair_state lc v")
  then have "foldl (group_step lc (primaryGroupId v)) (snd (foldl share_step ([], []) (wallets v)), [], [])
      (map snd (fst (foldl share_step ([], []) (wallets v)))) = (used, moveTo, repairs)"
    by (simp add: repair_state_def Let_def case_prod_beta)
  then show ?thesis
    by (simp add: st repairSharedSidecarFiles_def Let_def case_prod_beta move_entry_def [abs_def])
qed

lemma move_entry_Nil [simp]: "move_entry [] w = w"
  by (simp add: move_entry_def)

lemma wallets_repair:
  "wallets (fst (repairSharedSidecarFiles lc v)) =
     map (move_entry (fst (snd (repair_state lc v)))) (wallets v)"
proof -
  obtain used moveTo repairs where st: "repair_state lc v = (used, moveTo, repairs)"
    by (cases "repair_state lc v")
  have "repairs = [] \<longleftrightarrow> moveTo = []" using repair_state_inv [of v lc] by (simp add: st move_inv_def)
  then show ?thesis by (simp add: repair_unfold st map_idI)
qed

subsection \<open>What the repair guarantees\<close>

lemma move_entry_not: "map_of moveTo (w_id w) = None \<Longrightarrow> move_entry moveTo w = w"
  by (simp add: move_entry_def)

lemma moved_entry:
  assumes "distinct (ids v)" "w \<in> set (wallets v)"
    and m: "map_of (fst (snd (repair_state lc v))) (w_id w) = Some f"
  shows "entry_key w \<noteq> None \<and> newSidecarFile (w_kind w) (w_id w) = Some f \<and>
    move_target w \<notin> keys (wallets v) \<and>
    entry_key (move_entry (fst (snd (repair_state lc v))) w) = Some (move_target w)"
proof -
  obtain used moveTo repairs where st: "repair_state lc v = (used, moveTo, repairs)"
    by (cases "repair_state lc v")
  have "\<exists>x \<in> set (wallets v). w_id x = w_id w \<and> entry_key x \<noteq> None \<and>
      newSidecarFile (w_kind x) (w_id w) = Some f \<and> move_target x \<notin> keys (wallets v)"
    using repair_state_inv [of v lc] m unfolding move_inv_def st prod.case fst_conv snd_conv by blast
  then obtain x where x: "x \<in> set (wallets v)" "w_id x = w_id w" "entry_key x \<noteq> None"
      "newSidecarFile (w_kind x) (w_id w) = Some f" "move_target x \<notin> keys (wallets v)" by blast
  then have "x = w" using id_unique [OF assms(1)] assms(2) by blast
  then show ?thesis using x m entry_key_moved [of w f] by (simp add: move_entry_def move_target_def)
qed

text \<open>A vault in which two Zano wallets name one file.\<close>

definition shared_vault :: VaultPayloadV3 where
  "shared_vault =
     \<lparr>wallets = [(mk_entry ''a'' ''Main'' Zano ''one'' 1 ''g'')\<lparr>w_sidecarFile := Some ''pwnda.zan''\<rparr>,
                 (mk_entry ''b'' ''Other'' Zano ''two'' 2 ''h'')\<lparr>w_sidecarFile := Some ''pwnda.zan''\<rparr>],
      lastActiveWalletId = None, legacyDevFeeAcknowledgedAt = None, balanceCache = None,
      v3_zanoSeed = None, v3_zanoSeedPassphrase = None\<rparr>"

text \<open>Of two entries on one file, at least one is moved.\<close>

lemma sharing_is_moved:
  assumes d: "distinct (ids v)"
    and free: "\<And>w x. w \<in> set (wallets v) \<Longrightarrow> x \<in> set (wallets v) \<Longrightarrow> x \<noteq> w \<Longrightarrow>
      entry_key x = entry_key w \<Longrightarrow> entry_key w \<noteq> None \<Longrightarrow> move_target w \<notin> keys (wallets v)"
    and ab: "a \<in> set (wallets v)" "b \<in> set (wallets v)" "a \<noteq> b"
    and k: "entry_key a = Some k" "entry_key b = Some k"
  shows "map_of (fst (snd (repair_state lc v))) (w_id a) \<noteq> None \<or> map_of (fst (snd (repair_state lc v))) (w_id b) \<noteq> None"
proof -
  let ?ws = "wallets v" and ?mt = "fst (snd (repair_state lc v))"
  let ?es = "filter (\<lambda>w. entry_key w = Some k) ?ws" and ?gs = "map snd (fst (foldl share_step ([], []) ?ws))"
  have es: "a \<in> set ?es" "b \<in> set ?es" using ab k by auto
  then have two: "2 \<le> length ?es" using ab(3)
    by (cases ?es; cases "tl ?es") (auto simp del: set_filter)
  then have "?es \<noteq> []" by auto
  then have "a \<in> set (other_members lc (primaryGroupId v) ?es) \<or> b \<in> set (other_members lc (primaryGroupId v) ?es)"
    using es ab(3) other_members_cover by (metis insertE)
  moreover have "map_of ?mt (w_id w) \<noteq> None" if w: "w \<in> set (other_members lc (primaryGroupId v) ?es)" for w
  proof -
    have "move_inv ?ws (snd (foldl share_step ([], []) ?ws), [], [])"
      using share_steps [of ?ws] by (simp add: move_inv_def share_inv_def)
    moreover have "distinct (map w_id ?ws)" using d by (simp add: ids_def)
    moreover have "w \<in> set ?ws \<and> entry_key w \<noteq> None" if "es \<in> set ?gs" "w \<in> set es" for es w
      using sharing_groups [OF that(1)] that(2) by auto
    moreover have "move_target w \<notin> keys ?ws"
      if g: "es \<in> set ?gs" "2 \<le> length es" "w \<in> set es" for es w
    proof -
      obtain j where j: "es = filter (\<lambda>w. entry_key w = Some j) ?ws" using sharing_groups [OF g(1)] by blast
      have "distinct es" using d by (simp add: j ids_def distinct_map)
      then obtain z where "z \<in> set es" "z \<noteq> w" using g(2,3)
        by (cases es; cases "tl es") auto
      then show ?thesis using free [of w z] g(3) j by auto
    qed
    ultimately have "map_of (fst (snd (foldl (group_step lc (primaryGroupId v))
        (snd (foldl share_step ([], []) ?ws), [], []) ?gs))) (w_id w) \<noteq> None"
      using sharing_group_of [OF ab(1) k(1)] two w by (rule group_steps_move)
    then show ?thesis by (simp add: repair_state_def Let_def case_prod_beta)
  qed
  ultimately show ?thesis by blast
qed

text \<open>C6. After the repair no two wallets of one kind share a sidecar file, when the name each
  sharing wallet would be moved to is not already some wallet's file. The order in which
  \<open>localeCompare\<close> would break a tie does not matter.\<close>

theorem repair_unshares:
  assumes d: "distinct (ids v)"
    and free: "\<And>w x. w \<in> set (wallets v) \<Longrightarrow> x \<in> set (wallets v) \<Longrightarrow> x \<noteq> w \<Longrightarrow>
      entry_key x = entry_key w \<Longrightarrow> entry_key w \<noteq> None \<Longrightarrow> move_target w \<notin> keys (wallets v)"
    and x: "x \<in> set (wallets (fst (repairSharedSidecarFiles lc v)))"
    and y: "y \<in> set (wallets (fst (repairSharedSidecarFiles lc v)))"
    and e: "entry_key x = entry_key y" "entry_key x \<noteq> None"
  shows "x = y"
proof -
  let ?ws = "wallets v" and ?mt = "fst (snd (repair_state lc v))"
  obtain a where a: "a \<in> set ?ws" "x = move_entry ?mt a" using x by (auto simp: wallets_repair)
  obtain b where b: "b \<in> set ?ws" "y = move_entry ?mt b" using y by (auto simp: wallets_repair)
  have in_keys: "entry_key (move_entry ?mt w) \<noteq> None \<Longrightarrow> the (entry_key (move_entry ?mt w)) \<in> keys ?ws"
    if "w \<in> set ?ws" "map_of ?mt (w_id w) = None" for w
    using that by (auto simp: move_entry_not keysI)
  consider (both) f g where "map_of ?mt (w_id a) = Some f" "map_of ?mt (w_id b) = Some g"
    | (first) f where "map_of ?mt (w_id a) = Some f" "map_of ?mt (w_id b) = None"
    | (second) g where "map_of ?mt (w_id a) = None" "map_of ?mt (w_id b) = Some g"
    | (neither) "map_of ?mt (w_id a) = None" "map_of ?mt (w_id b) = None"
    by (cases "map_of ?mt (w_id a)"; cases "map_of ?mt (w_id b)") auto
  then show ?thesis
  proof cases
    case both
    have t: "move_target a = move_target b"
      using moved_entry [OF d a(1) both(1)] moved_entry [OF d b(1) both(2)] a b e by simp
    then have "w_id a = w_id b"
      using moved_entry [OF d a(1) both(1)] moved_entry [OF d b(1) both(2)]
      by (auto simp: move_target_def dest!: file_key_inj intro: newSidecarFile_inj)
    then show ?thesis using id_unique [OF d a(1) b(1)] a b by simp
  next
    case first
    then show ?thesis using moved_entry [OF d a(1) first(1)] in_keys [OF b(1)] a b e by auto
  next
    case second
    then show ?thesis using moved_entry [OF d b(1) second(2)] in_keys [OF a(1)] a b e by auto
  next
    case neither
    then have xy: "x = a" "y = b" using a b by (simp_all add: move_entry_not)
    then obtain k where k: "entry_key a = Some k" "entry_key b = Some k" using e by auto
    show ?thesis
    proof (rule ccontr)
      assume "x \<noteq> y"
      then have "a \<noteq> b" using xy by simp
      from sharing_is_moved [OF d _ a(1) b(1) this k] free show False using neither by blast
    qed
  qed
qed

theorem repair_unshares_witness:
  "distinct (map entry_key (wallets (fst (repairSharedSidecarFiles (\<lambda>a b. False) shared_vault))))"
proof -
  let ?r = "wallets (fst (repairSharedSidecarFiles (\<lambda>a b. False) shared_vault))"
  have d: "distinct (ids shared_vault)" by (simp add: shared_vault_def ids_def mk_entry_def)
  have k: "\<And>w. w \<in> set (wallets shared_vault) \<Longrightarrow> entry_key w = Some (file_key Zano ''pwnda.zan'')"
    by (auto simp: shared_vault_def mk_entry_def entry_key_def sidecarFileForEntry_def keep_truthy_def or_else_def)
  have "move_target w \<noteq> file_key Zano ''pwnda.zan''" if "w \<in> set (wallets shared_vault)" for w
    using that by (auto simp: move_target_def shared_vault_def mk_entry_def dest: file_key_inj)
  moreover have "keys (wallets shared_vault) \<subseteq> {file_key Zano ''pwnda.zan''}"
    using k by (auto simp: keys_def)
  ultimately have "move_target w \<notin> keys (wallets shared_vault)" if "w \<in> set (wallets shared_vault)" for w
    using that by blast
  then have u: "\<And>x y. x \<in> set ?r \<Longrightarrow> y \<in> set ?r \<Longrightarrow> entry_key x = entry_key y \<Longrightarrow> entry_key x \<noteq> None \<Longrightarrow> x = y"
    by (rule repair_unshares [OF d])
  have "distinct (map w_id ?r)" by code_simp
  then have "distinct ?r" by (simp add: distinct_map)
  moreover have "list_all (\<lambda>w. entry_key w \<noteq> None) ?r" by code_simp
  ultimately show ?thesis using u by (auto simp: distinct_map inj_on_def list_all_iff)
qed

text \<open>The repair writes nothing but file names: every other property of every wallet, the
  order of the wallets and the rest of the vault are kept.\<close>

theorem repair_frame:
  "map (\<lambda>w. w\<lparr>w_sidecarFile := None\<rparr>) (wallets (fst (repairSharedSidecarFiles lc v))) =
     map (\<lambda>w. w\<lparr>w_sidecarFile := None\<rparr>) (wallets v) \<and>
   (fst (repairSharedSidecarFiles lc v))\<lparr>wallets := []\<rparr> = v\<lparr>wallets := []\<rparr> \<and>
   (if snd (repairSharedSidecarFiles lc v) = [] then fst (repairSharedSidecarFiles lc v) else v) = v"
proof -
  have "(move_entry m w)\<lparr>w_sidecarFile := None\<rparr> = w\<lparr>w_sidecarFile := None\<rparr>" for m w
    by (simp add: move_entry_def split: option.split)
  then have "map (\<lambda>w. w\<lparr>w_sidecarFile := None\<rparr>) (wallets (fst (repairSharedSidecarFiles lc v))) =
      map (\<lambda>w. w\<lparr>w_sidecarFile := None\<rparr>) (wallets v)"
    unfolding wallets_repair by simp
  then show ?thesis by (simp add: repair_unfold case_prod_beta Let_def)
qed

subsection \<open>Adding, renaming and removing entries\<close>

text \<open>The vault with the ids it has drawn so far, and the edits the wallet list offers.\<close>

datatype vault_edit =
    AddEntry NewWalletSpec
  | AddXelis string "string option"
  | Rename string string
  | Remove string

fun vault_edit_step :: "int \<Rightarrow> id_supply \<Rightarrow> VaultPayloadV3 \<times> nat \<Rightarrow> vault_edit \<Rightarrow> VaultPayloadV3 \<times> nat" where
  "vault_edit_step now genId (v, n) (AddEntry spec) =
     (let ((v', e), n') = addWalletEntry now genId n v spec in (v', n'))"
| "vault_edit_step now genId (v, n) (AddXelis seed active) =
     (case addXelisWalletToContext now genId n v seed active of
        Inl err \<Rightarrow> (v, n) | Inr ((v', e, added), n') \<Rightarrow> (v', n'))"
| "vault_edit_step now genId (v, n) (Rename i nm) = (renameWalletEntry v i nm, n)"
| "vault_edit_step now genId (v, n) (Remove i) = (fst (removeWalletEntry v i), n)"

text \<open>Every file is one of the three legacy files or the entry's own.\<close>

fun legacy_file :: "WalletKind \<Rightarrow> string option" where
  "legacy_file Xmr = Some LEGACY_XMR_SIDECAR_FILE"
| "legacy_file Zph = Some LEGACY_ZPH_SIDECAR_FILE"
| "legacy_file Zano = Some LEGACY_ZANO_SIDECAR_FILE"
| "legacy_file _ = None"

definition own_or_legacy :: "WalletEntry \<Rightarrow> bool" where
  "own_or_legacy w =
     (w_sidecarFile w = None \<or> w_sidecarFile w = legacy_file (w_kind w) \<or>
      w_sidecarFile w = newSidecarFile (w_kind w) (w_id w))"

definition unshared :: "WalletEntry list \<Rightarrow> bool" where
  "unshared ws = (\<forall>x \<in> set ws. \<forall>y \<in> set ws. entry_key x = entry_key y \<longrightarrow> entry_key x \<noteq> None \<longrightarrow> x = y)"

definition vault_good :: "id_supply \<Rightarrow> VaultPayloadV3 \<times> nat \<Rightarrow> bool" where
  "vault_good genId s =
     (inj genId \<and> (\<forall>k. genId k \<noteq> ''active'') \<and> distinct (ids (fst s)) \<and>
      set (ids (fst s)) \<subseteq> genId ` {..< snd s} \<and>
      (\<forall>w \<in> set (wallets (fst s)). own_or_legacy w) \<and> unshared (wallets (fst s)))"

lemma legacy_file_not_new:
  "legacy_file k = Some f \<Longrightarrow> newSidecarFile k i = Some f \<Longrightarrow> i = ''active''"
  by (cases k) (auto simp: LEGACY_XMR_SIDECAR_FILE_def LEGACY_ZPH_SIDECAR_FILE_def LEGACY_ZANO_SIDECAR_FILE_def)

lemma own_or_legacy_file:
  "own_or_legacy w \<Longrightarrow> sidecarFileForEntry w = Some f \<Longrightarrow>
   legacy_file (w_kind w) = Some f \<or> newSidecarFile (w_kind w) (w_id w) = Some f"
  by (auto simp: own_or_legacy_def sidecarFileForEntry_def or_else_def split: if_splits option.splits)

text \<open>An entry with a fresh id and its own file meets no other entry's file.\<close>

lemma fresh_entry_unshared:
  assumes u: "unshared ws" and ol: "\<forall>w \<in> set ws. own_or_legacy w"
    and fresh: "w_id e \<notin> set (map w_id ws)" "w_id e \<noteq> ''active''"
    and own: "sidecarFileForEntry e = newSidecarFile (w_kind e) (w_id e)"
  shows "unshared (ws @ [e])"
proof -
  have no: "entry_key x \<noteq> entry_key e" if x: "x \<in> set ws" "entry_key x \<noteq> None" for x
  proof
    assume eq: "entry_key x = entry_key e"
    then obtain k where k: "entry_key x = Some k" "entry_key e = Some k" using x by auto
    obtain f g where f: "sidecarFileForEntry x = Some f" "k = file_key (w_kind x) f"
        and g: "sidecarFileForEntry e = Some g" "k = file_key (w_kind e) g"
      using entry_key_Some [OF k(1)] entry_key_Some [OF k(2)] by blast
    have kf: "w_kind x = w_kind e" "f = g" using f(2) g(2) file_key_inj by metis+
    have "legacy_file (w_kind x) = Some f \<or> newSidecarFile (w_kind x) (w_id x) = Some f"
      using ol x f own_or_legacy_file by blast
    moreover have new: "newSidecarFile (w_kind x) (w_id e) = Some f" using g own kf by simp
    ultimately consider "w_id e = ''active''" | "w_id x = w_id e"
      using legacy_file_not_new newSidecarFile_inj by blast
    moreover have "w_id x \<in> set (map w_id ws)" using x by simp
    ultimately show False using fresh by cases auto
  qed
  show ?thesis unfolding unshared_def
  proof (intro ballI impI)
    fix x y
    assume a: "x \<in> set (ws @ [e])" "y \<in> set (ws @ [e])" "entry_key x = entry_key y" "entry_key x \<noteq> None"
    then have "x \<in> set ws \<or> x = e" "y \<in> set ws \<or> y = e" by auto
    then show "x = y" using no [of x] no [of y] a(3,4) u unfolding unshared_def by (elim disjE) simp_all
  qed
qed

lemma add_entry_good:
  assumes g: "vault_good genId (v, n)"
    and a: "addWalletEntry now genId n v spec = ((v', e), n')"
  shows "vault_good genId (v', n')"
proof -
  have e: "w_id e = genId n" "wallets v' = wallets v @ [e]" "n < n'"
      "own_or_legacy e" "sidecarFileForEntry e = newSidecarFile (w_kind e) (w_id e)"
    using a by (cases "s_kind spec"; auto simp: addWalletEntry_def Let_def mk_entry_def own_or_legacy_def
        sidecarFileForEntry_def or_else_def split: if_splits option.splits)+
  have fresh: "genId n \<notin> set (ids v)"
    using g by (auto simp: vault_good_def inj_eq)
  have "unshared (wallets v')"
    unfolding e(2) by (rule fresh_entry_unshared) (use g e fresh in \<open>simp_all add: vault_good_def ids_def\<close>)
  moreover have "genId n \<in> genId ` {..<n'}" using e(3) by simp
  moreover have "set (ids v) \<subseteq> genId ` {..<n'}"
    using g e(3) by (force simp: vault_good_def)
  ultimately show ?thesis using g e fresh by (auto simp: vault_good_def ids_def)
qed

lemma add_entry_good':
  "vault_good genId (v, n) \<Longrightarrow>
   vault_good genId (fst (fst (addWalletEntry now genId n v spec)), snd (addWalletEntry now genId n v spec))"
  using add_entry_good [of genId v n now spec "fst (fst (addWalletEntry now genId n v spec))"
      "snd (fst (addWalletEntry now genId n v spec))" "snd (addWalletEntry now genId n v spec)"] by simp

lemma rename_good: "vault_good genId (v, n) \<Longrightarrow> vault_good genId (renameWalletEntry v i nm, n)"
proof -
  assume g: "vault_good genId (v, n)"
  let ?r = "\<lambda>w. if w_id w = i then w\<lparr>w_name := nm\<rparr> else w"
  have key: "entry_key (?r w) = entry_key w" "w_id (?r w) = w_id w" "own_or_legacy (?r w) = own_or_legacy w" for w
    by (simp_all add: entry_key_def sidecarFileForEntry_def own_or_legacy_def)
  have ws: "wallets (renameWalletEntry v i nm) = map ?r (wallets v)" by (simp add: renameWalletEntry_def)
  have "ids (renameWalletEntry v i nm) = ids v"
    unfolding ids_def ws map_map by (rule map_cong) (simp_all add: key(2))
  moreover have "unshared (map ?r (wallets v))" unfolding unshared_def
  proof (intro ballI impI)
    fix x y
    assume a: "x \<in> set (map ?r (wallets v))" "y \<in> set (map ?r (wallets v))"
      and e: "entry_key x = entry_key y" "entry_key x \<noteq> None"
    obtain p q where p: "p \<in> set (wallets v)" "x = ?r p" and q: "q \<in> set (wallets v)" "y = ?r q"
      using a by (auto simp del: key)
    have "entry_key p = entry_key q" using e(1) unfolding p(2) q(2) key(1) .
    moreover have "entry_key p \<noteq> None" using e(2) unfolding p(2) key(1) .
    ultimately show "x = y" using g p q unfolding vault_good_def unshared_def fst_conv by blast
  qed
  moreover have "\<forall>w \<in> set (map ?r (wallets v)). own_or_legacy w"
    using g unfolding vault_good_def fst_conv set_map ball_simps(9) key(3) by blast
  ultimately show ?thesis using g unfolding vault_good_def fst_conv snd_conv ws by simp
qed

lemma remove_good: "vault_good genId (v, n) \<Longrightarrow> vault_good genId (fst (removeWalletEntry v i), n)"
  by (auto simp: vault_good_def removeWalletEntry_def Let_def ids_def distinct_map_filter unshared_def)

lemma vault_edit_good: "vault_good genId s \<Longrightarrow> vault_good genId (vault_edit_step now genId s e)"
proof -
  assume g: "vault_good genId s"
  obtain v n where s: "s = (v, n)" by (cases s)
  show ?thesis
  proof (cases e)
    case (AddEntry spec)
    then show ?thesis using add_entry_good' g s by (simp add: Let_def case_prod_beta)
  next
    case (AddXelis seed active)
    then show ?thesis using g s
      by (auto simp: addXelisWalletToContext_def Let_def case_prod_beta
          split: option.split intro: add_entry_good')
  qed (use g s rename_good remove_good in auto)
qed

interpretation vault_edits: event_machine "vault_edit_step now genId" "vault_good genId"
  for now :: int and genId :: id_supply
  by unfold_locales (rule vault_edit_good)

lemma migrate_good:
  assumes "inj genId" "\<And>k. genId k \<noteq> ''active''"
  shows "vault_good genId (migrateV2ToV3 now genId 0 v2)"
proof -
  have ne: "genId i = genId j \<longleftrightarrow> i = j" for i j using assms(1) by (simp add: inj_eq)
  show ?thesis
    using assms
    by (auto simp: migrateV2ToV3_def Let_def vault_good_def ids_def ne unshared_def own_or_legacy_def
        mk_entry_def entry_key_def sidecarFileForEntry_def or_else_def keep_truthy_def file_key_def
        split: if_splits)
qed

definition demo_flat_xm :: VaultPayload where
  "demo_flat_xm = \<lparr>bip39 = ''b'', xmrSeed = Some ''x'', xmrSeedFormat = Some Legacy,
     xmrRestoreHeight = Some 7, zphSeed = None, zphRestoreHeight = None, zanoSeed = Some ''z'',
     zanoSeedPassphrase = None, derivationChoice = None, devFeeAcknowledgedAt = None\<rparr>"

text \<open>A vault made by the version 2 migration and then edited, in any order, by adding wallets,
  adding Xelis wallets to a context, renaming and removing, has one entry per id and never two
  wallets of one kind on one sidecar file.\<close>

theorem vault_edits_keep_files:
  assumes "inj genId" "\<And>k. genId k \<noteq> ''active''"
  shows "let v = fst (foldl (vault_edit_step now genId) (migrateV2ToV3 t genId 0 v2) es)
     in distinct (map w_id (wallets v)) \<and>
        (\<forall>x \<in> set (wallets v). \<forall>y \<in> set (wallets v).
           entry_key x = entry_key y \<longrightarrow> entry_key x \<noteq> None \<longrightarrow> x = y)"
  using vault_edits.run_good [OF migrate_good [OF assms], of now t v2 es]
  unfolding vault_good_def ids_def unshared_def Let_def by blast

theorem vault_edits_keep_files_witness:
  "distinct (map w_id (wallets (fst (foldl (vault_edit_step 5 nat_str) (migrateV2ToV3 1 nat_str 0 demo_flat_xm)
     [AddXelis ''x'' None, Remove ''0'', Rename ''1'' ''n'']))))"
proof -
  have "nat_str k \<noteq> ''active''" for k
    using nat_str_digits [of k] by (auto simp: is_digit_def)
  moreover have "inj nat_str" by (metis injI str_nat_str)
  ultimately show ?thesis
    using vault_edits_keep_files [of nat_str 5 1 demo_flat_xm "[AddXelis ''x'' None, Remove ''0'', Rename ''1'' ''n'']"]
    unfolding Let_def by blast
qed
end
