(* ===== verification/Cbor.thy ===== *)
theory Cbor
  imports Interfaces "HOL-Library.Word"
begin

section \<open>Canonical CBOR: wallets/cardano-cbor.ts\<close>

text \<open>
  The encoder that serialises Cardano transactions. A byte is an \<open>8 word\<close>, a writer the list of
  its chunks; \<open>bigint\<close> is \<open>int\<close>, so the comparison chain of \<open>writeHead\<close> and the truncation of a
  value that does not fit 64 bits are as in the code. A JavaScript string is a list of
  characters up to U+00FF, for which \<open>TextEncoder\<close> writes one or two bytes.

  \<open>decode\<close> is a reference decoder, not code of the repository: it is what a reader of RFC 8949
  does with the bytes.
\<close>

unbundle bit_operations_syntax

type_synonym byte = "8 word"

subsection \<open>The writer\<close>

type_synonym CborWriter = "byte list list"

definition w_append :: "CborWriter \<Rightarrow> byte list \<Rightarrow> CborWriter" where
  "w_append w b = w @ [b]"

definition toBytes :: "CborWriter \<Rightarrow> byte list" where
  "toBytes w = concat w"

definition MT_UINT :: int where "MT_UINT = 0"
definition MT_BYTES :: int where "MT_BYTES = 2"
definition MT_TEXT :: int where "MT_TEXT = 3"
definition MT_ARRAY :: int where "MT_ARRAY = 4"
definition MT_MAP :: int where "MT_MAP = 5"
definition MT_TAGGED :: int where "MT_TAGGED = 6"
definition MT_OTHER :: int where "MT_OTHER = 7"

text \<open>Storing a number into a \<open>Uint8Array\<close> keeps its low eight bits.\<close>

definition byte :: "int \<Rightarrow> byte" where "byte v = word_of_int v"

text \<open>\<open>Number((v >> s) & 0xffn)\<close>\<close>

definition byte_at :: "nat \<Rightarrow> int \<Rightarrow> byte" where
  "byte_at s v = byte (drop_bit s v AND 255)"

definition writeHead :: "CborWriter \<Rightarrow> int \<Rightarrow> int \<Rightarrow> CborWriter" where
  "writeHead w mt v =
     (let top = push_bit 5 mt
      in if v < 24 then w_append w [byte (top OR v)]
         else if v < 256 then w_append w [byte (top OR 24), byte v]
         else if v < 65536 then w_append w [byte (top OR 25), byte_at 8 v, byte_at 0 v]
         else if v < 4294967296 then
           w_append w [byte (top OR 26), byte_at 24 v, byte_at 16 v, byte_at 8 v, byte_at 0 v]
         else w_append w (byte (top OR 27) # map (\<lambda>i. byte_at ((7 - i) * 8) v) [0..<8]))"

subsection \<open>Values\<close>

datatype CborValue =
    CUint int
  | CBytes "byte list"
  | CText string
  | CArray "CborValue list"
  | CMap "(CborValue \<times> CborValue) list"
  | CTagged int CborValue
  | CBool bool
  | CNull

definition uintCbor :: "int \<Rightarrow> CborValue" where "uintCbor n = CUint n"
definition bytesCbor :: "byte list \<Rightarrow> CborValue" where "bytesCbor b = CBytes b"
definition arrayCbor :: "CborValue list \<Rightarrow> CborValue" where "arrayCbor values = CArray values"
definition mapCbor :: "(CborValue \<times> CborValue) list \<Rightarrow> CborValue" where "mapCbor entries = CMap entries"
definition taggedCbor :: "int \<Rightarrow> CborValue \<Rightarrow> CborValue" where "taggedCbor tag v = CTagged tag v"
definition nullCbor :: CborValue where "nullCbor = CNull"
definition boolCbor :: "bool \<Rightarrow> CborValue" where "boolCbor b = CBool b"

definition utf8_char :: "char \<Rightarrow> byte list" where
  "utf8_char c =
     (let n = (of_char c :: int)
      in if n < 128 then [byte n] else [byte (192 OR drop_bit 6 n), byte (128 OR (n AND 63))])"

definition utf8 :: "string \<Rightarrow> byte list" where
  "utf8 s = concat (map utf8_char s)"

function (sequential) writeValue :: "CborWriter \<Rightarrow> CborValue \<Rightarrow> CborWriter"
  and writeValues :: "CborWriter \<Rightarrow> CborValue list \<Rightarrow> CborWriter"
  and writeEntries :: "CborWriter \<Rightarrow> (CborValue \<times> CborValue) list \<Rightarrow> CborWriter" where
  "writeValue w (CUint n) = writeHead w MT_UINT n"
| "writeValue w (CBytes b) = w_append (writeHead w MT_BYTES (int (length b))) b"
| "writeValue w (CText s) = w_append (writeHead w MT_TEXT (int (length (utf8 s)))) (utf8 s)"
| "writeValue w (CArray vs) = writeValues (writeHead w MT_ARRAY (int (length vs))) vs"
| "writeValue w (CMap es) = writeEntries (writeHead w MT_MAP (int (length es))) es"
| "writeValue w (CTagged t v) = writeValue (writeHead w MT_TAGGED t) v"
| "writeValue w (CBool b) = w_append w [byte (push_bit 5 MT_OTHER OR (if b then 21 else 20))]"
| "writeValue w CNull = w_append w [byte (push_bit 5 MT_OTHER OR 22)]"
| "writeValues w [] = w"
| "writeValues w (x # xs) = writeValues (writeValue w x) xs"
| "writeEntries w [] = w"
| "writeEntries w ((k, x) # es) = writeEntries (writeValue (writeValue w k) x) es"
  by pat_completeness auto

termination
  by (relation "measure (case_sum (\<lambda>p. size (snd p)) (case_sum (\<lambda>p. size_list size (snd p))
      (\<lambda>p. size_list (size_prod size size) (snd p))))") auto

definition encodeCbor :: "CborValue \<Rightarrow> byte list" where
  "encodeCbor v = toBytes (writeValue [] v)"

subsection \<open>Hex\<close>

definition hex_digit :: "nat \<Rightarrow> char" where
  "hex_digit d = (if d < 10 then char_of (48 + d) else char_of (87 + d))"

definition bytesToHex :: "byte list \<Rightarrow> string" where
  "bytesToHex b = concat (map (\<lambda>x. [hex_digit (unat x div 16), hex_digit (unat x mod 16)]) b)"

definition hex_val :: "char \<Rightarrow> nat option" where
  "hex_val c =
     (let n = (of_char c :: nat)
      in if 48 \<le> n \<and> n \<le> 57 then Some (n - 48)
         else if 97 \<le> n \<and> n \<le> 102 then Some (n - 87)
         else if 65 \<le> n \<and> n \<le> 70 then Some (n - 55)
         else None)"

text \<open>
  \<open>parseInt(s, 16)\<close> of two characters: blanks before the digits, a sign and a \<open>0x\<close> prefix are
  accepted; the digits stop at the first character that is none; \<open>NaN\<close> is stored as 0.
  A fractional array length is cut to an integer, so an odd last digit is dropped.
\<close>

definition parse_hex2 :: "char \<Rightarrow> char \<Rightarrow> byte" where
  "parse_hex2 a b =
     (case hex_val a of
        Some x \<Rightarrow> (case hex_val b of Some y \<Rightarrow> of_nat (16 * x + y) | None \<Rightarrow> of_nat x)
      | None \<Rightarrow>
          if js_space a \<or> a = CHR ''+'' then of_nat (coalesce (hex_val b) 0)
          else if a = CHR ''-'' then - of_nat (coalesce (hex_val b) 0)
          else 0)"

fun hex_pairs :: "string \<Rightarrow> byte list" where
  "hex_pairs (a # b # s) = parse_hex2 a b # hex_pairs s"
| "hex_pairs _ = []"

definition hexToBytes :: "string \<Rightarrow> byte list" where
  "hexToBytes hex = hex_pairs (if starts_with hex ''0x'' then drop 2 hex else hex)"


subsection \<open>The encoder writes one head and then the parts\<close>

definition head :: "int \<Rightarrow> int \<Rightarrow> byte list" where "head mt v = toBytes (writeHead [] mt v)"

lemma toBytes_append [simp]: "toBytes (w_append w b) = toBytes w @ b"
  by (simp add: toBytes_def w_append_def)

lemma toBytes_Nil [simp]: "toBytes [] = []" by (simp add: toBytes_def)

lemma toBytes_writeHead [simp]: "toBytes (writeHead w mt v) = toBytes w @ head mt v"
  by (simp add: head_def writeHead_def Let_def)

text \<open>The bytes of a value, without the writer.\<close>

fun enc :: "CborValue \<Rightarrow> byte list" where
  "enc (CUint n) = head MT_UINT n"
| "enc (CBytes b) = head MT_BYTES (int (length b)) @ b"
| "enc (CText s) = head MT_TEXT (int (length (utf8 s))) @ utf8 s"
| "enc (CArray vs) = head MT_ARRAY (int (length vs)) @ concat (map enc vs)"
| "enc (CMap es) = head MT_MAP (int (length es)) @ concat (map (\<lambda>(k, x). enc k @ enc x) es)"
| "enc (CTagged t v) = head MT_TAGGED t @ enc v"
| "enc (CBool b) = [byte (push_bit 5 MT_OTHER OR (if b then 21 else 20))]"
| "enc CNull = [byte (push_bit 5 MT_OTHER OR 22)]"

lemma writeValue_enc:
  "toBytes (writeValue w v) = toBytes w @ enc v"
  "toBytes (writeValues w vs) = toBytes w @ concat (map enc vs)"
  "toBytes (writeEntries w es) = toBytes w @ concat (map (\<lambda>(k, x). enc k @ enc x) es)"
  by (induction w v and w vs and w es rule: writeValue_writeValues_writeEntries.induct) auto

lemma encodeCbor_enc: "encodeCbor v = enc v"
  by (simp add: encodeCbor_def writeValue_enc)

subsection \<open>A reference decoder\<close>

definition be_val :: "byte list \<Rightarrow> int" where
  "be_val bs = foldl (\<lambda>acc b. acc * 256 + uint b) 0 bs"

definition info_len :: "int \<Rightarrow> nat" where
  "info_len a = (if a = 24 then 1 else if a = 25 then 2 else if a = 26 then 4 else 8)"

fun dec_head :: "byte list \<Rightarrow> (int \<times> int \<times> byte list) option" where
  "dec_head [] = None"
| "dec_head (b # r) =
     (let mt = uint b div 32; a = uint b mod 32; k = info_len a
      in if a < 24 then Some (mt, a, r)
         else if 27 < a \<or> length r < k then None
         else Some (mt, be_val (take k r), drop k r))"

fun dec_utf8 :: "byte list \<Rightarrow> string option" where
  "dec_utf8 [] = Some []"
| "dec_utf8 (b # r) =
     (if uint b < 128 then map_option ((#) (char_of (uint b))) (dec_utf8 r)
      else case r of
        [] \<Rightarrow> None
      | c # r' \<Rightarrow> map_option ((#) (char_of ((uint b mod 32) * 64 + uint c mod 64))) (dec_utf8 r'))"

fun pair_up :: "'a list \<Rightarrow> ('a \<times> 'a) list" where
  "pair_up (k # x # r) = (k, x) # pair_up r"
| "pair_up _ = []"

fun dec_value :: "nat \<Rightarrow> byte list \<Rightarrow> (CborValue \<times> byte list) option"
  and dec_values :: "nat \<Rightarrow> nat \<Rightarrow> byte list \<Rightarrow> (CborValue list \<times> byte list) option" where
  "dec_value 0 bs = None"
| "dec_value (Suc f) bs =
     (case dec_head bs of
        None \<Rightarrow> None
      | Some (mt, v, r) \<Rightarrow>
          if mt = MT_UINT then Some (CUint v, r)
          else if mt = MT_BYTES then
            if length r < nat v then None else Some (CBytes (take (nat v) r), drop (nat v) r)
          else if mt = MT_TEXT then
            if length r < nat v then None
            else map_option (\<lambda>s. (CText s, drop (nat v) r)) (dec_utf8 (take (nat v) r))
          else if mt = MT_ARRAY then
            map_option (\<lambda>(vs, r). (CArray vs, r)) (dec_values f (nat v) r)
          else if mt = MT_MAP then
            map_option (\<lambda>(vs, r). (CMap (pair_up vs), r)) (dec_values f (2 * nat v) r)
          else if mt = MT_TAGGED then
            map_option (\<lambda>(x, r). (CTagged v x, r)) (dec_value f r)
          else if mt = MT_OTHER then
            if v = 20 then Some (CBool False, r) else if v = 21 then Some (CBool True, r)
            else if v = 22 then Some (CNull, r) else None
          else None)"
| "dec_values f 0 bs = Some ([], bs)"
| "dec_values 0 (Suc n) bs = None"
| "dec_values (Suc f) (Suc n) bs =
     (case dec_value f bs of
        None \<Rightarrow> None
      | Some (x, r) \<Rightarrow> map_option (\<lambda>(xs, r). (x # xs, r)) (dec_values f n r))"

definition decode :: "byte list \<Rightarrow> (CborValue \<times> byte list) option" where
  "decode bs = dec_value (2 * length bs) bs"

subsection \<open>Heads\<close>

lemma foldl_be: "foldl (\<lambda>acc b. acc * 256 + uint b) a bs =
    a * 256 ^ length bs + foldl (\<lambda>acc b. acc * 256 + uint b) 0 bs" for a :: int and bs :: "byte list"
proof (induction bs arbitrary: a)
  case (Cons b bs)
  show ?case using Cons [of "a * 256 + uint b"] Cons [of "uint b"] by (simp add: distrib_right)
qed simp

lemma be_val_Cons: "be_val (b # bs) = uint b * 256 ^ length bs + be_val bs"
  using foldl_be [of "uint b" bs] by (simp add: be_val_def)

lemma be_val_Nil [simp]: "be_val [] = 0" by (simp add: be_val_def)

lemma uint_byte: "0 \<le> v \<Longrightarrow> v < 256 \<Longrightarrow> uint (byte v) = v"
  by (simp add: byte_def uint_word_of_int)

lemma and_255: "(x :: int) AND 255 = x mod 256"
  using take_bit_eq_mask [of 8 x] by (simp add: mask_eq_exp_minus_1 take_bit_eq_mod)

lemma uint_byte_at: "uint (byte_at s v) = v div 2 ^ s mod 256"
  by (simp add: byte_at_def uint_byte and_255 drop_bit_eq_div)

text \<open>The low \<open>n\<close> bytes of a number, most significant first.\<close>

fun be_bytes :: "nat \<Rightarrow> int \<Rightarrow> byte list" where
  "be_bytes 0 v = []"
| "be_bytes (Suc n) v = byte_at (8 * n) v # be_bytes n v"

lemma length_be_bytes [simp]: "length (be_bytes n v) = n"
  by (induction n) auto

lemma be_val_be_bytes: "be_val (be_bytes n v) = v mod 2 ^ (8 * n)"
proof (induction n)
  case (Suc n)
  have "v mod (2 ^ (8 * n) * 256) = 2 ^ (8 * n) * (v div 2 ^ (8 * n) mod 256) + v mod 2 ^ (8 * n)"
    by (rule zmod_zmult2_eq) simp
  moreover have "(256 :: int) ^ n = 2 ^ (8 * n)" by (simp add: power_mult)
  ultimately show ?case using Suc
    by (simp add: be_val_Cons uint_byte_at power_add mult.commute)
qed simp

lemma push_or: "0 \<le> a \<Longrightarrow> a < 2 ^ k \<Longrightarrow> push_bit k m OR a = m * 2 ^ k + (a :: int)"
proof -
  assume "0 \<le> a" "a < 2 ^ k"
  then have t: "take_bit k a = a" by (simp add: take_bit_int_eq_self)
  have "push_bit k m + take_bit k a = push_bit k m OR take_bit k a"
    by (rule disjunctive_add) (auto simp: bit_push_bit_iff bit_take_bit_iff)
  then show ?thesis by (simp add: t push_bit_eq_mult)
qed

lemma top_or: "0 \<le> a \<Longrightarrow> a < 32 \<Longrightarrow> push_bit 5 mt OR a = mt * 32 + (a :: int)"
  using push_or [of a 5] by simp

lemma uint_top:
  assumes "0 \<le> mt" "mt < 8" "0 \<le> a" "a < 32"
  shows "uint (byte (push_bit 5 mt OR a)) = mt * 32 + a"
  using assms by (simp add: top_or uint_byte)

definition head_args :: "int \<Rightarrow> byte list" where
  "head_args v =
     (if v < 24 then [] else if v < 256 then [byte v] else if v < 65536 then [byte_at 8 v, byte_at 0 v]
      else if v < 4294967296 then [byte_at 24 v, byte_at 16 v, byte_at 8 v, byte_at 0 v]
      else map (\<lambda>i. byte_at ((7 - i) * 8) v) [0..<8])"

definition head_info :: "int \<Rightarrow> int" where
  "head_info v = (if v < 24 then v else if v < 256 then 24 else if v < 65536 then 25
     else if v < 4294967296 then 26 else 27)"

lemma head_split: "head mt v = byte (push_bit 5 mt OR head_info v) # head_args v"
  by (simp add: head_def writeHead_def Let_def head_args_def head_info_def)

definition head_len :: "int \<Rightarrow> nat" where
  "head_len v = (if v < 24 then 0 else if v < 256 then 1 else if v < 65536 then 2
     else if v < 4294967296 then 4 else 8)"

lemma head_args_be: "0 \<le> v \<Longrightarrow> head_args v = be_bytes (head_len v) v"
proof -
  assume "0 \<le> v"
  have "v < 256 \<Longrightarrow> byte v = byte_at 0 v" using \<open>0 \<le> v\<close> by (simp add: byte_at_def and_255)
  moreover have "map (\<lambda>i. byte_at ((7 - i) * 8) v) [0..<8] = be_bytes 8 v"
    by (simp add: upt_rec numeral_eq_Suc)
  ultimately show ?thesis by (simp add: head_args_def head_len_def numeral_eq_Suc)
qed

lemma dec_head_head:
  assumes "0 \<le> mt" "mt < 8" "0 \<le> v" "v < 2 ^ 64"
  shows "dec_head (head mt v @ r) = Some (mt, v, r)"
proof -
  let ?b = "byte (push_bit 5 mt OR head_info v)"
  have u: "uint ?b = mt * 32 + head_info v"
    using assms by (intro uint_top) (auto simp: head_info_def)
  have i: "0 \<le> head_info v" "head_info v < 32" using assms by (auto simp: head_info_def)
  have dm: "uint ?b div 32 = mt" "uint ?b mod 32 = head_info v" using u i by simp_all
  have be: "24 \<le> v \<Longrightarrow> be_val (be_bytes (head_len v) v) = v"
    using assms by (simp add: be_val_be_bytes head_len_def)
  have k: "24 \<le> v \<Longrightarrow> info_len (head_info v) = head_len v \<and> 24 \<le> head_info v \<and> head_info v \<le> 27"
    by (simp add: head_info_def head_len_def info_len_def)
  show ?thesis
  proof (cases "v < 24")
    case True
    then show ?thesis unfolding head_split append_Cons dec_head.simps dm Let_def
      by (simp add: head_info_def head_args_def)
  next
    case False
    then show ?thesis using be k assms(3)
      unfolding head_split append_Cons dec_head.simps dm Let_def by (simp add: head_args_be)
  qed
qed

interpretation cbor_head: prefix_codec "\<lambda>(mt, v). head mt v"
    "\<lambda>bs. map_option (\<lambda>(mt, v, r). ((mt, v), r)) (dec_head bs)"
    "\<lambda>(mt, v). 0 \<le> mt \<and> mt < 8 \<and> 0 \<le> v \<and> v < 2 ^ 64"
  by unfold_locales (auto simp: dec_head_head)

lemma length_head: "0 \<le> v \<Longrightarrow> length (head mt v) = Suc (head_len v)"
  by (simp add: head_split head_args_be)

subsection \<open>Values read back\<close>

lemma utf8_char_decode: "dec_utf8 (utf8_char c @ bs) = map_option ((#) c) (dec_utf8 bs)"
proof -
  define n where "n = (of_char c :: int)"
  have "n = int (of_char c)" unfolding n_def by (rule of_nat_of_char [symmetric])
  then have n: "0 \<le> n" "n < 256" using nat_of_char_less_256 [of c] by linarith+
  have n3: "char_of n = c" by (simp add: n_def)
  show ?thesis
  proof (cases "n < 128")
    case True
    then show ?thesis using n n3 by (simp add: utf8_char_def n_def [symmetric] uint_byte)
  next
    case False
    then have d: "2 \<le> n div 64" "n div 64 \<le> 3" using n by auto
    have "push_bit 6 3 OR n div 64 = 3 * 2 ^ 6 + n div 64" by (rule push_or) (use d in auto)
    then have hi: "uint (byte (192 OR drop_bit 6 n)) = 192 + n div 64"
      using d by (simp add: push_bit_eq_mult drop_bit_eq_div uint_byte)
    have m: "n AND 63 = n mod 64" using take_bit_eq_mask [of 6 n]
      by (simp add: mask_eq_exp_minus_1 take_bit_eq_mod)
    have "push_bit 6 2 OR n mod 64 = 2 * 2 ^ 6 + n mod 64" by (rule push_or) auto
    moreover have "n mod 64 < 64" "0 \<le> n mod 64" by simp_all
    ultimately have lo: "uint (byte (128 OR (n AND 63))) = 128 + n mod 64"
      by (simp add: m push_bit_eq_mult uint_byte)
    have "n div 64 = 2 \<or> n div 64 = 3" using d by linarith
    then have "(192 + n div 64) mod 32 = n div 64" by (elim disjE) simp_all
    moreover have "(128 + n mod 64) mod 64 = n mod 64" using mod_add_left_eq [of 128 64 "n mod 64"] by simp
    ultimately have "(192 + n div 64) mod 32 * 64 + (128 + n mod 64) mod 64 = n"
      using div_mult_mod_eq [of n 64] by simp
    then show ?thesis using False d n3 hi lo by (simp add: utf8_char_def n_def [symmetric])
  qed
qed

lemma dec_utf8_utf8: "dec_utf8 (utf8 s) = Some s"
  by (induction s) (simp_all add: utf8_def utf8_char_decode)

text \<open>The values whose numbers fit 64 bits: the others have no CBOR encoding.\<close>

fun fits :: "CborValue \<Rightarrow> bool" where
  "fits (CUint n) = (0 \<le> n \<and> n < 2 ^ 64)"
| "fits (CBytes b) = (length b < 2 ^ 64)"
| "fits (CText s) = (length (utf8 s) < 2 ^ 64)"
| "fits (CArray vs) = (length vs < 2 ^ 64 \<and> list_all fits vs)"
| "fits (CMap es) = (length es < 2 ^ 64 \<and> list_all (\<lambda>(k, x). fits k \<and> fits x) es)"
| "fits (CTagged t v) = (0 \<le> t \<and> t < 2 ^ 64 \<and> fits v)"
| "fits (CBool b) = True"
| "fits CNull = True"

lemma enc_not_Nil [simp]: "enc v \<noteq> []"
  by (cases v) (auto simp: head_split)

fun flat_entries :: "(CborValue \<times> CborValue) list \<Rightarrow> CborValue list" where
  "flat_entries [] = []"
| "flat_entries ((k, x) # es) = k # x # flat_entries es"

lemma pair_up_flat [simp]: "pair_up (flat_entries es) = es"
  by (induction es rule: flat_entries.induct) auto

lemma length_flat [simp]: "length (flat_entries es) = 2 * length es"
  by (induction es rule: flat_entries.induct) auto

lemma concat_flat: "concat (map enc (flat_entries es)) = concat (map (\<lambda>(k, x). enc k @ enc x) es)"
  by (induction es rule: flat_entries.induct) auto

lemma set_flat: "x \<in> set (flat_entries es) \<longleftrightarrow> (\<exists>e \<in> set es. x = fst e \<or> x = snd e)"
  by (induction es rule: flat_entries.induct) auto

lemma dec_values_enc:
  assumes "\<And>x f r. x \<in> set xs \<Longrightarrow> 2 * length (enc x) \<le> f \<Longrightarrow> dec_value f (enc x @ r) = Some (x, r)"
    and "2 * length (concat (map enc xs)) + 1 \<le> f"
  shows "dec_values f (length xs) (concat (map enc xs) @ r) = Some (xs, r)"
  using assms
proof (induction xs arbitrary: f)
  case Nil
  then show ?case by (cases f) auto
next
  case (Cons x xs)
  obtain f' where f: "f = Suc f'" using Cons.prems(2) by (cases f) auto
  have "1 \<le> length (enc x)" using enc_not_Nil [of x] by (simp add: Suc_le_eq)
  moreover have "2 * length (enc x) + 2 * length (concat (map enc xs)) \<le> f'"
    using Cons.prems(2) f by simp
  ultimately have l: "2 * length (enc x) \<le> f'" "2 * length (concat (map enc xs)) + 1 \<le> f'"
    by linarith+
  have x: "dec_value f' (enc x @ concat (map enc xs) @ r) = Some (x, concat (map enc xs) @ r)"
    by (rule Cons.prems(1)) (use l in simp_all)
  have "dec_values f' (length xs) (concat (map enc xs) @ r) = Some (xs, r)"
    by (rule Cons.IH) (use Cons.prems(1) l in simp_all)
  then show ?case using x f by simp
qed

lemma dec_value_enc: "fits v \<Longrightarrow> 2 * length (enc v) \<le> f \<Longrightarrow> dec_value f (enc v @ r) = Some (v, r)"
proof (induction v arbitrary: f r)
  case (CUint n)
  then obtain g where "f = Suc g" by (cases f) (auto simp: head_split)
  then show ?case using CUint dec_head_head [of 0 n] by (simp add: MT_UINT_def)
next
  case (CBytes b)
  then obtain g where "f = Suc g" by (cases f) (auto simp: head_split)
  then show ?case using CBytes dec_head_head [of 2 "int (length b)"] by (simp add: MT_UINT_def MT_BYTES_def)
next
  case (CText s)
  then obtain g where "f = Suc g" by (cases f) (auto simp: head_split)
  then show ?case using CText dec_head_head [of 3 "int (length (utf8 s))"]
    by (simp add: MT_UINT_def MT_BYTES_def MT_TEXT_def dec_utf8_utf8)
next
  case (CArray vs)
  then obtain g where g: "f = Suc g" by (cases f) (auto simp: head_split)
  have "dec_values g (length vs) (concat (map enc vs) @ r) = Some (vs, r)"
    by (rule dec_values_enc) (use CArray g in \<open>auto simp: list_all_iff head_split\<close>)
  then show ?case using g CArray.prems dec_head_head [of 4 "int (length vs)"]
    by (simp add: MT_UINT_def MT_BYTES_def MT_TEXT_def MT_ARRAY_def)
next
  case (CMap es)
  then obtain g where g: "f = Suc g" by (cases f) (auto simp: head_split)
  have "dec_values g (length (flat_entries es)) (concat (map enc (flat_entries es)) @ r) = Some (flat_entries es, r)"
  proof (rule dec_values_enc)
    fix x f r
    assume x: "x \<in> set (flat_entries es)" "2 * length (enc x) \<le> f"
    then obtain k y where e: "(k, y) \<in> set es" "x = k \<or> x = y" by (auto simp: set_flat)
    then have "fits x" using CMap.prems(1) by (auto simp: list_all_iff)
    then show "dec_value f (enc x @ r) = Some (x, r)"
      using CMap.IH [OF e(1)] x(2) e(2) by auto
  qed (use CMap g in \<open>simp add: concat_flat head_split\<close>)
  then show ?case using g CMap.prems dec_head_head [of 5 "int (length es)"]
    by (simp add: MT_UINT_def MT_BYTES_def MT_TEXT_def MT_ARRAY_def MT_MAP_def concat_flat)
next
  case (CTagged t v)
  then obtain g where g: "f = Suc g" by (cases f) (auto simp: head_split)
  then have "dec_value g (enc v @ r) = Some (v, r)" using CTagged by (auto simp: head_split)
  then show ?case using g CTagged.prems dec_head_head [of 6 t]
    by (simp add: MT_UINT_def MT_BYTES_def MT_TEXT_def MT_ARRAY_def MT_MAP_def MT_TAGGED_def)
next
  case (CBool b)
  then obtain g where g: "f = Suc g" by (cases f) auto
  have "uint (byte (push_bit 5 7 OR (if b then 21 else 20))) = 7 * 32 + (if b then 21 else 20)"
    by (rule uint_top) auto
  then show ?case using g
    by (simp add: MT_UINT_def MT_BYTES_def MT_TEXT_def MT_ARRAY_def MT_MAP_def MT_TAGGED_def MT_OTHER_def split: if_splits)
next
  case CNull
  then obtain g where g: "f = Suc g" by (cases f) auto
  have "uint (byte (push_bit 5 7 OR 22)) = 7 * 32 + 22"
    by (rule uint_top) auto
  then show ?case using g
    by (simp add: MT_UINT_def MT_BYTES_def MT_TEXT_def MT_ARRAY_def MT_MAP_def MT_TAGGED_def MT_OTHER_def)
qed


lemma decode_enc: "fits v \<Longrightarrow> decode (encodeCbor v @ r) = Some (v, r)"
  by (simp add: decode_def encodeCbor_enc dec_value_enc)

interpretation cbor: prefix_codec encodeCbor decode fits
  by unfold_locales (rule decode_enc)

lemma be_val_bound: "0 \<le> be_val bs \<and> be_val bs < 256 ^ length bs"
proof (induction bs)
  case (Cons b bs)
  have "(uint b + 1) * 256 ^ length bs \<le> 256 * 256 ^ length bs"
    using uint_lt2p [of b] by (intro mult_right_mono) auto
  moreover have "0 \<le> uint b * 256 ^ length bs" by simp
  ultimately show ?case using Cons
    by (simp only: be_val_Cons length_Cons power_Suc distrib_right mult_1 mult_1_left) linarith
qed simp

lemma head_len_bound: "v < 256 ^ k \<Longrightarrow> k \<in> {1, 2, 4, 8} \<Longrightarrow> head_len v \<le> k"
  by (auto simp: head_len_def)

text \<open>C15. What is written is read back: a decoder that knows nothing of the encoder returns the
  value that was written and leaves every byte that follows it, for any nesting of arrays, maps
  and tags. No two transactions have the same bytes.\<close>

theorem cbor_roundtrip:
  "fits v \<Longrightarrow> decode (encodeCbor v @ rest) = Some (v, rest) \<and>
    (\<forall>w. fits w \<and> encodeCbor w = encodeCbor v \<longrightarrow> w = v)"
  using decode_enc cbor.enc_inj by blast

theorem cbor_roundtrip_witness:
  "decode (encodeCbor (CMap [(CUint 0, CArray [CTagged 258 (CArray []), CText [CHR 0xE9]]),
     (CUint 4294967296, CBytes [7, 8]), (CNull, CBool True)]) @ [9]) =
   Some (CMap [(CUint 0, CArray [CTagged 258 (CArray []), CText [CHR 0xE9]]),
     (CUint 4294967296, CBytes [7, 8]), (CNull, CBool True)], [9])"
  by (rule cbor_roundtrip [THEN conjunct1]) (simp add: utf8_def utf8_char_def)

lemma dec_head_Cons:
  "dec_head (b # t) =
     (if uint b mod 32 < 24 then Some (uint b div 32, uint b mod 32, t)
      else if 27 < uint b mod 32 \<or> length t < info_len (uint b mod 32) then None
      else Some (uint b div 32, be_val (take (info_len (uint b mod 32)) t), drop (info_len (uint b mod 32)) t))"
  unfolding dec_head.simps Let_def by (rule refl)

lemma dec_head_cases:
  "dec_head (b # t) = Some (mt, v, r) \<Longrightarrow>
   uint b mod 32 < 24 \<and> v = uint b mod 32 \<and> r = t \<or>
   info_len (uint b mod 32) \<le> length t \<and> v = be_val (take (info_len (uint b mod 32)) t) \<and>
     r = drop (info_len (uint b mod 32)) t"
  unfolding dec_head_Cons
  by (cases "uint b mod 32 < 24"; cases "27 < uint b mod 32 \<or> length t < info_len (uint b mod 32)";
      simp only: if_True if_False option.inject prod.inject option.distinct simp_thms) linarith+

text \<open>Every head is the shortest one: any head that a decoder reads as the same type and number
  is at least as long as the one \<open>writeHead\<close> writes, the rule of RFC 8949 that Cardano enforces.\<close>

theorem head_shortest:
  assumes "dec_head bs = Some (mt, v, r)"
  shows "length (toBytes (writeHead [] mt v)) \<le> length bs - length r"
proof -
  obtain b t where bs: "bs = b # t" using assms by (cases bs) auto
  let ?a = "uint b mod 32"
  let ?k = "info_len ?a"
  consider (short) "?a < 24" "v = ?a" "r = t"
    | (long) "?k \<le> length t" "v = be_val (take ?k t)" "r = drop ?k t"
    using dec_head_cases assms unfolding bs by blast
  then show ?thesis
  proof cases
    case short
    then show ?thesis using length_head [of v mt] bs by (simp add: head_def [symmetric] head_len_def)
  next
    case long
    have "length (take ?k t) = ?k" using long(1) by simp
    then have "v < 256 ^ ?k" using be_val_bound [of "take ?k t"] long(2) by metis
    then have "head_len v \<le> ?k" by (rule head_len_bound) (simp add: info_len_def)
    moreover have "0 \<le> v" using long be_val_bound by simp
    ultimately show ?thesis using length_head [of v mt] long bs by (simp add: head_def [symmetric])
  qed
qed

theorem head_shortest_witness: "length (toBytes (writeHead [] 0 5)) \<le> length [24 :: byte, 5, 1] - length [1 :: byte]"
  by (rule head_shortest) (simp add: be_val_def info_len_def)

subsection \<open>Hex\<close>

lemma hex_val_digit: "d < 16 \<Longrightarrow> hex_val (hex_digit d) = Some d"
  by (auto simp: hex_val_def hex_digit_def Let_def)

lemma nibble_hi [simp]: "unat (b :: byte) div 16 < 16"
proof -
  have "unat b < 2 ^ LENGTH(8)" by (rule unsigned_less)
  then show ?thesis by simp
qed

lemma parse_hex2_digits: "parse_hex2 (hex_digit (unat b div 16)) (hex_digit (unat b mod 16)) = b"
  by (simp add: parse_hex2_def hex_val_digit)

lemma hex_pairs_toHex: "hex_pairs (bytesToHex b) = b"
  by (induction b) (simp_all add: bytesToHex_def parse_hex2_digits)

lemma length_bytesToHex: "length (bytesToHex b) = 2 * length b"
  by (induction b) (simp_all add: bytesToHex_def)

lemma hex_digit_not_x: "d < 16 \<Longrightarrow> hex_digit d \<noteq> CHR ''x''"
  by (auto simp: hex_digit_def dest: arg_cong [where f = "of_char :: char \<Rightarrow> nat"])

lemma not_0x: "\<not> starts_with (bytesToHex b) ''0x''"
proof (cases b)
  case (Cons x xs)
  have "unat x mod 16 < 16" by simp
  then show ?thesis using hex_digit_not_x by (simp add: Cons bytesToHex_def starts_with_def)
qed (simp add: bytesToHex_def starts_with_def)

lemma hexToBytes_toHex [simp]:
  "hexToBytes (bytesToHex b) = b" "hexToBytes (CHR ''0'' # CHR ''x'' # bytesToHex b) = b"
  by (simp add: hexToBytes_def hex_pairs_toHex not_0x) (simp add: hexToBytes_def starts_with_def hex_pairs_toHex)

lemma to_lower_hex_digit: "d < 16 \<Longrightarrow> lower_char (hex_digit d) = hex_digit d"
  by (auto simp: lower_char_def hex_digit_def Let_def)

lemma to_lower_bytesToHex: "to_lower (bytesToHex b) = bytesToHex b"
  by (induction b) (simp_all add: bytesToHex_def to_lower_def to_lower_hex_digit)

text \<open>Hex printed by \<open>bytesToHex\<close> is read back by \<open>hexToBytes\<close>, with or without the \<open>0x\<close>
  prefix other code puts in front of it.\<close>

theorem hex_roundtrip:
  "hexToBytes (bytesToHex b) = b \<and> hexToBytes (''0x'' @ bytesToHex b) = b"
  by simp
end
