(* ===== verification/TronVerify.thy ===== *)
theory TronVerify
  imports Cbor
begin

section \<open>Checking a node's transaction: wallets/tron-tx-verify.ts\<close>

text \<open>
  TronGrid builds the transaction the wallet signs; \<open>verifyTronTransaction\<close> reads the bytes back
  and throws unless they are the transfer the user asked for. Each \<open>throw\<close> is a constructor of
  \<open>tron_error\<close>, \<open>Inl\<close> of the result. \<open>ethers.sha256\<close> is the parameter \<open>sha256\<close> (its hex digits
  without the \<open>0x\<close>). \<open>Number(bigint)\<close> rounds to 53 bits, as in the language.
\<close>

unbundle bit_operations_syntax

datatype tron_error =
    NoTransaction
  | NotHex
  | WrongTransactionId
  | MalformedBytes
  | UnsupportedWireType int
  | RepeatedField int string
  | CarriedMoreThanOnce string
  | UnexpectedForm string
  | ContractCount nat
  | NoParameters
  | DifferentFromRequested string

datatype ExpectedTronTx =
    ExpTrx (ownerHex: string) (toHex: string) (amountSun: int)
  | ExpTrc20 (ownerHex: string) (contractHex: string) (callData: string) (maxFeeLimitSun: int)

definition TRANSFER_CONTRACT :: int where "TRANSFER_CONTRACT = 1"
definition TRIGGER_SMART_CONTRACT :: int where "TRIGGER_SMART_CONTRACT = 31"
definition TYPE_URL_trx :: string where
  "TYPE_URL_trx = ''type.googleapis.com/protocol.TransferContract''"
definition TYPE_URL_trc20 :: string where
  "TYPE_URL_trc20 = ''type.googleapis.com/protocol.TriggerSmartContract''"
definition VARINT :: int where "VARINT = 0"
definition LENGTH_DELIMITED :: int where "LENGTH_DELIMITED = 2"
definition RAW_REPEATED :: "int set" where "RAW_REPEATED = {9, 11}"

record Field =
  f_no :: int
  f_wire :: int
  f_int :: "int option"
  f_bytes :: "byte list option"

subsection \<open>The protobuf reader\<close>

definition bind_sum :: "'e + 'a \<Rightarrow> ('a \<Rightarrow> 'e + 'b) \<Rightarrow> 'e + 'b" where
  "bind_sum m f = (case m of Inl e \<Rightarrow> Inl e | Inr a \<Rightarrow> f a)"

function varint_loop :: "byte list \<Rightarrow> int \<Rightarrow> nat \<Rightarrow> nat \<Rightarrow> tron_error + int \<times> nat" where
  "varint_loop buf result shift pos =
     (if length buf \<le> pos \<or> 63 < shift then Inl MalformedBytes
      else let b = buf ! pos;
               result = result OR push_bit shift (uint (b AND 0x7f))
           in if b AND 0x80 = 0 then Inr (result, pos + 1)
              else varint_loop buf result (shift + 7) (pos + 1))"
  by pat_completeness auto
termination by (relation "measure (\<lambda>(buf, _, _, pos). length buf - pos)") auto

declare varint_loop.simps [simp del]

definition readVarint :: "byte list \<Rightarrow> nat \<Rightarrow> tron_error + int \<times> nat" where
  "readVarint buf start = varint_loop buf 0 0 start"

text \<open>\<open>Number\<close> of a non-negative bigint: the nearest multiple with a 53 bit significand, ties to even.\<close>

fun bit_len :: "nat \<Rightarrow> nat" where
  "bit_len n = (if n = 0 then 0 else Suc (bit_len (n div 2)))"
declare bit_len.simps [simp del]

definition js_number :: "int \<Rightarrow> int" where
  "js_number n =
     (if n < 2 ^ 53 then n
      else let e = bit_len (nat n) - 53; q = n div 2 ^ e; r = n mod 2 ^ e; half = 2 ^ (e - 1)
           in (if half < r \<or> r = half \<and> odd q then q + 1 else q) * 2 ^ e)"

lemma varint_loop_pos: "varint_loop buf res sh pos = Inr (v, p) \<Longrightarrow> pos < p \<and> p \<le> length buf"
proof (induction buf res sh pos rule: varint_loop.induct)
  case (1 buf result shift pos)
  show ?case
    using 1 by (subst (asm) (2) varint_loop.simps) (auto simp: Let_def split: if_splits dest: Suc_lessD)
qed

lemma readVarint_pos: "readVarint buf pos = Inr (v, p) \<Longrightarrow> pos < p \<and> p \<le> length buf"
  unfolding readVarint_def by (rule varint_loop_pos)

text \<open>The loop of \<open>fieldsOf\<close>, with the fields pushed so far.\<close>

function fields_loop :: "byte list \<Rightarrow> Field list \<Rightarrow> nat \<Rightarrow> tron_error + Field list" where
  "fields_loop buf out pos =
     (if length buf \<le> pos then if pos \<noteq> length buf then Inl MalformedBytes else Inr out
      else case readVarint buf pos of
        Inl e \<Rightarrow> Inl e
      | Inr (key, afterKey) \<Rightarrow>
          let no = js_number (drop_bit 3 key); wireType = js_number (key AND 7)
          in if wireType = 0 then
               (case readVarint buf afterKey of
                  Inl e \<Rightarrow> Inl e
                | Inr (v, next) \<Rightarrow>
                    fields_loop buf (out @ [\<lparr>f_no = no, f_wire = wireType, f_int = Some v, f_bytes = None\<rparr>]) next)
             else if wireType = 2 then
               (case readVarint buf afterKey of
                  Inl e \<Rightarrow> Inl e
                | Inr (len, next) \<Rightarrow>
                    let e = next + nat (js_number len)
                    in if length buf < e then Inl MalformedBytes
                       else fields_loop buf
                         (out @ [\<lparr>f_no = no, f_wire = wireType, f_int = None, f_bytes = Some (js_slice next e buf)\<rparr>]) e)
             else if wireType = 1 then
               fields_loop buf (out @ [\<lparr>f_no = no, f_wire = wireType, f_int = None, f_bytes = None\<rparr>]) (afterKey + 8)
             else if wireType = 5 then
               fields_loop buf (out @ [\<lparr>f_no = no, f_wire = wireType, f_int = None, f_bytes = None\<rparr>]) (afterKey + 4)
             else Inl (UnsupportedWireType wireType))"
  by pat_completeness auto
termination
  by (relation "measure (\<lambda>(buf, _, pos). length buf - pos)") (auto dest!: readVarint_pos)

declare fields_loop.simps [simp del]

definition fieldsOf :: "byte list \<Rightarrow> tron_error + Field list" where
  "fieldsOf buf = fields_loop buf [] 0"

definition only :: "Field list \<Rightarrow> int \<Rightarrow> Field list" where
  "only fs no = filter (\<lambda>f. f_no f = no) fs"

fun repeats_loop :: "Field list \<Rightarrow> string \<Rightarrow> int set \<Rightarrow> int list \<Rightarrow> tron_error + unit" where
  "repeats_loop [] wh repeatable seen = Inr ()"
| "repeats_loop (f # fs) wh repeatable seen =
     (if f_no f \<in> repeatable then repeats_loop fs wh repeatable seen
      else if f_no f \<in> set seen then Inl (RepeatedField (f_no f) wh)
      else repeats_loop fs wh repeatable (f_no f # seen))"

definition assertNoRepeats :: "Field list \<Rightarrow> string \<Rightarrow> int set \<Rightarrow> tron_error + unit" where
  "assertNoRepeats fs wh repeatable = repeats_loop fs wh repeatable []"

definition single :: "Field list \<Rightarrow> int \<Rightarrow> int \<Rightarrow> string \<Rightarrow> tron_error + Field option" where
  "single fs no wire what =
     (let hits = only fs no
      in if 1 < length hits then Inl (CarriedMoreThanOnce what)
         else case hits of
           [] \<Rightarrow> Inr None
         | f # _ \<Rightarrow> if f_wire f \<noteq> wire then Inl (UnexpectedForm what) else Inr (Some f))"

definition hexOf :: "byte list option \<Rightarrow> string" where
  "hexOf b = (case b of None \<Rightarrow> [] | Some b \<Rightarrow> bytesToHex b)"

definition bytesOfHex :: "string \<Rightarrow> tron_error + byte list" where
  "bytesOfHex hex =
     (let clean = (if starts_with hex ''0x'' then drop 2 hex else hex)
      in if odd (length clean) \<or> list_ex (\<lambda>c. hex_val c = None) clean then Inl NotHex
         else Inr (hex_pairs clean))"

subsection \<open>TextDecoder\<close>

text \<open>The WHATWG decoder: state is (bytes needed, code point so far, bounds of the next byte).\<close>

type_synonym td_state = "nat \<times> int \<times> int \<times> int"

definition td_start :: "int \<Rightarrow> td_state \<times> int list" where
  "td_start b =
     (if b < 128 then ((0, 0, 128, 191), [b])
      else if 194 \<le> b \<and> b \<le> 223 then ((1, b - 192, 128, 191), [])
      else if 224 \<le> b \<and> b \<le> 239 then
        ((2, b - 224, if b = 224 then 160 else 128, if b = 237 then 159 else 191), [])
      else if 240 \<le> b \<and> b \<le> 244 then
        ((3, b - 240, if b = 240 then 144 else 128, if b = 244 then 143 else 191), [])
      else ((0, 0, 128, 191), [0xFFFD]))"

fun td_step :: "td_state \<Rightarrow> int \<Rightarrow> td_state \<times> int list" where
  "td_step (0, cp, lo, up) b = td_start b"
| "td_step (Suc n, cp, lo, up) b =
     (if b < lo \<or> up < b then (let (s, out) = td_start b in (s, 0xFFFD # out))
      else let cp = cp * 64 + (b - 128)
           in ((n, cp, 128, 191), if n = 0 then [cp] else []))"

fun td_loop :: "td_state \<Rightarrow> byte list \<Rightarrow> int list" where
  "td_loop (n, _) [] = (if n = 0 then [] else [0xFFFD])"
| "td_loop s (b # bs) = (let (s', out) = td_step s (uint b) in out @ td_loop s' bs)"

definition textDecode :: "byte list \<Rightarrow> int list" where
  "textDecode bs = td_loop (0, 0, 128, 191) (if take 3 bs = [0xEF, 0xBB, 0xBF] then drop 3 bs else bs)"

definition codes :: "string \<Rightarrow> int list" where "codes s = map of_char s"

subsection \<open>verifyTronTransaction\<close>

definition check_that :: "bool \<Rightarrow> tron_error \<Rightarrow> tron_error + unit" where
  "check_that b e = (if b then Inr () else Inl e)"

definition bytesField :: "Field list \<Rightarrow> int \<Rightarrow> string \<Rightarrow> tron_error + string" where
  "bytesField params no what =
     bind_sum (single params no LENGTH_DELIMITED what)
       (\<lambda>f. Inr (to_lower (hexOf (Option.bind f f_bytes))))"

definition intField :: "Field list \<Rightarrow> int \<Rightarrow> string \<Rightarrow> tron_error + int" where
  "intField params no what =
     bind_sum (single params no VARINT what) (\<lambda>f. Inr (coalesce (Option.bind f f_int) 0))"

text \<open>The checks on the one contract: its type, its parameters and the fee limit.\<close>

definition verify_call ::
    "Field list \<Rightarrow> int \<Rightarrow> int list \<Rightarrow> Field list \<Rightarrow> ExpectedTronTx \<Rightarrow> tron_error + unit" where
  "verify_call topF ty typeUrl params expected =
     (case expected of
        ExpTrx owner dest amount \<Rightarrow>
          bind_sum (check_that (ty = TRANSFER_CONTRACT \<and> typeUrl = codes TYPE_URL_trx)
                     (DifferentFromRequested ''contract type'')) (\<lambda>_.
          bind_sum (bytesField params 1 ''sender'') (\<lambda>s.
          bind_sum (check_that (s = to_lower owner) (DifferentFromRequested ''sender'')) (\<lambda>_.
          bind_sum (bytesField params 2 ''recipient'') (\<lambda>r.
          bind_sum (check_that (r = to_lower dest) (DifferentFromRequested ''recipient'')) (\<lambda>_.
          bind_sum (intField params 3 ''amount'') (\<lambda>a.
          check_that (a = amount) (DifferentFromRequested ''amount'')))))))
      | ExpTrc20 owner cont data maxFee \<Rightarrow>
          bind_sum (check_that (ty = TRIGGER_SMART_CONTRACT \<and> typeUrl = codes TYPE_URL_trc20)
                     (DifferentFromRequested ''contract type'')) (\<lambda>_.
          bind_sum (bytesField params 1 ''sender'') (\<lambda>s.
          bind_sum (check_that (s = to_lower owner) (DifferentFromRequested ''sender'')) (\<lambda>_.
          bind_sum (bytesField params 2 ''token contract'') (\<lambda>c.
          bind_sum (check_that (c = to_lower cont) (DifferentFromRequested ''token contract'')) (\<lambda>_.
          bind_sum (intField params 3 ''TRX value'') (\<lambda>v.
          bind_sum (check_that (v = 0) (DifferentFromRequested ''TRX value attached'')) (\<lambda>_.
          bind_sum (bytesField params 4 ''call data'') (\<lambda>d.
          bind_sum (check_that (d = to_lower data) (DifferentFromRequested ''recipient or amount'')) (\<lambda>_.
          bind_sum (intField params 5 ''token value'') (\<lambda>tv.
          bind_sum (if tv \<noteq> 0 then Inl (DifferentFromRequested ''token value attached'')
                    else bind_sum (intField params 6 ''token id'') (\<lambda>ti.
                      check_that (ti = 0) (DifferentFromRequested ''token value attached''))) (\<lambda>_.
          bind_sum (single topF 18 VARINT ''fee limit'') (\<lambda>f.
          check_that (coalesce (Option.bind f f_int) 0 \<le> maxFee) (DifferentFromRequested ''fee limit''))))))))))))))"

definition verifyTronTransaction ::
    "(byte list \<Rightarrow> string) \<Rightarrow> string option \<Rightarrow> string option \<Rightarrow> ExpectedTronTx \<Rightarrow> tron_error + unit" where
  "verifyTronTransaction sha256 txID raw_data_hex expected =
     (if txID = None \<or> raw_data_hex = None then Inl NoTransaction
      else
        bind_sum (bytesOfHex (the raw_data_hex)) (\<lambda>raw.
        bind_sum (check_that (sha256 raw = to_lower (the txID)) WrongTransactionId) (\<lambda>_.
        bind_sum (fieldsOf raw) (\<lambda>topF.
        bind_sum (assertNoRepeats topF ''transaction'' RAW_REPEATED) (\<lambda>_.
        let contracts = only topF 11
        in if length contracts \<noteq> 1 \<or> f_wire (hd contracts) \<noteq> LENGTH_DELIMITED \<or> f_bytes (hd contracts) = None
           then Inl (ContractCount (length contracts))
           else
        bind_sum (fieldsOf (the (f_bytes (hd contracts)))) (\<lambda>contract.
        bind_sum (assertNoRepeats contract ''contract'' {}) (\<lambda>_.
        bind_sum (intField contract 1 ''contract type'') (\<lambda>ty.
        bind_sum (single contract 2 LENGTH_DELIMITED ''contract parameters'') (\<lambda>a.
        case Option.bind a f_bytes of None \<Rightarrow> Inl NoParameters | Some anyBytes \<Rightarrow>
        bind_sum (fieldsOf anyBytes) (\<lambda>any.
        bind_sum (assertNoRepeats any ''contract parameters'' {}) (\<lambda>_.
        bind_sum (single any 1 LENGTH_DELIMITED ''parameter type'') (\<lambda>t.
        let typeUrl = textDecode (coalesce (Option.bind t f_bytes) [])
        in
        bind_sum (single any 2 LENGTH_DELIMITED ''contract parameters'') (\<lambda>v.
        case Option.bind v f_bytes of None \<Rightarrow> Inl NoParameters | Some value \<Rightarrow>
        bind_sum (fieldsOf value) (\<lambda>params.
        bind_sum (assertNoRepeats params
                   (case expected of ExpTrx _ _ _ \<Rightarrow> ''transfer'' | _ \<Rightarrow> ''contract call'') {}) (\<lambda>_.
        verify_call topF ty typeUrl params expected)))))))))))))))"

subsection \<open>What the network reads\<close>

text \<open>
  A protobuf reader keeps the last copy of a field that is not repeated, and the default where
  there is none. \<open>tx_reading\<close> is what such a reader makes of the bytes; it is the specification
  the checker is measured against, not code of the repository.
\<close>

definition last_of :: "Field list \<Rightarrow> int \<Rightarrow> Field option" where
  "last_of fs no = (case rev (only fs no) of [] \<Rightarrow> None | f # _ \<Rightarrow> Some f)"

definition read_int :: "Field list \<Rightarrow> int \<Rightarrow> int" where
  "read_int fs no = coalesce (Option.bind (last_of fs no) f_int) 0"

definition read_bytes :: "Field list \<Rightarrow> int \<Rightarrow> byte list" where
  "read_bytes fs no = coalesce (Option.bind (last_of fs no) f_bytes) []"

record tx_reading =
  t_contracts :: nat
  t_type :: int
  t_url :: "byte list"
  t_params :: "Field list"
  t_feeLimit :: int

definition network_reads :: "byte list \<Rightarrow> tron_error + tx_reading" where
  "network_reads raw =
     bind_sum (fieldsOf raw) (\<lambda>topF.
     bind_sum (fieldsOf (read_bytes topF 11)) (\<lambda>contract.
     bind_sum (fieldsOf (read_bytes contract 2)) (\<lambda>any.
     bind_sum (fieldsOf (read_bytes any 2)) (\<lambda>params.
       Inr \<lparr>t_contracts = length (only topF 11), t_type = read_int contract 1,
            t_url = read_bytes any 1, t_params = params, t_feeLimit = read_int topF 18\<rparr>))))"

subsection \<open>Accepted transactions\<close>

lemma bind_sum_Inr [simp]: "bind_sum m f = Inr b \<longleftrightarrow> (\<exists>a. m = Inr a \<and> f a = Inr b)"
  by (cases m) (auto simp: bind_sum_def)

lemma check_that_Inr [simp]: "check_that b e = Inr u \<longleftrightarrow> b"
  by (simp add: check_that_def)

lemma single_last:
  assumes "single fs no w what = Inr r" shows "last_of fs no = r \<and> (\<forall>f. r = Some f \<longrightarrow> f_wire f = w)"
proof -
  have l: "length (only fs no) \<le> 1" using assms by (auto simp: single_def Let_def split: if_splits)
  then consider "only fs no = []" | f where "only fs no = [f]"
    by (cases "only fs no"; cases "tl (only fs no)") auto
  then show ?thesis
    using assms by cases (auto simp: single_def last_of_def Let_def split: if_splits)
qed

lemma intField_reads: "intField fs no what = Inr v \<Longrightarrow> read_int fs no = v"
  by (auto simp: intField_def read_int_def dest: single_last)

lemma bytesField_reads: "bytesField fs no what = Inr s \<Longrightarrow> s = to_lower (hexOf (Option.bind (last_of fs no) f_bytes))"
  by (auto simp: bytesField_def dest: single_last)

lemma bytesField_hex: "bytesField fs no what = Inr s \<Longrightarrow> s = bytesToHex (read_bytes fs no)"
  using bytesField_reads [of fs no what s] to_lower_bytesToHex
  by (cases "Option.bind (last_of fs no) f_bytes") (auto simp: read_bytes_def hexOf_def bytesToHex_def to_lower_def)

lemma td_multi:
  assumes "n = 1 \<and> 2 \<le> cp * 64 + (lo - 128) \<and> 2 \<le> cp \<or> n = 2 \<and> 2 \<le> cp * 64 + (lo - 128) \<or>
    n = 3 \<and> 16 \<le> cp * 64 + (lo - 128)" "128 \<le> lo"
  shows "\<exists>c \<in> set (td_loop (n, cp, lo, up) bs). 128 \<le> c"
  using assms
proof (induction bs arbitrary: n cp lo up)
  case (Cons b bs)
  then obtain m where m: "n = Suc m" by (cases n) auto
  show ?case
  proof (cases "uint b < lo \<or> up < uint b")
    case True
    then show ?thesis by (auto simp: m Let_def split: prod.split)
  next
    case False
    then have lo: "lo \<le> uint b" by simp
    show ?thesis
    proof (cases m)
      case 0
      then show ?thesis using m False lo Cons.prems by (auto simp: Let_def)
    next
      case (Suc k)
      have "\<exists>c \<in> set (td_loop (m, cp * 64 + (uint b - 128), 128, 191) bs). 128 \<le> c"
        by (rule Cons.IH) (use m Suc lo Cons.prems in \<open>auto simp: numeral_eq_Suc\<close>)
      then show ?thesis using m Suc False by (auto simp: Let_def)
    qed
  qed
qed auto

lemma td_start_cases:
  obtains (ascii) "td_start z = ((0, 0, 128, 191), [z])"
    | (bad) "td_start z = ((0, 0, 128, 191), [0xFFFD])"
    | (multi) n cp lo up where "td_start z = ((n, cp, lo, up), [])" "128 \<le> lo"
        "n = 1 \<and> 2 \<le> cp * 64 + (lo - 128) \<and> 2 \<le> cp \<or> n = 2 \<and> 2 \<le> cp * 64 + (lo - 128) \<or>
         n = 3 \<and> 16 \<le> cp * 64 + (lo - 128)"
proof -
  consider "z < 128" | "128 \<le> z" "z < 194" | "194 \<le> z" "z \<le> 223" | "z = 224" | "225 \<le> z" "z \<le> 239"
    | "z = 240" | "241 \<le> z" "z \<le> 244" | "245 \<le> z" by linarith
  then show thesis
  proof cases
    case 1 then show thesis by (intro ascii) (simp add: td_start_def)
  next
    case 2 then show thesis by (intro bad) (simp add: td_start_def)
  next
    case 3 then show thesis by (intro multi [of 1 "z - 192" 128 191]) (simp_all add: td_start_def)
  next
    case 4 then show thesis by (intro multi [of 2 0 160 191]) (simp_all add: td_start_def)
  next
    case 5 then show thesis
      by (intro multi [of 2 "z - 224" 128 "if z = 237 then 159 else 191"]) (simp_all add: td_start_def)
  next
    case 6 then show thesis by (intro multi [of 3 0 144 191]) (simp_all add: td_start_def)
  next
    case 7 then show thesis
      by (intro multi [of 3 "z - 240" 128 "if z = 244 then 143 else 191"]) (simp_all add: td_start_def)
  next
    case 8 then show thesis by (intro bad) (simp add: td_start_def)
  qed
qed

lemma td_ascii:
  "(\<forall>c \<in> set (td_loop (0, 0, 128, 191) bs). c < 128) \<Longrightarrow> td_loop (0, 0, 128, 191) bs = map uint bs"
proof (induction bs)
  case (Cons b bs)
  show ?case
  proof (cases "uint b" rule: td_start_cases)
    case ascii
    then show ?thesis using Cons by simp
  next
    case bad
    then show ?thesis using Cons.prems by simp
  next
    case (multi n cp lo up)
    have "\<exists>c \<in> set (td_loop (n, cp, lo, up) bs). 128 \<le> c" by (rule td_multi [OF multi(3,2)])
    then show ?thesis using Cons.prems multi(1) by force
  qed
qed simp

lemma map_uint_eq: "map uint (r :: byte list) = map f s \<Longrightarrow> r = map (\<lambda>c. word_of_int (f c)) s"
proof -
  assume "map uint r = map f s"
  have "r = map word_of_int (map uint r)" by (simp only: map_map comp_def word_of_int_uint list.map_ident)
  also have "\<dots> = map word_of_int (map f s)" by (simp only: \<open>map uint r = map f s\<close>)
  finally show ?thesis by (simp only: map_map comp_def)
qed

definition ascii :: "string \<Rightarrow> byte list" where "ascii s = map (\<lambda>c. of_nat (of_char c)) s"

definition bom :: "byte list" where "bom = [0xEF, 0xBB, 0xBF]"

lemma textDecode_ascii:
  assumes "textDecode bs = codes s" "\<forall>c \<in> set s. (of_char c :: nat) < 128"
  shows "bs = ascii s \<or> bs = bom @ ascii s"
proof -
  let ?r = "if take 3 bs = bom then drop 3 bs else bs"
  have t: "td_loop (0, 0, 128, 191) ?r = codes s" using assms(1) by (simp add: textDecode_def bom_def)
  have "(of_char c :: int) = int (of_char c)" for c by (rule of_nat_of_char [symmetric])
  then have "\<forall>c \<in> set (codes s). c < 128" using assms(2) by (auto simp: codes_def)
  then have "map uint ?r = map of_char s" using td_ascii [of ?r] t by (simp add: codes_def)
  then have "?r = map (\<lambda>c. word_of_int (of_char c)) s" by (rule map_uint_eq)
  moreover have "word_of_int (of_char c) = (of_nat (of_char c) :: byte)" for c
  proof -
    have "(of_char c :: int) = int (of_char c)" by (rule of_nat_of_char [symmetric])
    then show ?thesis by simp
  qed
  ultimately have "?r = ascii s" unfolding ascii_def by simp
  then show ?thesis by (metis append_take_drop_id)
qed

text \<open>What the user asked for, said of what the network reads.\<close>

fun asked_for :: "ExpectedTronTx \<Rightarrow> tx_reading \<Rightarrow> bool" where
  "asked_for (ExpTrx owner dest amount) r =
     (t_contracts r = 1 \<and> t_type r = 1 \<and>
      t_url r \<in> {ascii TYPE_URL_trx, bom @ ascii TYPE_URL_trx} \<and>
      bytesToHex (read_bytes (t_params r) 1) = to_lower owner \<and>
      bytesToHex (read_bytes (t_params r) 2) = to_lower dest \<and>
      read_int (t_params r) 3 = amount)"
| "asked_for (ExpTrc20 owner cont data maxFee) r =
     (t_contracts r = 1 \<and> t_type r = 31 \<and>
      t_url r \<in> {ascii TYPE_URL_trc20, bom @ ascii TYPE_URL_trc20} \<and>
      bytesToHex (read_bytes (t_params r) 1) = to_lower owner \<and>
      bytesToHex (read_bytes (t_params r) 2) = to_lower cont \<and>
      bytesToHex (read_bytes (t_params r) 4) = to_lower data \<and>
      read_int (t_params r) 3 = 0 \<and> read_int (t_params r) 5 = 0 \<and> read_int (t_params r) 6 = 0 \<and>
      t_feeLimit r \<le> maxFee)"

lemma url_ascii: "\<forall>c \<in> set TYPE_URL_trx. (of_char c :: nat) < 128" "\<forall>c \<in> set TYPE_URL_trc20. (of_char c :: nat) < 128"
  by (simp_all add: TYPE_URL_trx_def TYPE_URL_trc20_def)

lemma verify_call_asked:
  assumes "verify_call topF ty (textDecode url) params expected = Inr ()"
    and "t_contracts r = 1" "t_type r = ty" "t_url r = url" "t_params r = params"
      "t_feeLimit r = read_int topF 18"
  shows "asked_for expected r"
proof (cases expected)
  case (ExpTrx owner dest amount)
  then show ?thesis using assms textDecode_ascii [OF _ url_ascii(1), of url]
    by (auto simp: verify_call_def TRANSFER_CONTRACT_def dest!: bytesField_hex intField_reads)
next
  case (ExpTrc20 owner cont data maxFee)
  then have f: "\<exists>f. single topF 18 VARINT ''fee limit'' = Inr f \<and> coalesce (Option.bind f f_int) 0 \<le> maxFee"
    using assms(1) by (auto simp: verify_call_def)
  then have "read_int topF 18 \<le> maxFee" using single_last by (auto simp: read_int_def)
  then show ?thesis using ExpTrc20 assms textDecode_ascii [OF _ url_ascii(2), of url]
    by (auto simp: verify_call_def TRIGGER_SMART_CONTRACT_def split: if_splits dest!: bytesField_hex intField_reads)
qed

text \<open>C11. A transaction the checker accepts is the one the user asked for: the id the wallet signs is
  the hash of the bytes, and a reader of those bytes that keeps the last copy of a repeated
  field finds one contract, of the requested type, from the user's address, with the requested
  recipient and amount (or token, call data, no attached value and a fee limit within the cap).\<close>

theorem accepted_is_asked_for:
  assumes "verifyTronTransaction sha256 (Some txid) (Some hex) expected = Inr ()"
  shows "\<exists>raw r. bytesOfHex hex = Inr raw \<and> sha256 raw = to_lower txid \<and>
    network_reads raw = Inr r \<and> asked_for expected r"
proof -
  obtain raw topF where raw: "bytesOfHex hex = Inr raw" "sha256 raw = to_lower txid" "fieldsOf raw = Inr topF"
    and c: "length (only topF 11) = 1" "f_wire (hd (only topF 11)) = LENGTH_DELIMITED"
      "f_bytes (hd (only topF 11)) \<noteq> None" 
    and rest: "\<exists>contract ty a anyBytes any t v val params.
      fieldsOf (the (f_bytes (hd (only topF 11)))) = Inr contract \<and>
      intField contract 1 ''contract type'' = Inr ty \<and>
      single contract 2 LENGTH_DELIMITED ''contract parameters'' = Inr a \<and> Option.bind a f_bytes = Some anyBytes \<and>
      fieldsOf anyBytes = Inr any \<and> single any 1 LENGTH_DELIMITED ''parameter type'' = Inr t \<and>
      single any 2 LENGTH_DELIMITED ''contract parameters'' = Inr v \<and> Option.bind v f_bytes = Some val \<and>
      fieldsOf val = Inr params \<and>
      verify_call topF ty (textDecode (coalesce (Option.bind t f_bytes) [])) params expected = Inr ()"
    using assms unfolding verifyTronTransaction_def Let_def
    by (auto split: if_split_asm option.split_asm)
  from rest obtain contract ty a anyBytes any t v val params where r:
      "fieldsOf (the (f_bytes (hd (only topF 11)))) = Inr contract"
      "intField contract 1 ''contract type'' = Inr ty"
      "single contract 2 LENGTH_DELIMITED ''contract parameters'' = Inr a" "Option.bind a f_bytes = Some anyBytes"
      "fieldsOf anyBytes = Inr any" "single any 1 LENGTH_DELIMITED ''parameter type'' = Inr t"
      "single any 2 LENGTH_DELIMITED ''contract parameters'' = Inr v" "Option.bind v f_bytes = Some val"
      "fieldsOf val = Inr params"
      "verify_call topF ty (textDecode (coalesce (Option.bind t f_bytes) [])) params expected = Inr ()"
    by blast
  obtain f where f: "only topF 11 = [f]" using c(1) by (cases "only topF 11") auto
  let ?r = "\<lparr>t_contracts = 1, t_type = ty, t_url = coalesce (Option.bind t f_bytes) [], t_params = params,
     t_feeLimit = read_int topF 18\<rparr>"
  have "read_bytes topF 11 = the (f_bytes f)" "read_bytes contract 2 = anyBytes" "read_bytes any 2 = val"
      "read_bytes any 1 = coalesce (Option.bind t f_bytes) []" "read_int contract 1 = ty"
    using f c r single_last [OF r(3)] single_last [OF r(6)] single_last [OF r(7)] intField_reads
    by (auto simp: read_bytes_def last_of_def)
  then have "network_reads raw = Inr ?r" using raw r f by (simp add: network_reads_def)
  moreover have "asked_for expected ?r" by (rule verify_call_asked [OF r(10)]) simp_all
  ultimately show ?thesis using raw by blast
qed

subsection \<open>Transactions as a node builds them\<close>

text \<open>The writer of the protobuf documentation: base 128 digits, least significant first.\<close>

fun enc_varint :: "nat \<Rightarrow> byte list" where
  "enc_varint n = (if n < 128 then [of_nat n] else of_nat (n mod 128 + 128) # enc_varint (n div 128))"
declare enc_varint.simps [simp del]

lemma byte_low: "uint ((b :: byte) AND 0x7f) = uint b mod 128"
proof -
  have "uint (b AND 0x7f) = uint b AND 127" by (simp add: uint_and)
  also have "\<dots> = take_bit 7 (uint b)" by (simp add: take_bit_eq_mask mask_eq_exp_minus_1)
  finally show ?thesis by (simp add: take_bit_eq_mod)
qed

lemma byte_high: "(b :: byte) AND 0x80 = 0 \<longleftrightarrow> uint b < 128"
proof -
  have "b AND 2 ^ 7 = 0 \<longleftrightarrow> \<not> bit b 7" by (rule and_exp_eq_0_iff_not_bit)
  also have "\<dots> \<longleftrightarrow> \<not> bit (uint b) 7" by (simp add: bit_uint_iff)
  also have "\<dots> \<longleftrightarrow> even (uint b div 2 ^ 7)" by (simp only: bit_iff_odd) simp
  also have "\<dots> \<longleftrightarrow> uint b < 128"
  proof -
    have "0 \<le> uint b" "uint b < 256" using uint_ge_0 [of b] uint_lt2p [of b] by simp_all
    then have "uint b div 128 = 0 \<and> uint b < 128 \<or> uint b div 128 = 1 \<and> \<not> uint b < 128" by auto
    then show ?thesis by auto
  qed
  finally show ?thesis by simp
qed

lemma drop_Cons_nth: "drop pos buf = b # r \<Longrightarrow> pos < length buf \<and> buf ! pos = b \<and> drop (Suc pos) buf = r"
  by (metis drop_eq_Nil2 linorder_not_le list.distinct(1) nth_via_drop drop_Suc tl_drop list.sel(3))

lemma varint_loop_enc:
  assumes "drop pos buf = enc_varint n @ rest" "7 dvd sh" "sh \<le> 63" "n < 2 ^ (70 - sh)" "0 \<le> res" "res < 2 ^ sh"
  shows "varint_loop buf res sh pos = Inr (res + int n * 2 ^ sh, pos + length (enc_varint n))"
  using assms
proof (induction n arbitrary: pos sh res rule: enc_varint.induct)
  case (1 n)
  have join: "res OR push_bit sh x = res + x * 2 ^ sh" for x
    using push_or [OF "1.prems"(5,6), of x] by (simp add: or.commute add.commute)
  show ?case
  proof (cases "n < 128")
    case True
    then have e: "enc_varint n = [of_nat n]" by (simp add: enc_varint.simps)
    then have b: "pos < length buf" "buf ! pos = of_nat n"
      using drop_Cons_nth [of pos buf] "1.prems"(1) by auto
    have u: "uint (of_nat n :: byte) = int n" using True by (simp add: uint_nat unat_of_nat)
    show ?thesis
      using b "1.prems"(3) True u by (subst varint_loop.simps) (simp add: Let_def byte_low byte_high join e)
  next
    case False
    let ?b = "of_nat (n mod 128 + 128) :: byte"
    have e: "enc_varint n = ?b # enc_varint (n div 128)" using False by (subst enc_varint.simps) simp
    then have b: "pos < length buf" "buf ! pos = ?b" "drop (Suc pos) buf = enc_varint (n div 128) @ rest"
      using drop_Cons_nth [of pos buf] "1.prems"(1) by auto
    have "n mod 128 < 128" by simp
    then have "unat ?b = n mod 128 + 128" by (subst unat_of_nat) simp
    then have u: "uint ?b = int (n mod 128) + 128" by (simp add: uint_nat)
    have low: "uint (?b AND 0x7f) = int (n mod 128)" using u by (simp add: byte_low)
    have high: "?b AND 0x80 \<noteq> 0" using u by (simp add: byte_high)
    have "2 ^ 7 < (2 :: nat) ^ (70 - sh)" using False "1.prems"(4) by simp
    then have "7 < 70 - sh" using power_less_imp_less_exp [of 2 7] by simp
    then have sh: "sh + 7 \<le> 63" "70 - sh = 7 + (70 - (sh + 7))" using "1.prems"(2) by (auto elim!: dvdE)
    have n': "n div 128 < 2 ^ (70 - (sh + 7))"
      using "1.prems"(4) unfolding sh(2) power_add by (simp add: less_mult_imp_div_less mult.commute)
    have "res + int (n mod 128) * 2 ^ sh < 2 ^ (sh + 7)"
    proof -
      have "int (n mod 128) * 2 ^ sh \<le> 127 * 2 ^ sh" by (intro mult_right_mono) auto
      moreover have "(2 :: int) ^ (sh + 7) = 128 * 2 ^ sh" by (simp add: power_add)
      ultimately show ?thesis using "1.prems"(6) by linarith
    qed
    then have "varint_loop buf (res + int (n mod 128) * 2 ^ sh) (sh + 7) (Suc pos) =
        Inr (res + int (n mod 128) * 2 ^ sh + int (n div 128) * 2 ^ (sh + 7), Suc pos + length (enc_varint (n div 128)))"
      using False b(3) sh(1) n' "1.prems"(2,5) by (intro "1.IH") auto
    moreover have "res + int (n mod 128) * 2 ^ sh + int (n div 128) * 2 ^ (sh + 7) = res + int n * 2 ^ sh"
    proof -
      have "int n = int (n mod 128) + int (n div 128) * 128" by (simp add: zmod_int zdiv_int)
      then show ?thesis by (simp add: power_add distrib_right)
    qed
    ultimately show ?thesis using b "1.prems"(3) low high
      by (subst varint_loop.simps) (simp add: Let_def join e)
  qed
qed

lemma readVarint_enc:
  "drop pos buf = enc_varint n @ rest \<Longrightarrow> n < 2 ^ 70 \<Longrightarrow>
   readVarint buf pos = Inr (int n, pos + length (enc_varint n))"
  unfolding readVarint_def by (subst varint_loop_enc) auto

interpretation varint: prefix_codec enc_varint
    "\<lambda>bs. case readVarint bs 0 of Inl e \<Rightarrow> None | Inr (v, p) \<Rightarrow> Some (nat v, drop p bs)"
    "\<lambda>n. n < 2 ^ 70"
  by unfold_locales (simp add: readVarint_enc [of 0])

datatype pb_field = FInt nat nat | FBytes nat "byte list"

fun enc_field :: "pb_field \<Rightarrow> byte list" where
  "enc_field (FInt no v) = enc_varint (no * 8) @ enc_varint v"
| "enc_field (FBytes no b) = enc_varint (no * 8 + 2) @ enc_varint (length b) @ b"

fun field_of :: "pb_field \<Rightarrow> Field" where
  "field_of (FInt no v) = \<lparr>f_no = int no, f_wire = 0, f_int = Some (int v), f_bytes = None\<rparr>"
| "field_of (FBytes no b) = \<lparr>f_no = int no, f_wire = 2, f_int = None, f_bytes = Some b\<rparr>"

fun field_ok :: "pb_field \<Rightarrow> bool" where
  "field_ok (FInt no v) = (no < 2 ^ 29 \<and> v < 2 ^ 64)"
| "field_ok (FBytes no b) = (no < 2 ^ 29 \<and> length b < 2 ^ 53)"

definition message :: "pb_field list \<Rightarrow> byte list" where
  "message fs = concat (map enc_field fs)"

lemma enc_varint_not_Nil [simp]: "enc_varint n \<noteq> []"
  by (subst enc_varint.simps) simp

lemma key_split: "t < 8 \<Longrightarrow> drop_bit 3 (int (no * 8 + t)) = int no \<and> int (no * 8 + t) AND 7 = int t"
proof -
  assume t: "t < 8"
  have "int (no * 8 + t) AND 7 = int (no * 8 + t) mod 8"
    using take_bit_eq_mask [of 3 "int (no * 8 + t)"] by (simp add: mask_eq_exp_minus_1 take_bit_eq_mod)
  then show ?thesis using t by (simp add: drop_bit_eq_div)
qed

lemma drop_rest: "drop p buf = a @ b \<Longrightarrow> drop (p + length a) buf = b"
  by (metis add.commute append_eq_conv_conj drop_drop)

lemma fields_loop_int:
  assumes "pos < length buf" "readVarint buf pos = Inr (k, p1)" "drop_bit 3 k = no" "k AND 7 = 0"
    and "js_number no = no" "readVarint buf p1 = Inr (v, p2)"
  shows "fields_loop buf out pos =
     fields_loop buf (out @ [\<lparr>f_no = no, f_wire = 0, f_int = Some v, f_bytes = None\<rparr>]) p2"
  using assms(1) by (subst fields_loop.simps) (simp add: assms(2-) Let_def js_number_def [of 0])

lemma fields_loop_bytes:
  assumes "pos < length buf" "readVarint buf pos = Inr (k, p1)" "drop_bit 3 k = no" "k AND 7 = 2"
    and "js_number no = no" "readVarint buf p1 = Inr (l, p2)" "js_number l = l" "p2 + nat l \<le> length buf"
  shows "fields_loop buf out pos =
     fields_loop buf (out @ [\<lparr>f_no = no, f_wire = 2, f_int = None,
       f_bytes = Some (js_slice p2 (p2 + nat l) buf)\<rparr>]) (p2 + nat l)"
  using assms(1,8) by (subst fields_loop.simps) (simp add: assms(2-7) Let_def js_number_def [of 2])

lemma fields_loop_message:
  assumes "drop pos buf = message fs" "pos \<le> length buf" "list_all field_ok fs"
  shows "fields_loop buf out pos = Inr (out @ map field_of fs)"
  using assms
proof (induction fs arbitrary: pos out)
  case Nil
  then show ?case by (subst fields_loop.simps) (simp add: message_def)
next
  case (Cons f fs)
  show ?case
  proof (cases f)
    case (FInt no v)
    let ?k = "length (enc_varint (no * 8))" and ?l = "length (enc_varint v)"
    have d: "drop pos buf = enc_varint (no * 8) @ enc_varint v @ message fs"
      using Cons.prems(1) FInt by (simp add: message_def)
    then have d2: "drop (pos + ?k) buf = enc_varint v @ message fs"
      by (rule drop_rest)
    then have d3: "drop (pos + ?k + ?l) buf = message fs" by (rule drop_rest)
    have pos: "pos < length buf" using d enc_varint_not_Nil [of "no * 8"] by (cases "pos < length buf") auto
    have len: "pos + ?k + ?l \<le> length buf"
      using arg_cong [OF d, of length] pos by simp
    have r1: "readVarint buf pos = Inr (int (no * 8), pos + ?k)"
      by (rule readVarint_enc [OF d]) (use Cons.prems(3) FInt in simp)
    have r2: "readVarint buf (pos + ?k) = Inr (int v, pos + ?k + ?l)"
      by (rule readVarint_enc [OF d2]) (use Cons.prems(3) FInt in simp)
    have n: "js_number (int no) = int no" using Cons.prems(3) FInt by (simp add: js_number_def)
    have k: "drop_bit 3 (int (no * 8)) = int no" "int (no * 8) AND 7 = 0" using key_split [of 0 no] by simp_all
    have fs: "list_all field_ok fs" using Cons.prems(3) by simp
    show ?thesis
      unfolding fields_loop_int [OF pos r1 k n r2] Cons.IH [OF d3 len fs] by (simp add: FInt)
  next
    case (FBytes no b)
    let ?k = "length (enc_varint (no * 8 + 2))" and ?l = "length (enc_varint (length b))"
    have d: "drop pos buf = enc_varint (no * 8 + 2) @ enc_varint (length b) @ b @ message fs"
      using Cons.prems(1) FBytes by (simp add: message_def)
    then have d2: "drop (pos + ?k) buf = enc_varint (length b) @ b @ message fs"
      by (rule drop_rest)
    then have d3: "drop (pos + ?k + ?l) buf = b @ message fs" by (rule drop_rest)
    then have d4: "drop (pos + ?k + ?l + length b) buf = message fs" by (rule drop_rest)
    have pos: "pos < length buf" using d enc_varint_not_Nil [of "no * 8 + 2"] by (cases "pos < length buf") auto
    have len: "pos + ?k + ?l + length b \<le> length buf"
      using arg_cong [OF d, of length] pos by simp
    have sl: "js_slice (pos + ?k + ?l) (pos + ?k + ?l + length b) buf = b"
      using d3 by (simp add: js_slice_def drop_take)
    have r1: "readVarint buf pos = Inr (int (no * 8 + 2), pos + ?k)"
      by (rule readVarint_enc [OF d]) (use Cons.prems(3) FBytes in simp)
    have r2: "readVarint buf (pos + ?k) = Inr (int (length b), pos + ?k + ?l)"
      by (rule readVarint_enc [OF d2]) (use Cons.prems(3) FBytes in simp)
    have n: "js_number (int no) = int no" "js_number (int (length b)) = int (length b)"
      using Cons.prems(3) FBytes by (simp_all add: js_number_def)
    have k: "drop_bit 3 (int (no * 8 + 2)) = int no" "int (no * 8 + 2) AND 7 = 2"
      using key_split [of 2 no] by simp_all
    have fs: "list_all field_ok fs" using Cons.prems(3) by simp
    have l: "pos + ?k + ?l + nat (int (length b)) \<le> length buf" using len by simp
    show ?thesis
      using Cons.IH [OF d4 len fs] sl
      unfolding fields_loop_bytes [OF pos r1 k n(1) r2 n(2) l] by (simp add: FBytes)
  qed
qed

lemma fieldsOf_message: "list_all field_ok fs \<Longrightarrow> fieldsOf (message fs) = Inr (map field_of fs)"
  unfolding fieldsOf_def by (subst fields_loop_message [of 0 _ fs]) simp_all

lemma textDecode_codes: "\<forall>c \<in> set s. (of_char c :: nat) < 128 \<Longrightarrow> textDecode (ascii s) = codes s"
proof -
  assume a: "\<forall>c \<in> set s. (of_char c :: nat) < 128"
  have u: "uint (of_nat (of_char c) :: byte) = of_char c" for c
    using nat_of_char_less_256 [of c] by (simp add: uint_nat unat_of_nat flip: of_nat_of_char [where 'a = int])
  have l: "td_loop (0, 0, 128, 191) (ascii s) = codes s"
    using a
  proof (induction s)
    case (Cons c s)
    have "(of_char c :: int) < 128"
      using Cons.prems of_nat_of_char [of c, where 'a = int] by (metis list.set_intros(1) of_nat_less_iff of_nat_numeral)
    then show ?case using Cons by (simp add: ascii_def codes_def u td_start_def)
  qed (simp add: ascii_def codes_def)
  have "take 3 (ascii s) \<noteq> [0xEF, 0xBB, 0xBF]"
  proof
    assume b: "take 3 (ascii s) = [0xEF, 0xBB, 0xBF]"
    then obtain c s' where s: "s = c # s'" by (cases s) (auto simp: ascii_def)
    then have "(of_nat (of_char c) :: byte) = 0xEF" using b by (simp add: ascii_def)
    then have "(of_char c :: int) = uint (0xEF :: byte)" using u [of c] by simp
    then have "(of_char c :: int) = 239" by simp
    then show False
      using a s of_nat_of_char [of c, where 'a = int] by force
  qed
  then show ?thesis using l by (simp add: textDecode_def)
qed

text \<open>A transfer as the node serialises it: block reference, expiration, the contract, timestamp.\<close>

definition honest_transfer ::
    "byte list \<Rightarrow> byte list \<Rightarrow> nat \<Rightarrow> nat \<Rightarrow> byte list \<Rightarrow> byte list \<Rightarrow> nat \<Rightarrow> byte list" where
  "honest_transfer blockRef blockHash expiration timestamp owner dest amount =
     message [FBytes 1 blockRef, FBytes 4 blockHash, FInt 8 expiration,
       FBytes 11 (message [FInt 1 1, FBytes 2 (message [FBytes 1 (ascii TYPE_URL_trx),
         FBytes 2 (message [FBytes 1 owner, FBytes 2 dest, FInt 3 amount])])]),
       FInt 14 timestamp]"

lemma message_bytes_le: "FBytes no b \<in> set fs \<Longrightarrow> length b \<le> length (message fs)"
  by (induction fs) (auto simp: message_def)

lemma bytesOfHex_toHex: "bytesOfHex (bytesToHex b) = Inr b"
proof -
  have e: "(if starts_with (bytesToHex b) ''0x'' then drop 2 (bytesToHex b) else bytesToHex b) = bytesToHex b"
    using not_0x [of b] by simp
  have "\<not> list_ex (\<lambda>c. hex_val c = None) (bytesToHex b)"
    by (induction b) (auto simp: bytesToHex_def hex_val_digit)
  then show ?thesis by (simp add: bytesOfHex_def Let_def e length_bytesToHex hex_pairs_toHex)
qed

lemma honest_accepted:
  assumes "raw = honest_transfer blockRef blockHash expiration timestamp owner dest amount"
    and "sha256 raw = to_lower txid" "length raw < 2 ^ 53"
    and "amount < 2 ^ 64" "expiration < 2 ^ 64" "timestamp < 2 ^ 64"
  shows "verifyTronTransaction sha256 (Some txid) (Some (bytesToHex raw))
    (ExpTrx (bytesToHex owner) (bytesToHex dest) (int amount)) = Inr ()"
proof -
  let ?params = "[FBytes 1 owner, FBytes 2 dest, FInt 3 amount]"
  let ?any = "[FBytes 1 (ascii TYPE_URL_trx), FBytes 2 (message ?params)]"
  let ?con = "[FInt 1 1, FBytes 2 (message ?any)]"
  let ?top = "[FBytes 1 blockRef, FBytes 4 blockHash, FInt 8 expiration, FBytes 11 (message ?con),
      FInt 14 timestamp]"
  have raw: "raw = message ?top" using assms(1) by (simp add: honest_transfer_def)
  have l: "length blockRef < 2 ^ 53" "length blockHash < 2 ^ 53" "length (message ?con) < 2 ^ 53"
    using message_bytes_le [of 1 blockRef ?top] message_bytes_le [of 4 blockHash ?top]
      message_bytes_le [of 11 "message ?con" ?top] assms(3) by (simp_all add: raw)
  have l2: "length (message ?any) < 2 ^ 53" using message_bytes_le [of 2 "message ?any" ?con] l by simp
  have l3: "length (message ?params) < 2 ^ 53" "length (ascii TYPE_URL_trx) < 2 ^ 53"
    using message_bytes_le [of 2 "message ?params" ?any] message_bytes_le [of 1 "ascii TYPE_URL_trx" ?any] l2 by simp_all
  have l4: "length owner < 2 ^ 53" "length dest < 2 ^ 53"
    using message_bytes_le [of 1 owner ?params] message_bytes_le [of 2 dest ?params] l3 by simp_all
  have f: "fieldsOf raw = Inr (map field_of ?top)" "fieldsOf (message ?con) = Inr (map field_of ?con)"
    "fieldsOf (message ?any) = Inr (map field_of ?any)" "fieldsOf (message ?params) = Inr (map field_of ?params)"
    unfolding raw by (rule fieldsOf_message; use assms l l2 l3 l4 in simp)+
  have td: "textDecode (ascii TYPE_URL_trx) = codes TYPE_URL_trx" by (rule textDecode_codes [OF url_ascii(1)])
  have call: "verify_call (map field_of ?top) 1 (codes TYPE_URL_trx) (map field_of ?params)
      (ExpTrx (bytesToHex owner) (bytesToHex dest) (int amount)) = Inr ()"
    by (simp add: verify_call_def TRANSFER_CONTRACT_def bytesField_def intField_def single_def only_def
        LENGTH_DELIMITED_def VARINT_def hexOf_def)
  show ?thesis
    unfolding verifyTronTransaction_def
    by (simp add: bytesOfHex_toHex assms(2) f [simplified] td call [simplified] assertNoRepeats_def
        RAW_REPEATED_def only_def LENGTH_DELIMITED_def VARINT_def intField_def single_def)
qed
text \<open>C39. The check refuses no honest transfer: whatever the block reference, expiration and
  timestamp, the transfer a node serialises for the user's addresses and amount is accepted.\<close>

theorem honest_transfer_accepted:
  assumes "raw = honest_transfer blockRef blockHash expiration timestamp owner dest amount"
    and "sha256 raw = to_lower txid" "length raw < 2 ^ 53"
    and "amount < 2 ^ 64" "expiration < 2 ^ 64" "timestamp < 2 ^ 64"
  shows "verifyTronTransaction sha256 (Some txid) (Some (bytesToHex raw))
    (ExpTrx (bytesToHex owner) (bytesToHex dest) (int amount)) = Inr ()"
  using assms by (rule honest_accepted)

definition demo_transfer :: "byte list" where
  "demo_transfer = honest_transfer [1, 2] [3] 200 100 [65, 7] [65, 9] 1000000"

lemma demo_transfer_length: "length demo_transfer < 2 ^ 53"
proof -
  have "length demo_transfer < 1000"
    by (simp add: demo_transfer_def honest_transfer_def message_def enc_varint.simps TYPE_URL_trx_def ascii_def)
  then show ?thesis by simp
qed

lemma demo_id: "''ab'' = to_lower ''ab''"
  by (simp add: to_lower_def lower_char_def)

theorem honest_transfer_accepted_witness:
  "verifyTronTransaction (\<lambda>_. ''ab'') (Some ''ab'') (Some (bytesToHex demo_transfer))
     (ExpTrx (bytesToHex [65, 7]) (bytesToHex [65, 9]) (int 1000000)) = Inr ()"
  by (rule honest_transfer_accepted [OF demo_transfer_def demo_id demo_transfer_length]) simp_all

theorem accepted_is_asked_for_witness:
  "\<exists>raw r. bytesOfHex (bytesToHex demo_transfer) = Inr raw \<and> ''ab'' = to_lower ''ab'' \<and>
    network_reads raw = Inr r \<and> asked_for (ExpTrx (bytesToHex [65, 7]) (bytesToHex [65, 9]) (int 1000000)) r"
  by (rule accepted_is_asked_for [of "\<lambda>_. ''ab''", OF honest_accepted [OF demo_transfer_def demo_id demo_transfer_length]])
    simp_all
end
