(* ===== verification/Json.thy ===== *)
theory Json
  imports Complex_Main Prelude
begin

section \<open>JSON values, numbers and the browser's storage\<close>

text \<open>
  What the stores read back is untyped: a JSON value. \<open>JSON.parse\<close> and \<open>JSON.stringify\<close> are
  taken as inverse to each other, so a stored text is represented by the value it parses to.
  A finite JavaScript number is a rational; rounding of binary fractions is not modelled.
\<close>

datatype json =
    JNull
  | JBool bool
  | JNum rat
  | JStr string
  | JArr "json list"
  | JObj "(string \<times> json) list"

text \<open>\<open>v.k\<close> of a parsed value: \<open>undefined\<close> (None) where there is no such property.\<close>

fun jget :: "json \<Rightarrow> string \<Rightarrow> json option" where
  "jget (JObj ps) k = map_of ps k"
| "jget _ k = None"

fun jstr :: "json option \<Rightarrow> string option" where
  "jstr (Some (JStr s)) = Some s"
| "jstr _ = None"

fun jnum :: "json option \<Rightarrow> rat option" where
  "jnum (Some (JNum r)) = Some r"
| "jnum _ = None"

fun jbool :: "json option \<Rightarrow> bool option" where
  "jbool (Some (JBool b)) = Some b"
| "jbool _ = None"

fun jarr :: "json \<Rightarrow> json list option" where
  "jarr (JArr xs) = Some xs"
| "jarr _ = None"

text \<open>\<open>v?.k\<close> of a value that may be missing.\<close>

definition jprop :: "json option \<Rightarrow> string \<Rightarrow> json option" where
  "jprop v k = Option.bind v (\<lambda>x. jget x k)"

lemma jprop_simps [simp]: "jprop None k = None" "jprop (Some v) k = jget v k"
  by (simp_all add: jprop_def)

text \<open>
  \<open>String(v)\<close>. How a number prints is an argument: the shortest decimal of a binary fraction is
  not modelled.
\<close>

fun commas :: "string list \<Rightarrow> string" where
  "commas [] = []"
| "commas [x] = x"
| "commas (x # xs) = x @ '','' @ commas xs"

fun js_String :: "(rat \<Rightarrow> string) \<Rightarrow> json \<Rightarrow> string" where
  "js_String numText JNull = ''null''"
| "js_String numText (JBool b) = (if b then ''true'' else ''false'')"
| "js_String numText (JNum r) = numText r"
| "js_String numText (JStr s) = s"
| "js_String numText (JArr vs) = commas (map (\<lambda>v. if v = JNull then [] else js_String numText v) vs)"
| "js_String numText (JObj _) = ''[object Object]''"

fun jtruthy :: "json \<Rightarrow> bool" where
  "jtruthy JNull = False"
| "jtruthy (JBool b) = b"
| "jtruthy (JNum r) = (r \<noteq> 0)"
| "jtruthy (JStr s) = (s \<noteq> [])"
| "jtruthy _ = True"

fun jobject :: "json \<Rightarrow> bool" where
  "jobject (JArr _) = True"
| "jobject (JObj _) = True"
| "jobject _ = False"

text \<open>One key of \<open>localStorage\<close>: absent, holding a text that does not parse, or a value.\<close>

datatype stored = NoItem | Unparsable | Parsed json

text \<open>
  \<open>Number(s)\<close> on a string, when the result is finite: white space around it is dropped, the empty
  string is 0, and the rest is a signed decimal literal with an optional exponent, or an unsigned
  hexadecimal, octal or binary integer. None stands for \<open>NaN\<close> and the infinities.
\<close>

definition unsigned_decimal :: "string \<Rightarrow> (rat \<times> string) option" where
  "unsigned_decimal s =
     (let w = takeWhile is_digit s; r = dropWhile is_digit s;
          (f, r) = (if r \<noteq> [] \<and> hd r = CHR ''.'' then (takeWhile is_digit (tl r), dropWhile is_digit (tl r)) else ([], r))
      in if w = [] \<and> f = [] then None
         else Some (of_nat (str_nat w) + of_nat (str_nat f) / 10 ^ length f, r))"

definition exponent_part :: "string \<Rightarrow> int option" where
  "exponent_part r =
     (if r = [] then Some 0
      else if hd r \<noteq> CHR ''e'' \<and> hd r \<noteq> CHR ''E'' then None
      else let d = tl r;
               (neg, d) = (if d \<noteq> [] \<and> hd d = CHR ''-'' then (True, tl d)
                           else if d \<noteq> [] \<and> hd d = CHR ''+'' then (False, tl d) else (False, d))
           in if d = [] \<or> \<not> list_all is_digit d then None
              else Some (if neg then - int (str_nat d) else int (str_nat d)))"

definition with_exponent :: "rat \<Rightarrow> int \<Rightarrow> rat" where
  "with_exponent v e = (if 0 \<le> e then v * 10 ^ nat e else v / 10 ^ nat (- e))"

definition radix_digit :: "char \<Rightarrow> nat option" where
  "radix_digit c = (let n = of_char (lower_char c) :: nat
     in if is_digit c then Some (digit_val c) else if 97 \<le> n \<and> n \<le> 102 then Some (n - 87) else None)"

definition radix_number :: "nat \<Rightarrow> string \<Rightarrow> rat option" where
  "radix_number b ds =
     (if ds \<noteq> [] \<and> list_all (\<lambda>c. case radix_digit c of Some d \<Rightarrow> d < b | None \<Rightarrow> False) ds
      then Some (of_nat (foldl (\<lambda>v c. v * b + the (radix_digit c)) 0 ds)) else None)"

definition js_number :: "string \<Rightarrow> rat option" where
  "js_number s =
     (let t = js_trim s; p = to_lower (take 2 t)
      in if t = [] then Some 0
         else if p = ''0x'' then radix_number 16 (drop 2 t)
         else if p = ''0o'' then radix_number 8 (drop 2 t)
         else if p = ''0b'' then radix_number 2 (drop 2 t)
         else let (neg, u) = (if hd t = CHR ''-'' then (True, tl t)
                              else if hd t = CHR ''+'' then (False, tl t) else (False, t))
              in case unsigned_decimal u of
                   None \<Rightarrow> None
                 | Some (v, r) \<Rightarrow> map_option (\<lambda>e. with_exponent (if neg then - v else v) e) (exponent_part r))"

text \<open>\<open>BigInt(s)\<close> of a text; None where it throws.\<close>

definition js_BigInt_text :: "string \<Rightarrow> int option" where
  "js_BigInt_text s =
     (let t = js_trim s; p = to_lower (take 2 t);
          radix = (\<lambda>b. map_option (\<lambda>r. \<lfloor>r\<rfloor>) (radix_number b (drop 2 t)))
      in if t = [] then Some 0
         else if p = ''0x'' then radix 16
         else if p = ''0o'' then radix 8
         else if p = ''0b'' then radix 2
         else let (neg, u) = (if hd t = CHR ''-'' then (True, tl t)
                              else if hd t = CHR ''+'' then (False, tl t) else (False, t))
              in if u = [] \<or> \<not> list_all is_digit u then None
                 else Some (if neg then - int (str_nat u) else int (str_nat u)))"

text \<open>\<open>/^-?\d+(\.\d+)?$/.test(b.trim()) ? Number(b) : null\<close>\<close>

definition is_plain_decimal :: "string \<Rightarrow> bool" where
  "is_plain_decimal t =
     (let u = (if t \<noteq> [] \<and> hd t = CHR ''-'' then tl t else t);
          w = takeWhile is_digit u; r = dropWhile is_digit u
      in w \<noteq> [] \<and> (r = [] \<or> hd r = CHR ''.'' \<and> tl r \<noteq> [] \<and> list_all is_digit (tl r)))"

definition plain_decimal :: "string \<Rightarrow> rat option" where
  "plain_decimal b = (if is_plain_decimal (js_trim b) then js_number b else None)"

text \<open>\<open>r.toFixed(d)\<close>: to the nearest multiple of \<open>10\<^sup>-\<^sup>d\<close>, halves away from zero, with a minus sign for
  negative numbers.\<close>

definition to_fixed :: "nat \<Rightarrow> rat \<Rightarrow> string" where
  "to_fixed d r =
     (let n = nat \<lfloor>\<bar>r\<bar> * 10 ^ d + 1 / 2\<rfloor>; q = nat_str (n div 10 ^ d)
      in (if r < 0 then ''-'' else []) @
         (if d = 0 then q else q @ ''.'' @ pad_start d (CHR ''0'') (nat_str (n mod 10 ^ d))))"

text \<open>\<open>Math.round\<close>: to the nearest integer, halves upward.\<close>

definition math_round :: "rat \<Rightarrow> int" where "math_round r = \<lfloor>r + 1 / 2\<rfloor>"

lemma math_round_of_int [simp]: "math_round (of_int n) = n"
  unfolding math_round_def by (simp add: floor_eq_iff)

end
