(* ===== verification/SwapTaking.thy ===== *)
theory SwapTaking
  imports Json
begin

section \<open>Taking an offer: spread.ts, offerCooldown.ts and autoRetry.ts\<close>

text \<open>
  Three modules of \<open>features/swap-sidecar\<close> decide whether the wallet may bid on an offer: the
  price gate (\<open>computeSpread\<close>, \<open>evaluateSpreadGate\<close>), the list of makers that went quiet
  (\<open>withCooldown\<close>, \<open>isCooledDown\<close>, \<open>applyCooldown\<close>) and the decision to bid again without
  asking (\<open>shouldAutoRetry\<close>). A usable number is \<open>Some\<close>; \<open>null\<close>, \<open>undefined\<close>, \<open>NaN\<close> and the
  infinities are None. The ellipsis of the labels is written \<open>CHR 0x85\<close>.
\<close>

subsection \<open>The price gate\<close>

datatype SpreadBand = Green | Amber | Red

datatype SpreadReason =
    WithinTolerance | BetterThanMarket | WorseThanMarket | FarWorseThanMarket
  | FeedUnavailable | RateUnusable

record SpreadThresholds =
  greenMaxPct :: rat
  amberMaxPct :: rat

definition SPREAD_GREEN_MAX_PCT :: rat where "SPREAD_GREEN_MAX_PCT = 1"
definition SPREAD_AMBER_MAX_PCT :: rat where "SPREAD_AMBER_MAX_PCT = 5"

definition SPREAD_THRESHOLDS :: SpreadThresholds where
  "SPREAD_THRESHOLDS = \<lparr>greenMaxPct = SPREAD_GREEN_MAX_PCT, amberMaxPct = SPREAD_AMBER_MAX_PCT\<rparr>"

definition SPREAD_OVERRIDE_PHRASE :: string where
  "SPREAD_OVERRIDE_PHRASE = ''I ACCEPT THIS RATE''"

record SpreadAssessment =
  band :: SpreadBand
  verified :: bool
  spreadPct :: "rat option"
  offerRate :: "rat option"
  marketRate :: "rat option"
  sa_reason :: SpreadReason
  blocked :: bool
  sentence :: string

definition isUsableRate :: "rat option \<Rightarrow> bool" where
  "isUsableRate v = (case v of None \<Rightarrow> False | Some r \<Rightarrow> 0 < r)"

definition marketRateFromUsd :: "rat option \<Rightarrow> rat option \<Rightarrow> rat option" where
  "marketRateFromUsd sendUsd receiveUsd =
     (if \<not> isUsableRate sendUsd \<or> \<not> isUsableRate receiveUsd then None
      else Some (the receiveUsd / the sendUsd))"

definition marketRateFromPrices ::
    "string option \<Rightarrow> string option \<Rightarrow> (string \<times> rat) list option \<Rightarrow> rat option" where
  "marketRateFromPrices sendTicker receiveTicker prices =
     (if prices = None \<or> \<not> truthy sendTicker \<or> \<not> truthy receiveTicker then None
      else marketRateFromUsd (map_of (the prices) (to_upper (the sendTicker)))
             (map_of (the prices) (to_upper (the receiveTicker))))"

definition roundPct :: "rat \<Rightarrow> rat" where
  "roundPct pct = of_int (math_round (pct * 10)) / 10"

text \<open>\<open>toFixed(1)\<close> of a non-negative multiple of a tenth.\<close>

definition toFixed1 :: "rat \<Rightarrow> string" where
  "toFixed1 r = (let n = nat \<lfloor>r * 10\<rfloor> in nat_str (n div 10) @ ''.'' @ nat_str (n mod 10))"

definition formatSpreadSentence :: "SpreadAssessment \<Rightarrow> string" where
  "formatSpreadSentence a =
     (if sa_reason a = FeedUnavailable
      then ''The market price is unavailable, so this rate cannot be checked.''
      else if sa_reason a = RateUnusable
      then ''This offer's rate could not be read, so it cannot be checked.''
      else case spreadPct a of
        None \<Rightarrow> ''The market price is unavailable, so this rate cannot be checked.''
      | Some pct \<Rightarrow>
          let rounded = roundPct pct
          in if rounded = 0 then ''This swap matches the market rate.''
             else let magnitude = toFixed1 \<bar>rounded\<bar>
                  in if 0 < rounded then ''This swap is '' @ magnitude @ ''% worse than market.''
                     else ''This swap is '' @ magnitude @ ''% better than market.'')"

definition unverified :: "SpreadReason \<Rightarrow> rat option \<Rightarrow> rat option \<Rightarrow> SpreadAssessment" where
  "unverified rsn orate mrate =
     (let a = \<lparr>band = Red, verified = False, spreadPct = None, offerRate = orate, marketRate = mrate,
               sa_reason = rsn, blocked = True, sentence = []\<rparr>
      in a\<lparr>sentence := formatSpreadSentence a\<rparr>)"

definition computeSpread :: "rat option \<Rightarrow> rat option \<Rightarrow> SpreadThresholds \<Rightarrow> SpreadAssessment" where
  "computeSpread orate mrate thresholds =
     (if \<not> isUsableRate orate then unverified RateUnusable None mrate
      else if \<not> isUsableRate mrate then unverified FeedUnavailable orate None
      else
        let offer = the orate; market = the mrate;
            pct = ((offer - market) / market) * 100;
            rounded = roundPct pct;
            b = (if pct \<le> greenMaxPct thresholds then Green
                 else if pct \<le> amberMaxPct thresholds then Amber else Red);
            rsn = (if b = Red then FarWorseThanMarket else if 0 < rounded then WorseThanMarket
                   else if rounded < 0 then BetterThanMarket else WithinTolerance);
            a = \<lparr>band = b, verified = True, spreadPct = Some pct, offerRate = Some offer,
                 marketRate = Some market, sa_reason = rsn, blocked = (b = Red), sentence = []\<rparr>
        in a\<lparr>sentence := formatSpreadSentence a\<rparr>)"

definition formatBandNote :: "SpreadAssessment \<Rightarrow> string" where
  "formatBandNote a =
     (if \<not> verified a then
        ''You are swapping with another user on an open network, and the wallet could not compare '' @
        ''this offer to a reference price.''
      else case band a of
        Amber \<Rightarrow> ''That is above the usual range for this book. The rate is the counterparty's, '' @
                 ''not the wallet's.''
      | Red \<Rightarrow> ''That is far outside the usual range. Offers this far from market are often stale '' @
               ''or set as traps.''
      | Green \<Rightarrow> [])"

record SpreadGate =
  canProceed :: bool
  requiresTypedOverride :: bool
  overridePhrase :: "string option"
  overrideSatisfied :: bool
  gate_message :: string

definition normalizeOverrideInput :: "string option \<Rightarrow> string" where
  "normalizeOverrideInput typed = to_upper (squeeze_spaces (js_trim (coalesce typed [])))"

definition isOverrideTyped :: "string option \<Rightarrow> string \<Rightarrow> bool" where
  "isOverrideTyped typed phrase =
     (let input = normalizeOverrideInput typed
      in if input = [] then False else input = normalizeOverrideInput (Some phrase))"

definition evaluateSpreadGate :: "SpreadAssessment \<Rightarrow> string option \<Rightarrow> string \<Rightarrow> SpreadGate" where
  "evaluateSpreadGate a typedOverride phrase =
     (let note = formatBandNote a;
          message = (if note \<noteq> [] then sentence a @ '' '' @ note else sentence a)
      in if band a \<noteq> Red
         then \<lparr>canProceed = True, requiresTypedOverride = False, overridePhrase = None,
               overrideSatisfied = False, gate_message = message\<rparr>
         else let satisfied = isOverrideTyped typedOverride phrase
              in \<lparr>canProceed = satisfied, requiresTypedOverride = True, overridePhrase = Some phrase,
                  overrideSatisfied = satisfied, gate_message = message\<rparr>)"

subsection \<open>Makers that went quiet\<close>

definition COOLDOWN_MS :: int where "COOLDOWN_MS = 90 * 60 * 1000"
definition COOLDOWN_REASON_EXPIRED :: string where
  "COOLDOWN_REASON_EXPIRED = ''did not accept the last bid in time''"
definition COOLDOWN_STORAGE_KEY :: string where "COOLDOWN_STORAGE_KEY = ''pwnda-offer-cooldown''"

record CooldownEntry =
  c_key :: string
  c_until :: rat
  c_reason :: "string option"
  c_label :: "string option"

record CooldownTarget =
  t_offerId :: string
  t_makerAddress :: "string option"

definition offerKey :: "string \<Rightarrow> string" where "offerKey offerId = ''offer:'' @ js_trim offerId"
definition makerKey :: "string \<Rightarrow> string" where "makerKey addr = ''maker:'' @ js_trim addr"

definition activeCooldowns :: "CooldownEntry list \<Rightarrow> rat \<Rightarrow> CooldownEntry list" where
  "activeCooldowns entries nowMs = filter (\<lambda>e. nowMs < c_until e) entries"

definition cooldown_keys :: "CooldownTarget \<Rightarrow> (string \<times> string) list" where
  "cooldown_keys target =
     [(offerKey (t_offerId target), ''offer '' @ take 10 (t_offerId target) @ [CHR 0x85])] @
     (if truthy (t_makerAddress target) \<and> js_trim (the (t_makerAddress target)) \<noteq> []
      then [(makerKey (the (t_makerAddress target)),
             ''maker '' @ take 10 (the (t_makerAddress target)) @ [CHR 0x85])]
      else [])"

definition withCooldown ::
    "CooldownEntry list \<Rightarrow> CooldownTarget \<Rightarrow> rat \<Rightarrow> string \<Rightarrow> rat \<Rightarrow> CooldownEntry list" where
  "withCooldown entries target nowMs reason ttlMs =
     (let til = nowMs + ttlMs;
          ks = cooldown_keys target;
          kept = filter (\<lambda>e. \<not> list_ex (\<lambda>(k, _). k = c_key e) ks) (activeCooldowns entries nowMs)
      in kept @ map (\<lambda>(key, lbl). \<lparr>c_key = key, c_until = til, c_reason = Some reason,
                                     c_label = Some lbl\<rparr>) ks)"

definition isCooledDown :: "CooldownEntry list \<Rightarrow> CooldownTarget \<Rightarrow> rat \<Rightarrow> bool" where
  "isCooledDown entries target nowMs =
     (let live = activeCooldowns entries nowMs
      in if list_ex (\<lambda>e. c_key e = offerKey (t_offerId target)) live then True
         else let addr = map_option js_trim (t_makerAddress target)
              in truthy addr \<and> list_ex (\<lambda>e. c_key e = makerKey (the addr)) live)"

definition applyCooldown ::
    "('a \<Rightarrow> CooldownTarget) \<Rightarrow> 'a list \<Rightarrow> CooldownEntry list \<Rightarrow> rat \<Rightarrow> 'a list \<times> nat \<times> bool" where
  "applyCooldown target offers entries nowMs =
     (let live = activeCooldowns entries nowMs
      in if live = [] \<or> offers = [] then (offers, 0, False)
         else let kept = filter (\<lambda>x. \<not> isCooledDown live (target x) nowMs) offers
              in if kept = [] then (offers, 0, True)
                 else (kept, length offers - length kept, False))"

text \<open>\<open>loadCooldowns\<close> keeps the rows with a string key and a number; \<open>reachable\<close> is false where
  the browser refuses the storage.\<close>

definition entry_of_json :: "json \<Rightarrow> CooldownEntry option" where
  "entry_of_json e =
     (if \<not> jtruthy e then None
      else case (jstr (jget e ''key''), jnum (jget e ''until'')) of
        (Some k, Some u) \<Rightarrow>
          Some \<lparr>c_key = k, c_until = u, c_reason = jstr (jget e ''reason''),
                c_label = jstr (jget e ''label'')\<rparr>
      | _ \<Rightarrow> None)"

definition json_of_entry :: "CooldownEntry \<Rightarrow> json" where
  "json_of_entry e =
     JObj ([(''key'', JStr (c_key e)), (''until'', JNum (c_until e))] @
       (case c_reason e of None \<Rightarrow> [] | Some r \<Rightarrow> [(''reason'', JStr r)]) @
       (case c_label e of None \<Rightarrow> [] | Some r \<Rightarrow> [(''label'', JStr r)]))"

definition loadCooldowns :: "bool \<Rightarrow> stored \<Rightarrow> rat \<Rightarrow> CooldownEntry list" where
  "loadCooldowns reachable st nowMs =
     (if \<not> reachable then []
      else case st of
        NoItem \<Rightarrow> [] | Unparsable \<Rightarrow> []
      | Parsed v \<Rightarrow> (case jarr v of None \<Rightarrow> []
          | Some xs \<Rightarrow> activeCooldowns (List.map_filter entry_of_json xs) nowMs))"

definition saveCooldowns :: "bool \<Rightarrow> stored \<Rightarrow> CooldownEntry list \<Rightarrow> stored" where
  "saveCooldowns reachable st entries =
     (if reachable then Parsed (JArr (map json_of_entry entries)) else st)"

definition coolDown ::
    "bool \<Rightarrow> stored \<Rightarrow> CooldownTarget \<Rightarrow> string \<Rightarrow> rat \<Rightarrow> CooldownEntry list \<times> stored" where
  "coolDown reachable st target reason nowMs =
     (let nxt = withCooldown (loadCooldowns reachable st nowMs) target nowMs reason (of_int COOLDOWN_MS)
      in (nxt, saveCooldowns reachable st nxt))"

definition clearCooldowns :: "bool \<Rightarrow> stored \<Rightarrow> stored" where
  "clearCooldowns reachable st = saveCooldowns reachable st []"

definition cooldownRemaining :: "CooldownEntry \<Rightarrow> rat \<Rightarrow> string" where
  "cooldownRemaining entry nowMs =
     (let s = max 0 (math_round ((c_until entry - nowMs) / 1000));
          m = nat (math_round (of_int s / 60))
      in if m < 60 then nat_str m @ '' min''
         else nat_str (m div 60) @ ''h '' @ pad_start 2 (CHR ''0'') (nat_str (m mod 60)) @ ''m'')"

subsection \<open>Bidding again without asking\<close>

definition AUTO_RETRY_MAX_ATTEMPTS :: nat where "AUTO_RETRY_MAX_ATTEMPTS = 2"

record RetryOffer =
  ro_offerId :: string
  tradable :: bool
  isExpired :: bool
  isOwnOffer :: bool
  ro_makerAddress :: "string option"

record AutoRetryInput =
  ar_spread :: SpreadAssessment
  ar_offer :: RetryOffer
  ar_cooldowns :: "CooldownEntry list"
  ar_nowMs :: rat
  ar_sendAmount :: "rat option"
  ar_approvedSendAmount :: "rat option"
  attemptsSoFar :: nat

datatype RetryReason =
    AlreadyRetried nat
  | NotTakeable
  | MakerWentQuiet
  | NoComparableAmount
  | MoreThanApproved rat rat
  | RateNotChecked
  | BandIsYours SpreadBand
  | AtMarket

definition positive :: "rat option \<Rightarrow> bool" where
  "positive v = (case v of None \<Rightarrow> False | Some r \<Rightarrow> 0 < r)"

definition shouldAutoRetry :: "AutoRetryInput \<Rightarrow> bool \<times> RetryReason" where
  "shouldAutoRetry i =
     (if AUTO_RETRY_MAX_ATTEMPTS \<le> attemptsSoFar i then (False, AlreadyRetried (attemptsSoFar i))
      else if \<not> tradable (ar_offer i) \<or> isExpired (ar_offer i) \<or> isOwnOffer (ar_offer i)
      then (False, NotTakeable)
      else if isCooledDown (ar_cooldowns i)
                \<lparr>t_offerId = ro_offerId (ar_offer i), t_makerAddress = ro_makerAddress (ar_offer i)\<rparr>
                (ar_nowMs i)
      then (False, MakerWentQuiet)
      else if \<not> positive (ar_sendAmount i) \<or> \<not> positive (ar_approvedSendAmount i)
      then (False, NoComparableAmount)
      else if the (ar_approvedSendAmount i) < the (ar_sendAmount i)
      then (False, MoreThanApproved (the (ar_sendAmount i)) (the (ar_approvedSendAmount i)))
      else if \<not> verified (ar_spread i) then (False, RateNotChecked)
      else if band (ar_spread i) \<noteq> Green then (False, BandIsYours (band (ar_spread i)))
      else (True, AtMarket))"

subsection \<open>The gate\<close>

lemma band_computeSpread:
  "band (computeSpread orate mrate th) = Green \<or> band (computeSpread orate mrate th) = Amber \<longleftrightarrow>
     (\<exists>x y. orate = Some x \<and> mrate = Some y \<and> 0 < x \<and> 0 < y \<and>
        ((x - y) / y * 100 \<le> greenMaxPct th \<or> (x - y) / y * 100 \<le> amberMaxPct th))"
  by (cases orate; cases mrate) (auto simp: computeSpread_def unverified_def isUsableRate_def Let_def)

lemma verified_computeSpread:
  "verified (computeSpread orate mrate th) \<longleftrightarrow> isUsableRate orate \<and> isUsableRate mrate"
  by (simp add: computeSpread_def unverified_def Let_def)

text \<open>A bid goes through the price gate exactly when the offer's rate and the market rate are
  both known and the offer is at most five percent above the market, or the user typed the
  phrase. A missing price feed never opens the gate.\<close>

theorem gate_opens_iff:
  "canProceed (evaluateSpreadGate (computeSpread orate mrate SPREAD_THRESHOLDS) typed phrase) \<longleftrightarrow>
     (\<exists>x y. orate = Some x \<and> mrate = Some y \<and> 0 < x \<and> 0 < y \<and> x \<le> y * 105 / 100) \<or>
     isOverrideTyped typed phrase"
proof -
  have pct: "(x - y) / y * 100 \<le> 5 \<longleftrightarrow> x \<le> y * 105 / 100" if "0 < y" for x y :: rat
    using that by (simp add: field_simps)
  have "band (computeSpread orate mrate SPREAD_THRESHOLDS) \<noteq> Red \<longleftrightarrow>
      (\<exists>x y. orate = Some x \<and> mrate = Some y \<and> 0 < x \<and> 0 < y \<and> x \<le> y * 105 / 100)"
    using band_computeSpread [of orate mrate SPREAD_THRESHOLDS] pct
    by (cases "band (computeSpread orate mrate SPREAD_THRESHOLDS)")
      (fastforce simp: SPREAD_THRESHOLDS_def SPREAD_GREEN_MAX_PCT_def SPREAD_AMBER_MAX_PCT_def)+
  then show ?thesis by (auto simp: evaluateSpreadGate_def Let_def)
qed

subsection \<open>The cooldown list\<close>

definition same_target :: "CooldownTarget \<Rightarrow> CooldownTarget \<Rightarrow> bool" where
  "same_target a b =
     (js_trim (t_offerId a) = js_trim (t_offerId b) \<or>
      (\<exists>x y. t_makerAddress a = Some x \<and> t_makerAddress b = Some y \<and>
         js_trim x = js_trim y \<and> js_trim x \<noteq> []))"

lemma keys_differ [simp]: "offerKey a \<noteq> makerKey b" "makerKey b \<noteq> offerKey a"
  by (simp_all add: offerKey_def makerKey_def)

lemma makerKey_trim [simp]: "makerKey (js_trim a) = makerKey a"
  by (simp add: makerKey_def)

lemma isCooledDown_iff:
  "isCooledDown es t now \<longleftrightarrow>
     (\<exists>e \<in> set es. now < c_until e \<and>
        (c_key e = offerKey (t_offerId t) \<or>
         (\<exists>m. t_makerAddress t = Some m \<and> js_trim m \<noteq> [] \<and> c_key e = makerKey m)))"
  by (auto simp: isCooledDown_def Let_def list_ex_iff activeCooldowns_def truthy_def split: option.splits)

lemma withCooldown_keys:
  assumes "(k, l) \<in> set (cooldown_keys t)"
  shows "\<exists>e \<in> set (withCooldown es t now r ttl). c_key e = k \<and> c_until e = now + ttl"
  using assms by (force simp: withCooldown_def Let_def)

lemma same_target_cooled:
  assumes "same_target t u" "t' < now + ttl"
  shows "isCooledDown (withCooldown es t now r ttl) u t'"
proof -
  consider (offer) "js_trim (t_offerId t) = js_trim (t_offerId u)"
    | (maker) x y where "t_makerAddress t = Some x" "t_makerAddress u = Some y" "js_trim x = js_trim y" "js_trim x \<noteq> []"
    using assms(1) unfolding same_target_def by blast
  then obtain k l where kl: "(k, l) \<in> set (cooldown_keys t)"
      "k = offerKey (t_offerId u) \<or> (\<exists>m. t_makerAddress u = Some m \<and> js_trim m \<noteq> [] \<and> k = makerKey m)"
  proof cases
    case offer
    then have "offerKey (t_offerId t) = offerKey (t_offerId u)" by (simp add: offerKey_def)
    then show ?thesis using that [of "offerKey (t_offerId t)"] by (simp add: cooldown_keys_def)
  next
    case maker
    then have "x \<noteq> []" by auto
    moreover have "makerKey x = makerKey y" using maker by (simp add: makerKey_def)
    ultimately show ?thesis using maker that [of "makerKey x" "''maker '' @ take 10 x @ [CHR 0x85]"]
      by (simp add: cooldown_keys_def truthy_def)
  qed
  obtain e where "e \<in> set (withCooldown es t now r ttl)" "c_key e = k" "c_until e = now + ttl"
    using withCooldown_keys [OF kl(1)] by blast
  then show ?thesis using kl(2) assms(2) unfolding isCooledDown_iff by (intro bexI [of _ e]) auto
qed

lemma withCooldown_distinct:
  assumes "distinct (map c_key es)" shows "distinct (map c_key (withCooldown es t now r ttl))"
proof -
  have "distinct (map c_key (filter P es))" for P using assms by (rule distinct_map_filter)
  then have "distinct (map c_key (filter P (activeCooldowns es now)))" for P
    unfolding activeCooldowns_def filter_filter by simp
  then show ?thesis
    by (auto simp: withCooldown_def Let_def cooldown_keys_def list_ex_iff)
qed

lemma entry_json [simp]: "entry_of_json (json_of_entry e) = Some e"
  by (cases "c_reason e"; cases "c_label e") (simp_all add: entry_of_json_def json_of_entry_def)

lemma map_filter_entries [simp]: "List.map_filter entry_of_json (map json_of_entry es) = es"
  by (induction es) (simp_all add: List.map_filter_simps)

text \<open>C21. After an offer went unanswered, the wallet bids again on its own neither on that offer nor
  on any other offer of the same maker for ninety minutes, whatever else the list held, also
  across a restart that reads the list back from storage.\<close>

theorem no_auto_rebid_after_cooldown:
  assumes "coolDown True st target reason now = (entries, st')"
    and "same_target target \<lparr>t_offerId = ro_offerId (ar_offer i), t_makerAddress = ro_makerAddress (ar_offer i)\<rparr>"
    and "now \<le> ar_nowMs i" "ar_nowMs i < now + of_int COOLDOWN_MS"
    and "ar_cooldowns i = loadCooldowns True st' (ar_nowMs i)"
  shows "fst (shouldAutoRetry i) = False"
proof -
  have e: "entries = withCooldown (loadCooldowns True st now) target now reason (of_int COOLDOWN_MS)"
    and st': "st' = Parsed (JArr (map json_of_entry entries))"
    using assms(1) by (auto simp: coolDown_def saveCooldowns_def Let_def)
  have "ar_cooldowns i = activeCooldowns entries (ar_nowMs i)"
    using assms(5) by (simp add: st' loadCooldowns_def)
  moreover have "isCooledDown entries
      \<lparr>t_offerId = ro_offerId (ar_offer i), t_makerAddress = ro_makerAddress (ar_offer i)\<rparr> (ar_nowMs i)"
    unfolding e by (rule same_target_cooled [OF assms(2,4)])
  ultimately show ?thesis
    by (auto simp: shouldAutoRetry_def isCooledDown_def activeCooldowns_def)
qed

text \<open>An automatic bid stays within what the user approved: at most two of them, never more
  than the approved amount, and never on an offer more than one percent above a known market
  rate.\<close>

theorem auto_retry_within_limits:
  assumes "fst (shouldAutoRetry i)" "ar_spread i = computeSpread orate mrate SPREAD_THRESHOLDS"
  shows "attemptsSoFar i < 2 \<and> tradable (ar_offer i) \<and> \<not> isExpired (ar_offer i) \<and>
    \<not> isOwnOffer (ar_offer i) \<and>
    (\<exists>x a. ar_sendAmount i = Some x \<and> ar_approvedSendAmount i = Some a \<and> 0 < x \<and> x \<le> a) \<and>
    (\<exists>x y. orate = Some x \<and> mrate = Some y \<and> 0 < x \<and> 0 < y \<and> x \<le> y * 101 / 100)"
proof -
  have p: "positive (ar_sendAmount i)" "positive (ar_approvedSendAmount i)"
      "the (ar_sendAmount i) \<le> the (ar_approvedSendAmount i)" "attemptsSoFar i < 2"
      "tradable (ar_offer i)" "\<not> isExpired (ar_offer i)" "\<not> isOwnOffer (ar_offer i)"
      "verified (ar_spread i)" "band (ar_spread i) = Green"
    using assms(1) by (auto simp: shouldAutoRetry_def AUTO_RETRY_MAX_ATTEMPTS_def split: if_splits)
  have "isUsableRate orate" "isUsableRate mrate"
    using p(8) by (simp_all add: assms(2) verified_computeSpread)
  then obtain x y where xy: "orate = Some x" "mrate = Some y" "0 < x" "0 < y"
    by (auto simp: isUsableRate_def split: option.splits)
  have "(x - y) / y * 100 \<le> 1"
    using p(9) xy by (auto simp: assms(2) computeSpread_def isUsableRate_def Let_def SPREAD_THRESHOLDS_def
        SPREAD_GREEN_MAX_PCT_def split: if_splits)
  then have "x \<le> y * 101 / 100" using xy(4) by (simp add: field_simps)
  then show ?thesis using p xy by (auto simp: positive_def split: option.splits)
qed

text \<open>Setting quiet makers aside never leaves the user without an offer: the offers that remain
  are in their order, none of them is cooled down unless all are, and the count of those set
  aside is exact.\<close>

theorem applyCooldown_result:
  "applyCooldown target offers es now =
     (if list_all (\<lambda>x. isCooledDown es (target x) now) offers
      then (offers, 0, offers \<noteq> [])
      else (filter (\<lambda>x. \<not> isCooledDown es (target x) now) offers,
            length (filter (\<lambda>x. isCooledDown es (target x) now) offers), False))"
proof -
  have live: "isCooledDown (activeCooldowns es now) u now = isCooledDown es u now" for u
    by (auto simp: isCooledDown_iff activeCooldowns_def)
  have none: "activeCooldowns es now = [] \<Longrightarrow> \<not> isCooledDown es u now" for u
    by (auto simp: isCooledDown_iff activeCooldowns_def filter_empty_conv)
  have len: "length offers - length (filter (\<lambda>x. \<not> P x) offers) = length (filter P offers)" for P
    using sum_length_filter_compl [of P offers] by simp
  have all: "filter (\<lambda>x. \<not> isCooledDown es (target x) now) offers = [] \<longleftrightarrow>
      list_all (\<lambda>x. isCooledDown es (target x) now) offers"
    by (auto simp: filter_empty_conv list_all_iff)
  show ?thesis
  proof (cases "activeCooldowns es now = [] \<or> offers = []")
    case True
    then show ?thesis using none by (cases offers) (auto simp: applyCooldown_def Let_def)
  next
    case False
    then show ?thesis using all unfolding applyCooldown_def Let_def live by (simp add: len)
  qed
qed

definition demo_quiet :: AutoRetryInput where
  "demo_quiet = \<lparr>ar_spread = computeSpread (Some 1) (Some 1) SPREAD_THRESHOLDS,
     ar_offer = \<lparr>ro_offerId = ''o2'', tradable = True, isExpired = False, isOwnOffer = False,
       ro_makerAddress = Some '' m ''\<rparr>,
     ar_cooldowns = loadCooldowns True (snd (coolDown True NoItem
        \<lparr>t_offerId = ''o1'', t_makerAddress = Some ''m''\<rparr> ''quiet'' 0)) 1000,
     ar_nowMs = 1000, ar_sendAmount = Some 1, ar_approvedSendAmount = Some 1, attemptsSoFar = 0\<rparr>"

theorem no_auto_rebid_after_cooldown_witness: "fst (shouldAutoRetry demo_quiet) = False"
proof (rule no_auto_rebid_after_cooldown)
  show "coolDown True NoItem \<lparr>t_offerId = ''o1'', t_makerAddress = Some ''m''\<rparr> ''quiet'' 0 =
      (fst (coolDown True NoItem \<lparr>t_offerId = ''o1'', t_makerAddress = Some ''m''\<rparr> ''quiet'' 0),
       snd (coolDown True NoItem \<lparr>t_offerId = ''o1'', t_makerAddress = Some ''m''\<rparr> ''quiet'' 0))"
    by simp
qed (simp_all add: demo_quiet_def same_target_def js_trim_def js_space_def COOLDOWN_MS_def)

theorem auto_retry_within_limits_witness:
  "(1 :: nat) < 2 \<and> (\<exists>x a. Some (3 :: rat) = Some x \<and> Some (4 :: rat) = Some a \<and> 0 < x \<and> x \<le> a)"
proof -
  define i where "i = \<lparr>ar_spread = computeSpread (Some 100) (Some 100) SPREAD_THRESHOLDS,
     ar_offer = \<lparr>ro_offerId = ''o2'', tradable = True, isExpired = False, isOwnOffer = False,
       ro_makerAddress = None\<rparr>,
     ar_cooldowns = [], ar_nowMs = 0, ar_sendAmount = Some 3, ar_approvedSendAmount = Some 4,
     attemptsSoFar = 1\<rparr>"
  have "fst (shouldAutoRetry i)"
    by (simp add: i_def shouldAutoRetry_def AUTO_RETRY_MAX_ATTEMPTS_def isCooledDown_def activeCooldowns_def
        positive_def computeSpread_def isUsableRate_def Let_def SPREAD_THRESHOLDS_def SPREAD_GREEN_MAX_PCT_def truthy_def)
  moreover have "ar_spread i = computeSpread (Some 100) (Some 100) SPREAD_THRESHOLDS" by (simp add: i_def)
  ultimately show ?thesis using auto_retry_within_limits [of i "Some 100" "Some 100"] by (simp add: i_def)
qed
end
