(* ===== verification/PollGate.thy ===== *)
theory PollGate
  imports Prelude
begin

section \<open>Gates for the swap tracker's poll: features/swap-sidecar/pollGate.ts\<close>

text \<open>
  Two closures over mutable variables, as step relations on those variables. What the wrapped
  function does is not looked at; its resolving, its throwing and the browser's timer firing are
  events. The history fields of the records (\<open>starts\<close>, \<open>ends\<close>, \<open>unserved\<close>, \<open>runs\<close>, \<open>clock\<close>)
  are for the statements only: no step looks at them, except that time does not run backwards.
\<close>

subsection \<open>singleFlight\<close>

record sf_state =
  running :: bool
  again :: bool
  starts :: nat
  ends :: nat
  unserved :: nat

datatype sf_event = SfCall | SfDone | SfThrow

definition sf_init :: sf_state where
  "sf_init = \<lparr>running = False, again = False, starts = 0, ends = 0, unserved = 0\<rparr>"

inductive singleFlight :: "sf_state \<Rightarrow> sf_event \<Rightarrow> sf_state \<Rightarrow> bool" where
  sf_start: "\<not> running s \<Longrightarrow>
     singleFlight s SfCall (s\<lparr>running := True, again := False, starts := starts s + 1, unserved := 0\<rparr>)"
| sf_busy: "running s \<Longrightarrow> singleFlight s SfCall (s\<lparr>again := True, unserved := unserved s + 1\<rparr>)"
| sf_rerun: "running s \<Longrightarrow> again s \<Longrightarrow>
     singleFlight s SfDone (s\<lparr>again := False, starts := starts s + 1, ends := ends s + 1, unserved := 0\<rparr>)"
| sf_stop: "running s \<Longrightarrow> \<not> again s \<Longrightarrow>
     singleFlight s SfDone (s\<lparr>running := False, ends := ends s + 1\<rparr>)"
| sf_fail: "running s \<Longrightarrow> singleFlight s SfThrow (s\<lparr>running := False, ends := ends s + 1\<rparr>)"

inductive_cases sf_callE: "singleFlight s SfCall s'"
inductive_cases sf_doneE: "singleFlight s SfDone s'"
inductive_cases sf_throwE: "singleFlight s SfThrow s'"

inductive sf_trace :: "sf_event list \<Rightarrow> sf_state \<Rightarrow> bool" where
  sf_none: "sf_trace [] sf_init"
| sf_snoc: "sf_trace es s \<Longrightarrow> singleFlight s e s' \<Longrightarrow> sf_trace (es @ [e]) s'"

lemma sf_trace_inv:
  "sf_trace es s \<Longrightarrow> starts s = ends s + (if running s then 1 else 0) \<and>
     ends s = length (filter (\<lambda>e. e \<noteq> SfCall) es) \<and>
     (\<not> again s \<longrightarrow> running s \<longrightarrow> unserved s = 0) \<and>
     (SfThrow \<notin> set es \<longrightarrow> \<not> running s \<longrightarrow> unserved s = 0)"
proof (induction es s rule: sf_trace.induct)
  case sf_none
  then show ?case by (simp add: sf_init_def)
next
  case (sf_snoc es s e s')
  from sf_snoc.hyps(2) sf_snoc.IH show ?case by cases auto
qed

text \<open>The wrapped function never overlaps itself, however the calls fall; and no call is lost:
  while no run throws, whenever the gate is idle or has no rerun to make, the function was
  started after the last call. (A run that throws drops the reruns asked for during it; the
  callers of those share its rejected promise.)\<close>

theorem single_flight:
  assumes "sf_trace es s"
  shows "starts s - ends s \<le> 1 \<and> ends s \<le> starts s \<and>
    (SfThrow \<notin> set es \<longrightarrow> \<not> (running s \<and> again s) \<longrightarrow> unserved s = 0)"
  using sf_trace_inv [OF assms] by auto

subsection \<open>throttleLeadingTrailing\<close>

text \<open>\<open>last\<close> starts at minus infinity (None); a pending timer is the time it is due.\<close>

record th_state =
  th_last :: "int option"
  th_timer :: "int option"
  runs :: "int list"
  clock :: int

datatype th_event = ThCall int | ThFire int | ThCancel

definition th_init :: "int \<Rightarrow> th_state" where
  "th_init t = \<lparr>th_last = None, th_timer = None, runs = [], clock = t\<rparr>"

definition leading :: "int \<Rightarrow> th_state \<Rightarrow> int \<Rightarrow> bool" where
  "leading windowMs s now = (case th_last s of None \<Rightarrow> True | Some l \<Rightarrow> l + windowMs - now \<le> 0)"

inductive throttle :: "int \<Rightarrow> th_state \<Rightarrow> th_event \<Rightarrow> th_state \<Rightarrow> bool" for windowMs where
  th_lead: "clock s \<le> now \<Longrightarrow> leading windowMs s now \<Longrightarrow>
     throttle windowMs s (ThCall now) (s\<lparr>th_last := Some now, runs := now # runs s, clock := now\<rparr>)"
| th_arm: "clock s \<le> now \<Longrightarrow> \<not> leading windowMs s now \<Longrightarrow> th_timer s = None \<Longrightarrow>
     throttle windowMs s (ThCall now)
       (s\<lparr>th_timer := Some (now + (the (th_last s) + windowMs - now)), clock := now\<rparr>)"
| th_drop: "clock s \<le> now \<Longrightarrow> \<not> leading windowMs s now \<Longrightarrow> th_timer s \<noteq> None \<Longrightarrow>
     throttle windowMs s (ThCall now) (s\<lparr>clock := now\<rparr>)"
| th_fire: "clock s \<le> now \<Longrightarrow> th_timer s = Some due \<Longrightarrow> due \<le> now \<Longrightarrow>
     throttle windowMs s (ThFire now)
       (s\<lparr>th_timer := None, th_last := Some now, runs := now # runs s, clock := now\<rparr>)"
| th_cancel: "throttle windowMs s ThCancel (s\<lparr>th_timer := None\<rparr>)"

inductive th_trace :: "int \<Rightarrow> th_event list \<Rightarrow> th_state \<Rightarrow> bool" for windowMs where
  th_none: "th_trace windowMs [] (th_init t)"
| th_snoc: "th_trace windowMs es s \<Longrightarrow> throttle windowMs s e s' \<Longrightarrow> th_trace windowMs (es @ [e]) s'"

text \<open>Of any three runs in a row, the first and the third are a window apart.\<close>

fun two_per_window :: "int \<Rightarrow> int list \<Rightarrow> bool" where
  "two_per_window w (c # b # a # r) = (a + w \<le> c \<and> two_per_window w (b # a # r))"
| "two_per_window w _ = True"

fun sorted_back :: "int list \<Rightarrow> bool" where
  "sorted_back (b # a # r) = (a \<le> b \<and> sorted_back (a # r))"
| "sorted_back _ = True"

definition th_good :: "int \<Rightarrow> th_state \<Rightarrow> bool" where
  "th_good w s =
     (two_per_window w (runs s) \<and> sorted_back (runs s) \<and>
      th_last s = (case runs s of [] \<Rightarrow> None | r # _ \<Rightarrow> Some r) \<and>
      (\<forall>r rs. runs s = r # rs \<longrightarrow> r \<le> clock s) \<and>
      (\<forall>d. th_timer s = Some d \<longrightarrow>
         (\<exists>b r. runs s = b # r \<and> (d = b + w \<or> (\<exists>a q. r = a # q \<and> a + w \<le> b)))))"

lemma th_good_init: "th_good w (th_init t)"
  by (simp add: th_good_def th_init_def)

lemma two_per_window_push:
  "two_per_window w (b # r) \<Longrightarrow> (\<And>a q. r = a # q \<Longrightarrow> a + w \<le> t) \<Longrightarrow> two_per_window w (t # b # r)"
  by (cases r) auto

lemma th_good_step:
  assumes "0 \<le> w" "th_good w s" "throttle w s e s'" shows "th_good w s'"
  using assms(3)
proof cases
  case (th_lead now)
  show ?thesis
  proof (cases "runs s")
    case Nil
    then show ?thesis using th_lead assms(2) by (auto simp: th_good_def)
  next
    case (Cons b r)
    then have b: "b + w \<le> now" using th_lead assms(2) by (simp add: th_good_def leading_def)
    have a: "a \<le> b" if "r = a # q" for a q using assms(2) Cons that by (simp add: th_good_def)
    have "two_per_window w (now # b # r)"
      by (rule two_per_window_push) (use assms(2) Cons a b in \<open>force simp: th_good_def\<close>)+
    then show ?thesis using th_lead assms(1,2) Cons b by (auto simp: th_good_def)
  qed
next
  case (th_arm now)
  then obtain l where l: "th_last s = Some l" by (cases "th_last s") (auto simp: leading_def)
  then obtain r where "runs s = l # r" using assms(2) by (auto simp: th_good_def split: list.splits)
  then show ?thesis using th_arm l assms(2) by (force simp: th_good_def)
next
  case (th_drop now)
  then show ?thesis using assms(2) by (force simp: th_good_def)
next
  case (th_fire now due)
  obtain b r where r: "runs s = b # r" "due = b + w \<or> (\<exists>a q. r = a # q \<and> a + w \<le> b)"
    using th_fire assms(2) by (auto simp: th_good_def)
  have le: "b \<le> now" using th_fire assms(2) r by (auto simp: th_good_def)
  have a: "a \<le> b" if "r = a # q" for a q using assms(2) r that by (simp add: th_good_def)
  have "a + w \<le> now" if "r = a # q" for a q using r(2) a [OF that] that th_fire le by auto
  then have "two_per_window w (now # b # r)"
    using assms(2) r by (intro two_per_window_push) (auto simp: th_good_def)
  then show ?thesis using th_fire assms(2) r le by (auto simp: th_good_def)
next
  case th_cancel
  then show ?thesis using assms(2) by (auto simp: th_good_def)
qed

text \<open>However calls, cancels and timers fall, no three runs of a throttled function lie within
  one window: a flood of frames costs at most two polls per window.\<close>

theorem throttle_rate:
  assumes "th_trace windowMs es s" "0 \<le> windowMs"
  shows "two_per_window windowMs (runs s)"
proof -
  from assms have "th_good windowMs s"
    by (induction es s rule: th_trace.induct) (auto intro: th_good_init th_good_step)
  then show ?thesis by (simp add: th_good_def)
qed

lemma th_demo: "th_trace 2000 [ThCall 0, ThCall 1, ThCall 2001, ThFire 2002]
    \<lparr>th_last = Some 2002, th_timer = None, runs = [2002, 2001, 0], clock = 2002\<rparr>"
proof -
  let ?s1 = "\<lparr>th_last = Some 0, th_timer = None, runs = [0], clock = 0\<rparr> :: th_state"
  let ?s2 = "\<lparr>th_last = Some 0, th_timer = Some 2000, runs = [0], clock = 1\<rparr> :: th_state"
  let ?s3 = "\<lparr>th_last = Some 2001, th_timer = Some 2000, runs = [2001, 0], clock = 2001\<rparr> :: th_state"
  have "throttle 2000 (th_init 0) (ThCall 0) ?s1"
    using throttle.th_lead [of "th_init 0" 0 2000] by (simp add: th_init_def leading_def)
  then have 1: "th_trace 2000 ([] @ [ThCall 0]) ?s1" by (rule th_snoc [OF th_none])
  have "throttle 2000 ?s1 (ThCall 1) ?s2"
    using throttle.th_arm [of ?s1 1 2000] by (simp add: leading_def)
  then have 2: "th_trace 2000 (([] @ [ThCall 0]) @ [ThCall 1]) ?s2" by (rule th_snoc [OF 1])
  have "throttle 2000 ?s2 (ThCall 2001) ?s3"
    using throttle.th_lead [of ?s2 2001 2000] by (simp add: leading_def)
  then have 3: "th_trace 2000 ((([] @ [ThCall 0]) @ [ThCall 1]) @ [ThCall 2001]) ?s3" by (rule th_snoc [OF 2])
  have "throttle 2000 ?s3 (ThFire 2002)
      \<lparr>th_last = Some 2002, th_timer = None, runs = [2002, 2001, 0], clock = 2002\<rparr>"
    using throttle.th_fire [of ?s3 2002 2000 2000] by simp
  then show ?thesis using th_snoc [OF 3] by simp
qed

theorem throttle_rate_witness: "two_per_window 2000 [2002, 2001, 0]"
  using throttle_rate [OF th_demo] by simp

text \<open>A leading run does not clear a pending timer. When the browser fires the timer late, the
  function runs twice a millisecond apart, which the comment on the function rules out.\<close>

theorem throttle_late_timer:
  "\<exists>es s. th_trace 2000 es s \<and> runs s = [2002, 2001, 0]"
  using th_demo by fastforce

theorem single_flight_witness:
  "starts \<lparr>running = True, again = True, starts = 1, ends = 0, unserved = 1\<rparr> -
     ends \<lparr>running = True, again = True, starts = 1, ends = 0, unserved = 1\<rparr> \<le> 1"
proof -
  let ?s1 = "\<lparr>running = True, again = False, starts = 1, ends = 0, unserved = 0\<rparr> :: sf_state"
  let ?s2 = "\<lparr>running = True, again = True, starts = 1, ends = 0, unserved = 1\<rparr> :: sf_state"
  have "singleFlight sf_init SfCall ?s1"
    using singleFlight.sf_start [of sf_init] by (simp add: sf_init_def)
  then have 1: "sf_trace ([] @ [SfCall]) ?s1" by (rule sf_snoc [OF sf_none])
  have "singleFlight ?s1 SfCall ?s2" using singleFlight.sf_busy [of ?s1] by simp
  then have "sf_trace (([] @ [SfCall]) @ [SfCall]) ?s2" by (rule sf_snoc [OF 1])
  then show ?thesis using single_flight by blast
qed

end
