(* ===== verification/BidStates.thy ===== *)
theory BidStates
  imports Complex_Main Prelude
begin

section \<open>Swap states: features/swap-sidecar/bidStates.ts\<close>

text \<open>
  The tables that turn a BasicSwap bid state into a stage a person can read, and the functions
  over them. A JavaScript number is a rational; a state arrives as a number, a string or
  nothing. Regular expressions are written out.
\<close>

subsection \<open>The tables\<close>

datatype BidStateName =
    BID_SENT
  | BID_RECEIVING
  | BID_RECEIVED
  | BID_RECEIVING_ACC
  | BID_ACCEPTED
  | SWAP_INITIATED
  | SWAP_PARTICIPATING
  | SWAP_COMPLETED
  | XMR_SWAP_SCRIPT_COIN_LOCKED
  | XMR_SWAP_HAVE_SCRIPT_COIN_SPEND_TX
  | XMR_SWAP_NOSCRIPT_COIN_LOCKED
  | XMR_SWAP_LOCK_RELEASED
  | XMR_SWAP_SCRIPT_TX_REDEEMED
  | XMR_SWAP_SCRIPT_TX_PREREFUND
  | XMR_SWAP_NOSCRIPT_TX_REDEEMED
  | XMR_SWAP_NOSCRIPT_TX_RECOVERED
  | XMR_SWAP_FAILED_REFUNDED
  | XMR_SWAP_FAILED_SWIPED
  | XMR_SWAP_FAILED
  | SWAP_DELAYING
  | SWAP_TIMEDOUT
  | BID_ABANDONED
  | BID_ERROR
  | BID_STALLED_FOR_TEST
  | BID_REJECTED
  | BID_STATE_UNKNOWN
  | XMR_SWAP_MSG_SCRIPT_LOCK_TX_SIGS
  | XMR_SWAP_MSG_SCRIPT_LOCK_SPEND_TX
  | BID_REQUEST_SENT
  | BID_REQUEST_ACCEPTED
  | BID_EXPIRED
  | BID_AACCEPT_DELAY
  | BID_AACCEPT_FAIL
  | CONNECT_REQ_SENT
  | XMR_SWAP_FAILED_SWIPED_USED_MERCY
  | XMR_SWAP_FAILED_SWIPED_USING_MERCY
  | XMR_SWAP_FAILED_SWIPED_MERCY_UNUSED
  | XMR_SWAP_FAILED_SWIPED_SENDING_MERCY

primrec BID_STATE_IDS :: "BidStateName \<Rightarrow> nat" where
  "BID_STATE_IDS BID_SENT = 1"
| "BID_STATE_IDS BID_RECEIVING = 2"
| "BID_STATE_IDS BID_RECEIVED = 3"
| "BID_STATE_IDS BID_RECEIVING_ACC = 4"
| "BID_STATE_IDS BID_ACCEPTED = 5"
| "BID_STATE_IDS SWAP_INITIATED = 6"
| "BID_STATE_IDS SWAP_PARTICIPATING = 7"
| "BID_STATE_IDS SWAP_COMPLETED = 8"
| "BID_STATE_IDS XMR_SWAP_SCRIPT_COIN_LOCKED = 9"
| "BID_STATE_IDS XMR_SWAP_HAVE_SCRIPT_COIN_SPEND_TX = 10"
| "BID_STATE_IDS XMR_SWAP_NOSCRIPT_COIN_LOCKED = 11"
| "BID_STATE_IDS XMR_SWAP_LOCK_RELEASED = 12"
| "BID_STATE_IDS XMR_SWAP_SCRIPT_TX_REDEEMED = 13"
| "BID_STATE_IDS XMR_SWAP_SCRIPT_TX_PREREFUND = 14"
| "BID_STATE_IDS XMR_SWAP_NOSCRIPT_TX_REDEEMED = 15"
| "BID_STATE_IDS XMR_SWAP_NOSCRIPT_TX_RECOVERED = 16"
| "BID_STATE_IDS XMR_SWAP_FAILED_REFUNDED = 17"
| "BID_STATE_IDS XMR_SWAP_FAILED_SWIPED = 18"
| "BID_STATE_IDS XMR_SWAP_FAILED = 19"
| "BID_STATE_IDS SWAP_DELAYING = 20"
| "BID_STATE_IDS SWAP_TIMEDOUT = 21"
| "BID_STATE_IDS BID_ABANDONED = 22"
| "BID_STATE_IDS BID_ERROR = 23"
| "BID_STATE_IDS BID_STALLED_FOR_TEST = 24"
| "BID_STATE_IDS BID_REJECTED = 25"
| "BID_STATE_IDS BID_STATE_UNKNOWN = 26"
| "BID_STATE_IDS XMR_SWAP_MSG_SCRIPT_LOCK_TX_SIGS = 27"
| "BID_STATE_IDS XMR_SWAP_MSG_SCRIPT_LOCK_SPEND_TX = 28"
| "BID_STATE_IDS BID_REQUEST_SENT = 29"
| "BID_STATE_IDS BID_REQUEST_ACCEPTED = 30"
| "BID_STATE_IDS BID_EXPIRED = 31"
| "BID_STATE_IDS BID_AACCEPT_DELAY = 32"
| "BID_STATE_IDS BID_AACCEPT_FAIL = 33"
| "BID_STATE_IDS CONNECT_REQ_SENT = 34"
| "BID_STATE_IDS XMR_SWAP_FAILED_SWIPED_USED_MERCY = 36"
| "BID_STATE_IDS XMR_SWAP_FAILED_SWIPED_USING_MERCY = 37"
| "BID_STATE_IDS XMR_SWAP_FAILED_SWIPED_MERCY_UNUSED = 38"
| "BID_STATE_IDS XMR_SWAP_FAILED_SWIPED_SENDING_MERCY = 39"

text \<open>The property names of the tables, as strings.\<close>

primrec state_key :: "BidStateName \<Rightarrow> string" where
  "state_key BID_SENT = ''BID_SENT''"
| "state_key BID_RECEIVING = ''BID_RECEIVING''"
| "state_key BID_RECEIVED = ''BID_RECEIVED''"
| "state_key BID_RECEIVING_ACC = ''BID_RECEIVING_ACC''"
| "state_key BID_ACCEPTED = ''BID_ACCEPTED''"
| "state_key SWAP_INITIATED = ''SWAP_INITIATED''"
| "state_key SWAP_PARTICIPATING = ''SWAP_PARTICIPATING''"
| "state_key SWAP_COMPLETED = ''SWAP_COMPLETED''"
| "state_key XMR_SWAP_SCRIPT_COIN_LOCKED = ''XMR_SWAP_SCRIPT_COIN_LOCKED''"
| "state_key XMR_SWAP_HAVE_SCRIPT_COIN_SPEND_TX = ''XMR_SWAP_HAVE_SCRIPT_COIN_SPEND_TX''"
| "state_key XMR_SWAP_NOSCRIPT_COIN_LOCKED = ''XMR_SWAP_NOSCRIPT_COIN_LOCKED''"
| "state_key XMR_SWAP_LOCK_RELEASED = ''XMR_SWAP_LOCK_RELEASED''"
| "state_key XMR_SWAP_SCRIPT_TX_REDEEMED = ''XMR_SWAP_SCRIPT_TX_REDEEMED''"
| "state_key XMR_SWAP_SCRIPT_TX_PREREFUND = ''XMR_SWAP_SCRIPT_TX_PREREFUND''"
| "state_key XMR_SWAP_NOSCRIPT_TX_REDEEMED = ''XMR_SWAP_NOSCRIPT_TX_REDEEMED''"
| "state_key XMR_SWAP_NOSCRIPT_TX_RECOVERED = ''XMR_SWAP_NOSCRIPT_TX_RECOVERED''"
| "state_key XMR_SWAP_FAILED_REFUNDED = ''XMR_SWAP_FAILED_REFUNDED''"
| "state_key XMR_SWAP_FAILED_SWIPED = ''XMR_SWAP_FAILED_SWIPED''"
| "state_key XMR_SWAP_FAILED = ''XMR_SWAP_FAILED''"
| "state_key SWAP_DELAYING = ''SWAP_DELAYING''"
| "state_key SWAP_TIMEDOUT = ''SWAP_TIMEDOUT''"
| "state_key BID_ABANDONED = ''BID_ABANDONED''"
| "state_key BID_ERROR = ''BID_ERROR''"
| "state_key BID_STALLED_FOR_TEST = ''BID_STALLED_FOR_TEST''"
| "state_key BID_REJECTED = ''BID_REJECTED''"
| "state_key BID_STATE_UNKNOWN = ''BID_STATE_UNKNOWN''"
| "state_key XMR_SWAP_MSG_SCRIPT_LOCK_TX_SIGS = ''XMR_SWAP_MSG_SCRIPT_LOCK_TX_SIGS''"
| "state_key XMR_SWAP_MSG_SCRIPT_LOCK_SPEND_TX = ''XMR_SWAP_MSG_SCRIPT_LOCK_SPEND_TX''"
| "state_key BID_REQUEST_SENT = ''BID_REQUEST_SENT''"
| "state_key BID_REQUEST_ACCEPTED = ''BID_REQUEST_ACCEPTED''"
| "state_key BID_EXPIRED = ''BID_EXPIRED''"
| "state_key BID_AACCEPT_DELAY = ''BID_AACCEPT_DELAY''"
| "state_key BID_AACCEPT_FAIL = ''BID_AACCEPT_FAIL''"
| "state_key CONNECT_REQ_SENT = ''CONNECT_REQ_SENT''"
| "state_key XMR_SWAP_FAILED_SWIPED_USED_MERCY = ''XMR_SWAP_FAILED_SWIPED_USED_MERCY''"
| "state_key XMR_SWAP_FAILED_SWIPED_USING_MERCY = ''XMR_SWAP_FAILED_SWIPED_USING_MERCY''"
| "state_key XMR_SWAP_FAILED_SWIPED_MERCY_UNUSED = ''XMR_SWAP_FAILED_SWIPED_MERCY_UNUSED''"
| "state_key XMR_SWAP_FAILED_SWIPED_SENDING_MERCY = ''XMR_SWAP_FAILED_SWIPED_SENDING_MERCY''"

primrec BID_STATE_WIRE_LABELS :: "BidStateName \<Rightarrow> string" where
  "BID_STATE_WIRE_LABELS BID_SENT = ''Sent''"
| "BID_STATE_WIRE_LABELS BID_RECEIVING = ''Receiving''"
| "BID_STATE_WIRE_LABELS BID_RECEIVED = ''Received''"
| "BID_STATE_WIRE_LABELS BID_RECEIVING_ACC = ''Receiving accept''"
| "BID_STATE_WIRE_LABELS BID_ACCEPTED = ''Accepted''"
| "BID_STATE_WIRE_LABELS SWAP_INITIATED = ''Initiated''"
| "BID_STATE_WIRE_LABELS SWAP_PARTICIPATING = ''Participating''"
| "BID_STATE_WIRE_LABELS SWAP_COMPLETED = ''Completed''"
| "BID_STATE_WIRE_LABELS XMR_SWAP_SCRIPT_COIN_LOCKED = ''Script coin locked''"
| "BID_STATE_WIRE_LABELS XMR_SWAP_HAVE_SCRIPT_COIN_SPEND_TX = ''Script coin spend tx valid''"
| "BID_STATE_WIRE_LABELS XMR_SWAP_NOSCRIPT_COIN_LOCKED = ''Scriptless coin locked''"
| "BID_STATE_WIRE_LABELS XMR_SWAP_LOCK_RELEASED = ''Script coin lock released''"
| "BID_STATE_WIRE_LABELS XMR_SWAP_SCRIPT_TX_REDEEMED = ''Script tx redeemed''"
| "BID_STATE_WIRE_LABELS XMR_SWAP_SCRIPT_TX_PREREFUND = ''Script pre-refund tx in chain''"
| "BID_STATE_WIRE_LABELS XMR_SWAP_NOSCRIPT_TX_REDEEMED = ''Scriptless tx redeemed''"
| "BID_STATE_WIRE_LABELS XMR_SWAP_NOSCRIPT_TX_RECOVERED = ''Scriptless tx recovered''"
| "BID_STATE_WIRE_LABELS XMR_SWAP_FAILED_REFUNDED = ''Failed, refunded''"
| "BID_STATE_WIRE_LABELS XMR_SWAP_FAILED_SWIPED = ''Failed, swiped''"
| "BID_STATE_WIRE_LABELS XMR_SWAP_FAILED = ''Failed''"
| "BID_STATE_WIRE_LABELS SWAP_DELAYING = ''Delaying''"
| "BID_STATE_WIRE_LABELS SWAP_TIMEDOUT = ''Timed-out''"
| "BID_STATE_WIRE_LABELS BID_ABANDONED = ''Abandoned''"
| "BID_STATE_WIRE_LABELS BID_ERROR = ''Error''"
| "BID_STATE_WIRE_LABELS BID_STALLED_FOR_TEST = ''Stalled (debug)''"
| "BID_STATE_WIRE_LABELS BID_REJECTED = ''Rejected''"
| "BID_STATE_WIRE_LABELS BID_STATE_UNKNOWN = ''Unknown bid state''"
| "BID_STATE_WIRE_LABELS XMR_SWAP_MSG_SCRIPT_LOCK_TX_SIGS = ''Exchanged script lock tx sigs msg''"
| "BID_STATE_WIRE_LABELS XMR_SWAP_MSG_SCRIPT_LOCK_SPEND_TX = ''Exchanged script lock spend tx msg''"
| "BID_STATE_WIRE_LABELS BID_REQUEST_SENT = ''Request sent''"
| "BID_STATE_WIRE_LABELS BID_REQUEST_ACCEPTED = ''Request accepted''"
| "BID_STATE_WIRE_LABELS BID_EXPIRED = ''Expired''"
| "BID_STATE_WIRE_LABELS BID_AACCEPT_DELAY = ''Auto accept delay''"
| "BID_STATE_WIRE_LABELS BID_AACCEPT_FAIL = ''Auto accept failed''"
| "BID_STATE_WIRE_LABELS CONNECT_REQ_SENT = ''Connect request sent''"
| "BID_STATE_WIRE_LABELS XMR_SWAP_FAILED_SWIPED_USED_MERCY = ''Failed, swiped, recovered''"
| "BID_STATE_WIRE_LABELS XMR_SWAP_FAILED_SWIPED_USING_MERCY = ''Failed, swiped, recovering''"
| "BID_STATE_WIRE_LABELS XMR_SWAP_FAILED_SWIPED_MERCY_UNUSED = ''Failed, swiped, mercy unused''"
| "BID_STATE_WIRE_LABELS XMR_SWAP_FAILED_SWIPED_SENDING_MERCY = ''Failed, swiped, sending mercy''"

definition state_keys :: "BidStateName list" where
  "state_keys =
     [BID_SENT,
      BID_RECEIVING,
      BID_RECEIVED,
      BID_RECEIVING_ACC,
      BID_ACCEPTED,
      SWAP_INITIATED,
      SWAP_PARTICIPATING,
      SWAP_COMPLETED,
      XMR_SWAP_SCRIPT_COIN_LOCKED,
      XMR_SWAP_HAVE_SCRIPT_COIN_SPEND_TX,
      XMR_SWAP_NOSCRIPT_COIN_LOCKED,
      XMR_SWAP_LOCK_RELEASED,
      XMR_SWAP_SCRIPT_TX_REDEEMED,
      XMR_SWAP_SCRIPT_TX_PREREFUND,
      XMR_SWAP_NOSCRIPT_TX_REDEEMED,
      XMR_SWAP_NOSCRIPT_TX_RECOVERED,
      XMR_SWAP_FAILED_REFUNDED,
      XMR_SWAP_FAILED_SWIPED,
      XMR_SWAP_FAILED,
      SWAP_DELAYING,
      SWAP_TIMEDOUT,
      BID_ABANDONED,
      BID_ERROR,
      BID_STALLED_FOR_TEST,
      BID_REJECTED,
      BID_STATE_UNKNOWN,
      XMR_SWAP_MSG_SCRIPT_LOCK_TX_SIGS,
      XMR_SWAP_MSG_SCRIPT_LOCK_SPEND_TX,
      BID_REQUEST_SENT,
      BID_REQUEST_ACCEPTED,
      BID_EXPIRED,
      BID_AACCEPT_DELAY,
      BID_AACCEPT_FAIL,
      CONNECT_REQ_SENT,
      XMR_SWAP_FAILED_SWIPED_USED_MERCY,
      XMR_SWAP_FAILED_SWIPED_USING_MERCY,
      XMR_SWAP_FAILED_SWIPED_MERCY_UNUSED,
      XMR_SWAP_FAILED_SWIPED_SENDING_MERCY]"

datatype BidStage =
    StRequesting
  | StAccepted
  | StLocking
  | StWaitingCounterparty
  | StFinalising
  | StDone
  | StRefunding
  | StRefunded
  | StTimelockUnwinding
  | StSwipedSettling
  | StSwiped
  | StClaimedAfterSwipe
  | StCounterpartyRecovered
  | StRecovering
  | StCancelled
  | StNeedsAttention
  | StInternal
  | StUnknown

datatype BidSeverity = Progress | Success | Normal | Attention | InternalSev

record BidStageInfo =
  bi_stage :: BidStage
  bi_label :: string
  bi_description :: string
  bi_severity :: BidSeverity
  bi_terminal :: bool
  bi_surface :: bool

primrec BID_STAGES :: "BidStage \<Rightarrow> BidStageInfo" where
  "BID_STAGES StRequesting = \<lparr>bi_stage = StRequesting, bi_label = ''Requesting the swap'',
     bi_description =
       ''Your bid has been sent to the other user over the peer-to-peer network and is '' @
       ''waiting to be picked up.'',
     bi_severity = Progress, bi_terminal = False, bi_surface = True\<rparr>"
| "BID_STAGES StAccepted = \<lparr>bi_stage = StAccepted, bi_label = ''Accepted'',
     bi_description =
       ''The other user accepted your bid. Both sides are exchanging the messages that '' @
       ''set the swap up.'',
     bi_severity = Progress, bi_terminal = False, bi_surface = True\<rparr>"
| "BID_STAGES StLocking = \<lparr>bi_stage = StLocking, bi_label = ''Locking your funds'',
     bi_description =
       ''Your side of the swap is being committed on-chain. Nothing can be spent by '' @
       ''either side until both legs are locked.'',
     bi_severity = Progress, bi_terminal = False, bi_surface = True\<rparr>"
| "BID_STAGES StWaitingCounterparty = \<lparr>bi_stage = StWaitingCounterparty, bi_label = ''Waiting for the other user'',
     bi_description =
       ''Your funds are locked and the other user's leg is confirming. If they never '' @
       ''complete, the timelock returns your funds automatically.'',
     bi_severity = Progress, bi_terminal = False, bi_surface = True\<rparr>"
| "BID_STAGES StFinalising = \<lparr>bi_stage = StFinalising, bi_label = ''Finalising'',
     bi_description =
       ''Both legs are locked and the claim transactions are going through. This is '' @
       ''the last step.'',
     bi_severity = Progress, bi_terminal = False, bi_surface = True\<rparr>"
| "BID_STAGES StDone = \<lparr>bi_stage = StDone, bi_label = ''Done'',
     bi_description =
       ''The swap completed and the coins you bought have arrived.'',
     bi_severity = Success, bi_terminal = True, bi_surface = True\<rparr>"
| "BID_STAGES StRefunding = \<lparr>bi_stage = StRefunding, bi_label = ''Refunding'',
     bi_description =
       ''The other user stopped responding. The refund is on chain now. Leave the app '' @
       ''open until it settles.'',
     bi_severity = Normal, bi_terminal = False, bi_surface = True\<rparr>"
| "BID_STAGES StRefunded = \<lparr>bi_stage = StRefunded, bi_label = ''Refunded'',
     bi_description =
       ''The timelock returned your funds. A normal outcome, not an error. No coins '' @
       ''were lost.'',
     bi_severity = Normal, bi_terminal = True, bi_surface = True\<rparr>"
| "BID_STAGES StTimelockUnwinding = \<lparr>bi_stage = StTimelockUnwinding, bi_label = ''Waiting on the timelock'',
     bi_description =
       ''The other user stopped responding with both sides locked. The protocol is '' @
       ''unwinding the swap on its own. Your coin has not moved yet and nothing is '' @
       ''lost.'',
     bi_severity = Normal, bi_terminal = False, bi_surface = True\<rparr>"
| "BID_STAGES StSwipedSettling = \<lparr>bi_stage = StSwipedSettling, bi_label = ''Settled by the timelock'',
     bi_description =
       ''The timelock paid you the coin you were buying. Your node is handing back the '' @
       ''key share so the other user can recover their side.'',
     bi_severity = Normal, bi_terminal = False, bi_surface = True\<rparr>"
| "BID_STAGES StSwiped = \<lparr>bi_stage = StSwiped, bi_label = ''Settled by the timelock'',
     bi_description =
       ''The other user never finished, so the timelock paid you the coin you were '' @
       ''buying instead. It is in your node's wallet.'',
     bi_severity = Normal, bi_terminal = True, bi_surface = True\<rparr>"
| "BID_STAGES StClaimedAfterSwipe = \<lparr>bi_stage = StClaimedAfterSwipe, bi_label = ''Settled by the timelock'',
     bi_description =
       ''The deadline passed before your coin came back, so the other user took it. '' @
       ''They handed back their key share, and your node used it to claim the coin you '' @
       ''were buying. It is in your wallet.'',
     bi_severity = Normal, bi_terminal = True, bi_surface = True\<rparr>"
| "BID_STAGES StCounterpartyRecovered = \<lparr>bi_stage = StCounterpartyRecovered, bi_label = ''Recovered by the other user'',
     bi_description =
       ''The final timelock expired and the other user took the recovery path. Nothing '' @
       ''further will happen on this swap.'',
     bi_severity = Normal, bi_terminal = True, bi_surface = True\<rparr>"
| "BID_STAGES StRecovering = \<lparr>bi_stage = StRecovering, bi_label = ''Settling by the timelock'',
     bi_description =
       ''The other user took your coin at the deadline, then handed back their key '' @
       ''share. Your node is using it to claim the coin you were buying. In progress, '' @
       ''not finished.'',
     bi_severity = Progress, bi_terminal = False, bi_surface = True\<rparr>"
| "BID_STAGES StCancelled = \<lparr>bi_stage = StCancelled, bi_label = ''Cancelled'',
     bi_description =
       ''The swap ended before any funds were committed. It was abandoned, rejected, '' @
       ''or it expired.'',
     bi_severity = Normal, bi_terminal = True, bi_surface = True\<rparr>"
| "BID_STAGES StNeedsAttention = \<lparr>bi_stage = StNeedsAttention, bi_label = ''Needs attention'',
     bi_description =
       ''The swap stopped in a state the node could not resolve on its own. If funds '' @
       ''were locked, the timelock refund still applies.'',
     bi_severity = Attention, bi_terminal = False, bi_surface = True\<rparr>"
| "BID_STAGES StInternal = \<lparr>bi_stage = StInternal, bi_label = '''',
     bi_description =
       '''',
     bi_severity = InternalSev, bi_terminal = False, bi_surface = False\<rparr>"
| "BID_STAGES StUnknown = \<lparr>bi_stage = StUnknown, bi_label = ''Status not recognised'',
     bi_description =
       ''The swap node reported a state this version of the wallet does not know '' @
       ''about. The swap itself is unaffected.'',
     bi_severity = Normal, bi_terminal = False, bi_surface = True\<rparr>"

primrec BID_STATE_STAGES :: "BidStateName \<Rightarrow> BidStage" where
  "BID_STATE_STAGES BID_SENT = StRequesting"
| "BID_STATE_STAGES BID_RECEIVING = StRequesting"
| "BID_STATE_STAGES BID_RECEIVED = StRequesting"
| "BID_STATE_STAGES BID_RECEIVING_ACC = StInternal"
| "BID_STATE_STAGES BID_ACCEPTED = StAccepted"
| "BID_STATE_STAGES SWAP_INITIATED = StLocking"
| "BID_STATE_STAGES SWAP_PARTICIPATING = StWaitingCounterparty"
| "BID_STATE_STAGES SWAP_COMPLETED = StDone"
| "BID_STATE_STAGES XMR_SWAP_SCRIPT_COIN_LOCKED = StLocking"
| "BID_STATE_STAGES XMR_SWAP_HAVE_SCRIPT_COIN_SPEND_TX = StWaitingCounterparty"
| "BID_STATE_STAGES XMR_SWAP_NOSCRIPT_COIN_LOCKED = StWaitingCounterparty"
| "BID_STATE_STAGES XMR_SWAP_LOCK_RELEASED = StFinalising"
| "BID_STATE_STAGES XMR_SWAP_SCRIPT_TX_REDEEMED = StFinalising"
| "BID_STATE_STAGES XMR_SWAP_SCRIPT_TX_PREREFUND = StRefunding"
| "BID_STATE_STAGES XMR_SWAP_NOSCRIPT_TX_REDEEMED = StFinalising"
| "BID_STATE_STAGES XMR_SWAP_NOSCRIPT_TX_RECOVERED = StRefunded"
| "BID_STATE_STAGES XMR_SWAP_FAILED_REFUNDED = StRefunded"
| "BID_STATE_STAGES XMR_SWAP_FAILED_SWIPED = StCounterpartyRecovered"
| "BID_STATE_STAGES XMR_SWAP_FAILED = StNeedsAttention"
| "BID_STATE_STAGES SWAP_DELAYING = StInternal"
| "BID_STATE_STAGES SWAP_TIMEDOUT = StCancelled"
| "BID_STATE_STAGES BID_ABANDONED = StCancelled"
| "BID_STATE_STAGES BID_ERROR = StNeedsAttention"
| "BID_STATE_STAGES BID_STALLED_FOR_TEST = StInternal"
| "BID_STATE_STAGES BID_REJECTED = StCancelled"
| "BID_STATE_STAGES BID_STATE_UNKNOWN = StNeedsAttention"
| "BID_STATE_STAGES XMR_SWAP_MSG_SCRIPT_LOCK_TX_SIGS = StAccepted"
| "BID_STATE_STAGES XMR_SWAP_MSG_SCRIPT_LOCK_SPEND_TX = StAccepted"
| "BID_STATE_STAGES BID_REQUEST_SENT = StRequesting"
| "BID_STATE_STAGES BID_REQUEST_ACCEPTED = StAccepted"
| "BID_STATE_STAGES BID_EXPIRED = StCancelled"
| "BID_STATE_STAGES BID_AACCEPT_DELAY = StAccepted"
| "BID_STATE_STAGES BID_AACCEPT_FAIL = StNeedsAttention"
| "BID_STATE_STAGES CONNECT_REQ_SENT = StInternal"
| "BID_STATE_STAGES XMR_SWAP_FAILED_SWIPED_USED_MERCY = StClaimedAfterSwipe"
| "BID_STATE_STAGES XMR_SWAP_FAILED_SWIPED_USING_MERCY = StRecovering"
| "BID_STATE_STAGES XMR_SWAP_FAILED_SWIPED_MERCY_UNUSED = StCounterpartyRecovered"
| "BID_STATE_STAGES XMR_SWAP_FAILED_SWIPED_SENDING_MERCY = StRecovering"

definition SCRIPTLESS_LEG_STAGES :: "BidStateName \<Rightarrow> BidStage option" where
  "SCRIPTLESS_LEG_STAGES s =
     (if s = XMR_SWAP_SCRIPT_TX_PREREFUND then Some StTimelockUnwinding
      else if s = XMR_SWAP_FAILED_SWIPED then Some StSwiped
      else if s = XMR_SWAP_FAILED_SWIPED_SENDING_MERCY then Some StSwipedSettling
      else None)"


definition ALL_BID_STATE_NAMES :: "BidStateName list" where
  "ALL_BID_STATE_NAMES = sort_by (\<lambda>a b. BID_STATE_IDS a < BID_STATE_IDS b) state_keys"

definition ID_TO_NAME :: "(nat \<times> BidStateName) list" where
  "ID_TO_NAME = foldl (\<lambda>out s. js_set (BID_STATE_IDS s) s out) [] ALL_BID_STATE_NAMES"

definition WIRE_LABEL_TO_NAME :: "(string \<times> BidStateName) list" where
  "WIRE_LABEL_TO_NAME =
     foldl (\<lambda>out s. js_set (to_upper (BID_STATE_WIRE_LABELS s)) s out) [] ALL_BID_STATE_NAMES"

subsection \<open>Which leg of the swap this node is on\<close>

datatype SwapLeg = Scriptless | Scripted | UnknownLeg

record SwapLegSource =
  was_sent :: "bool option"
  was_received :: "bool option"
  reverse_bid :: "bool option"

definition swapLegOf :: "SwapLegSource option \<Rightarrow> SwapLeg" where
  "swapLegOf detail =
     (case detail of
        None \<Rightarrow> UnknownLeg
      | Some d \<Rightarrow>
          (case reverse_bid d of
             None \<Rightarrow> UnknownLeg
           | Some reverse \<Rightarrow>
               let mine = (if reverse then was_received d else was_sent d);
                   other = (if reverse then was_sent d else was_received d)
               in if mine = Some True then Scriptless
                  else if other = Some True then Scripted
                  else UnknownLeg))"

subsection \<open>Classification\<close>

datatype BidStateInput = SNone | SNum rat | SStr string

definition BID_ARC :: "BidStage list" where
  "BID_ARC = [StRequesting, StAccepted, StLocking, StWaitingCounterparty, StFinalising, StDone]"

definition arcProgress :: "BidStage \<Rightarrow> rat option" where
  "arcProgress stage =
     (case index_of stage BID_ARC of
        None \<Rightarrow> None | Some i \<Rightarrow> Some (of_nat i / of_nat (length BID_ARC - 1)))"

record BidStateClassification =
  bc_info :: BidStageInfo
  bc_state :: "BidStateName option"
  bc_stateId :: "nat option"
  bc_raw :: BidStateInput
  bc_leg :: SwapLeg

definition is_integer :: "rat \<Rightarrow> bool" where "is_integer r = (of_int \<lfloor>r\<rfloor> = r)"

text \<open>\<open>BID_STATE_IDS[upper] != null\<close>: the name with that key.\<close>

definition state_of_key :: "string \<Rightarrow> BidStateName option" where
  "state_of_key upper = List.find (\<lambda>s. state_key s = upper) state_keys"

definition bidStateNameOf :: "BidStateInput \<Rightarrow> BidStateName option" where
  "bidStateNameOf state =
     (case state of
        SNone \<Rightarrow> None
      | SNum r \<Rightarrow> if is_integer r \<and> 0 \<le> r then map_of ID_TO_NAME (nat \<lfloor>r\<rfloor>) else None
      | SStr s \<Rightarrow>
          let raw = js_trim s
          in if raw = [] then None
             else if list_all is_digit raw then map_of ID_TO_NAME (str_nat raw)
             else let upper = to_upper raw
                  in if state_of_key upper \<noteq> None then state_of_key upper
                     else map_of WIRE_LABEL_TO_NAME upper)"

definition classifyBidState :: "BidStateInput \<Rightarrow> SwapLeg \<Rightarrow> BidStateClassification" where
  "classifyBidState state leg =
     (let name = bidStateNameOf state;
          base = (case name of Some s \<Rightarrow> BID_STATE_STAGES s | None \<Rightarrow> StUnknown);
          stage = (case name of
             Some s \<Rightarrow> if leg = Scriptless then coalesce (SCRIPTLESS_LEG_STAGES s) base else base
           | None \<Rightarrow> base)
      in \<lparr>bc_info = BID_STAGES stage, bc_state = name, bc_stateId = map_option BID_STATE_IDS name,
          bc_raw = state, bc_leg = leg\<rparr>)"

definition stageForBidState :: "BidStateInput \<Rightarrow> SwapLeg \<Rightarrow> BidStage" where
  "stageForBidState state leg = bi_stage (bc_info (classifyBidState state leg))"

definition bidStageLabel :: "BidStateInput \<Rightarrow> string" where
  "bidStageLabel state = bi_label (bc_info (classifyBidState state UnknownLeg))"

definition isTerminal :: "BidStateInput \<Rightarrow> bool" where
  "isTerminal state = bi_terminal (bc_info (classifyBidState state UnknownLeg))"

definition isRefundOutcome :: "BidStateInput \<Rightarrow> SwapLeg \<Rightarrow> bool" where
  "isRefundOutcome state leg =
     (let s = stageForBidState state leg
      in s = StRefunded \<or> s = StRefunding \<or> s = StTimelockUnwinding)"

definition nodeProseIsOtherLegsStory :: "BidStateInput \<Rightarrow> SwapLeg \<Rightarrow> bool" where
  "nodeProseIsOtherLegsStory state leg =
     (if leg \<noteq> Scriptless then False
      else case bidStateNameOf state of None \<Rightarrow> False | Some s \<Rightarrow> SCRIPTLESS_LEG_STAGES s \<noteq> None)"

definition isSwipeOutcome :: "BidStateInput \<Rightarrow> SwapLeg \<Rightarrow> bool" where
  "isSwipeOutcome state leg =
     (let s = stageForBidState state leg in s = StSwiped \<or> s = StSwipedSettling)"

definition shouldSurface :: "BidStateInput \<Rightarrow> bool" where
  "shouldSurface state = bi_surface (bc_info (classifyBidState state UnknownLeg))"

subsection \<open>The tables agree\<close>

lemma set_state_keys [simp]: "s \<in> set state_keys"
  by (cases s) (simp_all add: state_keys_def)

lemma distinct_state_keys: "distinct state_keys"
  by (simp add: state_keys_def)

lemma inj_ids: "BID_STATE_IDS a = BID_STATE_IDS b \<Longrightarrow> a = b"
proof -
  have "distinct (map BID_STATE_IDS state_keys)" by (simp add: state_keys_def)
  then show "BID_STATE_IDS a = BID_STATE_IDS b \<Longrightarrow> a = b"
    using inj_onD [of BID_STATE_IDS "set state_keys" a b] by (simp add: distinct_map)
qed

lemma inj_keys: "state_key a = state_key b \<Longrightarrow> a = b"
proof -
  have "distinct (map state_key state_keys)" by (simp add: state_keys_def)
  then show "state_key a = state_key b \<Longrightarrow> a = b"
    using inj_onD [of state_key "set state_keys" a b] by (simp add: distinct_map)
qed

lemma upper_labels:
  "map (\<lambda>s. to_upper (BID_STATE_WIRE_LABELS s)) state_keys =
    [''SENT'',
     ''RECEIVING'',
     ''RECEIVED'',
     ''RECEIVING ACCEPT'',
     ''ACCEPTED'',
     ''INITIATED'',
     ''PARTICIPATING'',
     ''COMPLETED'',
     ''SCRIPT COIN LOCKED'',
     ''SCRIPT COIN SPEND TX VALID'',
     ''SCRIPTLESS COIN LOCKED'',
     ''SCRIPT COIN LOCK RELEASED'',
     ''SCRIPT TX REDEEMED'',
     ''SCRIPT PRE-REFUND TX IN CHAIN'',
     ''SCRIPTLESS TX REDEEMED'',
     ''SCRIPTLESS TX RECOVERED'',
     ''FAILED, REFUNDED'',
     ''FAILED, SWIPED'',
     ''FAILED'',
     ''DELAYING'',
     ''TIMED-OUT'',
     ''ABANDONED'',
     ''ERROR'',
     ''STALLED (DEBUG)'',
     ''REJECTED'',
     ''UNKNOWN BID STATE'',
     ''EXCHANGED SCRIPT LOCK TX SIGS MSG'',
     ''EXCHANGED SCRIPT LOCK SPEND TX MSG'',
     ''REQUEST SENT'',
     ''REQUEST ACCEPTED'',
     ''EXPIRED'',
     ''AUTO ACCEPT DELAY'',
     ''AUTO ACCEPT FAILED'',
     ''CONNECT REQUEST SENT'',
     ''FAILED, SWIPED, RECOVERED'',
     ''FAILED, SWIPED, RECOVERING'',
     ''FAILED, SWIPED, MERCY UNUSED'',
     ''FAILED, SWIPED, SENDING MERCY'']"
  by (simp add: state_keys_def to_upper_def upper_char_def char_of_def bit_Suc_0_iff)

lemma inj_labels: "to_upper (BID_STATE_WIRE_LABELS a) = to_upper (BID_STATE_WIRE_LABELS b) \<Longrightarrow> a = b"
proof -
  have "distinct (map (\<lambda>s. to_upper (BID_STATE_WIRE_LABELS s)) state_keys)"
    unfolding upper_labels by simp
  then show "to_upper (BID_STATE_WIRE_LABELS a) = to_upper (BID_STATE_WIRE_LABELS b) \<Longrightarrow> a = b"
    using inj_onD [of "\<lambda>s. to_upper (BID_STATE_WIRE_LABELS s)" "set state_keys" a b]
    by (simp add: distinct_map)
qed

lemma keys_are_no_labels: "state_key a \<noteq> to_upper (BID_STATE_WIRE_LABELS b)"
proof -
  have "list_all (\<lambda>k. k \<notin> set (map (\<lambda>s. to_upper (BID_STATE_WIRE_LABELS s)) state_keys)) (map state_key state_keys)"
    unfolding upper_labels by (simp add: state_keys_def)
  then have "state_key a \<notin> set (map (\<lambda>s. to_upper (BID_STATE_WIRE_LABELS s)) state_keys)"
    by (simp only: list_all_iff set_map ball_simps(9) set_state_keys ball_UNIV) simp
  then show ?thesis by force
qed

lemma set_all_names [simp]: "s \<in> set ALL_BID_STATE_NAMES"
  by (simp add: ALL_BID_STATE_NAMES_def)

lemma map_of_foldl_set:
  assumes "\<And>a b. f a = f b \<Longrightarrow> a = b"
  shows "map_of (foldl (\<lambda>out s. js_set (f s) s out) [] xs) k = Some s \<longleftrightarrow> s \<in> set xs \<and> f s = k"
proof (induction xs rule: rev_induct)
  case (snoc x xs)
  then show ?case using assms by (auto simp: map_of_js_set)
qed simp

lemma ID_TO_NAME_iff: "map_of ID_TO_NAME n = Some s \<longleftrightarrow> BID_STATE_IDS s = n"
  unfolding ID_TO_NAME_def by (subst map_of_foldl_set) (auto dest: inj_ids)

lemma WIRE_LABEL_iff: "map_of WIRE_LABEL_TO_NAME u = Some s \<longleftrightarrow> to_upper (BID_STATE_WIRE_LABELS s) = u"
  unfolding WIRE_LABEL_TO_NAME_def by (subst map_of_foldl_set) (auto dest: inj_labels)

lemma state_of_key_iff: "state_of_key u = Some s \<longleftrightarrow> state_key s = u"
proof
  assume "state_of_key u = Some s"
  then show "state_key s = u" unfolding state_of_key_def by (auto dest: find_SomeD)
next
  assume k: "state_key s = u"
  then have "state_of_key u \<noteq> None" unfolding state_of_key_def find_None_iff by (auto intro: set_state_keys)
  then obtain t where t: "state_of_key u = Some t" by blast
  then have "state_key t = u" unfolding state_of_key_def by (auto dest: find_SomeD)
  then show "state_of_key u = Some s" using t k inj_keys by simp
qed

text \<open>States are ordered by the number upstream gives them, so that the library's order on lists
  and sets applies to them.\<close>

instantiation BidStateName :: linorder
begin

definition less_eq_BidStateName :: "BidStateName \<Rightarrow> BidStateName \<Rightarrow> bool" where
  "less_eq_BidStateName a b = (BID_STATE_IDS a \<le> BID_STATE_IDS b)"

definition less_BidStateName :: "BidStateName \<Rightarrow> BidStateName \<Rightarrow> bool" where
  "less_BidStateName a b = (BID_STATE_IDS a < BID_STATE_IDS b)"

instance
  by standard (auto simp: less_eq_BidStateName_def less_BidStateName_def dest: inj_ids)

end

lemma all_names_sorted: "sorted ALL_BID_STATE_NAMES"
  by (simp add: ALL_BID_STATE_NAMES_def state_keys_def sort_by_def less_eq_BidStateName_def)

subsection \<open>Classification is complete and the leg changes only the wording\<close>

lemma digit_upper: "is_digit c \<Longrightarrow> upper_char c = c"
  by (auto simp: is_digit_def upper_char_def Let_def)

lemma digits_upper: "list_all is_digit t \<Longrightarrow> to_upper t = t"
  by (induction t) (auto simp: to_upper_def digit_upper)

lemma keys_not_digits: "\<not> list_all is_digit (state_key s)"
  by (cases s) (simp_all add: is_digit_def)

lemma labels_not_digits: "\<not> list_all is_digit (to_upper (BID_STATE_WIRE_LABELS s))"
proof -
  have "list_all (\<lambda>u. \<not> list_all is_digit u) (map (\<lambda>s. to_upper (BID_STATE_WIRE_LABELS s)) state_keys)"
    unfolding upper_labels by (simp add: is_digit_def)
  then show ?thesis by (simp add: list_all_iff)
qed

text \<open>\<open>bidStateNameOf\<close> recognises each state in exactly the forms the endpoints use: its
  number, the number in decimal digits, its name or its wire label in any case and with spaces
  around it; and nothing else is taken for a state.\<close>

theorem bidStateNameOf_exact:
  "bidStateNameOf x = Some s \<longleftrightarrow>
     (case x of
        SNone \<Rightarrow> False
      | SNum r \<Rightarrow> r = of_nat (BID_STATE_IDS s)
      | SStr t \<Rightarrow>
          js_trim t \<noteq> [] \<and> list_all is_digit (js_trim t) \<and> str_nat (js_trim t) = BID_STATE_IDS s \<or>
          to_upper (js_trim t) = state_key s \<or>
          to_upper (js_trim t) = to_upper (BID_STATE_WIRE_LABELS s))"
proof (cases x)
  case (SNum r)
  have "is_integer r \<and> 0 \<le> r \<and> BID_STATE_IDS s = nat \<lfloor>r\<rfloor> \<longleftrightarrow> r = of_nat (BID_STATE_IDS s)"
  proof
    assume a: "is_integer r \<and> 0 \<le> r \<and> BID_STATE_IDS s = nat \<lfloor>r\<rfloor>"
    then have "int (BID_STATE_IDS s) = \<lfloor>r\<rfloor>" by simp
    then show "r = of_nat (BID_STATE_IDS s)" using a unfolding is_integer_def by (metis of_int_of_nat_eq)
  next
    assume "r = of_nat (BID_STATE_IDS s)"
    then show "is_integer r \<and> 0 \<le> r \<and> BID_STATE_IDS s = nat \<lfloor>r\<rfloor>" by (simp add: is_integer_def)
  qed
  then show ?thesis using SNum by (auto simp: bidStateNameOf_def ID_TO_NAME_iff)
next
  case (SStr t)
  let ?u = "to_upper (js_trim t)"
  consider (empty) "js_trim t = []" | (digits) "js_trim t \<noteq> []" "list_all is_digit (js_trim t)"
    | (key) k where "js_trim t \<noteq> []" "\<not> list_all is_digit (js_trim t)" "state_of_key ?u = Some k"
    | (label) "js_trim t \<noteq> []" "\<not> list_all is_digit (js_trim t)" "state_of_key ?u = None" by blast
  then show ?thesis
  proof cases
    case empty
    then show ?thesis using SStr keys_not_digits [of s] labels_not_digits [of s]
      by (auto simp: bidStateNameOf_def to_upper_def)
  next
    case digits
    then have "?u = js_trim t" by (simp add: digits_upper)
    then show ?thesis using SStr digits keys_not_digits [of s] labels_not_digits [of s]
      by (auto simp: bidStateNameOf_def ID_TO_NAME_iff)
  next
    case key
    then have k: "state_key k = ?u" by (simp add: state_of_key_iff)
    then show ?thesis using SStr key inj_keys [of k s] keys_are_no_labels [of k s]
      by (auto simp: bidStateNameOf_def Let_def)
  next
    case label
    then have "state_key s \<noteq> ?u" by (metis state_of_key_iff option.distinct(1))
    then show ?thesis using SStr label by (auto simp: bidStateNameOf_def Let_def WIRE_LABEL_iff)
  qed
qed (simp add: bidStateNameOf_def)

text \<open>The leg of the swap changes how a state is told and nothing else: whichever leg, a state
  is final, shown and identified exactly as without it, so a caller that polls until the state
  is final stops at the same moment on both sides.\<close>

theorem leg_changes_wording_only:
  "bi_terminal (bc_info (classifyBidState x leg)) = isTerminal x \<and>
   bi_surface (bc_info (classifyBidState x leg)) = shouldSurface x \<and>
   bc_state (classifyBidState x leg) = bidStateNameOf x \<and>
   bi_stage (bc_info (classifyBidState x leg)) =
     (if leg = Scriptless then stageForBidState x Scriptless else stageForBidState x UnknownLeg)"
proof (cases "bidStateNameOf x")
  case (Some s)
  then show ?thesis
    by (cases s; cases leg) (simp_all add: classifyBidState_def isTerminal_def shouldSurface_def
        stageForBidState_def SCRIPTLESS_LEG_STAGES_def Let_def coalesce_def)
qed (cases leg; simp add: classifyBidState_def isTerminal_def shouldSurface_def stageForBidState_def)

text \<open>A refund or a swipe is an ordinary outcome: it is never shown as something that needs
  attention, no state is both, and only the side that holds the scriptless leg is told it was
  paid by a swipe.\<close>

theorem timelock_outcomes_are_normal:
  assumes "isRefundOutcome x leg \<or> isSwipeOutcome x leg"
  shows "bi_severity (bc_info (classifyBidState x leg)) = Normal \<and>
    isRefundOutcome x leg = (\<not> isSwipeOutcome x leg) \<and>
    (\<not> isRefundOutcome x leg \<longrightarrow> leg = Scriptless) \<and> bidStateNameOf x \<noteq> None"
proof (cases "bidStateNameOf x")
  case (Some s)
  then show ?thesis using assms
    by (cases s; cases leg) (simp_all add: classifyBidState_def isRefundOutcome_def isSwipeOutcome_def
        stageForBidState_def SCRIPTLESS_LEG_STAGES_def Let_def coalesce_def)
next
  case None
  then show ?thesis using assms
    by (simp add: classifyBidState_def isRefundOutcome_def isSwipeOutcome_def stageForBidState_def)
qed

theorem timelock_outcomes_are_normal_witness:
  "bi_severity (bc_info (classifyBidState (SNum 18) Scriptless)) = Normal"
proof -
  have "bidStateNameOf (SNum 18) = Some XMR_SWAP_FAILED_SWIPED"
    by (simp add: bidStateNameOf_def is_integer_def ID_TO_NAME_iff)
  then have "isSwipeOutcome (SNum 18) Scriptless"
    by (simp add: isSwipeOutcome_def stageForBidState_def classifyBidState_def SCRIPTLESS_LEG_STAGES_def Let_def coalesce_def)
  then show ?thesis using timelock_outcomes_are_normal by blast
qed
end
