(* ===== verification/ActiveSwaps.thy ===== *)
theory ActiveSwaps
  imports BidStates Json
begin

section \<open>Swaps in progress: activeSwaps.ts and sharedCoinSendGuard.ts\<close>

text \<open>
  \<open>mergeActiveSwaps\<close> joins the swaps the app tracks with the node's list;
  \<open>checkSharedCoinSend\<close> refuses to send a coin that a swap in progress may need. Both read what
  the node answers. A reply the node did not give in time, or not at all, is a constructor of
  \<open>engine_reply\<close>; the two requests race a timer as one step.
\<close>

subsection \<open>activeSwapToTracked and mergeActiveSwaps\<close>

record BasicSwapActiveSwap =
  a_bid_id :: string
  a_offer_id :: string
  a_created_at :: int
  a_bid_state :: string
  a_coin_from :: string
  a_coin_to :: string
  a_amount_from :: "string option"
  a_amount_to :: "string option"
  a_addr_from :: "string option"
  a_was_sent :: "bool option"

record SidecarTrackedSwap =
  bidId :: string
  offerId :: string
  sendCoin :: string
  receiveCoin :: string
  sendAmount :: string
  receiveAmount :: string
  createdAt :: int
  payoutAddress :: "string option"
  makerAddress :: "string option"
  retryOf :: "string option"
  detail :: "json option"
  stage :: BidStateClassification
  lastPolledAt :: "int option"
  poll_error :: "string option"

definition activeSwapToTracked :: "BasicSwapActiveSwap \<Rightarrow> SidecarTrackedSwap" where
  "activeSwapToTracked row =
     (let sent = (a_was_sent row = Some True);
          maker = (if a_was_sent row = Some True then js_trim (coalesce (a_addr_from row) []) else [])
      in \<lparr>bidId = a_bid_id row, offerId = a_offer_id row,
          sendCoin = (if sent then a_coin_to row else a_coin_from row),
          receiveCoin = (if sent then a_coin_from row else a_coin_to row),
          sendAmount = coalesce (if sent then a_amount_to row else a_amount_from row) [],
          receiveAmount = coalesce (if sent then a_amount_from row else a_amount_to row) [],
          createdAt = a_created_at row, payoutAddress = None,
          makerAddress = (if maker \<noteq> [] then Some maker else None), retryOf = None,
          detail = None, stage = classifyBidState (SStr (a_bid_state row)) UnknownLeg,
          lastPolledAt = None, poll_error = None\<rparr>)"

type_synonym swaps_by_id = "(string \<times> SidecarTrackedSwap) list"

definition by_id :: "SidecarTrackedSwap list \<Rightarrow> swaps_by_id" where
  "by_id local = foldl (\<lambda>m s. js_set (bidId s) s m) [] local"

text \<open>One round of the loop over the node's list.\<close>

definition merge_step ::
    "swaps_by_id \<times> SidecarTrackedSwap list \<Rightarrow> SidecarTrackedSwap \<Rightarrow> swaps_by_id \<times> SidecarTrackedSwap list" where
  "merge_step st node =
     (let (byId, added) = st
      in case map_of byId (bidId node) of
           None \<Rightarrow> (byId, added @ [node])
         | Some mine \<Rightarrow>
             if lastPolledAt mine = None \<and> detail mine = None
             then (js_set (bidId node) (mine\<lparr>stage := stage node\<rparr>) byId, added)
             else (byId, added))"

definition mergeActiveSwaps ::
    "SidecarTrackedSwap list \<Rightarrow> SidecarTrackedSwap list \<Rightarrow> SidecarTrackedSwap list" where
  "mergeActiveSwaps local fromNode =
     (let nodeIds = set (map bidId fromNode);
          (byId, added) = foldl merge_step (by_id local, []) fromNode;
          kept = filter (\<lambda>s. \<not> (bi_terminal (bc_info (stage s)) \<and> bidId s \<notin> nodeIds))
                   (map (\<lambda>s. coalesce (map_of byId (bidId s)) s) local)
      in added @ kept)"

subsection \<open>Refusing a send while a swap may need the coin\<close>

definition SHARED_SEND_ENGINE_COIN :: "(string \<times> string) list" where
  "SHARED_SEND_ENGINE_COIN =
     [(''BTC'', ''bitcoin''), (''LTC'', ''litecoin''), (''BCH'', ''bitcoincash'')]"

definition SHARED_COIN_CHAINS :: "(string \<times> string) list" where
  "SHARED_COIN_CHAINS =
     [(''BTC'', ''bitcoin''), (''LTC'', ''litecoin''), (''BCH'', ''bitcoin-cash'')]"

definition sharedSendCoinFor :: "string \<Rightarrow> (string \<times> string) option" where
  "sharedSendCoinFor chn =
     (case List.find (\<lambda>(_, c). c = chn) SHARED_COIN_CHAINS of
        None \<Rightarrow> None
      | Some (ticker, _) \<Rightarrow> map_option (Pair ticker) (keep_truthy (map_of SHARED_SEND_ENGINE_COIN ticker)))"

definition is_alnum :: "char \<Rightarrow> bool" where
  "is_alnum c = (let n = of_char c :: nat
     in 65 \<le> n \<and> n \<le> 90 \<or> 97 \<le> n \<and> n \<le> 122 \<or> 48 \<le> n \<and> n \<le> 57)"

definition normalizeCoinLabel :: "string \<Rightarrow> string" where
  "normalizeCoinLabel s = to_lower (filter is_alnum s)"

definition bidCoinMatches :: "string \<Rightarrow> string \<Rightarrow> bool" where
  "bidCoinMatches lbl engineCoin =
     (let n = normalizeCoinLabel lbl
      in if n = engineCoin then True
         else engineCoin = ''litecoin'' \<and> n = ''litecoinmweb'' \<or>
              engineCoin = ''particl'' \<and> (n = ''particlblind'' \<or> n = ''particlanon''))"

definition row_touches :: "string \<Rightarrow> json \<Rightarrow> bool" where
  "row_touches engineCoin row =
     list_ex (\<lambda>leg. case jstr leg of None \<Rightarrow> False | Some s \<Rightarrow> bidCoinMatches s engineCoin)
       [jget row ''coin_from'', jget row ''coin_to'']"

text \<open>The inner loop: the ids seen and the matches counted so far.\<close>

definition count_row :: "string \<Rightarrow> string list \<times> nat \<Rightarrow> json \<Rightarrow> string list \<times> nat" where
  "count_row engineCoin st row =
     (let (seen, matching) = st
      in if \<not> jtruthy row \<or> \<not> jobject row then st
         else let i = keep_truthy (jstr (jget row ''bid_id''))
              in if i \<noteq> None \<and> the i \<in> set seen then st
                 else ((case i of None \<Rightarrow> seen | Some b \<Rightarrow> b # seen),
                       if row_touches engineCoin row then matching + 1 else matching))"

fun count_replies :: "string \<Rightarrow> string list \<times> nat \<Rightarrow> json list \<Rightarrow> nat option" where
  "count_replies engineCoin st [] = Some (snd st)"
| "count_replies engineCoin st (reply # replies) =
     (case jarr reply of
        None \<Rightarrow> None
      | Some rows \<Rightarrow> count_replies engineCoin (foldl (count_row engineCoin) st rows) replies)"

definition countInFlightBidsForCoin :: "json list \<Rightarrow> string \<Rightarrow> nat option" where
  "countInFlightBidsForCoin replies engineCoin = count_replies engineCoin ([], 0) replies"

definition sharedSendRefusal :: "string \<Rightarrow> nat option \<Rightarrow> string option" where
  "sharedSendRefusal ticker inFlight =
     (case inFlight of
        None \<Rightarrow> None
      | Some n \<Rightarrow>
          if n = 0 then None
          else Some (''Pwnda Grove has '' @ nat_str n @ '' swap'' @ (if n = 1 then [] else ''s'') @
                 '' in progress that use'' @ (if n = 1 then ''s'' else []) @ '' '' @ ticker @
                 '', and may need these coins to fund '' @ (if n = 1 then ''it'' else ''them'') @
                 ''. Nothing was sent '' @ [CHR 0x97] @
                 '' let the swap finish (or cancel it), then send again.''))"

datatype engine_reply = Answered json json | Rejected | TimedOut

definition inFlightBidsForCoin :: "string \<Rightarrow> engine_reply \<Rightarrow> nat option" where
  "inFlightBidsForCoin engineCoin reply =
     (case reply of
        Answered bids sent \<Rightarrow> countInFlightBidsForCoin [bids, sent] engineCoin
      | _ \<Rightarrow> None)"

definition checkSharedCoinSend :: "string \<Rightarrow> engine_reply \<Rightarrow> string option" where
  "checkSharedCoinSend chn reply =
     (case sharedSendCoinFor chn of
        None \<Rightarrow> None
      | Some (ticker, engineCoin) \<Rightarrow> sharedSendRefusal ticker (inFlightBidsForCoin engineCoin reply))"

subsection \<open>Merging\<close>

lemma map_of_by_id: "map_of (by_id local) i = List.find (\<lambda>s. bidId s = i) (rev local)"
proof (induction local rule: rev_induct)
  case (snoc s local)
  then show ?case by (auto simp: by_id_def map_of_js_set)
qed (simp add: by_id_def)

text \<open>Polled swaps keep everything; the others may take the node's stage.\<close>

definition refreshed :: "SidecarTrackedSwap list \<Rightarrow> SidecarTrackedSwap \<Rightarrow> SidecarTrackedSwap \<Rightarrow> bool" where
  "refreshed fromNode s s' =
     (s' = s \<or> lastPolledAt s = None \<and> detail s = None \<and>
        (\<exists>n \<in> set fromNode. bidId n = bidId s \<and> s' = s\<lparr>stage := stage n\<rparr>))"

lemma merge_steps:
  assumes "foldl merge_step (m0, []) ns = (m, added)"
  shows "added = filter (\<lambda>n. map_of m0 (bidId n) = None) ns \<and>
    (\<forall>i. (map_of m i = None) = (map_of m0 i = None)) \<and>
    (\<forall>i s. map_of m0 i = Some s \<longrightarrow> bidId s = i \<longrightarrow> (\<exists>s'. map_of m i = Some s' \<and> refreshed ns s s'))"
  using assms
proof (induction ns arbitrary: m added rule: rev_induct)
  case Nil
  then show ?case by (auto simp: refreshed_def)
next
  case (snoc n ns)
  obtain m1 a1 where 1: "foldl merge_step (m0, []) ns = (m1, a1)"
    by (cases "foldl merge_step (m0, []) ns")
  then have s: "merge_step (m1, a1) n = (m, added)" using snoc.prems by simp
  note ih = snoc.IH [OF 1]
  show ?case
  proof (cases "map_of m1 (bidId n)")
    case None
    then have "m = m1" "added = a1 @ [n]" using s by (auto simp: merge_step_def)
    then show ?thesis using ih None by (fastforce simp: refreshed_def)
  next
    case (Some mine)
    then have n0: "map_of m0 (bidId n) \<noteq> None" using ih by (metis option.distinct(1))
    have mono: "refreshed ns s s' \<Longrightarrow> refreshed (ns @ [n]) s s'" for s s'
      by (auto simp: refreshed_def)
    show ?thesis
    proof (cases "lastPolledAt mine = None \<and> detail mine = None")
      case True
      then have m: "m = js_set (bidId n) (mine\<lparr>stage := stage n\<rparr>) m1" "added = a1"
        using s Some by (auto simp: merge_step_def)
      have "refreshed (ns @ [n]) s' (mine\<lparr>stage := stage n\<rparr>)"
        if "map_of m0 (bidId n) = Some s'" "bidId s' = bidId n" for s'
      proof -
        have "refreshed ns s' mine" using ih that Some by (metis option.inject)
        then have "mine = s' \<or> (\<exists>k. mine = s'\<lparr>stage := k\<rparr>)" by (auto simp: refreshed_def)
        then have "mine\<lparr>stage := stage n\<rparr> = s'\<lparr>stage := stage n\<rparr>" "lastPolledAt s' = None" "detail s' = None"
          using True by auto
        then show ?thesis using that(2) by (auto simp: refreshed_def)
      qed
      then show ?thesis using ih mono n0 m Some by (auto simp: map_of_js_set)
    next
      case False
      then have "m = m1" "added = a1" using s Some by (auto simp: merge_step_def)
      then show ?thesis using ih mono n0 by fastforce
    qed
  qed
qed

definition final :: "SidecarTrackedSwap \<Rightarrow> bool" where
  "final s = bi_terminal (bc_info (stage s))"

lemma merge_unfold:
  assumes "foldl merge_step (by_id local, []) fromNode = (m, added)"
  shows "mergeActiveSwaps local fromNode =
    filter (\<lambda>n. map_of (by_id local) (bidId n) = None) fromNode @
    filter (\<lambda>s. \<not> (final s \<and> bidId s \<notin> set (map bidId fromNode)))
      (map (\<lambda>s. coalesce (map_of m (bidId s)) s) local)"
  using merge_steps [OF assms] assms by (simp add: mergeActiveSwaps_def final_def Let_def)

lemma local_refreshed:
  assumes "foldl merge_step (by_id local, []) fromNode = (m, added)"
    and "distinct (map bidId local)" "s \<in> set local"
  shows "\<exists>s'. map_of m (bidId s) = Some s' \<and> refreshed fromNode s s' \<and> bidId s' = bidId s"
proof -
  have "List.find (\<lambda>x. bidId x = bidId s) (rev local) = Some s"
    by (rule find_unique) (use assms(2,3) in \<open>auto simp: distinct_map inj_on_def\<close>)
  then obtain s' where "map_of m (bidId s) = Some s'" "refreshed fromNode s s'"
    using merge_steps [OF assms(1)] by (auto simp: map_of_by_id)
  then show ?thesis by (auto simp: refreshed_def)
qed

lemma not_listed:
  "refreshed fromNode s s' \<Longrightarrow> bidId s \<notin> set (map bidId fromNode) \<Longrightarrow> s' = s"
  unfolding refreshed_def by (metis image_eqI set_map)

text \<open>The merged list is the new swaps of the node in front of the local ones, each refreshed, that are kept.\<close>

definition kept :: "SidecarTrackedSwap list \<Rightarrow> SidecarTrackedSwap \<Rightarrow> bool" where
  "kept fromNode s \<longleftrightarrow> \<not> (final s \<and> bidId s \<notin> set (map bidId fromNode))"

lemma merge_split:
  assumes d: "distinct (map bidId local)"
  obtains up where
    "mergeActiveSwaps local fromNode =
       filter (\<lambda>n. bidId n \<notin> bidId ` set local) fromNode @ filter (kept fromNode) (map up local)"
    "\<And>s. s \<in> set local \<Longrightarrow> refreshed fromNode s (up s) \<and> bidId (up s) = bidId s"
    "\<And>s. s \<in> set local \<Longrightarrow> kept fromNode (up s) \<longleftrightarrow> \<not> final s \<or> bidId s \<in> set (map bidId fromNode)"
proof -
  obtain m added where st: "foldl merge_step (by_id local, []) fromNode = (m, added)"
    by (cases "foldl merge_step (by_id local, []) fromNode")
  let ?up = "\<lambda>s. coalesce (map_of m (bidId s)) s"
  have none: "map_of (by_id local) i = None \<longleftrightarrow> i \<notin> bidId ` set local" for i
    by (auto simp: map_of_by_id find_None_iff)
  have un: "mergeActiveSwaps local fromNode =
      filter (\<lambda>n. bidId n \<notin> bidId ` set local) fromNode @ filter (kept fromNode) (map ?up local)"
    using merge_unfold [OF st] by (simp add: none kept_def [abs_def])
  have up: "refreshed fromNode s (?up s)" "bidId (?up s) = bidId s" if "s \<in> set local" for s
    using local_refreshed [OF st d that] by auto
  have "kept fromNode (?up s) \<longleftrightarrow> \<not> final s \<or> bidId s \<in> set (map bidId fromNode)" if "s \<in> set local" for s
  proof (cases "bidId s \<in> set (map bidId fromNode)")
    case False
    then have "?up s = s" using up [OF that] by (intro not_listed)
    then show ?thesis using False by (simp add: kept_def)
  qed (use up [OF that] in \<open>simp add: kept_def\<close>)
  then show ?thesis using that [of ?up] un up by blast
qed

text \<open>Merging the node's list keeps one row per swap, drops exactly the finished swaps the node
  no longer lists, and never overwrites what the app knows: a swap that was polled is kept as it
  is, any other changes its stage at most.\<close>

theorem merge_active_swaps:
  assumes d: "distinct (map bidId local)" "distinct (map bidId fromNode)"
  shows "distinct (map bidId (mergeActiveSwaps local fromNode)) \<and>
    bidId ` set (mergeActiveSwaps local fromNode) =
      bidId ` set fromNode \<union> bidId ` {s \<in> set local. \<not> final s} \<and>
    (\<forall>s \<in> set local. \<forall>s' \<in> set (mergeActiveSwaps local fromNode).
       bidId s' = bidId s \<longrightarrow> refreshed fromNode s s')"
proof -
  obtain up where un: "mergeActiveSwaps local fromNode =
        filter (\<lambda>n. bidId n \<notin> bidId ` set local) fromNode @ filter (kept fromNode) (map up local)"
      and up: "\<And>s. s \<in> set local \<Longrightarrow> refreshed fromNode s (up s) \<and> bidId (up s) = bidId s"
      and keep: "\<And>s. s \<in> set local \<Longrightarrow> kept fromNode (up s) \<longleftrightarrow> \<not> final s \<or> bidId s \<in> set (map bidId fromNode)"
    using merge_split [OF d(1)] by metis
  let ?new = "filter (\<lambda>n. bidId n \<notin> bidId ` set local) fromNode" and ?old = "filter (kept fromNode) (map up local)"
  have ids: "map bidId (map up local) = map bidId local" using up by simp
  have "distinct (map bidId ?old)"
    by (rule distinct_map_filter) (simp only: ids d(1))
  moreover have "distinct (map bidId ?new)" using d(2) by (rule distinct_map_filter)
  moreover have "bidId ` set ?old \<subseteq> bidId ` set local" using up by auto
  ultimately have 1: "distinct (map bidId (mergeActiveSwaps local fromNode))" by (auto simp: un)
  have "set ?old = up ` {s \<in> set local. \<not> final s \<or> bidId s \<in> set (map bidId fromNode)}"
    using keep by auto
  then have "bidId ` set ?old = bidId ` {s \<in> set local. \<not> final s \<or> bidId s \<in> set (map bidId fromNode)}"
    using up by (force simp: image_iff)
  moreover have "bidId ` set ?new = bidId ` set fromNode - bidId ` set local" by auto
  ultimately have 2: "bidId ` set (mergeActiveSwaps local fromNode) =
      bidId ` set fromNode \<union> bidId ` {s \<in> set local. \<not> final s}"
    unfolding un set_append image_Un by auto
  have 3: "refreshed fromNode s s'"
    if s: "s \<in> set local" and s': "s' \<in> set (mergeActiveSwaps local fromNode)" "bidId s' = bidId s" for s s'
  proof -
    have "s' \<notin> set ?new" using s s'(2) by force
    then obtain t where t: "t \<in> set local" "s' = up t" using s'(1) un by auto
    then have "bidId t = bidId s" using up s'(2) by simp
    then have "t = s" using d(1) t(1) s by (auto simp: distinct_map inj_on_def)
    then show ?thesis using up s t by simp
  qed
  show ?thesis using 1 2 3 by blast
qed

subsection \<open>The send guard\<close>

text \<open>What a reply means: the rows of both lists, each id once.\<close>

definition listed_rows :: "json list \<Rightarrow> json list option" where
  "listed_rows replies =
     (if \<exists>r \<in> set replies. jarr r = None then None
      else Some (concat (map (\<lambda>r. the (jarr r)) replies)))"

definition same_bid :: "json \<Rightarrow> json \<Rightarrow> bool" where
  "same_bid a b = (keep_truthy (jstr (jget a ''bid_id'')) = keep_truthy (jstr (jget b ''bid_id'')) \<and>
     keep_truthy (jstr (jget a ''bid_id'')) \<noteq> None)"

lemma count_replies_rows:
  "count_replies c st replies = map_option (\<lambda>rows. snd (foldl (count_row c) st rows)) (listed_rows replies)"
proof (induction replies arbitrary: st)
  case (Cons r rs)
  then show ?case by (cases "jarr r") (auto simp: listed_rows_def)
qed (simp add: listed_rows_def)

lemma count_positive:
  assumes "\<And>a b. a \<in> set rows \<Longrightarrow> b \<in> set rows \<Longrightarrow> same_bid a b \<Longrightarrow> row_touches c a = row_touches c b"
  shows "0 < snd (foldl (count_row c) (seen, n) rows) \<longleftrightarrow>
    0 < n \<or> (\<exists>r \<in> set rows. jtruthy r \<and> jobject r \<and> row_touches c r \<and>
      (case keep_truthy (jstr (jget r ''bid_id'')) of None \<Rightarrow> True | Some i \<Rightarrow> i \<notin> set seen))"
  using assms
proof (induction rows arbitrary: seen n)
  case (Cons r rows)
  have al: "\<And>a b. a \<in> set rows \<Longrightarrow> b \<in> set rows \<Longrightarrow> same_bid a b \<Longrightarrow> row_touches c a = row_touches c b"
    using Cons.prems by simp
  note ih = Cons.IH [OF al]
  consider (skip) "count_row c (seen, n) r = (seen, n)"
        "\<not> (jtruthy r \<and> jobject r) \<or> (\<exists>i \<in> set seen. keep_truthy (jstr (jget r ''bid_id'')) = Some i)"
    | (anon) "jtruthy r" "jobject r" "keep_truthy (jstr (jget r ''bid_id'')) = None"
        "count_row c (seen, n) r = (seen, if row_touches c r then n + 1 else n)"
    | (new) i where "jtruthy r" "jobject r" "keep_truthy (jstr (jget r ''bid_id'')) = Some i" "i \<notin> set seen"
        "count_row c (seen, n) r = (i # seen, if row_touches c r then n + 1 else n)"
  proof (cases "jtruthy r \<and> jobject r")
    case True
    show thesis
    proof (cases "keep_truthy (jstr (jget r ''bid_id''))")
      case None
      then show thesis using True by (intro anon) (simp_all add: count_row_def)
    next
      case (Some i)
      then show thesis using True by (cases "i \<in> set seen") (simp_all add: skip new count_row_def)
    qed
  qed (simp add: skip count_row_def)
  then show ?case
  proof cases
    case skip
    then show ?thesis using ih [of seen n] by auto
  next
    case anon
    then show ?thesis using ih [of seen "if row_touches c r then n + 1 else n"] by auto
  next
    case new
    have "row_touches c x = row_touches c r"
      if "x \<in> set rows" "keep_truthy (jstr (jget x ''bid_id'')) = Some i" for x
      using Cons.prems [of x r] that new by (simp add: same_bid_def)
    then show ?thesis
      using new ih [of "i # seen" "if row_touches c r then n + 1 else n"] by (auto split: option.splits)
  qed
qed simp

text \<open>A send of a shared coin is refused exactly when the engine answered with two lists and
  some row of them is a swap of that coin; a coin the engine does not hold, an error object and
  an engine that does not answer never block a send. (Rows with one id are one swap and name the
  same coins.)\<close>

theorem send_refused_iff:
  assumes "\<And>bids sent rows a b. reply = Answered bids sent \<Longrightarrow> listed_rows [bids, sent] = Some rows \<Longrightarrow>
      a \<in> set rows \<Longrightarrow> b \<in> set rows \<Longrightarrow> same_bid a b \<Longrightarrow>
      jget a ''coin_from'' = jget b ''coin_from'' \<and> jget a ''coin_to'' = jget b ''coin_to''"
  shows "checkSharedCoinSend chn reply \<noteq> None \<longleftrightarrow>
    (\<exists>ticker coin bids sent rows r. sharedSendCoinFor chn = Some (ticker, coin) \<and>
       reply = Answered bids sent \<and> listed_rows [bids, sent] = Some rows \<and>
       r \<in> set rows \<and> jtruthy r \<and> jobject r \<and> row_touches coin r)"
proof (cases "sharedSendCoinFor chn")
  case None
  then show ?thesis by (simp add: checkSharedCoinSend_def)
next
  case (Some tc)
  obtain ticker coin where tc: "tc = (ticker, coin)" by (cases tc)
  show ?thesis
  proof (cases reply)
    case (Answered bids sent)
    show ?thesis
    proof (cases "listed_rows [bids, sent]")
      case None
      then show ?thesis using Some tc Answered
        by (simp add: checkSharedCoinSend_def inFlightBidsForCoin_def countInFlightBidsForCoin_def
            count_replies_rows sharedSendRefusal_def)
    next
      case (Some rows)
      have "row_touches coin a = row_touches coin b" if "a \<in> set rows" "b \<in> set rows" "same_bid a b" for a b
        using assms [OF Answered Some that] by (simp add: row_touches_def)
      note pos = count_positive [OF this, of rows "[]" 0]
      have "checkSharedCoinSend chn reply \<noteq> None \<longleftrightarrow> 0 < snd (foldl (count_row coin) ([], 0) rows)"
        using \<open>sharedSendCoinFor chn = Some tc\<close> tc Answered Some
        by (simp add: checkSharedCoinSend_def inFlightBidsForCoin_def countInFlightBidsForCoin_def
            count_replies_rows sharedSendRefusal_def)
      then show ?thesis
        using pos \<open>sharedSendCoinFor chn = Some tc\<close> tc Answered Some by (auto split: option.splits)
    qed
  qed (use Some tc in \<open>simp_all add: checkSharedCoinSend_def inFlightBidsForCoin_def sharedSendRefusal_def\<close>)
qed

definition demo_swap :: "string \<Rightarrow> nat \<Rightarrow> SidecarTrackedSwap" where
  "demo_swap i st =
     \<lparr>bidId = i, offerId = ''o'', sendCoin = ''BTC'', receiveCoin = ''XMR'', sendAmount = ''1'',
      receiveAmount = ''2'', createdAt = 0, payoutAddress = None, makerAddress = None, retryOf = None,
      detail = None, stage = classifyBidState (SNum (of_nat st)) UnknownLeg, lastPolledAt = None,
      poll_error = None\<rparr>"

theorem merge_active_swaps_witness:
  "distinct (map bidId (mergeActiveSwaps [demo_swap ''a'' 8, demo_swap ''b'' 9] [demo_swap ''b'' 12, demo_swap ''c'' 5]))"
  using merge_active_swaps [of "[demo_swap ''a'' 8, demo_swap ''b'' 9]" "[demo_swap ''b'' 12, demo_swap ''c'' 5]"]
  by (simp add: demo_swap_def)

theorem send_refused_iff_witness:
  "checkSharedCoinSend ''bitcoin'' (Answered (JArr [JObj [(''bid_id'', JStr ''x''), (''coin_to'', JStr ''Bitcoin'')]]) (JArr [])) \<noteq> None"
proof -
  let ?row = "JObj [(''bid_id'', JStr ''x''), (''coin_to'', JStr ''Bitcoin'')]"
  have "sharedSendCoinFor ''bitcoin'' = Some (''BTC'', ''bitcoin'')"
    by (simp add: sharedSendCoinFor_def SHARED_COIN_CHAINS_def SHARED_SEND_ENGINE_COIN_def keep_truthy_def)
  moreover have "row_touches ''bitcoin'' ?row"
    by (simp add: row_touches_def bidCoinMatches_def normalizeCoinLabel_def is_alnum_def to_lower_def lower_char_def
        Let_def char_of_def bit_Suc_0_iff)
  moreover have "listed_rows [JArr [?row], JArr []] = Some [?row]" by (simp add: listed_rows_def)
  ultimately show ?thesis
    by (subst send_refused_iff) auto
qed
end
