(* ===== verification/Fees.thy ===== *)
theory Fees
  imports Json "HOL-Library.Word"
begin

section \<open>Fees: btc-rbf-policy.ts and cryptonote-fee.ts\<close>

text \<open>
  The rules half of Bitcoin fee bumping (which replacement the network accepts) and the fee a
  CryptoNote daemon asks for. A JavaScript number is \<open>rat option\<close> where the code checks it
  (None: NaN or infinite) and an integer afterwards; a \<open>bigint\<close> is an \<open>int\<close>.
\<close>

unbundle bit_operations_syntax

subsection \<open>Replace-by-fee\<close>

definition BTC_RBF_SEQUENCE :: int where "BTC_RBF_SEQUENCE = 0xfffffffd"
definition MAX_BIP125_RBF_SEQUENCE :: int where "MAX_BIP125_RBF_SEQUENCE = 0xfffffffd"
definition INCREMENTAL_RELAY_SAT_PER_VB :: int where "INCREMENTAL_RELAY_SAT_PER_VB = 1"

definition signalsRbf :: "rat option list \<Rightarrow> bool" where
  "signalsRbf sequences =
     list_ex (\<lambda>s. case s of None \<Rightarrow> False
       | Some r \<Rightarrow> of_int \<lfloor>r\<rfloor> = r \<and> 0 \<le> r \<and> r \<le> of_int MAX_BIP125_RBF_SEQUENCE) sequences"

datatype BtcSpendKind = P2wpkh | P2sh_p2wpkh | P2pkh

definition varintBytes :: "int \<Rightarrow> int" where
  "varintBytes n = (if n < 0xfd then 1 else if n \<le> 0xffff then 3 else if n \<le> 0xffffffff then 5 else 9)"

definition MAX_SIGNATURE_BYTES :: int where "MAX_SIGNATURE_BYTES = 72"
definition COMPRESSED_PUBKEY_BYTES :: int where "COMPRESSED_PUBKEY_BYTES = 33"
definition P2SH_P2WPKH_SCRIPTSIG_BYTES :: int where "P2SH_P2WPKH_SCRIPTSIG_BYTES = 23"

text \<open>One round of the loop over the inputs: base bytes, witness bytes, whether any is segwit.\<close>

definition add_input :: "int \<times> int \<times> bool \<Rightarrow> BtcSpendKind \<Rightarrow> int \<times> int \<times> bool" where
  "add_input st kind =
     (let (base, witness, segwit) = st;
          scriptSig = (case kind of P2wpkh \<Rightarrow> 0 | P2sh_p2wpkh \<Rightarrow> P2SH_P2WPKH_SCRIPTSIG_BYTES
                       | P2pkh \<Rightarrow> 1 + MAX_SIGNATURE_BYTES + 1 + COMPRESSED_PUBKEY_BYTES);
          base = base + 32 + 4 + varintBytes scriptSig + scriptSig + 4
      in if kind = P2pkh then (base, witness + 1, segwit)
         else (base, witness + 1 + 1 + MAX_SIGNATURE_BYTES + 1 + COMPRESSED_PUBKEY_BYTES, True))"

text \<open>\<open>Math.ceil(weight / 4)\<close>\<close>

definition ceil_quarter :: "int \<Rightarrow> int" where "ceil_quarter w = (w + 3) div 4"

definition signedVsizeUpperBound :: "BtcSpendKind list \<Rightarrow> int list \<Rightarrow> int" where
  "signedVsizeUpperBound inputs outputScriptLengths =
     (let base = 4 + varintBytes (int (length inputs)) + varintBytes (int (length outputScriptLengths)) + 4;
          (base, witness, segwit) = foldl add_input (base, 0, False) inputs;
          base = foldl (\<lambda>b len. b + 8 + varintBytes len + len) base outputScriptLengths;
          weight = base * 4 + (if segwit then 2 + witness else 0)
      in ceil_quarter weight)"

definition minimumReplacementFeeSat :: "int \<Rightarrow> int \<Rightarrow> int \<Rightarrow> int" where
  "minimumReplacementFeeSat originalFeeSat originalVsize replacementVsize =
     (let byRelay = originalFeeSat + INCREMENTAL_RELAY_SAT_PER_VB * replacementVsize;
          byRate = (originalFeeSat * replacementVsize) div originalVsize + 1
      in max byRelay byRate)"

datatype rule_violation = Rule3 | Rule4 | Rule6

definition replacementRuleViolation :: "int \<Rightarrow> int \<Rightarrow> int \<Rightarrow> int \<Rightarrow> rule_violation option" where
  "replacementRuleViolation originalFeeSat originalVsize replacementFeeSat replacementVsize =
     (if \<not> originalFeeSat < replacementFeeSat then Some Rule3
      else let relay = INCREMENTAL_RELAY_SAT_PER_VB * replacementVsize
           in if replacementFeeSat - originalFeeSat < relay then Some Rule4
              else if replacementFeeSat * originalVsize \<le> originalFeeSat * replacementVsize then Some Rule6
              else None)"

record BtcFeeBumpPlan =
  minimumFeeSat :: int
  newFeeSat :: int
  extraFeeSat :: int
  newChangeSat :: int
  atMinimum :: bool

datatype BtcFeeBumpResult =
    Bump BtcFeeBumpPlan
  | Dust int int int int

text \<open>\<open>toFixed(6)\<close> rounds to the nearest millionth, then the fee is rounded up.\<close>

definition feeAt :: "rat \<Rightarrow> int \<Rightarrow> int" where
  "feeAt rate vsize = \<lceil>(of_int (math_round (rate * of_int vsize * 10 ^ 6)) / 10 ^ 6 :: rat)\<rceil>"

definition is_safe_integer :: "rat option \<Rightarrow> bool" where
  "is_safe_integer v = (case v of None \<Rightarrow> False
     | Some r \<Rightarrow> of_int \<lfloor>r\<rfloor> = r \<and> \<bar>r\<bar> \<le> 2 ^ 53 - 1)"

definition plannable :: "bool \<Rightarrow> rat option \<Rightarrow> bool" where
  "plannable isSize v = (is_safe_integer v \<and> 0 \<le> the v \<and> (isSize \<longrightarrow> the v \<noteq> 0))"

datatype plan_error = CannotPlan string

definition int_of :: "rat option \<Rightarrow> int" where "int_of v = \<lfloor>the v\<rfloor>"

definition planBtcFeeBump ::
    "rat option \<Rightarrow> rat option \<Rightarrow> rat option \<Rightarrow> rat option \<Rightarrow> rat option \<Rightarrow> int \<Rightarrow>
     plan_error + BtcFeeBumpResult" where
  "planBtcFeeBump originalFee originalSize replacementSize changeValue targetRate dustSat =
     (if \<not> plannable False originalFee then Inl (CannotPlan ''originalFeeSat'')
      else if \<not> plannable True originalSize then Inl (CannotPlan ''originalVsize'')
      else if \<not> plannable True replacementSize then Inl (CannotPlan ''replacementVsize'')
      else if \<not> plannable False changeValue then Inl (CannotPlan ''changeValueSat'')
      else
        let fee = int_of originalFee; change = int_of changeValue;
            minimum = minimumReplacementFeeSat fee (int_of originalSize) (int_of replacementSize);
            targetFee = (case targetRate of None \<Rightarrow> 0
              | Some rate \<Rightarrow> if 0 < rate then feeAt rate (int_of replacementSize) else 0);
            new = max minimum targetFee;
            extra = new - fee;
            newChange = change - extra
        in Inr (if newChange \<le> dustSat then Dust minimum new extra change
                else Bump \<lparr>minimumFeeSat = minimum, newFeeSat = new, extraFeeSat = extra,
                           newChangeSat = newChange, atMinimum = (targetFee \<le> minimum)\<rparr>))"

subsection \<open>What a replacement has to pay\<close>

lemma byRate_least: "0 < (b :: int) \<Longrightarrow> a div b + 1 \<le> f \<longleftrightarrow> a < f * b"
proof
  assume b: "0 < b" and "a div b + 1 \<le> f"
  then have "(a div b + 1) * b \<le> f * b" by (intro mult_right_mono) auto
  moreover have e: "a = a div b * b + a mod b" by simp
  moreover have "a mod b < b" using b by simp
  ultimately show "a < f * b" unfolding distrib_right by linarith
next
  assume b: "0 < b" and a: "a < f * b"
  show "a div b + 1 \<le> f"
  proof (rule ccontr)
    assume "\<not> a div b + 1 \<le> f"
    then have "f * b \<le> (a div b) * b" using b by (intro mult_right_mono) auto
    then show False using a div_mult_mod_eq [of a b] pos_mod_sign [OF b, of a] by simp
  qed
qed

lemma no_violation_iff:
  assumes "0 < os" "0 < rs"
  shows "replacementRuleViolation f os nf rs = None \<longleftrightarrow> minimumReplacementFeeSat f os rs \<le> nf"
  using byRate_least [OF assms(1), of "f * rs" nf] assms(2)
  by (auto simp: replacementRuleViolation_def minimumReplacementFeeSat_def INCREMENTAL_RELAY_SAT_PER_VB_def
      Let_def)

text \<open>\<open>minimumReplacementFeeSat\<close> is the least fee the network's replacement rules accept: a
  replacement breaks none of rules 3, 4 and 6 of BIP125 exactly when it pays that fee or more.\<close>

theorem minimum_fee_is_least:
  assumes "0 < originalVsize" "0 < replacementVsize"
  shows "replacementRuleViolation fee originalVsize newFee replacementVsize = None \<longleftrightarrow>
    minimumReplacementFeeSat fee originalVsize replacementVsize \<le> newFee"
  using assms by (rule no_violation_iff)

theorem minimum_fee_is_least_witness:
  "replacementRuleViolation 1000 141 1141 141 = None \<longleftrightarrow> minimumReplacementFeeSat 1000 141 141 \<le> 1141"
  by (rule minimum_fee_is_least) simp_all

lemma plannable_pos: "plannable True v \<Longrightarrow> 0 < int_of v" "plannable b v \<Longrightarrow> 0 \<le> int_of v"
  by (auto simp: plannable_def is_safe_integer_def int_of_def le_less split: option.splits)

lemma feeAt_bounds: "rate * of_int n \<le> of_int (feeAt rate n) + 1 / 2000000" "of_int (feeAt rate n) < rate * of_int n + 1 + 1 / 2000000"
proof -
  let ?x = "rate * of_int n * 10 ^ 6"
  have "?x - 1 / 2 \<le> of_int (math_round ?x)" "of_int (math_round ?x) \<le> ?x + 1 / 2"
    unfolding math_round_def by linarith+
  then have "rate * of_int n \<le> of_int (math_round ?x) / 10 ^ 6 + 1 / 2000000"
    "of_int (math_round ?x) / 10 ^ 6 \<le> rate * of_int n + 1 / 2000000" by simp_all
  then show "rate * of_int n \<le> of_int (feeAt rate n) + 1 / 2000000" "of_int (feeAt rate n) < rate * of_int n + 1 + 1 / 2000000"
    unfolding feeAt_def by linarith+
qed

text \<open>C27. A fee bump the wallet plans is one the network accepts, at the rate that was asked for, and one the
  user can afford. Its fee breaks no replacement rule, and its \<open>minimumFeeSat\<close> is the least fee of
  which that is true. It pays the target rate for the replacement's size, to the half millionth of
  a satoshi that \<open>toFixed(6)\<close> may take away, and where it is above the minimum it is because the rate asks
  for it: it is less than a satoshi (and that half millionth) over the rate's price. What is added to the fee
  is taken from the change and nothing else, and the change that is left is above the dust limit.\<close>

theorem planned_bump_is_valid:
  assumes "planBtcFeeBump fee os rs change rate dust = Inr (Bump p)"
  shows "replacementRuleViolation (int_of fee) (int_of os) (newFeeSat p) (int_of rs) = None \<and>
    (\<forall>f. replacementRuleViolation (int_of fee) (int_of os) f (int_of rs) = None \<longleftrightarrow> minimumFeeSat p \<le> f) \<and>
    (\<forall>r. rate = Some r \<and> 0 < r \<longrightarrow> r * of_int (int_of rs) \<le> of_int (newFeeSat p) + 1 / 2000000) \<and>
    (newFeeSat p = minimumFeeSat p \<or>
     (\<exists>r. rate = Some r \<and> 0 < r \<and> of_int (newFeeSat p) < r * of_int (int_of rs) + 1 + 1 / 2000000)) \<and>
    newFeeSat p + newChangeSat p = int_of fee + int_of change \<and>
    extraFeeSat p = newFeeSat p - int_of fee \<and> dust < newChangeSat p \<and>
    minimumFeeSat p \<le> newFeeSat p \<and> newChangeSat p < int_of change"
proof -
  have pl: "plannable True os" "plannable True rs" "plannable False fee"
    using assms by (auto simp: planBtcFeeBump_def Let_def split: if_splits)
  then have pos: "0 < int_of os" "0 < int_of rs" by (simp_all add: plannable_pos)
  let ?min = "minimumReplacementFeeSat (int_of fee) (int_of os) (int_of rs)"
  let ?target = "case rate of None \<Rightarrow> 0 | Some r \<Rightarrow> if 0 < r then feeAt r (int_of rs) else 0"
  have min: "minimumFeeSat p = ?min" and new: "newFeeSat p = max ?min ?target"
    and rest: "newFeeSat p + newChangeSat p = int_of fee + int_of change"
      "extraFeeSat p = newFeeSat p - int_of fee" "dust < newChangeSat p"
    using assms by (auto simp: planBtcFeeBump_def Let_def split: if_splits)
  have least: "int_of fee < ?min" "0 < ?min"
    using pos plannable_pos(2) [OF pl(3)] by (simp_all add: minimumReplacementFeeSat_def INCREMENTAL_RELAY_SAT_PER_VB_def Let_def)
  have "r * of_int (int_of rs) \<le> of_int (newFeeSat p) + 1 / 2000000" if "rate = Some r" "0 < r" for r
  proof -
    have "(of_int (feeAt r (int_of rs)) :: rat) \<le> of_int (newFeeSat p)" using new that by simp
    then show ?thesis using feeAt_bounds(1) [of r "int_of rs"] by linarith
  qed
  moreover have "newFeeSat p = ?min \<or>
      (\<exists>r. rate = Some r \<and> 0 < r \<and> of_int (newFeeSat p) < r * of_int (int_of rs) + 1 + 1 / 2000000)"
    using new least(2) feeAt_bounds(2) [of _ "int_of rs"] by (auto simp: max_def split: option.splits if_splits)
  ultimately show ?thesis using no_violation_iff [OF pos] min new rest least(1) by auto
qed

theorem planned_bump_is_valid_witness:
  "replacementRuleViolation 1000 141 2820 141 = None \<and> (20 :: rat) * 141 \<le> 2820 + 1 / 2000000 \<and>
   (2820 :: int) + 8180 = 1000 + 10000"
proof -
  have "\<lfloor>(5640000001 / 2 :: rat)\<rfloor> = 2820000000" by (rule floor_unique) simp_all
  then have "planBtcFeeBump (Some 1000) (Some 141) (Some 141) (Some 10000) (Some 20) 294 =
      Inr (Bump \<lparr>minimumFeeSat = 1141, newFeeSat = 2820, extraFeeSat = 1820, newChangeSat = 8180,
        atMinimum = False\<rparr>)"
    by (simp add: planBtcFeeBump_def plannable_def is_safe_integer_def int_of_def Let_def feeAt_def math_round_def
        minimumReplacementFeeSat_def INCREMENTAL_RELAY_SAT_PER_VB_def)
  from planned_bump_is_valid [OF this] show ?thesis by (simp add: int_of_def)
qed

subsection \<open>CryptoNote fees\<close>

record DaemonFeeRate =
  perByte :: "int list"
  quantizationMask :: int

datatype fee_error = NoUsableFeeRate | NoUsableRounding

definition positiveSafeInteger :: "json option \<Rightarrow> bool" where
  "positiveSafeInteger v = (is_safe_integer (jnum v) \<and> 0 < the (jnum v))"

definition daemonFeeRateFrom :: "json \<Rightarrow> fee_error + DaemonFeeRate" where
  "daemonFeeRateFrom raw =
     (let fees = coalesce (Option.bind (jget raw ''fees'') jarr) []
      in if fees = [] \<or> \<not> list_all (\<lambda>f. positiveSafeInteger (Some f)) fees then Inl NoUsableFeeRate
         else if \<not> positiveSafeInteger (jget raw ''quantization_mask'') then Inl NoUsableRounding
         else Inr \<lparr>perByte = map (\<lambda>f. int_of (jnum (Some f))) fees,
                   quantizationMask = int_of (jnum (jget raw ''quantization_mask''))\<rparr>)"

record RctTxShape =
  inputs :: int
  outputs :: int
  ringSize :: int
  extraBytes :: int
  assetTagBytes :: "int option"

text \<open>\<open>1 << n\<close> is computed on 32 bits: the count is taken modulo 32 and the result is signed.\<close>

definition shl1 :: "nat \<Rightarrow> int" where
  "shl1 n = (if n mod 32 = 31 then - (2 ^ 31) else 2 ^ (n mod 32))"

partial_function (option) log_loop :: "int \<Rightarrow> nat \<Rightarrow> nat option" where
  "log_loop outs lp = (if shl1 lp < outs then log_loop outs (lp + 1) else Some lp)"

declare log_loop.simps [simp del]

definition rctTxWeight :: "RctTxShape \<Rightarrow> int option" where
  "rctTxWeight shape =
     (let tag = coalesce (assetTagBytes shape) 0;
          outs = max (outputs shape) 2;
          mixin = ringSize shape - 1;
          size = 1 + 6;
          size = size + inputs shape * (1 + 6 + (mixin + 1) * 2 + 32 + tag);
          size = size + outs * (6 + 32 + tag);
          size = size + extraBytes shape;
          size = size + 1
      in Option.bind (log_loop outs 0) (\<lambda>logPadded.
         let size = size + ((2 * (6 + int logPadded) + 6) * 32 + 3);
             size = size + inputs shape * (32 * (mixin + 1) + 64);
             size = size + outs;
             size = size + 32 * inputs shape;
             size = size + 8 * outs;
             size = size + 32 * outs;
             size = size + 4
         in if 2 < outs then
              let bpBase = (32 * (6 + 7 * 2)) div 2
              in Option.bind (log_loop outs 2) (\<lambda>lp.
                 let nlr = 2 * (6 + int lp);
                     bpSize = 32 * (6 + nlr)
                 in Some (size + ((bpBase * shl1 lp - bpSize) * 4) div 5))
            else Some size))"

definition feeForWeight :: "int \<Rightarrow> int \<Rightarrow> int \<Rightarrow> int" where
  "feeForWeight weight pb qmask =
     (let mask = (if 0 < qmask then qmask else 1);
          fee = weight * pb
      in ((fee + mask - 1) div mask) * mask)"

definition MONERO_TYPICAL_SEND_WEIGHT :: "int option" where
  "MONERO_TYPICAL_SEND_WEIGHT =
     rctTxWeight \<lparr>inputs = 2, outputs = 2, ringSize = 16, extraBytes = 44, assetTagBytes = None\<rparr>"

definition ZEPHYR_TYPICAL_SEND_WEIGHT :: "int option" where
  "ZEPHYR_TYPICAL_SEND_WEIGHT =
     rctTxWeight \<lparr>inputs = 2, outputs = 2, ringSize = 16, extraBytes = 44, assetTagBytes = Some 4\<rparr>"

definition ZEPHYR_TYPICAL_CONVERSION_WEIGHT :: int where "ZEPHYR_TYPICAL_CONVERSION_WEIGHT = 2975"

record TypicalFee =
  usual :: int
  busy :: "int option"

definition typicalFee :: "DaemonFeeRate \<Rightarrow> int \<Rightarrow> TypicalFee" where
  "typicalFee rate weight =
     \<lparr>usual = feeForWeight weight (hd (perByte rate)) (quantizationMask rate),
      busy = (case perByte rate of
         low # normal # _ \<Rightarrow> Some (feeForWeight weight normal (quantizationMask rate))
       | _ \<Rightarrow> None)\<rparr>"

text \<open>A fee a daemon's reply leads to always pays for the whole weight, is a multiple of the
  daemon's rounding step, and is less than one step above what the rate asks; the reply is used
  only when its rates and its step are positive.\<close>

theorem daemon_fee_covers_weight:
  assumes "daemonFeeRateFrom raw = Inr rate" "0 \<le> weight"
  shows "0 < quantizationMask rate \<and> perByte rate \<noteq> [] \<and> (\<forall>p \<in> set (perByte rate). 0 < p) \<and>
    weight * hd (perByte rate) \<le> usual (typicalFee rate weight) \<and>
    usual (typicalFee rate weight) < weight * hd (perByte rate) + quantizationMask rate \<and>
    usual (typicalFee rate weight) mod quantizationMask rate = 0"
proof -
  have pos: "0 < int_of v" if "is_safe_integer v" "0 < the v" for v
    using that by (auto simp: is_safe_integer_def int_of_def split: option.splits)
  have m: "0 < quantizationMask rate"
    using assms(1) pos by (auto simp: daemonFeeRateFrom_def positiveSafeInteger_def Let_def split: if_splits)
  have ps: "perByte rate \<noteq> []" "\<forall>p \<in> set (perByte rate). 0 < p"
    using assms(1) pos
    by (auto simp: daemonFeeRateFrom_def positiveSafeInteger_def Let_def list_all_iff split: if_splits)
  let ?m = "quantizationMask rate" and ?f = "weight * hd (perByte rate)"
  have u: "usual (typicalFee rate weight) = (?f + ?m - 1) div ?m * ?m"
    using m by (simp add: typicalFee_def feeForWeight_def Let_def)
  have e: "?f + ?m - 1 = (?f + ?m - 1) div ?m * ?m + (?f + ?m - 1) mod ?m" by simp
  have r: "0 \<le> (?f + ?m - 1) mod ?m" "(?f + ?m - 1) mod ?m < ?m" using m by simp_all
  have "?f \<le> usual (typicalFee rate weight)" "usual (typicalFee rate weight) < ?f + ?m"
    unfolding u using e r by linarith+
  moreover have "usual (typicalFee rate weight) mod ?m = 0" by (simp add: u)
  ultimately show ?thesis using m ps by blast
qed

theorem daemon_fee_covers_weight_witness:
  "(2000 :: int) * 7 \<le> usual (typicalFee \<lparr>perByte = [7, 9], quantizationMask = 10000\<rparr> 2000)"
proof -
  have "daemonFeeRateFrom (JObj [(''fees'', JArr [JNum 7, JNum 9]), (''quantization_mask'', JNum 10000)]) =
      Inr \<lparr>perByte = [7, 9], quantizationMask = 10000\<rparr>"
    by (simp add: daemonFeeRateFrom_def positiveSafeInteger_def is_safe_integer_def int_of_def)
  from daemon_fee_covers_weight [OF this, of 2000] show ?thesis by simp
qed

lemma shl1_small: "n < 31 \<Longrightarrow> shl1 n = 2 ^ n" by (simp add: shl1_def)

lemma shl1_bound: "shl1 n \<le> 2 ^ 30"
proof (cases "n mod 32 = 31")
  case False
  have "n mod 32 < 32" by simp
  then have "n mod 32 \<le> 30" using False by linarith
  then have "(2 :: int) ^ (n mod 32) \<le> 2 ^ 30" by (rule power_increasing) simp
  then show ?thesis using False by (simp add: shl1_def)
qed (simp add: shl1_def)

lemma log_loop_Some:
  assumes "log_loop outs lp = Some k" shows "\<not> shl1 k < outs"
  by (rule log_loop.raw_induct [where P = "\<lambda>outs lp k. \<not> shl1 k < outs", OF _ assms]) (auto split: if_splits)

lemma log_loop_finds:
  assumes "lp \<le> 30" "outs \<le> 2 ^ 30"
  shows "\<exists>k. log_loop outs lp = Some k \<and> k \<le> 30"
  using assms(1)
proof (induction "30 - lp" arbitrary: lp)
  case 0
  then have "lp = 30" by simp
  then have "\<not> shl1 lp < outs" using assms(2) by (simp add: shl1_small)
  then show ?case using \<open>lp = 30\<close> by (subst log_loop.simps) simp
next
  case (Suc n)
  then show ?case by (cases "shl1 lp < outs") (subst log_loop.simps, simp)+
qed

text \<open>The weight estimate of a CryptoNote transaction returns exactly for up to \<open>2 ^ 30\<close> outputs:
  the loops that double until the outputs fit compare a 32 bit shift, which never grows past
  that.\<close>

theorem rct_weight_terminates_iff:
  "(\<exists>w. rctTxWeight shape = Some w) \<longleftrightarrow> outputs shape \<le> 2 ^ 30"
proof
  assume "\<exists>w. rctTxWeight shape = Some w"
  then obtain k where "log_loop (max (outputs shape) 2) 0 = Some k"
    by (cases "log_loop (max (outputs shape) 2) 0") (auto simp: rctTxWeight_def Let_def)
  from log_loop_Some [OF this] show "outputs shape \<le> 2 ^ 30" using shl1_bound [of k] by simp
next
  assume "outputs shape \<le> 2 ^ 30"
  then have o: "max (outputs shape) 2 \<le> 2 ^ 30" by simp
  define outs where "outs = max (outputs shape) 2"
  obtain k l where "log_loop outs 0 = Some k" "log_loop outs 2 = Some l"
    using log_loop_finds [OF _ o, of 0] log_loop_finds [OF _ o, of 2] unfolding outs_def by auto
  then show "\<exists>w. rctTxWeight shape = Some w" unfolding rctTxWeight_def Let_def outs_def [symmetric] by simp
qed
end
