(* ===== verification/ErrorText.thy ===== *)
theory ErrorText
  imports Json
begin

section \<open>Caught values and their text: lib/errorText.ts\<close>

text \<open>
  A caught value: a string (what the backend rejects with), an \<open>Error\<close>, the reply of a broadcast with
  its status and body, another object with its \<open>message\<close> property and its text, null, or anything
  else with its text.
\<close>

datatype thrown =
    ThrownString string
  | ThrownError string
  | BroadcastReplyError string "int option" "string option"
  | ThrownObject "json option" string
  | ThrownNull
  | ThrownOther string

definition blank :: "string \<Rightarrow> bool" where "blank s = (js_trim s = [])"

definition errorText :: "thrown \<Rightarrow> string \<Rightarrow> string" where
  "errorText e fallback =
     (case e of
        ThrownString s \<Rightarrow> if blank s then fallback else s
      | ThrownError m \<Rightarrow> if blank m then fallback else m
      | BroadcastReplyError m _ _ \<Rightarrow> if blank m then fallback else m
      | ThrownObject (Some m) _ \<Rightarrow> (case jstr (Some m) of Some t \<Rightarrow> if blank t then fallback else t | None \<Rightarrow> fallback)
      | ThrownObject None s \<Rightarrow> if blank s \<or> s = ''[object Object]'' then fallback else s
      | ThrownNull \<Rightarrow> fallback
      | ThrownOther s \<Rightarrow> if blank s \<or> s = ''[object Object]'' then fallback else s)"

lemma errorText_fallback: "fallback \<noteq> [] \<Longrightarrow> errorText e fallback \<noteq> []"
  by (auto simp: errorText_def blank_def split: thrown.splits option.splits)

end
