(* ===== verification/Regex.thy ===== *)
theory Regex
  imports Prelude
begin

section \<open>Regular expressions\<close>

text \<open>
  The part of JavaScript's regular expressions the modelled code uses, as an executable matcher.
  A position is the text read so far, reversed, and the text ahead; \<open>rests\<close> lists the positions
  at which a match begun here can end. Classes are ranges of character codes. \<open>ci\<close> is the flag
  \<open>i\<close>, which here folds the letters of ASCII.
\<close>

type_synonym rpos = "string \<times> string"

datatype rx =
    Cls bool "(nat \<times> nat) list"          \<comment> \<open>negated?, ranges\<close>
  | Times nat nat rx                       \<comment> \<open>\<open>{m,n}\<close>\<close>
  | Many rx                                \<comment> \<open>\<open>*\<close>, of a class\<close>
  | Cat "rx list"
  | Or "rx list"
  | WordB
  | AtStart
  | AtEnd

definition in_ranges :: "(nat \<times> nat) list \<Rightarrow> char \<Rightarrow> bool" where
  "in_ranges rs c = list_ex (\<lambda>(a, b). a \<le> of_char c \<and> of_char c \<le> b) rs"

definition cls_ok :: "bool \<Rightarrow> bool \<Rightarrow> (nat \<times> nat) list \<Rightarrow> char \<Rightarrow> bool" where
  "cls_ok ci neg rs c =
     ((in_ranges rs c \<or> ci \<and> (in_ranges rs (lower_char c) \<or> in_ranges rs (upper_char c))) \<noteq> neg)"

definition is_word :: "char \<Rightarrow> bool" where
  "is_word c = in_ranges [(48, 57), (65, 90), (97, 122), (95, 95)] c"

fun many_rests :: "(char \<Rightarrow> bool) \<Rightarrow> string \<Rightarrow> string \<Rightarrow> rpos list" where
  "many_rests p b [] = [(b, [])]"
| "many_rests p b (c # cs) = (if p c then many_rests p (c # b) cs @ [(b, c # cs)] else [(b, c # cs)])"

fun times_rests :: "(rpos \<Rightarrow> rpos list) \<Rightarrow> nat \<Rightarrow> nat \<Rightarrow> rpos \<Rightarrow> rpos list" where
  "times_rests f m 0 p = (if m = 0 then [p] else [])"
| "times_rests f m (Suc n) p =
     concat (map (times_rests f (m - 1) n) (f p)) @ (if m = 0 then [p] else [])"

fun cat_rests :: "(rpos \<Rightarrow> rpos list) list \<Rightarrow> rpos \<Rightarrow> rpos list" where
  "cat_rests [] p = [p]"
| "cat_rests (f # fs) p = concat (map (cat_rests fs) (f p))"

fun rests :: "bool \<Rightarrow> rx \<Rightarrow> rpos \<Rightarrow> rpos list" where
  "rests ci (Cls neg rs) p =
     (case snd p of [] \<Rightarrow> [] | c # cs \<Rightarrow> if cls_ok ci neg rs c then [(c # fst p, cs)] else [])"
| "rests ci (Times m n r) p = times_rests (rests ci r) m n p"
| "rests ci (Many r) p =
     (case r of Cls neg rs \<Rightarrow> many_rests (cls_ok ci neg rs) (fst p) (snd p) | _ \<Rightarrow> [p])"
| "rests ci (Cat rs) p = cat_rests (map (rests ci) rs) p"
| "rests ci (Or rs) p = concat (map (\<lambda>r. rests ci r p) rs)"
| "rests ci WordB p =
     (let before = (case fst p of [] \<Rightarrow> False | c # _ \<Rightarrow> is_word c);
          after = (case snd p of [] \<Rightarrow> False | c # _ \<Rightarrow> is_word c)
      in if before \<noteq> after then [p] else [])"
| "rests ci AtStart p = (if fst p = [] then [p] else [])"
| "rests ci AtEnd p = (if snd p = [] then [p] else [])"

fun search_from :: "bool \<Rightarrow> rx \<Rightarrow> string \<Rightarrow> string \<Rightarrow> bool" where
  "search_from ci r b [] = (rests ci r (b, []) \<noteq> [])"
| "search_from ci r b (c # cs) = (rests ci r (b, c # cs) \<noteq> [] \<or> search_from ci r (c # b) cs)"

text \<open>\<open>re.test(s)\<close>\<close>

definition rx_test :: "bool \<Rightarrow> rx \<Rightarrow> string \<Rightarrow> bool" where
  "rx_test ci r s = search_from ci r [] s"

definition lit :: "string \<Rightarrow> rx" where
  "lit s = Cat (map (\<lambda>c. Cls False [(of_char c, of_char c)]) s)"

definition opt :: "rx \<Rightarrow> rx" where "opt r = Times 0 1 r"
definition digit :: rx where "digit = Cls False [(48, 57)]"
definition any :: rx where "any = Cls True [(10, 10), (13, 13)]"
definition space :: rx where "space = Cls False [(9, 13), (32, 32), (160, 160)]"
definition non_space :: rx where "non_space = Cls True [(9, 13), (32, 32), (160, 160)]"
definition plus :: "rx \<Rightarrow> rx" where "plus r = Cat [r, Many r]"

subsection \<open>Facts\<close>

lemma search_anchored_later: "b \<noteq> [] \<Longrightarrow> \<not> search_from ci (Cat (AtStart # rs)) b s"
  by (induction s arbitrary: b) auto

lemma test_anchored:
  "rx_test ci (Cat (AtStart # rs)) s \<longleftrightarrow> cat_rests (map (rests ci) rs) ([], s) \<noteq> []"
  by (cases s) (auto simp: rx_test_def search_anchored_later)

lemma times_class:
  "times_rests (rests ci (Cls neg rs)) n n (b, s) =
     (if n \<le> length s \<and> list_all (cls_ok ci neg rs) (take n s)
      then [(rev (take n s) @ b, drop n s)] else [])"
proof (induction n arbitrary: b s)
  case (Suc n)
  then show ?case by (cases s) auto
qed simp

lemma lit_rests: "rests False (lit t) (b, s) = (if take (length t) s = t then [(rev t @ b, drop (length t) s)] else [])"
proof (induction t arbitrary: b s)
  case Nil
  then show ?case by (simp add: lit_def)
next
  case (Cons c t)
  have c: "cls_ok False False [(of_char c, of_char c)] d \<longleftrightarrow> d = c" for d
    by (auto simp: cls_ok_def in_ranges_def)
  show ?case using Cons by (cases s) (auto simp: lit_def c)
qed

lemma exact_take: "n \<le> length d \<and> list_all P (take n d) \<and> drop n d = [] \<longleftrightarrow> length d = n \<and> list_all P d"
  by auto

text \<open>\<open>/^p[..]{n}$/\<close> matches the prefix followed by exactly \<open>n\<close> characters of the class.\<close>

lemma test_shape:
  "rx_test False (Cat [AtStart, lit t, Times n n (Cls neg rs), AtEnd]) s \<longleftrightarrow>
     (\<exists>r. s = t @ r \<and> length r = n \<and> list_all (cls_ok False neg rs) r)"
proof -
  let ?d = "drop (length t) s"
  have "cat_rests (map (rests False) [lit t, Times n n (Cls neg rs), AtEnd]) ([], s) \<noteq> [] \<longleftrightarrow>
      take (length t) s = t \<and> length ?d = n \<and> list_all (cls_ok False neg rs) ?d"
  proof (cases "take (length t) s = t")
    case True
    have "cat_rests (map (rests False) [lit t, Times n n (Cls neg rs), AtEnd]) ([], s) =
        cat_rests (map (rests False) [Times n n (Cls neg rs), AtEnd]) (rev t, ?d)"
      using True by (simp add: lit_rests)
    also have "\<dots> \<noteq> [] \<longleftrightarrow> n \<le> length ?d \<and> list_all (cls_ok False neg rs) (take n ?d) \<and> drop n ?d = []"
      by (simp only: list.map cat_rests.simps rests.simps times_class) (simp del: drop_drop)
    also have "\<dots> \<longleftrightarrow> length ?d = n \<and> list_all (cls_ok False neg rs) ?d"
      by (rule exact_take)
    finally show ?thesis using True by simp
  qed (simp add: lit_rests)
  moreover have "take (length t) s = t \<and> length ?d = n \<and> list_all (cls_ok False neg rs) ?d \<longleftrightarrow>
      (\<exists>r. s = t @ r \<and> length r = n \<and> list_all (cls_ok False neg rs) r)"
    by (metis append_eq_conv_conj)
  ultimately show ?thesis unfolding test_anchored by simp
qed

lemma test_exact:
  "rx_test ci (Cat [AtStart, Times n n (Cls neg rs), AtEnd]) s \<longleftrightarrow>
     length s = n \<and> list_all (cls_ok ci neg rs) s"
proof -
  have "rx_test ci (Cat [AtStart, Times n n (Cls neg rs), AtEnd]) s \<longleftrightarrow>
      n \<le> length s \<and> list_all (cls_ok ci neg rs) (take n s) \<and> drop n s = []"
    unfolding test_anchored by (simp only: list.map cat_rests.simps rests.simps times_class) simp
  then show ?thesis by (simp only: exact_take)
qed

lemma lit_rests_ci:
  "to_lower u = t \<Longrightarrow> \<exists>q. q \<in> set (rests True (lit t) (b, u @ s))"
proof (induction t arbitrary: b u)
  case Nil
  then show ?case by (simp add: lit_def)
next
  case (Cons c t)
  then obtain d u' where u: "u = d # u'" "lower_char d = c" "to_lower u' = t"
    by (cases u) (auto simp: to_lower_def)
  have "cls_ok True False [(of_char c, of_char c)] d"
    using u(2) by (auto simp: cls_ok_def in_ranges_def)
  then show ?case using Cons.IH [OF u(3), of "d # b"] u(1) by (auto simp: lit_def)
qed

lemma search_from_later: "search_from ci r (rev pre @ b) s \<Longrightarrow> search_from ci r b (pre @ s)"
proof (induction pre arbitrary: b)
  case (Cons c pre)
  then show ?case by simp
qed simp

lemma search_from_here: "rests ci r (b, s) \<noteq> [] \<Longrightarrow> search_from ci r b s"
  by (cases s) auto

lemma test_lit_ci: "rx_test True (lit (to_lower u)) (pre @ u @ post)"
  unfolding rx_test_def
  by (rule search_from_later, rule search_from_here)
    (use lit_rests_ci [of u "to_lower u" "rev pre @ []" post] in auto)

lemma test_Or: "rx_test ci (Or rs) s \<longleftrightarrow> (\<exists>r \<in> set rs. rx_test ci r s)"
proof -
  have "search_from ci (Or rs) b s \<longleftrightarrow> (\<exists>r \<in> set rs. search_from ci r b s)" for b
    by (induction s arbitrary: b) auto
  then show ?thesis by (simp add: rx_test_def)
qed

end
