(* ===== verification/UtxoSend.thy ===== *)
theory UtxoSend
  imports ErrorText Regex Cbor DecimalAmount
begin

section \<open>Sending from a UTXO account: wallets/utxo-send.ts\<close>

text \<open>
  Amounts, recipients, dust and fee caps, and the broadcast of a signed transaction.
  \<open>bitcoinjs-lib\<close>'s address decoding, \<open>sha256\<close>, the HTTP proxy and \<open>JSON.parse\<close> are
  parameters; a caught value is one of the constructors of \<open>thrown\<close> (\<open>ErrorText\<close>). Messages are constructors
  that carry what the text interpolates.
\<close>

subsection \<open>Amounts and outputs\<close>

datatype amount_error = BadDecimal decimal_error | NotPositive | MoreThanSafe string

definition parseSendAmountSat :: "string \<Rightarrow> amount_error + nat" where
  "parseSendAmountSat amount =
     (case decimalToAtomic amount 8 of
        Inl e \<Rightarrow> Inl (BadDecimal e)
      | Inr atomic \<Rightarrow>
          if atomic \<le> 0 then Inl NotPositive
          else if 2 ^ 53 - 1 < atomic then Inl (MoreThanSafe (js_trim amount))
          else Inr atomic)"

datatype OutputKind = Out_p2pkh | Out_p2sh | Out_p2wpkh | Out_p2wsh | Out_p2tr

definition SEGWIT_CHAIN_OUTPUTS :: "OutputKind list" where
  "SEGWIT_CHAIN_OUTPUTS = [Out_p2pkh, Out_p2sh, Out_p2wpkh, Out_p2wsh, Out_p2tr]"

definition LEGACY_CHAIN_OUTPUTS :: "OutputKind list" where
  "LEGACY_CHAIN_OUTPUTS = [Out_p2pkh, Out_p2sh]"

definition outputKind :: "byte list \<Rightarrow> OutputKind option" where
  "outputKind s =
     (let n = length s
      in if n = 25 \<and> s ! 0 = 0x76 \<and> s ! 1 = 0xa9 \<and> s ! 2 = 0x14 \<and> s ! 23 = 0x88 \<and> s ! 24 = 0xac
         then Some Out_p2pkh
         else if n = 23 \<and> s ! 0 = 0xa9 \<and> s ! 1 = 0x14 \<and> s ! 22 = 0x87 then Some Out_p2sh
         else if n = 22 \<and> s ! 0 = 0x00 \<and> s ! 1 = 0x14 then Some Out_p2wpkh
         else if n = 34 \<and> s ! 0 = 0x00 \<and> s ! 1 = 0x20 then Some Out_p2wsh
         else if n = 34 \<and> s ! 0 = 0x51 \<and> s ! 1 = 0x20 then Some Out_p2tr
         else None)"

definition stripPaymentUri :: "string \<Rightarrow> string list \<Rightarrow> string" where
  "stripPaymentUri input schemes =
     (let s = js_trim input;
          s = (case index_of (CHR '':'') s of
                 Some c \<Rightarrow> if 0 < c \<and> to_lower (take c s) \<in> set schemes then drop (c + 1) s else s
               | None \<Rightarrow> s);
          s = (case index_of (CHR ''?'') s of Some q \<Rightarrow> take q s | None \<Rightarrow> s)
      in js_trim s)"

datatype recipient_error =
    FutureSegwit string int
  | NotAnAddress string
  | OutputNotPaid string "OutputKind option"

definition payable_output ::
    "(string \<Rightarrow> byte list option) \<Rightarrow> string \<Rightarrow> OutputKind list \<Rightarrow>
     recipient_error + (string \<times> byte list \<times> OutputKind)" where
  "payable_output toOutputScript address allowed =
     (case toOutputScript address of
        None \<Rightarrow> Inl (NotAnAddress address)
      | Some script \<Rightarrow>
          (case outputKind script of
             None \<Rightarrow> Inl (OutputNotPaid address None)
           | Some k \<Rightarrow> if k \<notin> set allowed then Inl (OutputNotPaid address (Some k))
                       else Inr (address, script, k)))"

definition recipientOutput ::
    "(string \<Rightarrow> int option) \<Rightarrow> (string \<Rightarrow> byte list option) \<Rightarrow> string \<Rightarrow> string list \<Rightarrow> OutputKind list \<Rightarrow>
     recipient_error + (string \<times> byte list \<times> OutputKind)" where
  "recipientOutput bech32Version toOutputScript dest uriSchemes allowed =
     (let address = stripPaymentUri dest uriSchemes
      in case bech32Version address of
           Some v \<Rightarrow> if 1 < v then Inl (FutureSegwit address v)
                     else payable_output toOutputScript address allowed
         | None \<Rightarrow> payable_output toOutputScript address allowed)"

definition NO_SEGWIT_BECH32 :: string where "NO_SEGWIT_BECH32 = ''NO SEGWIT''"

definition outputVBytes :: "nat \<Rightarrow> nat" where
  "outputVBytes scriptLength =
     (let varint = (if scriptLength < 0xfd then 1 else if scriptLength \<le> 0xffff then 3 else 5)
      in 8 + varint + scriptLength)"

definition DUST_RELAY_FEE_PER_KB :: "(string \<times> nat) list" where
  "DUST_RELAY_FEE_PER_KB =
     [(''bitcoin'', 3000), (''litecoin'', 30000), (''dash'', 3000), (''ravencoin'', 3000),
      (''bitcoin-cash'', 3000)]"

definition dustThresholdSat :: "byte list \<Rightarrow> nat \<Rightarrow> nat" where
  "dustThresholdSat script dustRelayFeePerKb =
     (let kind = outputKind script;
          witness = (kind = Some Out_p2wpkh \<or> kind = Some Out_p2wsh \<or> kind = Some Out_p2tr);
          spend = (if witness then 32 + 4 + 1 + 107 div 4 + 4 else 32 + 4 + 1 + 107 + 4)
      in (dustRelayFeePerKb * (outputVBytes (length script) + spend)) div 1000)"

datatype value_error = BelowDust int int | InvalidFee | AboveFeeCap rat

definition assertNotDust :: "int \<Rightarrow> int \<Rightarrow> value_error + unit" where
  "assertNotDust valueSat minimumSat =
     (if valueSat < minimumSat then Inl (BelowDust valueSat minimumSat) else Inr ())"

definition assertFeeWithinCap :: "rat option \<Rightarrow> rat \<Rightarrow> rat \<Rightarrow> rat \<Rightarrow> value_error + unit" where
  "assertFeeWithinCap feeSat vbytes maxSatPerVByte foldAllowanceSat =
     (let cap = of_int \<lceil>maxSatPerVByte * vbytes\<rceil> + foldAllowanceSat
      in case feeSat of
           None \<Rightarrow> Inl InvalidFee
         | Some fee \<Rightarrow> if fee < 0 then Inl InvalidFee
             else if cap < fee then Inl (AboveFeeCap fee) else Inr ())"

definition txidOfLegacyRawHex :: "(byte list \<Rightarrow> byte list) \<Rightarrow> string \<Rightarrow> string option" where
  "txidOfLegacyRawHex sha256 rawHex =
     (if odd (length rawHex) then None
      else Some (bytesToHex (rev (sha256 (sha256 (hex_pairs rawHex))))))"

subsection \<open>Sources in turn\<close>

definition clip :: "string \<Rightarrow> string" where
  "clip s = (let t = js_trim (squeeze_spaces s)
     in if 180 < length t then take 180 t @ [CHR 0x85] else t)"

text \<open>\<open>trySources\<close>: the first source that answers, or every failure.\<close>

fun try_from :: "(string \<times> (thrown + 'a)) list \<Rightarrow> string list \<Rightarrow> string list + 'a" where
  "try_from [] failures = Inl failures"
| "try_from ((name, reply) # ss) failures =
     (case reply of
        Inr v \<Rightarrow> Inr v
      | Inl e \<Rightarrow> try_from ss (failures @ [name @ '': '' @ clip (errorText e ''no reply'')]))"

definition trySources :: "(string \<times> (thrown + 'a)) list \<Rightarrow> string list + 'a" where
  "trySources sources = try_from sources []"

subsection \<open>What a failed push means\<close>

datatype BroadcastFailureKind = Known | Rejected | Refused | Ambiguous

definition ALREADY_KNOWN :: "rx list" where
  "ALREADY_KNOWN =
     [lit ''txn-already-in-mempool'', lit ''txn-already-known'',
      lit ''txn-same-nonwitness-data-in-mempool'',
      Cat [lit ''already in '', opt (lit ''the ''), lit ''mempool''],
      Cat [lit ''already in '', opt (lit ''the ''), lit ''block'', opt (lit '' ''), lit ''chain''],
      lit ''outputs already in utxo set'', lit ''already have transaction'',
      Cat [WordB, Or [lit ''transaction'', lit ''tx''], WordB, Times 0 120 (Cls True [(46, 46), (10, 10)]),
           WordB, lit ''already exists''],
      Cat [lit ''\"code\"'', Many space, lit '':'', Many space, lit ''-27'', WordB]]"

definition NODE_REJECTION :: "rx list" where
  "NODE_REJECTION =
     [lit ''bad-txns'', lit ''min relay fee not met'', lit ''mempool min fee not met'',
      Cat [lit ''insufficient '', Or [lit ''priority'', lit ''fee'']],
      Cat [WordB, lit ''dust'', WordB],
      Cat [lit ''non'', opt (lit ''-''), lit ''standard''],
      lit ''mandatory-script-verify-flag'',
      Cat [lit ''scriptsig-'', Or [lit ''size'', lit ''not-pushonly'']],
      Cat [WordB, lit ''scriptpubkey'', WordB], Cat [WordB, lit ''tx-size'', WordB],
      Cat [lit ''non-'', opt (lit ''bip68-''), lit ''final''],
      lit ''bare-multisig'', lit ''multi-op-return'', lit ''too-long-mempool-chain'',
      lit ''txn-mempool-conflict'',
      Or [lit ''absurdly-high-fee'', lit ''max-fee-exceeded'', lit ''fee exceeds maximum''],
      Cat [lit ''missing'', Cls False [(45, 45), (32, 32)], lit ''inputs''],
      lit ''tx decode failed'',
      Cat [lit ''\"code\"'', Many space, lit '':'', Many space, lit ''-2'', Cls False [(50, 50), (53, 53), (54, 54)], WordB]]"

definition NOT_PROCESSED :: "int list" where
  "NOT_PROCESSED = [401, 402, 403, 404, 405, 429, 430]"

definition WEB_PAGE :: rx where "WEB_PAGE = Cat [AtStart, Many space, lit ''<'']"

definition NEVER_LEFT :: rx where
  "NEVER_LEFT = Or [lit ''not on the http_proxy allowlist'', lit ''Refusing to proxy non-https'',
     lit ''unsupported method'']"

definition reply_status :: "thrown \<Rightarrow> int option" where
  "reply_status e = (case e of BroadcastReplyError _ st _ \<Rightarrow> st | _ \<Rightarrow> None)"

definition reply_body :: "thrown \<Rightarrow> string" where
  "reply_body e = (case e of BroadcastReplyError _ _ b \<Rightarrow> coalesce b [] | _ \<Rightarrow> [])"

definition classifyBroadcastFailure :: "thrown \<Rightarrow> BroadcastFailureKind" where
  "classifyBroadcastFailure e =
     (let body = reply_body e;
          text = errorText e [] @ [CHR 0x0A] @ body
      in if list_ex (\<lambda>re. rx_test True re text) ALREADY_KNOWN then Known
         else if list_ex (\<lambda>re. rx_test True re text) NODE_REJECTION then Rejected
         else case reply_status e of
           Some st \<Rightarrow>
             if st \<in> set NOT_PROCESSED then Refused
             else if 200 \<le> st \<and> st < 300 \<and> rx_test False WEB_PAGE body then Refused
             else Ambiguous
         | None \<Rightarrow> if rx_test True NEVER_LEFT text then Refused else Ambiguous)"

subsection \<open>Endpoints and lookups\<close>

definition TXID :: rx where
  "TXID = Cat [AtStart, Times 64 64 (Cls False [(48, 57), (97, 102)]), AtEnd]"

text \<open>\<open>txidFrom\<close> reads the id out of a body; None where it throws or finds none.\<close>

definition acceptPushReply :: "int \<Rightarrow> string \<Rightarrow> (string \<Rightarrow> json option) \<Rightarrow> thrown + string" where
  "acceptPushReply st body txidFrom =
     (if 200 \<le> st \<and> st < 300 then
        (case jstr (txidFrom body) of
           Some t \<Rightarrow>
             if rx_test True TXID (js_trim t) then Inr (to_lower (js_trim t))
             else Inl (BroadcastReplyError (''HTTP '' @ nat_str (nat st) @ '' without a transaction id: '' @ clip body) (Some st) (Some body))
         | None \<Rightarrow> Inl (BroadcastReplyError (''HTTP '' @ nat_str (nat st) @ '' without a transaction id: '' @ clip body) (Some st) (Some body)))
      else Inl (BroadcastReplyError (''HTTP '' @ nat_str (nat st) @ '': '' @ clip body) (Some st) (Some body)))"

record http_request =
  q_post :: bool
  q_url :: string
  q_body :: string
  q_contentType :: string

record BroadcastEndpoint =
  ep_name :: string
  send :: "string \<Rightarrow> thrown + string"

record TxLookup =
  lk_name :: string
  lk_find :: "string \<Rightarrow> thrown + bool"

definition proxyPushEndpoint ::
    "(http_request \<Rightarrow> thrown + (int \<times> string option)) \<Rightarrow> string \<Rightarrow> (string \<Rightarrow> string \<times> string \<times> string) \<Rightarrow>
     (string \<Rightarrow> json option) \<Rightarrow> BroadcastEndpoint" where
  "proxyPushEndpoint httpProxyCall name build txidFrom =
     \<lparr>ep_name = name,
      send = (\<lambda>rawHex.
        let (url, body, contentType) = build rawHex
        in case httpProxyCall \<lparr>q_post = True, q_url = url, q_body = body, q_contentType = contentType\<rparr> of
             Inl e \<Rightarrow> Inl e
           | Inr (st, body) \<Rightarrow> acceptPushReply st (coalesce body []) txidFrom)\<rparr>"

definition pickedTxid ::
    "(string \<Rightarrow> json option) \<Rightarrow> string \<Rightarrow> string \<Rightarrow> (json \<Rightarrow> string \<Rightarrow> json option) \<Rightarrow> bool" where
  "pickedTxid parse body txid pick =
     (case parse body of
        None \<Rightarrow> False
      | Some v \<Rightarrow> (case jstr (pick v txid) of None \<Rightarrow> False | Some t \<Rightarrow> to_lower t = to_lower txid))"

definition proxyTxLookup ::
    "(http_request \<Rightarrow> thrown + (int \<times> string option)) \<Rightarrow> (string \<Rightarrow> json option) \<Rightarrow> string \<Rightarrow>
     (string \<Rightarrow> string) \<Rightarrow> (json \<Rightarrow> string \<Rightarrow> json option) \<Rightarrow> TxLookup" where
  "proxyTxLookup httpProxyCall parse name url pick =
     \<lparr>lk_name = name,
      lk_find = (\<lambda>txid.
        case httpProxyCall \<lparr>q_post = False, q_url = url txid, q_body = [], q_contentType = []\<rparr> of
          Inl e \<Rightarrow> Inl e
        | Inr (st, body) \<Rightarrow>
            if st < 200 \<or> 300 \<le> st then Inr False
            else Inr (pickedTxid parse (coalesce body []) txid pick))\<rparr>"

definition fetchTxLookup ::
    "(string \<Rightarrow> thrown + (bool \<times> string)) \<Rightarrow> (string \<Rightarrow> json option) \<Rightarrow> string \<Rightarrow>
     (string \<Rightarrow> string) \<Rightarrow> (json \<Rightarrow> string \<Rightarrow> json option) \<Rightarrow> TxLookup" where
  "fetchTxLookup fetch parse name url pick =
     \<lparr>lk_name = name,
      lk_find = (\<lambda>txid.
        case fetch (url txid) of
          Inl e \<Rightarrow> Inl e
        | Inr (isOk, body) \<Rightarrow> if \<not> isOk then Inr False else Inr (pickedTxid parse body txid pick))\<rparr>"

subsection \<open>Broadcasting once\<close>

datatype send_outcome =
    Sent string
  | InvalidLocalTxid string
  | NoEndpoint
  | NothingSent "(string \<times> BroadcastFailureKind \<times> string) list"
  | SendOutcomeUnknown string "(string \<times> BroadcastFailureKind \<times> string) list"

type_synonym failures = "(string \<times> BroadcastFailureKind \<times> string) list"

text \<open>The loop over the endpoints: None when one of them has the transaction.\<close>

fun push_all :: "string \<Rightarrow> BroadcastEndpoint list \<Rightarrow> failures \<Rightarrow> failures option" where
  "push_all rawHex [] failures = Some failures"
| "push_all rawHex (ep # eps) failures =
     (case send ep rawHex of
        Inr _ \<Rightarrow> None
      | Inl e \<Rightarrow>
          let kind = classifyBroadcastFailure e
          in if kind = Known then None
             else push_all rawHex eps (failures @ [(ep_name ep, kind, clip (errorText e ''no reply''))]))"

definition found_by :: "string \<Rightarrow> TxLookup \<Rightarrow> bool" where
  "found_by txid lk = (case lk_find lk txid of Inr b \<Rightarrow> b | Inl _ \<Rightarrow> False)"

definition broadcastSignedTx ::
    "string \<Rightarrow> string \<Rightarrow> BroadcastEndpoint list \<Rightarrow> TxLookup list \<Rightarrow> send_outcome" where
  "broadcastSignedTx localTxid rawHex endpoints lookups =
     (let txid = to_lower localTxid
      in if \<not> rx_test True TXID txid then InvalidLocalTxid localTxid
         else if endpoints = [] then NoEndpoint
         else case push_all rawHex endpoints [] of
           None \<Rightarrow> Sent txid
         | Some failures \<Rightarrow>
             if list_ex (found_by txid) lookups then Sent txid
             else if failures \<noteq> [] \<and> list_all (\<lambda>(_, k, _). k = Rejected \<or> k = Refused) failures
             then NothingSent failures
             else SendOutcomeUnknown txid failures)"

subsection \<open>What each outcome means\<close>

definition has_it :: "string \<Rightarrow> BroadcastEndpoint \<Rightarrow> bool" where
  "has_it rawHex ep = (case send ep rawHex of Inr _ \<Rightarrow> True | Inl e \<Rightarrow> classifyBroadcastFailure e = Known)"

definition ruled_out :: "string \<Rightarrow> BroadcastEndpoint \<Rightarrow> bool" where
  "ruled_out rawHex ep =
     (case send ep rawHex of Inr _ \<Rightarrow> False
      | Inl e \<Rightarrow> classifyBroadcastFailure e \<in> {Rejected, Refused})"

lemma push_all_result:
  "push_all rawHex eps fs = None \<longleftrightarrow> (\<exists>ep \<in> set eps. has_it rawHex ep)"
  "push_all rawHex eps fs = Some gs \<Longrightarrow>
     (list_all (\<lambda>(_, k, _). k = Rejected \<or> k = Refused) gs \<longleftrightarrow>
        list_all (\<lambda>(_, k, _). k = Rejected \<or> k = Refused) fs \<and> list_all (ruled_out rawHex) eps) \<and>
     length gs = length fs + length eps"
proof (induction eps arbitrary: fs)
  case (Cons ep eps)
  { case 1
    show ?case using Cons.IH(1) by (auto simp: has_it_def Let_def split: sum.split)
  next
    case 2
    then obtain e where e: "send ep rawHex = Inl e" "classifyBroadcastFailure e \<noteq> Known"
        "push_all rawHex eps (fs @ [(ep_name ep, classifyBroadcastFailure e, clip (errorText e ''no reply''))]) = Some gs"
      by (auto simp: Let_def split: sum.splits if_splits)
    then show ?case using Cons.IH(2) [OF e(3)] by (auto simp: ruled_out_def)
  }
qed auto

text \<open>C24. A send never claims more than the replies show. It succeeds exactly when some endpoint took
  the transaction or already had it, or a lookup found it; it says that nothing was sent exactly
  when every endpoint gave a reply that rules out a relay; and otherwise it reports that the
  transaction may be out. There is no other outcome for a valid transaction id.\<close>

theorem broadcast_outcome:
  assumes "rx_test True TXID (to_lower txid)" "endpoints \<noteq> []"
  shows "(broadcastSignedTx txid rawHex endpoints lookups = Sent (to_lower txid) \<longleftrightarrow>
      (\<exists>ep \<in> set endpoints. has_it rawHex ep) \<or> (\<exists>lk \<in> set lookups. found_by (to_lower txid) lk)) \<and>
    ((\<exists>fs. broadcastSignedTx txid rawHex endpoints lookups = NothingSent fs) \<longleftrightarrow>
      (\<forall>ep \<in> set endpoints. ruled_out rawHex ep) \<and> \<not> (\<exists>lk \<in> set lookups. found_by (to_lower txid) lk)) \<and>
    ((\<exists>fs. broadcastSignedTx txid rawHex endpoints lookups = SendOutcomeUnknown (to_lower txid) fs) \<longleftrightarrow>
      \<not> (\<exists>ep \<in> set endpoints. has_it rawHex ep) \<and> \<not> (\<forall>ep \<in> set endpoints. ruled_out rawHex ep) \<and>
      \<not> (\<exists>lk \<in> set lookups. found_by (to_lower txid) lk))"
proof (cases "push_all rawHex endpoints []")
  case None
  then have h: "\<exists>ep \<in> set endpoints. has_it rawHex ep" by (simp add: push_all_result)
  then have "\<not> (\<forall>ep \<in> set endpoints. ruled_out rawHex ep)"
    by (force simp: has_it_def ruled_out_def split: sum.splits)
  then show ?thesis using None h assms by (simp add: broadcastSignedTx_def)
next
  case (Some fs)
  then have h: "\<not> (\<exists>ep \<in> set endpoints. has_it rawHex ep)"
    using push_all_result(1) [of rawHex endpoints "[]"] by simp
  have "fs \<noteq> []" "list_all (\<lambda>(_, k, _). k = Rejected \<or> k = Refused) fs \<longleftrightarrow> (\<forall>ep \<in> set endpoints. ruled_out rawHex ep)"
    using push_all_result(2) [OF Some] assms(2) by (auto simp: list_all_iff)
  then show ?thesis using Some h assms(1,2) by (auto simp: broadcastSignedTx_def Let_def list_ex_iff)
qed

definition demo_txid :: string where "demo_txid = replicate 64 (CHR ''a'')"

lemma demo_txid_ok: "rx_test True TXID (to_lower demo_txid)"
  unfolding TXID_def test_exact
  by (simp add: demo_txid_def to_lower_def lower_char_def cls_ok_def in_ranges_def list_all_iff)

definition demo_timeout :: BroadcastEndpoint where
  "demo_timeout = \<lparr>ep_name = ''a'', send = (\<lambda>_. Inl (BroadcastReplyError ''504'' (Some 504) None))\<rparr>"

lemma demo_timeout_ambiguous:
  "classifyBroadcastFailure (BroadcastReplyError ''504'' (Some 504) None) = Ambiguous"
  by code_simp

theorem broadcast_outcome_witness:
  "\<exists>fs. broadcastSignedTx demo_txid ''00'' [demo_timeout] [] = SendOutcomeUnknown (to_lower demo_txid) fs"
  using broadcast_outcome [OF demo_txid_ok, of "[demo_timeout]" "''00''" "[]"]
  by (simp add: has_it_def ruled_out_def demo_timeout_def demo_timeout_ambiguous)

text \<open>A reply counts as an acceptance only when its status is a success and it names a transaction
  id; the id is then 64 lower-case hex digits. Anything else is kept whole for classification.\<close>

theorem acceptPushReply_accepts:
  "acceptPushReply st body txidFrom = Inr t \<longleftrightarrow>
     200 \<le> st \<and> st < 300 \<and>
     (\<exists>u. txidFrom body = Some (JStr u) \<and> length (js_trim u) = 64 \<and>
        list_all (cls_ok True False [(48, 57), (97, 102)]) (js_trim u) \<and> t = to_lower (js_trim u))"
proof -
  have j: "jstr v = Some u \<longleftrightarrow> v = Some (JStr u)" for v u
    by (cases v rule: jstr.cases) auto
  show ?thesis
    by (auto simp: acceptPushReply_def TXID_def test_exact j split: option.splits if_splits)
qed

text \<open>The dust limits are those of Bitcoin Core's relay policy: 546, 540, 294 and 330 base units
  for the five output kinds at its default rate, ten times that on Litecoin.\<close>

theorem dust_thresholds:
  "map (\<lambda>rate. dustThresholdSat script rate) [3000, 30000] =
     (case outputKind script of
        Some Out_p2pkh \<Rightarrow> [546, 5460]
      | Some Out_p2sh \<Rightarrow> [540, 5400]
      | Some Out_p2wpkh \<Rightarrow> [294, 2940]
      | Some Out_p2wsh \<Rightarrow> [330, 3300]
      | Some Out_p2tr \<Rightarrow> [330, 3300]
      | None \<Rightarrow> map (\<lambda>rate. rate * (outputVBytes (length script) + 148) div 1000) [3000, 30000])"
proof (cases "outputKind script")
  case (Some k)
  then have "length script = (case k of Out_p2pkh \<Rightarrow> 25 | Out_p2sh \<Rightarrow> 23 | Out_p2wpkh \<Rightarrow> 22
      | Out_p2wsh \<Rightarrow> 34 | Out_p2tr \<Rightarrow> 34)"
    by (auto simp: outputKind_def Let_def split: if_splits)
  then show ?thesis using Some by (cases k) (simp_all add: dustThresholdSat_def outputVBytes_def)
qed (simp add: dustThresholdSat_def)

subsection \<open>Swap deposits: features/swap/broadcast-outcome.ts\<close>

definition MAY_BE_ON_NETWORK :: rx where
  "MAY_BE_ON_NETWORK = Or [lit ''already'', lit ''known transaction'', lit ''txn-mempool-conflict'',
     lit ''duplicate'', lit ''exists'', lit ''nonce too low'', lit ''replacement'', lit ''in the mempool'',
     Cat [lit ''in block'', opt (lit '' ''), lit ''chain'']]"

definition TRANSPORT :: rx where
  "TRANSPORT = Or [lit ''network error'', Cat [lit ''time'', opt (lit ''d''), opt (lit '' ''), lit ''out''], lit ''timeout'', lit ''abort'',
     lit ''econn'', lit ''enotfound'', lit ''fetch failed'', lit ''socket'',
     Cat [lit ''connection '', Or [lit ''reset'', lit ''closed'', lit ''refused'']],
     Cat [lit ''RPC returned 5'', digit, digit], Cat [lit ''HTTP 5'', digit, digit],
     Cat [WordB, lit ''50'', digit, WordB], lit ''response parse error'', lit ''verification call failed'',
     lit ''returned null on the same node'']"

definition REFUSAL :: rx where
  "REFUSAL = Or [Cat [lit ''RPC returned 4'', digit, digit], Cat [lit ''HTTP 4'', digit, digit], lit ''RPC error:'',
     lit ''simulation failed'', lit ''insufficient'', lit ''bad-txns'', lit ''min relay fee'',
     lit ''mempool min fee'', lit ''dust'', lit ''non-final'', lit ''invalid'', lit ''rejected'',
     lit ''intrinsic gas'', lit ''exceeds block gas limit'', lit ''blockcypher push:'',
     lit ''blockchair:'', lit ''sendrawtransaction'']"

definition isDefinitiveBroadcastRefusal :: "string \<Rightarrow> bool" where
  "isDefinitiveBroadcastRefusal m =
     (if js_trim m = [] then False
      else if rx_test True MAY_BE_ON_NETWORK m then False
      else if rx_test True TRANSPORT m then False
      else rx_test True REFUSAL m)"

text \<open>\<open>split(/\r?\n/)\<close>: the line feeds, each with a carriage return before it.\<close>

definition drop_cr :: "string \<Rightarrow> string" where
  "drop_cr l = (if l \<noteq> [] \<and> last l = CHR 0x0D then butlast l else l)"

definition split_lines :: "string \<Rightarrow> string list" where
  "split_lines s = (let ls = split_on (CHR 0x0A) s in map drop_cr (butlast ls) @ [last ls])"

text \<open>The match of \<open>/^(\S+) \((broadcast|verify)\): (.*)$/\<close>: stage is broadcast?, and the error.\<close>

definition line_attempt :: "string \<Rightarrow> (bool \<times> string) option" where
  "line_attempt l =
     (let url = takeWhile (\<lambda>c. \<not> js_space c) l; r = drop (length url) l;
          pick = (\<lambda>mark. if take (length mark) r = mark \<and> url \<noteq> [] \<and>
                            list_all (\<lambda>c. c \<noteq> CHR 0x0A \<and> c \<noteq> CHR 0x0D) (drop (length mark) r)
                         then Some (drop (length mark) r) else None)
      in case pick '' (broadcast): '' of
           Some e \<Rightarrow> Some (True, e)
         | None \<Rightarrow> (case pick '' (verify): '' of Some e \<Rightarrow> Some (False, e) | None \<Rightarrow> None))"

definition evmBroadcastRefusedEverywhere :: "string \<Rightarrow> bool" where
  "evmBroadcastRefusedEverywhere message =
     (let ls = filter (\<lambda>l. l \<noteq> []) (map js_trim (split_lines message));
          attempts = List.map_filter line_attempt ls
      in if attempts = [] then False
         else list_all (\<lambda>(isBroadcast, e). isBroadcast \<and> isDefinitiveBroadcastRefusal e) attempts)"

text \<open>Whatever else a message says, wording that the network may have the transaction, or that
  the connection failed, is never read as a refusal: the user is then not told to try again.\<close>

theorem hint_is_no_refusal:
  assumes "to_lower hint \<in> {''already'', ''known transaction'', ''txn-mempool-conflict'', ''duplicate'',
      ''exists'', ''nonce too low'', ''replacement'', ''in the mempool'', ''network error'', ''timeout'',
      ''abort'', ''econn'', ''enotfound'', ''fetch failed'', ''socket'', ''response parse error'',
      ''verification call failed'', ''returned null on the same node''}"
  shows "\<not> isDefinitiveBroadcastRefusal (pre @ hint @ post)"
proof -
  have "rx_test True (lit (to_lower hint)) (pre @ hint @ post)" by (rule test_lit_ci)
  then have "rx_test True MAY_BE_ON_NETWORK (pre @ hint @ post) \<or> rx_test True TRANSPORT (pre @ hint @ post)"
    using assms unfolding MAY_BE_ON_NETWORK_def TRANSPORT_def test_Or by auto
  then show ?thesis by (auto simp: isDefinitiveBroadcastRefusal_def)
qed

theorem hint_is_no_refusal_witness:
  "\<not> isDefinitiveBroadcastRefusal (''HTTP 400: '' @ ''already'' @ '' have it, rejected'')"
  by (rule hint_is_no_refusal) (simp add: to_lower_def lower_char_def)
end
