(* ===== verification/BtcRecords.thy ===== *)
theory BtcRecords
  imports UtxoSend Interfaces
begin

section \<open>Replaced and own transactions: wallets/tx-replacements.ts, wallets/btc-own-txs.ts\<close>

text \<open>
  Two session records the speed-up rests on. The replacements are a \<open>Map\<close> in insertion order, from which
  the oldest is dropped past 200; telling the listeners is the second result of a write. The own
  transactions are a machine over its events: a send that is remembered, the queued write, a question.
  The store is an untyped value, None where it cannot be read.
\<close>

subsection \<open>Replacements\<close>

record TxReplacement =
  r_chain :: string
  r_replaced :: string
  r_by :: string
  r_at :: rat

type_synonym replacements = "(string \<times> TxReplacement) list"

definition MAX_REPLACEMENTS :: nat where "MAX_REPLACEMENTS = 200"

definition norm_hash :: "string \<Rightarrow> string" where
  "norm_hash hash = (let t = js_trim hash in to_lower (if to_lower (take 2 t) = ''0x'' then drop 2 t else t))"

definition keyOf :: "string \<Rightarrow> string \<Rightarrow> string" where
  "keyOf chain hash = chain @ ''|'' @ norm_hash hash"

fun drop_oldest :: "replacements \<Rightarrow> replacements" where
  "drop_oldest m = (if MAX_REPLACEMENTS < length m then drop_oldest (tl m) else m)"

declare drop_oldest.simps [simp del]

definition recordTxReplacement ::
    "replacements \<Rightarrow> string \<Rightarrow> string \<Rightarrow> string \<Rightarrow> rat \<Rightarrow> replacements \<times> TxReplacement option" where
  "recordTxReplacement byKey chain replaced newer stamp =
     (let replaced = norm_hash replaced; newer = norm_hash newer
      in if replaced = [] \<or> newer = [] \<or> replaced = newer then (byKey, None)
         else let entry = \<lparr>r_chain = chain, r_replaced = replaced, r_by = newer, r_at = stamp\<rparr>
              in (drop_oldest (js_set (keyOf chain replaced) entry byKey), Some entry))"

definition txReplacementOf :: "replacements \<Rightarrow> string \<Rightarrow> string \<Rightarrow> TxReplacement option" where
  "txReplacementOf byKey chain hash = map_of byKey (keyOf chain hash)"

definition replacers :: "replacements \<Rightarrow> string set" where
  "replacers m = r_by ` snd ` set m"

function follow :: "replacements \<Rightarrow> string \<Rightarrow> string set \<Rightarrow> string \<Rightarrow> string" where
  "follow byKey chain seen current =
     (case map_of byKey (keyOf chain current) of
        None \<Rightarrow> current
      | Some r \<Rightarrow> if r_by r \<in> seen then current else follow byKey chain (insert current seen) (r_by r))"
  by auto

termination
proof (relation "inv_image (less_than <*lex*> less_than)
    (\<lambda>(m, c, seen, cur). (card (replacers m - insert cur seen), if cur \<in> seen then 0 else 1 :: nat))", goal_cases)
  case (2 m c seen cur r)
  have b: "r_by r \<in> replacers m" using map_of_SomeD [OF 2(1)] by (force simp: replacers_def)
  have f: "finite (replacers m)" by (simp add: replacers_def)
  show ?case
  proof (cases "r_by r = cur")
    case True
    then show ?thesis using 2 by (simp add: insert_absorb)
  next
    case False
    then have "replacers m - insert (r_by r) (insert cur seen) \<subset> replacers m - insert cur seen" using b 2 by auto
    then show ?thesis using psubset_card_mono [OF finite_Diff [OF f]] by simp
  qed
qed (intro wf_inv_image wf_lex_prod wf_less_than)

declare follow.simps [simp del]

definition latestReplacementOf :: "replacements \<Rightarrow> string \<Rightarrow> string \<Rightarrow> string" where
  "latestReplacementOf byKey chain hash = follow byKey chain {} (norm_hash hash)"

subsection \<open>History rows\<close>

record ChainTx =
  c_chain :: string
  c_hash :: string
  c_direction :: string
  c_amount :: string
  c_fee :: "string option"
  c_timestamp :: "rat option"
  c_confirmations :: "rat option"
  c_height :: "rat option"
  c_counterparty :: "string option"
  c_meta :: "json option"

definition isUnconfirmedRow :: "ChainTx \<Rightarrow> bool" where
  "isUnconfirmedRow tx =
     (if c_height tx \<noteq> None \<and> c_height tx \<noteq> Some 0 then False
      else c_confirmations tx = Some 0 \<or> c_direction tx = ''pending'')"

definition withoutReplacedRows :: "replacements \<Rightarrow> string \<Rightarrow> ChainTx list \<Rightarrow> ChainTx list" where
  "withoutReplacedRows byKey chain rows =
     (if byKey = [] \<or> rows = [] then rows
      else filter (\<lambda>tx. \<not> (isUnconfirmedRow tx \<and> map_of byKey (keyOf chain (c_hash tx)) \<noteq> None)) rows)"

subsection \<open>Transactions this app built\<close>

definition MAX_OWN :: nat where "MAX_OWN = 300"
definition MAX_AGE_MS :: rat where "MAX_AGE_MS = 30 * 24 * 60 * 60000"

definition norm_txid :: "string \<Rightarrow> string option" where
  "norm_txid txid = (let t = to_lower (js_trim txid) in if rx_test False TXID t then Some t else None)"

record own_state =
  known :: "(string \<times> rat) list"
  hydrated :: bool
  stored :: "json option"

definition prune :: "own_state \<Rightarrow> rat \<Rightarrow> own_state \<times> (string \<times> rat) list" where
  "prune s now =
     (let entries = take MAX_OWN (sort_by (\<lambda>a b. snd b < snd a) (filter (\<lambda>e. now - snd e \<le> MAX_AGE_MS) (known s)))
      in (if length entries \<noteq> length (known s) then s\<lparr>known := entries\<rparr> else s, entries))"

definition stored_entry :: "(rat \<Rightarrow> string) \<Rightarrow> json \<Rightarrow> (string \<times> rat) option" where
  "stored_entry numText e =
     (case norm_txid (case jget e ''txid'' of None \<Rightarrow> [] | Some JNull \<Rightarrow> [] | Some v \<Rightarrow> js_String numText v) of
        None \<Rightarrow> None
      | Some t \<Rightarrow> map_option (Pair t) (jnum (jget e ''at'')))"

definition add_stored :: "(string \<times> rat) list \<Rightarrow> string \<times> rat \<Rightarrow> (string \<times> rat) list" where
  "add_stored m e = (if coalesce (map_of m (fst e)) 0 < snd e then js_set (fst e) (snd e) m else m)"

definition stored_list :: "(rat \<Rightarrow> string) \<Rightarrow> json option \<Rightarrow> (string \<times> rat) list" where
  "stored_list numText v = (case v of Some (JArr es) \<Rightarrow> List.map_filter (stored_entry numText) es | _ \<Rightarrow> [])"

definition hydrate :: "(rat \<Rightarrow> string) \<Rightarrow> own_state \<Rightarrow> own_state" where
  "hydrate numText s =
     (if hydrated s then s
      else s\<lparr>known := foldl add_stored (known s) (stored_list numText (stored s)), hydrated := True\<rparr>)"

definition entry_json :: "string \<times> rat \<Rightarrow> json" where
  "entry_json e = JObj [(''txid'', JStr (fst e)), (''at'', JNum (snd e))]"

text \<open>A send is remembered at once; the write behind it comes later, and may find no store or fail.\<close>

datatype own_event = Remember string rat | Flush rat bool bool | Ask string

fun own_step :: "(rat \<Rightarrow> string) \<Rightarrow> own_state \<Rightarrow> own_event \<Rightarrow> own_state" where
  "own_step numText s (Remember txid now) =
     (case norm_txid txid of None \<Rightarrow> s | Some t \<Rightarrow> s\<lparr>known := js_set t now (known s)\<rparr>)"
| "own_step numText s (Flush now available saved) =
     (let s = hydrate numText s
      in if \<not> available then s
         else let (s, entries) = prune s now
              in if saved then s\<lparr>stored := Some (JArr (map entry_json entries))\<rparr> else s)"
| "own_step numText s (Ask txid) =
     (case norm_txid txid of None \<Rightarrow> s | Some t \<Rightarrow> if map_of (known s) t \<noteq> None then s else hydrate numText s)"

definition isOwnBtcTx :: "(rat \<Rightarrow> string) \<Rightarrow> own_state \<Rightarrow> string \<Rightarrow> bool" where
  "isOwnBtcTx numText s txid =
     (case norm_txid txid of None \<Rightarrow> False
      | Some t \<Rightarrow> map_of (known s) t \<noteq> None \<or> map_of (known (hydrate numText s)) t \<noteq> None)"

subsection \<open>A replacement is found, and followed to its end\<close>

lemma drop_oldest_drop: "drop_oldest m = drop (length m - MAX_REPLACEMENTS) m"
proof (induction m rule: drop_oldest.induct)
  case (1 m)
  show ?case
  proof (cases "MAX_REPLACEMENTS < length m")
    case True
    then have "length m - MAX_REPLACEMENTS = Suc (length (tl m) - MAX_REPLACEMENTS)" by simp
    then show ?thesis using True 1 by (subst drop_oldest.simps) (simp add: drop_Suc)
  qed (subst drop_oldest.simps, simp)
qed

definition records_ok :: "replacements \<Rightarrow> bool" where
  "records_ok m \<longleftrightarrow> distinct (map fst m) \<and> length m \<le> MAX_REPLACEMENTS \<and>
     list_all (\<lambda>(_, r). r_by r \<noteq> [] \<and> r_by r \<noteq> r_replaced r) m"

definition record_step :: "replacements \<Rightarrow> string \<times> string \<times> string \<times> rat \<Rightarrow> replacements" where
  "record_step m e = (case e of (c, a, b, t) \<Rightarrow> fst (recordTxReplacement m c a b t))"

lemma set_js_set: "set (js_set k v m) \<subseteq> insert (k, v) (set m)"
  by (induction m) auto

lemma js_set_new: "k \<notin> fst ` set m \<Longrightarrow> js_set k v m = m @ [(k, v)]"
  by (induction m) auto

lemma length_js_set: "length (js_set k v m) = (if k \<in> fst ` set m then length m else Suc (length m))"
  by (induction m) auto

lemma record_map:
  assumes "records_ok m" "norm_hash a \<noteq> []" "norm_hash b \<noteq> []" "norm_hash a \<noteq> norm_hash b"
    "e = \<lparr>r_chain = c, r_replaced = norm_hash a, r_by = norm_hash b, r_at = t\<rparr>"
  shows "recordTxReplacement m c a b t = (drop_oldest (js_set (keyOf c (norm_hash a)) e m), Some e)"
    "map_of (drop_oldest (js_set (keyOf c (norm_hash a)) e m)) (keyOf c (norm_hash a)) = Some e"
proof -
  let ?k = "keyOf c (norm_hash a)"
  show "recordTxReplacement m c a b t = (drop_oldest (js_set ?k e m), Some e)"
    using assms(2-5) by (simp add: recordTxReplacement_def Let_def)
  have l: "length m \<le> MAX_REPLACEMENTS" "distinct (map fst m)" using assms(1) by (auto simp: records_ok_def)
  show "map_of (drop_oldest (js_set ?k e m)) ?k = Some e"
  proof (cases "?k \<in> fst ` set m")
    case True
    then have "drop_oldest (js_set ?k e m) = js_set ?k e m" using l by (simp add: drop_oldest_drop length_js_set)
    then show ?thesis by simp
  next
    case False
    then have "drop_oldest (js_set ?k e m) = drop (Suc (length m) - MAX_REPLACEMENTS) m @ [(?k, e)]"
      using l by (simp add: drop_oldest_drop js_set_new MAX_REPLACEMENTS_def)
    moreover have "map_of (drop (Suc (length m) - MAX_REPLACEMENTS) m) ?k = None"
      using False by (force simp: map_of_eq_None_iff dest: in_set_dropD)
    ultimately show ?thesis by (simp add: map_add_def)
  qed
qed

interpretation replacement_record: event_machine record_step records_ok
proof
  fix m :: replacements and e :: "string \<times> string \<times> string \<times> rat"
  assume ok: "records_ok m"
  obtain c a b t where e: "e = (c, a, b, t)" by (cases e)
  show "records_ok (record_step m e)"
  proof (cases "norm_hash a = [] \<or> norm_hash b = [] \<or> norm_hash a = norm_hash b")
    case True
    then show ?thesis using ok e by (auto simp: record_step_def recordTxReplacement_def Let_def)
  next
    case False
    let ?r = "\<lparr>r_chain = c, r_replaced = norm_hash a, r_by = norm_hash b, r_at = t\<rparr>"
    let ?m = "js_set (keyOf c (norm_hash a)) ?r m"
    have s: "record_step m e = drop_oldest ?m" using record_map(1) [OF ok, of a b ?r c t] False e by (simp add: record_step_def)
    have "distinct (map fst ?m)" using ok by (intro distinct_js_set) (simp add: records_ok_def)
    moreover have "list_all (\<lambda>(_, r). r_by r \<noteq> [] \<and> r_by r \<noteq> r_replaced r) ?m"
      using ok False set_js_set [of "keyOf c (norm_hash a)" ?r m] by (fastforce simp: records_ok_def list_all_iff)
    moreover have "length ?m \<le> Suc MAX_REPLACEMENTS" using ok by (simp add: records_ok_def length_js_set)
    ultimately show ?thesis unfolding s records_ok_def drop_oldest_drop
      by (auto simp: drop_map [symmetric] list_all_iff dest: in_set_dropD)
  qed
qed

text \<open>One recorded replacement of a chain.\<close>

definition replaces :: "replacements \<Rightarrow> string \<Rightarrow> (string \<times> string) set" where
  "replaces m c = {(a, b). \<exists>r. map_of m (keyOf c a) = Some r \<and> r_by r = b}"

lemma follow_end:
  "(current, follow m c seen current) \<in> (replaces m c)\<^sup>* \<and>
   (case map_of m (keyOf c (follow m c seen current)) of None \<Rightarrow> True
    | Some r \<Rightarrow> r_by r \<in> seen \<or> (r_by r, follow m c seen current) \<in> (replaces m c)\<^sup>* )"
proof (induction m c seen current rule: follow.induct)
  case (1 m c seen current)
  show ?case
  proof (cases "map_of m (keyOf c current)")
    case None
    then show ?thesis by (simp add: follow.simps [of m c seen current])
  next
    case (Some r)
    show ?thesis
    proof (cases "r_by r \<in> seen")
      case True
      then show ?thesis using Some by (simp add: follow.simps [of m c seen current])
    next
      case False
      have f: "follow m c seen current = follow m c (insert current seen) (r_by r)"
        using Some False by (simp add: follow.simps [of m c seen current])
      have "(current, r_by r) \<in> replaces m c" using Some by (auto simp: replaces_def)
      then show ?thesis using 1 [OF Some False] unfolding f
        by (auto split: option.splits intro: converse_rtrancl_into_rtrancl)
    qed
  qed
qed

text \<open>Following a transaction's replacements ends at the one that stands for it: it is reached by
  recorded replacements, and nothing replaced it, unless the records run in a circle and it is on
  the circle.\<close>

theorem latest_is_the_end:
  "(norm_hash h, latestReplacementOf m c h) \<in> (replaces m c)\<^sup>* \<and>
   (case txReplacementOf m c (latestReplacementOf m c h) of None \<Rightarrow> True
    | Some r \<Rightarrow> (r_by r, latestReplacementOf m c h) \<in> (replaces m c)\<^sup>* )"
  using follow_end [of "norm_hash h" m c "{}"] by (simp add: latestReplacementOf_def txReplacementOf_def split: option.splits)

text \<open>A replacement that is recorded is found at once, whatever was recorded before and however much of it
  had to be dropped. A hash that would lose another \<open>0x\<close> the second time is kept under another key.\<close>

lemma recorded_is_found:
  assumes "norm_hash a \<noteq> []" "norm_hash b \<noteq> []" "norm_hash a \<noteq> norm_hash b" "norm_hash (norm_hash a) = norm_hash a"
  shows "\<exists>r. txReplacementOf (record_step (foldl record_step [] es) (c, a, b, t)) c a = Some r \<and> r_by r = norm_hash b"
proof -
  have ok: "records_ok (foldl record_step [] es)"
    by (rule replacement_record.run_good) (simp add: records_ok_def)
  have "keyOf c (norm_hash a) = keyOf c a" using assms(4) by (simp add: keyOf_def)
  then show ?thesis
    using record_map [OF ok assms(1-3) refl, of c t] by (simp add: record_step_def txReplacementOf_def)
qed

text \<open>How long a replacement is remembered: as long as fewer than \<open>MAX_REPLACEMENTS\<close> were recorded since.\<close>

definition kept_for :: "nat \<Rightarrow> string \<Rightarrow> replacements \<Rightarrow> bool" where
  "kept_for j k m \<longleftrightarrow> k \<in> set (drop (length m - Suc j) (map fst m))"

lemma keys_js_set: "map fst (js_set k v m) = (if k \<in> fst ` set m then map fst m else map fst m @ [k])"
  by (induction m) auto

lemma record_keys:
  assumes "records_ok m"
  shows "map fst (record_step m e) = map fst m \<or>
    (\<exists>k. map fst (record_step m e) = drop (Suc (length m) - MAX_REPLACEMENTS) (map fst m @ [k]))"
proof -
  obtain c a b t where e: "e = (c, a, b, t)" by (cases e)
  show ?thesis
  proof (cases "norm_hash a = [] \<or> norm_hash b = [] \<or> norm_hash a = norm_hash b")
    case True
    then show ?thesis using e by (auto simp: record_step_def recordTxReplacement_def Let_def)
  next
    case False
    let ?k = "keyOf c (norm_hash a)" and ?r = "\<lparr>r_chain = c, r_replaced = norm_hash a, r_by = norm_hash b, r_at = t\<rparr>"
    have s: "record_step m e = drop_oldest (js_set ?k ?r m)"
      using record_map(1) [OF assms, of a b ?r c t] False e by (simp add: record_step_def)
    have keys: "map fst (record_step m e) = drop (length (js_set ?k ?r m) - MAX_REPLACEMENTS) (map fst (js_set ?k ?r m))"
      by (simp add: s drop_oldest_drop drop_map)
    have "length m \<le> MAX_REPLACEMENTS" using assms by (simp add: records_ok_def)
    then show ?thesis unfolding keys length_js_set keys_js_set by (cases "?k \<in> fst ` set m") auto
  qed
qed

lemma kept_step:
  assumes "records_ok m" "kept_for j k m" "Suc j < MAX_REPLACEMENTS"
  shows "kept_for (Suc j) k (record_step m e)"
proof -
  let ?ks = "map fst m" and ?d = "Suc (length m) - MAX_REPLACEMENTS"
  have l: "length m \<le> MAX_REPLACEMENTS" using assms(1) by (simp add: records_ok_def)
  have later: "k \<in> set (drop i ?ks)" if "i \<le> length m - Suc j" for i
    using assms(2) set_drop_subset_set_drop [OF that, of ?ks] by (auto simp: kept_for_def)
  have len: "length (record_step m e) = length (map fst (record_step m e))" by simp
  consider "map fst (record_step m e) = ?ks" | k' where "map fst (record_step m e) = drop ?d (?ks @ [k'])"
    using record_keys [OF assms(1)] by blast
  then show ?thesis
  proof cases
    case 1
    then show ?thesis using later [of "length m - Suc (Suc j)"] unfolding kept_for_def len 1 by simp
  next
    case 2
    let ?i = "Suc (length m) - ?d - Suc (Suc j) + ?d"
    have i: "?i \<le> length m - Suc j" using l assms(3) by linarith
    have "k \<in> set (drop ?i (?ks @ [k']))" unfolding drop_append set_append by (rule UnI1 [OF later [OF i]])
    moreover have "length (drop ?d (?ks @ [k'])) = Suc (length m) - ?d" by simp
    ultimately show ?thesis unfolding kept_for_def len 2 drop_drop by (simp only:)
  qed
qed

lemma kept_found: "kept_for j (keyOf c h) m \<Longrightarrow> txReplacementOf m c h \<noteq> None"
  using in_set_dropD [of "keyOf c h" "length m - Suc j" "map fst m"]
  by (simp add: kept_for_def txReplacementOf_def map_of_eq_None_iff)

subsection \<open>Rows and own transactions\<close>

text \<open>A row is dropped from the history exactly when its transaction was replaced and it is still
  unconfirmed: a confirmed original is always shown.\<close>

theorem dropped_rows_are_replaced:
  "set (withoutReplacedRows m c rows) = {tx \<in> set rows. \<not> (isUnconfirmedRow tx \<and> txReplacementOf m c (c_hash tx) \<noteq> None)}"
  by (auto simp: withoutReplacedRows_def txReplacementOf_def)

lemma set_foldl_add: "fst ` set (foldl add_stored m es) \<subseteq> fst ` set m \<union> fst ` set es"
proof (induction es arbitrary: m)
  case (Cons e es)
  have "fst ` set (add_stored m e) \<subseteq> fst ` set m \<union> {fst e}"
    using set_js_set [of "fst e" "snd e" m] by (auto simp: add_stored_def)
  with Cons [of "add_stored m e"] show ?case by (simp add: subset_iff) blast
qed simp

lemma norm_txid_shape:
  assumes "norm_txid txid = Some t"
  shows "length t = 64 \<and> list_all (cls_ok False False [(48, 57), (97, 102)]) t \<and> to_lower t = t"
  using assms by (auto simp: norm_txid_def TXID_def test_exact Let_def split: if_splits)

lemma norm_txid_idem:
  assumes "norm_txid txid = Some t"
  shows "norm_txid t = Some t"
proof -
  have s: "length t = 64" "list_all (cls_ok False False [(48, 57), (97, 102)]) t" "to_lower t = t"
    using norm_txid_shape [OF assms] by auto
  have "\<not> js_space c" if "cls_ok False False [(48, 57), (97, 102)] c" for c
    using that by (auto simp: js_space_def cls_ok_def in_ranges_def)
  moreover have "t \<noteq> []" using s(1) by auto
  then have "hd t \<in> set t" "last t \<in> set t" by simp_all
  ultimately have "js_trim t = t" using s(2) by (intro js_trim_noop) (auto simp: list_all_iff)
  then show ?thesis using s by (simp add: norm_txid_def TXID_def test_exact)
qed

definition stored_ids :: "(rat \<Rightarrow> string) \<Rightarrow> json option \<Rightarrow> string set" where
  "stored_ids numText v = fst ` set (stored_list numText v)"

lemma set_kept: "x \<in> set (List.map_filter f xs) \<longleftrightarrow> (\<exists>y \<in> set xs. f y = Some x)"
  by (induction xs) (auto split: option.split)

lemma stored_entry_normal: "stored_entry numText e = Some p \<Longrightarrow> norm_txid (fst p) = Some (fst p)"
  by (auto simp: stored_entry_def dest: norm_txid_idem split: option.splits)

lemma stored_ids_normal: "t \<in> stored_ids numText v \<Longrightarrow> norm_txid t = Some t"
  by (auto simp: stored_ids_def stored_list_def set_kept dest: stored_entry_normal split: option.splits json.splits)

lemma stored_ids_written:
  "stored_ids numText (Some (JArr (map entry_json es))) \<subseteq> {t. \<exists>i \<in> fst ` set es. norm_txid i = Some t}"
  by (auto simp: stored_ids_def stored_list_def stored_entry_def entry_json_def set_kept split: option.splits)
    (metis fst_conv image_eqI)

text \<open>The ids this app has vouched for: a state with the ids that were remembered or on disk at the start.\<close>

definition remembered :: "own_event \<Rightarrow> string set" where
  "remembered e = (case e of Remember txid _ \<Rightarrow> set_option (norm_txid txid) | _ \<Rightarrow> {})"

definition own_log_step :: "(rat \<Rightarrow> string) \<Rightarrow> own_state \<times> string set \<Rightarrow> own_event \<Rightarrow> own_state \<times> string set" where
  "own_log_step numText sw e = (own_step numText (fst sw) e, snd sw \<union> remembered e)"

definition own_ok :: "(rat \<Rightarrow> string) \<Rightarrow> own_state \<times> string set \<Rightarrow> bool" where
  "own_ok numText sw \<longleftrightarrow>
     fst ` set (known (fst sw)) \<union> stored_ids numText (stored (fst sw)) \<subseteq> snd sw \<and>
     (\<forall>t \<in> fst ` set (known (fst sw)). norm_txid t = Some t)"

lemma own_okI:
  "(\<And>t. t \<in> fst ` set (known s) \<Longrightarrow> t \<in> W \<and> norm_txid t = Some t) \<Longrightarrow> stored_ids numText (stored s) \<subseteq> W \<Longrightarrow> own_ok numText (s, W)"
  by (auto simp: own_ok_def)

lemma own_okD:
  assumes "own_ok numText (s, W)"
  shows "t \<in> fst ` set (known s) \<Longrightarrow> t \<in> W \<and> norm_txid t = Some t" "stored_ids numText (stored s) \<subseteq> W"
  using assms by (auto simp: own_ok_def)

lemma hydrate_ok:
  assumes ok: "own_ok numText (s, W)"
  shows "own_ok numText (hydrate numText s, W)"
proof (cases "hydrated s")
  case False
  let ?k = "foldl add_stored (known s) (stored_list numText (stored s))"
  have "fst ` set ?k \<subseteq> fst ` set (known s) \<union> stored_ids numText (stored s)"
    using set_foldl_add by (simp add: stored_ids_def)
  then have "t \<in> W \<and> norm_txid t = Some t" if "t \<in> fst ` set ?k" for t
    using that own_okD [OF ok] stored_ids_normal [of t numText "stored s"] by blast
  then show ?thesis using False own_okD(2) [OF ok] by (intro own_okI) (simp_all add: hydrate_def)
qed (simp add: ok hydrate_def)

lemma prune_ids:
  assumes "prune s now = (s', es)"
  shows "set es \<subseteq> set (known s)" "set (known s') \<subseteq> set (known s)" "stored s' = stored s" "length es \<le> MAX_OWN"
proof -
  let ?es = "take MAX_OWN (sort_by (\<lambda>a b. snd b < snd a) (filter (\<lambda>e. now - snd e \<le> MAX_AGE_MS) (known s)))"
  have e: "es = ?es" "s' = (if length ?es \<noteq> length (known s) then s\<lparr>known := ?es\<rparr> else s)"
    using assms by (auto simp: prune_def Let_def)
  have "set ?es \<subseteq> set (known s)" using set_take_subset by fastforce
  then show "set es \<subseteq> set (known s)" "set (known s') \<subseteq> set (known s)" "stored s' = stored s" "length es \<le> MAX_OWN"
    unfolding e by auto
qed

lemma remember_ok:
  assumes "own_ok numText (s, W)" "norm_txid txid = Some t"
  shows "own_ok numText (s\<lparr>known := js_set t now (known s)\<rparr>, insert t W)"
proof (rule own_okI)
  fix i
  assume "i \<in> fst ` set (known (s\<lparr>known := js_set t now (known s)\<rparr>))"
  then have "i = t \<or> i \<in> fst ` set (known s)" using set_js_set [of t now "known s"] by force
  then show "i \<in> insert t W \<and> norm_txid i = Some i"
    using own_okD(1) [OF assms(1), of i] norm_txid_idem [OF assms(2)] by auto
qed (use own_okD(2) [OF assms(1)] in auto)

lemma flush_ok:
  assumes "own_ok numText (s, W)"
  shows "own_ok numText (own_step numText s (Flush now available saved), W)"
proof -
  have h: "own_ok numText (hydrate numText s, W)" using assms by (rule hydrate_ok)
  obtain s' es where p: "prune (hydrate numText s) now = (s', es)" by (cases "prune (hydrate numText s) now")
  note i = prune_ids [OF p]
  have k: "t \<in> W \<and> norm_txid t = Some t" if "t \<in> fst ` set (known s') \<union> fst ` set es" for t
    using that own_okD(1) [OF h, of t] i(1,2) by blast
  have "stored_ids numText (Some (JArr (map entry_json es))) \<subseteq> W"
  proof
    fix t
    assume "t \<in> stored_ids numText (Some (JArr (map entry_json es)))"
    then obtain j where "j \<in> fst ` set es" "norm_txid j = Some t" using stored_ids_written [of numText es] by blast
    then show "t \<in> W" using k [of j] by simp
  qed
  then have "own_ok numText (s'\<lparr>stored := Some (JArr (map entry_json es))\<rparr>, W)"
    by (intro own_okI k) simp_all
  moreover have "own_ok numText (s', W)"
    using own_okD(2) [OF h] i(3) by (intro own_okI k) simp_all
  moreover have "own_step numText s (Flush now available saved) =
      (if \<not> available then hydrate numText s
       else if saved then s'\<lparr>stored := Some (JArr (map entry_json es))\<rparr> else s')"
    using p by (simp add: Let_def)
  ultimately show ?thesis using h by presburger
qed

interpretation own_record: event_machine "own_log_step numText" "own_ok numText" for numText
proof
  fix sw :: "own_state \<times> string set" and e
  assume ok: "own_ok numText sw"
  obtain s W where sw: "sw = (s, W)" by (cases sw)
  show "own_ok numText (own_log_step numText sw e)"
  proof (cases e)
    case (Remember txid now)
    then show ?thesis using ok sw remember_ok [of numText s W txid]
      by (cases "norm_txid txid") (auto simp: own_log_step_def remembered_def)
  next
    case (Ask txid)
    then show ?thesis using ok hydrate_ok [of numText s W] sw
      by (auto simp: own_log_step_def remembered_def split: option.splits)
  next
    case (Flush now available saved)
    then show ?thesis using ok sw flush_ok [of numText s W now available saved]
      by (simp add: own_log_step_def remembered_def)
  qed
qed

text \<open>C31. The gate in front of a speed-up fails closed: a transaction counts as this app's only if it was
  remembered when it was signed in this session, or was on disk when the session began, whatever was
  asked, written or lost in between.\<close>

theorem own_fails_closed:
  assumes "isOwnBtcTx numText (foldl (own_step numText) \<lparr>known = [], hydrated = False, stored = d\<rparr> es) txid"
  shows "\<exists>t. norm_txid txid = Some t \<and> (t \<in> (\<Union>e \<in> set es. remembered e) \<or> t \<in> stored_ids numText d)"
proof -
  let ?s = "\<lparr>known = [], hydrated = False, stored = d\<rparr>"
  have "foldl (own_log_step numText) (s, W) es = (foldl (own_step numText) s es, W \<union> (\<Union>e \<in> set es. remembered e))" for s W
    by (induction es arbitrary: s W) (auto simp: own_log_step_def)
  then have "own_ok numText (foldl (own_step numText) ?s es, stored_ids numText d \<union> (\<Union>e \<in> set es. remembered e))"
    using own_record.run_good [of numText "(?s, stored_ids numText d)" es] by (simp add: own_ok_def)
  from hydrate_ok [OF this] this assms show ?thesis
    by (auto simp: isOwnBtcTx_def own_ok_def map_of_eq_None_iff split: option.splits)
qed

definition remembered_id :: string where "remembered_id = replicate 64 CHR ''a''"

lemma remembered_id_normal: "norm_txid remembered_id = Some remembered_id"
  by code_simp

lemma own_fails_closed_witness:
  "\<exists>t. norm_txid remembered_id = Some t \<and>
     (t \<in> (\<Union>e \<in> set [Remember remembered_id 5, Flush 6 True False]. remembered e) \<or> t \<in> stored_ids (\<lambda>_. []) None)"
proof (rule own_fails_closed)
  show "isOwnBtcTx (\<lambda>_. []) (foldl (own_step (\<lambda>_. [])) \<lparr>known = [], hydrated = False, stored = None\<rparr>
      [Remember remembered_id 5, Flush 6 True False]) remembered_id"
    by code_simp
qed

end
