(* ===== verification/UtxoProbes.thy ===== *)
theory UtxoProbes
  imports Json "HOL-Library.Multiset"
begin

section \<open>What an explorer says of an address: wallets/_utxo-probes.ts\<close>

text \<open>
  The parsers of four explorers, each from the JSON of the reply to the balance and whether the address was ever
  used; None where the parser throws. A field the reply's interface declares a number is a number or
  missing; where the code tests it, so does the model.
\<close>

record UtxoAddressProbe =
  ap_balanceSat :: rat
  ap_used :: bool

definition num_or_0 :: "json option \<Rightarrow> string \<Rightarrow> rat" where
  "num_or_0 v f = coalesce (jnum (jprop v f)) 0"

definition parseEsploraStats :: "json \<Rightarrow> UtxoAddressProbe option" where
  "parseEsploraStats r =
     (let c = jget r ''chain_stats''; m = jget r ''mempool_stats''
      in case jnum (jprop c ''funded_txo_sum'') of
           None \<Rightarrow> None
         | Some funded \<Rightarrow>
             Some \<lparr>ap_balanceSat = funded - num_or_0 c ''spent_txo_sum'' +
                                    (num_or_0 m ''funded_txo_sum'' - num_or_0 m ''spent_txo_sum''),
                   ap_used = (0 < num_or_0 c ''tx_count'' \<or> 0 < num_or_0 m ''tx_count'')\<rparr>)"

definition present :: "json option \<Rightarrow> json option" where
  "present v = (case v of Some JNull \<Rightarrow> None | _ \<Rightarrow> v)"

definition blockchairProbe :: "json \<Rightarrow> string \<Rightarrow> string option \<Rightarrow> UtxoAddressProbe option" where
  "blockchairProbe r address keyOverride =
     (let data = present (jget r ''data'');
          row = or_else (present (jprop data (coalesce keyOverride address))) (present (jprop data address));
          a = jprop row ''address''
      in case jnum (jprop a ''balance'') of
           None \<Rightarrow> None
         | Some balance \<Rightarrow> Some \<lparr>ap_balanceSat = balance, ap_used = (0 < num_or_0 a ''transaction_count'')\<rparr>)"

definition blockcypherProbe :: "json \<Rightarrow> UtxoAddressProbe option" where
  "blockcypherProbe r =
     (case jnum (jget r ''balance'') of
        None \<Rightarrow> None
      | Some balance \<Rightarrow>
          Some \<lparr>ap_balanceSat = balance + num_or_0 (Some r) ''unconfirmed_balance'',
                ap_used = (0 < coalesce (or_else (jnum (jget r ''final_n_tx'')) (jnum (jget r ''n_tx''))) 0)\<rparr>)"

subsection \<open>The batch source\<close>

definition haskoinAddrKey :: "string \<Rightarrow> string" where
  "haskoinAddrKey a = (let k = to_lower (js_trim a) in if starts_with k ''bitcoincash:'' then drop 12 k else k)"

definition parseHaskoinBalance :: "json option \<Rightarrow> UtxoAddressProbe option" where
  "parseHaskoinBalance row =
     (case (jnum (jprop row ''confirmed''), jnum (jprop row ''txs'')) of
        (Some confirmed, Some txs) \<Rightarrow>
          let balanceSat = confirmed + num_or_0 row ''unconfirmed''
          in Some \<lparr>ap_balanceSat = balanceSat,
                   ap_used = (0 < txs \<or> 0 < num_or_0 row ''received'' \<or> 0 < balanceSat)\<rparr>
      | _ \<Rightarrow> None)"

definition haskoinProbe :: "json \<Rightarrow> UtxoAddressProbe option" where
  "haskoinProbe r = parseHaskoinBalance (Some r)"

definition row_key :: "json \<Rightarrow> string option" where
  "row_key r = map_option haskoinAddrKey (jstr (jget r ''address''))"

definition by_addr :: "json list \<Rightarrow> (string \<times> json) list" where
  "by_addr rows = foldl (\<lambda>m r. case row_key r of None \<Rightarrow> m | Some k \<Rightarrow> js_set k r m) [] rows"

fun all_some :: "'a option list \<Rightarrow> 'a list option" where
  "all_some [] = Some []"
| "all_some (x # xs) = (case x of None \<Rightarrow> None | Some v \<Rightarrow> map_option ((#) v) (all_some xs))"

text \<open>The reply is None where the request throws; a missing address or an unreadable row makes the whole call throw.\<close>

definition haskoinProbeMany :: "json option \<Rightarrow> string list \<Rightarrow> UtxoAddressProbe list option" where
  "haskoinProbeMany reply addresses =
     (if addresses = [] then Some []
      else case reply of
        Some (JArr rows) \<Rightarrow>
          all_some (map (\<lambda>a. Option.bind (map_of (by_addr rows) (haskoinAddrKey a)) (\<lambda>row. parseHaskoinBalance (Some row)))
            addresses)
      | _ \<Rightarrow> None)"

subsection \<open>Rows are matched by address, not by place\<close>

lemma all_some_iff: "all_some xs = Some ys \<longleftrightarrow> xs = map Some ys"
  by (induction xs arbitrary: ys) (auto split: option.splits)

lemma all_some_None: "all_some xs = None \<longleftrightarrow> None \<in> set xs"
  by (induction xs) (auto split: option.splits)

lemma map_of_by_addr:
  "map_of (foldl (\<lambda>m r. case row_key r of None \<Rightarrow> m | Some k \<Rightarrow> js_set k r m) m0 rows) k =
     (case map_of (rev (List.map_filter (\<lambda>r. map_option (\<lambda>k. (k, r)) (row_key r)) rows)) k of
        Some r \<Rightarrow> Some r | None \<Rightarrow> map_of m0 k)"
  by (induction rows arbitrary: m0) (auto simp: List.map_filter_simps map_add_def split: option.splits)

lemma map_of_permuted:
  assumes "distinct (map fst xs)" "mset xs = mset ys"
  shows "map_of xs = map_of ys"
proof -
  have "distinct (map fst ys)" using assms by (metis mset_eq_imp_distinct_iff mset_map)
  then show ?thesis using assms by (metis map_of_inject_set mset_eq_setD)
qed

lemma map_filter_as_map: "List.map_filter f xs = map (the \<circ> f) (filter (\<lambda>x. f x \<noteq> None) xs)"
  by (induction xs) (auto simp: List.map_filter_simps)

text \<open>A batch reply is read the same in whatever order its rows come, as long as no two are about one
  address: no balance can land on another address.\<close>

theorem batch_rows_matched_by_address:
  assumes "distinct (List.map_filter row_key rows)" "mset rows' = mset rows"
  shows "haskoinProbeMany (Some (JArr rows')) addresses = haskoinProbeMany (Some (JArr rows)) addresses"
proof -
  let ?f = "\<lambda>r. map_option (\<lambda>k. (k, r)) (row_key r)"
  let ?p = "\<lambda>rows. rev (List.map_filter ?f rows)"
  have k: "map fst (List.map_filter ?f rows) = List.map_filter row_key rows"
    by (induction rows) (auto simp: List.map_filter_simps split: option.splits)
  have "mset (?p rows') = mset (?p rows)" using assms(2) by (simp add: map_filter_as_map mset_map mset_filter)
  moreover have "distinct (map fst (?p rows))" using assms(1) k by (simp add: rev_map [symmetric])
  ultimately have "map_of (?p rows') = map_of (?p rows)" by (intro map_of_permuted [symmetric]) simp_all
  then have "map_of (by_addr rows') = map_of (by_addr rows)" by (simp add: by_addr_def map_of_by_addr fun_eq_iff)
  then show ?thesis by (simp add: haskoinProbeMany_def)
qed

lemma batch_rows_matched_by_address_witness:
  "haskoinProbeMany (Some (JArr [JObj [(''address'', JStr ''b''), (''confirmed'', JNum 7), (''txs'', JNum 1)],
       JObj [(''address'', JStr ''bitcoincash:A''), (''confirmed'', JNum 5), (''txs'', JNum 2)]])) [''a'', ''b''] =
   haskoinProbeMany (Some (JArr [JObj [(''address'', JStr ''bitcoincash:A''), (''confirmed'', JNum 5), (''txs'', JNum 2)],
       JObj [(''address'', JStr ''b''), (''confirmed'', JNum 7), (''txs'', JNum 1)]])) [''a'', ''b'']"
proof (rule batch_rows_matched_by_address)
  show "distinct (List.map_filter row_key [JObj [(''address'', JStr ''bitcoincash:A''), (''confirmed'', JNum 5), (''txs'', JNum 2)],
       JObj [(''address'', JStr ''b''), (''confirmed'', JNum 7), (''txs'', JNum 1)]])"
    by code_simp
qed simp

end
