(* ===== verification/UtxoAccount.thy ===== *)
theory UtxoAccount
  imports UtxoProbes UtxoSend
begin

section \<open>Accounts of unspent outputs: wallets/utxo-account.ts\<close>

text \<open>
  The gap walk over an account's two chains, the fresh addresses it yields, how far a standard restore would
  get, and the choice of the outputs that pay a send. Key derivation is a field of an environment, None where
  it throws, as is the order in which the explorer's answers arrive. An address is asked once in a
  scan, so an explorer is a function of the address; None is an answer that failed. Gap limits and
  batch sizes are natural numbers; \<open>satsToDecimal\<close> and the shortfall message only print.
\<close>

subsection \<open>Specs and scans\<close>

record hd_node =
  n_private :: "byte list option"
  n_public :: "byte list option"

record AddressAt =
  aa_path :: string
  aa_address :: string
  aa_chainIndex :: nat
  aa_index :: nat

record UtxoAddressEntry = AddressAt +
  ae_balanceSat :: rat
  ae_used :: bool

record UtxoAccountSpec =
  sp_chain :: string
  sp_accountPath :: string
  sp_label :: string
  sp_deriveAddress :: "hd_node \<Rightarrow> string option"
  sp_probe :: "string \<Rightarrow> UtxoAddressProbe option"
  sp_probeMany :: "(string list \<Rightarrow> UtxoAddressProbe list option) option"
  sp_batchSize :: "nat option"

record scan_env =
  sc_seedOk :: "string \<Rightarrow> bool"
  sc_child :: "string \<Rightarrow> string \<Rightarrow> nat \<Rightarrow> nat \<Rightarrow> hd_node option"
  sc_arrival :: "AddressAt list \<Rightarrow> AddressAt list"

record UtxoAccountScan =
  us_chain :: string
  us_accountPath :: string
  us_label :: string
  us_gapLimit :: nat
  us_scanned :: nat
  us_totalSat :: rat
  us_entries :: "UtxoAddressEntry list"
  us_complete :: bool
  us_maxUsedReceive :: int
  us_maxUsedChange :: int

datatype account_error =
    BadMnemonic
  | CannotDerive string
  | CannotSeeAccount
  | NoSigningKey string
  | DerivationMismatch string string
  | FetchFailed string
  | TooLargeToSelect string int

definition DEFAULT_GAP_LIMIT :: nat where "DEFAULT_GAP_LIMIT = 40"
definition SCAN_CONCURRENCY :: nat where "SCAN_CONCURRENCY = 4"
definition DEFAULT_BATCH_SIZE :: nat where "DEFAULT_BATCH_SIZE = 50"

definition touched :: "UtxoAddressEntry \<Rightarrow> bool" where
  "touched e = (ae_used e \<or> 0 < ae_balanceSat e)"

definition childPath :: "string \<Rightarrow> nat \<Rightarrow> nat \<Rightarrow> string" where
  "childPath accountPath chainIndex i = accountPath @ ''/'' @ nat_str chainIndex @ ''/'' @ nat_str i"

definition address_at :: "scan_env \<Rightarrow> string \<Rightarrow> UtxoAccountSpec \<Rightarrow> nat \<Rightarrow> nat \<Rightarrow> AddressAt option" where
  "address_at env mnemonic spec chainIndex i =
     Option.bind (sc_child env (js_trim mnemonic) (sp_accountPath spec) chainIndex i) (\<lambda>node.
       map_option (\<lambda>a. \<lparr>aa_path = childPath (sp_accountPath spec) chainIndex i, aa_address = a,
                        aa_chainIndex = chainIndex, aa_index = i\<rparr>) (sp_deriveAddress spec node))"

definition deriveUtxoAddresses ::
    "scan_env \<Rightarrow> string \<Rightarrow> UtxoAccountSpec \<Rightarrow> nat \<Rightarrow> nat \<Rightarrow> nat \<Rightarrow> account_error + AddressAt list" where
  "deriveUtxoAddresses env mnemonic spec chainIndex start n =
     (if \<not> sc_seedOk env (js_trim mnemonic) then Inl BadMnemonic
      else case all_some (map (address_at env mnemonic spec chainIndex) [start..<start + n]) of
             None \<Rightarrow> Inl (CannotDerive (sp_accountPath spec))
           | Some as \<Rightarrow> Inr as)"

text \<open>The account on screen: the first spec whose first receive address is the displayed one. A spec that
  does not derive is passed over.\<close>

definition utxoAccountSpecFor ::
    "scan_env \<Rightarrow> string \<Rightarrow> 'a UtxoAccountSpec_scheme list \<Rightarrow> string \<Rightarrow> account_error + 'a UtxoAccountSpec_scheme option" where
  "utxoAccountSpecFor env mnemonic specs displayedAddress =
     (let want = js_trim displayedAddress
      in if mnemonic = [] \<or> want = [] \<or> specs = [] then Inr None
         else if \<not> sc_seedOk env (js_trim mnemonic) then Inl BadMnemonic
         else Inr (List.find (\<lambda>spec.
                case sc_child env (js_trim mnemonic) (sp_accountPath spec) 0 0 of
                  None \<Rightarrow> False
                | Some node \<Rightarrow> n_public node \<noteq> None \<and> sp_deriveAddress spec node = Some want) specs))"

subsection \<open>Probing\<close>

definition entry_of :: "AddressAt \<Rightarrow> UtxoAddressProbe \<Rightarrow> UtxoAddressEntry" where
  "entry_of a r =
     \<lparr>aa_path = aa_path a, aa_address = aa_address a, aa_chainIndex = aa_chainIndex a, aa_index = aa_index a,
      ae_balanceSat = ap_balanceSat r, ae_used = ap_used r\<rparr>"

text \<open>The workers share the block, and push what they get in the order in which it arrives.\<close>

definition probe_each :: "scan_env \<Rightarrow> UtxoAccountSpec \<Rightarrow> AddressAt list \<Rightarrow> UtxoAddressEntry list \<times> bool" where
  "probe_each env spec block =
     (List.map_filter (\<lambda>a. map_option (entry_of a) (sp_probe spec (aa_address a))) (sc_arrival env block),
      list_all (\<lambda>a. sp_probe spec (aa_address a) \<noteq> None) block)"

definition probe_block :: "scan_env \<Rightarrow> UtxoAccountSpec \<Rightarrow> AddressAt list \<Rightarrow> UtxoAddressEntry list \<times> bool" where
  "probe_block env spec block =
     (case sp_probeMany spec of
        None \<Rightarrow> probe_each env spec block
      | Some many \<Rightarrow>
          (case many (map aa_address block) of
             None \<Rightarrow> probe_each env spec block
           | Some rs \<Rightarrow>
               if length rs = length block then (map2 entry_of block rs, True) else probe_each env spec block))"

function chunks :: "nat \<Rightarrow> 'a list \<Rightarrow> 'a list list" where
  "chunks n xs = (if xs = [] then [] else take (max 1 n) xs # chunks n (drop (max 1 n) xs))"
  by auto
termination by (relation "measure (length \<circ> snd)") auto

declare chunks.simps [simp del]

definition scan_order :: "UtxoAddressEntry \<Rightarrow> UtxoAddressEntry \<Rightarrow> bool" where
  "scan_order x y =
     (aa_chainIndex x < aa_chainIndex y \<or> aa_chainIndex x = aa_chainIndex y \<and> aa_index x < aa_index y)"

definition probeAddresses :: "scan_env \<Rightarrow> UtxoAccountSpec \<Rightarrow> AddressAt list \<Rightarrow> UtxoAddressEntry list \<times> bool" where
  "probeAddresses env spec addresses =
     (let blocks = (case sp_probeMany spec of
                      None \<Rightarrow> [addresses]
                    | Some _ \<Rightarrow> chunks (coalesce (sp_batchSize spec) DEFAULT_BATCH_SIZE) addresses);
          rs = map (probe_block env spec) blocks
      in (sort_by scan_order (concat (map fst rs)), list_all snd rs))"

subsection \<open>The gap walk\<close>

definition block_size :: "UtxoAccountSpec \<Rightarrow> nat \<Rightarrow> nat \<Rightarrow> nat" where
  "block_size spec gapLimit concurrency =
     (case sp_probeMany spec of
        None \<Rightarrow> max concurrency 10
      | Some _ \<Rightarrow> max 10 (min (coalesce (sp_batchSize spec) DEFAULT_BATCH_SIZE) gapLimit))"

definition count_entry :: "UtxoAddressEntry list \<times> nat \<Rightarrow> UtxoAddressEntry \<Rightarrow> UtxoAddressEntry list \<times> nat" where
  "count_entry st e = (if touched e then (fst st @ [e], 0) else (fst st, Suc (snd st)))"

function walk_loop ::
    "scan_env \<Rightarrow> string \<Rightarrow> UtxoAccountSpec \<Rightarrow> nat \<Rightarrow> nat \<Rightarrow> nat \<Rightarrow> nat \<Rightarrow> UtxoAddressEntry list \<Rightarrow> nat \<Rightarrow>
     account_error + UtxoAddressEntry list \<times> nat \<times> bool" where
  "walk_loop env mnemonic spec chainIndex gapLimit concurrency cursor entries trailing =
     (if gapLimit \<le> trailing then Inr (entries, cursor, True)
      else case deriveUtxoAddresses env mnemonic spec chainIndex cursor (block_size spec gapLimit concurrency) of
        Inl e \<Rightarrow> Inl e
      | Inr block \<Rightarrow>
          let (probed, complete) = probeAddresses env spec block;
              cursor' = cursor + length block
          in if \<not> complete then Inr (entries @ filter touched probed, cursor', False)
             else let (entries', trailing') = foldl count_entry (entries, trailing) probed
                  in if gapLimit * 25 < cursor' then Inr (entries', cursor', False)
                     else walk_loop env mnemonic spec chainIndex gapLimit concurrency cursor' entries' trailing')"
  by pat_completeness auto

lemma derived_length:
  "deriveUtxoAddresses env mnemonic spec c start n = Inr as \<Longrightarrow>
     length as = n \<and> map Some as = map (address_at env mnemonic spec c) [start..<start + n]"
  by (auto simp: deriveUtxoAddresses_def all_some_iff split: if_splits option.splits dest: map_eq_imp_length_eq)

lemma block_size_pos: "10 \<le> block_size spec g n"
  by (simp add: block_size_def split: option.split)

termination walk_loop
proof (relation "measure (\<lambda>(env, m, spec, c, g, n, cursor, es, t). Suc (25 * g) - cursor)", goal_cases)
  case (2 env m spec c g n cursor es t block)
  have "length block = block_size spec g n" using derived_length [OF 2(2)] by simp
  then show ?case using 2 block_size_pos [of spec g n] by auto
qed simp

declare walk_loop.simps [simp del]

definition walkChain ::
    "scan_env \<Rightarrow> string \<Rightarrow> UtxoAccountSpec \<Rightarrow> nat \<Rightarrow> nat \<Rightarrow> nat \<Rightarrow> account_error + UtxoAddressEntry list \<times> nat \<times> bool" where
  "walkChain env mnemonic spec chainIndex gapLimit concurrency =
     walk_loop env mnemonic spec chainIndex gapLimit concurrency 0 [] 0"

definition maxUsedIndex :: "UtxoAddressEntry list \<Rightarrow> int" where
  "maxUsedIndex entries = foldl (\<lambda>m e. if ae_used e \<and> m < int (aa_index e) then int (aa_index e) else m) (- 1) entries"

definition scanUtxoAccount ::
    "scan_env \<Rightarrow> string \<Rightarrow> UtxoAccountSpec \<Rightarrow> nat option \<Rightarrow> nat option \<Rightarrow> account_error + UtxoAccountScan" where
  "scanUtxoAccount env mnemonic spec gap conc =
     (let gapLimit = coalesce gap DEFAULT_GAP_LIMIT; concurrency = coalesce conc SCAN_CONCURRENCY
      in case walkChain env mnemonic spec 0 gapLimit concurrency of
           Inl e \<Rightarrow> Inl e
         | Inr (receive, n0, ok0) \<Rightarrow>
      (case walkChain env mnemonic spec 1 gapLimit concurrency of
           Inl e \<Rightarrow> Inl e
         | Inr (change, n1, ok1) \<Rightarrow>
             let entries = sort_by scan_order (receive @ change)
             in Inr \<lparr>us_chain = sp_chain spec, us_accountPath = sp_accountPath spec, us_label = sp_label spec,
                     us_gapLimit = gapLimit, us_scanned = n0 + n1, us_totalSat = sum_list (map ae_balanceSat entries),
                     us_entries = entries, us_complete = (ok0 \<and> ok1),
                     us_maxUsedReceive = maxUsedIndex receive, us_maxUsedChange = maxUsedIndex change\<rparr>))"

subsection \<open>Fresh addresses\<close>

definition highest_touched :: "UtxoAccountSpec \<Rightarrow> UtxoAddressEntry list \<Rightarrow> int" where
  "highest_touched spec entries =
     foldl (\<lambda>m e. if aa_chainIndex e = 0 \<and> aa_path e = childPath (sp_accountPath spec) 0 (aa_index e) \<and> touched e \<and>
                    m < int (aa_index e) then int (aa_index e) else m) (- 1) entries"

definition first_derived :: "account_error + AddressAt list \<Rightarrow> account_error + AddressAt option" where
  "first_derived r = (case r of Inl e \<Rightarrow> Inl e | Inr [] \<Rightarrow> Inr None | Inr (a # _) \<Rightarrow> Inr (Some a))"

definition firstUnusedReceiveAddress ::
    "scan_env \<Rightarrow> string \<Rightarrow> UtxoAccountSpec \<Rightarrow> (UtxoAddressEntry list \<times> bool) option \<Rightarrow> nat option \<Rightarrow>
     account_error + AddressAt option" where
  "firstUnusedReceiveAddress env mnemonic spec summary lookahead =
     (case summary of
        None \<Rightarrow> Inr None
      | Some (entries, whole) \<Rightarrow>
          if mnemonic = [] \<or> \<not> whole then Inr None
          else first_derived (deriveUtxoAddresses env mnemonic spec 0 (nat (highest_touched spec entries + 1))
                 (max 1 (coalesce lookahead 1))))"

function lowest_free :: "nat list \<Rightarrow> nat \<Rightarrow> nat" where
  "lowest_free taken i = (if i \<in> set taken then lowest_free taken (Suc i) else i)"
  by pat_completeness auto
termination
proof (relation "measure (\<lambda>(taken, i). card (set taken \<inter> {i..}))", goal_cases)
  case (2 taken i)
  have "i \<in> set taken \<inter> {i..} - set taken \<inter> {Suc i..}" using 2 by simp
  moreover have "set taken \<inter> {Suc i..} \<subseteq> set taken \<inter> {i..}" by (intro Int_mono subset_refl) simp
  ultimately have "set taken \<inter> {Suc i..} \<subset> set taken \<inter> {i..}" by blast
  then have "card (set taken \<inter> {Suc i..}) < card (set taken \<inter> {i..})" by (intro psubset_card_mono) simp
  then show ?case by (simp only: in_measure split_conv)
qed simp

declare lowest_free.simps [simp del]

definition nextChangeIndex :: "UtxoAddressEntry list \<Rightarrow> nat" where
  "nextChangeIndex entries = lowest_free (map aa_index (filter (\<lambda>e. aa_chainIndex e = 1 \<and> touched e) entries)) 0"

definition firstUnusedChangeAddress ::
    "scan_env \<Rightarrow> string \<Rightarrow> UtxoAccountSpec \<Rightarrow> (UtxoAddressEntry list \<times> bool) option \<Rightarrow> account_error + AddressAt option" where
  "firstUnusedChangeAddress env mnemonic spec summary =
     (case summary of
        None \<Rightarrow> Inr None
      | Some (entries, whole) \<Rightarrow>
          if mnemonic = [] \<or> \<not> whole then Inr None
          else first_derived (deriveUtxoAddresses env mnemonic spec 1 (nextChangeIndex entries) 1))"

subsection \<open>How far a restore gets\<close>

definition STANDARD_GAP_LIMIT :: nat where "STANDARD_GAP_LIMIT = 20"

record RecoveryRisk =
  rk_strandedSat :: rat
  rk_strandedEntries :: "UtxoAddressEntry list"
  rk_requiredGapLimit :: int

definition on_chain :: "nat \<Rightarrow> UtxoAddressEntry list \<Rightarrow> UtxoAddressEntry list" where
  "on_chain c entries = sort_by (\<lambda>a b. aa_index a < aa_index b) (filter (\<lambda>e. aa_chainIndex e = c) entries)"

text \<open>The last used index a scanner with this limit reaches, -1 for none.\<close>

fun last_reached :: "nat \<Rightarrow> int \<Rightarrow> UtxoAddressEntry list \<Rightarrow> int" where
  "last_reached limit lastUsed [] = lastUsed"
| "last_reached limit lastUsed (e # es) =
     (if \<not> touched e then last_reached limit lastUsed es
      else if lastUsed + int limit < int (aa_index e) then lastUsed
      else last_reached limit (int (aa_index e)) es)"

definition stranded_on :: "nat \<Rightarrow> UtxoAddressEntry list \<Rightarrow> UtxoAddressEntry list" where
  "stranded_on limit onChain =
     filter (\<lambda>e. 0 < ae_balanceSat e \<and> last_reached limit (- 1) onChain + 1 + int limit \<le> int (aa_index e)) onChain"

definition required_on :: "nat \<Rightarrow> int \<Rightarrow> UtxoAddressEntry list \<Rightarrow> int" where
  "required_on limit required onChain =
     foldl (\<lambda>r e. max r (int (aa_index e) - last_reached limit (- 1) onChain)) required (stranded_on limit onChain)"

definition analyzeRecoveryRisk :: "UtxoAddressEntry list \<Rightarrow> nat \<Rightarrow> RecoveryRisk" where
  "analyzeRecoveryRisk entries limit =
     (let stranded = stranded_on limit (on_chain 0 entries) @ stranded_on limit (on_chain 1 entries)
      in \<lparr>rk_strandedSat = sum_list (map ae_balanceSat stranded), rk_strandedEntries = stranded,
          rk_requiredGapLimit = required_on limit (required_on limit (int limit) (on_chain 0 entries)) (on_chain 1 entries)\<rparr>)"

datatype gap_state = GapOk | Approaching | Stranded

record GapHeadroom =
  gh_state :: gap_state
  gh_widestGap :: int
  gh_headroom :: int
  gh_chainIndex :: "nat option"

fun gaps_between :: "nat \<Rightarrow> nat list \<Rightarrow> int list" where
  "gaps_between p [] = []"
| "gaps_between p (u # us) = (int u - int p - 1) # gaps_between u us"

definition chain_gaps :: "nat list \<Rightarrow> int list" where
  "chain_gaps used = (case used of [] \<Rightarrow> [] | u # us \<Rightarrow> int u # gaps_between u us)"

definition widest_gap :: "nat \<Rightarrow> UtxoAddressEntry list \<Rightarrow> int \<times> nat option \<Rightarrow> int \<times> nat option" where
  "widest_gap c entries st =
     foldl (\<lambda>(w, ch) g. if w < g then (g, Some c) else (w, ch)) st
       (chain_gaps (sort (map aa_index (filter (\<lambda>e. aa_chainIndex e = c \<and> touched e) entries))))"

definition assessGapHeadroom :: "UtxoAddressEntry list \<Rightarrow> nat option \<Rightarrow> nat option \<Rightarrow> GapHeadroom" where
  "assessGapHeadroom entries standardGapLimit warnWithin =
     (let limit = coalesce standardGapLimit STANDARD_GAP_LIMIT; warn = coalesce warnWithin 5;
          (widestGap, worst) = widest_gap 1 entries (widest_gap 0 entries (0, None));
          headroom = int limit - widestGap
      in \<lparr>gh_state = (if 0 < rk_strandedSat (analyzeRecoveryRisk entries limit) then Stranded
                      else if headroom \<le> int warn then Approaching else GapOk),
          gh_widestGap = widestGap, gh_headroom = headroom, gh_chainIndex = worst\<rparr>)"

subsection \<open>Choosing what to spend\<close>

record AccountSpendCandidate =
  cd_path :: string
  cd_address :: string
  cd_txid :: string
  cd_vout :: int
  cd_valueSat :: rat

record AccountSpendPlan =
  asp_inputs :: "AccountSpendCandidate list"
  asp_feeSat :: rat
  asp_changeSat :: rat
  asp_covered :: bool
  asp_shortfallSat :: rat

record TxSizing =
  overheadVB :: int
  inputVB :: int
  outputVB :: int

definition P2WPKH_SIZING :: TxSizing where "P2WPKH_SIZING = \<lparr>overheadVB = 11, inputVB = 68, outputVB = 31\<rparr>"
definition P2SH_P2WPKH_SIZING :: TxSizing where "P2SH_P2WPKH_SIZING = \<lparr>overheadVB = 11, inputVB = 91, outputVB = 32\<rparr>"
definition P2PKH_SIZING :: TxSizing where "P2PKH_SIZING = \<lparr>overheadVB = 10, inputVB = 148, outputVB = 34\<rparr>"

record spend_args =
  pa_sendSat :: rat
  pa_feePerVB :: rat
  pa_sizing :: TxSizing
  pa_dustSat :: rat
  pa_recipientOutputVB :: "int option"

definition feeFor :: "spend_args \<Rightarrow> nat \<Rightarrow> int \<Rightarrow> rat" where
  "feeFor a n outputs =
     of_int \<lceil>pa_feePerVB a * of_int (overheadVB (pa_sizing a) + int n * inputVB (pa_sizing a) +
        coalesce (pa_recipientOutputVB a) (outputVB (pa_sizing a)) + (outputs - 1) * outputVB (pa_sizing a))\<rceil>"

fun spend_loop ::
    "spend_args \<Rightarrow> AccountSpendCandidate list \<Rightarrow> rat \<Rightarrow> AccountSpendCandidate list \<Rightarrow> AccountSpendPlan" where
  "spend_loop a inputs tot [] =
     (let fee = feeFor a (max (length inputs) 1) 1
      in \<lparr>asp_inputs = inputs, asp_feeSat = fee, asp_changeSat = 0, asp_covered = False,
          asp_shortfallSat = pa_sendSat a + fee - tot\<rparr>)"
| "spend_loop a inputs tot (c # pool) =
     (let inputs = inputs @ [c]; tot = tot + cd_valueSat c;
          feeWithChange = feeFor a (length inputs) 2;
          whole = \<lparr>asp_inputs = inputs, asp_feeSat = tot - pa_sendSat a, asp_changeSat = 0, asp_covered = True,
                    asp_shortfallSat = 0\<rparr>
      in if pa_sendSat a + feeWithChange \<le> tot
         then (let change = tot - pa_sendSat a - feeWithChange
               in if pa_dustSat a < change
                  then \<lparr>asp_inputs = inputs, asp_feeSat = feeWithChange, asp_changeSat = change, asp_covered = True,
                        asp_shortfallSat = 0\<rparr>
                  else whole)
         else if pa_sendSat a + feeFor a (length inputs) 1 \<le> tot then whole
         else spend_loop a inputs tot pool)"

definition planAccountSpend :: "spend_args \<Rightarrow> AccountSpendCandidate list \<Rightarrow> AccountSpendPlan" where
  "planAccountSpend a candidates =
     spend_loop a [] 0 (sort_by (\<lambda>x y. cd_valueSat y < cd_valueSat x) candidates)"

record AccountSpendSource =
  so_path :: string
  so_address :: string
  so_chainIndex :: nat
  so_index :: nat
  so_node :: hd_node

type_synonym utxo = "string \<times> int \<times> rat"

definition safe_sat :: "rat \<Rightarrow> bool" where
  "safe_sat r = (r = of_int \<lfloor>r\<rfloor> \<and> \<bar>r\<bar> \<le> 2 ^ 53 - 1)"

definition candidate_at :: "UtxoAddressEntry \<Rightarrow> utxo \<Rightarrow> AccountSpendCandidate" where
  "candidate_at src u =
     (case u of (txid, vout, v) \<Rightarrow>
        \<lparr>cd_path = aa_path src, cd_address = aa_address src, cd_txid = txid, cd_vout = vout, cd_valueSat = v\<rparr>)"

text \<open>The loop over the funded addresses, richest first: what pays is fetched lazily, and stops when it is enough.\<close>

fun gather_loop ::
    "scan_env \<Rightarrow> string \<Rightarrow> UtxoAccountSpec \<Rightarrow> spend_args \<Rightarrow> (string \<Rightarrow> utxo list option) \<Rightarrow>
     UtxoAddressEntry list \<Rightarrow> (string \<times> AccountSpendSource) list \<Rightarrow> AccountSpendCandidate list \<Rightarrow>
     account_error + AccountSpendPlan \<times> (string \<times> AccountSpendSource) list" where
  "gather_loop env mnemonic spec a fetch [] sources candidates = Inr (planAccountSpend a candidates, sources)"
| "gather_loop env mnemonic spec a fetch (src # srcs) sources candidates =
     (case sc_child env (js_trim mnemonic) (sp_accountPath spec) (aa_chainIndex src) (aa_index src) of
        None \<Rightarrow> Inl (CannotDerive (aa_path src))
      | Some node \<Rightarrow>
          if n_private node = None then Inl (NoSigningKey (aa_path src))
          else if sp_deriveAddress spec node = None then Inl (CannotDerive (aa_path src))
          else if sp_deriveAddress spec node \<noteq> Some (aa_address src)
          then Inl (DerivationMismatch (aa_path src) (aa_address src))
          else case fetch (aa_address src) of
            None \<Rightarrow> Inl (FetchFailed (aa_address src))
          | Some utxos \<Rightarrow>
              (case List.find (\<lambda>(_, _, v). \<not> safe_sat v) utxos of
                 Some (txid, vout, _) \<Rightarrow> Inl (TooLargeToSelect txid vout)
               | None \<Rightarrow>
                   let sources = js_set (aa_address src)
                         \<lparr>so_path = aa_path src, so_address = aa_address src, so_chainIndex = aa_chainIndex src,
                          so_index = aa_index src, so_node = node\<rparr> sources;
                       candidates = candidates @ map (candidate_at src) utxos;
                       plan = planAccountSpend a candidates
                   in if asp_covered plan then Inr (plan, sources)
                      else gather_loop env mnemonic spec a fetch srcs sources candidates))"

record GatheredSpend =
  gs_plan :: AccountSpendPlan
  gs_sources :: "(string \<times> AccountSpendSource) list"
  gs_change :: AddressAt
  gs_scan :: UtxoAccountScan

definition funded :: "UtxoAddressEntry list \<Rightarrow> UtxoAddressEntry list" where
  "funded entries = sort_by (\<lambda>x y. ae_balanceSat y < ae_balanceSat x) (filter (\<lambda>e. 0 < ae_balanceSat e) entries)"

definition gatherAccountSpend ::
    "scan_env \<Rightarrow> string \<Rightarrow> UtxoAccountSpec \<Rightarrow> spend_args \<Rightarrow> nat option \<Rightarrow> (string \<Rightarrow> utxo list option) \<Rightarrow>
     account_error + GatheredSpend" where
  "gatherAccountSpend env mnemonic spec a gap fetch =
     (case scanUtxoAccount env mnemonic spec (Some (coalesce gap DEFAULT_GAP_LIMIT)) None of
        Inl e \<Rightarrow> Inl e
      | Inr scan \<Rightarrow>
          if \<not> us_complete scan then Inl CannotSeeAccount
          else (case deriveUtxoAddresses env mnemonic spec 1 (nextChangeIndex (us_entries scan)) 1 of
                  Inl e \<Rightarrow> Inl e
                | Inr [] \<Rightarrow> Inl (CannotDerive (sp_accountPath spec))
                | Inr (change # _) \<Rightarrow>
                    (case gather_loop env mnemonic spec a fetch (funded (us_entries scan)) [] [] of
                       Inl e \<Rightarrow> Inl e
                     | Inr (plan, sources) \<Rightarrow>
                         Inr \<lparr>gs_plan = plan, gs_sources = sources, gs_change = change, gs_scan = scan\<rparr>)))"

subsection \<open>The free index is the first\<close>

lemma lowest_free_first:
  "i \<le> lowest_free taken i \<and> lowest_free taken i \<notin> set taken \<and>
   (\<forall>j. i \<le> j \<and> j < lowest_free taken i \<longrightarrow> j \<in> set taken)"
proof (induction taken i rule: lowest_free.induct)
  case (1 taken i)
  show ?case
  proof (cases "i \<in> set taken")
    case True
    then have f: "lowest_free taken i = lowest_free taken (Suc i)" by (subst lowest_free.simps) simp
    note IH = 1 [OF True]
    have "j \<in> set taken" if "i \<le> j" "j < lowest_free taken (Suc i)" for j
      using that IH True by (cases "j = i") auto
    then show ?thesis using IH unfolding f by auto
  qed (subst lowest_free.simps, auto simp: lowest_free.simps [of taken i])
qed

lemma nextChangeIndex_least:
  "nextChangeIndex entries = (LEAST i. i \<notin> aa_index ` {e \<in> set entries. aa_chainIndex e = 1 \<and> touched e})"
proof -
  let ?t = "map aa_index (filter (\<lambda>e. aa_chainIndex e = 1 \<and> touched e) entries)"
  have t: "set ?t = aa_index ` {e \<in> set entries. aa_chainIndex e = 1 \<and> touched e}" by auto
  have "lowest_free ?t 0 = (LEAST i. i \<notin> set ?t)"
    using lowest_free_first [of 0 ?t] by (intro Least_equality [symmetric]) (auto simp: not_le [symmetric])
  then show ?thesis unfolding nextChangeIndex_def t .
qed

subsection \<open>A plan spends the largest outputs, as few as pay, and loses nothing\<close>

definition total_of :: "AccountSpendCandidate list \<Rightarrow> rat" where
  "total_of cs = sum_list (map cd_valueSat cs)"

definition pays :: "spend_args \<Rightarrow> nat \<Rightarrow> rat \<Rightarrow> bool" where
  "pays a n tot = (pa_sendSat a + feeFor a n 1 \<le> tot \<or> pa_sendSat a + feeFor a n 2 \<le> tot)"

definition settled_by :: "spend_args \<Rightarrow> AccountSpendPlan \<Rightarrow> bool" where
  "settled_by a p \<longleftrightarrow>
     total_of (asp_inputs p) = pa_sendSat a + asp_feeSat p + asp_changeSat p \<and>
     (if asp_changeSat p = 0
      then asp_feeSat p \<ge> feeFor a (length (asp_inputs p)) 2 \<and> asp_feeSat p \<le> feeFor a (length (asp_inputs p)) 2 + pa_dustSat a \<or>
           feeFor a (length (asp_inputs p)) 1 \<le> asp_feeSat p \<and> asp_feeSat p < feeFor a (length (asp_inputs p)) 2
      else asp_feeSat p = feeFor a (length (asp_inputs p)) 2 \<and> pa_dustSat a < asp_changeSat p)"

lemma total_of_simps [simp]: "total_of [] = 0" "total_of (xs @ ys) = total_of xs + total_of ys" "total_of (c # cs) = cd_valueSat c + total_of cs"
  by (simp_all add: total_of_def)

lemma spend_loop_result:
  assumes "tot = total_of inputs" and dust: "0 \<le> pa_dustSat a"
  shows "\<exists>n. asp_inputs (spend_loop a inputs tot pool) = inputs @ take n pool \<and> n \<le> length pool \<and>
    (\<forall>m. 0 < m \<and> (m < n \<or> \<not> asp_covered (spend_loop a inputs tot pool) \<and> m \<le> length pool) \<longrightarrow>
       \<not> pays a (length inputs + m) (tot + total_of (take m pool))) \<and>
    (if asp_covered (spend_loop a inputs tot pool)
     then 0 < n \<and> settled_by a (spend_loop a inputs tot pool) \<and> asp_shortfallSat (spend_loop a inputs tot pool) = 0
     else n = length pool \<and> asp_changeSat (spend_loop a inputs tot pool) = 0 \<and>
          asp_feeSat (spend_loop a inputs tot pool) = feeFor a (max (length inputs + n) 1) 1 \<and>
          asp_shortfallSat (spend_loop a inputs tot pool) =
            pa_sendSat a + asp_feeSat (spend_loop a inputs tot pool) - (tot + total_of pool))"
  using assms(1)
proof (induction pool arbitrary: inputs tot)
  case Nil
  then show ?case by (auto simp: Let_def)
next
  case (Cons c pool)
  let ?i = "inputs @ [c]" and ?t = "tot + cd_valueSat c"
  show ?case
  proof (cases "pays a (length ?i) ?t")
    case True
    then show ?thesis using Cons.prems dust
      by (intro exI [of _ 1]) (auto simp: Let_def pays_def settled_by_def)
  next
    case False
    then have l: "spend_loop a inputs tot (c # pool) = spend_loop a ?i ?t pool"
      by (simp add: Let_def pays_def)
    obtain n where n: "asp_inputs (spend_loop a ?i ?t pool) = ?i @ take n pool" "n \<le> length pool"
        "\<And>m. 0 < m \<Longrightarrow> (m < n \<or> \<not> asp_covered (spend_loop a ?i ?t pool) \<and> m \<le> length pool) \<Longrightarrow>
           \<not> pays a (length ?i + m) (?t + total_of (take m pool))"
        "if asp_covered (spend_loop a ?i ?t pool)
         then 0 < n \<and> settled_by a (spend_loop a ?i ?t pool) \<and> asp_shortfallSat (spend_loop a ?i ?t pool) = 0
         else n = length pool \<and> asp_changeSat (spend_loop a ?i ?t pool) = 0 \<and>
              asp_feeSat (spend_loop a ?i ?t pool) = feeFor a (max (length ?i + n) 1) 1 \<and>
              asp_shortfallSat (spend_loop a ?i ?t pool) =
                pa_sendSat a + asp_feeSat (spend_loop a ?i ?t pool) - (?t + total_of pool)"
      using Cons.IH [of ?t ?i] Cons.prems by (auto simp: add.commute)
    have "\<not> pays a (length inputs + m) (tot + total_of (take m (c # pool)))"
      if m: "0 < m" "m < Suc n \<or> \<not> asp_covered (spend_loop a ?i ?t pool) \<and> m \<le> Suc (length pool)" for m
    proof (cases m)
      case (Suc k)
      show ?thesis
      proof (cases "k = 0")
        case True
        then show ?thesis using False Suc by simp
      next
        case k: False
        then show ?thesis using n(3) [of k] m Suc by (auto simp: add.assoc)
      qed
    qed (use m in simp)
    then show ?thesis unfolding l using n(1,2,4)
      by (intro exI [of _ "Suc n"]) (auto simp: add.assoc split: if_splits)
  qed
qed

lemma richest_first:
  fixes f :: "'a \<Rightarrow> rat"
  assumes "by_less (\<lambda>x y. f y < f x) xs" "S \<subseteq># mset xs"
  shows "(\<Sum>x\<in>#S. f x) \<le> sum_list (map f (take (size S) xs))"
  using assms
proof (induction xs arbitrary: S)
  case (Cons x xs)
  show ?case
  proof (cases "S = {#}")
    case False
    obtain y where y: "y \<in># S" "S - {#y#} \<subseteq># mset xs" "f y \<le> f x"
    proof (cases "x \<in># S")
      case True
      then show thesis using that [of x] Cons.prems(2) by (simp add: subset_eq_diff_conv)
    next
      case out: False
      have s: "S \<subseteq># mset xs" unfolding subseteq_mset_def
      proof
        fix z
        show "count S z \<le> count (mset xs) z"
          using mset_subset_eq_count [OF Cons.prems(2), of z] out by (cases "z = x") (auto simp: not_in_iff)
      qed
      obtain y where "y \<in># S" using False by blast
      moreover have "y \<in> set xs" using mset_subset_eqD [OF s] calculation by simp
      moreover have "S - {#y#} \<subseteq># mset xs" using s by (rule subset_mset.order_trans [OF diff_subset_eq_self])
      ultimately show thesis using that [of y] Cons.prems(1) by (simp add: not_less)
    qed
    obtain T where T: "S = add_mset y T" using y(1) by (meson multi_member_split)
    have "by_less (\<lambda>x y. f y < f x) xs" using Cons.prems(1) by simp
    then show ?thesis using Cons.IH [of T] y(2,3) unfolding T by simp
  qed simp
qed simp

lemma weak_order_key_desc: "weak_order (\<lambda>x y. (f y :: 'b::linorder) < f x)"
  unfolding weak_order_def by auto

lemma pool_total:
  assumes "pool = sort_by (\<lambda>x y. cd_valueSat y < cd_valueSat x) cs"
  shows "S \<subseteq># mset cs \<Longrightarrow> (\<Sum>x\<in>#S. cd_valueSat x) \<le> total_of (take (size S) pool)"
    and "total_of pool = total_of cs" and "mset (take n pool) \<subseteq># mset cs"
proof -
  have b: "by_less (\<lambda>x y. cd_valueSat y < cd_valueSat x) pool"
    unfolding assms by (rule by_less_sort_by [OF weak_order_key_desc])
  have m: "mset pool = mset cs" by (simp add: assms)
  show "S \<subseteq># mset cs \<Longrightarrow> (\<Sum>x\<in>#S. cd_valueSat x) \<le> total_of (take (size S) pool)"
    using richest_first [OF b] m by (simp add: total_of_def)
  show "total_of pool = total_of cs" unfolding total_of_def using m by (metis mset_map sum_mset_sum_list)
  show "mset (take n pool) \<subseteq># mset cs" unfolding m [symmetric] by (metis append_take_drop_id mset_append mset_subset_eq_add_left)
qed

lemma pays_mono: "pays a n t \<Longrightarrow> t \<le> t' \<Longrightarrow> pays a n t'"
  unfolding pays_def by force

lemma feeFor_mono:
  assumes "0 \<le> pa_feePerVB a" "0 \<le> outputVB (pa_sizing a)"
  shows "feeFor a n 1 \<le> feeFor a n 2"
proof -
  let ?s = "pa_sizing a"
  have "pa_feePerVB a * of_int (overheadVB ?s + int n * inputVB ?s + coalesce (pa_recipientOutputVB a) (outputVB ?s)) \<le>
      pa_feePerVB a * of_int (overheadVB ?s + int n * inputVB ?s + coalesce (pa_recipientOutputVB a) (outputVB ?s) + outputVB ?s)"
    by (intro mult_left_mono) (use assms in simp_all)
  then show ?thesis by (simp add: feeFor_def ceiling_mono)
qed

lemma plan_result:
  assumes "0 \<le> pa_dustSat a"
  shows "\<exists>n. asp_inputs (planAccountSpend a cs) = take n (sort_by (\<lambda>x y. cd_valueSat y < cd_valueSat x) cs) \<and>
    n \<le> length cs \<and>
    (\<forall>m. 0 < m \<and> (m < n \<or> \<not> asp_covered (planAccountSpend a cs) \<and> m \<le> length cs) \<longrightarrow>
       \<not> pays a m (total_of (take m (sort_by (\<lambda>x y. cd_valueSat y < cd_valueSat x) cs)))) \<and>
    (if asp_covered (planAccountSpend a cs) then 0 < n \<and> settled_by a (planAccountSpend a cs)
     else n = length cs \<and> asp_shortfallSat (planAccountSpend a cs) = pa_sendSat a + feeFor a (max n 1) 1 - total_of cs)"
proof -
  let ?pool = "sort_by (\<lambda>x y. cd_valueSat y < cd_valueSat x) cs" and ?p = "planAccountSpend a cs"
  have p: "spend_loop a [] 0 ?pool = ?p" by (simp add: planAccountSpend_def)
  have t: "total_of ?pool = total_of cs" by (rule pool_total(2) [OF refl])
  obtain n where n: "asp_inputs ?p = take n ?pool" "n \<le> length cs"
      "\<forall>m. 0 < m \<and> (m < n \<or> \<not> asp_covered ?p \<and> m \<le> length cs) \<longrightarrow> \<not> pays a m (total_of (take m ?pool))"
      "if asp_covered ?p then 0 < n \<and> settled_by a ?p \<and> asp_shortfallSat ?p = 0
       else n = length cs \<and> asp_changeSat ?p = 0 \<and> asp_feeSat ?p = feeFor a (max n 1) 1 \<and>
            asp_shortfallSat ?p = pa_sendSat a + asp_feeSat ?p - total_of cs"
    using spend_loop_result [OF total_of_simps(1) [symmetric] assms, of ?pool, unfolded p t append_Nil list.size add_0 length_sort_by]
    by blast
  show ?thesis using n by (intro exI [of _ n] conjI) (simp_all split: if_splits)
qed

lemma plan_settled:
  assumes "0 \<le> pa_feePerVB a" "0 \<le> outputVB (pa_sizing a)" "0 \<le> pa_dustSat a"
    "asp_covered (planAccountSpend a cs)"
  shows "let p = planAccountSpend a cs; n = length (asp_inputs p)
    in mset (asp_inputs p) \<subseteq># mset cs \<and> 0 < n \<and>
       total_of (asp_inputs p) = pa_sendSat a + asp_feeSat p + asp_changeSat p \<and>
       feeFor a n (if asp_changeSat p = 0 then 1 else 2) \<le> asp_feeSat p \<and>
       asp_feeSat p \<le> feeFor a n 2 + (if asp_changeSat p = 0 then pa_dustSat a else 0) \<and>
       (asp_changeSat p = 0 \<or> pa_dustSat a < asp_changeSat p)"
proof -
  let ?pool = "sort_by (\<lambda>x y. cd_valueSat y < cd_valueSat x) cs" and ?p = "planAccountSpend a cs"
  obtain n where n: "asp_inputs ?p = take n ?pool" "0 < n" "n \<le> length cs" "settled_by a ?p"
    using plan_result [OF assms(3), of cs] assms(4) by (simp only: if_True) blast
  then have "0 < length (asp_inputs ?p)" by auto
  moreover have "mset (asp_inputs ?p) \<subseteq># mset cs" unfolding n(1) by (rule pool_total(3) [OF refl])
  ultimately show ?thesis using n(4) feeFor_mono [OF assms(1,2), of "length (asp_inputs ?p)"] assms(3)
    unfolding settled_by_def Let_def by auto
qed

lemma fee_of_change:
  "feeFor a n 2 \<le> feeFor a n 1 + of_int \<lceil>pa_feePerVB a * of_int (outputVB (pa_sizing a))\<rceil>"
proof -
  let ?s = "pa_sizing a"
  let ?x = "pa_feePerVB a * of_int (overheadVB ?s + int n * inputVB ?s + coalesce (pa_recipientOutputVB a) (outputVB ?s))"
  have "\<lceil>?x + pa_feePerVB a * of_int (outputVB ?s)\<rceil> \<le> \<lceil>?x\<rceil> + \<lceil>pa_feePerVB a * of_int (outputVB ?s)\<rceil>"
    by (rule ceiling_add_le)
  then have "(of_int \<lceil>?x + pa_feePerVB a * of_int (outputVB ?s)\<rceil> :: rat) \<le> of_int (\<lceil>?x\<rceil> + \<lceil>pa_feePerVB a * of_int (outputVB ?s)\<rceil>)"
    by (simp only: of_int_le_iff)
  then show ?thesis by (simp add: feeFor_def distrib_left)
qed

text \<open>C18. A covered plan keeps every base unit: what it spends is what is sent, the fee and the change. With a
  change output, which is more than dust, the fee is exactly the price of the transaction's size.
  Without one the fee is at least the price of that size; what goes to the fee beyond it is
  less than a change output would have cost and left as dust: at most the price of that output, rounded up,
  and the dust limit.\<close>

theorem plan_keeps_every_unit:
  assumes "0 \<le> pa_feePerVB a" "0 \<le> outputVB (pa_sizing a)" "0 \<le> pa_dustSat a"
    "asp_covered (planAccountSpend a cs)"
  shows "let p = planAccountSpend a cs; n = length (asp_inputs p)
    in mset (asp_inputs p) \<subseteq># mset cs \<and> 0 < n \<and>
       total_of (asp_inputs p) = pa_sendSat a + asp_feeSat p + asp_changeSat p \<and>
       (if asp_changeSat p = 0
        then feeFor a n 1 \<le> asp_feeSat p \<and> asp_feeSat p \<le> feeFor a n 2 + pa_dustSat a \<and>
             asp_feeSat p \<le> feeFor a n 1 + of_int \<lceil>pa_feePerVB a * of_int (outputVB (pa_sizing a))\<rceil> + pa_dustSat a
        else asp_feeSat p = feeFor a n 2 \<and> pa_dustSat a < asp_changeSat p)"
  using plan_settled [OF assms] fee_of_change [of a "length (asp_inputs (planAccountSpend a cs))"]
  by (auto simp: Let_def)

text \<open>C32. A plan spends as few outputs as can pay: no choice of fewer of them covers the amount and its own
  fee, and when the plan is not covered no choice at all does, so a shortfall is never false. The
  shortfall is what all of them together lack.\<close>

theorem plan_spends_fewest:
  assumes "0 \<le> pa_dustSat a" "S \<subseteq># mset cs" "S \<noteq> {#}"
    "size S < length (asp_inputs (planAccountSpend a cs)) \<or> \<not> asp_covered (planAccountSpend a cs)"
  shows "\<not> pays a (size S) (\<Sum>c\<in>#S. cd_valueSat c) \<and>
    (asp_covered (planAccountSpend a cs) \<or>
     total_of cs + asp_shortfallSat (planAccountSpend a cs) = pa_sendSat a + feeFor a (length cs) 1)"
proof -
  let ?pool = "sort_by (\<lambda>x y. cd_valueSat y < cd_valueSat x) cs" and ?p = "planAccountSpend a cs"
  obtain n where n: "asp_inputs ?p = take n ?pool" "n \<le> length cs"
      "\<forall>m. 0 < m \<and> (m < n \<or> \<not> asp_covered ?p \<and> m \<le> length cs) \<longrightarrow> \<not> pays a m (total_of (take m ?pool))"
      "if asp_covered ?p then 0 < n \<and> settled_by a ?p
       else n = length cs \<and> asp_shortfallSat ?p = pa_sendSat a + feeFor a (max n 1) 1 - total_of cs"
    using plan_result [OF assms(1), of cs] by blast
  have s: "size S \<le> length cs" "0 < size S"
    using assms(2,3) size_mset_mono [OF assms(2)] by (simp_all add: nonempty_has_size)
  then have "\<not> pays a (size S) (total_of (take (size S) ?pool))" using n(1-3) assms(4) by auto
  then have "\<not> pays a (size S) (\<Sum>c\<in>#S. cd_valueSat c)"
    using pays_mono pool_total(1) [OF refl assms(2)] by blast
  moreover have "max (length cs) 1 = length cs" using s by linarith
  ultimately show ?thesis using n(4) by (auto split: if_splits)
qed

definition sample_candidates :: "AccountSpendCandidate list" where
  "sample_candidates =
     map (\<lambda>(n, v). \<lparr>cd_path = ''p'', cd_address = ''a'', cd_txid = ''t'', cd_vout = n, cd_valueSat = v\<rparr>)
       [(0, 3000), (1, 90000), (2, 20000)]"

definition sample_spend :: spend_args where
  "sample_spend = \<lparr>pa_sendSat = 100000, pa_feePerVB = 3, pa_sizing = P2WPKH_SIZING, pa_dustSat = 546, pa_recipientOutputVB = None\<rparr>"

lemma plan_keeps_every_unit_witness:
  "let p = planAccountSpend sample_spend sample_candidates
   in total_of (asp_inputs p) = 100000 + asp_feeSat p + asp_changeSat p \<and> asp_feeSat p = 627"
proof -
  have c: "asp_covered (planAccountSpend sample_spend sample_candidates)"
      "asp_feeSat (planAccountSpend sample_spend sample_candidates) = 627"
    by code_simp+
  from plan_keeps_every_unit [OF _ _ _ c(1)] c(2) show ?thesis
    by (simp add: Let_def sample_spend_def P2WPKH_SIZING_def)
qed

lemma plan_spends_fewest_witness:
  "\<not> pays sample_spend 1 (cd_valueSat (sample_candidates ! 1))"
proof -
  have "length (asp_inputs (planAccountSpend sample_spend sample_candidates)) = 2" by code_simp
  moreover have "{#sample_candidates ! 1#} \<subseteq># mset sample_candidates" by (simp add: sample_candidates_def)
  ultimately show ?thesis
    using plan_spends_fewest [of sample_spend "{#sample_candidates ! 1#}" sample_candidates]
    by (simp add: sample_spend_def)
qed

subsection \<open>What a restore finds\<close>

text \<open>A scanner with a gap limit finds the used index \<open>i\<close> exactly when no run of that many unused
  indices lies before it.\<close>

definition found_by_gap :: "nat \<Rightarrow> nat set \<Rightarrow> nat \<Rightarrow> bool" where
  "found_by_gap limit used i \<longleftrightarrow> (\<forall>n. n + limit \<le> i \<longrightarrow> (\<exists>j \<in> used. n \<le> j \<and> j < n + limit))"

definition used_indices :: "UtxoAddressEntry list \<Rightarrow> nat set" where
  "used_indices es = aa_index ` {e \<in> set es. touched e}"

lemma used_indices_simps [simp]:
  "used_indices [] = {}"
  "used_indices (e # es) = (if touched e then insert (aa_index e) (used_indices es) else used_indices es)"
  by (auto simp: used_indices_def)

lemma last_reached_spec:
  fixes limit :: nat
  assumes "sorted (map aa_index es)" "\<forall>e \<in> set es. p \<le> int (aa_index e)"
  defines "r \<equiv> last_reached limit p es"
  shows "p \<le> r \<and> (r = p \<or> (\<exists>j \<in> used_indices es. r = int j)) \<and>
    (\<forall>j \<in> used_indices es. \<not> (r < int j \<and> int j \<le> r + int limit)) \<and>
    (\<forall>n. p < n \<and> n + int limit \<le> r \<longrightarrow> (\<exists>j \<in> used_indices es. n \<le> int j \<and> int j < n + int limit))"
  unfolding r_def using assms(1,2)
proof (induction es arbitrary: p)
  case (Cons e es)
  show ?case
  proof (cases "touched e \<and> int (aa_index e) \<le> p + int limit")
    case True
    let ?i = "int (aa_index e)" and ?r = "last_reached limit (int (aa_index e)) es"
    have IH: "?i \<le> ?r \<and> (?r = ?i \<or> (\<exists>j \<in> used_indices es. ?r = int j)) \<and>
      (\<forall>j \<in> used_indices es. \<not> (?r < int j \<and> int j \<le> ?r + int limit)) \<and>
      (\<forall>n. ?i < n \<and> n + int limit \<le> ?r \<longrightarrow> (\<exists>j \<in> used_indices es. n \<le> int j \<and> int j < n + int limit))"
      using Cons.prems by (intro Cons.IH) auto
    have "\<exists>j \<in> used_indices (e # es). n \<le> int j \<and> int j < n + int limit" if "p < n" "n + int limit \<le> ?r" for n
    proof (cases "?i < n")
      case c: True
      then show ?thesis using IH that True by auto
    next
      case False
      then show ?thesis using that True by (intro bexI [of _ "aa_index e"]) auto
    qed
    then show ?thesis using IH True Cons.prems(2) by auto
  next
    case False
    show ?thesis
    proof (cases "touched e")
      case t: True
      have "\<forall>j \<in> used_indices (e # es). p + int limit < int j"
        using t False Cons.prems(1) by (fastforce simp: used_indices_def)
      then show ?thesis using t False by fastforce
    next
      case t: False
      then show ?thesis using Cons.IH [of p] Cons.prems by simp
    qed
  qed
qed simp

lemma on_chain_facts:
  "set (on_chain c es) = {e \<in> set es. aa_chainIndex e = c}" "sorted (map aa_index (on_chain c es))"
  "used_indices (on_chain c es) = aa_index ` {e \<in> set es. aa_chainIndex e = c \<and> touched e}"
proof -
  show s: "set (on_chain c es) = {e \<in> set es. aa_chainIndex e = c}" by (auto simp: on_chain_def)
  have "by_less (\<lambda>a b. aa_index a < aa_index b) (on_chain c es)"
    unfolding on_chain_def by (rule by_less_sort_by [OF weak_order_key])
  then show "sorted (map aa_index (on_chain c es))" by (simp add: sorted_wrt_map not_less)
  show "used_indices (on_chain c es) = aa_index ` {e \<in> set es. aa_chainIndex e = c \<and> touched e}"
    unfolding used_indices_def s by (rule arg_cong [of _ _ "(`) aa_index"]) auto
qed

lemma reached_by_gap:
  fixes limit :: nat
  assumes "e \<in> set es" "aa_chainIndex e = c" "touched e"
  defines "r \<equiv> last_reached limit (- 1) (on_chain c es)" and "U \<equiv> used_indices (on_chain c es)"
  shows "found_by_gap limit U (aa_index e) \<longleftrightarrow> int (aa_index e) < r + 1 + int limit"
    and "r = - 1 \<or> (\<exists>j \<in> U. r = int j)"
    and "\<And>n. int n + int limit \<le> r \<Longrightarrow> \<exists>j \<in> U. n \<le> j \<and> j < n + limit"
proof -
  note s = last_reached_spec [OF on_chain_facts(2), of c es "- 1" limit, folded r_def U_def]
  have p: "- 1 \<le> r" "r = - 1 \<or> (\<exists>j \<in> U. r = int j)"
      "\<forall>j \<in> U. \<not> (r < int j \<and> int j \<le> r + int limit)"
      "\<forall>n. - 1 < n \<and> n + int limit \<le> r \<longrightarrow> (\<exists>j \<in> U. n \<le> int j \<and> int j < n + int limit)"
    using s by auto
  have u: "aa_index e \<in> U" unfolding U_def on_chain_facts(3) using assms(1-3) by blast
  show "r = - 1 \<or> (\<exists>j \<in> U. r = int j)" by (rule p(2))
  show w: "\<exists>j \<in> U. n \<le> j \<and> j < n + limit" if "int n + int limit \<le> r" for n
    using p(4) [rule_format, of "int n"] that by force
  show "found_by_gap limit U (aa_index e) \<longleftrightarrow> int (aa_index e) < r + 1 + int limit"
  proof
    assume f: "found_by_gap limit U (aa_index e)"
    show "int (aa_index e) < r + 1 + int limit"
    proof (rule ccontr)
      assume "\<not> int (aa_index e) < r + 1 + int limit"
      then have "nat (r + 1) + limit \<le> aa_index e" using p(1) by linarith
      then obtain j where "j \<in> U" "nat (r + 1) \<le> j" "j < nat (r + 1) + limit" using f by (auto simp: found_by_gap_def)
      then show False using p(1) p(3) [rule_format, of j] by linarith
    qed
  next
    assume "int (aa_index e) < r + 1 + int limit"
    then have "int (aa_index e) \<le> r" using p(3) [rule_format, OF u] by linarith
    then show "found_by_gap limit U (aa_index e)" unfolding found_by_gap_def using w by force
  qed
qed

text \<open>C35. The funds reported as stranded are exactly those a restore with the standard gap limit does not
  find: money at a used index behind a run of that many unused ones, on either chain.\<close>

theorem stranded_iff_not_found:
  "set (rk_strandedEntries (analyzeRecoveryRisk entries limit)) =
     {e \<in> set entries. aa_chainIndex e < 2 \<and> 0 < ae_balanceSat e \<and>
        \<not> found_by_gap limit (aa_index ` {x \<in> set entries. aa_chainIndex x = aa_chainIndex e \<and> touched x}) (aa_index e)}"
proof -
  have s: "set (stranded_on limit (on_chain c entries)) =
      {e \<in> set entries. aa_chainIndex e = c \<and> 0 < ae_balanceSat e \<and>
         \<not> found_by_gap limit (aa_index ` {x \<in> set entries. aa_chainIndex x = c \<and> touched x}) (aa_index e)}" for c
    using reached_by_gap(1) [of _ entries c limit]
    by (auto simp: stranded_on_def on_chain_facts touched_def not_less)
  show ?thesis unfolding analyzeRecoveryRisk_def Let_def RecoveryRisk.simps set_append s
    by (auto simp: less_2_cases_iff)
qed

lemma foldl_max: "(r :: int) \<le> foldl (\<lambda>r e. max r (f e)) r es \<and> (\<forall>e \<in> set es. f e \<le> foldl (\<lambda>r e. max r (f e)) r es)"
proof (induction es arbitrary: r)
  case (Cons e es)
  show ?case using Cons [of "max r (f e)"] by auto
qed simp

text \<open>C38. The gap limit that is recommended for a restore is enough: a scanner that uses it misses no funds.\<close>

theorem required_limit_finds_all:
  "rk_strandedEntries (analyzeRecoveryRisk entries (nat (rk_requiredGapLimit (analyzeRecoveryRisk entries limit)))) = []"
proof -
  let ?R = "rk_requiredGapLimit (analyzeRecoveryRisk entries limit)"
  have lim: "int limit \<le> ?R" and
      req: "\<And>c e. c < 2 \<Longrightarrow> e \<in> set (stranded_on limit (on_chain c entries)) \<Longrightarrow>
        int (aa_index e) - last_reached limit (- 1) (on_chain c entries) \<le> ?R"
    using foldl_max [of "int limit" "\<lambda>e. int (aa_index e) - last_reached limit (- 1) (on_chain 0 entries)" "stranded_on limit (on_chain 0 entries)"]
      foldl_max [of "required_on limit (int limit) (on_chain 0 entries)" "\<lambda>e. int (aa_index e) - last_reached limit (- 1) (on_chain 1 entries)" "stranded_on limit (on_chain 1 entries)"]
    by (auto simp: analyzeRecoveryRisk_def Let_def required_on_def less_2_cases_iff dest: order_trans)
  have False if e: "e \<in> set (rk_strandedEntries (analyzeRecoveryRisk entries (nat ?R)))" for e
  proof -
    let ?c = "aa_chainIndex e"
    let ?U = "used_indices (on_chain ?c entries)" and ?r = "last_reached limit (- 1) (on_chain ?c entries)"
    have m: "e \<in> set entries" "?c < 2" "touched e" "\<not> found_by_gap (nat ?R) ?U (aa_index e)"
      using e by (auto simp: stranded_iff_not_found on_chain_facts touched_def)
    then obtain n where n: "n + nat ?R \<le> aa_index e" "\<forall>j \<in> ?U. \<not> (n \<le> j \<and> j < n + nat ?R)"
      by (auto simp: found_by_gap_def)
    note r = reached_by_gap [OF m(1) refl m(3), where limit = limit]
    have lim': "limit \<le> nat ?R" using lim by linarith
    have bare: "\<not> (n \<le> j \<and> j < n + limit)" if "j \<in> ?U" for j
      using n(2) [rule_format, OF that] lim' by linarith
    have "n + limit \<le> aa_index e" using n(1) lim' by linarith
    then have "\<not> found_by_gap limit ?U (aa_index e)" using bare unfolding found_by_gap_def by blast
    then have far: "?r + 1 + int limit \<le> int (aa_index e)" using r(1) by linarith
    then have "e \<in> set (stranded_on limit (on_chain ?c entries))"
      using e by (auto simp: stranded_on_def on_chain_facts stranded_iff_not_found)
    then have "int (aa_index e) - ?r \<le> ?R" using req m(2) by blast
    then have le: "int n \<le> ?r" using n(1) lim by linarith
    then obtain j where j: "j \<in> ?U" "?r = int j" using r(2) by auto
    have "n + nat ?R \<le> j" using n(2) [rule_format, OF j(1)] le j(2) by linarith
    then have "int n + int limit \<le> ?r" using j(2) lim' by linarith
    then show False using r(3) bare by blast
  qed
  then show ?thesis by (metis last_in_set)
qed

text \<open>It is not always the least such limit: it is measured from the last index the standard scanner
  reaches, though the funds it finds first would start the count again.\<close>

definition sample_entry :: "nat \<Rightarrow> UtxoAddressEntry" where
  "sample_entry i = \<lparr>aa_path = [], aa_address = [], aa_chainIndex = 1, aa_index = i, ae_balanceSat = 7, ae_used = True\<rparr>"

lemma required_limit_not_least:
  "rk_requiredGapLimit (analyzeRecoveryRisk [sample_entry 30, sample_entry 50] 20) = 51"
  "rk_strandedEntries (analyzeRecoveryRisk [sample_entry 30, sample_entry 50] 31) = []"
  by code_simp+

end
