(* ===== verification/BtcSpeedUp.thy ===== *)
theory BtcSpeedUp
  imports Fees BtcRecords UtxoAccount
begin

section \<open>Speeding up a Bitcoin transaction: wallets/btc-rbf.ts\<close>

text \<open>
  Reading the original from two explorers, finding the wallet's keys, choosing the change output, pricing,
  building and checking the replacement, and sending it once. bitcoinjs-lib (transactions, addresses,
  signing), HDKey and \<open>JSON.parse\<close> are fields of an environment, as are the explorers' replies per path;
  a reply's body may throw while it is read. A transaction of the library is a record of what the code
  reads of it. Satoshi amounts are integers.
\<close>

subsection \<open>Transactions and refusals\<close>

record tx_in =
  ti_hash :: "byte list"
  ti_index :: int
  ti_sequence :: int

record tx_out =
  to_script :: "byte list"
  to_value :: int

record btc_tx =
  bx_id :: string
  bx_hex :: string
  bx_version :: int
  bx_locktime :: int
  bx_ins :: "tx_in list"
  bx_outs :: "tx_out list"
  bx_vsize :: int

datatype BtcSpeedUpRefusalCode =
    AlreadyReplaced
  | NotFound
  | AlreadyConfirmed
  | NotRbf
  | NotOwnTx
  | NotOwnInputs
  | Descendants nat
  | NoChange
  | AmbiguousChange
  | DustChange
  | InFlight

datatype rbf_error =
    Refusal BtcSpeedUpRefusalCode
  | NotATxid
  | Unreadable "string list"
  | ExplorerNotJson
  | ExplorerInconsistent
  | OutspendsUnreadable
  | KeyError
  | CannotPrice plan_error
  | FeeChanged int
  | CannotSpend
  | SigningFailed thrown
  | ReplacementStopped
  | BroadcastFailed send_outcome

subsection \<open>Reading the explorers\<close>

datatype esplora_reply = EThrown thrown | EReply int "thrown + string"

definition is_ok :: "int \<Rightarrow> bool" where "is_ok st = (200 \<le> st \<and> st \<le> 299)"

definition host_failure :: "string \<Rightarrow> thrown \<Rightarrow> string" where
  "host_failure host e = host @ '': '' @ errorText e ''request failed''"

definition host_status :: "string \<Rightarrow> int \<Rightarrow> string" where
  "host_status host st = host @ '': HTTP '' @ nat_str (nat st)"

text \<open>\<open>esploraText\<close>: the first body, \<open>missing\<close> (None) when every host answered 404, or every failure.\<close>

fun esplora_from :: "(string \<times> esplora_reply) list \<Rightarrow> string list \<Rightarrow> nat \<Rightarrow> rbf_error + string option" where
  "esplora_from [] failures missing =
     (if failures = [] \<and> 0 < missing then Inr None else Inl (Unreadable failures))"
| "esplora_from ((host, r) # rs) failures missing =
     (case r of
        EThrown e \<Rightarrow> esplora_from rs (failures @ [host_failure host e]) missing
      | EReply st body \<Rightarrow>
          if st = 404 then esplora_from rs failures (Suc missing)
          else (case body of
                  Inl e \<Rightarrow> esplora_from rs (failures @ [host_failure host e]) missing
                | Inr b \<Rightarrow> if is_ok st then Inr (Some b) else esplora_from rs (failures @ [host_status host st]) missing))"

definition esploraText :: "(string \<times> esplora_reply) list \<Rightarrow> rbf_error + string option" where
  "esploraText replies = esplora_from replies [] 0"

text \<open>The raw transaction, from the first host whose bytes hash to the id.\<close>

fun raw_from ::
    "(string \<Rightarrow> thrown + btc_tx) \<Rightarrow> string \<Rightarrow> (string \<times> esplora_reply) list \<Rightarrow> string list \<Rightarrow> nat \<Rightarrow>
     rbf_error + btc_tx option" where
  "raw_from fromHex txid [] failures missing =
     (if failures = [] \<and> 0 < missing then Inr None else Inl (Unreadable failures))"
| "raw_from fromHex txid ((host, r) # rs) failures missing =
     (case r of
        EThrown e \<Rightarrow> raw_from fromHex txid rs (failures @ [host_failure host e]) missing
      | EReply st body \<Rightarrow>
          if st = 404 then raw_from fromHex txid rs failures (Suc missing)
          else (case body of
                  Inl e \<Rightarrow> raw_from fromHex txid rs (failures @ [host_failure host e]) missing
                | Inr b \<Rightarrow>
                    if \<not> is_ok st then raw_from fromHex txid rs (failures @ [host_status host st]) missing
                    else (case fromHex (js_trim b) of
                            Inl e \<Rightarrow> raw_from fromHex txid rs (failures @ [host_failure host e]) missing
                          | Inr tx \<Rightarrow>
                              if bx_id tx \<noteq> txid
                              then raw_from fromHex txid rs (failures @ [host @ '': served a different transaction'']) missing
                              else Inr (Some tx))))"

definition fetchRawBtcTx ::
    "(string \<Rightarrow> thrown + btc_tx) \<Rightarrow> string \<Rightarrow> (string \<times> esplora_reply) list \<Rightarrow> rbf_error + btc_tx option" where
  "fetchRawBtcTx fromHex txid replies = raw_from fromHex txid replies [] 0"

definition strict_hexToBytes :: "string \<Rightarrow> byte list option" where
  "strict_hexToBytes hex =
     (if even (length hex) \<and> list_all (\<lambda>c. hex_val c \<noteq> None) hex then Some (hex_pairs hex) else None)"

definition txidOfInput :: "tx_in \<Rightarrow> string" where
  "txidOfInput input = bytesToHex (rev (ti_hash input))"

record prevout =
  po_script :: "byte list"
  po_valueSat :: int
  po_address :: "string option"

record BtcTxOnChain =
  oc_txid :: string
  oc_tx :: btc_tx
  oc_prevouts :: "prevout list"
  oc_confirmed :: bool
  oc_feeSat :: int
  oc_vsize :: int

record rbf_env =
  e_get :: "string \<Rightarrow> (string \<times> esplora_reply) list"
  e_parse :: "string \<Rightarrow> json option"
  e_numText :: "rat \<Rightarrow> string"
  e_fromHex :: "string \<Rightarrow> thrown + btc_tx"
  e_addressOf :: "byte list \<Rightarrow> string option"
  e_toOutputScript :: "string \<Rightarrow> byte list option"
  e_addressFor :: "byte list \<Rightarrow> BtcSpendKind \<Rightarrow> string"
  e_outputFor :: "byte list \<Rightarrow> BtcSpendKind \<Rightarrow> byte list"
  e_derive :: "string \<Rightarrow> string \<Rightarrow> hd_node option"
  e_child :: "string \<Rightarrow> string \<Rightarrow> nat \<Rightarrow> nat \<Rightarrow> hd_node"
  e_seedOk :: "string \<Rightarrow> bool"
  e_keyPair :: "byte list \<Rightarrow> (byte list \<times> byte list) option"

text \<open>\<open>String(v?.txid ?? "")\<close>\<close>

definition text_of :: "rbf_env \<Rightarrow> json option \<Rightarrow> string" where
  "text_of env v = (case v of None \<Rightarrow> [] | Some JNull \<Rightarrow> [] | Some x \<Rightarrow> js_String (e_numText env) x)"

definition normTxid :: "string \<Rightarrow> string option" where
  "normTxid txid = (let t = to_lower (js_trim txid) in if rx_test False TXID t then Some t else None)"

definition safe_value :: "json option \<Rightarrow> int option" where
  "safe_value v =
     (case jnum v of
        None \<Rightarrow> None
      | Some r \<Rightarrow> if r = of_int \<lfloor>r\<rfloor> \<and> \<bar>r\<bar> \<le> 2 ^ 53 - 1 \<and> 0 \<le> r then Some \<lfloor>r\<rfloor> else None)"

text \<open>What input \<open>i\<close> spends, as the explorer says; None where the code throws.\<close>

definition read_prevout :: "rbf_env \<Rightarrow> json \<Rightarrow> tx_in \<Rightarrow> prevout option" where
  "read_prevout env v input =
     (if to_lower (text_of env (jget v ''txid'')) \<noteq> txidOfInput input \<or> jnum (jget v ''vout'') \<noteq> Some (of_int (ti_index input))
      then None
      else case (jstr (jprop (jget v ''prevout'') ''scriptpubkey''), safe_value (jprop (jget v ''prevout'') ''value'')) of
             (Some spk, Some value) \<Rightarrow>
               map_option (\<lambda>script. \<lparr>po_script = script, po_valueSat = value, po_address = e_addressOf env script\<rparr>)
                 (strict_hexToBytes spk)
           | _ \<Rightarrow> None)"

definition vin_of :: "json \<Rightarrow> json list" where
  "vin_of v = (case jget v ''vin'' of Some (JArr xs) \<Rightarrow> xs | _ \<Rightarrow> [])"

definition outSum :: "btc_tx \<Rightarrow> int" where "outSum tx = sum_list (map to_value (bx_outs tx))"

definition check_original :: "rbf_env \<Rightarrow> string \<Rightarrow> json \<Rightarrow> btc_tx \<Rightarrow> rbf_error + BtcTxOnChain" where
  "check_original env ident v tx =
     (if length (vin_of v) \<noteq> length (bx_ins tx) then Inl ExplorerInconsistent
      else case all_some (map2 (read_prevout env) (vin_of v) (bx_ins tx)) of
             None \<Rightarrow> Inl ExplorerInconsistent
           | Some prevouts \<Rightarrow>
               let feeSat = sum_list (map po_valueSat prevouts) - outSum tx
               in if 2 ^ 53 - 1 < feeSat \<or> feeSat < 0 then Inl ExplorerInconsistent
                  else if (case jnum (jget v ''fee'') of None \<Rightarrow> False | Some f \<Rightarrow> f \<noteq> of_int feeSat)
                  then Inl ExplorerInconsistent
                  else Inr \<lparr>oc_txid = ident, oc_tx = tx, oc_prevouts = prevouts,
                            oc_confirmed = (jprop (jget v ''status'') ''confirmed'' = Some (JBool True)),
                            oc_feeSat = feeSat, oc_vsize = bx_vsize tx\<rparr>)"

definition readBtcTx :: "rbf_env \<Rightarrow> string \<Rightarrow> rbf_error + BtcTxOnChain option" where
  "readBtcTx env txid =
     (case normTxid txid of
        None \<Rightarrow> Inl NotATxid
      | Some ident \<Rightarrow>
     (case esploraText (e_get env (''/tx/'' @ ident)) of
        Inl e \<Rightarrow> Inl e
      | Inr None \<Rightarrow> Inr None
      | Inr (Some body) \<Rightarrow>
     (case e_parse env body of
        None \<Rightarrow> Inl ExplorerNotJson
      | Some v \<Rightarrow>
     (case fetchRawBtcTx (e_fromHex env) ident (e_get env (''/tx/'' @ ident @ ''/hex'')) of
        Inl e \<Rightarrow> Inl e
      | Inr None \<Rightarrow> Inr None
      | Inr (Some tx) \<Rightarrow>
          if v = JNull then Inl ExplorerInconsistent
          else (case check_original env ident v tx of Inl e \<Rightarrow> Inl e | Inr view \<Rightarrow> Inr (Some view))))))"

text \<open>The outputs that are spent already, by index.\<close>

definition readSpentOutputs :: "rbf_env \<Rightarrow> string \<Rightarrow> nat \<Rightarrow> rbf_error + nat list" where
  "readSpentOutputs env txid outs =
     (case esploraText (e_get env (''/tx/'' @ txid @ ''/outspends'')) of
        Inl e \<Rightarrow> Inl e
      | Inr None \<Rightarrow> Inl OutspendsUnreadable
      | Inr (Some body) \<Rightarrow>
          (case e_parse env body of
             Some (JArr xs) \<Rightarrow>
               if length xs \<noteq> outs then Inl OutspendsUnreadable
               else Inr (filter (\<lambda>vout. jget (xs ! vout) ''spent'' = Some (JBool True)) [0..<outs])
           | _ \<Rightarrow> Inl OutspendsUnreadable))"

subsection \<open>Whose keys\<close>

datatype BtcWalletSecret = Phrase string | PrivateKey string

record OwnBtcKey =
  k_address :: string
  k_path :: string
  k_type :: BtcSpendKind
  k_chain :: "nat option"
  k_private :: "byte list"
  k_public :: "byte list"

type_synonym own_keys = "(string \<times> OwnBtcKey) list"

definition kind_of_output :: "OutputKind option \<Rightarrow> BtcSpendKind option" where
  "kind_of_output k =
     (case k of Some Out_p2wpkh \<Rightarrow> Some P2wpkh | Some Out_p2sh \<Rightarrow> Some P2sh_p2wpkh | Some Out_p2pkh \<Rightarrow> Some P2pkh | _ \<Rightarrow> None)"

definition btcScriptTypeOf :: "rbf_env \<Rightarrow> string \<Rightarrow> BtcSpendKind option" where
  "btcScriptTypeOf env address =
     (case e_toOutputScript env address of None \<Rightarrow> None | Some script \<Rightarrow> kind_of_output (outputKind script))"

definition wanted :: "rbf_env \<Rightarrow> string list \<Rightarrow> (string \<times> BtcSpendKind) list" where
  "wanted env addresses =
     foldl (\<lambda>m a. case btcScriptTypeOf env a of None \<Rightarrow> m | Some t \<Rightarrow> js_set a t m) [] addresses"

definition OWN_KEY_SEARCH_DEPTH :: nat where "OWN_KEY_SEARCH_DEPTH = 200"

definition take_key ::
    "rbf_env \<Rightarrow> own_keys \<Rightarrow> string \<Rightarrow> hd_node \<Rightarrow> string \<Rightarrow> BtcSpendKind \<Rightarrow> nat \<Rightarrow> own_keys option" where
  "take_key env found address node path t chainIndex =
     (case (n_private node, n_public node) of
        (Some priv, Some pub) \<Rightarrow>
          if e_addressFor env pub t \<noteq> address then None
          else Some (js_set address \<lparr>k_address = address, k_path = path, k_type = t, k_chain = Some chainIndex,
                                     k_private = priv, k_public = pub\<rparr> found)
      | _ \<Rightarrow> None)"

definition quote_mark :: char where "quote_mark = CHR 0x27"

definition hardened_part :: "string \<Rightarrow> bool" where
  "hardened_part p = (p \<noteq> [] \<and> last p = quote_mark \<and> butlast p \<noteq> [] \<and> list_all is_digit (butlast p))"

text \<open>\<open>/^(m\/\d+'\/0'\/\d+')\/([01])\/(\d+)$/\<close>: the chain and the index.\<close>

definition known_path :: "string \<Rightarrow> (nat \<times> nat) option" where
  "known_path path =
     (case split_on (CHR ''/'') path of
        [m, purpose, coin, account, ch, i] \<Rightarrow>
          if m = ''m'' \<and> hardened_part purpose \<and> coin = [CHR ''0'', quote_mark] \<and> hardened_part account \<and>
             (ch = ''0'' \<or> ch = ''1'') \<and> i \<noteq> [] \<and> list_all is_digit i
          then Some (str_nat ch, str_nat i) else None
      | _ \<Rightarrow> None)"

definition use_known ::
    "rbf_env \<Rightarrow> string \<Rightarrow> (string \<times> BtcSpendKind) list \<Rightarrow> own_keys \<times> nat option \<Rightarrow> string \<times> string \<Rightarrow> own_keys \<times> nat option" where
  "use_known env phrase want st k =
     (case (st, k) of ((found, highest), (address, path)) \<Rightarrow>
        case known_path path of
          None \<Rightarrow> st
        | Some (ch, i) \<Rightarrow>
            let highest = Some (max (coalesce highest 0) i)
            in case map_of want address of
                 None \<Rightarrow> (found, highest)
               | Some t \<Rightarrow>
                   if map_of found address \<noteq> None then (found, highest)
                   else (case e_derive env phrase path of
                           None \<Rightarrow> (found, highest)
                         | Some node \<Rightarrow> (coalesce (take_key env found address node path t ch) found, highest)))"

text \<open>One chain of an account, from index \<open>i\<close> on, while an address is missing. A derived node always has
  its public key.\<close>

fun walk_chain ::
    "rbf_env \<Rightarrow> string \<Rightarrow> string \<times> BtcSpendKind \<Rightarrow> nat \<Rightarrow> (string \<times> BtcSpendKind) list \<Rightarrow> nat \<Rightarrow> nat \<Rightarrow>
     own_keys \<times> nat \<Rightarrow> own_keys \<times> nat" where
  "walk_chain env phrase spec ch want i 0 st = st"
| "walk_chain env phrase spec ch want i (Suc n) st =
     (if snd st = 0 then st
      else let node = e_child env phrase (fst spec) ch i;
               address = e_addressFor env (coalesce (n_public node) []) (snd spec);
               path = fst spec @ ''/'' @ nat_str ch @ ''/'' @ nat_str i
           in walk_chain env phrase spec ch want (Suc i) n
                (if map_of want address = Some (snd spec) \<and> map_of (fst st) address = None
                 then (case take_key env (fst st) address node path (snd spec) ch of
                         None \<Rightarrow> st | Some found \<Rightarrow> (found, snd st - 1))
                 else st))"

definition missingOf :: "(string \<times> BtcSpendKind) list \<Rightarrow> own_keys \<Rightarrow> BtcSpendKind \<Rightarrow> nat" where
  "missingOf want found t = length (filter (\<lambda>(a, t'). t' = t \<and> map_of found a = None) want)"

definition walk_account ::
    "rbf_env \<Rightarrow> string \<Rightarrow> (string \<times> BtcSpendKind) list \<Rightarrow> nat \<Rightarrow> own_keys \<Rightarrow> string \<times> BtcSpendKind \<Rightarrow> own_keys" where
  "walk_account env phrase want depth found spec =
     (let missing = missingOf want found (snd spec)
      in if missing = 0 then found
         else fst (walk_chain env phrase spec 1 want 0 depth (walk_chain env phrase spec 0 want 0 depth (found, missing))))"

definition account_path :: "string \<Rightarrow> string" where
  "account_path purpose = ''m/'' @ purpose @ [quote_mark] @ ''/0'' @ [quote_mark] @ ''/0'' @ [quote_mark]"

definition btcUtxoAccounts :: "(string \<times> BtcSpendKind) list" where
  "btcUtxoAccounts =
     [(account_path ''84'', P2wpkh), (account_path ''44'', P2wpkh), (account_path ''49'', P2sh_p2wpkh),
      (account_path ''44'', P2pkh)]"

definition strip_0x :: "string \<Rightarrow> string" where
  "strip_0x s = (if starts_with s ''0x'' then drop 2 s else s)"

fun type_name :: "BtcSpendKind \<Rightarrow> string" where
  "type_name P2wpkh = ''p2wpkh''"
| "type_name P2sh_p2wpkh = ''p2sh-p2wpkh''"
| "type_name P2pkh = ''p2pkh''"

definition single_keys ::
    "rbf_env \<Rightarrow> (string \<times> BtcSpendKind) list \<Rightarrow> byte list \<times> byte list \<Rightarrow> own_keys" where
  "single_keys env want pair =
     foldl (\<lambda>found t.
        let address = e_addressFor env (snd pair) t
        in if map_of want address = Some t
           then js_set address \<lparr>k_address = address, k_path = ''single key ('' @ type_name t @ '')'', k_type = t, k_chain = None,
                                k_private = fst pair, k_public = snd pair\<rparr> found
           else found) [] [P2wpkh, P2sh_p2wpkh, P2pkh]"

text \<open>None where the private key or the phrase is not readable.\<close>

definition findOwnBtcKeys ::
    "rbf_env \<Rightarrow> BtcWalletSecret \<Rightarrow> string list \<Rightarrow> (string \<times> string) list \<Rightarrow> own_keys option" where
  "findOwnBtcKeys env secret addresses scanned =
     (let want = wanted env addresses
      in if want = [] then Some []
         else case secret of
           PrivateKey k \<Rightarrow>
             map_option (single_keys env want) (Option.bind (strict_hexToBytes (strip_0x k)) (e_keyPair env))
         | Phrase m \<Rightarrow>
             if \<not> e_seedOk env (js_trim m) then None else
             let (found, highest) = foldl (use_known env (js_trim m) want) ([], None) scanned;
                 depth = max OWN_KEY_SEARCH_DEPTH (case highest of None \<Rightarrow> 0 | Some h \<Rightarrow> h + 100)
             in Some (foldl (walk_account env (js_trim m) want depth) found btcUtxoAccounts))"

subsection \<open>Planning\<close>

record btc_out =
  bo_vout :: nat
  bo_address :: "string option"
  bo_valueSat :: int

definition own_output :: "own_keys \<Rightarrow> btc_out \<Rightarrow> bool" where
  "own_output keys b = (case bo_address b of None \<Rightarrow> False | Some a \<Rightarrow> map_of keys a \<noteq> None)"

definition on_change_chain :: "own_keys \<Rightarrow> btc_out \<Rightarrow> bool" where
  "on_change_chain keys b =
     (case Option.bind (bo_address b) (map_of keys) of None \<Rightarrow> False | Some k \<Rightarrow> k_chain k = Some 1)"

definition pickChange :: "btc_out list \<Rightarrow> own_keys \<Rightarrow> BtcSpeedUpRefusalCode + btc_out" where
  "pickChange outs keys =
     (if length outs < 2 then Inl NoChange
      else let mine = filter (own_output keys) outs
           in if mine = [] then Inl NoChange
              else if length mine = 1 then Inr (hd mine)
              else let onChangeChain = filter (on_change_chain keys) mine
                   in if length onChangeChain = 1 then Inr (hd onChangeChain) else Inl AmbiguousChange)"

record BtcSpeedUpQuote =
  qt_txid :: string
  qt_originalFeeSat :: int
  qt_originalVsize :: int
  qt_currentRate :: rat
  qt_replacementVsize :: int
  qt_minimumFeeSat :: int
  qt_minimumRate :: rat
  qt_targetRate :: "rat option"
  qt_newFeeSat :: int
  qt_newRate :: rat
  qt_extraFeeSat :: int
  qt_atMinimum :: bool
  qt_changeVout :: nat
  qt_changeAddress :: string
  qt_beforeSat :: int
  qt_afterSat :: int
  qt_recipients :: "btc_out list"

record Prepared =
  pr_view :: BtcTxOnChain
  pr_keys :: own_keys
  pr_quote :: BtcSpeedUpQuote

definition BTC_DUST_SAT :: int where "BTC_DUST_SAT = 546"

record speed_state =
  ss_replaced :: replacements
  ss_own :: own_state
  ss_inFlight :: "string set"

record speed_args =
  sa_txid :: string
  sa_secret :: BtcWalletSecret
  sa_targetRate :: "rat option"
  sa_known :: "(string \<times> string) list"

definition outputs_of :: "rbf_env \<Rightarrow> btc_tx \<Rightarrow> btc_out list" where
  "outputs_of env tx =
     map (\<lambda>(vout, b). \<lparr>bo_vout = vout, bo_address = e_addressOf env (to_script b), bo_valueSat = to_value b\<rparr>)
       (List.enumerate 0 (bx_outs tx))"

text \<open>The conditions on the original, in the order of the code.\<close>

definition price ::
    "speed_args \<Rightarrow> rbf_env \<Rightarrow> BtcTxOnChain \<Rightarrow> own_keys \<Rightarrow> rbf_error + Prepared" where
  "price args env view keys =
     (case pickChange (outputs_of env (oc_tx view)) keys of
        Inl c \<Rightarrow> Inl (Refusal c)
      | Inr change \<Rightarrow>
          let size = signedVsizeUpperBound (map (\<lambda>p. k_type (the (map_of keys (the (po_address p))))) (oc_prevouts view))
                       (map (\<lambda>b. int (length (to_script b))) (bx_outs (oc_tx view)));
              target = (case sa_targetRate args of None \<Rightarrow> None | Some r \<Rightarrow> if 0 < r then Some r else None)
          in case planBtcFeeBump (Some (of_int (oc_feeSat view))) (Some (of_int (oc_vsize view))) (Some (of_int size))
                    (Some (of_int (bo_valueSat change))) target BTC_DUST_SAT of
               Inl e \<Rightarrow> Inl (CannotPrice e)
             | Inr (Dust _ _ _ _) \<Rightarrow> Inl (Refusal DustChange)
             | Inr (Bump p) \<Rightarrow>
                 Inr \<lparr>pr_view = view, pr_keys = keys, pr_quote =
                   \<lparr>qt_txid = oc_txid view, qt_originalFeeSat = oc_feeSat view, qt_originalVsize = oc_vsize view,
                    qt_currentRate = of_int (oc_feeSat view) / of_int (oc_vsize view), qt_replacementVsize = size,
                    qt_minimumFeeSat = minimumFeeSat p, qt_minimumRate = of_int (minimumFeeSat p) / of_int size,
                    qt_targetRate = target, qt_newFeeSat = newFeeSat p, qt_newRate = of_int (newFeeSat p) / of_int size,
                    qt_extraFeeSat = extraFeeSat p, qt_atMinimum = atMinimum p, qt_changeVout = bo_vout change,
                    qt_changeAddress = the (bo_address change), qt_beforeSat = bo_valueSat change,
                    qt_afterSat = newChangeSat p,
                    qt_recipients = filter (\<lambda>b. bo_vout b \<noteq> bo_vout change) (outputs_of env (oc_tx view))\<rparr>\<rparr>)"

definition prepare :: "rbf_env \<Rightarrow> speed_state \<Rightarrow> speed_args \<Rightarrow> rbf_error + Prepared" where
  "prepare env s args =
     (if txReplacementOf (ss_replaced s) ''bitcoin'' (sa_txid args) \<noteq> None then Inl (Refusal AlreadyReplaced)
      else case readBtcTx env (sa_txid args) of
        Inl e \<Rightarrow> Inl e
      | Inr None \<Rightarrow> Inl (Refusal NotFound)
      | Inr (Some view) \<Rightarrow>
          if oc_confirmed view then Inl (Refusal AlreadyConfirmed)
          else if \<not> signalsRbf (map (\<lambda>i. Some (of_int (ti_sequence i))) (bx_ins (oc_tx view))) then Inl (Refusal NotRbf)
          else if \<not> isOwnBtcTx (e_numText env) (ss_own s) (oc_txid view) then Inl (Refusal NotOwnTx)
          else let inputAddresses = map po_address (oc_prevouts view);
                   outputAddresses = map (\<lambda>b. e_addressOf env (to_script b)) (bx_outs (oc_tx view))
               in case findOwnBtcKeys env (sa_secret args)
                         (List.map_filter (\<lambda>a. a) (inputAddresses @ outputAddresses)) (sa_known args) of
                    None \<Rightarrow> Inl KeyError
                  | Some keys \<Rightarrow>
                      if list_ex (\<lambda>a. case a of None \<Rightarrow> True | Some a \<Rightarrow> map_of keys a = None) inputAddresses
                      then Inl (Refusal NotOwnInputs)
                      else case readSpentOutputs env (oc_txid view) (length (bx_outs (oc_tx view))) of
                        Inl e \<Rightarrow> Inl e
                      | Inr (vout # _) \<Rightarrow> Inl (Refusal (Descendants vout))
                      | Inr [] \<Rightarrow> price args env view keys)"

definition quoteBtcSpeedUp :: "rbf_env \<Rightarrow> speed_state \<Rightarrow> speed_args \<Rightarrow> rbf_error + BtcSpeedUpQuote" where
  "quoteBtcSpeedUp env s args = (case prepare env s args of Inl e \<Rightarrow> Inl e | Inr p \<Rightarrow> Inr (pr_quote p))"

subsection \<open>Inputs as a send adds them: wallets/btc-wallet.ts\<close>

record BtcCoin =
  bc_txid :: string
  bc_vout :: int
  bc_valueSat :: int
  bc_address :: string

text \<open>\<open>fetchBtcPrevTx\<close>: the first host whose bytes hash to the id; a 404 is a failure like any other.\<close>

fun prev_from ::
    "(string \<Rightarrow> thrown + btc_tx) \<Rightarrow> string \<Rightarrow> (string \<times> esplora_reply) list \<Rightarrow> string list \<Rightarrow> string list + btc_tx" where
  "prev_from fromHex txid [] failures = Inl failures"
| "prev_from fromHex txid ((host, r) # rs) failures =
     (case r of
        EThrown e \<Rightarrow> prev_from fromHex txid rs (failures @ [host_failure host e])
      | EReply st (Inl e) \<Rightarrow> prev_from fromHex txid rs (failures @ [host_failure host e])
      | EReply st (Inr b) \<Rightarrow>
          if \<not> is_ok st then prev_from fromHex txid rs (failures @ [host_status host st])
          else (case fromHex (js_trim b) of
                  Inl e \<Rightarrow> prev_from fromHex txid rs (failures @ [host_failure host e])
                | Inr tx \<Rightarrow>
                    if bx_id tx \<noteq> to_lower txid
                    then prev_from fromHex txid rs (failures @ [host @ '': served a different transaction''])
                    else Inr tx))"

fun prev_loop :: "rbf_env \<Rightarrow> BtcCoin list \<Rightarrow> (string \<times> btc_tx) list \<Rightarrow> rbf_error + (string \<times> btc_tx) list" where
  "prev_loop env [] prevs = Inr prevs"
| "prev_loop env (c # cs) prevs =
     (if map_of prevs (bc_txid c) \<noteq> None then prev_loop env cs prevs
      else case e_toOutputScript env (bc_address c) of
             None \<Rightarrow> Inl CannotSpend
           | Some script \<Rightarrow>
               if outputKind script \<noteq> Some Out_p2pkh then prev_loop env cs prevs
               else (case prev_from (e_fromHex env) (bc_txid c) (e_get env (''/tx/'' @ bc_txid c @ ''/hex'')) [] of
                       Inl f \<Rightarrow> Inl (Unreadable f)
                     | Inr tx \<Rightarrow> prev_loop env cs (js_set (bc_txid c) tx prevs)))"

definition prevTxsForLegacy :: "rbf_env \<Rightarrow> BtcCoin list \<Rightarrow> rbf_error + (string \<times> btc_tx) list" where
  "prevTxsForLegacy env coins = prev_loop env coins []"

datatype spend_proof = WitnessUtxo "byte list" int | WrappedWitness "byte list" int "byte list" | NonWitness btc_tx

record psbt_input =
  pi_txid :: string
  pi_index :: int
  pi_sequence :: int
  pi_proof :: spend_proof

record Psbt =
  ps_version :: int
  ps_locktime :: int
  ps_inputs :: "psbt_input list"
  ps_outputs :: "tx_out list"

definition addBtcInput ::
    "rbf_env \<Rightarrow> BtcCoin \<Rightarrow> byte list \<Rightarrow> (string \<times> btc_tx) list \<Rightarrow> psbt_input option" where
  "addBtcInput env coin pub prevs =
     (case e_toOutputScript env (bc_address coin) of
        None \<Rightarrow> None
      | Some script \<Rightarrow>
          (case kind_of_output (outputKind script) of
             None \<Rightarrow> None
           | Some t \<Rightarrow>
               let own = e_outputFor env pub t;
                   inp = (\<lambda>p. Some \<lparr>pi_txid = bc_txid coin, pi_index = bc_vout coin, pi_sequence = BTC_RBF_SEQUENCE, pi_proof = p\<rparr>)
               in if own \<noteq> script then None
                  else case t of
                    P2wpkh \<Rightarrow> inp (WitnessUtxo own (bc_valueSat coin))
                  | P2sh_p2wpkh \<Rightarrow> inp (WrappedWitness own (bc_valueSat coin) (e_outputFor env pub P2wpkh))
                  | P2pkh \<Rightarrow>
                      (case map_of prevs (bc_txid coin) of
                         None \<Rightarrow> None
                       | Some prev \<Rightarrow>
                           if bc_vout coin < 0 \<or> int (length (bx_outs prev)) \<le> bc_vout coin then None
                           else let b = bx_outs prev ! nat (bc_vout coin)
                                in if to_script b \<noteq> own \<or> to_value b \<noteq> bc_valueSat coin then None
                                   else inp (NonWitness prev))))"

subsection \<open>Building, checking, sending\<close>

definition replacement_outs :: "btc_tx \<Rightarrow> BtcSpeedUpQuote \<Rightarrow> tx_out list" where
  "replacement_outs tx q =
     map (\<lambda>(vout, b). \<lparr>to_script = to_script b, to_value = (if vout = qt_changeVout q then qt_afterSat q else to_value b)\<rparr>)
       (List.enumerate 0 (bx_outs tx))"

definition coins_of :: "BtcTxOnChain \<Rightarrow> BtcCoin list" where
  "coins_of view =
     map2 (\<lambda>i p. \<lparr>bc_txid = txidOfInput i, bc_vout = ti_index i, bc_valueSat = po_valueSat p, bc_address = the (po_address p)\<rparr>)
       (bx_ins (oc_tx view)) (oc_prevouts view)"

text \<open>\<open>sign\<close> is the library: it signs, finalises and extracts, or throws.\<close>

definition buildReplacement ::
    "rbf_env \<Rightarrow> (Psbt \<Rightarrow> byte list list \<Rightarrow> thrown + btc_tx) \<Rightarrow> Prepared \<Rightarrow> rbf_error + btc_tx" where
  "buildReplacement env sign p =
     (let view = pr_view p; coins = coins_of view;
          key = (\<lambda>c. the (map_of (pr_keys p) (bc_address c)))
      in case prevTxsForLegacy env coins of
           Inl e \<Rightarrow> Inl e
         | Inr prevs \<Rightarrow>
             (case all_some (map (\<lambda>c. addBtcInput env c (k_public (key c)) prevs) coins) of
                None \<Rightarrow> Inl CannotSpend
              | Some ins \<Rightarrow>
                  (case sign \<lparr>ps_version = bx_version (oc_tx view), ps_locktime = bx_locktime (oc_tx view),
                              ps_inputs = ins, ps_outputs = replacement_outs (oc_tx view) (pr_quote p)\<rparr>
                          (map (\<lambda>c. k_private (key c)) coins) of
                     Inl e \<Rightarrow> Inl (SigningFailed e)
                   | Inr tx \<Rightarrow> Inr tx)))"

definition assertReplacementOf :: "BtcTxOnChain \<Rightarrow> btc_tx \<Rightarrow> BtcSpeedUpQuote \<Rightarrow> bool" where
  "assertReplacementOf original replacement q =
     (let a = oc_tx original; feeSat = oc_feeSat original + (outSum a - outSum replacement)
      in length (bx_ins replacement) = length (bx_ins a) \<and>
         list_all (\<lambda>(i, j). txidOfInput i = txidOfInput j \<and> ti_index i = ti_index j \<and> ti_sequence i = BTC_RBF_SEQUENCE)
           (zip (bx_ins replacement) (bx_ins a)) \<and>
         length (bx_outs replacement) = length (bx_outs a) \<and>
         list_all (\<lambda>(vout, b, c). to_script b = to_script c \<and>
             to_value b = (if vout = qt_changeVout q then qt_afterSat q else to_value c))
           (List.enumerate 0 (zip (bx_outs replacement) (bx_outs a))) \<and>
         feeSat = qt_newFeeSat q \<and>
         \<not> qt_replacementVsize q < bx_vsize replacement \<and>
         replacementRuleViolation (oc_feeSat original) (oc_vsize original) feeSat (bx_vsize replacement) = None)"

text \<open>Every transaction this app signs is remembered as its own before the first push.\<close>

definition broadcastBtc ::
    "(rat \<Rightarrow> string) \<Rightarrow> own_state \<Rightarrow> rat \<Rightarrow> BroadcastEndpoint list \<Rightarrow> TxLookup list \<Rightarrow> btc_tx \<Rightarrow> own_state \<times> send_outcome" where
  "broadcastBtc numText own stamp endpoints lookups tx =
     (own_step numText own (Remember (bx_id tx) stamp), broadcastSignedTx (bx_id tx) (bx_hex tx) endpoints lookups)"

record speed_net =
  sn_sign :: "Psbt \<Rightarrow> byte list list \<Rightarrow> thrown + btc_tx"
  sn_endpoints :: "BroadcastEndpoint list"
  sn_lookups :: "TxLookup list"
  sn_now :: rat

definition ready ::
    "rbf_env \<Rightarrow> speed_net \<Rightarrow> speed_state \<Rightarrow> speed_args \<Rightarrow> int \<Rightarrow> rbf_error + Prepared \<times> btc_tx" where
  "ready env net s args expectFeeSat =
     (case prepare env s args of
        Inl e \<Rightarrow> Inl e
      | Inr p \<Rightarrow>
          if qt_newFeeSat (pr_quote p) \<noteq> expectFeeSat then Inl (FeeChanged (qt_newFeeSat (pr_quote p)))
          else case buildReplacement env (sn_sign net) p of
            Inl e \<Rightarrow> Inl e
          | Inr tx \<Rightarrow> if assertReplacementOf (pr_view p) tx (pr_quote p) then Inr (p, tx) else Inl ReplacementStopped)"

text \<open>The state after, what was handed to the broadcast, and the hash with what it replaces. Whether the
  stored list was read meanwhile is not kept. The id is in flight only while this runs.\<close>

definition speedUpBtcTransaction ::
    "rbf_env \<Rightarrow> speed_net \<Rightarrow> speed_state \<Rightarrow> speed_args \<Rightarrow> int \<Rightarrow>
     speed_state \<times> btc_tx list \<times> (rbf_error + string \<times> string)" where
  "speedUpBtcTransaction env net s args expectFeeSat =
     (case normTxid (sa_txid args) of
        None \<Rightarrow> (s, [], Inl NotATxid)
      | Some ident \<Rightarrow>
          if ident \<in> ss_inFlight s then (s, [], Inl (Refusal InFlight))
          else case ready env net s args expectFeeSat of
            Inl e \<Rightarrow> (s, [], Inl e)
          | Inr (p, tx) \<Rightarrow>
              let (own, outcome) = broadcastBtc (e_numText env) (ss_own s) (sn_now net) (sn_endpoints net) (sn_lookups net) tx;
                  s' = s\<lparr>ss_own := own\<rparr>
              in case outcome of
                   Sent hash \<Rightarrow>
                     (s'\<lparr>ss_replaced := fst (recordTxReplacement (ss_replaced s') ''bitcoin'' (oc_txid (pr_view p)) hash (sn_now net))\<rparr>,
                      [tx], Inr (hash, oc_txid (pr_view p)))
                 | failure \<Rightarrow> (s', [tx], Inl (BroadcastFailed failure)))"

subsection \<open>Keys that are found are the wallet's\<close>

definition keys_ok :: "rbf_env \<Rightarrow> own_keys \<Rightarrow> bool" where
  "keys_ok env m \<longleftrightarrow> (\<forall>a k. map_of m a = Some k \<longrightarrow> k_address k = a \<and> e_addressFor env (k_public k) (k_type k) = a)"

lemma keys_ok_Nil [simp]: "keys_ok env []"
  by (simp add: keys_ok_def)

lemma keys_ok_set:
  "keys_ok env m \<Longrightarrow> k_address k = a \<Longrightarrow> e_addressFor env (k_public k) (k_type k) = a \<Longrightarrow> keys_ok env (js_set a k m)"
  by (auto simp: keys_ok_def split: if_splits)

lemma take_key_ok: "keys_ok env m \<Longrightarrow> take_key env m a node path t ch = Some m' \<Longrightarrow> keys_ok env m'"
  by (auto simp: take_key_def intro!: keys_ok_set split: option.splits if_splits)

lemma use_known_ok: "keys_ok env (fst st) \<Longrightarrow> keys_ok env (fst (use_known env phrase want st k))"
  by (cases st; cases k) (auto simp: use_known_def coalesce_def Let_def dest: take_key_ok split: option.split)

lemma foldl_keeps: "P s \<Longrightarrow> (\<And>s x. P s \<Longrightarrow> P (f s x)) \<Longrightarrow> P (foldl f s xs)"
  by (induction xs arbitrary: s) auto

lemma walk_chain_ok: "keys_ok env (fst st) \<Longrightarrow> keys_ok env (fst (walk_chain env phrase spec ch want i n st))"
proof (induction n arbitrary: i st)
  case (Suc n)
  show ?case using Suc by (auto simp: Let_def dest: take_key_ok split: option.split)
qed simp

lemma walk_account_ok: "keys_ok env m \<Longrightarrow> keys_ok env (walk_account env phrase want depth m spec)"
  by (simp add: walk_account_def Let_def walk_chain_ok)

lemma single_keys_ok: "keys_ok env (single_keys env want pair)"
  unfolding single_keys_def by (rule foldl_keeps [where P = "keys_ok env"]) (auto simp: Let_def intro!: keys_ok_set)

lemma findOwnBtcKeys_ok:
  assumes "findOwnBtcKeys env secret addresses ks = Some m"
  shows "keys_ok env m"
proof (cases "wanted env addresses = []")
  case True
  then show ?thesis using assms by (simp add: findOwnBtcKeys_def Let_def)
next
  case False
  let ?want = "wanted env addresses"
  show ?thesis
  proof (cases secret)
    case (PrivateKey k)
    then show ?thesis using assms False by (auto simp: findOwnBtcKeys_def Let_def single_keys_ok)
  next
    case (Phrase phrase)
    obtain found highest where u: "foldl (use_known env (js_trim phrase) ?want) ([], None) ks = (found, highest)"
      by (metis surj_pair)
    have "keys_ok env (fst (foldl (use_known env (js_trim phrase) ?want) ([], None) ks))"
      by (rule foldl_keeps [where P = "\<lambda>st. keys_ok env (fst st)"]) (simp_all add: use_known_ok)
    then have ok: "keys_ok env (foldl (walk_account env (js_trim phrase) ?want d) found btcUtxoAccounts)" for d
      unfolding u by (intro foldl_keeps [where P = "keys_ok env"]) (simp_all add: walk_account_ok)
    obtain d where "m = foldl (walk_account env (js_trim phrase) ?want d) found btcUtxoAccounts"
      using assms False Phrase u by (auto simp: findOwnBtcKeys_def Let_def split: if_splits)
    then show ?thesis using ok by simp
  qed
qed

subsection \<open>The change output\<close>

lemma pickChange_own:
  assumes "pickChange outs keys = Inr b"
  shows "b \<in> set outs \<and> own_output keys b"
proof -
  let ?mine = "filter (own_output keys) outs"
  let ?change = "filter (on_change_chain keys) ?mine"
  have "?mine \<noteq> [] \<and> b = hd ?mine \<or> ?change \<noteq> [] \<and> b = hd ?change"
    using assms by (auto simp: pickChange_def Let_def split: if_splits simp del: filter_filter)
  then have "b \<in> set ?mine" using hd_in_set [of ?mine] hd_in_set [of ?change] by auto
  then show ?thesis by simp
qed

lemma outputs_of_nth:
  "b \<in> set (outputs_of env tx) \<Longrightarrow> bo_vout b < length (bx_outs tx) \<and>
     bo_valueSat b = to_value (bx_outs tx ! bo_vout b) \<and> bo_address b = e_addressOf env (to_script (bx_outs tx ! bo_vout b))"
  by (auto simp: outputs_of_def in_set_enumerate_eq)

lemma bump_change:
  assumes "planBtcFeeBump (Some (of_int f)) (Some (of_int v)) (Some (of_int n)) (Some (of_int c)) t d = Inr (Bump p)"
  shows "newChangeSat p = c - (newFeeSat p - f) \<and> d < newChangeSat p"
  using assms by (auto simp: planBtcFeeBump_def int_of_def Let_def split: if_splits)

text \<open>What pricing decides, in terms of the original alone.\<close>

lemma price_result:
  assumes "price args env view keys = Inr p"
  shows "pr_view p = view \<and> pr_keys p = keys \<and>
    (let q = pr_quote p; outs = bx_outs (oc_tx view); c = qt_changeVout q
     in c < length outs \<and> qt_afterSat q = to_value (outs ! c) - (qt_newFeeSat q - oc_feeSat view) \<and>
        BTC_DUST_SAT < qt_afterSat q \<and>
        (\<exists>a k. e_addressOf env (to_script (outs ! c)) = Some a \<and> map_of keys a = Some k))"
proof -
  obtain b where b: "pickChange (outputs_of env (oc_tx view)) keys = Inr b"
    using assms by (auto simp: price_def split: sum.splits)
  note o = outputs_of_nth [OF conjunct1 [OF pickChange_own [OF b]]]
  have "own_output keys b" using pickChange_own [OF b] by simp
  then show ?thesis using assms b o
    by (auto simp: price_def own_output_def Let_def dest!: bump_change
        split: sum.splits BtcFeeBumpResult.splits option.splits)
qed

subsection \<open>What is sent replaces the original and nothing else\<close>

lemma prepare_result:
  assumes "prepare env s args = Inr p"
  obtains view keys where "readBtcTx env (sa_txid args) = Inr (Some view)" "\<not> oc_confirmed view"
    "isOwnBtcTx (e_numText env) (ss_own s) (oc_txid view)"
    "\<exists>addresses. findOwnBtcKeys env (sa_secret args) addresses (sa_known args) = Some keys"
    "readSpentOutputs env (oc_txid view) (length (bx_outs (oc_tx view))) = Inr []"
    "\<forall>po \<in> set (oc_prevouts view). \<exists>a. po_address po = Some a \<and> map_of keys a \<noteq> None"
    "price args env view keys = Inr p"
    "txReplacementOf (ss_replaced s) ''bitcoin'' (sa_txid args) = None"
proof -
  obtain view where v: "readBtcTx env (sa_txid args) = Inr (Some view)" "\<not> oc_confirmed view"
      "isOwnBtcTx (e_numText env) (ss_own s) (oc_txid view)"
      "txReplacementOf (ss_replaced s) ''bitcoin'' (sa_txid args) = None"
    using assms by (auto simp: prepare_def split: if_splits sum.splits option.splits)
  let ?in = "map po_address (oc_prevouts view)"
  let ?all = "List.map_filter (\<lambda>a. a) (?in @ map (\<lambda>b. e_addressOf env (to_script b)) (bx_outs (oc_tx view)))"
  obtain keys where k: "findOwnBtcKeys env (sa_secret args) ?all (sa_known args) = Some keys"
    using assms v by (auto simp: prepare_def Let_def split: if_splits option.splits)
  have a: "\<not> list_ex (\<lambda>a. case a of None \<Rightarrow> True | Some a \<Rightarrow> map_of keys a = None) ?in"
    using assms v k by (auto simp: prepare_def Let_def split: if_splits)
  have r: "readSpentOutputs env (oc_txid view) (length (bx_outs (oc_tx view))) = Inr []" "price args env view keys = Inr p"
    using assms v k a by (auto simp: prepare_def Let_def split: if_splits sum.splits list.splits)
  have "\<forall>po \<in> set (oc_prevouts view). \<exists>a. po_address po = Some a \<and> map_of keys a \<noteq> None"
    using a by (auto simp: list_ex_iff split: option.splits)
  then show thesis using that v r k by blast
qed

definition outpoint :: "tx_in \<Rightarrow> string \<times> int" where "outpoint i = (txidOfInput i, ti_index i)"

lemma assert_ins:
  assumes "assertReplacementOf view tx q"
  shows "map outpoint (bx_ins tx) = map outpoint (bx_ins (oc_tx view)) \<and>
    list_all (\<lambda>i. ti_sequence i = BTC_RBF_SEQUENCE) (bx_ins tx)"
proof -
  let ?a = "bx_ins tx" and ?b = "bx_ins (oc_tx view)"
  have l: "length ?a = length ?b" and
      z: "list_all (\<lambda>(i, j). txidOfInput i = txidOfInput j \<and> ti_index i = ti_index j \<and> ti_sequence i = BTC_RBF_SEQUENCE) (zip ?a ?b)"
    using assms by (auto simp: assertReplacementOf_def Let_def)
  have "outpoint (?a ! n) = outpoint (?b ! n) \<and> ti_sequence (?a ! n) = BTC_RBF_SEQUENCE" if "n < length ?a" for n
    using z that l by (auto simp: list_all_length outpoint_def)
  then show ?thesis using l by (auto simp: list_eq_iff_nth_eq list_all_length)
qed

lemma tx_out_eq: "to_script b = to_script c \<Longrightarrow> to_value b = to_value c \<Longrightarrow> b = (c :: tx_out)"
  by simp

lemma assert_outs:
  assumes "assertReplacementOf view tx q" "qt_changeVout q < length (bx_outs (oc_tx view))"
  shows "bx_outs tx = (bx_outs (oc_tx view)) [qt_changeVout q := (bx_outs (oc_tx view) ! qt_changeVout q)\<lparr>to_value := qt_afterSat q\<rparr>]"
proof (rule nth_equalityI)
  let ?a = "bx_outs tx" and ?b = "bx_outs (oc_tx view)"
  show l: "length ?a = length (?b [qt_changeVout q := (?b ! qt_changeVout q)\<lparr>to_value := qt_afterSat q\<rparr>])"
    using assms by (simp add: assertReplacementOf_def Let_def)
  fix n
  assume n: "n < length ?a"
  have z: "list_all (\<lambda>(vout, b, c). to_script b = to_script c \<and>
      to_value b = (if vout = qt_changeVout q then qt_afterSat q else to_value c)) (List.enumerate 0 (zip ?a ?b))"
    using assms(1) by (simp add: assertReplacementOf_def Let_def)
  then have "to_script (?a ! n) = to_script (?b ! n) \<and>
      to_value (?a ! n) = (if n = qt_changeVout q then qt_afterSat q else to_value (?b ! n))"
    using n l by (auto simp: list_all_length nth_enumerate_eq)
  then show "?a ! n = (?b [qt_changeVout q := (?b ! qt_changeVout q)\<lparr>to_value := qt_afterSat q\<rparr>]) ! n"
    using assms(2) n l by (auto simp: nth_list_update intro!: tx_out_eq)
qed

lemma posted_ready:
  assumes "speedUpBtcTransaction env net s args fee = (s', posted, r)" "posted \<noteq> []"
  obtains p tx where "ready env net s args fee = Inr (p, tx)" "posted = [tx]"
  using assms by (auto simp: speedUpBtcTransaction_def broadcastBtc_def Let_def split: option.splits if_splits sum.splits send_outcome.splits)

text \<open>C5. Whatever the signing library returns and whatever the explorers say, a speed-up sends one transaction
  at most, and only one that spends the same coins in the same order, each still replaceable, and pays
  every output what the original paid, to the unit, except one of the wallet's own, which gives
  exactly what the fee gains and stays above the dust limit; the fee is the one the user confirmed,
  the network's replacement rules hold at the real size, and the original is unconfirmed, unspent
  and this app's own.\<close>

theorem speed_up_changes_only_the_change:
  assumes "speedUpBtcTransaction env net s args fee = (s', posted, r)" "posted \<noteq> []"
  shows "\<exists>view tx c a addresses keys k. posted = [tx] \<and> readBtcTx env (sa_txid args) = Inr (Some view) \<and>
    \<not> oc_confirmed view \<and> isOwnBtcTx (e_numText env) (ss_own s) (oc_txid view) \<and>
    readSpentOutputs env (oc_txid view) (length (bx_outs (oc_tx view))) = Inr [] \<and>
    map outpoint (bx_ins tx) = map outpoint (bx_ins (oc_tx view)) \<and>
    list_all (\<lambda>i. ti_sequence i = BTC_RBF_SEQUENCE) (bx_ins tx) \<and>
    c < length (bx_outs (oc_tx view)) \<and>
    (let b = bx_outs (oc_tx view) ! c; left = to_value b - (fee - oc_feeSat view)
     in bx_outs tx = (bx_outs (oc_tx view)) [c := b\<lparr>to_value := left\<rparr>] \<and> BTC_DUST_SAT < left \<and>
        e_addressOf env (to_script b) = Some a) \<and>
    findOwnBtcKeys env (sa_secret args) addresses (sa_known args) = Some keys \<and>
    map_of keys a = Some k \<and> e_addressFor env (k_public k) (k_type k) = a \<and>
    oc_feeSat view + (outSum (oc_tx view) - outSum tx) = fee \<and>
    replacementRuleViolation (oc_feeSat view) (oc_vsize view) fee (bx_vsize tx) = None"
proof -
  obtain p tx where t: "ready env net s args fee = Inr (p, tx)" "posted = [tx]" using posted_ready [OF assms] .
  then have p: "prepare env s args = Inr p" "qt_newFeeSat (pr_quote p) = fee" "assertReplacementOf (pr_view p) tx (pr_quote p)"
    by (auto simp: ready_def split: sum.splits if_splits)
  let ?c = "qt_changeVout (pr_quote p)"
  obtain view keys addresses where v: "readBtcTx env (sa_txid args) = Inr (Some view)" "\<not> oc_confirmed view"
      "isOwnBtcTx (e_numText env) (ss_own s) (oc_txid view)"
      "findOwnBtcKeys env (sa_secret args) addresses (sa_known args) = Some keys"
      "readSpentOutputs env (oc_txid view) (length (bx_outs (oc_tx view))) = Inr []"
      "price args env view keys = Inr p"
    using prepare_result [OF p(1)] by metis
  note q = price_result [OF v(6), unfolded Let_def]
  then obtain a k where k: "e_addressOf env (to_script (bx_outs (oc_tx view) ! ?c)) = Some a" "map_of keys a = Some k"
    by blast
  have own: "e_addressFor env (k_public k) (k_type k) = a"
    using findOwnBtcKeys_ok [OF v(4)] k(2) by (auto simp: keys_ok_def)
  have same: "pr_view p = view" using q by simp
  have fees: "oc_feeSat view + (outSum (oc_tx view) - outSum tx) = fee"
      "replacementRuleViolation (oc_feeSat view) (oc_vsize view) fee (bx_vsize tx) = None"
    using p(2,3) q by (auto simp: assertReplacementOf_def Let_def)
  have "let b = bx_outs (oc_tx view) ! ?c; left = to_value b - (fee - oc_feeSat view)
     in bx_outs tx = (bx_outs (oc_tx view)) [?c := b\<lparr>to_value := left\<rparr>] \<and> BTC_DUST_SAT < left \<and>
        e_addressOf env (to_script b) = Some a"
    using q k(1) p(2) assert_outs [OF p(3)[unfolded same]] by (simp add: Let_def)
  moreover have "?c < length (bx_outs (oc_tx view))" using q by simp
  ultimately show ?thesis using t(2) v(1-5) own k(2) fees assert_ins [OF p(3)[unfolded same]] by blast
qed

subsection \<open>Either nothing was sent, or the user is told of it\<close>

lemma read_errors:
  "esplora_from rs fs n \<noteq> Inl (BroadcastFailed f)"
  "raw_from fromHex t rs fs n \<noteq> Inl (BroadcastFailed f)"
  "readBtcTx env t \<noteq> Inl (BroadcastFailed f)"
  "readSpentOutputs env t k \<noteq> Inl (BroadcastFailed f)"
  "prev_loop env cs prevs \<noteq> Inl (BroadcastFailed f)"
proof -
  show e: "esplora_from rs fs n \<noteq> Inl (BroadcastFailed f)" for rs fs n
    by (induction rs fs n rule: esplora_from.induct) (auto split: esplora_reply.split sum.split)
  show r: "raw_from fromHex t rs fs n \<noteq> Inl (BroadcastFailed f)" for fromHex rs fs n t
    by (induction fromHex t rs fs n rule: raw_from.induct) (auto split: esplora_reply.split sum.split)
  show "readBtcTx env t \<noteq> Inl (BroadcastFailed f)"
    using e r by (auto simp: readBtcTx_def esploraText_def fetchRawBtcTx_def check_original_def Let_def
        split: option.splits sum.splits if_splits)
  show "readSpentOutputs env t k \<noteq> Inl (BroadcastFailed f)"
    using e by (auto simp: readSpentOutputs_def esploraText_def split: option.splits sum.splits json.splits)
  show "prev_loop env cs prevs \<noteq> Inl (BroadcastFailed f)"
    by (induction env cs prevs rule: prev_loop.induct) (auto split: option.splits sum.splits)
qed

lemma prepare_errors: "prepare env s args \<noteq> Inl (BroadcastFailed f)"
  using read_errors(3,4)
  by (auto simp: prepare_def price_def Let_def
      split: option.splits sum.splits list.splits BtcFeeBumpResult.splits)

lemma ready_errors: "ready env net s args fee \<noteq> Inl (BroadcastFailed f)"
  using read_errors(5) prepare_errors
  by (auto simp: ready_def buildReplacement_def prevTxsForLegacy_def Let_def split: option.splits sum.splits)

text \<open>C26. Nothing is handed to the network unless every check has passed, and then once: without a
  broadcast both records stay as they were and the caller gets an error that is not a failed
  broadcast; with one the new id is remembered as this app's own, and the original is recorded as
  replaced exactly when the network took the new one.\<close>

theorem speed_up_sends_once_or_not_at_all:
  "case speedUpBtcTransaction env net s args fee of (s', posted, r) \<Rightarrow>
     (if posted = [] then s' = s \<and> (\<exists>e. r = Inl e \<and> e \<notin> range BroadcastFailed)
      else length posted = 1 \<and>
        ss_own s' = own_step (e_numText env) (ss_own s) (Remember (bx_id (hd posted)) (sn_now net)) \<and>
        (case r of
           Inl e \<Rightarrow> e \<in> range BroadcastFailed \<and> ss_replaced s' = ss_replaced s
         | Inr (hash, old) \<Rightarrow>
             broadcastSignedTx (bx_id (hd posted)) (bx_hex (hd posted)) (sn_endpoints net) (sn_lookups net) = Sent hash \<and>
             ss_replaced s' = fst (recordTxReplacement (ss_replaced s) ''bitcoin'' old hash (sn_now net))))"
  using ready_errors [of env net s args fee]
  by (auto simp: speedUpBtcTransaction_def broadcastBtc_def Let_def split: option.splits sum.splits send_outcome.splits)

subsection \<open>A speed-up that went out is not repeated\<close>

lemma lower_part: "to_lower t = t \<Longrightarrow> to_lower (take n t) = take n t \<and> to_lower (drop n t) = drop n t"
  by (simp add: to_lower_def flip: take_map drop_map)

lemma hex_is_normal:
  assumes "rx_test ci TXID t" "to_lower t = t"
  shows "js_trim t = t" "norm_hash t = t" "t \<noteq> []"
proof -
  have s: "length t = 64" "list_all (cls_ok ci False [(48, 57), (97, 102)]) t"
    using assms(1) by (auto simp: TXID_def test_exact)
  have c: "\<not> js_space c \<and> c \<noteq> CHR ''x''" if "cls_ok ci False [(48, 57), (97, 102)] c" for c
    using that by (auto simp: js_space_def cls_ok_def in_ranges_def lower_char_def upper_char_def split: if_splits)
  show "t \<noteq> []" using s(1) by auto
  then have "hd t \<in> set t" "last t \<in> set t" by simp_all
  then show t: "js_trim t = t" using s(2) c by (intro js_trim_noop) (auto simp: list_all_iff)
  have "CHR ''x'' \<notin> set t" using s(2) c by (auto simp: list_all_iff)
  then have "to_lower (take 2 t) \<noteq> ''0x''" using lower_part [OF assms(2)] by (metis in_set_takeD list.set_intros)
  then show "norm_hash t = t" using t assms(2) by (simp add: norm_hash_def Let_def)
qed

lemma normTxid_is_key:
  assumes "normTxid x = Some t"
  shows "norm_hash x = t" "norm_hash t = t" "t \<noteq> []"
proof -
  have t: "rx_test False TXID t" "t = to_lower (js_trim x)"
    using assms by (auto simp: normTxid_def Let_def split: if_splits)
  then show n: "norm_hash t = t" "t \<noteq> []" using hex_is_normal [OF t(1)] by simp_all
  have "take 2 t \<noteq> ''0x''"
  proof
    assume a: "take 2 t = ''0x''"
    moreover have "to_lower t = t" by (simp add: t(2))
    ultimately have "norm_hash t = drop 2 t"
      using hex_is_normal(1) [OF t(1)] lower_part [of t 2] by (simp add: norm_hash_def Let_def)
    then have "length t = length t - 2" using n(1) by (metis length_drop)
    then show False using n(2) by (cases t) auto
  qed
  then have "to_lower (take 2 (js_trim x)) \<noteq> ''0x''" by (simp add: t(2) to_lower_def flip: take_map)
  then show "norm_hash x = t" by (simp add: norm_hash_def Let_def t(2))
qed

lemma ready_txid:
  assumes "ready env net s args fee = Inr (p, tx)"
  shows "normTxid (sa_txid args) = Some (oc_txid (pr_view p))"
proof -
  have "prepare env s args = Inr p" using assms by (auto simp: ready_def split: sum.splits if_splits)
  then obtain view keys where v: "readBtcTx env (sa_txid args) = Inr (Some view)" "price args env view keys = Inr p"
    using prepare_result by metis
  then have "normTxid (sa_txid args) = Some (oc_txid view)"
    by (auto simp: readBtcTx_def check_original_def Let_def split: option.splits sum.splits if_splits)
  then show ?thesis using price_result [OF v(2)] by simp
qed

lemma sent_id: "broadcastSignedTx t h eps lks = Sent hash \<Longrightarrow> rx_test True TXID hash \<and> to_lower hash = hash"
  by (auto simp: broadcastSignedTx_def Let_def split: if_splits option.splits)

text \<open>A session of the wallet as the two records see it: speed-ups of any transaction with any key, rate and
  explorers, and what happens to the record of own transactions.\<close>

datatype session_event =
    SpeedUp rbf_env speed_net speed_args int
  | OwnEvent "rat \<Rightarrow> string" own_event

fun session_step :: "speed_state \<Rightarrow> session_event \<Rightarrow> speed_state" where
  "session_step s (SpeedUp env net args fee) = fst (speedUpBtcTransaction env net s args fee)"
| "session_step s (OwnEvent numText e) = s\<lparr>ss_own := own_step numText (ss_own s) e\<rparr>"

fun is_speed_up :: "session_event \<Rightarrow> bool" where
  "is_speed_up (SpeedUp _ _ _ _) = True"
| "is_speed_up (OwnEvent _ _) = False"

lemma session_record:
  "ss_inFlight (session_step s e) = ss_inFlight s \<and>
   (ss_replaced (session_step s e) = ss_replaced s \<or>
    is_speed_up e \<and> (\<exists>r. ss_replaced (session_step s e) = record_step (ss_replaced s) r))"
proof (cases e)
  case (SpeedUp env net args fee)
  have "\<exists>r. fst (recordTxReplacement m c a b t) = record_step m r" for m c a b t
    by (rule exI [of _ "(c, a, b, t)"]) (simp add: record_step_def)
  then show ?thesis using SpeedUp
    by (auto simp: speedUpBtcTransaction_def broadcastBtc_def Let_def split: option.splits sum.splits send_outcome.splits)
qed simp

interpretation speed_session: event_machine session_step "\<lambda>s. records_ok (ss_replaced s)"
proof
  fix s :: speed_state and e :: session_event
  show "records_ok (ss_replaced s) \<Longrightarrow> records_ok (ss_replaced (session_step s e))"
    using session_record [of s e] replacement_record.step_good by metis
qed

lemma session_keeps:
  assumes "records_ok (ss_replaced s)" "kept_for j k (ss_replaced s)" "j + length (filter is_speed_up es) < MAX_REPLACEMENTS"
  shows "ss_inFlight (foldl session_step s es) = ss_inFlight s \<and> (\<exists>j. kept_for j k (ss_replaced (foldl session_step s es)))"
  using assms
proof (induction es arbitrary: s j)
  case (Cons e es)
  have ok: "records_ok (ss_replaced (session_step s e))" using speed_session.step_good [OF Cons.prems(1)] .
  show ?case
  proof (cases "ss_replaced (session_step s e) = ss_replaced s")
    case True
    then show ?thesis
      using Cons.IH [OF ok, of j] Cons.prems(2,3) session_record [of s e] by (simp split: if_splits)
  next
    case False
    then obtain r where r: "is_speed_up e" "ss_replaced (session_step s e) = record_step (ss_replaced s) r"
      using session_record [of s e] by blast
    have "kept_for (Suc j) k (ss_replaced (session_step s e))"
      unfolding r(2) using Cons.prems r(1) by (intro kept_step) simp_all
    then show ?thesis using Cons.IH [OF ok, of "Suc j"] Cons.prems(3) r(1) session_record [of s e] by simp
  qed
qed auto

lemma went_out:
  assumes "speedUpBtcTransaction env net s args fee = (s', posted, Inr (hash, old))" "hash \<noteq> old" "records_ok (ss_replaced s)"
  shows "normTxid (sa_txid args) = Some old \<and> old \<notin> ss_inFlight s' \<and> records_ok (ss_replaced s') \<and>
    kept_for 0 (keyOf ''bitcoin'' old) (ss_replaced s')"
proof -
  obtain p tx where p: "ready env net s args fee = Inr (p, tx)" "old = oc_txid (pr_view p)"
      "broadcastSignedTx (bx_id tx) (bx_hex tx) (sn_endpoints net) (sn_lookups net) = Sent hash"
      "ss_replaced s' = fst (recordTxReplacement (ss_replaced s) ''bitcoin'' old hash (sn_now net))"
      "ss_inFlight s' = ss_inFlight s" "\<exists>ident. normTxid (sa_txid args) = Some ident \<and> ident \<notin> ss_inFlight s"
    using assms(1) by (auto simp: speedUpBtcTransaction_def broadcastBtc_def Let_def
        split: option.splits if_splits sum.splits send_outcome.splits)
  have new: "txReplacementOf (ss_replaced s) ''bitcoin'' (sa_txid args) = None"
    using p(1) by (cases "txReplacementOf (ss_replaced s) ''bitcoin'' (sa_txid args)") (simp_all add: ready_def prepare_def)
  have old: "normTxid (sa_txid args) = Some old" using ready_txid [OF p(1)] p(2) by simp
  note k = normTxid_is_key [OF old]
  have h: "norm_hash hash = hash" "hash \<noteq> []" using sent_id [OF p(3)] hex_is_normal [of True hash] by auto
  let ?r = "\<lparr>r_chain = ''bitcoin'', r_replaced = norm_hash old, r_by = norm_hash hash, r_at = sn_now net\<rparr>"
  have step: "ss_replaced s' = record_step (ss_replaced s) (''bitcoin'', old, hash, sn_now net)"
    by (simp add: p(4) record_step_def)
  then have ok: "records_ok (ss_replaced s')" using replacement_record.step_good assms(3) by simp
  have n: "norm_hash old \<noteq> []" "norm_hash hash \<noteq> []" "norm_hash old \<noteq> norm_hash hash"
    using k h assms(2) by auto
  have key: "keyOf ''bitcoin'' (norm_hash old) = keyOf ''bitcoin'' old" "keyOf ''bitcoin'' (sa_txid args) = keyOf ''bitcoin'' old"
    using k by (simp_all add: keyOf_def)
  have "keyOf ''bitcoin'' old \<notin> fst ` set (ss_replaced s)"
    using new key(2) by (simp add: txReplacementOf_def map_of_eq_None_iff)
  then have "ss_replaced s' = drop_oldest (ss_replaced s @ [(keyOf ''bitcoin'' old, ?r)])"
    using record_map(1) [OF assms(3) n refl, of "''bitcoin''" "sn_now net"] p(4) key(1) by (simp add: js_set_new)
  then have "kept_for 0 (keyOf ''bitcoin'' old) (ss_replaced s')"
    using assms(3) by (simp add: kept_for_def drop_oldest_drop records_ok_def MAX_REPLACEMENTS_def drop_map)
  then show ?thesis using old ok p(5,6) by auto
qed

text \<open>C29. A transaction is sped up once. Take any session, a speed-up in it that went out under a new id, and
  whatever the session does after it: as long as fewer than 200 speed-ups were tried since, every
  attempt on the same transaction is refused as already replaced before any explorer is
  asked, with nothing handed to the network and nothing changed, whatever key, rate, fee or explorers it
  comes with. (The record holds the last 200 replacements, so an older one is forgotten.)\<close>

theorem sped_up_once:
  assumes "ss_replaced s0 = []" "s = foldl session_step s0 before"
    "speedUpBtcTransaction env net s args fee = (s', posted, Inr (hash, old))" "hash \<noteq> old"
    "length (filter is_speed_up since) < MAX_REPLACEMENTS" "later = foldl session_step s' since"
    "normTxid (sa_txid args') = normTxid (sa_txid args)"
  shows "prepare env' later args' = Inl (Refusal AlreadyReplaced) \<and>
    speedUpBtcTransaction env' net' later args' fee' = (later, [], Inl (Refusal AlreadyReplaced))"
proof -
  have "records_ok (ss_replaced s)" unfolding assms(2)
    by (rule speed_session.run_good) (simp add: assms(1) records_ok_def)
  note w = went_out [OF assms(3,4) this]
  obtain j where j: "kept_for j (keyOf ''bitcoin'' old) (ss_replaced later)" "ss_inFlight later = ss_inFlight s'"
    using session_keeps [of s' 0 "keyOf ''bitcoin'' old" since] w assms(5,6) by auto
  have "keyOf ''bitcoin'' (sa_txid args') = keyOf ''bitcoin'' old"
    using w assms(7) normTxid_is_key [of "sa_txid args'" old] normTxid_is_key [of "sa_txid args" old] by (simp add: keyOf_def)
  then have "prepare env' later args' = Inl (Refusal AlreadyReplaced)"
    using kept_found [OF j(1)] by (simp add: prepare_def txReplacementOf_def)
  then show ?thesis using w assms(7) j(2) by (simp add: speedUpBtcTransaction_def ready_def)
qed

subsection \<open>A concrete speed-up\<close>

definition sample_tx_bytes :: "byte list" where "sample_tx_bytes = replicate 32 1"

definition sample_script :: "byte list" where "sample_script = 0x00 # 0x14 # replicate 20 0"

definition sample_original :: btc_tx where
  "sample_original = \<lparr>bx_id = replicate 64 CHR ''a'', bx_hex = ''aa'', bx_version = 2, bx_locktime = 0,
     bx_ins = [\<lparr>ti_hash = sample_tx_bytes, ti_index = 0, ti_sequence = BTC_RBF_SEQUENCE\<rparr>],
     bx_outs = [\<lparr>to_script = [1], to_value = 50000\<rparr>, \<lparr>to_script = sample_script, to_value = 30000\<rparr>],
     bx_vsize = 120\<rparr>"

definition sample_json :: json where
  "sample_json = JObj [(''vin'', JArr [JObj [(''txid'', JStr (bytesToHex sample_tx_bytes)), (''vout'', JNum 0),
     (''prevout'', JObj [(''scriptpubkey'', JStr (bytesToHex sample_script)), (''value'', JNum 81000)])]]),
     (''fee'', JNum 1000), (''status'', JObj [(''confirmed'', JBool False)])]"

definition sample_rbf_env :: rbf_env where
  "sample_rbf_env =
     \<lparr>e_get = (\<lambda>path. [(''h'', EReply 200 (Inr path))]),
      e_parse = (\<lambda>body. Some (if length body = 68 then sample_json else JArr [JObj [], JObj []])),
      e_numText = (\<lambda>_. ''0''), e_fromHex = (\<lambda>_. Inr sample_original),
      e_addressOf = (\<lambda>script. Some (if script = [1] then ''x'' else ''c'')),
      e_toOutputScript = (\<lambda>a. if a = ''c'' then Some sample_script else None),
      e_addressFor = (\<lambda>_ t. if t = P2wpkh then ''c'' else ''other''), e_outputFor = (\<lambda>_ _. sample_script),
      e_derive = (\<lambda>_ _. None), e_child = (\<lambda>_ _ _ _. \<lparr>n_private = None, n_public = None\<rparr>),
      e_seedOk = (\<lambda>_. True), e_keyPair = (\<lambda>_. Some ([7], [8]))\<rparr>"

definition sample_sign :: "Psbt \<Rightarrow> byte list list \<Rightarrow> thrown + btc_tx" where
  "sample_sign psbt _ =
     Inr \<lparr>bx_id = replicate 64 CHR ''b'', bx_hex = ''bb'', bx_version = ps_version psbt, bx_locktime = ps_locktime psbt,
          bx_ins = [\<lparr>ti_hash = sample_tx_bytes, ti_index = 0, ti_sequence = BTC_RBF_SEQUENCE\<rparr>],
          bx_outs = ps_outputs psbt, bx_vsize = 120\<rparr>"

definition sample_speed_net :: speed_net where
  "sample_speed_net =
     \<lparr>sn_sign = sample_sign, sn_endpoints = [\<lparr>ep_name = ''e'', send = (\<lambda>_. Inr [])\<rparr>], sn_lookups = [], sn_now = 5\<rparr>"

definition sample_speed_state :: speed_state where
  "sample_speed_state = \<lparr>ss_replaced = [],
     ss_own = \<lparr>known = [(replicate 64 CHR ''a'', 1)], hydrated = True, stored = None\<rparr>, ss_inFlight = {}\<rparr>"

definition sample_speed_args :: speed_args where
  "sample_speed_args = \<lparr>sa_txid = replicate 64 CHR ''a'', sa_secret = PrivateKey ''00'', sa_targetRate = Some 20, sa_known = []\<rparr>"

definition sample_replacement :: btc_tx where
  "sample_replacement = \<lparr>bx_id = replicate 64 CHR ''b'', bx_hex = ''bb'', bx_version = 2, bx_locktime = 0,
     bx_ins = [\<lparr>ti_hash = sample_tx_bytes, ti_index = 0, ti_sequence = BTC_RBF_SEQUENCE\<rparr>],
     bx_outs = [\<lparr>to_script = [1], to_value = 50000\<rparr>, \<lparr>to_script = sample_script, to_value = 28600\<rparr>],
     bx_vsize = 120\<rparr>"

definition sample_after :: speed_state where
  "sample_after = fst (speedUpBtcTransaction sample_rbf_env sample_speed_net sample_speed_state sample_speed_args 2400)"

lemma sample_speed_up:
  "speedUpBtcTransaction sample_rbf_env sample_speed_net sample_speed_state sample_speed_args 2400 =
     (sample_after, [sample_replacement], Inr (replicate 64 CHR ''b'', replicate 64 CHR ''a''))"
proof -
  have "snd (speedUpBtcTransaction sample_rbf_env sample_speed_net sample_speed_state sample_speed_args 2400) =
      ([sample_replacement], Inr (replicate 64 CHR ''b'', replicate 64 CHR ''a''))"
    by code_simp
  then show ?thesis by (metis prod.collapse sample_after_def)
qed

lemma speed_up_changes_only_the_change_witness:
  "\<exists>view c. readBtcTx sample_rbf_env (sa_txid sample_speed_args) = Inr (Some view) \<and>
     map outpoint (bx_ins sample_replacement) = map outpoint (bx_ins (oc_tx view)) \<and> c < length (bx_outs (oc_tx view)) \<and>
     (let b = bx_outs (oc_tx view) ! c; left = to_value b - (2400 - oc_feeSat view)
      in bx_outs sample_replacement = (bx_outs (oc_tx view)) [c := b\<lparr>to_value := left\<rparr>] \<and> BTC_DUST_SAT < left)"
  using speed_up_changes_only_the_change [OF sample_speed_up] unfolding Let_def by auto

lemma sped_up_once_witness:
  "prepare sample_rbf_env (session_step sample_after (OwnEvent (\<lambda>_. []) (Ask []))) sample_speed_args = Inl (Refusal AlreadyReplaced)"
proof (rule sped_up_once [THEN conjunct1])
  show "ss_replaced sample_speed_state = []" by (simp add: sample_speed_state_def)
  show "sample_speed_state = foldl session_step sample_speed_state []" by (simp only: foldl.simps)
  show "speedUpBtcTransaction sample_rbf_env sample_speed_net sample_speed_state sample_speed_args 2400 =
     (sample_after, [sample_replacement], Inr (replicate 64 CHR ''b'', replicate 64 CHR ''a''))" by (rule sample_speed_up)
  show "replicate 64 CHR ''b'' \<noteq> replicate 64 CHR ''a''" by simp
  show "length (filter is_speed_up [OwnEvent (\<lambda>_. []) (Ask [])]) < MAX_REPLACEMENTS" by (simp add: MAX_REPLACEMENTS_def)
  show "session_step sample_after (OwnEvent (\<lambda>_. []) (Ask [])) = foldl session_step sample_after [OwnEvent (\<lambda>_. []) (Ask [])]"
    by (simp only: foldl.simps)
qed (rule refl)

end
