(* ===== verification/UtxoScan.thy ===== *)
theory UtxoScan
  imports UtxoAccount "HOL-Library.Product_Lexorder" "HOL-Library.Sublist"
begin

section \<open>What a complete scan has seen\<close>

text \<open>
  Two interfaces of the gap walk of \<open>UtxoAccount\<close>: the order in which answers arrive, which does not matter, and an
  explorer that tells the truth when it answers, for which a complete scan misses nothing a gap limit can
  find. The gathering of a send rests on both.
\<close>

subsection \<open>The order of the answers\<close>

definition scan_key :: "'a AddressAt_scheme \<Rightarrow> nat \<times> nat" where
  "scan_key a = (aa_chainIndex a, aa_index a)"

abbreviation ascending :: "'a AddressAt_scheme list \<Rightarrow> bool" where
  "ascending as \<equiv> sorted_wrt (<) (map scan_key as)"

lemma scan_order_key: "scan_order = (\<lambda>x y. scan_key x < scan_key y)"
  by (auto simp: scan_order_def scan_key_def fun_eq_iff)

lemma sorted_wrt_subseq: "subseq xs ys \<Longrightarrow> sorted_wrt P ys \<Longrightarrow> sorted_wrt P xs"
proof (induction rule: list_emb.induct)
  case (list_emb_Cons2 x y xs ys)
  then have "set xs \<subseteq> set ys" by (auto dest: list_emb_set)
  then show ?case using list_emb_Cons2 by auto
qed auto

lemma scan_key_entry [simp]: "scan_key (entry_of a r) = scan_key a"
  by (simp add: scan_key_def entry_of_def)

definition in_order :: "scan_env \<Rightarrow> scan_env" where
  "in_order env = env\<lparr>sc_arrival := \<lambda>b. b\<rparr>"

locale arrivals =
  fixes env :: scan_env
  assumes all_arrive: "mset (sc_arrival env b) = mset b"
begin

lemma same_answers: "mset (fst (probe_block env spec b)) = mset (fst (probe_block (in_order env) spec b)) \<and>
   snd (probe_block env spec b) = snd (probe_block (in_order env) spec b)"
proof -
  have "mset (List.map_filter f (sc_arrival env b)) = mset (List.map_filter f b)" for f :: "AddressAt \<Rightarrow> UtxoAddressEntry option"
    by (simp add: map_filter_as_map mset_map mset_filter all_arrive)
  then show ?thesis by (auto simp: probe_block_def probe_each_def in_order_def split: option.split)
qed

end

lemma answers_in_order: "subseq (map scan_key (fst (probe_block (in_order env) spec b))) (map scan_key b)"
proof -
  have f: "map scan_key (List.map_filter (\<lambda>a. map_option (entry_of a) (g a)) b) = map scan_key (filter (\<lambda>a. g a \<noteq> None) b)" for g
    by (induction b) (auto simp: List.map_filter_simps)
  have z: "length rs = length b \<Longrightarrow> map scan_key (map2 entry_of b rs) = map scan_key b" for rs
    by (induction b rs rule: list_induct2') auto
  show ?thesis
    by (auto simp: probe_block_def probe_each_def in_order_def f z subseq_map simp del: map_map split: option.split)
qed

lemma concat_chunks [simp]: "concat (chunks n xs) = xs"
  by (induction n xs rule: chunks.induct) (subst chunks.simps, auto)

lemma concat_in_order: "subseq (map scan_key (concat (map (fst \<circ> probe_block (in_order env) spec) bs))) (map scan_key (concat bs))"
  by (induction bs) (auto intro: list_emb_append_mono answers_in_order)

context arrivals
begin

lemma probing_order_irrelevant:
  assumes "ascending as"
  shows "probeAddresses env spec as = probeAddresses (in_order env) spec as"
proof -
  define bs where "bs = (case sp_probeMany spec of None \<Rightarrow> [as]
      | Some _ \<Rightarrow> chunks (coalesce (sp_batchSize spec) DEFAULT_BATCH_SIZE) as)"
  have c: "concat bs = as" by (auto simp: bs_def split: option.split)
  let ?e = "\<lambda>env. concat (map (fst \<circ> probe_block env spec) bs)"
  have m: "mset (?e env) = mset (?e (in_order env))"
    by (induction bs) (simp_all add: same_answers)
  have s: "sorted_wrt (<) (map scan_key (?e (in_order env)))"
    using sorted_wrt_subseq [OF concat_in_order] assms unfolding c [symmetric] by blast
  then have s': "sorted_wrt (\<lambda>a b. scan_key a < scan_key b) (?e (in_order env))" by (simp add: sorted_wrt_map)
  have "sort_by scan_order (?e env) = ?e (in_order env)" "sort_by scan_order (?e (in_order env)) = ?e (in_order env)"
    unfolding scan_order_key by (rule sort_by_key_eq [OF m s'], rule sort_by_key_eq [OF refl s'])
  moreover have "list_all (snd \<circ> probe_block env spec) bs = list_all (snd \<circ> probe_block (in_order env) spec) bs"
    by (simp add: list_all_iff same_answers)
  ultimately show ?thesis
    by (simp add: probeAddresses_def Let_def bs_def [symmetric] list_all_iff comp_def)
qed

end

lemma derived_same [simp]: "deriveUtxoAddresses (in_order env) m spec c k n = deriveUtxoAddresses env m spec c k n"
proof -
  have "address_at (in_order env) m spec c = address_at env m spec c" by (simp add: address_at_def in_order_def fun_eq_iff)
  then show ?thesis by (simp add: deriveUtxoAddresses_def in_order_def)
qed

lemma address_at_key: "address_at env m spec c i = Some a \<Longrightarrow> scan_key a = (c, i)"
  by (auto simp: address_at_def scan_key_def bind_eq_Some_conv)

lemma derived_keys:
  assumes "deriveUtxoAddresses env m spec c k n = Inr as"
  shows "map scan_key as = map (Pair c) [k..<k + n]"
proof -
  have l: "length as = n" "map Some as = map (address_at env m spec c) [k..<k + n]" using derived_length [OF assms] by auto
  have "scan_key (as ! i) = (c, k + i)" if "i < n" for i
  proof -
    have "Some (as ! i) = address_at env m spec c (k + i)"
      using arg_cong [OF l(2), of "\<lambda>xs. xs ! i"] l(1) that by simp
    then show ?thesis using address_at_key by metis
  qed
  then show ?thesis using l(1) by (auto simp: list_eq_iff_nth_eq)
qed

lemma derived_ascending:
  assumes "deriveUtxoAddresses env m spec c k n = Inr as"
  shows "ascending as"
  unfolding derived_keys [OF assms] by (simp add: sorted_wrt_map)

lemma walking_order_irrelevant:
  assumes "arrivals env"
  shows "walk_loop (in_order env) m spec c g n cursor es t = walk_loop env m spec c g n cursor es t"
  using assms
proof (induction env m spec c g n cursor es t rule: walk_loop.induct)
  case (1 env m spec c g n cursor es t)
  let ?b = "block_size spec g n"
  show ?case
  proof (cases "g \<le> t")
    case True
    then show ?thesis by (simp add: walk_loop.simps)
  next
    case g: False
    show ?thesis
    proof (cases "deriveUtxoAddresses env m spec c cursor ?b")
      case (Inl e)
      then show ?thesis using g by (simp add: walk_loop.simps [of _ m spec c g n cursor es t])
    next
      case (Inr block)
      have p: "probeAddresses (in_order env) spec block = probeAddresses env spec block"
        using arrivals.probing_order_irrelevant [OF 1(2) derived_ascending [OF Inr]] by simp
      obtain probed ok where pr: "probeAddresses env spec block = (probed, ok)" by fastforce
      obtain es' t' where st: "foldl count_entry (es, t) probed = (es', t')" by fastforce
      show ?thesis
        using 1(1) [OF g Inr pr [symmetric] refl refl _ st [symmetric] refl] 1(2) g Inr p pr st
        by (simp add: walk_loop.simps [of _ m spec c g n cursor es t] Let_def)
    qed
  qed
qed

subsection \<open>An explorer that tells the truth when it answers\<close>

definition true_entry :: "(string \<Rightarrow> UtxoAddressProbe) \<Rightarrow> AddressAt \<Rightarrow> UtxoAddressEntry" where
  "true_entry truth a = entry_of a (truth (aa_address a))"

text \<open>The addresses of one chain that were used or hold coins.\<close>

definition true_entries ::
    "scan_env \<Rightarrow> string \<Rightarrow> UtxoAccountSpec \<Rightarrow> (string \<Rightarrow> UtxoAddressProbe) \<Rightarrow> nat \<Rightarrow> UtxoAddressEntry set" where
  "true_entries env m spec truth c =
     {e. \<exists>i a. address_at env m spec c i = Some a \<and> e = true_entry truth a \<and> touched e}"

definition unused_tail :: "UtxoAddressEntry list \<Rightarrow> nat" where
  "unused_tail es = length (takeWhile (\<lambda>e. \<not> touched e) (rev es))"

lemma unused_tail_le: "unused_tail es \<le> length es"
  by (metis unused_tail_def length_rev length_takeWhile_le)

lemma in_unused_tail:
  assumes "length es - unused_tail es \<le> i" "i < length es" shows "\<not> touched (es ! i)"
proof -
  let ?j = "length es - Suc i"
  have "?j < length (takeWhile (\<lambda>e. \<not> touched e) (rev es))"
    using assms unused_tail_le [of es] by (simp add: unused_tail_def)
  moreover from this have "takeWhile (\<lambda>e. \<not> touched e) (rev es) ! ?j = es ! i"
    using assms(2) by (simp add: takeWhile_nth rev_nth)
  ultimately show ?thesis using nth_mem set_takeWhileD by metis
qed

lemma count_entries:
  "foldl count_entry (es, unused_tail ys) xs = (es @ filter touched xs, unused_tail (ys @ xs))"
  by (induction xs rule: rev_induct) (auto simp: count_entry_def unused_tail_def)

locale honest_source = arrivals +
  fixes spec :: UtxoAccountSpec and truth :: "string \<Rightarrow> UtxoAddressProbe"
  assumes probe_true: "sp_probe spec a = Some r \<Longrightarrow> r = truth a"
    and many_true: "sp_probeMany spec = Some many \<Longrightarrow> many as = Some rs \<Longrightarrow> length rs = length as \<Longrightarrow> rs = map truth as"
begin

lemma block_true: "snd (probe_block (in_order env) spec b) \<Longrightarrow> fst (probe_block (in_order env) spec b) = map (true_entry truth) b"
proof -
  have e: "list_all (\<lambda>a. sp_probe spec (aa_address a) \<noteq> None) b \<Longrightarrow>
      List.map_filter (\<lambda>a. map_option (entry_of a) (sp_probe spec (aa_address a))) b = map (true_entry truth) b"
    by (induction b) (auto simp: List.map_filter_simps true_entry_def dest: probe_true)
  have z: "map2 entry_of b (map truth (map aa_address b)) = map (true_entry truth) b"
    by (induction b) (auto simp: true_entry_def)
  assume "snd (probe_block (in_order env) spec b)"
  then show ?thesis using many_true [of _ "map aa_address b"] z
    by (auto simp: probe_block_def probe_each_def in_order_def e split: option.splits if_splits)
qed

lemma probed_true:
  assumes "ascending as" "probeAddresses env spec as = (probed, True)"
  shows "probed = map (true_entry truth) as"
proof -
  define bs where "bs = (case sp_probeMany spec of None \<Rightarrow> [as]
      | Some _ \<Rightarrow> chunks (coalesce (sp_batchSize spec) DEFAULT_BATCH_SIZE) as)"
  have c: "concat bs = as" by (auto simp: bs_def split: option.split)
  have p: "probeAddresses (in_order env) spec as = (probed, True)"
    using probing_order_irrelevant [OF assms(1)] assms(2) by simp
  then have ok: "\<forall>b \<in> set bs. snd (probe_block (in_order env) spec b)"
      and s: "probed = sort_by scan_order (concat (map (\<lambda>b. fst (probe_block (in_order env) spec b)) bs))"
    by (auto simp: probeAddresses_def Let_def bs_def [symmetric] list_all_iff comp_def)
  have "concat (map (\<lambda>b. fst (probe_block (in_order env) spec b)) bs) = map (true_entry truth) (concat bs)"
    using ok by (induction bs) (auto simp: block_true)
  then have s': "probed = sort_by scan_order (map (true_entry truth) as)" using s c by simp
  have "map scan_key (map (true_entry truth) as) = map scan_key as" by (simp add: true_entry_def)
  then have "sorted_wrt (\<lambda>a b. scan_key a < scan_key b) (map (true_entry truth) as)"
    using assms(1) by (metis sorted_wrt_map)
  then show ?thesis unfolding s' scan_order_key by (rule sort_by_key_eq [OF refl])
qed

end

lemma walk_seen:
  assumes "honest_source env spec truth"
    "walk_loop env m spec c g n cursor es t = Inr (found, k, True)"
    "map Some as = map (address_at env m spec c) [0..<cursor]"
    "es = filter touched (map (true_entry truth) as)" "t = unused_tail (map (true_entry truth) as)"
  shows "\<exists>bs. map Some bs = map (address_at env m spec c) [0..<k] \<and>
     found = filter touched (map (true_entry truth) bs) \<and> g \<le> unused_tail (map (true_entry truth) bs)"
  using assms
proof (induction env m spec c g n cursor es t arbitrary: as rule: walk_loop.induct)
  case (1 env m spec c g n cursor es t)
  note hs = 1(2) and res = 1(3) and inv = 1(4-6)
  let ?b = "block_size spec g n"
  show ?case
  proof (cases "g \<le> t")
    case True
    then show ?thesis using res inv by (intro exI [of _ as]) (simp add: walk_loop.simps)
  next
    case g: False
    then obtain block where b: "deriveUtxoAddresses env m spec c cursor ?b = Inr block"
      using res by (auto simp: walk_loop.simps [of env m spec c g n cursor es t] split: sum.splits)
    obtain probed ok where pr: "probeAddresses env spec block = (probed, ok)" by fastforce
    obtain es' t' where st: "foldl count_entry (es, t) probed = (es', t')" by fastforce
    have ok: ok and go: "\<not> g * 25 < cursor + length block"
        "walk_loop env m spec c g n (cursor + length block) es' t' = Inr (found, k, True)"
      using res g b pr st by (auto simp: walk_loop.simps [of env m spec c g n cursor es t] Let_def split: if_splits)
    have tr: "probed = map (true_entry truth) block"
      using honest_source.probed_true [OF hs derived_ascending [OF b]] pr ok by simp
    have "map Some (as @ block) = map (address_at env m spec c) [0..<cursor + length block]"
      using inv(1) derived_length [OF b] by (simp add: upt_add_eq_append [of 0 cursor])
    moreover have "es' = filter touched (map (true_entry truth) (as @ block))"
        "t' = unused_tail (map (true_entry truth) (as @ block))"
      using st count_entries [of es "map (true_entry truth) as" probed] inv(2,3) tr by auto
    moreover have "\<not> \<not> ok" using ok by simp
    ultimately show ?thesis
      using 1(1) [OF g b refl pr [symmetric] refl _ refl st [symmetric] go(1) hs go(2), of "as @ block"] by blast
  qed
qed

text \<open>What one chain's walk has seen when it completes.\<close>

lemma walk_complete:
  assumes "honest_source env spec truth" "walkChain env m spec c g n = Inr (found, k, True)"
  shows "set found \<subseteq> true_entries env m spec truth c \<and> ascending found \<and>
    (\<forall>e \<in> true_entries env m spec truth c.
       found_by_gap g (aa_index ` true_entries env m spec truth c) (aa_index e) \<longrightarrow> e \<in> set found)"
proof -
  obtain bs where bs: "map Some bs = map (address_at env m spec c) [0..<k]"
      "found = filter touched (map (true_entry truth) bs)" "g \<le> unused_tail (map (true_entry truth) bs)"
    using walk_seen [OF assms(1) assms(2)[unfolded walkChain_def], of "[]"] by (auto simp: unused_tail_def)
  have l: "length bs = k" using bs(1) by (metis length_map length_upt minus_nat.diff_0)
  have at: "address_at env m spec c i = Some (bs ! i)" if "i < k" for i
    using arg_cong [OF bs(1), of "\<lambda>xs. xs ! i"] that l by simp
  have key: "aa_index (true_entry truth (bs ! i)) = i" if "i < k" for i
    using address_at_key [OF at [OF that]] by (simp add: true_entry_def entry_of_def scan_key_def)
  have "set found \<subseteq> true_entries env m spec truth c"
    using at l unfolding bs(2) by (fastforce simp: true_entries_def in_set_conv_nth)
  moreover have "ascending found"
  proof -
    have "map scan_key (map (true_entry truth) bs) = map (Pair c) [0..<k]"
      using l address_at_key [OF at] by (auto simp: list_eq_iff_nth_eq true_entry_def)
    then have "ascending (map (true_entry truth) bs)" by (simp only: sorted_wrt_map) simp
    then have "sorted_wrt (\<lambda>a b. scan_key a < scan_key b) (map (true_entry truth) bs)" by (simp only: sorted_wrt_map)
    then have "sorted_wrt (\<lambda>a b. scan_key a < scan_key b) found" unfolding bs(2) by (rule sorted_wrt_filter)
    then show ?thesis by (simp only: sorted_wrt_map)
  qed
  moreover have "e \<in> set found"
    if e: "e \<in> true_entries env m spec truth c" "found_by_gap g (aa_index ` true_entries env m spec truth c) (aa_index e)" for e
  proof -
    obtain i a where i: "address_at env m spec c i = Some a" "e = true_entry truth a" "touched e"
      using e(1) by (auto simp: true_entries_def)
    then have ai: "aa_index e = i" using address_at_key by (fastforce simp: true_entry_def entry_of_def scan_key_def)
    have tail: "unused_tail (map (true_entry truth) bs) \<le> k" using unused_tail_le [of "map (true_entry truth) bs"] l by simp
    have "i < k"
    proof (rule ccontr)
      assume "\<not> i < k"
      then have "k - g + g \<le> aa_index e" using bs(3) tail ai by linarith
      then obtain e' where e': "e' \<in> true_entries env m spec truth c" "k - g \<le> aa_index e'" "aa_index e' < k - g + g"
        using e(2) unfolding found_by_gap_def by blast
      then obtain j b where j: "address_at env m spec c j = Some b" "e' = true_entry truth b" "touched e'"
        by (auto simp: true_entries_def)
      then have "aa_index e' = j" using address_at_key by (fastforce simp: true_entry_def entry_of_def scan_key_def)
      then have jk: "k - g \<le> j" "j < k" using e'(2,3) bs(3) tail by linarith+
      then have "e' = map (true_entry truth) bs ! j" using at [of j] j l by simp
      moreover have "\<not> touched (map (true_entry truth) bs ! j)"
        using jk l bs(3) by (intro in_unused_tail) simp_all
      ultimately show False using j(3) by simp
    qed
    then have "a \<in> set bs" using at i(1) l by (auto simp: in_set_conv_nth)
    then show ?thesis using i(2,3) unfolding bs(2) by simp
  qed
  ultimately show ?thesis by blast
qed

context honest_source
begin

lemma scan_sees:
  assumes "scanUtxoAccount env m spec gap conc = Inr scan" "us_complete scan"
  shows "set (us_entries scan) \<subseteq> true_entries env m spec truth 0 \<union> true_entries env m spec truth 1 \<and>
    distinct (us_entries scan) \<and> us_totalSat scan = (\<Sum>e \<in> set (us_entries scan). ae_balanceSat e) \<and>
    (\<forall>c \<in> {0, 1}. \<forall>e \<in> true_entries env m spec truth c.
       found_by_gap (coalesce gap DEFAULT_GAP_LIMIT) (aa_index ` true_entries env m spec truth c) (aa_index e) \<longrightarrow>
       e \<in> set (us_entries scan))"
proof -
  let ?g = "coalesce gap DEFAULT_GAP_LIMIT" and ?n = "coalesce conc SCAN_CONCURRENCY"
  obtain f0 k0 f1 k1 where w: "walkChain env m spec 0 ?g ?n = Inr (f0, k0, True)" "walkChain env m spec 1 ?g ?n = Inr (f1, k1, True)"
      and es: "us_entries scan = sort_by scan_order (f0 @ f1)" and tot: "us_totalSat scan = sum_list (map ae_balanceSat (us_entries scan))"
    using assms(1,2) by (auto simp: scanUtxoAccount_def Let_def split: sum.splits)
  note c = walk_complete [OF honest_source_axioms w(1)] walk_complete [OF honest_source_axioms w(2)]
  have chain: "fst (scan_key e) = c" if "e \<in> true_entries env m spec truth c" for e c
    using that address_at_key by (fastforce simp: true_entries_def true_entry_def)
  have "distinct (map scan_key f0)" "distinct (map scan_key f1)"
    using c by (auto simp: strict_sorted_iff)
  moreover have "scan_key x \<noteq> scan_key y" if "x \<in> set f0" "y \<in> set f1" for x y
  proof -
    have "fst (scan_key x) = 0" "fst (scan_key y) = 1"
      using that c by (intro chain; blast)+
    then show ?thesis by auto
  qed
  then have "scan_key ` set f0 \<inter> scan_key ` set f1 = {}" by blast
  ultimately have "distinct (map scan_key (f0 @ f1))" by simp
  then have "distinct (map scan_key (us_entries scan))" unfolding es distinct_map_sort_by .
  then have "distinct (us_entries scan)" by (simp add: distinct_map)
  then show ?thesis using c es tot by (auto simp: sum_list_distinct_conv_sum_set)
qed

end

text \<open>C9. A scan that calls itself complete, of an explorer that may fail but does not lie, has seen every
  used or funded address that a gap limit can find on either chain, and nothing else; each once, in
  order. Its total is exactly what they hold.\<close>

theorem complete_scan_misses_nothing:
  assumes "\<And>b. mset (sc_arrival env b) = mset b"
    "\<And>a r. sp_probe spec a = Some r \<Longrightarrow> r = truth a"
    "\<And>many as rs. sp_probeMany spec = Some many \<Longrightarrow> many as = Some rs \<Longrightarrow> length rs = length as \<Longrightarrow> rs = map truth as"
    "scanUtxoAccount env m spec gap conc = Inr scan" "us_complete scan"
  shows "set (us_entries scan) \<subseteq> true_entries env m spec truth 0 \<union> true_entries env m spec truth 1 \<and>
    distinct (us_entries scan) \<and> us_totalSat scan = (\<Sum>e \<in> set (us_entries scan). ae_balanceSat e) \<and>
    (\<forall>c \<in> {0, 1}. \<forall>e \<in> true_entries env m spec truth c.
       found_by_gap (coalesce gap DEFAULT_GAP_LIMIT) (aa_index ` true_entries env m spec truth c) (aa_index e) \<longrightarrow>
       e \<in> set (us_entries scan))"
proof -
  have "honest_source env spec truth" using assms(1-3) by unfold_locales
  then show ?thesis using assms(4,5) by (rule honest_source.scan_sees)
qed

text \<open>C36. A scan does not depend on the order in which the explorer's answers arrive.\<close>

theorem scan_order_irrelevant:
  assumes "\<And>b. mset (f b) = mset b" "\<And>b. mset (g b) = mset b"
  shows "scanUtxoAccount (env\<lparr>sc_arrival := f\<rparr>) m spec gap conc = scanUtxoAccount (env\<lparr>sc_arrival := g\<rparr>) m spec gap conc"
proof -
  have a: "arrivals (env\<lparr>sc_arrival := f\<rparr>)" "arrivals (env\<lparr>sc_arrival := g\<rparr>)"
    using assms by (auto intro!: arrivals.intro)
  have "in_order (env\<lparr>sc_arrival := f\<rparr>) = in_order (env\<lparr>sc_arrival := g\<rparr>)" by (simp add: in_order_def)
  then have "walkChain (env\<lparr>sc_arrival := f\<rparr>) m spec c k n = walkChain (env\<lparr>sc_arrival := g\<rparr>) m spec c k n" for c k n
    unfolding walkChain_def by (metis walking_order_irrelevant a)
  then show ?thesis unfolding scanUtxoAccount_def by presburger
qed

subsection \<open>Gathering what pays\<close>

definition coins_at :: "(string \<Rightarrow> utxo list option) \<Rightarrow> UtxoAddressEntry \<Rightarrow> AccountSpendCandidate list" where
  "coins_at fetch e = map (candidate_at e) (coalesce (fetch (aa_address e)) [])"

text \<open>A source that can sign for an address: its key is the account's at its place, and encodes to the address.\<close>

definition signs_for :: "scan_env \<Rightarrow> string \<Rightarrow> UtxoAccountSpec \<Rightarrow> string \<Rightarrow> AccountSpendSource \<Rightarrow> bool" where
  "signs_for env m spec address so \<longleftrightarrow>
     so_address so = address \<and> n_private (so_node so) \<noteq> None \<and>
     sc_child env (js_trim m) (sp_accountPath spec) (so_chainIndex so) (so_index so) = Some (so_node so) \<and>
     sp_deriveAddress spec (so_node so) = Some address"

definition spendable_coin ::
    "scan_env \<Rightarrow> string \<Rightarrow> UtxoAccountSpec \<Rightarrow> (string \<Rightarrow> utxo list option) \<Rightarrow> (string \<times> AccountSpendSource) list \<Rightarrow>
     AccountSpendCandidate \<Rightarrow> bool" where
  "spendable_coin env m spec fetch sources c \<longleftrightarrow>
     (\<exists>so. map_of sources (cd_address c) = Some so \<and> signs_for env m spec (cd_address c) so) \<and>
     (\<exists>utxos. fetch (cd_address c) = Some utxos \<and> (cd_txid c, cd_vout c, cd_valueSat c) \<in> set utxos) \<and>
     safe_sat (cd_valueSat c)"

lemma spendable_coin_keeps:
  assumes "spendable_coin env m spec fetch sources c" "signs_for env m spec address so"
  shows "spendable_coin env m spec fetch (js_set address so sources) c"
  using assms by (auto simp: spendable_coin_def)

lemma gather_loop_result:
  assumes "gather_loop env m spec a fetch srcs sources cands = Inr (plan, sources')"
    "\<forall>c \<in> set cands. spendable_coin env m spec fetch sources c"
  shows "\<exists>k. plan = planAccountSpend a (cands @ concat (map (coins_at fetch) (take k srcs))) \<and>
    (\<forall>c \<in> set (cands @ concat (map (coins_at fetch) (take k srcs))). spendable_coin env m spec fetch sources' c) \<and>
    (asp_covered plan \<or> k = length srcs)"
  using assms
proof (induction srcs arbitrary: sources cands)
  case Nil
  then show ?case by auto
next
  case (Cons src srcs)
  obtain node key where node: "sc_child env (js_trim m) (sp_accountPath spec) (aa_chainIndex src) (aa_index src) = Some node"
      "n_private node = Some key" "sp_deriveAddress spec node = Some (aa_address src)"
    using Cons.prems(1) by (auto split: option.splits if_splits)
  obtain utxos where u: "fetch (aa_address src) = Some utxos" "List.find (\<lambda>(_, _, v). \<not> safe_sat v) utxos = None"
    using Cons.prems(1) node by (auto split: option.splits if_splits)
  let ?so = "\<lparr>so_path = aa_path src, so_address = aa_address src, so_chainIndex = aa_chainIndex src,
     so_index = aa_index src, so_node = node\<rparr>"
  let ?s = "js_set (aa_address src) ?so sources" and ?c = "cands @ coins_at fetch src"
  have so: "signs_for env m spec (aa_address src) ?so" using node by (simp add: signs_for_def)
  have "spendable_coin env m spec fetch ?s c" if "c \<in> set (coins_at fetch src)" for c
    using that u so by (auto simp: coins_at_def candidate_at_def spendable_coin_def find_None_set)
  then have ok: "\<forall>c \<in> set ?c. spendable_coin env m spec fetch ?s c"
    using Cons.prems(2) spendable_coin_keeps [OF _ so] by auto
  have step: "gather_loop env m spec a fetch (src # srcs) sources cands =
      (let plan = planAccountSpend a ?c
       in if asp_covered plan then Inr (plan, ?s) else gather_loop env m spec a fetch srcs ?s ?c)"
    using node u by (simp add: Let_def coins_at_def)
  show ?case
  proof (cases "asp_covered (planAccountSpend a ?c)")
    case True
    then show ?thesis using Cons.prems(1) step ok by (intro exI [of _ 1]) (auto simp: Let_def)
  next
    case False
    then obtain k where "plan = planAccountSpend a (?c @ concat (map (coins_at fetch) (take k srcs)))"
        "\<forall>c \<in> set (?c @ concat (map (coins_at fetch) (take k srcs))). spendable_coin env m spec fetch sources' c"
        "asp_covered plan \<or> k = length srcs"
      using Cons.IH [OF _ ok] Cons.prems(1) step by (auto simp: Let_def)
    then show ?thesis by (intro exI [of _ "Suc k"]) auto
  qed
qed

lemma plan_inputs_in: "set (asp_inputs (planAccountSpend a cs)) \<subseteq> set cs"
proof -
  have "set (asp_inputs (spend_loop a inputs tot pool)) \<subseteq> set inputs \<union> set pool" for inputs tot pool
    by (induction a inputs tot pool rule: spend_loop.induct) (auto simp: Let_def split: if_splits)
  from this [of "[]"] show ?thesis unfolding planAccountSpend_def by fastforce
qed

text \<open>What is gathered for a send can be signed: the scan was complete, every chosen coin was listed at an
  address of the account whose key is at hand and encodes to it, and the change goes to the first
  change address that was never used. When the plan does not cover the send, every funded address of
  the account was asked, so the shortfall is the account's.\<close>

lemma gathered_coins_can_be_signed:
  assumes "gatherAccountSpend env m spec a gap fetch = Inr g"
  shows "us_complete (gs_scan g) \<and>
    (\<forall>c \<in> set (asp_inputs (gs_plan g)). spendable_coin env m spec fetch (gs_sources g) c) \<and>
    address_at env m spec 1 (aa_index (gs_change g)) = Some (gs_change g) \<and>
    aa_index (gs_change g) =
      (LEAST i. i \<notin> aa_index ` {e \<in> set (us_entries (gs_scan g)). aa_chainIndex e = 1 \<and> touched e}) \<and>
    (asp_covered (gs_plan g) \<or>
     gs_plan g = planAccountSpend a (concat (map (coins_at fetch) (funded (us_entries (gs_scan g))))))"
proof -
  obtain scan change rest plan sources where g: "us_complete scan"
      "deriveUtxoAddresses env m spec 1 (nextChangeIndex (us_entries scan)) 1 = Inr (change # rest)"
      "gather_loop env m spec a fetch (funded (us_entries scan)) [] [] = Inr (plan, sources)"
      "g = \<lparr>gs_plan = plan, gs_sources = sources, gs_change = change, gs_scan = scan\<rparr>"
    using assms by (auto simp: gatherAccountSpend_def split: sum.splits if_splits list.splits)
  have "Some change = address_at env m spec 1 (nextChangeIndex (us_entries scan))"
    using derived_length [OF g(2)] by (cases rest) auto
  then have ch: "address_at env m spec 1 (aa_index change) = Some change" "aa_index change = nextChangeIndex (us_entries scan)"
    using address_at_key by (auto simp: scan_key_def dest!: sym [of "Some _"])
  obtain k where k: "plan = planAccountSpend a (concat (map (coins_at fetch) (take k (funded (us_entries scan)))))"
      "\<forall>c \<in> set (concat (map (coins_at fetch) (take k (funded (us_entries scan))))). spendable_coin env m spec fetch sources c"
      "asp_covered plan \<or> k = length (funded (us_entries scan))"
    using gather_loop_result [OF g(3)] by auto
  then have "\<forall>c \<in> set (asp_inputs plan). spendable_coin env m spec fetch sources c" using plan_inputs_in by blast
  then show ?thesis using g(1,4) ch k(1,3) nextChangeIndex_least by auto
qed

lemma gathered_plan:
  assumes "gatherAccountSpend env m spec a gap fetch = Inr g"
  shows "\<exists>cs. gs_plan g = planAccountSpend a cs"
proof -
  obtain entries plan sources where l: "gather_loop env m spec a fetch entries [] [] = Inr (plan, sources)" "gs_plan g = plan"
    using assms by (auto simp: gatherAccountSpend_def split: sum.splits if_splits list.splits)
  show ?thesis using gather_loop_result [OF l(1)] l(2) by auto
qed

subsection \<open>A small account\<close>

definition small_env :: scan_env where
  "small_env = \<lparr>sc_seedOk = (\<lambda>_. True),
     sc_child = (\<lambda>_ _ c i. Some \<lparr>n_private = Some [7], n_public = Some [of_nat c, of_nat i]\<rparr>), sc_arrival = (\<lambda>b. b)\<rparr>"

definition small_address :: "byte list \<Rightarrow> string" where
  "small_address bs = map (\<lambda>b. char_of (unat b)) bs"

definition small_truth :: "string \<Rightarrow> UtxoAddressProbe" where
  "small_truth a = (if a = small_address [0, 3] then \<lparr>ap_balanceSat = 200000, ap_used = True\<rparr>
                    else \<lparr>ap_balanceSat = 0, ap_used = False\<rparr>)"

definition small_spec :: UtxoAccountSpec where
  "small_spec = \<lparr>sp_chain = ''bitcoin'', sp_accountPath = ''m'', sp_label = [],
     sp_deriveAddress = (\<lambda>node. map_option small_address (n_public node)),
     sp_probe = (\<lambda>a. Some (small_truth a)), sp_probeMany = None, sp_batchSize = None\<rparr>"

definition scan_or :: "account_error + UtxoAccountScan \<Rightarrow> rat \<times> bool" where
  "scan_or r = (case r of Inl _ \<Rightarrow> (0, False) | Inr s \<Rightarrow> (us_totalSat s, us_complete s))"

lemma small_scan: "\<exists>s. scanUtxoAccount small_env ''m'' small_spec (Some 5) None = Inr s \<and> us_totalSat s = 200000 \<and> us_complete s"
proof -
  have "scan_or (scanUtxoAccount small_env ''m'' small_spec (Some 5) None) = (200000, True)" by code_simp
  then show ?thesis by (auto simp: scan_or_def split: sum.splits)
qed

lemma complete_scan_misses_nothing_witness:
  "\<exists>s :: UtxoAccountScan. us_totalSat s = 200000 \<and> (\<Sum>e \<in> set (us_entries s). ae_balanceSat e) = 200000"
proof -
  obtain s where s: "scanUtxoAccount small_env ''m'' small_spec (Some 5) None = Inr s" "us_totalSat s = 200000" "us_complete s"
    using small_scan by blast
  have "us_totalSat s = (\<Sum>e \<in> set (us_entries s). ae_balanceSat e)"
    using complete_scan_misses_nothing [OF _ _ _ s(1,3), of small_truth] by (simp add: small_env_def small_spec_def)
  then show ?thesis using s(2) by auto
qed

lemma scan_order_irrelevant_witness:
  "scanUtxoAccount (small_env\<lparr>sc_arrival := rev\<rparr>) ''m'' small_spec (Some 5) None =
   scanUtxoAccount (small_env\<lparr>sc_arrival := \<lambda>b. b\<rparr>) ''m'' small_spec (Some 5) None"
  by (rule scan_order_irrelevant) simp_all

end
