(* ===== verification/BtcSend.thy ===== *)
theory BtcSend
  imports BtcSpeedUp UtxoScan
begin

section \<open>Sending bitcoin: wallets/btc-wallet.ts\<close>

text \<open>
  The explorers a Bitcoin account is scanned with, and the three ways coins leave the wallet: the account-wide
  send, the single-key send and the sweep of the legacy address, each from the typed amount to one
  broadcast. The environment is that of the speed-up (addresses, \<open>JSON.parse\<close>, explorer replies per path), that
  of the scan, and the two haskoin hosts' replies. Fields of a reply that its type declares are present.
\<close>

subsection \<open>The explorers\<close>

record btc_env =
  bn_rbf :: rbf_env
  bn_scan :: scan_env
  bn_haskoin :: "string \<Rightarrow> string list \<Rightarrow> json option"
  bn_bech32 :: "string \<Rightarrow> int option"
  bn_net :: speed_net

definition failed_body :: "thrown + string \<Rightarrow> string" where
  "failed_body body = (case body of Inl _ \<Rightarrow> [] | Inr t \<Rightarrow> take 160 (js_trim (squeeze_spaces t)))"

text \<open>The first host that answers 2xx or 404, or every failure.\<close>

fun fetch_from :: "(string \<times> esplora_reply) list \<Rightarrow> string list \<Rightarrow> string list + int \<times> (thrown + string)" where
  "fetch_from [] failures = Inl failures"
| "fetch_from ((host, r) # rs) failures =
     (case r of
        EThrown e \<Rightarrow> fetch_from rs (failures @ [host_failure host e])
      | EReply st body \<Rightarrow>
          if is_ok st \<or> st = 404 then Inr (st, body)
          else let b = failed_body body
               in fetch_from rs (failures @ [host_status host st @ (if b = [] then [] else '' '' @ b)]))"

definition btcFetch :: "rbf_env \<Rightarrow> string \<Rightarrow> string list + int \<times> (thrown + string)" where
  "btcFetch env path = fetch_from (e_get env path) []"

text \<open>The JSON of a 2xx reply; None where anything on the way throws.\<close>

definition fetch_json :: "rbf_env \<Rightarrow> string \<Rightarrow> json option" where
  "fetch_json env path =
     (case btcFetch env path of
        Inr (st, Inr body) \<Rightarrow> if is_ok st then e_parse env body else None
      | _ \<Rightarrow> None)"

definition probeBtcAddress :: "rbf_env \<Rightarrow> string \<Rightarrow> UtxoAddressProbe option" where
  "probeBtcAddress env address = Option.bind (fetch_json env (''/address/'' @ address)) parseEsploraStats"

definition HASKOIN_BTC_BASES :: "string list" where
  "HASKOIN_BTC_BASES = [''https://api.blockchain.info/haskoin-store/btc'', ''https://api.haskoin.com/btc'']"

definition probeBtcAddresses :: "btc_env \<Rightarrow> string list \<Rightarrow> UtxoAddressProbe list option" where
  "probeBtcAddresses env addresses =
     foldl or_else None (map (\<lambda>base. haskoinProbeMany (bn_haskoin env base addresses) addresses) HASKOIN_BTC_BASES)"

definition utxo_row :: "json \<Rightarrow> utxo option" where
  "utxo_row v =
     (case (jstr (jget v ''txid''), jnum (jget v ''vout''), jnum (jget v ''value'')) of
        (Some txid, Some vout, Some value) \<Rightarrow> Some (txid, \<lfloor>vout\<rfloor>, value)
      | _ \<Rightarrow> None)"

definition fetchBtcUtxos :: "rbf_env \<Rightarrow> string \<Rightarrow> utxo list option" where
  "fetchBtcUtxos env address =
     (case fetch_json env (''/address/'' @ address @ ''/utxo'') of
        Some (JArr rows) \<Rightarrow> all_some (map utxo_row rows)
      | _ \<Rightarrow> None)"

text \<open>The reply is read whatever its status; a rate of zero or less, or none, falls to the next.\<close>

definition btcSendFeeRate :: "rbf_env \<Rightarrow> rat option \<Rightarrow> int" where
  "btcSendFeeRate env override =
     (let asked = (case override of None \<Rightarrow> None | Some r \<Rightarrow> if 0 < r then Some (max \<lceil>r\<rceil> 1) else None);
          estimate = (\<lambda>est. max \<lceil>coalesce (or_else (or_else (jnum (jget est ''6'')) (jnum (jget est ''3''))) (jnum (jget est ''1''))) 10\<rceil> 1)
      in case asked of
           Some rate \<Rightarrow> rate
         | None \<Rightarrow>
             (case btcFetch env ''/fee-estimates'' of
                Inr (_, Inr body) \<Rightarrow>
                  (case e_parse env body of None \<Rightarrow> 10 | Some JNull \<Rightarrow> 10 | Some est \<Rightarrow> estimate est)
              | _ \<Rightarrow> 10))"

subsection \<open>Accounts\<close>

record BtcUtxoAccountSpec = UtxoAccountSpec +
  bs_scriptType :: BtcSpendKind

definition btcAccount :: "btc_env \<Rightarrow> string \<Rightarrow> string \<Rightarrow> BtcSpendKind \<Rightarrow> BtcUtxoAccountSpec" where
  "btcAccount env accountPath label scriptType =
     \<lparr>sp_chain = ''bitcoin'', sp_accountPath = accountPath, sp_label = label,
      sp_deriveAddress = (\<lambda>node. map_option (\<lambda>pub. e_addressFor (bn_rbf env) pub scriptType) (n_public node)),
      sp_probe = probeBtcAddress (bn_rbf env), sp_probeMany = Some (probeBtcAddresses env), sp_batchSize = Some 50,
      bs_scriptType = scriptType\<rparr>"

definition account_labels :: "string list" where
  "account_labels = [''BIP-84 native SegWit'', ''BIP-44 path, SegWit encoding'', ''BIP-49 wrapped SegWit'', ''BIP-44 legacy'']"

definition btc_account_specs :: "btc_env \<Rightarrow> BtcUtxoAccountSpec list" where
  "btc_account_specs env = map2 (\<lambda>(path, t) label. btcAccount env path label t) btcUtxoAccounts account_labels"

definition btcAccountFor :: "btc_env \<Rightarrow> string \<Rightarrow> string \<Rightarrow> account_error + BtcUtxoAccountSpec option" where
  "btcAccountFor env mnemonic address = utxoAccountSpecFor (bn_scan env) mnemonic (btc_account_specs env) address"

definition supportsAccountSend :: "btc_env \<Rightarrow> string \<Rightarrow> string \<Rightarrow> account_error + bool" where
  "supportsAccountSend env mnemonic address =
     (case btcAccountFor env mnemonic address of Inl e \<Rightarrow> Inl e | Inr spec \<Rightarrow> Inr (spec \<noteq> None))"

fun BTC_SIZING :: "BtcSpendKind \<Rightarrow> TxSizing" where
  "BTC_SIZING P2wpkh = P2WPKH_SIZING"
| "BTC_SIZING P2sh_p2wpkh = P2SH_P2WPKH_SIZING"
| "BTC_SIZING P2pkh = P2PKH_SIZING"

datatype btc_send_error =
    NotOfThisSeed string
  | BadAmount amount_error
  | BadRecipient recipient_error
  | BelowMinimum value_error
  | AccountFailed account_error
  | Insufficient AccountSpendPlan
  | PrevTxFailed rbf_error
  | NoSigner string
  | BadKey
  | CannotSpendCoin string int
  | NotWhole rat
  | CannotPayTo string
  | NotSigned thrown
  | UtxosUnreadable string
  | NoCoins "string list"
  | TooSmallToSweep rat rat
  | NotSent send_outcome

subsection \<open>From a plan to what is signed\<close>

definition whole_sat :: "rat \<Rightarrow> bool" where "whole_sat r = (r = of_int \<lfloor>r\<rfloor>)"

definition coin_of :: "AccountSpendCandidate \<Rightarrow> BtcCoin" where
  "coin_of c = \<lparr>bc_txid = cd_txid c, bc_vout = cd_vout c, bc_valueSat = \<lfloor>cd_valueSat c\<rfloor>, bc_address = cd_address c\<rparr>"

text \<open>One input after another: its key, then what its type needs. \<open>BigInt\<close> refuses a value that is not whole.\<close>

fun add_inputs ::
    "rbf_env \<Rightarrow> (AccountSpendCandidate \<Rightarrow> btc_send_error + byte list \<times> byte list) \<Rightarrow> (string \<times> btc_tx) list \<Rightarrow>
     AccountSpendCandidate list \<Rightarrow> btc_send_error + (psbt_input \<times> byte list) list" where
  "add_inputs env key_of prevs [] = Inr []"
| "add_inputs env key_of prevs (c # cs) =
     (case key_of c of
        Inl e \<Rightarrow> Inl e
      | Inr (priv, pub) \<Rightarrow>
          if \<not> whole_sat (cd_valueSat c) then Inl (NotWhole (cd_valueSat c))
          else case addBtcInput env (coin_of c) pub prevs of
            None \<Rightarrow> Inl (CannotSpendCoin (cd_txid c) (cd_vout c))
          | Some i \<Rightarrow>
              (case add_inputs env key_of prevs cs of Inl e \<Rightarrow> Inl e | Inr is \<Rightarrow> Inr ((i, priv) # is)))"

definition paid_outputs ::
    "rbf_env \<Rightarrow> byte list \<Rightarrow> int \<Rightarrow> string \<Rightarrow> rat \<Rightarrow> btc_send_error + tx_out list" where
  "paid_outputs env script sendSat changeAddress changeSat =
     (let paid = \<lparr>to_script = script, to_value = sendSat\<rparr>
      in if changeSat \<le> 0 then Inr [paid]
         else case e_toOutputScript env changeAddress of
           None \<Rightarrow> Inl (CannotPayTo changeAddress)
         | Some change \<Rightarrow>
             if \<not> whole_sat changeSat then Inl (NotWhole changeSat)
             else Inr [paid, \<lparr>to_script = change, to_value = \<lfloor>changeSat\<rfloor>\<rparr>])"

definition plan_psbt ::
    "rbf_env \<Rightarrow> (AccountSpendCandidate \<Rightarrow> btc_send_error + byte list \<times> byte list) \<Rightarrow> AccountSpendPlan \<Rightarrow>
     byte list \<Rightarrow> int \<Rightarrow> string \<Rightarrow> btc_send_error + Psbt \<times> byte list list" where
  "plan_psbt env key_of plan script sendSat changeAddress =
     (case prevTxsForLegacy env (map coin_of (asp_inputs plan)) of
        Inl e \<Rightarrow> Inl (PrevTxFailed e)
      | Inr prevs \<Rightarrow>
     (case add_inputs env key_of prevs (asp_inputs plan) of
        Inl e \<Rightarrow> Inl e
      | Inr is \<Rightarrow>
     (case paid_outputs env script sendSat changeAddress (asp_changeSat plan) of
        Inl e \<Rightarrow> Inl e
      | Inr outs \<Rightarrow>
          Inr (\<lparr>ps_version = 2, ps_locktime = 0, ps_inputs = map fst is, ps_outputs = outs\<rparr>, map snd is))))"

text \<open>Signed once; only these bytes are ever sent.\<close>

definition sign_and_send ::
    "btc_env \<Rightarrow> own_state \<Rightarrow> btc_send_error + Psbt \<times> byte list list \<Rightarrow>
     own_state \<times> btc_tx list \<times> (btc_send_error + string)" where
  "sign_and_send env own r =
     (case r of
        Inl e \<Rightarrow> (own, [], Inl e)
      | Inr (psbt, keys) \<Rightarrow>
     (case sn_sign (bn_net env) psbt keys of
        Inl e \<Rightarrow> (own, [], Inl (NotSigned e))
      | Inr tx \<Rightarrow>
          let (own', outcome) = broadcastBtc (e_numText (bn_rbf env)) own (sn_now (bn_net env))
                (sn_endpoints (bn_net env)) (sn_lookups (bn_net env)) tx
          in (own', [tx], case outcome of Sent hash \<Rightarrow> Inr hash | failure \<Rightarrow> Inl (NotSent failure))))"

subsection \<open>The three sends\<close>

definition settled_recipient :: "btc_env \<Rightarrow> string \<Rightarrow> string \<Rightarrow> btc_send_error + int \<times> byte list" where
  "settled_recipient env amount dest =
     (case parseSendAmountSat amount of
        Inl e \<Rightarrow> Inl (BadAmount e)
      | Inr sendSat \<Rightarrow>
     (case recipientOutput (bn_bech32 env) (e_toOutputScript (bn_rbf env)) dest [''bitcoin''] SEGWIT_CHAIN_OUTPUTS of
        Inl e \<Rightarrow> Inl (BadRecipient e)
      | Inr (address, script, kind) \<Rightarrow>
     (case assertNotDust (int sendSat) (int (dustThresholdSat script 3000)) of
        Inl e \<Rightarrow> Inl (BelowMinimum e)
      | Inr _ \<Rightarrow> Inr (int sendSat, script))))"

definition btc_spend_args :: "int \<Rightarrow> int \<Rightarrow> BtcSpendKind \<Rightarrow> byte list \<Rightarrow> spend_args" where
  "btc_spend_args sendSat feePerVB t script =
     \<lparr>pa_sendSat = of_int sendSat, pa_feePerVB = of_int feePerVB, pa_sizing = BTC_SIZING t,
      pa_dustSat = of_int BTC_DUST_SAT, pa_recipientOutputVB = Some (int (outputVBytes (length script)))\<rparr>"

definition source_key ::
    "rbf_env \<Rightarrow> (string \<times> AccountSpendSource) list \<Rightarrow> AccountSpendCandidate \<Rightarrow> btc_send_error + byte list \<times> byte list" where
  "source_key env sources c =
     (case map_of sources (cd_address c) of
        None \<Rightarrow> Inl (NoSigner (cd_address c))
      | Some src \<Rightarrow>
          (case Option.bind (n_private (so_node src)) (e_keyPair env) of None \<Rightarrow> Inl BadKey | Some pair \<Rightarrow> Inr pair))"

definition chosen_spec :: "btc_env \<Rightarrow> string \<Rightarrow> string option \<Rightarrow> btc_send_error + BtcUtxoAccountSpec" where
  "chosen_spec env mnemonic fromAddress =
     (if \<not> truthy fromAddress then Inr (hd (btc_account_specs env))
      else case btcAccountFor env mnemonic (the fromAddress) of
        Inl e \<Rightarrow> Inl (AccountFailed e)
      | Inr None \<Rightarrow> Inl (NotOfThisSeed (the fromAddress))
      | Inr (Some spec) \<Rightarrow> Inr spec)"

text \<open>The send once its recipient and amount are settled, and the coins it takes.\<close>

definition spend_account ::
    "btc_env \<Rightarrow> string \<Rightarrow> BtcUtxoAccountSpec \<Rightarrow> int \<Rightarrow> byte list \<Rightarrow> rat option \<Rightarrow> nat option \<Rightarrow>
     btc_send_error + Psbt \<times> byte list list" where
  "spend_account env mnemonic spec sendSat script feeRate gap =
     (let a = btc_spend_args sendSat (btcSendFeeRate (bn_rbf env) feeRate) (bs_scriptType spec) script
      in case gatherAccountSpend (bn_scan env) mnemonic (UtxoAccountSpec.truncate spec) a gap (fetchBtcUtxos (bn_rbf env)) of
           Inl e \<Rightarrow> Inl (AccountFailed e)
         | Inr g \<Rightarrow>
             if \<not> asp_covered (gs_plan g) then Inl (Insufficient (gs_plan g))
             else plan_psbt (bn_rbf env) (source_key (bn_rbf env) (gs_sources g)) (gs_plan g) script sendSat
                    (aa_address (gs_change g)))"

definition account_psbt ::
    "btc_env \<Rightarrow> string \<Rightarrow> string \<Rightarrow> string \<Rightarrow> rat option \<Rightarrow> nat option \<Rightarrow> string option \<Rightarrow>
     btc_send_error + Psbt \<times> byte list list" where
  "account_psbt env mnemonic dest amount feeRate gap fromAddress =
     (case chosen_spec env mnemonic fromAddress of
        Inl e \<Rightarrow> Inl e
      | Inr spec \<Rightarrow>
     (case settled_recipient env amount dest of
        Inl e \<Rightarrow> Inl e
      | Inr (sendSat, script) \<Rightarrow> spend_account env mnemonic spec sendSat script feeRate gap))"

definition sendBtcFromAccount ::
    "btc_env \<Rightarrow> own_state \<Rightarrow> string \<Rightarrow> string \<Rightarrow> string \<Rightarrow> rat option \<Rightarrow> nat option \<Rightarrow> string option \<Rightarrow>
     own_state \<times> btc_tx list \<times> (btc_send_error + string)" where
  "sendBtcFromAccount env own mnemonic dest amount feeRate gap fromAddress =
     sign_and_send env own (account_psbt env mnemonic dest amount feeRate gap fromAddress)"

fun key_coins :: "rbf_env \<Rightarrow> byte list \<Rightarrow> BtcSpendKind list \<Rightarrow> string list \<Rightarrow>
    btc_send_error + BtcSpendKind \<times> string \<times> utxo list" where
  "key_coins env pub [] looked = Inl (NoCoins looked)"
| "key_coins env pub (t # ts) looked =
     (let address = e_addressFor env pub t
      in case fetchBtcUtxos env address of
           None \<Rightarrow> Inl (UtxosUnreadable address)
         | Some [] \<Rightarrow> key_coins env pub ts (looked @ [address])
         | Some utxos \<Rightarrow> Inr (t, address, utxos))"

definition SINGLE_KEY_ORDER :: "BtcSpendKind list" where "SINGLE_KEY_ORDER = [P2wpkh, P2sh_p2wpkh, P2pkh]"

definition btcKeyCoins :: "rbf_env \<Rightarrow> byte list \<Rightarrow> btc_send_error + BtcSpendKind \<times> string \<times> utxo list" where
  "btcKeyCoins env pub = key_coins env pub SINGLE_KEY_ORDER []"

definition btc_hexToBytes :: "string \<Rightarrow> byte list" where
  "btc_hexToBytes hex = hex_pairs (strip_0x hex)"

definition held_candidate :: "BtcSpendKind \<Rightarrow> string \<Rightarrow> utxo \<Rightarrow> AccountSpendCandidate" where
  "held_candidate t address u =
     (case u of (txid, vout, v) \<Rightarrow>
        \<lparr>cd_path = ''single key ('' @ type_name t @ '')'', cd_address = address, cd_txid = txid, cd_vout = vout, cd_valueSat = v\<rparr>)"

definition spend_key ::
    "btc_env \<Rightarrow> byte list \<times> byte list \<Rightarrow> int \<Rightarrow> byte list \<Rightarrow> rat option \<Rightarrow> btc_send_error + Psbt \<times> byte list list" where
  "spend_key env pair sendSat script feeRate =
     (case btcKeyCoins (bn_rbf env) (snd pair) of
        Inl e \<Rightarrow> Inl e
      | Inr (t, address, utxos) \<Rightarrow>
          let plan = planAccountSpend (btc_spend_args sendSat (btcSendFeeRate (bn_rbf env) feeRate) t script)
                       (map (held_candidate t address) utxos)
          in if \<not> asp_covered plan then Inl (Insufficient plan)
             else plan_psbt (bn_rbf env) (\<lambda>_. Inr pair) plan script sendSat address)"

definition single_key_psbt ::
    "btc_env \<Rightarrow> string \<Rightarrow> string \<Rightarrow> string \<Rightarrow> rat option \<Rightarrow> btc_send_error + Psbt \<times> byte list list" where
  "single_key_psbt env privateKey dest amount feeRate =
     (case settled_recipient env amount dest of
        Inl e \<Rightarrow> Inl e
      | Inr (sendSat, script) \<Rightarrow>
     (case e_keyPair (bn_rbf env) (btc_hexToBytes privateKey) of
        None \<Rightarrow> Inl BadKey
      | Some pair \<Rightarrow> spend_key env pair sendSat script feeRate))"

definition sendTransaction ::
    "btc_env \<Rightarrow> own_state \<Rightarrow> string \<Rightarrow> string \<Rightarrow> string \<Rightarrow> rat option \<Rightarrow>
     own_state \<times> btc_tx list \<times> (btc_send_error + string)" where
  "sendTransaction env own privateKey dest amount feeRate =
     sign_and_send env own (single_key_psbt env privateKey dest amount feeRate)"

subsection \<open>The legacy address\<close>

definition stats_balance :: "json \<Rightarrow> rat option" where
  "stats_balance v =
     (let c = present (jget v ''chain_stats''); m = present (jget v ''mempool_stats'')
      in if c = None \<or> m = None then None
         else Some (num_or_0 c ''funded_txo_sum'' - num_or_0 c ''spent_txo_sum'' +
                    num_or_0 m ''funded_txo_sum'' - num_or_0 m ''spent_txo_sum''))"

text \<open>None where the call throws; a reply that is not 2xx reads as nothing there.\<close>

definition getLegacyBtcBalanceSats :: "rbf_env \<Rightarrow> string \<Rightarrow> rat option" where
  "getLegacyBtcBalanceSats env address =
     (case btcFetch env (''/address/'' @ address) of
        Inl _ \<Rightarrow> None
      | Inr (st, body) \<Rightarrow>
          if \<not> is_ok st then Some 0
          else (case body of Inl _ \<Rightarrow> None | Inr b \<Rightarrow> Option.bind (e_parse env b) stats_balance))"

definition btc_getBalance :: "rbf_env \<Rightarrow> string \<Rightarrow> string option" where
  "btc_getBalance env address =
     map_option (\<lambda>satoshis. to_fixed 8 (satoshis / 10 ^ 8)) (Option.bind (fetch_json env (''/address/'' @ address)) stats_balance)"

definition sweep_rate :: "rbf_env \<Rightarrow> rat option \<Rightarrow> rat option" where
  "sweep_rate env override =
     (case override of
        Some r \<Rightarrow> Some r
      | None \<Rightarrow>
          (case btcFetch env ''/fee-estimates'' of
             Inr (_, Inr body) \<Rightarrow>
               (case e_parse env body of
                  None \<Rightarrow> None
                | Some JNull \<Rightarrow> None
                | Some est \<Rightarrow> (let six = num_or_0 (Some est) ''6'' in Some (of_int \<lceil>if six = 0 then 10 else six\<rceil>)))
           | _ \<Rightarrow> None))"

definition sweep_psbt ::
    "btc_env \<Rightarrow> string \<Rightarrow> string \<Rightarrow> rat option \<Rightarrow> btc_send_error + Psbt \<times> byte list list" where
  "sweep_psbt env legacyPrivateKey destinationAddress feeRateOverride =
     (case e_keyPair (bn_rbf env) (btc_hexToBytes legacyPrivateKey) of
        None \<Rightarrow> Inl BadKey
      | Some (priv, pub) \<Rightarrow>
          let source = e_addressFor (bn_rbf env) pub P2wpkh
          in case fetchBtcUtxos (bn_rbf env) source of
               None \<Rightarrow> Inl (UtxosUnreadable source)
             | Some utxos \<Rightarrow>
                 if utxos = [] then Inl (NoCoins [source])
                 else case sweep_rate (bn_rbf env) feeRateOverride of
                   None \<Rightarrow> Inl (UtxosUnreadable ''/fee-estimates'')
                 | Some feeRate \<Rightarrow>
                     let totalInput = sum_list (map (\<lambda>(_, _, v). v) utxos);
                         fee = feeRate * of_nat (10 + 68 * length utxos + 31 + 20);
                         sendAmount = totalInput - fee
                     in if sendAmount < 546 then Inl (TooSmallToSweep totalInput fee)
                        else case List.find (\<lambda>(_, _, v). \<not> whole_sat v) utxos of
                          Some (_, _, v) \<Rightarrow> Inl (NotWhole v)
                        | None \<Rightarrow>
                            (case e_toOutputScript (bn_rbf env) destinationAddress of
                               None \<Rightarrow> Inl (CannotPayTo destinationAddress)
                             | Some script \<Rightarrow>
                                 if \<not> whole_sat sendAmount then Inl (NotWhole sendAmount)
                                 else Inr (\<lparr>ps_version = 2, ps_locktime = 0,
                                   ps_inputs = map (\<lambda>(txid, vout, v). \<lparr>pi_txid = txid, pi_index = vout, pi_sequence = BTC_RBF_SEQUENCE,
                                     pi_proof = WitnessUtxo (e_outputFor (bn_rbf env) pub P2wpkh) \<lfloor>v\<rfloor>\<rparr>) utxos,
                                   ps_outputs = [\<lparr>to_script = script, to_value = \<lfloor>sendAmount\<rfloor>\<rparr>]\<rparr>,
                                   replicate (length utxos) priv)))"

definition sweepLegacyBtcToAddress ::
    "btc_env \<Rightarrow> own_state \<Rightarrow> string \<Rightarrow> string \<Rightarrow> rat option \<Rightarrow> own_state \<times> btc_tx list \<times> (btc_send_error + string)" where
  "sweepLegacyBtcToAddress env own legacyPrivateKey destinationAddress feeRateOverride =
     sign_and_send env own (sweep_psbt env legacyPrivateKey destinationAddress feeRateOverride)"

subsection \<open>What is signed adds up\<close>

definition input_value :: "psbt_input \<Rightarrow> int" where
  "input_value i =
     (case pi_proof i of
        WitnessUtxo _ v \<Rightarrow> v
      | WrappedWitness _ v _ \<Rightarrow> v
      | NonWitness prev \<Rightarrow> to_value (bx_outs prev ! nat (pi_index i)))"

definition psbt_fee :: "Psbt \<Rightarrow> int" where
  "psbt_fee p = sum_list (map input_value (ps_inputs p)) - sum_list (map to_value (ps_outputs p))"

text \<open>An input that a key controls: the output it spends is one of the key's own three.\<close>

definition controls :: "rbf_env \<Rightarrow> byte list \<Rightarrow> psbt_input \<Rightarrow> bool" where
  "controls env priv i \<longleftrightarrow>
     (\<exists>seed pub t address. e_keyPair env seed = Some (priv, pub) \<and>
        e_toOutputScript env address = Some (e_outputFor env pub t) \<and>
        (case pi_proof i of
           WitnessUtxo script _ \<Rightarrow> script = e_outputFor env pub t
         | WrappedWitness script _ _ \<Rightarrow> script = e_outputFor env pub t
         | NonWitness prev \<Rightarrow> to_script (bx_outs prev ! nat (pi_index i)) = e_outputFor env pub t))"

lemma added_input:
  assumes "addBtcInput env c pub prevs = Some i" "e_keyPair env seed = Some (priv, pub)"
  shows "input_value i = bc_valueSat c \<and> controls env priv i \<and> pi_sequence i = BTC_RBF_SEQUENCE \<and>
    pi_txid i = bc_txid c \<and> pi_index i = bc_vout c"
proof -
  obtain t where t: "e_toOutputScript env (bc_address c) = Some (e_outputFor env pub t)"
      "pi_txid i = bc_txid c" "pi_index i = bc_vout c" "pi_sequence i = BTC_RBF_SEQUENCE"
      "case pi_proof i of
         WitnessUtxo script v \<Rightarrow> script = e_outputFor env pub t \<and> v = bc_valueSat c
       | WrappedWitness script v _ \<Rightarrow> script = e_outputFor env pub t \<and> v = bc_valueSat c
       | NonWitness prev \<Rightarrow> to_script (bx_outs prev ! nat (bc_vout c)) = e_outputFor env pub t \<and>
           to_value (bx_outs prev ! nat (bc_vout c)) = bc_valueSat c"
    using assms(1) by (auto simp: addBtcInput_def Let_def split: option.splits BtcSpendKind.splits if_splits) metis
  have "controls env priv i"
    unfolding controls_def using t assms(2)
    by (intro exI [of _ seed] exI [of _ pub] exI [of _ t] exI [of _ "bc_address c"]) (auto split: spend_proof.splits)
  moreover have "input_value i = bc_valueSat c" using t by (auto simp: input_value_def split: spend_proof.splits)
  ultimately show ?thesis using t(2-4) by simp
qed

definition key_source ::
    "rbf_env \<Rightarrow> (AccountSpendCandidate \<Rightarrow> btc_send_error + byte list \<times> byte list) \<Rightarrow> bool" where
  "key_source env key_of \<longleftrightarrow> (\<forall>c priv pub. key_of c = Inr (priv, pub) \<longrightarrow> (\<exists>seed. e_keyPair env seed = Some (priv, pub)))"

lemma added_inputs:
  assumes "key_source env key_of" "add_inputs env key_of prevs cs = Inr is"
  shows "length is = length cs \<and> of_int (sum_list (map (input_value \<circ> fst) is)) = total_of cs \<and>
    list_all (\<lambda>(i, priv). controls env priv i \<and> pi_sequence i = BTC_RBF_SEQUENCE) is \<and>
    map (\<lambda>(i, _). (pi_txid i, pi_index i)) is = map (\<lambda>c. (cd_txid c, cd_vout c)) cs"
  using assms(2)
proof (induction cs arbitrary: "is")
  case (Cons c cs)
  obtain priv pub i is' where k: "key_of c = Inr (priv, pub)" "whole_sat (cd_valueSat c)"
      "addBtcInput env (coin_of c) pub prevs = Some i" "add_inputs env key_of prevs cs = Inr is'" "is = (i, priv) # is'"
    using Cons.prems by (auto split: sum.splits if_splits option.splits)
  obtain seed where "e_keyPair env seed = Some (priv, pub)" using assms(1) k(1) unfolding key_source_def by blast
  note a = added_input [OF k(3) this]
  have "of_int (input_value i) = cd_valueSat c" using a k(2) by (simp add: coin_of_def whole_sat_def)
  then show ?case using Cons.IH [OF k(4)] a k(5) by (simp add: coin_of_def)
qed simp

lemma paid_outputs_sum:
  assumes "paid_outputs env script n address change = Inr outs" "0 \<le> change"
  shows "of_int (sum_list (map to_value outs)) = of_int n + change \<and> length outs = (if change = 0 then 1 else 2) \<and>
    (change = 0 \<and> outs = [\<lparr>to_script = script, to_value = n\<rparr>] \<or>
     0 < change \<and> (\<exists>cs. e_toOutputScript env address = Some cs \<and>
        outs = [\<lparr>to_script = script, to_value = n\<rparr>, \<lparr>to_script = cs, to_value = \<lfloor>change\<rfloor>\<rparr>] \<and> of_int \<lfloor>change\<rfloor> = change))"
  using assms by (auto simp: paid_outputs_def whole_sat_def Let_def split: if_splits option.splits)

definition pays_for_itself :: "spend_args \<Rightarrow> Psbt \<Rightarrow> bool" where
  "pays_for_itself a p \<longleftrightarrow>
     (let n = length (ps_inputs p); outs = length (ps_outputs p)
      in feeFor a n (int outs) \<le> of_int (psbt_fee p) \<and>
         of_int (psbt_fee p) \<le> feeFor a n 2 + (if outs = 1 then pa_dustSat a else 0))"

lemma btcSendFeeRate_pos: "1 \<le> btcSendFeeRate env rate"
  by (auto simp: btcSendFeeRate_def Let_def split: option.splits sum.splits json.splits)

lemma spend_args_ok:
  "0 \<le> pa_feePerVB (btc_spend_args n (btcSendFeeRate env rate) t script)"
  "0 \<le> outputVB (pa_sizing (btc_spend_args n (btcSendFeeRate env rate) t script))"
  "pa_dustSat (btc_spend_args n (btcSendFeeRate env rate) t script) = 546"
  using btcSendFeeRate_pos [of env rate]
  by (cases t; simp add: btc_spend_args_def P2WPKH_SIZING_def P2SH_P2WPKH_SIZING_def P2PKH_SIZING_def BTC_DUST_SAT_def)+

lemma plan_psbt_adds_up:
  assumes "plan_psbt env key_of (planAccountSpend a cs) script sendSat address = Inr (psbt, keys)"
    "asp_covered (planAccountSpend a cs)" "key_source env key_of" "pa_sendSat a = of_int sendSat"
    "0 \<le> pa_feePerVB a" "0 \<le> outputVB (pa_sizing a)" "pa_dustSat a = 546"
  shows "pays_for_itself a psbt \<and>
    list_all2 (\<lambda>i priv. controls env priv i \<and> pi_sequence i = BTC_RBF_SEQUENCE) (ps_inputs psbt) keys \<and>
    map (\<lambda>i. (pi_txid i, pi_index i)) (ps_inputs psbt) = map (\<lambda>c. (cd_txid c, cd_vout c)) (asp_inputs (planAccountSpend a cs)) \<and>
    (ps_outputs psbt = [\<lparr>to_script = script, to_value = sendSat\<rparr>] \<or>
     (\<exists>change v. e_toOutputScript env address = Some change \<and> 546 < v \<and>
        ps_outputs psbt = [\<lparr>to_script = script, to_value = sendSat\<rparr>, \<lparr>to_script = change, to_value = v\<rparr>]))"
proof -
  let ?p = "planAccountSpend a cs"
  have d: "0 \<le> pa_dustSat a" using assms(7) by simp
  note plan = plan_settled [OF assms(5,6) d assms(2), unfolded Let_def]
  obtain prevs "is" outs where i: "add_inputs env key_of prevs (asp_inputs ?p) = Inr is"
      "paid_outputs env script (sendSat) address (asp_changeSat ?p) = Inr outs"
      "psbt = \<lparr>ps_version = 2, ps_locktime = 0, ps_inputs = map fst is, ps_outputs = outs\<rparr>" "keys = map snd is"
    using assms(1) by (auto simp: plan_psbt_def split: sum.splits)
  note ins = added_inputs [OF assms(3) i(1)]
  have ch: "0 \<le> asp_changeSat ?p" using plan assms(7) by auto
  note outs = paid_outputs_sum [OF i(2) ch]
  have "of_int (psbt_fee psbt) = asp_feeSat ?p"
    using ins outs plan assms(4) by (simp add: i(3) psbt_fee_def)
  then have "pays_for_itself a psbt"
    using plan outs ins assms(7) by (auto simp: pays_for_itself_def i(3) Let_def split: if_splits)
  moreover have "list_all2 (\<lambda>i priv. controls env priv i \<and> pi_sequence i = BTC_RBF_SEQUENCE) (ps_inputs psbt) keys"
    using ins by (auto simp: i(3,4) list_all2_conv_all_nth list_all_length split_beta)
  moreover have "map (\<lambda>i. (pi_txid i, pi_index i)) (ps_inputs psbt) = map (\<lambda>c. (cd_txid c, cd_vout c)) (asp_inputs ?p)"
    using ins by (simp add: i(3) split_def comp_def)
  moreover have "546 < \<lfloor>asp_changeSat ?p\<rfloor>" if "of_int \<lfloor>asp_changeSat ?p\<rfloor> = asp_changeSat ?p" "asp_changeSat ?p \<noteq> 0"
    using that plan assms(7) by (metis of_int_less_iff of_int_numeral)
  ultimately show ?thesis using outs by (auto simp: i(3) split: if_splits)
qed

lemma settled_recipient_ok:
  assumes "settled_recipient env amount dest = Inr (v, script)"
  shows "parseSendAmountSat amount = Inr (nat v) \<and> dustThresholdSat script 3000 \<le> nat v \<and> 0 \<le> v \<and>
    (\<exists>address kind. recipientOutput (bn_bech32 env) (e_toOutputScript (bn_rbf env)) dest [''bitcoin''] SEGWIT_CHAIN_OUTPUTS =
       Inr (address, script, kind))"
  using assms by (auto simp: settled_recipient_def assertNotDust_def split: sum.splits if_splits)

text \<open>C10. What an account-wide send asks the library to sign pays the decoded recipient exactly the amount that
  was typed, which is not dust. Beside it there is at most the change, above dust, to an address of the
  account's own internal chain. Inputs minus outputs is a fee that pays for the size at the chosen rate:
  exactly that with a change output, and without one no more than the price with a change output
  and the dust limit. Every input signals replacement and is controlled by the key it
  is signed with.\<close>

theorem account_send_adds_up:
  assumes "account_psbt env mnemonic dest amount feeRate gap fromAddress = Inr (psbt, keys)"
  shows "\<exists>sendSat script spec. chosen_spec env mnemonic fromAddress = Inr spec \<and>
    parseSendAmountSat amount = Inr sendSat \<and> dustThresholdSat script 3000 \<le> sendSat \<and>
    (\<exists>address kind. recipientOutput (bn_bech32 env) (e_toOutputScript (bn_rbf env)) dest [''bitcoin''] SEGWIT_CHAIN_OUTPUTS =
       Inr (address, script, kind)) \<and>
    pays_for_itself (btc_spend_args (int sendSat) (btcSendFeeRate (bn_rbf env) feeRate) (bs_scriptType spec) script) psbt \<and>
    list_all2 (\<lambda>i priv. controls (bn_rbf env) priv i \<and> pi_sequence i = BTC_RBF_SEQUENCE) (ps_inputs psbt) keys \<and>
    (ps_outputs psbt = [\<lparr>to_script = script, to_value = int sendSat\<rparr>] \<or>
     (\<exists>i a change v. address_at (bn_scan env) mnemonic (UtxoAccountSpec.truncate spec) 1 i = Some a \<and>
        e_toOutputScript (bn_rbf env) (aa_address a) = Some change \<and> 546 < v \<and>
        ps_outputs psbt = [\<lparr>to_script = script, to_value = int sendSat\<rparr>, \<lparr>to_script = change, to_value = v\<rparr>]))"
proof -
  obtain spec v script where c: "chosen_spec env mnemonic fromAddress = Inr spec"
      "settled_recipient env amount dest = Inr (v, script)"
    using assms by (auto simp: account_psbt_def split: sum.splits)
  let ?a = "btc_spend_args v (btcSendFeeRate (bn_rbf env) feeRate) (bs_scriptType spec) script"
  obtain g where g: "gatherAccountSpend (bn_scan env) mnemonic (UtxoAccountSpec.truncate spec) ?a gap (fetchBtcUtxos (bn_rbf env)) = Inr g"
      "asp_covered (gs_plan g)"
      "plan_psbt (bn_rbf env) (source_key (bn_rbf env) (gs_sources g)) (gs_plan g) script v (aa_address (gs_change g)) = Inr (psbt, keys)"
    using assms c by (auto simp: account_psbt_def spend_account_def Let_def split: sum.splits if_splits)
  obtain cs where p: "gs_plan g = planAccountSpend ?a cs" using gathered_plan [OF g(1)] by blast
  have k: "key_source (bn_rbf env) (source_key (bn_rbf env) (gs_sources g))"
    by (auto simp: key_source_def source_key_def bind_eq_Some_conv split: option.splits)
  note sums = plan_psbt_adds_up [OF g(3)[unfolded p] g(2)[unfolded p] k _ spend_args_ok]
  have "address_at (bn_scan env) mnemonic (UtxoAccountSpec.truncate spec) 1 (aa_index (gs_change g)) = Some (gs_change g)"
    using gathered_coins_can_be_signed [OF g(1)] by blast
  then show ?thesis
    using sums c(1) settled_recipient_ok [OF c(2)] by (intro exI [of _ "nat v"] exI [of _ script] exI [of _ spec]) (auto simp: btc_spend_args_def)
qed

text \<open>The same of a single-key send, which spends the first of the key's three addresses that holds coins
  and returns the change to it.\<close>

theorem single_key_send_adds_up:
  assumes "single_key_psbt env privateKey dest amount feeRate = Inr (psbt, keys)"
  shows "\<exists>sendSat script pair t address utxos.
    e_keyPair (bn_rbf env) (btc_hexToBytes privateKey) = Some pair \<and> btcKeyCoins (bn_rbf env) (snd pair) = Inr (t, address, utxos) \<and>
    parseSendAmountSat amount = Inr sendSat \<and> dustThresholdSat script 3000 \<le> sendSat \<and>
    pays_for_itself (btc_spend_args (int sendSat) (btcSendFeeRate (bn_rbf env) feeRate) t script) psbt \<and>
    list_all2 (\<lambda>i priv. controls (bn_rbf env) priv i \<and> pi_sequence i = BTC_RBF_SEQUENCE) (ps_inputs psbt) keys \<and>
    (ps_outputs psbt = [\<lparr>to_script = script, to_value = int sendSat\<rparr>] \<or>
     (\<exists>change v. e_toOutputScript (bn_rbf env) address = Some change \<and> 546 < v \<and>
        ps_outputs psbt = [\<lparr>to_script = script, to_value = int sendSat\<rparr>, \<lparr>to_script = change, to_value = v\<rparr>]))"
proof -
  obtain v script pair t address utxos where c: "settled_recipient env amount dest = Inr (v, script)"
      "e_keyPair (bn_rbf env) (btc_hexToBytes privateKey) = Some pair" "btcKeyCoins (bn_rbf env) (snd pair) = Inr (t, address, utxos)"
    using assms by (auto simp: single_key_psbt_def spend_key_def split: sum.splits option.splits)
  let ?a = "btc_spend_args v (btcSendFeeRate (bn_rbf env) feeRate) t script"
  have p: "asp_covered (planAccountSpend ?a (map (held_candidate t address) utxos))"
      "plan_psbt (bn_rbf env) (\<lambda>_. Inr pair) (planAccountSpend ?a (map (held_candidate t address) utxos)) script v address = Inr (psbt, keys)"
    using assms c by (auto simp: single_key_psbt_def spend_key_def Let_def split: if_splits)
  have k: "key_source (bn_rbf env) (\<lambda>_. Inr pair)" using c(2) by (auto simp: key_source_def)
  show ?thesis
    using plan_psbt_adds_up [OF p(2,1) k _ spend_args_ok] c settled_recipient_ok [OF c(1)]
    by (intro exI [of _ "nat v"] exI [of _ script] exI [of _ pair] exI [of _ t] exI [of _ address] exI [of _ utxos])
      (auto simp: btc_spend_args_def)
qed

text \<open>What a send did, against what it asked the library to sign.\<close>

definition sent_once ::
    "btc_env \<Rightarrow> own_state \<Rightarrow> btc_send_error + Psbt \<times> byte list list \<Rightarrow>
     own_state \<times> btc_tx list \<times> (btc_send_error + string) \<Rightarrow> bool" where
  "sent_once env own r out \<longleftrightarrow>
     (case out of (own', posted, res) \<Rightarrow>
        if posted = [] then own' = own \<and> (\<exists>e. res = Inl e \<and> e \<notin> range NotSent)
        else \<exists>psbt keys tx. r = Inr (psbt, keys) \<and> sn_sign (bn_net env) psbt keys = Inr tx \<and> posted = [tx] \<and>
          own' = own_step (e_numText (bn_rbf env)) own (Remember (bx_id tx) (sn_now (bn_net env))) \<and>
          (case res of
             Inl e \<Rightarrow> e \<in> range NotSent
           | Inr hash \<Rightarrow> broadcastSignedTx (bx_id tx) (bx_hex tx) (sn_endpoints (bn_net env)) (sn_lookups (bn_net env)) = Sent hash))"

lemma sign_and_send_once:
  assumes "\<And>f. r \<noteq> Inl (NotSent f)"
  shows "sent_once env own r (sign_and_send env own r)"
proof (cases r)
  case (Inl e)
  then have "e \<notin> range NotSent" using assms by auto
  then show ?thesis using Inl by (simp add: sign_and_send_def sent_once_def)
next
  case (Inr pk)
  then show ?thesis
    by (cases pk; cases "sn_sign (bn_net env) (fst pk) (snd pk)")
      (auto simp: sign_and_send_def sent_once_def broadcastBtc_def Let_def split: send_outcome.split)
qed

lemma build_errors:
  assumes "\<And>c f. key_of c \<noteq> Inl (NotSent f)"
  shows "plan_psbt env key_of plan script n address \<noteq> Inl (NotSent f)"
proof -
  have "add_inputs env key_of prevs cs \<noteq> Inl (NotSent f)" for prevs cs
    by (induction cs) (auto simp: assms split: sum.split option.split)
  then show ?thesis
    by (auto simp: plan_psbt_def paid_outputs_def Let_def split: sum.splits option.splits if_splits)
qed

lemma recipient_errors: "settled_recipient env amount dest \<noteq> Inl (NotSent f)"
  by (auto simp: settled_recipient_def split: sum.splits)

lemma key_coins_errors: "key_coins env pub ts looked \<noteq> Inl (NotSent f)"
  by (induction env pub ts looked rule: key_coins.induct) (auto simp: Let_def split: option.split list.split)

text \<open>C30. Each of the three sends hands the network at most one transaction, and that is what the library
  signed of the checked inputs and outputs. Without it nothing is remembered and the error is not a
  failed broadcast; with it the id is remembered as this app's, and success is what the network said.\<close>

theorem bitcoin_sends_once:
  "sent_once env own (account_psbt env mnemonic dest amount feeRate gap fromAddress)
     (sendBtcFromAccount env own mnemonic dest amount feeRate gap fromAddress) \<and>
   sent_once env own (single_key_psbt env privateKey dest amount feeRate) (sendTransaction env own privateKey dest amount feeRate) \<and>
   sent_once env own (sweep_psbt env privateKey dest feeRate) (sweepLegacyBtcToAddress env own privateKey dest feeRate)"
proof -
  have k: "source_key e sources c \<noteq> Inl (NotSent f)" for e sources c f
    by (auto simp: source_key_def split: option.split)
  have "account_psbt env mnemonic dest amount feeRate gap fromAddress \<noteq> Inl (NotSent f)" for f
    using recipient_errors build_errors [OF k]
    by (auto simp: account_psbt_def spend_account_def chosen_spec_def Let_def split: sum.splits option.splits if_splits)
  moreover have "single_key_psbt env privateKey dest amount feeRate \<noteq> Inl (NotSent f)" for f
    using recipient_errors build_errors [of "\<lambda>_. Inr _"] key_coins_errors
    by (auto simp: single_key_psbt_def spend_key_def btcKeyCoins_def Let_def split: sum.splits option.splits if_splits)
  moreover have "sweep_psbt env privateKey dest feeRate \<noteq> Inl (NotSent f)" for f
    by (auto simp: sweep_psbt_def Let_def split: option.splits if_splits)
  ultimately show ?thesis
    unfolding sendBtcFromAccount_def sendTransaction_def sweepLegacyBtcToAddress_def
    by (intro conjI sign_and_send_once)
qed

subsection \<open>Honest explorers\<close>

text \<open>A ledger says of an address, in its canonical form, what it received, what it spent and in how many
  transactions. Two hosts that read it, either of which may be down, are a truthful source for every account.\<close>

record ledger =
  lg_received :: "string \<Rightarrow> int"
  lg_spent :: "string \<Rightarrow> int"
  lg_count :: "string \<Rightarrow> nat"

definition lg_in :: "ledger \<Rightarrow> string \<Rightarrow> rat" where
  "lg_in L a = (let k = haskoinAddrKey a in if lg_count L k = 0 then 0 else of_int (max 0 (lg_received L k)))"

definition lg_out :: "ledger \<Rightarrow> string \<Rightarrow> rat" where
  "lg_out L a = (let k = haskoinAddrKey a in if lg_count L k = 0 then 0 else of_int (min (lg_spent L k) (max 0 (lg_received L k))))"

definition lg_txs :: "ledger \<Rightarrow> string \<Rightarrow> rat" where
  "lg_txs L a = of_nat (lg_count L (haskoinAddrKey a))"

definition esplora_json :: "ledger \<Rightarrow> string \<Rightarrow> json" where
  "esplora_json L a = JObj [(''chain_stats'', JObj [(''funded_txo_sum'', JNum (lg_in L a)), (''spent_txo_sum'', JNum (lg_out L a)),
     (''tx_count'', JNum (lg_txs L a))]), (''mempool_stats'', JObj [])]"

definition haskoin_json :: "ledger \<Rightarrow> string \<Rightarrow> json" where
  "haskoin_json L a = JObj [(''address'', JStr a), (''confirmed'', JNum (lg_in L a - lg_out L a)), (''txs'', JNum (lg_txs L a)),
     (''received'', JNum (lg_in L a))]"

definition ledger_truth :: "ledger \<Rightarrow> string \<Rightarrow> UtxoAddressProbe" where
  "ledger_truth L a = \<lparr>ap_balanceSat = lg_in L a - lg_out L a, ap_used = (0 < lg_txs L a)\<rparr>"

definition honest_env :: "btc_env \<Rightarrow> ledger \<Rightarrow> (string \<Rightarrow> bool) \<Rightarrow> (string \<Rightarrow> string list \<Rightarrow> bool) \<Rightarrow> btc_env" where
  "honest_env env L esplora_up haskoin_up = env\<lparr>
     bn_rbf := (bn_rbf env)\<lparr>
       e_get := (\<lambda>path. [(''h'', if esplora_up path then EReply 200 (Inr path) else EThrown (ThrownString ''down''))]),
       e_parse := (\<lambda>body. Some (esplora_json L (drop 9 body)))\<rparr>,
     bn_haskoin := (\<lambda>base as. if haskoin_up base as then Some (JArr (map (haskoin_json L) as)) else None)\<rparr>"

lemma honest_esplora:
  "probeBtcAddress (bn_rbf (honest_env env L e h)) a = Some r \<Longrightarrow> r = ledger_truth L a"
  by (auto simp: probeBtcAddress_def fetch_json_def btcFetch_def honest_env_def is_ok_def parseEsploraStats_def
      esplora_json_def ledger_truth_def num_or_0_def jprop_def Let_def split: if_splits)

lemma by_addr_row:
  "map_of (by_addr rows) k = Some r \<Longrightarrow> r \<in> set rows \<and> row_key r = Some k"
proof -
  have "map_of (foldl (\<lambda>m r. case row_key r of None \<Rightarrow> m | Some k \<Rightarrow> js_set k r m) m rows) k = Some r \<Longrightarrow>
      map_of m k = Some r \<or> r \<in> set rows \<and> row_key r = Some k" for m
    by (induction rows arbitrary: m) (fastforce split: option.splits if_splits)+
  from this [of "[]"] show "map_of (by_addr rows) k = Some r \<Longrightarrow> r \<in> set rows \<and> row_key r = Some k"
    by (simp add: by_addr_def)
qed

lemma honest_haskoin:
  assumes "probeBtcAddresses (honest_env env L e h) as = Some rs"
  shows "rs = map (ledger_truth L) as"
proof -
  have one: "rs = map (ledger_truth L) as" if "haskoinProbeMany (bn_haskoin (honest_env env L e h) base as) as = Some rs" for base rs
  proof (cases "as = []")
    case False
    let ?rows = "map (haskoin_json L) as"
    have "map Some rs = map (\<lambda>a. Option.bind (map_of (by_addr ?rows) (haskoinAddrKey a)) (\<lambda>row. parseHaskoinBalance (Some row))) as"
      using that False by (auto simp: haskoinProbeMany_def honest_env_def all_some_iff split: if_splits)
    moreover have "Option.bind (map_of (by_addr ?rows) (haskoinAddrKey a)) (\<lambda>row. parseHaskoinBalance (Some row)) \<in> {None, Some (ledger_truth L a)}" for a
    proof (cases "map_of (by_addr ?rows) (haskoinAddrKey a)")
      case (Some row)
      then obtain b where b: "row = haskoin_json L b" "haskoinAddrKey b = haskoinAddrKey a"
        using by_addr_row [OF Some] by (auto simp: row_key_def haskoin_json_def)
      then have "lg_in L b = lg_in L a" "lg_out L b = lg_out L a" "lg_txs L b = lg_txs L a"
        by (simp_all add: lg_in_def lg_out_def lg_txs_def)
      moreover have "0 < lg_in L a \<Longrightarrow> 0 < lg_txs L a" "0 < lg_in L a - lg_out L a \<Longrightarrow> 0 < lg_txs L a"
        by (auto simp: lg_in_def lg_out_def lg_txs_def Let_def split: if_splits)
      ultimately show ?thesis using b(1) Some
        by (auto simp: parseHaskoinBalance_def haskoin_json_def ledger_truth_def num_or_0_def jprop_def Let_def)
    qed simp
    ultimately show ?thesis by (auto simp: list_eq_iff_nth_eq) (metis option.distinct(1) option.inject)
  qed (use that in \<open>simp add: haskoinProbeMany_def\<close>)
  then show ?thesis using assms by (auto simp: probeBtcAddresses_def HASKOIN_BTC_BASES_def or_else_def split: option.splits)
qed

interpretation btc_explorers: honest_source "in_order (bn_scan env)"
    "UtxoAccountSpec.truncate (btcAccount (honest_env env L e h) path label t)" "ledger_truth L"
  for env L e h path label t
proof
  show "mset (sc_arrival (in_order (bn_scan env)) b) = mset b" for b by (simp add: in_order_def)
  show "r = ledger_truth L a"
    if "sp_probe (UtxoAccountSpec.truncate (btcAccount (honest_env env L e h) path label t)) a = Some r" for a r
    using that honest_esplora by (auto simp: btcAccount_def UtxoAccountSpec.defs)
  show "rs = map (ledger_truth L) as"
    if "sp_probeMany (UtxoAccountSpec.truncate (btcAccount (honest_env env L e h) path label t)) = Some many"
      "many as = Some rs" "length rs = length as" for many as rs
    using that honest_haskoin by (auto simp: btcAccount_def UtxoAccountSpec.defs)
qed

text \<open>With explorers that read one ledger, and may be down, a complete scan of a Bitcoin account has every
  used or funded address the gap limit can find, and its total is what the ledger says they hold,
  whichever host answered for which address.\<close>

theorem bitcoin_scan_is_the_ledger:
  assumes "scanUtxoAccount (in_order (bn_scan env)) mnemonic
      (UtxoAccountSpec.truncate (btcAccount (honest_env env L e h) path label t)) gap conc = Inr scan" "us_complete scan"
  defines "used \<equiv> true_entries (in_order (bn_scan env)) mnemonic
      (UtxoAccountSpec.truncate (btcAccount (honest_env env L e h) path label t)) (ledger_truth L)"
  shows "set (us_entries scan) \<subseteq> used 0 \<union> used 1 \<and> us_totalSat scan = (\<Sum>x \<in> set (us_entries scan). ae_balanceSat x) \<and>
    (\<forall>c \<in> {0, 1}. \<forall>x \<in> used c. found_by_gap (coalesce gap DEFAULT_GAP_LIMIT) (aa_index ` used c) (aa_index x) \<longrightarrow>
       x \<in> set (us_entries scan))"
  using btc_explorers.scan_sees [OF assms(1,2)] unfolding used_def by blast

subsection \<open>A concrete send\<close>

definition pad_script :: "string \<Rightarrow> byte list" where
  "pad_script a = 0x00 # 0x14 # take 20 (map of_char a @ replicate 20 0)"

definition wallet_json :: "ledger \<Rightarrow> string \<Rightarrow> json" where
  "wallet_json L path =
     (if take 5 (rev path) = rev ''/utxo''
      then JArr (if drop 9 path = small_address [0, 3] @ ''/utxo''
                 then [JObj [(''txid'', JStr (replicate 64 CHR ''a'')), (''vout'', JNum 1), (''value'', JNum 200000000)]] else [])
      else if path = ''/fee-estimates'' then JObj [(''6'', JNum 3)]
      else esplora_json L (drop 9 path))"

definition wallet_ledger :: ledger where
  "wallet_ledger = \<lparr>lg_received = (\<lambda>a. if a = small_address [0, 3] then 200000000 else 0), lg_spent = (\<lambda>_. 0),
     lg_count = (\<lambda>a. if a = small_address [0, 3] then 1 else 0)\<rparr>"

definition wallet_env :: btc_env where
  "wallet_env = \<lparr>bn_rbf = sample_rbf_env\<lparr>e_parse := (\<lambda>body. Some (wallet_json wallet_ledger body)),
       e_addressFor := (\<lambda>pub t. small_address pub), e_outputFor := (\<lambda>pub t. pad_script (small_address pub)),
       e_toOutputScript := (\<lambda>a. Some (pad_script a)), e_keyPair := (\<lambda>priv. Some (priv, priv))\<rparr>,
     bn_scan = \<lparr>sc_seedOk = (\<lambda>_. True),
       sc_child = (\<lambda>_ _ c i. Some \<lparr>n_private = Some [of_nat c, of_nat i], n_public = Some [of_nat c, of_nat i]\<rparr>),
       sc_arrival = (\<lambda>b. b)\<rparr>,
     bn_haskoin = (\<lambda>_ _. None), bn_bech32 = (\<lambda>_. None), bn_net = sample_speed_net\<rparr>"

definition psbt_or :: "btc_send_error + Psbt \<times> byte list list \<Rightarrow> int list \<times> byte list list" where
  "psbt_or r = (case r of Inl _ \<Rightarrow> ([], []) | Inr (p, keys) \<Rightarrow> (map to_value (ps_outputs p), keys))"

lemma wallet_recipient: "settled_recipient wallet_env ''1'' ''x'' = Inr (100000000, pad_script ''x'')"
proof -
  have "js_trim ''1'' = ''1''" by (rule js_trim_noop) (simp_all add: js_space_def)
  then have "parseSendAmountSat ''1'' = Inr 100000000"
    by (simp add: parseSendAmountSat_def decimalToAtomic_whole [of "''1''" "''1''"] is_digit_def str_nat_def digit_val_def)
  moreover have "(case recipientOutput (bn_bech32 wallet_env) (e_toOutputScript (bn_rbf wallet_env)) ''x'' [''bitcoin''] SEGWIT_CHAIN_OUTPUTS of
      Inl _ \<Rightarrow> None | Inr (_, script, _) \<Rightarrow> Some script) = Some (pad_script ''x'')" by code_simp
  moreover have "outputKind (pad_script ''x'') = Some Out_p2wpkh" "length (pad_script ''x'') = 22" by code_simp+
  then have "dustThresholdSat (pad_script ''x'') 3000 = 294" by (simp add: dustThresholdSat_def outputVBytes_def)
  ultimately show ?thesis by (auto simp: settled_recipient_def assertNotDust_def split: sum.splits)
qed

lemma wallet_account_psbt: "psbt_or (account_psbt wallet_env ''m'' ''x'' ''1'' None (Some 5) None) = ([100000000, 99999577], [[0, 3]])"
proof -
  have "psbt_or (spend_account wallet_env ''m'' (hd (btc_account_specs wallet_env)) 100000000 (pad_script ''x'') None (Some 5)) =
      ([100000000, 99999577], [[0, 3]])"
    by code_simp
  then show ?thesis by (simp add: account_psbt_def chosen_spec_def wallet_recipient)
qed

lemma wallet_key_psbt: "psbt_or (single_key_psbt wallet_env ''0003'' ''x'' ''1'' None) = ([100000000, 99999577], [[0, 3]])"
proof -
  have "psbt_or (spend_key wallet_env ([0, 3], [0, 3]) 100000000 (pad_script ''x'') None) = ([100000000, 99999577], [[0, 3]])"
    by code_simp
  moreover have "e_keyPair (bn_rbf wallet_env) (btc_hexToBytes ''0003'') = Some ([0, 3], [0, 3])" by code_simp
  ultimately show ?thesis by (simp add: single_key_psbt_def wallet_recipient)
qed

lemma account_send_adds_up_witness:
  "\<exists>psbt sendSat script. parseSendAmountSat ''1'' = Inr sendSat \<and>
     pays_for_itself (btc_spend_args (int sendSat) (btcSendFeeRate (bn_rbf wallet_env) None) P2wpkh script) psbt"
proof -
  obtain psbt keys where "account_psbt wallet_env ''m'' ''x'' ''1'' None (Some 5) None = Inr (psbt, keys)"
    using wallet_account_psbt by (auto simp: psbt_or_def split: sum.splits)
  moreover have "chosen_spec wallet_env ''m'' None = Inr spec \<Longrightarrow> bs_scriptType spec = P2wpkh" for spec
    by (auto simp: chosen_spec_def btc_account_specs_def btcUtxoAccounts_def account_labels_def btcAccount_def)
  ultimately show ?thesis using account_send_adds_up [of wallet_env "''m''" "''x''" "''1''" None "Some 5" None psbt keys] by metis
qed

lemma single_key_send_adds_up_witness:
  "\<exists>psbt sendSat script t. parseSendAmountSat ''1'' = Inr sendSat \<and>
     pays_for_itself (btc_spend_args (int sendSat) (btcSendFeeRate (bn_rbf wallet_env) None) t script) psbt"
proof -
  obtain psbt keys where "single_key_psbt wallet_env ''0003'' ''x'' ''1'' None = Inr (psbt, keys)"
    using wallet_key_psbt by (auto simp: psbt_or_def split: sum.splits)
  then show ?thesis using single_key_send_adds_up [of wallet_env "''0003''" "''x''" "''1''" None psbt keys] by metis
qed

lemma bitcoin_scan_is_the_ledger_witness:
  "\<exists>s :: UtxoAccountScan. us_totalSat s = 200000000 \<and> (\<Sum>x \<in> set (us_entries s). ae_balanceSat x) = 200000000"
proof -
  let ?spec = "UtxoAccountSpec.truncate (btcAccount (honest_env wallet_env wallet_ledger (\<lambda>_. True) (\<lambda>b as. b = hd HASKOIN_BTC_BASES)) ''m'' [] P2wpkh)"
  have "scan_or (scanUtxoAccount (in_order (bn_scan wallet_env)) ''m'' ?spec (Some 5) None) = (200000000, True)" by code_simp
  then obtain s where s: "scanUtxoAccount (in_order (bn_scan wallet_env)) ''m'' ?spec (Some 5) None = Inr s"
      "us_totalSat s = 200000000" "us_complete s"
    by (auto simp: scan_or_def split: sum.splits)
  then show ?thesis using bitcoin_scan_is_the_ledger [OF s(1,3)] by auto
qed

end
