(* ===== verification/Stablecoins.thy ===== *)
theory Stablecoins
  imports Json
begin

section \<open>The stablecoin registry: wallets/stablecoins.ts\<close>

text \<open>
  The table of families and networks, the lookups over it, and the grouping of balances that the
  dashboard shows. The display name of USDT0, which has a character past U+00FF, is held as its
  UTF-8 bytes. Amounts are exact rationals.
\<close>

subsection \<open>The table\<close>

datatype StablecoinSymbol = USDC | USDT | USDT0

record StablecoinNetwork =
  sc_chain :: string
  parent :: string
  sc_network :: string
  contract :: string
  sc_decimals :: nat
  nearIntents :: bool

record StablecoinFamily =
  symbol :: StablecoinSymbol
  displayName :: string
  color :: string
  networks :: "StablecoinNetwork list"

abbreviation (input) net :: "string \<Rightarrow> string \<Rightarrow> string \<Rightarrow> string \<Rightarrow> nat \<Rightarrow> bool \<Rightarrow> StablecoinNetwork" where
  "net c p n k d b \<equiv> \<lparr>sc_chain = c, parent = p, sc_network = n, contract = k, sc_decimals = d, nearIntents = b\<rparr>"

definition STABLECOINS :: "StablecoinFamily list" where
  "STABLECOINS = [
     \<lparr>symbol = USDC, displayName = ''USD Coin'', color = ''#2775ca'',
        networks = [
          net ''usdc-eth'' ''ethereum'' ''Ethereum''
            ''0xA0b86991c6218b36c1d19D4a2e9Eb0cE3606eB48'' 6 True,
          net ''usdc-arb'' ''arbitrum'' ''Arbitrum''
            ''0xaf88d065e77c8cC2239327C5EDb3A432268e5831'' 6 True,
          net ''usdc-base'' ''base'' ''Base''
            ''0x833589fCD6eDb6E08f4c7C32D4f71b54bdA02913'' 6 True,
          net ''usdc-op'' ''optimism'' ''Optimism''
            ''0x0b2C639c533813f4Aa9D7837CAf62653d097Ff85'' 6 True,
          net ''usdc-pol'' ''polygon'' ''Polygon''
            ''0x3c499c542cEF5E3811e1192ce70d8cC03d5c3359'' 6 True,
          net ''usdc-avax'' ''avalanche'' ''Avalanche''
            ''0xB97EF9Ef8734C71904D8002F8b6Bc66Dd9c48a6E'' 6 True,
          net ''usdc-bsc'' ''bsc'' ''BNB Smart Chain''
            ''0x8AC76a51cc950d9822D68b83fE1Ad97B32Cd580d'' 18 True,
          net ''usdc-sol'' ''solana'' ''Solana''
            ''EPjFWdd5AufqSSqeM2qN1xzybapC8G4wEGGkZwyTDt1v'' 6 True,
          net ''usdc-monad'' ''monad'' ''Monad''
            ''0x754704bc059f8c67012fed69bc8a327a5aafb603'' 6 True,
          net ''usdc-near'' ''near'' ''NEAR''
            ''17208628f84f5d6ad33f0da3bbbeb27ffcb398eac501a31bd6ad2011e36133a1'' 6 True,
          net ''usdc-aptos'' ''aptos'' ''Aptos''
            ''0xbae207659db88bea0cbead6da0ed00aac12edcdda169e591cd41c94180b46f3b'' 6 True]\<rparr>,
     \<lparr>symbol = USDT, displayName = ''Tether USD'', color = ''#26a17b'',
        networks = [
          net ''usdt-eth'' ''ethereum'' ''Ethereum''
            ''0xdAC17F958D2ee523a2206206994597C13D831ec7'' 6 True,
          net ''usdt-avax'' ''avalanche'' ''Avalanche''
            ''0x9702230A8Ea53601f5cD2dc00fDBc13d4dF4A8c7'' 6 True,
          net ''usdt-op'' ''optimism'' ''Optimism''
            ''0x94b008aA00579c1307B0EF2c499aD98a8ce58e58'' 6 True,
          net ''usdt-bsc'' ''bsc'' ''BNB Smart Chain''
            ''0x55d398326f99059fF775485246999027B3197955'' 18 True,
          net ''usdt-sol'' ''solana'' ''Solana''
            ''Es9vMFrzaCERmJfrF4H2FYD4KCoNkY11McCe8BenwNYB'' 6 True,
          net ''usdt-tron'' ''tron'' ''Tron''
            ''TR7NHqjeKQxGTCi8q8ZY4pL8otSzgjLj6t'' 6 True,
          net ''usdt-near'' ''near'' ''NEAR''
            ''usdt.tether-token.near'' 6 True,
          net ''usdt-aptos'' ''aptos'' ''Aptos''
            ''0x357b0b74bc833e95a115ad22604854d6b0fca151cecd94111770e5d6ffc9dc2b'' 6 True]\<rparr>,
     \<lparr>symbol = USDT0, displayName = ''USD'' @ [CHR 0xE2, CHR 0x82, CHR 0xAE] @ ''0'', color = ''#26a17b'',
        networks = [
          net ''usdt0-arb'' ''arbitrum'' ''Arbitrum''
            ''0xFd086bC7CD5C481DCC9C85ebE478A1C0b69FCbb9'' 6 True,
          net ''usdt0-pol'' ''polygon'' ''Polygon''
            ''0xc2132D05D31c914a87C6611C10748AEb04B58e8F'' 6 True,
          net ''usdt0-monad'' ''monad'' ''Monad''
            ''0xe7cd86e13ac4309349f30b3435a9d337750fc82d'' 6 True,
          net ''usdt0-op'' ''optimism'' ''Optimism''
            ''0x01bFF41798a0BcF287b996046Ca68b395DbC1071'' 6 True]\<rparr>]"

fun symbol_text :: "StablecoinSymbol \<Rightarrow> string" where
  "symbol_text USDC = ''USDC''"
| "symbol_text USDT = ''USDT''"
| "symbol_text USDT0 = ''USDT0''"

definition STABLECOIN_NETWORKS :: "(StablecoinNetwork \<times> StablecoinSymbol) list" where
  "STABLECOIN_NETWORKS = concat (map (\<lambda>f. map (\<lambda>n. (n, symbol f)) (networks f)) STABLECOINS)"

definition STABLECOIN_CHAINS :: "string list" where
  "STABLECOIN_CHAINS = map (\<lambda>(n, _). sc_chain n) STABLECOIN_NETWORKS"

definition isStablecoinChain :: "string \<Rightarrow> bool" where
  "isStablecoinChain chain = (chain \<in> set STABLECOIN_CHAINS)"

definition stablecoinNetworkFor :: "string \<Rightarrow> (StablecoinNetwork \<times> StablecoinSymbol) option" where
  "stablecoinNetworkFor chain = List.find (\<lambda>(n, _). sc_chain n = chain) STABLECOIN_NETWORKS"

definition familyFor :: "StablecoinSymbol \<Rightarrow> StablecoinFamily option" where
  "familyFor s = List.find (\<lambda>f. symbol f = s) STABLECOINS"

text \<open>The entries of \<open>FILES_UNDER\<close>, in the order of \<open>Object.entries\<close>.\<close>

definition FILES_UNDER :: "(StablecoinSymbol \<times> StablecoinSymbol) list" where
  "FILES_UNDER = [(USDT0, USDT)]"

subsection \<open>Labels\<close>

record StablecoinLegLabel =
  leg_symbol :: string
  leg_network :: string
  leg_note :: "string option"

definition stablecoinLegLabel :: "string \<Rightarrow> StablecoinLegLabel option" where
  "stablecoinLegLabel chain =
     (case stablecoinNetworkFor chain of
        None \<Rightarrow> None
      | Some (leg, sy) \<Rightarrow>
          (case map_of FILES_UNDER sy of
             None \<Rightarrow> Some \<lparr>leg_symbol = symbol_text sy, leg_network = sc_network leg, leg_note = None\<rparr>
           | Some filedUnder \<Rightarrow> Some \<lparr>leg_symbol = symbol_text filedUnder, leg_network = sc_network leg,
               leg_note = map_option displayName (familyFor sy)\<rparr>))"

definition stablecoinLegName :: "string \<Rightarrow> string option" where
  "stablecoinLegName chain =
     map_option (\<lambda>l. leg_symbol l @ '' ('' @ leg_network l @
         (if truthy (leg_note l) then '' '' @ [CHR 0xB7] @ '' '' @ the (leg_note l) else []) @ '')'')
       (stablecoinLegLabel chain)"

definition coinMarkFor :: "string \<Rightarrow> string \<Rightarrow> string" where
  "coinMarkFor chain ticker =
     coalesce (map_option (\<lambda>(_, s). symbol_text s) (stablecoinNetworkFor chain)) ticker"

text \<open>\<open>WalletInfo\<close> is copied with its chain replaced; the rest of it is carried along.\<close>

definition tokenLegsHeldBy :: "string \<Rightarrow> 'info option \<Rightarrow> (string \<times> string \<times> 'info) list" where
  "tokenLegsHeldBy parentChain parentInfo =
     (case parentInfo of
        None \<Rightarrow> []
      | Some info \<Rightarrow> foldl (\<lambda>legs (n, _). if parent n = parentChain
                                then js_set (sc_chain n) (sc_chain n, info) legs else legs)
                       [] STABLECOIN_NETWORKS)"

subsection \<open>Grouping balances\<close>

record StablecoinRow =
  row_chain :: string
  row_network :: string
  row_note :: "string option"
  row_balance :: "string option"
  row_amount :: "rat option"
  row_nearIntents :: bool

record StablecoinGroup =
  g_symbol :: StablecoinSymbol
  g_displayName :: string
  g_color :: string
  g_total :: "rat option"
  g_rows :: "StablecoinRow list"

definition add_amount :: "rat option \<Rightarrow> rat option \<Rightarrow> rat option" where
  "add_amount t a = (case a of None \<Rightarrow> t | Some x \<Rightarrow> Some (coalesce t 0 + x))"

definition group_row :: "(string \<rightharpoonup> string) \<Rightarrow> StablecoinNetwork \<Rightarrow> StablecoinRow" where
  "group_row balancesByChain n =
     (let balance = balancesByChain (sc_chain n)
      in \<lparr>row_chain = sc_chain n, row_network = sc_network n, row_note = None, row_balance = balance,
          row_amount = (case balance of None \<Rightarrow> None | Some b \<Rightarrow> plain_decimal b),
          row_nearIntents = nearIntents n\<rparr>)"

definition groupStablecoins :: "(string \<rightharpoonup> string) \<Rightarrow> StablecoinGroup list" where
  "groupStablecoins balancesByChain =
     map (\<lambda>family.
        let rows = map (group_row balancesByChain) (networks family)
        in \<lparr>g_symbol = symbol family, g_displayName = displayName family, g_color = color family,
            g_total = foldl (\<lambda>t r. add_amount t (row_amount r)) None rows, g_rows = rows\<rparr>)
       STABLECOINS"

text \<open>The loop over \<open>FILES_UNDER\<close>: a \<open>Map\<close> keyed by symbol, in insertion order.\<close>

definition file_under :: "StablecoinGroup list \<Rightarrow> StablecoinSymbol \<times> StablecoinSymbol \<Rightarrow> StablecoinGroup list" where
  "file_under groups ft =
     (case (List.find (\<lambda>g. g_symbol g = fst ft) groups, List.find (\<lambda>g. g_symbol g = snd ft) groups) of
        (Some src, Some _) \<Rightarrow>
          filter (\<lambda>g. g_symbol g \<noteq> fst ft)
            (map (\<lambda>dst. if g_symbol dst = snd ft
                then dst\<lparr>g_rows := g_rows dst @ map (\<lambda>r. r\<lparr>row_note := Some (g_displayName src)\<rparr>) (g_rows src),
                         g_total := add_amount (g_total dst) (g_total src)\<rparr>
                else dst) groups)
      | _ \<Rightarrow> groups)"

definition stablecoinRailGroups :: "(string \<rightharpoonup> string) \<Rightarrow> StablecoinGroup list" where
  "stablecoinRailGroups balancesByChain = foldl file_under (groupStablecoins balancesByChain) FILES_UNDER"

subsection \<open>Nothing is lost in the grouping\<close>

definition known_sum :: "rat option list \<Rightarrow> rat option" where
  "known_sum xs = (if list_all (\<lambda>x. x = None) xs then None else Some (\<Sum>x\<leftarrow>xs. coalesce x 0))"

lemma add_amount_simps [simp]: "add_amount t None = t" "add_amount None (Some x) = Some x"
    "add_amount (Some y) (Some x) = Some (y + x)"
  by (simp_all add: add_amount_def)

lemma add_amount_assoc: "add_amount (add_amount a b) c = add_amount a (add_amount b c)"
  by (cases a; cases b; cases c) simp_all

lemma known_sum_Cons: "known_sum (x # xs) = add_amount x (known_sum xs)"
proof (cases "list_all (\<lambda>y. y = None) xs")
  case True
  then have "(\<Sum>y\<leftarrow>xs. coalesce y 0) = (0 :: rat)" by (induction xs) auto
  with True show ?thesis by (cases x) (simp_all add: known_sum_def)
next
  case False
  then show ?thesis by (cases x) (simp_all add: known_sum_def)
qed

lemma known_sum_Nil [simp]: "known_sum [] = None" by (simp add: known_sum_def)

lemma known_sum_append: "known_sum (xs @ ys) = add_amount (known_sum xs) (known_sum ys)"
proof (induction xs)
  case Nil
  then show ?case by (cases "known_sum ys") simp_all
qed (simp add: known_sum_Cons add_amount_assoc)

lemma foldl_add_amount: "foldl (\<lambda>t r. add_amount t (f r)) t rs = add_amount t (known_sum (map f rs))"
  by (induction rs arbitrary: t) (simp_all add: known_sum_Cons add_amount_assoc)

lemma add_None [simp]: "add_amount None x = x" by (cases x) simp_all

lemma STABLECOINS_shape:
  "\<exists>a b c. STABLECOINS = [a, b, c] \<and> symbol a = USDC \<and> symbol b = USDT \<and> symbol c = USDT0"
  by (simp add: STABLECOINS_def)

text \<open>The rows the dashboard shows lose no network and no money: USDT0 is filed under USDT, every
  network of the registry is shown exactly once, and each total is the sum of the balances that
  are known in it, absent exactly when none is.\<close>

theorem rail_groups_complete:
  "map g_symbol (stablecoinRailGroups balances) = [USDC, USDT] \<and>
   mset (map row_chain (concat (map g_rows (stablecoinRailGroups balances)))) = mset STABLECOIN_CHAINS \<and>
   map g_total (stablecoinRailGroups balances) =
     map (\<lambda>g. known_sum (map row_amount (g_rows g))) (stablecoinRailGroups balances)"
proof -
  obtain a b c where s: "STABLECOINS = [a, b, c]" "symbol a = USDC" "symbol b = USDT" "symbol c = USDT0"
    using STABLECOINS_shape by blast
  have m: "map (row_chain \<circ> group_row balances) ns = map sc_chain ns" for ns
    by (simp add: group_row_def Let_def)
  show ?thesis
    by (simp add: stablecoinRailGroups_def groupStablecoins_def FILES_UNDER_def file_under_def s Let_def
        foldl_add_amount known_sum_append STABLECOIN_CHAINS_def STABLECOIN_NETWORKS_def comp_def m [unfolded comp_def])
qed

end
