(* ===== verification/Assets.thy ===== *)
theory Assets
  imports Stablecoins
begin

section \<open>The asset registry: features/swap/asset-capabilities.ts\<close>

text \<open>
  The per-asset table that every swap form and executor reads, and the helpers over it: which
  pairs can be routed, which secret a source needs, and how a desk pair label is written and read
  back. Explorer and RPC addresses and the hint texts are left out of the records.
\<close>

datatype SwapChainKind =
    K_EVM | K_BTC | K_LTC | K_DOGE | K_BCH | K_DASH | K_SOLANA | K_NEAR | K_STELLAR
  | K_SUI | K_XMR | K_ZEPH | K_ZANO | K_CARDANO | K_XRP | K_TRON | K_APTOS

datatype TsSigner = TsCardano | TsXrp | TsTron | TsUtxoAccount | TsAptos

datatype DeskRole = Leader | Follower

datatype DeskEngine = AdaXmr

record AssetCapability =
  ticker :: string
  network :: string
  chainKind :: SwapChainKind
  chainId :: "nat option"
  decimals :: nat
  walletsByChainKey :: "string option"
  signerInRustCore :: bool
  tsSourceSigner :: "TsSigner option"
  rpcsAvailable :: bool
  swapKitAsset :: "string option"
  nearIntentsAsset :: "string option"
  atomicDesk :: "(DeskRole \<times> DeskEngine option) option"
  tokenContract :: "string option"

abbreviation (input) cap where
  "cap t n k i d w r s p sk ni a \<equiv>
     \<lparr>ticker = t, network = n, chainKind = k, chainId = i, decimals = d, walletsByChainKey = w,
      signerInRustCore = r, tsSourceSigner = s, rpcsAvailable = p, swapKitAsset = sk,
      nearIntentsAsset = ni, atomicDesk = a, tokenContract = None\<rparr>"

definition REGISTRY_ENTRIES :: "(string \<times> AssetCapability) list" where
  "REGISTRY_ENTRIES = [
     (''ETH'', cap ''ETH'' ''Ethereum'' K_EVM (Some 1) 18 (Some ''ethereum'') True None True
        (Some ''ETH.ETH'') (Some ''nep141:eth.omft.near'') None),
     (''AVAX'', cap ''AVAX'' ''Avalanche C-Chain'' K_EVM (Some 43114) 18 (Some ''ethereum'') True None True
        (Some ''AVAX.AVAX'') (Some ''nep245:v2_1.omni.hot.tg:43114_11111111111111111111'') (Some (Leader, None))),
     (''POL'', cap ''POL'' ''Polygon'' K_EVM (Some 137) 18 (Some ''ethereum'') True None True
        (Some ''POL.POL'') (Some ''nep245:v2_1.omni.hot.tg:137_11111111111111111111'') None),
     (''FLR'', cap ''FLR'' ''Flare'' K_EVM (Some 14) 18 (Some ''ethereum'') True None True
        (Some ''FLR.FLR'') None None),
     (''BTC'', cap ''BTC'' ''Bitcoin'' K_BTC None 8 (Some ''bitcoin'') True (Some TsUtxoAccount) True
        (Some ''BTC.BTC'') (Some ''nep141:btc.omft.near'') None),
     (''LTC'', cap ''LTC'' ''Litecoin'' K_LTC None 8 (Some ''litecoin'') True (Some TsUtxoAccount) True
        (Some ''LTC.LTC'') (Some ''nep141:ltc.omft.near'') (Some (Leader, None))),
     (''DOGE'', cap ''DOGE'' ''Dogecoin'' K_DOGE None 8 (Some ''dogecoin'') True (Some TsUtxoAccount) True
        (Some ''DOGE.DOGE'') (Some ''nep141:doge.omft.near'') None),
     (''BCH'', cap ''BCH'' ''Bitcoin Cash'' K_BCH None 8 (Some ''bitcoin-cash'') True (Some TsUtxoAccount) True
        (Some ''BCH.BCH'') (Some ''nep141:bch.omft.near'') None),
     (''SOL'', cap ''SOL'' ''Solana'' K_SOLANA None 9 (Some ''solana'') True None True
        (Some ''SOL.SOL'') (Some ''nep141:sol.omft.near'') None),
     (''NEAR'', cap ''NEAR'' ''NEAR Protocol'' K_NEAR None 24 (Some ''near'') True None True
        (Some ''NEAR.NEAR'') (Some ''nep141:wrap.near'') None),
     (''XMR'', cap ''XMR'' ''Monero'' K_XMR None 12 (Some ''monero'') False None False
        None None (Some (Follower, Some AdaXmr))),
     (''ZEPH'', cap ''ZEPH'' ''Zephyr Protocol'' K_ZEPH None 12 (Some ''zephyr'') False None False
        None None (Some (Follower, Some AdaXmr))),
     (''ZEPHUSD'', cap ''ZEPHUSD'' ''Zephyr Protocol'' K_ZEPH None 12 (Some ''zephyr'') False None False
        None None None),
     (''ZEPHRSV'', cap ''ZEPHRSV'' ''Zephyr Protocol'' K_ZEPH None 12 (Some ''zephyr'') False None False
        None None None),
     (''ZEPHYRS'', cap ''ZEPHYRS'' ''Zephyr Protocol'' K_ZEPH None 12 (Some ''zephyr'') False None False
        None None None),
     (''ZANO'', cap ''ZANO'' ''Zano'' K_ZANO None 12 (Some ''zano'') False None False
        None None None),
     (''MON'', cap ''MON'' ''Monad'' K_EVM (Some 143) 18 (Some ''ethereum'') True None True
        None (Some ''nep245:v2_1.omni.hot.tg:143_11111111111111111111'') None),
     (''BNB'', cap ''BNB'' ''BNB Smart Chain'' K_EVM (Some 56) 18 (Some ''ethereum'') True None True
        (Some ''BNB.BNB'') (Some ''nep245:v2_1.omni.hot.tg:56_11111111111111111111'') None),
     (''DASH'', cap ''DASH'' ''Dash'' K_DASH None 8 (Some ''dash'') True (Some TsUtxoAccount) True
        None (Some ''nep141:dash.omft.near'') None),
     (''XLM'', cap ''XLM'' ''Stellar'' K_STELLAR None 7 (Some ''stellar'') True None True
        None (Some ''nep245:v2_1.omni.hot.tg:1100_111bzQBB5v7AhLyPMDwS8uJgQV24KaAPXtwyVWu2KXbbfQU6NXRCz'') None),
     (''SUI'', cap ''SUI'' ''Sui'' K_SUI None 9 (Some ''sui'') True None True
        None (Some ''nep141:sui.omft.near'') None),
     (''ADA'', cap ''ADA'' ''Cardano'' K_CARDANO None 6 (Some ''cardano'') False (Some TsCardano) False
        None (Some ''nep141:cardano.omft.near'') (Some (Leader, Some AdaXmr))),
     (''XRP'', cap ''XRP'' ''XRP Ledger'' K_XRP None 6 (Some ''xrp'') False (Some TsXrp) False
        None (Some ''nep141:xrp.omft.near'') None),
     (''TRX'', cap ''TRX'' ''Tron'' K_TRON None 6 (Some ''tron'') False (Some TsTron) False
        None (Some ''nep141:tron.omft.near'') None),
     (''USDC-ETH'', cap ''USDC'' ''Ethereum'' K_EVM (Some 1) 6 (Some ''usdc-eth'') True None True
        None (Some ''nep141:eth-0xa0b86991c6218b36c1d19d4a2e9eb0ce3606eb48.omft.near'') None),
     (''USDC-OP'', cap ''USDC'' ''Optimism'' K_EVM (Some 10) 6 (Some ''usdc-op'') True None True
        None (Some ''nep245:v2_1.omni.hot.tg:10_A2ewyUyDp6qsue1jqZsGypkCxRJ'') None),
     (''USDC-BSC'', cap ''USDC'' ''BNB Smart Chain'' K_EVM (Some 56) 18 (Some ''usdc-bsc'') True None True
        None (Some ''nep245:v2_1.omni.hot.tg:56_2w93GqMcEmQFDru84j3HZZWt557r'') None),
     (''USDC-POL'', cap ''USDC'' ''Polygon'' K_EVM (Some 137) 6 (Some ''usdc-pol'') True None True
        None (Some ''nep245:v2_1.omni.hot.tg:137_qiStmoQJDQPTebaPjgx5VBxZv6L'') None),
     (''USDC-BASE'', cap ''USDC'' ''Base'' K_EVM (Some 8453) 6 (Some ''usdc-base'') True None True
        None (Some ''nep141:base-0x833589fcd6edb6e08f4c7c32d4f71b54bda02913.omft.near'') None),
     (''USDC-ARB'', cap ''USDC'' ''Arbitrum'' K_EVM (Some 42161) 6 (Some ''usdc-arb'') True None True
        None (Some ''nep141:arb-0xaf88d065e77c8cc2239327c5edb3a432268e5831.omft.near'') None),
     (''USDC-AVAX'', cap ''USDC'' ''Avalanche'' K_EVM (Some 43114) 6 (Some ''usdc-avax'') True None True
        None (Some ''nep245:v2_1.omni.hot.tg:43114_3atVJH3r5c4GqiSYmg9fECvjc47o'') None),
     (''USDC-MONAD'', cap ''USDC'' ''Monad'' K_EVM (Some 143) 6 (Some ''usdc-monad'') True None True
        None (Some ''nep245:v2_1.omni.hot.tg:143_2dmLwYWkCQKyTjeUPAsGJuiVLbFx'') None),
     (''USDT0-MONAD'', cap ''USDT0'' ''Monad'' K_EVM (Some 143) 6 (Some ''usdt0-monad'') True None True
        None (Some ''nep245:v2_1.omni.hot.tg:143_4EJiJxSALvGoTZbnc8K7Ft9533et'') None),
     (''USDT-ETH'', cap ''USDT'' ''Ethereum'' K_EVM (Some 1) 6 (Some ''usdt-eth'') True None True
        None (Some ''nep141:eth-0xdac17f958d2ee523a2206206994597c13d831ec7.omft.near'') None),
     (''USDT-OP'', cap ''USDT'' ''Optimism'' K_EVM (Some 10) 6 (Some ''usdt-op'') True None True
        None (Some ''nep245:v2_1.omni.hot.tg:10_359RPSJVdTxwTJT9TyGssr2rFoWo'') None),
     (''USDT-BSC'', cap ''USDT'' ''BNB Smart Chain'' K_EVM (Some 56) 18 (Some ''usdt-bsc'') True None True
        None (Some ''nep245:v2_1.omni.hot.tg:56_2CMMyVTGZkeyNZTSvS5sarzfir6g'') None),
     (''USDT-AVAX'', cap ''USDT'' ''Avalanche'' K_EVM (Some 43114) 6 (Some ''usdt-avax'') True None True
        None (Some ''nep245:v2_1.omni.hot.tg:43114_372BeH7ENZieCaabwkbWkBiTTgXp'') None),
     (''USDT0-POL'', cap ''USDT0'' ''Polygon'' K_EVM (Some 137) 6 (Some ''usdt0-pol'') True None True
        None (Some ''nep245:v2_1.omni.hot.tg:137_3hpYoaLtt8MP1Z2GH1U473DMRKgr'') None),
     (''USDT0-ARB'', cap ''USDT0'' ''Arbitrum'' K_EVM (Some 42161) 6 (Some ''usdt0-arb'') True None True
        None (Some ''nep141:arb-0xfd086bc7cd5c481dcc9c85ebe478a1c0b69fcbb9.omft.near'') None),
     (''USDT0-OP'', cap ''USDT0'' ''Optimism'' K_EVM (Some 10) 6 (Some ''usdt0-op'') True None True
        None (Some ''nep245:v2_1.omni.hot.tg:10_2R1RXDBxCyJTeMEsdXydh7xsHmz'') None),
     (''USDC-SOL'', cap ''USDC'' ''Solana'' K_SOLANA None 6 (Some ''usdc-sol'') True None True
        None (Some ''nep141:sol-5ce3bf3a31af18be40ba30f721101b4341690186.omft.near'') None),
     (''USDT-SOL'', cap ''USDT'' ''Solana'' K_SOLANA None 6 (Some ''usdt-sol'') True None True
        None (Some ''nep141:sol-c800a4bd850783ccb82c2b2c7e84175443606352.omft.near'') None),
     (''USDT-TRON'', cap ''USDT'' ''Tron'' K_TRON None 6 (Some ''usdt-tron'') False (Some TsTron) False
        None (Some ''nep141:tron-d28a265909efecdcee7c5028585214ea0b96f015.omft.near'') None),
     (''USDT-NEAR'', cap ''USDT'' ''NEAR'' K_NEAR None 6 (Some ''usdt-near'') True None True
        None (Some ''nep141:usdt.tether-token.near'') None),
     (''USDC-NEAR'', cap ''USDC'' ''NEAR'' K_NEAR None 6 (Some ''usdc-near'') True None True
        None (Some ''nep141:17208628f84f5d6ad33f0da3bbbeb27ffcb398eac501a31bd6ad2011e36133a1'') None),
     (''USDT-APTOS'', cap ''USDT'' ''Aptos'' K_APTOS None 6 (Some ''usdt-aptos'') False (Some TsAptos) False
        None (Some ''nep141:aptos-88cb7619440a914fe6400149a12b443c3ac21d59.omft.near'') None),
     (''USDC-APTOS'', cap ''USDC'' ''Aptos'' K_APTOS None 6 (Some ''usdc-aptos'') False (Some TsAptos) False
        None (Some ''nep141:aptos-34ee497f210c5a511e8d5b53bc56d75b63612bb5.omft.near'') None)]"

definition withStablecoinContracts :: "(string \<times> AssetCapability) list \<Rightarrow> (string \<times> AssetCapability) list" where
  "withStablecoinContracts entries =
     map (\<lambda>(key, c).
        (key, case Option.bind (walletsByChainKey c) stablecoinNetworkFor of
                Some (leg, _) \<Rightarrow> c\<lparr>tokenContract := Some (contract leg)\<rparr>
              | None \<Rightarrow> c)) entries"

definition ASSET_CAPABILITIES :: "string \<rightharpoonup> AssetCapability" where
  "ASSET_CAPABILITIES = map_of (withStablecoinContracts REGISTRY_ENTRIES)"

definition asset :: "string \<Rightarrow> AssetCapability option" where
  "asset t = ASSET_CAPABILITIES (to_upper t)"

subsection \<open>Sources\<close>

definition INTENTS_EXECUTABLE_SOURCE_KINDS :: "SwapChainKind list" where
  "INTENTS_EXECUTABLE_SOURCE_KINDS =
     [K_EVM, K_SOLANA, K_NEAR, K_BTC, K_LTC, K_DOGE, K_BCH, K_DASH, K_CARDANO, K_XRP, K_TRON,
      K_STELLAR, K_SUI, K_APTOS]"

definition isIntentsSourceExecutable :: "string \<Rightarrow> bool" where
  "isIntentsSourceExecutable t =
     (case asset t of
        None \<Rightarrow> False
      | Some c \<Rightarrow>
          if \<not> truthy (nearIntentsAsset c) then False
          else if chainKind c \<notin> set INTENTS_EXECUTABLE_SOURCE_KINDS then False
          else signerInRustCore c \<or> tsSourceSigner c \<noteq> None)"

datatype SourceSecret = SecretMnemonic string | SecretPrivateKey string

record WalletSecrets =
  w_mnemonic :: "string option"
  w_privateKey :: "string option"
  w_address :: "string option"

definition sourceSecretFor :: "string \<Rightarrow> (string \<rightharpoonup> WalletSecrets) \<Rightarrow> SourceSecret option" where
  "sourceSecretFor fromAsset walletsByChain =
     (case asset fromAsset of
        None \<Rightarrow> None
      | Some c \<Rightarrow>
          (case (tsSourceSigner c, keep_truthy (walletsByChainKey c)) of
             (Some signer, Some key) \<Rightarrow>
               let w = walletsByChain key
               in if signer = TsCardano \<or> signer = TsUtxoAccount
                  then map_option SecretMnemonic (keep_truthy (Option.bind w w_mnemonic))
                  else map_option SecretPrivateKey (keep_truthy (Option.bind w w_privateKey))
           | _ \<Rightarrow> None))"

definition addressForTicker :: "string \<Rightarrow> (string \<rightharpoonup> WalletSecrets) \<Rightarrow> string option" where
  "addressForTicker t walletsByChain =
     (case asset t of
        None \<Rightarrow> None
      | Some c \<Rightarrow> (case keep_truthy (walletsByChainKey c) of
                     None \<Rightarrow> None | Some key \<Rightarrow> Option.bind (walletsByChain key) w_address))"

subsection \<open>Pairs\<close>

definition isSwapKitRoutableFromRegistry :: "string \<Rightarrow> string \<Rightarrow> bool" where
  "isSwapKitRoutableFromRegistry from to =
     (truthy (Option.bind (asset from) swapKitAsset) \<and> truthy (Option.bind (asset to) swapKitAsset))"

definition isIntentsRoutableFromRegistry :: "string \<Rightarrow> string \<Rightarrow> bool" where
  "isIntentsRoutableFromRegistry from to =
     (truthy (Option.bind (asset from) nearIntentsAsset) \<and> truthy (Option.bind (asset to) nearIntentsAsset) \<and>
      isIntentsSourceExecutable from)"

definition desk_of :: "string \<Rightarrow> (DeskRole \<times> DeskEngine option) option" where
  "desk_of t = Option.bind (asset t) atomicDesk"

definition isDeskRoutableFromRegistry :: "string \<Rightarrow> string \<Rightarrow> bool" where
  "isDeskRoutableFromRegistry from to =
     (case (desk_of from, desk_of to) of
        (Some f, Some t) \<Rightarrow> fst f \<noteq> fst t \<and> snd f \<noteq> None \<and> snd f = snd t
      | _ \<Rightarrow> False)"

datatype DeskDirection = SELL_FOLLOWER | BUY_FOLLOWER

fun direction_text :: "DeskDirection \<Rightarrow> string" where
  "direction_text SELL_FOLLOWER = ''SELL_FOLLOWER''"
| "direction_text BUY_FOLLOWER = ''BUY_FOLLOWER''"

definition deskDirectionFor :: "string \<Rightarrow> string \<Rightarrow> DeskDirection option" where
  "deskDirectionFor from to =
     (if \<not> isDeskRoutableFromRegistry from to then None
      else Some (if map_option fst (desk_of from) = Some Follower then SELL_FOLLOWER else BUY_FOLLOWER))"

definition deskPairLabel :: "string \<Rightarrow> string \<Rightarrow> string option" where
  "deskPairLabel from to =
     (if \<not> isDeskRoutableFromRegistry from to then None
      else let F = to_upper from; T = to_upper to
           in Some (if map_option fst (desk_of F) = Some Follower then F @ ''/'' @ T else T @ ''/'' @ F))"

text \<open>The entries are read here without upper-casing, which the label has had already.\<close>

definition raw_role :: "string \<Rightarrow> DeskRole option" where
  "raw_role k = map_option fst (Option.bind (ASSET_CAPABILITIES k) atomicDesk)"

definition splitDeskPair :: "string \<Rightarrow> (string \<times> string) option" where
  "splitDeskPair pair =
     (case split_on (CHR ''/'') (to_upper pair) of
        [follower, leader] \<Rightarrow>
          if raw_role follower \<noteq> Some Follower then None
          else if raw_role leader \<noteq> Some Leader then None
          else if \<not> isDeskRoutableFromRegistry follower leader then None
          else Some (follower, leader)
      | _ \<Rightarrow> None)"

definition deskCoinsFor :: "string \<Rightarrow> string \<Rightarrow> (string \<times> string) option" where
  "deskCoinsFor pair direction =
     (case splitDeskPair pair of
        None \<Rightarrow> None
      | Some (follower, leader) \<Rightarrow>
          if direction = ''SELL_FOLLOWER'' then Some (follower, leader)
          else if direction = ''BUY_FOLLOWER'' then Some (leader, follower)
          else None)"

definition deskAmountsFor :: "string \<Rightarrow> string \<Rightarrow> string \<Rightarrow> string \<Rightarrow> (string \<times> string) option" where
  "deskAmountsFor pair direction amountA amountB =
     (case splitDeskPair pair of
        None \<Rightarrow> None
      | Some _ \<Rightarrow>
          if direction = ''SELL_FOLLOWER'' then Some (amountB, amountA)
          else if direction = ''BUY_FOLLOWER'' then Some (amountA, amountB)
          else None)"

subsection \<open>What the table holds\<close>

text \<open>Upper-casing twice is upper-casing once, so a key built from a ticker is looked up again.\<close>

lemma to_upper_idem [simp]: "to_upper (to_upper s) = to_upper s"
proof -
  have "upper_char (upper_char c) = upper_char c" for c
  proof (cases "97 \<le> (of_char c :: nat) \<and> (of_char c :: nat) \<le> 122")
    case True
    then have "of_char (upper_char c) = (of_char c - 32 :: nat)"
      by (auto simp: upper_char_def Let_def intro!: mod_less)
    moreover have "\<not> 97 \<le> (of_char c - 32 :: nat)" using True by arith
    ultimately show ?thesis unfolding upper_char_def [of "upper_char c"] by (simp add: Let_def)
  next
    case False
    then have "upper_char c = c" by (auto simp: upper_char_def Let_def)
    then show ?thesis by simp
  qed
  then show ?thesis by (simp add: to_upper_def)
qed

lemma asset_upper [simp]: "asset (to_upper t) = asset t" by (simp add: asset_def)
lemma desk_of_upper [simp]: "desk_of (to_upper t) = desk_of t" by (simp add: desk_of_def)

lemma table_entry: "ASSET_CAPABILITIES k = Some c \<Longrightarrow> \<exists>d. (k, d) \<in> set REGISTRY_ENTRIES \<and> 
    c = (case Option.bind (walletsByChainKey d) stablecoinNetworkFor of
                Some (leg, _) \<Rightarrow> d\<lparr>tokenContract := Some (contract leg)\<rparr>
              | None \<Rightarrow> d)"
  unfolding ASSET_CAPABILITIES_def withStablecoinContracts_def by (drule map_of_SomeD) auto

definition desk_keys :: "(string \<times> DeskRole \<times> DeskEngine option) list" where
  "desk_keys = List.map_filter (\<lambda>(k, c). map_option (Pair k) (atomicDesk c)) REGISTRY_ENTRIES"

lemma desk_keys_eq:
  "desk_keys = [(''AVAX'', Leader, None), (''LTC'', Leader, None), (''XMR'', Follower, Some AdaXmr),
     (''ZEPH'', Follower, Some AdaXmr), (''ADA'', Leader, Some AdaXmr)]"
  by (simp add: desk_keys_def REGISTRY_ENTRIES_def map_filter_simps)

lemma raw_desk: "Option.bind (ASSET_CAPABILITIES k) atomicDesk = Some x \<Longrightarrow> (k, x) \<in> set desk_keys"
proof -
  assume "Option.bind (ASSET_CAPABILITIES k) atomicDesk = Some x"
  then obtain d where "(k, d) \<in> set REGISTRY_ENTRIES" "atomicDesk d = Some x"
    by (cases "ASSET_CAPABILITIES k") (auto dest!: table_entry split: option.splits)
  then show ?thesis unfolding desk_keys_def map_filter_def by (force simp: image_iff)
qed

lemma desk_of_keys: "desk_of t = Some x \<Longrightarrow> (to_upper t, x) \<in> set desk_keys"
  by (rule raw_desk) (simp add: desk_of_def asset_def)

lemma desk_of_raw: "to_upper k = k \<Longrightarrow> desk_of k = Option.bind (ASSET_CAPABILITIES k) atomicDesk"
  by (simp add: desk_of_def asset_def)

lemma routable_pairs:
  assumes "isDeskRoutableFromRegistry f t"
  shows "to_upper f \<in> {''XMR'', ''ZEPH''} \<and> to_upper t = ''ADA'' \<and>
      map_option fst (desk_of f) = Some Follower \<and> map_option fst (desk_of t) = Some Leader \<or>
    to_upper t \<in> {''XMR'', ''ZEPH''} \<and> to_upper f = ''ADA'' \<and>
      map_option fst (desk_of t) = Some Follower \<and> map_option fst (desk_of f) = Some Leader"
proof -
  obtain x y where xy: "desk_of f = Some x" "desk_of t = Some y" "fst x \<noteq> fst y" "snd x \<noteq> None" "snd x = snd y"
    using assms by (auto simp: isDeskRoutableFromRegistry_def split: option.splits)
  then have "(to_upper f, x) \<in> set desk_keys" "(to_upper t, y) \<in> set desk_keys"
    by (simp_all add: desk_of_keys)
  then show ?thesis using xy unfolding desk_keys_eq by auto
qed

text \<open>What the wallet asks the desk for is what it reads back: for every pair that can be traded, and
  for no other, the label and direction written for it name the same coin in and coin out when a
  swap is restored from them.\<close>

theorem desk_label_roundtrip:
  "isDeskRoutableFromRegistry from to \<longleftrightarrow>
     (\<exists>p d. deskPairLabel from to = Some p \<and> deskDirectionFor from to = Some d \<and>
        deskCoinsFor p (direction_text d) = Some (to_upper from, to_upper to))"
proof
  assume r: "isDeskRoutableFromRegistry from to"
  have up: "desk_of (to_upper x) = desk_of x" for x by simp
  have sym: "isDeskRoutableFromRegistry x y = isDeskRoutableFromRegistry y x" for x y
    unfolding isDeskRoutableFromRegistry_def by (auto split: option.splits)
  have k: "raw_role (to_upper x) = map_option fst (desk_of x)" for x
    by (simp add: raw_role_def desk_of_def asset_def)
  have rt: "isDeskRoutableFromRegistry (to_upper x) (to_upper y) = isDeskRoutableFromRegistry x y" for x y
    by (simp add: isDeskRoutableFromRegistry_def)
  have split: "splitDeskPair (to_upper x @ ''/'' @ to_upper y) = Some (to_upper x, to_upper y)"
    if "to_upper x \<in> {''XMR'', ''ZEPH''}" "to_upper y = ''ADA''" "map_option fst (desk_of x) = Some Follower"
      "map_option fst (desk_of y) = Some Leader" "isDeskRoutableFromRegistry x y" for x y
  proof -
    have "split_on (CHR ''/'') (to_upper (to_upper x @ ''/'' @ to_upper y)) = [to_upper x, to_upper y]"
      using that(1,2) by (auto simp: to_upper_def upper_char_def)
    then show ?thesis using that k [of x] k [of y] rt [of x y] by (simp add: splitDeskPair_def)
  qed
  from routable_pairs [OF r] show "\<exists>p d. deskPairLabel from to = Some p \<and> deskDirectionFor from to = Some d \<and>
        deskCoinsFor p (direction_text d) = Some (to_upper from, to_upper to)"
    using r split [of "from" to] split [of to "from"] sym [of to "from"]
    by (auto simp: deskPairLabel_def deskDirectionFor_def deskCoinsFor_def Let_def)
qed (auto simp: deskPairLabel_def split: if_splits)

text \<open>Amounts never swap sides: whatever the direction, the amount shown for the leader's coin is
  the desk's amount A and the amount shown for the follower's coin is its amount B.\<close>

theorem desk_amounts_follow_coins:
  "deskAmountsFor pair direction a b =
     map_option (\<lambda>(i, j). (if raw_role i = Some Leader then a else b, if raw_role j = Some Leader then a else b))
       (deskCoinsFor pair direction)"
proof (cases "splitDeskPair pair")
  case (Some legs)
  then have "raw_role (fst legs) = Some Follower" "raw_role (snd legs) = Some Leader"
    by (auto simp: splitDeskPair_def Let_def split: list.splits if_splits)
  with Some show ?thesis by (cases legs) (simp add: deskAmountsFor_def deskCoinsFor_def)
qed (simp add: deskAmountsFor_def deskCoinsFor_def)

text \<open>Every coin that NEAR Intents lists can be sent by the wallet: no entry of the registry has an
  asset id without an executor branch and a signer for its chain.\<close>

theorem listed_sources_executable:
  "isIntentsSourceExecutable t \<longleftrightarrow> (\<exists>c. asset t = Some c \<and> nearIntentsAsset c \<noteq> None)"
proof -
  have all: "list_all (\<lambda>(k, c). nearIntentsAsset c \<noteq> None \<longrightarrow>
      truthy (nearIntentsAsset c) \<and> chainKind c \<in> set INTENTS_EXECUTABLE_SOURCE_KINDS \<and>
      (signerInRustCore c \<or> tsSourceSigner c \<noteq> None)) REGISTRY_ENTRIES"
    by (simp add: REGISTRY_ENTRIES_def INTENTS_EXECUTABLE_SOURCE_KINDS_def)
  have "truthy (nearIntentsAsset c) \<and> chainKind c \<in> set INTENTS_EXECUTABLE_SOURCE_KINDS \<and>
      (signerInRustCore c \<or> tsSourceSigner c \<noteq> None)"
    if a: "asset t = Some c" and n: "nearIntentsAsset c \<noteq> None" for c
  proof -
    obtain d where "(to_upper t, d) \<in> set REGISTRY_ENTRIES"
        "nearIntentsAsset c = nearIntentsAsset d" "chainKind c = chainKind d"
        "signerInRustCore c = signerInRustCore d" "tsSourceSigner c = tsSourceSigner d"
      using table_entry [of "to_upper t" c] a unfolding asset_def
      by (auto split: option.splits)
    then show ?thesis using all n by (force simp: list_all_iff)
  qed
  then show ?thesis by (auto simp: isIntentsSourceExecutable_def elim!: truthyE split: option.splits)
qed

subsection \<open>The two tables agree\<close>

definition sc_brief :: "(string \<times> nat \<times> string \<times> bool) list" where
  "sc_brief = map (\<lambda>(n, s). (sc_chain n, sc_decimals n, symbol_text s, nearIntents n)) STABLECOIN_NETWORKS"

definition asset_brief :: "(string option \<times> nat \<times> string \<times> bool) list" where
  "asset_brief = map (\<lambda>(k, c). (walletsByChainKey c, decimals c, ticker c, nearIntentsAsset c \<noteq> None)) REGISTRY_ENTRIES"

lemma find_brief:
  "map_option (\<lambda>(n, s). (sc_decimals n, symbol_text s, nearIntents n))
      (List.find (\<lambda>(n, _). sc_chain n = ch) ns) =
   map_of (map (\<lambda>(n, s). (sc_chain n, sc_decimals n, symbol_text s, nearIntents n)) ns) ch"
  by (induction ns) auto

lemma brief_lookup:
  "map_of sc_brief ch = map_option (\<lambda>(n, s). (sc_decimals n, symbol_text s, nearIntents n)) (stablecoinNetworkFor ch)"
  unfolding sc_brief_def stablecoinNetworkFor_def find_brief ..

lemmas sc_brief_eval = sc_brief_def [unfolded STABLECOIN_NETWORKS_def STABLECOINS_def, simplified]
lemmas asset_brief_eval = asset_brief_def [unfolded REGISTRY_ENTRIES_def, simplified]

lemma brief_agree:
  "list_all (\<lambda>(k, d). case k of None \<Rightarrow> True | Some ch \<Rightarrow> map_of sc_brief ch = None \<or> map_of sc_brief ch = Some d) asset_brief"
  by (simp add: sc_brief_eval asset_brief_eval)

lemma brief_covered: "list_all (\<lambda>(ch, _). list_ex (\<lambda>(k, _). k = Some ch) asset_brief) sc_brief"
  by (simp add: sc_brief_eval asset_brief_eval)

lemma agree_entry:
  "case k of None \<Rightarrow> True | Some ch \<Rightarrow> map_of sc_brief ch = None \<or> map_of sc_brief ch = Some d \<Longrightarrow>
   map_option (\<lambda>(n, s). (sc_decimals n, symbol_text s, nearIntents n))
     (Option.bind k stablecoinNetworkFor) \<in> {None, Some d}"
  by (cases k) (simp_all add: brief_lookup)

text \<open>The asset registry and the stablecoin table agree: an entry held under a stablecoin's chain has
  the decimals, the symbol and the NEAR Intents listing of that network, and every network of the
  table has its entry. An amount is never scaled by the wrong table.\<close>

theorem registry_agrees_with_stablecoins:
  "list_all (\<lambda>(k, c). map_option (\<lambda>(n, s). (sc_decimals n, symbol_text s, nearIntents n))
        (Option.bind (walletsByChainKey c) stablecoinNetworkFor)
      \<in> {None, Some (decimals c, ticker c, nearIntentsAsset c \<noteq> None)}) REGISTRY_ENTRIES \<and>
   list_all (\<lambda>ch. list_ex (\<lambda>(_, c). walletsByChainKey c = Some ch) REGISTRY_ENTRIES) STABLECOIN_CHAINS"
proof
  show "list_all (\<lambda>(k, c). map_option (\<lambda>(n, s). (sc_decimals n, symbol_text s, nearIntents n))
        (Option.bind (walletsByChainKey c) stablecoinNetworkFor)
      \<in> {None, Some (decimals c, ticker c, nearIntentsAsset c \<noteq> None)}) REGISTRY_ENTRIES"
    using brief_agree unfolding asset_brief_def list.pred_map comp_def
    by (rule list.pred_mono_strong) (simp only: case_prod_beta fst_conv snd_conv agree_entry)
  show "list_all (\<lambda>ch. list_ex (\<lambda>(_, c). walletsByChainKey c = Some ch) REGISTRY_ENTRIES) STABLECOIN_CHAINS"
    using brief_covered unfolding asset_brief_def sc_brief_def STABLECOIN_CHAINS_def list.pred_map list_ex_iff comp_def
    by (rule list.pred_mono_strong) (auto simp: case_prod_beta)
qed

end
