(* ===== verification/SwapHistory.thy ===== *)
theory SwapHistory
  imports Assets DecimalAmount Interfaces "HOL-Library.List_Lexorder" "HOL-Library.Char_ord"
begin

section \<open>The swap history: features/swap/swap-history-store.ts\<close>

text \<open>
  The rows of the swap history, the writers that change them and the queue that serialises the
  writers. A row is an object: a map from its properties to their values, where a property may be
  present and \<open>undefined\<close> (None). Rows reach the store as JSON, which drops such properties.
  \<open>Date.parse\<close> is a parameter, because what it accepts beside the ISO format is up to the engine.
\<close>

subsection \<open>Rows\<close>

datatype SwapHistoryStatus = StPending | StSuccess | StRefunded | StFailed

fun status_text :: "SwapHistoryStatus \<Rightarrow> string" where
  "status_text StPending = ''pending''"
| "status_text StSuccess = ''success''"
| "status_text StRefunded = ''refunded''"
| "status_text StFailed = ''failed''"

datatype SwapHistoryEntry =
    F_id | F_fromAsset | F_toAsset | F_fromAmount | F_toAmount | F_actualReceived
  | F_actualReceivedAt | F_status | F_sourceTxHash | F_destTxHash | F_sourceExplorerUrl
  | F_destExplorerUrl | F_provider | F_createdAt | F_completedAt | F_depositAddress
  | F_depositMemo | F_depositDeadline | F_outcomeUnknown | F_failureReason | F_minReceived
  | F_recipient | F_refundTo | F_bidId | F_offerId | F_bidState | F_bidLeg | F_bidRole
  | F_payoutTo | F_bidTxns

type_synonym row = "SwapHistoryEntry \<rightharpoonup> json option"

definition FIELDS :: "SwapHistoryEntry list" where
  "FIELDS = [F_id, F_fromAsset, F_toAsset, F_fromAmount, F_toAmount, F_actualReceived, F_actualReceivedAt,
     F_status, F_sourceTxHash, F_destTxHash, F_sourceExplorerUrl, F_destExplorerUrl, F_provider, F_createdAt,
     F_completedAt, F_depositAddress, F_depositMemo, F_depositDeadline, F_outcomeUnknown, F_failureReason,
     F_minReceived, F_recipient, F_refundTo, F_bidId, F_offerId, F_bidState, F_bidLeg, F_bidRole,
     F_payoutTo, F_bidTxns]"

text \<open>\<open>Object.keys(patch).length === 0\<close>\<close>

definition no_keys :: "row \<Rightarrow> bool" where "no_keys p = list_all (\<lambda>f. p f = None) FIELDS"

lemma FIELDS_all: "f \<in> set FIELDS" by (cases f) (simp_all add: FIELDS_def)

lemma no_keys_iff: "no_keys p \<longleftrightarrow> p = Map.empty"
  using FIELDS_all by (auto simp: no_keys_def list_all_iff)

text \<open>Reading a property: \<open>undefined\<close> where it is absent. Spreading a patch over a row is \<open>++\<close>.\<close>

definition prop_of :: "row \<Rightarrow> SwapHistoryEntry \<Rightarrow> json option" where
  "prop_of r f = coalesce (r f) None"

definition text_of :: "row \<Rightarrow> SwapHistoryEntry \<Rightarrow> string option" where
  "text_of r f = jstr (prop_of r f)"

definition persisted :: "row \<Rightarrow> row" where
  "persisted r = (\<lambda>f. if r f = Some None then None else r f)"

lemma prop_of_persisted [simp]: "prop_of (persisted r) f = prop_of r f"
  by (simp add: prop_of_def persisted_def)

lemma prop_of_spread: "prop_of (r ++ p) f = (case p f of Some v \<Rightarrow> v | None \<Rightarrow> prop_of r f)"
  by (simp add: prop_of_def map_add_def split: option.split)

subsection \<open>Drift\<close>

definition computeDriftFraction :: "string option \<Rightarrow> string option \<Rightarrow> rat option" where
  "computeDriftFraction expected actual =
     (if \<not> truthy expected \<or> \<not> truthy actual then None
      else case (js_number (the expected), js_number (the actual)) of
             (Some e, Some a) \<Rightarrow> if e \<le> 0 then None else Some ((a - e) / e)
           | _ \<Rightarrow> None)"

datatype DriftTone = Neutral | Warn | Bad

definition driftTone :: "rat option \<Rightarrow> DriftTone option" where
  "driftTone fraction =
     (case fraction of
        None \<Rightarrow> None
      | Some f \<Rightarrow> if \<bar>f\<bar> \<le> 2 / 100 then Some Neutral
                  else if \<bar>f\<bar> \<le> 5 / 100 then Some Warn else Some Bad)"

definition formatDriftPercent :: "rat option \<Rightarrow> string" where
  "formatDriftPercent fraction =
     (case fraction of
        None \<Rightarrow> []
      | Some f \<Rightarrow> let pct = f * 100
                  in (if 0 \<le> pct then ''+'' else []) @ to_fixed 1 pct @ ''%'')"

subsection \<open>Reading\<close>

definition LEGACY_AMOUNT_CUTOFF_MS :: rat where "LEGACY_AMOUNT_CUTOFF_MS = 1779148800000"

definition normalizeLegacyAmounts :: "(string \<Rightarrow> rat option) \<Rightarrow> row \<Rightarrow> row" where
  "normalizeLegacyAmounts dateParse r =
     (case dateParse (coalesce (text_of r F_createdAt) []) of
        None \<Rightarrow> r
      | Some created \<Rightarrow>
          if LEGACY_AMOUNT_CUTOFF_MS \<le> created then r
          else let amount = coalesce (text_of r F_toAmount) []
               in if amount = [] \<or> \<not> list_all is_digit amount then r
                  else case map_option decimals (asset (coalesce (text_of r F_toAsset) [])) of
                         None \<Rightarrow> r
                       | Some d \<Rightarrow>
                           if d = 0 then r
                           else r(F_toAmount \<mapsto> Some (JStr (atomicToDecimal (int (str_nat amount)) d))))"

definition created_at :: "row \<Rightarrow> string" where
  "created_at r = coalesce (text_of r F_createdAt) []"

definition loadSwapHistory :: "(string \<Rightarrow> rat option) \<Rightarrow> row list option \<Rightarrow> row list" where
  "loadSwapHistory dateParse saved =
     sort_by (\<lambda>a b. created_at b < created_at a)
       (map (normalizeLegacyAmounts dateParse) (coalesce saved []))"

subsection \<open>Writers\<close>

text \<open>What a writer makes of the rows it reads; None where it decides not to write.\<close>

datatype history_write =
    Append row
  | Update string "row"
  | Upsert row
  | Modify "row list \<Rightarrow> row list option"

definition same_id :: "row \<Rightarrow> row \<Rightarrow> bool" where
  "same_id a b = (prop_of a F_id = prop_of b F_id)"

definition appendSwapHistory :: "row \<Rightarrow> row list \<Rightarrow> row list" where
  "appendSwapHistory entry existing = take 200 (entry # filter (\<lambda>e. \<not> same_id e entry) existing)"

definition updateSwapHistoryEntry :: "string \<Rightarrow> row \<Rightarrow> row list \<Rightarrow> row list" where
  "updateSwapHistoryEntry i patch existing =
     map (\<lambda>e. if prop_of e F_id = Some (JStr i) then e ++ patch else e) existing"

definition upsertSwapHistoryEntry :: "row \<Rightarrow> row list \<Rightarrow> row list" where
  "upsertSwapHistoryEntry entry existing =
     (let prior = List.find (\<lambda>e. same_id e entry) existing;
          merged = (case prior of Some p \<Rightarrow> p ++ entry | None \<Rightarrow> entry)
      in take 200 (merged # filter (\<lambda>e. \<not> same_id e entry) existing))"

definition modifySwapHistory :: "(row list \<Rightarrow> row list option) \<Rightarrow> row list \<Rightarrow> row list option" where
  "modifySwapHistory f existing = map_option (take 200) (f existing)"

fun apply_write :: "history_write \<Rightarrow> row list \<Rightarrow> row list option" where
  "apply_write (Append e) rs = Some (appendSwapHistory e rs)"
| "apply_write (Update i p) rs = Some (updateSwapHistoryEntry i p rs)"
| "apply_write (Upsert e) rs = Some (upsertSwapHistoryEntry e rs)"
| "apply_write (Modify f) rs = modifySwapHistory f rs"

subsection \<open>The write queue\<close>

text \<open>
  One writer runs at a time: it reads the rows, sets the new ones and saves the file, and each of
  the three may fail. The others wait in the chain of promises. A write that fails at the save has
  already replaced the rows the next reader gets. The settled promises are kept with their
  outcome, and the number of times the listeners were told.
\<close>

datatype outcome = Wrote | NothingToWrite | FailedUnchanged | FailedAfterSet

datatype queue_phase =
    Idle
  | Reading history_write
  | Setting history_write "row list"
  | Saving history_write

record write_queue =
  saved :: "row list option"
  phase :: queue_phase
  waiting :: "history_write list"
  settled :: "(history_write \<times> outcome) list"
  told :: nat

datatype queue_event = Enqueue history_write | Advance | Fail

definition settle :: "history_write \<Rightarrow> outcome \<Rightarrow> write_queue \<Rightarrow> write_queue" where
  "settle w r s = s\<lparr>phase := Idle, settled := settled s @ [(w, r)]\<rparr>"

fun enqueueWrite :: "write_queue \<Rightarrow> queue_event \<Rightarrow> write_queue" where
  "enqueueWrite s (Enqueue w) = s\<lparr>waiting := waiting s @ [w]\<rparr>"
| "enqueueWrite s Advance =
     (case phase s of
        Idle \<Rightarrow> (case waiting s of [] \<Rightarrow> s | w # ws \<Rightarrow> s\<lparr>phase := Reading w, waiting := ws\<rparr>)
      | Reading w \<Rightarrow>
          (case apply_write w (coalesce (saved s) []) of
             None \<Rightarrow> settle w NothingToWrite s
           | Some next \<Rightarrow> s\<lparr>phase := Setting w next\<rparr>)
      | Setting w next \<Rightarrow> s\<lparr>phase := Saving w, saved := Some (map persisted next)\<rparr>
      | Saving w \<Rightarrow> (settle w Wrote s)\<lparr>told := told s + 1\<rparr>)"
| "enqueueWrite s Fail =
     (case phase s of
        Idle \<Rightarrow> s
      | Reading w \<Rightarrow> settle w FailedUnchanged s
      | Setting w _ \<Rightarrow> settle w FailedUnchanged s
      | Saving w \<Rightarrow> settle w FailedAfterSet s)"

definition queue_start :: "row list option \<Rightarrow> write_queue" where
  "queue_start rows = \<lparr>saved = rows, phase = Idle, waiting = [], settled = [], told = 0\<rparr>"

subsection \<open>The desk's states\<close>

definition deskStateToHistoryStatus :: "string \<Rightarrow> SwapHistoryStatus" where
  "deskStateToHistoryStatus state =
     (if state = ''SETTLED'' then StSuccess
      else if state = ''A_REFUNDED'' then StRefunded
      else if state = ''FAILED'' \<or> state = ''ABORTED'' then StFailed
      else StPending)"

subsection \<open>The queue refines one writer after another\<close>

text \<open>The abstract specification: a settled write takes effect at once, on the rows its predecessors
  left; one that failed before the rows were set, or had nothing to write, has no effect.\<close>

definition effect :: "row list option \<Rightarrow> history_write \<times> outcome \<Rightarrow> row list option" where
  "effect rows e =
     (if snd e = Wrote \<or> snd e = FailedAfterSet
      then (case apply_write (fst e) (coalesce rows []) of
              None \<Rightarrow> rows | Some next \<Rightarrow> Some (map persisted next))
      else rows)"

definition in_flight :: "queue_phase \<Rightarrow> history_write list" where
  "in_flight p = (case p of Idle \<Rightarrow> [] | Reading w \<Rightarrow> [w] | Setting w _ \<Rightarrow> [w] | Saving w \<Rightarrow> [w])"

definition unsettled :: "queue_phase \<Rightarrow> (history_write \<times> outcome) list" where
  "unsettled p = (case p of Saving w \<Rightarrow> [(w, Wrote)] | _ \<Rightarrow> [])"

text \<open>Between the read and the set no other write comes in: what is about to be set is what the
  writer makes of the rows that are saved now.\<close>

definition queue_good :: "row list option \<Rightarrow> write_queue \<Rightarrow> bool" where
  "queue_good rows s \<longleftrightarrow>
     saved s = foldl effect rows (settled s @ unsettled (phase s)) \<and>
     (\<forall>w next. phase s = Setting w next \<longrightarrow> apply_write w (coalesce (saved s) []) = Some next) \<and>
     told s = length (filter (\<lambda>e. snd e = Wrote) (settled s))"

lemma effect_simps [simp]:
  "effect rows (w, NothingToWrite) = rows" "effect rows (w, FailedUnchanged) = rows"
  "effect rows (w, FailedAfterSet) = effect rows (w, Wrote)"
  by (simp_all add: effect_def)

interpretation history_queue: event_machine enqueueWrite "queue_good rows" for rows
proof
  show "queue_good rows (enqueueWrite s e)" if "queue_good rows s" for s e
    using that
    by (cases e; cases "phase s")
      (auto simp: queue_good_def unsettled_def settle_def effect_def split: list.split option.split)
qed

lemma queue_run_good: "queue_good rows (foldl enqueueWrite (queue_start rows) es)"
  by (rule history_queue.run_good) (simp add: queue_good_def queue_start_def unsettled_def)

fun enqueued :: "queue_event list \<Rightarrow> history_write list" where
  "enqueued [] = []"
| "enqueued (Enqueue w # es) = w # enqueued es"
| "enqueued (_ # es) = enqueued es"

lemma queue_order:
  "map fst (settled (foldl enqueueWrite s es)) @ in_flight (phase (foldl enqueueWrite s es)) @
     waiting (foldl enqueueWrite s es) =
   map fst (settled s) @ in_flight (phase s) @ waiting s @ enqueued es"
proof (induction es arbitrary: s)
  case (Cons e es)
  show ?case unfolding foldl_Cons Cons.IH
    by (cases e; cases "phase s")
      (auto simp: in_flight_def settle_def split: list.split option.split)
qed simp

text \<open>C4. Overlapping writes lose nothing. Whatever the order in which writes are asked for, run and
  fail, they take effect one after another in the order they were asked for, each on the rows that
  its predecessors left; none is dropped, run twice or overtaken; and the listeners are told once
  for each write that was committed.\<close>

theorem history_writes_serialised:
  "saved (foldl enqueueWrite (queue_start rows) es) =
     foldl effect rows (settled (foldl enqueueWrite (queue_start rows) es) @
       unsettled (phase (foldl enqueueWrite (queue_start rows) es))) \<and>
   map fst (settled (foldl enqueueWrite (queue_start rows) es)) @
     in_flight (phase (foldl enqueueWrite (queue_start rows) es)) @
     waiting (foldl enqueueWrite (queue_start rows) es) = enqueued es \<and>
   told (foldl enqueueWrite (queue_start rows) es) =
     length (filter (\<lambda>e. snd e = Wrote) (settled (foldl enqueueWrite (queue_start rows) es)))"
  using queue_run_good [of rows es] queue_order [of "queue_start rows" es]
  by (simp add: queue_good_def queue_start_def in_flight_def)

subsection \<open>One row per swap\<close>

definition row_id :: "row \<Rightarrow> json option" where "row_id r = prop_of r F_id"

lemma same_id_row_id: "same_id a b = (row_id a = row_id b)" by (simp add: same_id_def row_id_def)

interpretation append_rows: keyed_rows row_id appendSwapHistory 200
  by unfold_locales (auto simp: appendSwapHistory_def same_id_row_id take_Cons' intro: exI [of _ 199])

lemma merged_id:
  "row_id (case List.find (\<lambda>e. same_id e entry) rows of Some p \<Rightarrow> p ++ entry | None \<Rightarrow> entry) = row_id entry"
  by (auto simp: row_id_def prop_of_spread same_id_def dest!: find_SomeD split: option.split)
    (simp add: prop_of_def)

interpretation upsert_rows: keyed_rows row_id upsertSwapHistoryEntry 200
proof
  fix r rows
  let ?m = "case List.find (\<lambda>e. same_id e r) rows of Some p \<Rightarrow> p ++ r | None \<Rightarrow> r"
  have u: "upsertSwapHistoryEntry r rows = ?m # take 199 (filter (\<lambda>e. \<not> same_id e r) rows)"
    by (simp add: upsertSwapHistoryEntry_def Let_def take_Cons')
  show "\<exists>r' rest. upsertSwapHistoryEntry r rows = r' # rest \<and> row_id r' = row_id r"
    unfolding u using merged_id by blast
  show "\<exists>n. tl (upsertSwapHistoryEntry r rows) = take n (filter (\<lambda>x. row_id x \<noteq> row_id r) rows)"
    unfolding u by (auto simp: same_id_row_id)
  show "length (upsertSwapHistoryEntry r rows) \<le> 200" unfolding u by simp
qed

definition history_wf :: "row list \<Rightarrow> bool" where
  "history_wf rs \<longleftrightarrow> distinct (map row_id rs) \<and> length rs \<le> 200"

text \<open>The writers the app uses: a patch that leaves the id alone, a change of the list that keeps ids
  distinct.\<close>

fun well_behaved :: "history_write \<Rightarrow> bool" where
  "well_behaved (Append _) = True"
| "well_behaved (Update _ p) = (p F_id = None)"
| "well_behaved (Upsert _) = True"
| "well_behaved (Modify f) = (\<forall>rs rs'. history_wf rs \<longrightarrow> f rs = Some rs' \<longrightarrow> distinct (map row_id rs'))"

lemma row_id_simps [simp]: "row_id (persisted r) = row_id r" "p F_id = None \<Longrightarrow> row_id (r ++ p) = row_id r"
  by (simp_all add: row_id_def prop_of_spread)

lemma apply_write_wf:
  assumes "well_behaved w" "history_wf rs" "apply_write w rs = Some next"
  shows "history_wf next"
proof (cases w)
  case (Append e)
  then show ?thesis using assms append_rows.put_distinct append_rows.put_limit by (auto simp: history_wf_def)
next
  case (Update i p)
  then have "map row_id next = map row_id rs" using assms by (auto simp: updateSwapHistoryEntry_def)
  then show ?thesis using assms(2) unfolding history_wf_def by (metis length_map)
next
  case (Upsert e)
  then show ?thesis using assms upsert_rows.put_distinct upsert_rows.put_limit by (auto simp: history_wf_def)
next
  case (Modify f)
  then obtain rs' where "f rs = Some rs'" "next = take 200 rs'"
    using assms(3) by (auto simp: modifySwapHistory_def)
  then show ?thesis using Modify assms(1,2) by (auto simp: history_wf_def take_map [symmetric])
qed

lemma effect_wf:
  assumes "well_behaved (fst e)" "history_wf (coalesce rows [])"
  shows "history_wf (coalesce (effect rows e) [])"
proof -
  have "history_wf (map persisted next) = history_wf next" for "next"
    by (simp add: history_wf_def comp_def)
  then show ?thesis using assms apply_write_wf by (auto simp: effect_def split: option.split)
qed

lemma effects_wf:
  "\<lbrakk>\<forall>e \<in> set es. well_behaved (fst e); history_wf (coalesce rows [])\<rbrakk> \<Longrightarrow>
   history_wf (coalesce (foldl effect rows es) [])"
  by (induction es arbitrary: rows) (auto simp: effect_wf)

text \<open>C34. At every moment, whatever writes overlap and fail, the saved history has at most one row for
  each swap and at most two hundred rows.\<close>

theorem history_stays_well_formed:
  assumes "history_wf (coalesce rows [])" "\<forall>w \<in> set (enqueued es). well_behaved w"
  shows "history_wf (coalesce (saved (foldl enqueueWrite (queue_start rows) es)) [])"
proof -
  let ?s = "foldl enqueueWrite (queue_start rows) es"
  have o: "enqueued es = map fst (settled ?s) @ in_flight (phase ?s) @ waiting ?s"
    using queue_order [of "queue_start rows" es] by (simp add: queue_start_def in_flight_def)
  have "set (map fst (unsettled p)) \<subseteq> set (in_flight p)" for p
    by (cases p) (simp_all add: unsettled_def in_flight_def)
  then have "\<forall>e \<in> set (settled ?s @ unsettled (phase ?s)). well_behaved (fst e)"
    using assms(2) unfolding o by auto
  then have "history_wf (coalesce (foldl effect rows (settled ?s @ unsettled (phase ?s))) [])"
    using assms(1) by (rule effects_wf)
  then show ?thesis using queue_run_good [of rows es] by (simp add: queue_good_def)
qed

definition demo_row :: "string \<Rightarrow> row" where "demo_row i = [F_id \<mapsto> Some (JStr i)]"

theorem history_stays_well_formed_witness:
  "history_wf (coalesce (saved (foldl enqueueWrite (queue_start None)
     [Enqueue (Append (demo_row ''a'')), Advance, Enqueue (Upsert (demo_row ''a'')), Advance, Advance, Fail,
      Advance, Advance])) [])"
  by (rule history_stays_well_formed) (simp_all add: history_wf_def)

text \<open>An upsert changes what it names and nothing else: the row of that swap has each property the
  entry has, and its earlier value where the entry has none; the other rows are the same rows in
  the same order, the oldest dropping off past two hundred.\<close>

theorem upsert_merges:
  "\<exists>r. List.find (\<lambda>e. row_id e = row_id entry) (upsertSwapHistoryEntry entry rows) = Some r \<and>
     (\<forall>f. prop_of r f = (case entry f of Some v \<Rightarrow> v
        | None \<Rightarrow> Option.bind (List.find (\<lambda>e. row_id e = row_id entry) rows) (\<lambda>p. prop_of p f))) \<and>
     filter (\<lambda>e. row_id e \<noteq> row_id entry) (upsertSwapHistoryEntry entry rows) =
       take 199 (filter (\<lambda>e. row_id e \<noteq> row_id entry) rows)"
proof -
  let ?m = "case List.find (\<lambda>e. same_id e entry) rows of Some p \<Rightarrow> p ++ entry | None \<Rightarrow> entry"
  have m: "row_id ?m = row_id entry" by (rule merged_id)
  have "prop_of ?m f = (case entry f of Some v \<Rightarrow> v
        | None \<Rightarrow> Option.bind (List.find (\<lambda>e. row_id e = row_id entry) rows) (\<lambda>p. prop_of p f))" for f
    by (auto simp: prop_of_spread same_id_row_id split: option.split) (simp_all add: prop_of_def)
  moreover have "filter (\<lambda>e. row_id e \<noteq> row_id entry) (take 199 (filter (\<lambda>e. row_id e \<noteq> row_id entry) rows)) =
      take 199 (filter (\<lambda>e. row_id e \<noteq> row_id entry) rows)"
    by (rule filter_True) (auto dest: in_set_takeD)
  ultimately show ?thesis using m
    by (simp add: upsertSwapHistoryEntry_def Let_def take_Cons' same_id_row_id)
qed

end
