(* ===== verification/IntentsDeposits.thy ===== *)
theory IntentsDeposits
  imports Interfaces
begin

section \<open>One quote, one deposit: features/swap/intents-attempts.ts\<close>

text \<open>
  The module's map from deposit keys to attempts, and the three operations on it. The map is the
  state; a claim that throws is the error \<open>IntentsQuoteAlreadyUsedError\<close> with the attempt it
  carries. A memo is a string, or None for null and undefined.
\<close>

datatype IntentsDepositRef =
    BareAddress string
  | AddressAndMemo string "string option"

datatype attempt_state = Claimed | Broadcast | OutcomeUnknown | Retired

record IntentsDepositAttempt =
  depositAddress :: string
  depositMemo :: "string option"
  at_time :: int
  txHash :: "string option"
  attempt_state :: attempt_state

type_synonym attempts = "string \<rightharpoonup> IntentsDepositAttempt"

datatype IntentsQuoteAlreadyUsedError = AlreadyUsed IntentsDepositAttempt

definition memoOf :: "string option \<Rightarrow> string option" where
  "memoOf m = (if m = None \<or> m = Some [] then None else m)"

text \<open>\<open>/^0x[0-9a-fA-F]+$/\<close>\<close>

definition is_hex_digit :: "char \<Rightarrow> bool" where
  "is_hex_digit c = (let n = of_char c :: nat
     in 48 \<le> n \<and> n \<le> 57 \<or> 65 \<le> n \<and> n \<le> 70 \<or> 97 \<le> n \<and> n \<le> 102)"

definition hex_address :: "string \<Rightarrow> bool" where
  "hex_address a = (take 2 a = ''0x'' \<and> drop 2 a \<noteq> [] \<and> list_all is_hex_digit (drop 2 a))"

definition norm_address :: "string \<Rightarrow> string" where
  "norm_address depositAddr =
     (let a = js_trim depositAddr in if hex_address a then to_lower a else a)"

definition intentsDepositKey :: "string \<Rightarrow> string option \<Rightarrow> string" where
  "intentsDepositKey depositAddr memo =
     (let addr = norm_address depositAddr
      in case memoOf memo of
           None \<Rightarrow> addr
         | Some m \<Rightarrow> addr @ [CHR 0x00] @ ''memo'' @ [CHR 0x00] @ m)"

fun refOf :: "IntentsDepositRef \<Rightarrow> string \<times> string option" where
  "refOf (BareAddress a) = (a, None)"
| "refOf (AddressAndMemo a m) = (a, memoOf m)"

definition ref_key :: "IntentsDepositRef \<Rightarrow> string" where
  "ref_key ref = intentsDepositKey (fst (refOf ref)) (snd (refOf ref))"

definition intentsDepositAttempt :: "IntentsDepositRef option \<Rightarrow> attempts \<Rightarrow> IntentsDepositAttempt option" where
  "intentsDepositAttempt ref attempts =
     (case ref of
        None \<Rightarrow> None
      | Some (BareAddress []) \<Rightarrow> None
      | Some r \<Rightarrow> if fst (refOf r) = [] then None else attempts (ref_key r))"

definition isIntentsDepositUsed :: "IntentsDepositRef option \<Rightarrow> attempts \<Rightarrow> bool" where
  "isIntentsDepositUsed ref attempts = (intentsDepositAttempt ref attempts \<noteq> None)"

definition claimIntentsDeposit ::
    "IntentsDepositRef \<Rightarrow> int \<Rightarrow> attempts \<Rightarrow>
     (IntentsQuoteAlreadyUsedError + IntentsDepositAttempt) \<times> attempts" where
  "claimIntentsDeposit ref now attempts =
     (let key = ref_key ref
      in case attempts key of
           Some prior \<Rightarrow> (Inl (AlreadyUsed prior), attempts)
         | None \<Rightarrow>
             let rec = \<lparr>depositAddress = fst (refOf ref), depositMemo = snd (refOf ref), at_time = now,
                        txHash = None, attempt_state = Claimed\<rparr>
             in (Inr rec, attempts(key \<mapsto> rec)))"

definition recordIntentsDeposit ::
    "IntentsDepositRef \<Rightarrow> attempt_state \<Rightarrow> string option \<Rightarrow> int \<Rightarrow> attempts \<Rightarrow>
     IntentsDepositAttempt \<times> attempts" where
  "recordIntentsDeposit ref patchState patchHash now attempts =
     (let key = ref_key ref;
          prior = attempts key;
          rec = \<lparr>depositAddress = coalesce (map_option depositAddress prior) (fst (refOf ref)),
                 depositMemo = or_else (Option.bind prior depositMemo) (snd (refOf ref)),
                 at_time = coalesce (map_option at_time prior) now,
                 txHash = or_else patchHash (Option.bind prior txHash),
                 attempt_state =
                   (case prior of
                      Some p \<Rightarrow> if patchState = Retired \<and> attempt_state p \<noteq> Claimed \<and> attempt_state p \<noteq> Retired
                                then attempt_state p else patchState
                    | None \<Rightarrow> patchState)\<rparr>
      in (rec, attempts(key \<mapsto> rec)))"

subsection \<open>Runs\<close>

datatype deposit_event =
    Claim IntentsDepositRef int
  | Record IntentsDepositRef attempt_state "string option" int

fun event_ref :: "deposit_event \<Rightarrow> IntentsDepositRef" where
  "event_ref (Claim ref _) = ref"
| "event_ref (Record ref _ _ _) = ref"

fun deposit_step :: "attempts \<Rightarrow> deposit_event \<Rightarrow> attempts" where
  "deposit_step s (Claim ref now) = snd (claimIntentsDeposit ref now s)"
| "deposit_step s (Record ref st h now) = snd (recordIntentsDeposit ref st h now s)"

text \<open>Every stored memo is a real one, so that \<open>??\<close> on it means what it says.\<close>

definition good_attempts :: "attempts \<Rightarrow> bool" where
  "good_attempts s = (\<forall>k a. s k = Some a \<longrightarrow> depositMemo a \<noteq> Some [])"

lemma memoOf_simps [simp]: "memoOf None = None" "memoOf m \<noteq> Some []" "memoOf (memoOf m) = memoOf m"
  by (auto simp: memoOf_def)

lemma refOf_memo [simp]: "snd (refOf r) \<noteq> Some []" "memoOf (snd (refOf r)) = snd (refOf r)"
  by (cases r; simp)+

interpretation deposits: event_machine deposit_step good_attempts
proof
  fix s e assume g: "good_attempts s"
  have b: "Option.bind (s k) depositMemo \<noteq> Some []" for k
    using g by (cases "s k") (auto simp: good_attempts_def)
  show "good_attempts (deposit_step s e)"
    using g b by (cases e) (auto simp: good_attempts_def claimIntentsDeposit_def recordIntentsDeposit_def
      Let_def or_else_def split: option.splits)
qed

lemma dom_deposit_step: "dom (deposit_step s e) = insert (ref_key (event_ref e)) (dom s)"
  by (cases e) (auto simp: claimIntentsDeposit_def recordIntentsDeposit_def Let_def split: option.splits)

lemma dom_deposit_run:
  "dom (foldl deposit_step s es) = dom s \<union> (ref_key \<circ> event_ref) ` set es"
  by (induction es arbitrary: s) (auto simp: dom_deposit_step)

lemma claim_succeeds_iff:
  "(\<exists>a. fst (claimIntentsDeposit ref now s) = Inr a) \<longleftrightarrow> ref_key ref \<notin> dom s"
  by (auto simp: claimIntentsDeposit_def Let_def split: option.splits)

text \<open>C12. One quote is paid at most once. After any history of claims and records, a claim is granted
  exactly when nothing in that history touched the same deposit; a refused claim changes nothing.\<close>

theorem claim_granted_iff:
  "((\<exists>a. fst (claimIntentsDeposit ref now (foldl deposit_step Map.empty es)) = Inr a) \<longleftrightarrow>
      ref_key ref \<notin> (ref_key \<circ> event_ref) ` set es) \<and>
   (ref_key ref \<in> (ref_key \<circ> event_ref) ` set es \<longleftrightarrow>
      snd (claimIntentsDeposit ref now (foldl deposit_step Map.empty es)) = foldl deposit_step Map.empty es)"
proof -
  let ?s = "foldl deposit_step Map.empty es"
  have d: "dom ?s = (ref_key \<circ> event_ref) ` set es" by (simp add: dom_deposit_run)
  have "ref_key ref \<in> dom ?s \<longleftrightarrow> snd (claimIntentsDeposit ref now ?s) = ?s"
  proof (cases "?s (ref_key ref)")
    case None
    then have "snd (claimIntentsDeposit ref now ?s) (ref_key ref) \<noteq> ?s (ref_key ref)"
      by (simp add: claimIntentsDeposit_def Let_def)
    with None show ?thesis by (metis domIff)
  qed (auto simp: claimIntentsDeposit_def)
  then show ?thesis unfolding claim_succeeds_iff d by simp
qed

subsection \<open>Which deposits share a key\<close>

lemma lower_char_no_nul: "lower_char c = CHR 0x00 \<longleftrightarrow> c = CHR 0x00"
proof -
  have "char_of (n + 32) \<noteq> CHR 0x00" if "n \<le> 90" for n :: nat
  proof
    assume "char_of (n + 32) = CHR 0x00"
    then have "of_char (char_of (n + 32) :: char) = (of_char (CHR 0x00) :: nat)" by simp
    then show False using that by (simp add: of_char_char_of_ascii)
  qed
  then show ?thesis by (auto simp: lower_char_def Let_def)
qed

lemma to_lower_no_nul: "CHR 0x00 \<notin> set s \<Longrightarrow> CHR 0x00 \<notin> set (to_lower s)"
  by (auto simp: to_lower_def dest: arg_cong [where f = "\<lambda>c. c = CHR 0x00"] simp: lower_char_no_nul)

lemma js_trim_subset: "set (js_trim s) \<subseteq> set s"
  unfolding js_trim_def by (auto dest!: set_dropWhileD)

lemma norm_no_nul: "CHR 0x00 \<notin> set a \<Longrightarrow> CHR 0x00 \<notin> set (norm_address a)"
  using js_trim_subset [of a] to_lower_no_nul [of "js_trim a"]
  by (auto simp: norm_address_def Let_def)

lemma split_at_sep:
  "x \<notin> set a \<Longrightarrow> x \<notin> set b \<Longrightarrow> a @ x # r = b @ x # s \<longleftrightarrow> a = b \<and> r = s"
proof (induction a arbitrary: b)
  case Nil
  then show ?case by (cases b) auto
next
  case (Cons y a)
  then show ?case by (cases b) auto
qed

text \<open>Two deposits share a key exactly when they have the same memo and the same address, compared
  without case only for hexadecimal addresses. An address plus a memo never collides with a bare
  address: two Stellar quotes to the shared address stay two deposits.\<close>

theorem deposit_key_injective:
  assumes "CHR 0x00 \<notin> set a" "CHR 0x00 \<notin> set b"
  shows "intentsDepositKey a m = intentsDepositKey b n \<longleftrightarrow>
    norm_address a = norm_address b \<and> memoOf m = memoOf n"
proof -
  note n = norm_no_nul [OF assms(1)] norm_no_nul [OF assms(2)]
  have k: "intentsDepositKey x u = (case memoOf u of None \<Rightarrow> norm_address x
      | Some t \<Rightarrow> norm_address x @ CHR 0x00 # ''memo'' @ [CHR 0x00] @ t)" for x u
    by (simp add: intentsDepositKey_def Let_def split: option.split)
  have ne: "norm_address x \<noteq> y @ CHR 0x00 # r" if "CHR 0x00 \<notin> set (norm_address x)" for x y r
    using that by (metis in_set_conv_decomp)
  show ?thesis
  proof (cases "memoOf m")
    case None
    then show ?thesis using ne [OF n(1)] by (cases "memoOf n") (simp_all add: k)
  next
    case (Some t)
    then show ?thesis using ne [OF n(2), THEN not_sym] split_at_sep [OF n]
      by (cases "memoOf n") (auto simp: k)
  qed
qed

theorem deposit_key_injective_witness:
  "intentsDepositKey ''GSHARED'' (Some ''17'') \<noteq> intentsDepositKey ''GSHARED'' (Some ''18'')"
  using deposit_key_injective [of "''GSHARED''" "''GSHARED''" "Some ''17''" "Some ''18''"]
  by (simp add: memoOf_def)

subsection \<open>What a record keeps\<close>

definition may_be_out :: "IntentsDepositAttempt \<Rightarrow> bool" where
  "may_be_out a = (attempt_state a = Broadcast \<or> attempt_state a = OutcomeUnknown)"

definition keeps_evidence :: "IntentsDepositAttempt \<Rightarrow> IntentsDepositAttempt \<Rightarrow> bool" where
  "keeps_evidence a b \<longleftrightarrow>
     depositAddress b = depositAddress a \<and> at_time b = at_time a \<and>
     (depositMemo a = None \<or> depositMemo b = depositMemo a) \<and>
     (txHash a = None \<or> txHash b \<noteq> None) \<and> (may_be_out a \<longrightarrow> may_be_out b)"

fun reclaims :: "deposit_event \<Rightarrow> bool" where
  "reclaims (Record _ Claimed _ _) = True"
| "reclaims _ = False"

lemma keeps_evidence_refl: "keeps_evidence a a"
  by (cases "txHash a") (simp_all add: keeps_evidence_def)

lemma keeps_evidence_trans: "keeps_evidence a b \<Longrightarrow> keeps_evidence b c \<Longrightarrow> keeps_evidence a c"
  by (auto simp: keeps_evidence_def)

lemma step_keeps_evidence:
  assumes "s k = Some a" "\<not> reclaims e"
  shows "\<exists>b. deposit_step s e k = Some b \<and> keeps_evidence a b"
proof (cases e)
  case (Claim ref now)
  then show ?thesis using assms(1) keeps_evidence_refl
    by (auto simp: claimIntentsDeposit_def Let_def split: option.splits)
next
  case (Record ref st h now)
  show ?thesis
  proof (cases "ref_key ref = k")
    case True
    then show ?thesis using assms Record
      by (cases st; cases "depositMemo a"; cases h; cases "txHash a"; cases "attempt_state a")
        (auto simp: recordIntentsDeposit_def Let_def keeps_evidence_def may_be_out_def)
  next
    case False
    then show ?thesis using assms(1) Record keeps_evidence_refl
      by (auto simp: recordIntentsDeposit_def Let_def)
  qed
qed

text \<open>What is known of a deposit is never lost. Whatever claims and records follow, its address,
  memo and time stay, a transaction hash is only ever replaced by another, and a deposit that was
  or may have been broadcast is never retired.\<close>

theorem deposit_evidence_kept:
  assumes "s k = Some a" "\<forall>e \<in> set es. \<not> reclaims e"
  shows "\<exists>b. foldl deposit_step s es k = Some b \<and> keeps_evidence a b"
  using assms
proof (induction es arbitrary: s a)
  case Nil
  then show ?case using keeps_evidence_refl by simp
next
  case (Cons e es)
  then obtain b where "deposit_step s e k = Some b" "keeps_evidence a b"
    using step_keeps_evidence by (metis list.set_intros(1))
  then show ?case using Cons.IH [of "deposit_step s e" b] Cons.prems(2) keeps_evidence_trans by auto
qed

definition demo_attempt :: IntentsDepositAttempt where
  "demo_attempt = \<lparr>depositAddress = ''bc1q'', depositMemo = None, at_time = 5, txHash = Some ''ff'',
     attempt_state = Broadcast\<rparr>"

theorem deposit_evidence_kept_witness:
  "\<exists>b. foldl deposit_step [''bc1q'' \<mapsto> demo_attempt] [Record (BareAddress ''bc1q'') Retired None 9] ''bc1q'' = Some b \<and>
     keeps_evidence demo_attempt b"
  by (rule deposit_evidence_kept) simp_all

end
