(* ===== verification/QuoteBinding.thy ===== *)
theory QuoteBinding
  imports IntentsDeposits Assets Regex
begin

section \<open>What a quote is bound to\<close>

text \<open>
  \<open>features/swap/intents-quote-binding.ts\<close> and \<open>features/swap/intents-deposit-memo.ts\<close>: the checks
  between a NEAR Intents quote and the deposit about to be signed for it. The generated asset
  catalogue is a parameter (the blockchain of each asset id, and the chain of each HOT Omni id);
  so are \<open>Date.parse\<close>, \<open>JSON.parse\<close> and the printing of numbers. The texts of the errors are
  constructors that carry what the text interpolates.
\<close>

subsection \<open>Deposit memos\<close>

definition STELLAR_MEMO_TEXT_MAX_BYTES :: nat where "STELLAR_MEMO_TEXT_MAX_BYTES = 28"

datatype IntentsDepositMode = MEMO | SIMPLE

text \<open>\<open>/^nep245:v2_1\.omni\.hot\.tg:(\d+)_/\<close>: the digits.\<close>

definition HOT_OMNI_ASSET :: "string \<Rightarrow> string option" where
  "HOT_OMNI_ASSET s =
     (let p = ''nep245:v2_1.omni.hot.tg:''; r = drop (length p) s; d = takeWhile is_digit r
      in if starts_with s p \<and> d \<noteq> [] \<and> starts_with (drop (length d) r) ''_'' then Some d else None)"

definition intentsDepositModeFor ::
    "(string \<rightharpoonup> string) \<Rightarrow> (string \<rightharpoonup> string) \<Rightarrow> string option \<Rightarrow> IntentsDepositMode option" where
  "intentsDepositModeFor blockchainOf hotChain originAsset =
     (if \<not> truthy originAsset then None
      else let a = the originAsset
           in if blockchainOf a = Some ''stellar'' then Some MEMO
              else case HOT_OMNI_ASSET a of
                     Some c \<Rightarrow> if hotChain c = Some ''stellar'' then Some MEMO else None
                   | None \<Rightarrow> None)"

definition depositModeField ::
    "(string \<rightharpoonup> string) \<Rightarrow> (string \<rightharpoonup> string) \<Rightarrow> string option \<Rightarrow> (string \<times> json) list" where
  "depositModeField blockchainOf hotChain originAsset =
     (case intentsDepositModeFor blockchainOf hotChain originAsset of
        Some MEMO \<Rightarrow> [(''depositMode'', JStr ''MEMO'')]
      | _ \<Rightarrow> [])"

definition quoteHasDepositMemo :: "json option \<Rightarrow> bool" where
  "quoteHasDepositMemo raw = (raw \<noteq> None \<and> raw \<noteq> Some JNull \<and> raw \<noteq> Some (JStr []))"

datatype IntentsDepositMemoError =
    MemoOnOtherChain "json option"
  | NoMemo
  | MemoTooLong nat

text \<open>The length of a text in UTF-8.\<close>

definition utf8_length :: "string \<Rightarrow> nat" where
  "utf8_length s = (\<Sum>c\<leftarrow>s. if (of_char c :: nat) < 128 then 1 else 2)"

definition depositMemoToAttach ::
    "IntentsDepositMode option \<Rightarrow> json option \<Rightarrow> SwapChainKind \<Rightarrow> IntentsDepositMemoError + string option" where
  "depositMemoToAttach depositMode raw kind =
     (if kind \<noteq> K_STELLAR then
        if quoteHasDepositMemo raw \<or> depositMode = Some MEMO then Inl (MemoOnOtherChain raw)
        else Inr None
      else case jstr raw of
             None \<Rightarrow> Inl NoMemo
           | Some m \<Rightarrow>
               if js_trim m = [] then Inl NoMemo
               else if STELLAR_MEMO_TEXT_MAX_BYTES < utf8_length m then Inl (MemoTooLong (utf8_length m))
               else Inr (Some m))"

definition DEPOSIT_MODE_REFUSAL :: rx where
  "DEPOSIT_MODE_REFUSAL = Or [lit ''depositmode'', lit ''deposit_mode'', lit ''additional propert'',
     lit ''unknown field'', lit ''unrecognized key'', Cat [lit ''extra '', Or [lit ''inputs'', lit ''fields'']]]"

text \<open>\<open>msg.replace(/^[\s\S]*?proxy returned \d{3}:\s*/, "")\<close>: after the first match, else all of it.\<close>

fun after_envelope :: "string \<Rightarrow> string option" where
  "after_envelope [] = None"
| "after_envelope (c # cs) =
     (let s = c # cs; p = ''proxy returned ''; r = drop (length p) s
      in if starts_with s p \<and> 3 < length r \<and> list_all is_digit (take 3 r) \<and> r ! 3 = CHR '':''
         then Some (dropWhile js_space (drop 4 r))
         else after_envelope cs)"

definition serverSentence :: "(string \<Rightarrow> json option) \<Rightarrow> string \<Rightarrow> string option" where
  "serverSentence parse msg =
     (case parse (coalesce (after_envelope msg) msg) of
        None \<Rightarrow> None
      | Some v \<Rightarrow>
          let usable = (\<lambda>k. case jstr (jget v k) of
                              Some s \<Rightarrow> if js_trim s = [] then None else Some (take 160 (js_trim s))
                            | None \<Rightarrow> None)
          in or_else (usable ''upstreamMessage'') (or_else (usable ''message'') (usable ''error'')))"

datatype IntentsProxyMemoUnsupportedError = ProxyMemoUnsupported "string option"

text \<open>\<open>errorMessage\<close> is \<open>String(error?.message ?? error)\<close>.\<close>

definition proxyMemoRefusal ::
    "(string \<Rightarrow> json option) \<Rightarrow> string \<Rightarrow> string option \<Rightarrow> IntentsProxyMemoUnsupportedError option" where
  "proxyMemoRefusal parse errorMessage requestMode =
     (if requestMode \<noteq> Some ''MEMO'' then None
      else if \<not> rx_test True DEPOSIT_MODE_REFUSAL errorMessage then None
      else Some (ProxyMemoUnsupported (serverSentence parse errorMessage)))"

subsection \<open>One quote, one request\<close>

record IntentsQuoteRequestEcho =
  q_originAsset :: string
  q_destinationAsset :: string
  q_amount :: string
  q_recipient :: string
  q_refundTo :: string
  q_deadline :: "string option"
  q_depositMode :: "IntentsDepositMode option"

record IntentsQuoteExpectation =
  e_originAsset :: "string option"
  e_destinationAsset :: "string option"
  e_amountAtomic :: int
  e_recipient :: string
  e_refundTo :: string

definition address_form :: "string \<Rightarrow> string" where
  "address_form s =
     (let t = js_trim s; p = ''bitcoincash:''
      in if hex_address t then to_lower t
         else if starts_with (to_lower t) p then to_lower (drop (length p) t)
         else t)"

definition sameAddress :: "string option \<Rightarrow> string option \<Rightarrow> bool" where
  "sameAddress a b = (truthy a \<and> truthy b \<and> address_form (the a) = address_form (the b))"

definition atomicEquals :: "string \<Rightarrow> int \<Rightarrow> bool" where
  "atomicEquals sent expected =
     (js_trim sent \<noteq> [] \<and> list_all is_digit (js_trim sent) \<and> int (str_nat (js_trim sent)) = expected)"

datatype mismatch =
    OriginDiffers string "string option"
  | DestinationDiffers string "string option"
  | AmountDiffers string int
  | RecipientDiffers string string
  | RefundDiffers string string
  | ModeDiffers IntentsDepositMode IntentsDepositMode
  | NoRequest

definition quoteBindingMismatches ::
    "(string \<rightharpoonup> string) \<Rightarrow> (string \<rightharpoonup> string) \<Rightarrow> IntentsQuoteRequestEcho \<Rightarrow>
     IntentsQuoteExpectation \<Rightarrow> mismatch list" where
  "quoteBindingMismatches blockchainOf hotChain sent expected =
     (let needs = coalesce (intentsDepositModeFor blockchainOf hotChain (e_originAsset expected)) SIMPLE;
          quotedIn = coalesce (q_depositMode sent) SIMPLE
      in (if \<not> truthy (e_originAsset expected) \<or> Some (q_originAsset sent) \<noteq> e_originAsset expected
          then [OriginDiffers (q_originAsset sent) (e_originAsset expected)] else []) @
         (if \<not> truthy (e_destinationAsset expected) \<or> Some (q_destinationAsset sent) \<noteq> e_destinationAsset expected
          then [DestinationDiffers (q_destinationAsset sent) (e_destinationAsset expected)] else []) @
         (if \<not> atomicEquals (q_amount sent) (e_amountAtomic expected)
          then [AmountDiffers (q_amount sent) (e_amountAtomic expected)] else []) @
         (if \<not> sameAddress (Some (q_recipient sent)) (Some (e_recipient expected))
          then [RecipientDiffers (q_recipient sent) (e_recipient expected)] else []) @
         (if \<not> sameAddress (Some (q_refundTo sent)) (Some (e_refundTo expected))
          then [RefundDiffers (q_refundTo sent) (e_refundTo expected)] else []) @
         (if quotedIn \<noteq> needs then [ModeDiffers quotedIn needs] else []))"

definition assertQuoteBinding ::
    "(string \<rightharpoonup> string) \<Rightarrow> (string \<rightharpoonup> string) \<Rightarrow> IntentsQuoteRequestEcho option \<Rightarrow>
     IntentsQuoteExpectation \<Rightarrow> mismatch list + unit" where
  "assertQuoteBinding blockchainOf hotChain sent expected =
     (case sent of
        None \<Rightarrow> Inl [NoRequest]
      | Some q \<Rightarrow>
          let m = quoteBindingMismatches blockchainOf hotChain q expected
          in if m \<noteq> [] then Inl m else Inr ())"

text \<open>The echo of a response: each field may be absent. The amount is a text or a number, already
  printed; a mode is the text it was sent as.\<close>

record quote_echo =
  o_originAsset :: "string option"
  o_destinationAsset :: "string option"
  o_amount :: "string option"
  o_recipient :: "string option"
  o_refundTo :: "string option"
  o_depositMode :: "string option"

fun mode_text :: "IntentsDepositMode \<Rightarrow> string" where
  "mode_text MEMO = ''MEMO''"
| "mode_text SIMPLE = ''SIMPLE''"

datatype echo_field = EchoOrigin | EchoDestination | EchoAmount | EchoRecipient | EchoRefund | EchoMode

definition echoMismatches :: "IntentsQuoteRequestEcho \<Rightarrow> quote_echo option \<Rightarrow> echo_field list" where
  "echoMismatches sent echo =
     (case echo of
        None \<Rightarrow> []
      | Some o' \<Rightarrow>
          (if o_originAsset o' \<noteq> None \<and> o_originAsset o' \<noteq> Some (q_originAsset sent) then [EchoOrigin] else []) @
          (if o_destinationAsset o' \<noteq> None \<and> o_destinationAsset o' \<noteq> Some (q_destinationAsset sent)
           then [EchoDestination] else []) @
          (if o_amount o' \<noteq> None \<and> js_trim (the (o_amount o')) \<noteq> js_trim (q_amount sent) then [EchoAmount] else []) @
          (if o_recipient o' \<noteq> None \<and> \<not> sameAddress (o_recipient o') (Some (q_recipient sent))
           then [EchoRecipient] else []) @
          (if o_refundTo o' \<noteq> None \<and> \<not> sameAddress (o_refundTo o') (Some (q_refundTo sent)) then [EchoRefund] else []) @
          (if o_depositMode o' \<noteq> None \<and>
              o_depositMode o' \<noteq> Some (mode_text (coalesce (q_depositMode sent) SIMPLE)) then [EchoMode] else []))"

definition statusDescribesDeposit :: "(rat \<Rightarrow> string) \<Rightarrow> json option \<Rightarrow> string \<Rightarrow> string option \<Rightarrow> bool" where
  "statusDescribesDeposit numText resp depositAddr memo =
     (if \<not> truthy memo then True
      else let quote = jprop (jprop resp ''quoteResponse'') ''quote''
           in case quote of
                None \<Rightarrow> True
              | Some q \<Rightarrow>
                  if \<not> jtruthy q \<or> \<not> jobject q then True
                  else if (case jstr (jget q ''depositAddress'') of
                             Some a \<Rightarrow> \<not> sameAddress (Some a) (Some depositAddr) | None \<Rightarrow> False) then False
                  else case jget q ''depositMemo'' of
                         None \<Rightarrow> True
                       | Some m \<Rightarrow> m \<noteq> JNull \<and> js_String numText m = the memo)"

subsection \<open>Deposit windows\<close>

record deposit_window =
  requestMinutes :: int
  landingMinutes :: int

definition slowUtxo :: deposit_window where "slowUtxo = \<lparr>requestMinutes = 120, landingMinutes = 60\<rparr>"
definition utxo :: deposit_window where "utxo = \<lparr>requestMinutes = 60, landingMinutes = 30\<rparr>"
definition cardano_window :: deposit_window where "cardano_window = \<lparr>requestMinutes = 45, landingMinutes = 15\<rparr>"
definition account :: deposit_window where "account = \<lparr>requestMinutes = 30, landingMinutes = 10\<rparr>"

definition depositWindowFor :: "SwapChainKind option \<Rightarrow> deposit_window" where
  "depositWindowFor kind =
     (case kind of
        Some K_BTC \<Rightarrow> slowUtxo
      | Some K_LTC \<Rightarrow> utxo
      | Some K_DOGE \<Rightarrow> utxo
      | Some K_BCH \<Rightarrow> utxo
      | Some K_DASH \<Rightarrow> utxo
      | Some K_CARDANO \<Rightarrow> cardano_window
      | _ \<Rightarrow> account)"

definition depositWindowMinutesLeft ::
    "(string \<Rightarrow> rat option) \<Rightarrow> string option \<Rightarrow> SwapChainKind option \<Rightarrow> rat \<Rightarrow> rat option" where
  "depositWindowMinutesLeft dateParse deadline kind nowMs =
     (if \<not> truthy deadline then None
      else case dateParse (the deadline) of
             None \<Rightarrow> None
           | Some end_ms \<Rightarrow> Some ((end_ms - nowMs) / 60000 - of_int (landingMinutes (depositWindowFor kind))))"

datatype IntentsQuoteExpiredError = NoReadableDeadline | WindowCloses string int

definition assertDepositWindowOpen ::
    "(string \<Rightarrow> rat option) \<Rightarrow> string option \<Rightarrow> SwapChainKind option \<Rightarrow> rat \<Rightarrow> IntentsQuoteExpiredError + unit" where
  "assertDepositWindowOpen dateParse deadline kind nowMs =
     (case depositWindowMinutesLeft dateParse deadline kind nowMs of
        None \<Rightarrow> Inl NoReadableDeadline
      | Some left \<Rightarrow>
          if left < 0 then Inl (WindowCloses (the deadline) (landingMinutes (depositWindowFor kind)))
          else Inr ())"

subsection \<open>What the checks let through\<close>

lemma binding_ok_iff:
  "assertQuoteBinding b h (Some q) e = Inr () \<longleftrightarrow>
     truthy (e_originAsset e) \<and> e_originAsset e = Some (q_originAsset q) \<and>
     truthy (e_destinationAsset e) \<and> e_destinationAsset e = Some (q_destinationAsset q) \<and>
     atomicEquals (q_amount q) (e_amountAtomic e) \<and>
     sameAddress (Some (q_recipient q)) (Some (e_recipient e)) \<and>
     sameAddress (Some (q_refundTo q)) (Some (e_refundTo e)) \<and>
     coalesce (q_depositMode q) SIMPLE = coalesce (intentsDepositModeFor b h (e_originAsset e)) SIMPLE"
  by (auto simp: assertQuoteBinding_def quoteBindingMismatches_def Let_def split: if_splits)

lemma sameAddress_trans: "sameAddress a b \<Longrightarrow> sameAddress a c \<Longrightarrow> sameAddress b c"
  by (simp add: sameAddress_def)

text \<open>C19. A quote belongs to one request. If the same quote is accepted for two states of the form, then
  they name the same asset to send, the same asset to receive, the same amount, and the same
  recipient and refund addresses up to how the wallet writes an address.\<close>

theorem quote_binds_one_request:
  assumes "assertQuoteBinding b h sent e = Inr ()" "assertQuoteBinding b h sent e' = Inr ()"
  shows "e_originAsset e = e_originAsset e' \<and> e_destinationAsset e = e_destinationAsset e' \<and>
    e_amountAtomic e = e_amountAtomic e' \<and>
    sameAddress (Some (e_recipient e)) (Some (e_recipient e')) \<and>
    sameAddress (Some (e_refundTo e)) (Some (e_refundTo e'))"
proof -
  obtain q where q: "sent = Some q"
    using assms(1) by (cases sent) (auto simp: assertQuoteBinding_def)
  have "assertQuoteBinding b h (Some q) e = Inr ()" "assertQuoteBinding b h (Some q) e' = Inr ()"
    using assms unfolding q .
  note ok = this [unfolded binding_ok_iff]
  then have "sameAddress (Some (e_recipient e)) (Some (e_recipient e'))"
    "sameAddress (Some (e_refundTo e)) (Some (e_refundTo e'))"
    using sameAddress_trans by blast+
  with ok show ?thesis by (simp add: atomicEquals_def)
qed

definition demo_quote :: IntentsQuoteRequestEcho where
  "demo_quote = \<lparr>q_originAsset = ''nep141:eth'', q_destinationAsset = ''nep141:btc'', q_amount = ''5'',
     q_recipient = ''bc1q'', q_refundTo = ''0xAb'', q_deadline = None, q_depositMode = None\<rparr>"

definition demo_form :: "string \<Rightarrow> IntentsQuoteExpectation" where
  "demo_form refund = \<lparr>e_originAsset = Some ''nep141:eth'', e_destinationAsset = Some ''nep141:btc'',
     e_amountAtomic = 5, e_recipient = ''bc1q'', e_refundTo = refund\<rparr>"

lemmas demo_eval = demo_quote_def demo_form_def atomicEquals_def sameAddress_def address_form_def
  js_trim_def js_space_def hex_address_def is_hex_digit_def starts_with_def to_lower_def lower_char_def
  intentsDepositModeFor_def HOT_OMNI_ASSET_def is_digit_def str_nat_def digit_val_def char_of_def bit_Suc_0_iff

theorem quote_binds_one_request_witness:
  "sameAddress (Some (e_refundTo (demo_form ''0xaB''))) (Some (e_refundTo (demo_form ''0xAB'')))"
proof -
  have "assertQuoteBinding Map.empty Map.empty (Some demo_quote) (demo_form r) = Inr ()"
    if "r \<in> {''0xaB'', ''0xAB''}" for r
    using that unfolding binding_ok_iff by (auto simp: demo_eval)
  then show ?thesis using quote_binds_one_request
      [of Map.empty Map.empty "Some demo_quote" "demo_form ''0xaB''" "demo_form ''0xAB''"] by simp
qed

lemma memo_attached_iff:
  "depositMemoToAttach mode raw kind = Inr m \<longleftrightarrow>
     (if kind = K_STELLAR
      then \<exists>s. raw = Some (JStr s) \<and> m = Some s \<and> js_trim s \<noteq> [] \<and> utf8_length s \<le> 28
      else m = None \<and> \<not> quoteHasDepositMemo raw \<and> mode \<noteq> Some MEMO)"
proof -
  have j: "jstr v = Some u \<longleftrightarrow> v = Some (JStr u)" for v u
    by (cases v rule: jstr.cases) auto
  show ?thesis
    by (auto simp: depositMemoToAttach_def STELLAR_MEMO_TEXT_MAX_BYTES_def j split: option.splits)
qed

text \<open>A deposit to an address that depositors share always carries the memo that tells it apart.
  Once the quote is bound and the memo check passes, an asset that needs a memo is sent with the
  quote's memo, byte for byte, non-blank and short enough for the chain; and a chain on which the
  wallet cannot attach one is never sent such an asset.\<close>

theorem shared_address_gets_its_memo:
  assumes "assertQuoteBinding b h (Some q) e = Inr ()"
    and "depositMemoToAttach (q_depositMode q) raw kind = Inr m"
    and "intentsDepositModeFor b h (e_originAsset e) = Some MEMO"
  shows "kind = K_STELLAR \<and> (\<exists>s. m = Some s \<and> raw = Some (JStr s) \<and> js_trim s \<noteq> [] \<and> utf8_length s \<le> 28)"
proof -
  have "q_depositMode q = Some MEMO"
    using assms(1,3) unfolding binding_ok_iff by (cases "q_depositMode q") auto
  then show ?thesis using assms(2) unfolding memo_attached_iff by (auto split: if_splits)
qed

definition demo_xlm :: IntentsQuoteRequestEcho where
  "demo_xlm = demo_quote\<lparr>q_originAsset := ''xlm'', q_depositMode := Some MEMO\<rparr>"

theorem shared_address_gets_its_memo_witness:
  "K_STELLAR = K_STELLAR \<and> (\<exists>s. Some ''188711688'' = Some s \<and> Some (JStr ''188711688'') = Some (JStr s) \<and>
     js_trim s \<noteq> [] \<and> utf8_length s \<le> 28)"
  by (rule shared_address_gets_its_memo
      [of "[''xlm'' \<mapsto> ''stellar'']" Map.empty demo_xlm "(demo_form ''0xab'')\<lparr>e_originAsset := Some ''xlm''\<rparr>"])
    (simp_all add: binding_ok_iff memo_attached_iff demo_xlm_def demo_eval utf8_length_def)

text \<open>A deposit is signed only while there is time for it to land: the check passes exactly when the
  deadline can be read and the chain's landing time still fits before it.\<close>

theorem deposit_window_open_iff:
  "assertDepositWindowOpen dateParse deadline kind nowMs = Inr () \<longleftrightarrow>
     (\<exists>d t. deadline = Some d \<and> d \<noteq> [] \<and> dateParse d = Some t \<and>
        nowMs + 60000 * of_int (landingMinutes (depositWindowFor kind)) \<le> t)"
proof -
  have "\<not> (t - n) / 60000 - l < 0 \<longleftrightarrow> n + 60000 * l \<le> (t :: rat)" for t n l
    by (simp add: field_simps not_less)
  then show ?thesis
    by (auto simp: assertDepositWindowOpen_def depositWindowMinutesLeft_def elim!: truthyE split: option.splits)
qed

end
