(* ===== verification/SwapTracking.thy ===== *)
theory SwapTracking
  imports SwapHistory QuoteBinding
begin

section \<open>Following a swap to its end\<close>

text \<open>
  What the wallet reads about a swap and writes back to its history row:
  \<open>features/swap/swap-details.ts\<close>, \<open>swap-actual-received.ts\<close>, \<open>intents-stale-rows.ts\<close>,
  \<open>intents-status-resume.ts\<close> and the status mapping of \<open>swap-execute.ts\<close>. The network, the clock,
  \<open>Date.parse\<close>, \<open>toISOString\<close> and the printing of numbers are parameters.
\<close>

subsection \<open>Routes and statuses\<close>

datatype SwapRouteKind = RouteIntents | RouteDesk | RouteP2p | RouteOther

definition ROUTER_LABEL_INTENTS :: string where "ROUTER_LABEL_INTENTS = ''NEAR Intents''"
definition ROUTER_LABEL_DESK :: string where "ROUTER_LABEL_DESK = ''Pwnda Desk''"

definition swapRouteOf :: "row \<Rightarrow> SwapRouteKind" where
  "swapRouteOf r =
     (if truthy (text_of r F_bidId) then RouteP2p
      else if truthy (text_of r F_depositAddress) then RouteIntents
      else let provider = coalesce (text_of r F_provider) []
           in if starts_with provider ROUTER_LABEL_INTENTS then RouteIntents
              else if starts_with provider ROUTER_LABEL_DESK then RouteDesk
              else RouteOther)"

definition isLiveTrackable :: "row \<Rightarrow> bool" where
  "isLiveTrackable r = truthy (text_of r F_depositAddress)"

definition intentsStatusToHistory :: "string option \<Rightarrow> SwapHistoryStatus" where
  "intentsStatusToHistory s =
     (if s = Some ''SUCCESS'' then StSuccess
      else if s = Some ''REFUNDED'' then StRefunded
      else if s = Some ''FAILED'' then StFailed
      else StPending)"

definition status_is :: "row \<Rightarrow> SwapHistoryStatus \<Rightarrow> bool" where
  "status_is r st = (text_of r F_status = Some (status_text st))"

datatype SwapStatusKey =
    WaitingDeposit | DepositSeen | Processing | IncompleteDeposit | MayHaveBeenSent
  | KeyPending | Completed | Refunded | Failed | NotSent

datatype SwapStatusTone = ToneOk | ToneWarn | ToneBad

record SwapStatusView =
  view_key :: SwapStatusKey
  view_label :: string
  view_detail :: string
  view_tone :: SwapStatusTone

definition swapNetworkName :: "string \<Rightarrow> string" where
  "swapNetworkName a = coalesce (map_option network (asset a)) a"

definition pendingWithoutLiveStatus :: "row \<Rightarrow> SwapRouteKind \<Rightarrow> string" where
  "pendingWithoutLiveStatus r route =
     (if isLiveTrackable r then ''Recorded as pending.''
      else if route = RouteIntents then
        ''Recorded as pending. This swap was saved before the wallet recorded deposit '' @
        ''addresses (2026-09-29), and NEAR Intents looks a swap up by its deposit address, '' @
        ''so check the source transaction below.''
      else if route = RouteDesk then
        ''Recorded as pending. A desk swap in progress is followed by its own tracker.''
      else ''This is the last status the wallet recorded for it.'')"

abbreviation (input) view where
  "view k l t d \<equiv> \<lparr>view_key = k, view_label = l, view_detail = d, view_tone = t\<rparr>"

text \<open>The views of a swap that is still pending.\<close>

definition pending_view :: "row \<Rightarrow> string option \<Rightarrow> bool \<Rightarrow> string \<Rightarrow> SwapStatusView" where
  "pending_view r live hasHash fromAsset =
     (if jtruthy (coalesce (prop_of r F_outcomeUnknown) JNull) \<and> (live = None \<or> live = Some ''PENDING_DEPOSIT'') then
        view MayHaveBeenSent ''May have been sent'' ToneWarn
          (if hasHash
           then ''The wallet could not confirm whether this deposit reached the network. Check the source transaction below on its explorer before swapping again. This quote is never used twice.''
           else ''No transaction id came back. Check this wallet's recent '' @ fromAsset @
             '' activity before swapping again. This quote is never used twice.'')
      else if live = Some ''PENDING_DEPOSIT'' then
        view WaitingDeposit ''Waiting for deposit'' ToneWarn
          (if hasHash
           then ''NEAR Intents has not registered the deposit yet. The deposit transaction is below; on some networks it needs a few confirmations before it counts. A deposit that has not arrived in full by the deadline is refunded.''
           else ''NEAR Intents has not seen a deposit to this address yet.'')
      else if live = Some ''KNOWN_DEPOSIT_TX'' then
        view DepositSeen ''Deposit seen'' ToneWarn
          ''NEAR Intents knows the deposit transaction; the swap has not started processing yet.''
      else if live = Some ''PROCESSING'' then
        view Processing ''Processing'' ToneWarn ''NEAR Intents has the deposit and is completing the swap.''
      else if live = Some ''INCOMPLETE_DEPOSIT'' then
        view IncompleteDeposit ''Deposit incomplete'' ToneWarn
          ''The deposit arrived short of the quote. NEAR Intents refunds it by the deposit deadline, or completes the swap if the rest arrives.''
      else case live of
             Some l \<Rightarrow> view KeyPending ''Pending'' ToneWarn (''NEAR Intents reports '' @ l @ ''.'')
           | None \<Rightarrow> view KeyPending ''Pending'' ToneWarn (pendingWithoutLiveStatus r (swapRouteOf r)))"

text \<open>The status a view is about: the row's own once it is final, else the live one.\<close>

definition effective_status :: "row \<Rightarrow> string option \<Rightarrow> string" where
  "effective_status r live =
     (if \<not> status_is r StPending then coalesce (text_of r F_status) []
      else status_text (case live of Some l \<Rightarrow> intentsStatusToHistory (Some l) | None \<Rightarrow> StPending))"

definition swapStatusView :: "row \<Rightarrow> string option \<Rightarrow> SwapStatusView" where
  "swapStatusView r liveStatus =
     (let route = swapRouteOf r;
          live = keep_truthy liveStatus;
          st = effective_status r live;
          hasHash = truthy (text_of r F_sourceTxHash);
          fromAsset = coalesce (text_of r F_fromAsset) [];
          toAsset = coalesce (text_of r F_toAsset) []
      in if st = ''success'' then
           view Completed ''Completed'' ToneOk
             (if route = RouteIntents then ''NEAR Intents finished the swap and sent the '' @ toAsset @ ''.''
              else ''The swap finished.'')
         else if st = ''refunded'' then
           view Refunded ''Refunded'' ToneWarn
             (if route = RouteIntents
              then ''NEAR Intents sent the deposit back to your '' @ fromAsset @ '' address, the refund address in the quote.''
              else ''Recorded as refunded.'')
         else if st = ''failed'' \<and> text_of r F_failureReason = Some ''deposit-not-on-chain'' then
           view NotSent ''Not sent'' ToneWarn
             (''The deposit never reached '' @ swapNetworkName fromAsset @ '': its transaction is not on '' @
              ''the chain, so nothing was swapped and nothing left your wallet. There is nothing to recover.'')
         else if st = ''failed'' then
           view Failed ''Failed'' ToneBad
             (if hasHash then ''Recorded as failed. If the deposit below went out, check it on its explorer.''
              else ''Recorded as failed.'')
         else pending_view r live hasHash fromAsset)"

definition swapStatusLabel :: "row \<Rightarrow> string" where
  "swapStatusLabel r =
     (if status_is r StFailed \<and> text_of r F_failureReason = Some ''deposit-not-on-chain'' then ''not sent''
      else coalesce (text_of r F_status) [])"

definition depositMemoOf :: "row \<Rightarrow> string option" where
  "depositMemoOf r = Option.bind (text_of r F_depositMemo) (\<lambda>m. keep_truthy (Some (js_trim m)))"

definition minReceivedOf :: "row \<Rightarrow> string option" where
  "minReceivedOf r = Option.bind (text_of r F_minReceived) (\<lambda>m. keep_truthy (Some (js_trim m)))"

subsection \<open>Chains\<close>

definition ALL_CHAINS :: "string list" where
  "ALL_CHAINS =
     [''ethereum'', ''avalanche'', ''usdt-avax'', ''usdt-eth'', ''usdt-op'', ''usdt-bsc'',
      ''usdc-eth'', ''usdc-arb'', ''usdc-base'', ''usdc-op'', ''usdc-pol'', ''usdc-avax'',
      ''usdc-bsc'', ''usdt0-arb'', ''usdt0-pol'', ''usdc-monad'', ''usdt0-monad'', ''usdt0-op'',
      ''usdc-sol'', ''usdt-sol'', ''usdt-tron'', ''usdt-near'', ''usdc-near'', ''usdt-aptos'',
      ''usdc-aptos'', ''polygon'', ''flare'', ''bitcoin'', ''solana'', ''xrp'',
      ''tron'', ''cardano'', ''monero'', ''zephyr'', ''dogecoin'', ''ravencoin'',
      ''conflux'', ''hedera'', ''algorand'', ''litecoin'', ''bitcoin-cash'', ''arbitrum'',
      ''base'', ''optimism'', ''bsc'', ''monad'', ''dash'', ''stellar'',
      ''sui'', ''ergo'', ''near'', ''aptos'', ''zano'', ''xelis'']"

definition EVM_NATIVE_CHAIN :: "(nat \<times> string) list" where
  "EVM_NATIVE_CHAIN =
     [(1, ''ethereum''), (10, ''optimism''), (14, ''flare''), (56, ''bsc''), (137, ''polygon''),
      (143, ''monad''), (8453, ''base''), (42161, ''arbitrum''), (43114, ''avalanche'')]"

definition swapLegChain :: "string \<Rightarrow> string option" where
  "swapLegChain a =
     (if to_lower a \<in> set ALL_CHAINS then Some (to_lower a)
      else case asset a of
             None \<Rightarrow> None
           | Some c \<Rightarrow>
               if chainKind c = K_EVM then Option.bind (chainId c) (map_of EVM_NATIVE_CHAIN)
               else walletsByChainKey c)"

subsection \<open>What a response says\<close>

definition asRecord :: "json option \<Rightarrow> json option" where
  "asRecord v = (case v of Some (JObj ps) \<Rightarrow> Some (JObj ps) | _ \<Rightarrow> None)"

definition text_value :: "(rat \<Rightarrow> string) \<Rightarrow> json option \<Rightarrow> string option" where
  "text_value numText v =
     (case v of
        Some (JStr s) \<Rightarrow> if js_trim s = [] then None else Some (js_trim s)
      | Some (JNum r) \<Rightarrow> Some (numText r)
      | _ \<Rightarrow> None)"

text \<open>\<open>/^[A-Za-z0-9_:+=.-]{8,200}$/\<close>\<close>

definition SAFE_HASH :: "string \<Rightarrow> bool" where
  "SAFE_HASH h =
     (8 \<le> length h \<and> length h \<le> 200 \<and>
      list_all (in_ranges [(65, 90), (97, 122), (48, 57), (95, 95), (58, 58), (43, 43), (61, 61), (46, 46), (45, 45)]) h)"

fun add_hash :: "string list \<Rightarrow> json \<Rightarrow> string list" where
  "add_hash out item =
     (let raw = (case item of JStr s \<Rightarrow> Some s | _ \<Rightarrow> jstr (jprop (asRecord (Some item)) ''hash''));
          h = (case raw of Some s \<Rightarrow> js_trim s | None \<Rightarrow> [])
      in if SAFE_HASH h \<and> h \<notin> set out then out @ [h] else out)"

definition hashesOf :: "json option \<Rightarrow> string list" where
  "hashesOf v = (case v of Some (JArr items) \<Rightarrow> foldl add_hash [] items | _ \<Rightarrow> [])"

record IntentsLiveDetails =
  d_status :: "string option"
  originTxHashes :: "string list"
  destinationTxHashes :: "string list"
  amountInFormatted :: "string option"
  amountOutFormatted :: "string option"
  refundedAmountFormatted :: "string option"
  minAmountOutAtomic :: "string option"
  d_recipient :: "string option"
  d_refundTo :: "string option"

definition readIntentsLiveDetails :: "(rat \<Rightarrow> string) \<Rightarrow> json option \<Rightarrow> IntentsLiveDetails" where
  "readIntentsLiveDetails numText resp =
     (let r = asRecord resp;
          d = or_else (asRecord (jprop r ''swapDetails'')) (asRecord (jprop r ''swap''));
          qr = asRecord (jprop r ''quoteResponse'');
          quote = asRecord (jprop qr ''quote'');
          request = asRecord (jprop qr ''quoteRequest'');
          txt = text_value numText
      in \<lparr>d_status = txt (jprop r ''status''),
          originTxHashes = hashesOf (jprop d ''originChainTxHashes''),
          destinationTxHashes = hashesOf (jprop d ''destinationChainTxHashes''),
          amountInFormatted = txt (jprop d ''amountInFormatted''),
          amountOutFormatted = txt (jprop d ''amountOutFormatted''),
          refundedAmountFormatted = txt (jprop d ''refundedAmountFormatted''),
          minAmountOutAtomic = txt (jprop quote ''minAmountOut''),
          d_recipient = txt (jprop request ''recipient''),
          d_refundTo = txt (jprop request ''refundTo'')\<rparr>)"

definition first_amount :: "(rat \<Rightarrow> string) \<Rightarrow> json option list \<Rightarrow> string option" where
  "first_amount numText cs =
     (case List.find (\<lambda>c. case c of Some (JStr s) \<Rightarrow> s \<noteq> [] | Some (JNum _) \<Rightarrow> True | _ \<Rightarrow> False) cs of
        Some (Some (JStr s)) \<Rightarrow> Some s
      | Some (Some (JNum r)) \<Rightarrow> Some (numText r)
      | _ \<Rightarrow> None)"

definition extractActualReceivedFromIntents :: "(rat \<Rightarrow> string) \<Rightarrow> json option \<Rightarrow> string option" where
  "extractActualReceivedFromIntents numText resp =
     first_amount numText
       [jprop (jprop resp ''swapDetails'') ''amountOut'', jprop (jprop resp ''swap'') ''amountOut'',
        jprop resp ''amountOut'', jprop (jprop resp ''quote'') ''amountOut'']"

definition extractActualReceivedFromSwapKit :: "(rat \<Rightarrow> string) \<Rightarrow> json option \<Rightarrow> string option" where
  "extractActualReceivedFromSwapKit numText resp =
     first_amount numText
       [jprop resp ''amountOut'',
        (case jprop resp ''legs'' of
           Some (JArr legs) \<Rightarrow> if legs = [] then None else jget (last legs) ''amount''
         | _ \<Rightarrow> None)]"

definition formatActualReceived :: "string option \<Rightarrow> string \<Rightarrow> string option" where
  "formatActualReceived atomicString toAsset =
     (if \<not> truthy atomicString then None
      else case asset toAsset of
             None \<Rightarrow> None
           | Some c \<Rightarrow>
               let intPart = hd (split_on (CHR ''.'') (js_trim (the atomicString)))
               in if intPart = [] \<or> \<not> list_all is_digit intPart then None
                  else let value = str_nat intPart
                       in if decimals c = 0 then Some (nat_str value)
                          else let divisor = 10 ^ decimals c;
                                   frac = strip_trailing (CHR ''0'')
                                     (pad_start (decimals c) (CHR ''0'') (nat_str (value mod divisor)))
                               in Some (if frac = [] then nat_str (value div divisor)
                                        else nat_str (value div divisor) @ ''.'' @ frac))"

subsection \<open>What a status read writes back\<close>

definition status_patch :: "(rat \<Rightarrow> string) \<Rightarrow> (rat \<Rightarrow> string) \<Rightarrow> row \<Rightarrow> json option \<Rightarrow> rat \<Rightarrow> row" where
  "status_patch numText toIso r resp nowMs =
     (let mapped = intentsStatusToHistory (jstr (jprop resp ''status''))
      in if status_is r StPending \<and> mapped \<noteq> StPending then
           let now_iso = toIso nowMs;
               received = keep_truthy (if mapped = StSuccess then extractActualReceivedFromIntents numText resp else None)
           in [F_status \<mapsto> Some (JStr (status_text mapped)), F_outcomeUnknown \<mapsto> Some (JBool False),
               F_completedAt \<mapsto> Some (JStr now_iso)] ++
              (case received of
                 Some a \<Rightarrow> [F_actualReceived \<mapsto> Some (JStr a), F_actualReceivedAt \<mapsto> Some (JStr now_iso)]
               | None \<Rightarrow> Map.empty)
         else Map.empty)"

definition historyPatchFromIntentsStatus ::
    "(rat \<Rightarrow> string) \<Rightarrow> (rat \<Rightarrow> string) \<Rightarrow> row \<Rightarrow> json option \<Rightarrow> rat \<Rightarrow> (string \<Rightarrow> string option) \<Rightarrow> row" where
  "historyPatchFromIntentsStatus numText toIso r resp nowMs toExplorer =
     (let patch = status_patch numText toIso r resp nowMs;
          finalStatus = or_else (text_of patch F_status) (text_of r F_status)
      in if \<not> truthy (text_of r F_destTxHash) \<and> finalStatus \<noteq> Some ''refunded'' then
           case destinationTxHashes (readIntentsLiveDetails numText resp) of
             [] \<Rightarrow> patch
           | dest # _ \<Rightarrow>
               let patch = patch(F_destTxHash \<mapsto> Some (JStr dest))
               in (case keep_truthy (toExplorer dest) of
                     Some url \<Rightarrow> patch(F_destExplorerUrl \<mapsto> Some (JStr url))
                   | None \<Rightarrow> patch)
         else patch)"

subsection \<open>Following a swap while its details are open\<close>

text \<open>
  \<open>watchIntentsSwap\<close>: the closure's variables and the places where a tick waits. Whether the
  address is missing is fixed when the watch starts.
\<close>

datatype watch_phase =
    Asking
  | LoadingRow "json option"
  | WritingPatch row
  | TimerSet
  | Ended

record watch =
  current :: row
  stopped :: bool
  w_phase :: watch_phase
  written :: "row list"
  shown :: "json option list"

datatype watch_event =
    Answered "json option"
  | AskFailed
  | RowLoaded "row option"
  | RowLoadFailed
  | PatchWritten
  | PatchFailed
  | TimerFired
  | StopWatching

definition start_watch :: "row \<Rightarrow> watch" where
  "start_watch r = \<lparr>current = r, stopped = False,
     w_phase = (if truthy (text_of r F_depositAddress) then Asking else Ended), written = [], shown = []\<rparr>"

definition next_tick :: "watch \<Rightarrow> watch" where
  "next_tick w = (if stopped w then w\<lparr>w_phase := Ended\<rparr> else w\<lparr>w_phase := TimerSet\<rparr>)"

definition end_of_tick :: "watch \<Rightarrow> watch" where
  "end_of_tick w = (if stopped w \<or> \<not> status_is (current w) StPending then w\<lparr>w_phase := Ended\<rparr> else next_tick w)"

definition after_load ::
    "(row \<Rightarrow> json option \<Rightarrow> row) \<Rightarrow> json option \<Rightarrow> row option \<Rightarrow> watch \<Rightarrow> watch" where
  "after_load patchFor resp loaded w =
     (let w = w\<lparr>current := coalesce loaded (current w)\<rparr>
      in if stopped w then w\<lparr>w_phase := Ended\<rparr>
         else let patch = patchFor (current w) resp
              in if no_keys patch then end_of_tick w
                 else w\<lparr>w_phase := WritingPatch patch, written := written w @ [patch]\<rparr>)"

fun watchIntentsSwap :: "(row \<Rightarrow> json option \<Rightarrow> row) \<Rightarrow> watch \<Rightarrow> watch_event \<Rightarrow> watch" where
  "watchIntentsSwap patchFor w StopWatching =
     w\<lparr>stopped := True, w_phase := (if w_phase w = TimerSet then Ended else w_phase w)\<rparr>"
| "watchIntentsSwap patchFor w (Answered resp) =
     (if w_phase w \<noteq> Asking then w
      else if stopped w then w\<lparr>w_phase := Ended\<rparr>
      else w\<lparr>w_phase := LoadingRow resp, shown := shown w @ [resp]\<rparr>)"
| "watchIntentsSwap patchFor w AskFailed = (if w_phase w \<noteq> Asking then w else next_tick w)"
| "watchIntentsSwap patchFor w (RowLoaded loaded) =
     (case w_phase w of LoadingRow resp \<Rightarrow> after_load patchFor resp loaded w | _ \<Rightarrow> w)"
| "watchIntentsSwap patchFor w RowLoadFailed =
     (case w_phase w of LoadingRow resp \<Rightarrow> after_load patchFor resp None w | _ \<Rightarrow> w)"
| "watchIntentsSwap patchFor w PatchWritten =
     (case w_phase w of
        WritingPatch patch \<Rightarrow> end_of_tick (w\<lparr>current := current w ++ patch\<rparr>)
      | _ \<Rightarrow> w)"
| "watchIntentsSwap patchFor w PatchFailed =
     (case w_phase w of WritingPatch _ \<Rightarrow> end_of_tick w | _ \<Rightarrow> w)"
| "watchIntentsSwap patchFor w TimerFired =
     (if w_phase w = TimerSet then w\<lparr>w_phase := (if stopped w then Ended else Asking)\<rparr> else w)"

subsection \<open>Rows that only their source transaction can settle\<close>

definition NOT_SENT_AFTER_MS :: rat where "NOT_SENT_AFTER_MS = 48 * 60 * 60000"

definition DEFINITIVE_KINDS :: "SwapChainKind list" where
  "DEFINITIVE_KINDS = [K_EVM, K_BTC, K_LTC, K_DOGE, K_BCH, K_DASH]"

datatype StaleVerdict = VerdictNotSent | VerdictDepositAddress string

text \<open>The part of \<open>TxPartiesState\<close> read here: a finished read and the recipients it names.\<close>

datatype TxPartiesState = PartiesIdle | PartiesLoading | PartiesDone "string list option" | PartiesError string

definition needsSettling :: "row \<Rightarrow> bool" where
  "needsSettling r =
     (status_is r StPending \<and> \<not> truthy (text_of r F_depositAddress) \<and> truthy (text_of r F_sourceTxHash) \<and>
      swapRouteOf r = RouteIntents)"

definition stale_norm :: "string \<Rightarrow> string" where
  "stale_norm a = (if starts_with (to_lower a) ''0x'' \<and> drop 2 a \<noteq> [] \<and> list_all is_hex_digit (drop 2 a)
                   then to_lower a else a)"

definition staleVerdict ::
    "(string \<Rightarrow> rat option) \<Rightarrow> row \<Rightarrow> TxPartiesState \<Rightarrow> rat \<Rightarrow> string list \<Rightarrow> StaleVerdict option" where
  "staleVerdict dateParse r parties nowMs ownAddresses =
     (if \<not> needsSettling r then None
      else case parties of
        PartiesDone None \<Rightarrow>
          (case (dateParse (coalesce (text_of r F_createdAt) []),
                 map_option chainKind (asset (coalesce (text_of r F_fromAsset) []))) of
             (Some created, Some k) \<Rightarrow>
               if NOT_SENT_AFTER_MS \<le> nowMs - created \<and> k \<in> set DEFINITIVE_KINDS then Some VerdictNotSent else None
           | _ \<Rightarrow> None)
      | PartiesDone (Some to) \<Rightarrow>
          let own = map stale_norm (filter (\<lambda>a. a \<noteq> []) ownAddresses);
              others = filter (\<lambda>a. stale_norm a \<notin> set own) to
          in (case others of [a] \<Rightarrow> Some (VerdictDepositAddress a) | _ \<Rightarrow> None)
      | _ \<Rightarrow> None)"

definition patchForVerdict :: "(rat \<Rightarrow> string) \<Rightarrow> StaleVerdict \<Rightarrow> rat \<Rightarrow> row" where
  "patchForVerdict toIso v nowMs =
     (case v of
        VerdictNotSent \<Rightarrow>
          [F_status \<mapsto> Some (JStr ''failed''), F_failureReason \<mapsto> Some (JStr ''deposit-not-on-chain''),
           F_outcomeUnknown \<mapsto> Some (JBool False), F_completedAt \<mapsto> Some (JStr (toIso nowMs))]
      | VerdictDepositAddress a \<Rightarrow> [F_depositAddress \<mapsto> Some (JStr a)])"

text \<open>\<open>summaries\<close> is the registry of scanned UTXO accounts.\<close>

definition ownAddressesOnSource :: "(string \<rightharpoonup> string list) \<Rightarrow> row \<Rightarrow> string option \<Rightarrow> string list" where
  "ownAddressesOnSource summaries r chain =
     (case keep_truthy (text_of r F_refundTo) of Some a \<Rightarrow> [a] | None \<Rightarrow> []) @
     (case keep_truthy chain of Some c \<Rightarrow> coalesce (summaries c) [] | None \<Rightarrow> [])"

record settle_deps =
  readParties :: "string \<Rightarrow> string \<Rightarrow> string \<Rightarrow> TxPartiesState option"   \<comment> \<open>None: it threw\<close>
  updateRow :: "string \<Rightarrow> row \<Rightarrow> bool"                             \<comment> \<open>False: it rejected\<close>
  ownAddresses :: "row \<Rightarrow> string option \<Rightarrow> string list"

text \<open>One pass of the loop: the updates asked for so far and the recovered rows.\<close>

definition settle_row ::
    "(string \<Rightarrow> rat option) \<Rightarrow> (rat \<Rightarrow> string) \<Rightarrow> settle_deps \<Rightarrow> rat \<Rightarrow>
     (string \<times> row) list \<times> row list \<Rightarrow> row \<Rightarrow> (string \<times> row) list \<times> row list" where
  "settle_row dateParse toIso deps nowMs acc r =
     (if \<not> needsSettling r then acc
      else case keep_truthy (swapLegChain (coalesce (text_of r F_fromAsset) [])) of
        None \<Rightarrow> acc
      | Some chain \<Rightarrow>
          (case readParties deps chain (coalesce (text_of r F_sourceTxHash) []) (coalesce (text_of r F_refundTo) []) of
             None \<Rightarrow> acc
           | Some state \<Rightarrow>
               (case staleVerdict dateParse r state nowMs (ownAddresses deps r (Some chain)) of
                  None \<Rightarrow> acc
                | Some v \<Rightarrow>
                    let patch = patchForVerdict toIso v nowMs;
                        i = coalesce (text_of r F_id) [];
                        updates = fst acc @ [(i, patch)]
                    in if \<not> updateRow deps i patch then (updates, snd acc)
                       else case v of
                              VerdictDepositAddress _ \<Rightarrow> (updates, snd acc @ [r ++ patch])
                            | VerdictNotSent \<Rightarrow> (updates, snd acc))))"

definition settleStaleIntentsRows ::
    "(string \<Rightarrow> rat option) \<Rightarrow> (rat \<Rightarrow> string) \<Rightarrow> row list \<Rightarrow> settle_deps \<Rightarrow> rat \<Rightarrow> (string \<times> row) list \<times> row list" where
  "settleStaleIntentsRows dateParse toIso rows deps nowMs = foldl (settle_row dateParse toIso deps nowMs) ([], []) rows"

subsection \<open>Resuming after a restart\<close>

definition RESUME_MAX_AGE_MS :: rat where "RESUME_MAX_AGE_MS = 14 * 24 * 60 * 60000"

definition rowsToResume ::
    "(string \<Rightarrow> rat option) \<Rightarrow> row list \<Rightarrow> rat \<Rightarrow> (string \<Rightarrow> string option \<Rightarrow> bool) \<Rightarrow> row list" where
  "rowsToResume dateParse rows nowMs isActive =
     filter (\<lambda>r.
       if \<not> status_is r StPending \<or> \<not> truthy (text_of r F_depositAddress) then False
       else if isActive (coalesce (text_of r F_depositAddress) []) (text_of r F_depositMemo) then False
       else case dateParse (coalesce (text_of r F_createdAt) []) of
              None \<Rightarrow> True
            | Some created \<Rightarrow> nowMs - created \<le> RESUME_MAX_AGE_MS) rows"

text \<open>\<open>filter((r, i, all) => all.findIndex(x => x.id === r.id) === i)\<close>: the first row of each id.\<close>

fun first_by_id :: "row list \<Rightarrow> row list" where
  "first_by_id [] = []"
| "first_by_id (r # rs) = r # filter (\<lambda>x. row_id x \<noteq> row_id r) (first_by_id rs)"

definition rows_to_poll ::
    "(string \<Rightarrow> rat option) \<Rightarrow> row list \<Rightarrow> row list \<Rightarrow> rat \<Rightarrow> (string \<Rightarrow> string option \<Rightarrow> bool) \<Rightarrow> row list" where
  "rows_to_poll dateParse rows recovered nowMs isActive =
     first_by_id (rowsToResume dateParse rows nowMs isActive @
       filter (\<lambda>r. \<not> isActive (coalesce (text_of r F_depositAddress) []) (text_of r F_depositMemo)) recovered)"

text \<open>The update a finished poll asks for; None where the row is left alone.\<close>

definition resume_patch ::
    "(rat \<Rightarrow> string) \<Rightarrow> (rat \<Rightarrow> string) \<Rightarrow> bool \<Rightarrow> json option \<Rightarrow> rat \<Rightarrow> row option" where
  "resume_patch numText toIso recoveredRow terminal nowMs =
     (let st = intentsStatusToHistory (jstr (jprop terminal ''status''));
          received = keep_truthy (if st = StSuccess then extractActualReceivedFromIntents numText terminal else None)
      in if st = StPending \<and> recoveredRow then None
         else Some ([F_status \<mapsto> Some (JStr (status_text st)), F_outcomeUnknown \<mapsto> Some (JBool False),
                     F_completedAt \<mapsto> Some (JStr (toIso nowMs))] ++
                    (case received of
                       Some a \<Rightarrow> [F_actualReceived \<mapsto> Some (JStr a), F_actualReceivedAt \<mapsto> Some (JStr (toIso nowMs))]
                     | None \<Rightarrow> Map.empty)))"

subsection \<open>A settled row stays settled\<close>

lemma text_of_spread: "text_of (r ++ p) f = (case p f of Some v \<Rightarrow> jstr v | None \<Rightarrow> text_of r f)"
  by (simp add: text_of_def prop_of_spread split: option.split)

lemma status_patch_status:
  "status_patch numText toIso r resp now F_status =
     (if status_is r StPending \<and> intentsStatusToHistory (jstr (jprop resp ''status'')) \<noteq> StPending
      then Some (Some (JStr (status_text (intentsStatusToHistory (jstr (jprop resp ''status'')))))) else None)"
  by (auto simp: status_patch_def Let_def map_add_def split: option.split)

lemma status_patch_dest: "status_patch numText toIso r resp now F_destTxHash = None"
  by (auto simp: status_patch_def Let_def map_add_def split: option.split)

lemma history_patch_simps:
  "historyPatchFromIntentsStatus numText toIso r resp now ex F_status = status_patch numText toIso r resp now F_status"
  "truthy (text_of r F_destTxHash) \<Longrightarrow> historyPatchFromIntentsStatus numText toIso r resp now ex F_destTxHash = None"
  by (auto simp: historyPatchFromIntentsStatus_def Let_def status_patch_dest split: list.split option.split)

text \<open>A status read only moves a swap forward: it settles a pending row when NEAR Intents reports the
  swap decided, never changes a row that is already settled, never moves one back to pending, and
  never replaces a payout hash that is recorded.\<close>

theorem status_read_only_settles:
  "text_of (r ++ historyPatchFromIntentsStatus numText toIso r resp now ex) F_status =
     (if status_is r StPending \<and> intentsStatusToHistory (jstr (jprop resp ''status'')) \<noteq> StPending
      then Some (status_text (intentsStatusToHistory (jstr (jprop resp ''status''))))
      else text_of r F_status) \<and>
   keep_truthy (text_of r F_destTxHash)
     \<in> {None, text_of (r ++ historyPatchFromIntentsStatus numText toIso r resp now ex) F_destTxHash}"
proof
  show "text_of (r ++ historyPatchFromIntentsStatus numText toIso r resp now ex) F_status =
     (if status_is r StPending \<and> intentsStatusToHistory (jstr (jprop resp ''status'')) \<noteq> StPending
      then Some (status_text (intentsStatusToHistory (jstr (jprop resp ''status''))))
      else text_of r F_status)"
    by (simp add: text_of_spread history_patch_simps status_patch_status)
  show "keep_truthy (text_of r F_destTxHash)
     \<in> {None, text_of (r ++ historyPatchFromIntentsStatus numText toIso r resp now ex) F_destTxHash}"
  proof (cases "truthy (text_of r F_destTxHash)")
    case True
    then show ?thesis by (simp add: text_of_spread history_patch_simps keep_truthy_id)
  qed (simp add: keep_truthy_None)
qed

subsection \<open>A stopped watch is silent\<close>

lemma stopped_step:
  assumes "stopped w"
  shows "stopped (watchIntentsSwap f w e)" "written (watchIntentsSwap f w e) = written w"
    "shown (watchIntentsSwap f w e) = shown w"
  using assms by (cases e; cases "w_phase w"; simp add: after_load_def next_tick_def end_of_tick_def Let_def)+

text \<open>Once the details are closed, the watch writes nothing to the history and shows nothing,
  whatever answers, rows and timers are still to come.\<close>

theorem closed_watch_is_silent:
  "written (foldl (watchIntentsSwap f) (watchIntentsSwap f w StopWatching) es) = written w \<and>
   shown (foldl (watchIntentsSwap f) (watchIntentsSwap f w StopWatching) es) = shown w"
proof -
  have "stopped v \<Longrightarrow> written (foldl (watchIntentsSwap f) v es) = written v \<and>
      shown (foldl (watchIntentsSwap f) v es) = shown v" for v
    by (induction es arbitrary: v) (simp_all add: stopped_step)
  from this [of "watchIntentsSwap f w StopWatching"] show ?thesis by simp
qed

subsection \<open>Two formatters agree\<close>

text \<open>The amount received is printed by the same rule as every other amount: the formatter of the
  status reader gives what the wallet's base-unit formatter gives, and nothing exactly when the
  coin is unknown or the text has no whole part in digits.\<close>

theorem actual_received_format:
  "formatActualReceived (Some s) toAsset =
     (case asset toAsset of
        None \<Rightarrow> None
      | Some c \<Rightarrow>
          (let w = hd (split_on (CHR ''.'') (js_trim s))
           in if w \<noteq> [] \<and> list_all is_digit w then Some (atomicToDecimal (int (str_nat w)) (decimals c)) else None))"
proof (cases "s = []")
  case True
  then show ?thesis by (simp add: formatActualReceived_def js_trim_Nil split: option.split)
next
  case False
  have z: "atomicToDecimal (int n) 0 = nat_str n" for n
    by (simp add: atomicToDecimal_def pad_start_def strip_trailing_def nat_str.simps [of 0])
  show ?thesis using False
    by (auto simp: formatActualReceived_def z Let_def split: option.split)
      (auto simp: atomicToDecimal_def Let_def)
qed

subsection \<open>Settling old rows\<close>

text \<open>What the chain has to say before a row is settled.\<close>

definition justified :: "(string \<Rightarrow> rat option) \<Rightarrow> settle_deps \<Rightarrow> rat \<Rightarrow> row \<Rightarrow> StaleVerdict \<Rightarrow> bool" where
  "justified dateParse deps now r v \<longleftrightarrow> needsSettling r \<and>
     (\<exists>chain parties. readParties deps chain (coalesce (text_of r F_sourceTxHash) [])
          (coalesce (text_of r F_refundTo) []) = Some (PartiesDone parties) \<and>
        (case v of
           VerdictNotSent \<Rightarrow> parties = None \<and>
             (\<exists>created c. dateParse (coalesce (text_of r F_createdAt) []) = Some created \<and>
                NOT_SENT_AFTER_MS \<le> now - created \<and> asset (coalesce (text_of r F_fromAsset) []) = Some c \<and>
                chainKind c \<in> set DEFINITIVE_KINDS)
         | VerdictDepositAddress a \<Rightarrow> (\<exists>to. parties = Some to \<and>
             filter (\<lambda>x. stale_norm x \<notin> stale_norm ` (set (ownAddresses deps r (Some chain)) - {[]})) to = [a])))"

lemma verdict_justified:
  assumes "readParties deps chain (coalesce (text_of r F_sourceTxHash) []) (coalesce (text_of r F_refundTo) []) = Some st"
    and "staleVerdict dateParse r st now (ownAddresses deps r (Some chain)) = Some v"
  shows "justified dateParse deps now r v"
proof -
  obtain ps where n: "needsSettling r" and st: "st = PartiesDone ps"
    using assms(2) by (auto simp: staleVerdict_def split: if_splits TxPartiesState.splits)
  have own: "set (map stale_norm (filter (\<lambda>a. a \<noteq> []) xs)) = stale_norm ` (set xs - {[]})" for xs by auto
  have "case v of
           VerdictNotSent \<Rightarrow> ps = None \<and>
             (\<exists>created c. dateParse (coalesce (text_of r F_createdAt) []) = Some created \<and>
                NOT_SENT_AFTER_MS \<le> now - created \<and> asset (coalesce (text_of r F_fromAsset) []) = Some c \<and>
                chainKind c \<in> set DEFINITIVE_KINDS)
         | VerdictDepositAddress a \<Rightarrow> (\<exists>to. ps = Some to \<and>
             filter (\<lambda>x. stale_norm x \<notin> stale_norm ` (set (ownAddresses deps r (Some chain)) - {[]})) to = [a])"
    using assms(2) n unfolding staleVerdict_def st own Let_def
    by (auto split: option.splits if_splits list.splits)
  then show ?thesis unfolding justified_def using n assms(1) st by blast
qed

text \<open>An old row is settled only on what its chain says: each update goes to a row of the history
  that was still pending without a deposit address, and either the transaction is unknown, old
  enough and on a chain that forgets none, or its one recipient outside the wallet is recorded as
  the deposit address.\<close>

theorem stale_updates_justified:
  "list_all (\<lambda>(i, p). \<exists>r v. r \<in> set rows \<and> i = coalesce (text_of r F_id) [] \<and>
       p = patchForVerdict toIso v now \<and> justified dateParse deps now r v)
     (fst (settleStaleIntentsRows dateParse toIso rows deps now))"
proof -
  define ok where "ok rs u \<longleftrightarrow> (case u of (i, p) \<Rightarrow> \<exists>r v. r \<in> set rs \<and> i = coalesce (text_of r F_id) [] \<and>
       p = patchForVerdict toIso v now \<and> justified dateParse deps now r v)" for rs u
  have step: "list_all (ok rows) (fst (settle_row dateParse toIso deps now acc r))"
    if "list_all (ok rows) (fst acc)" "r \<in> set rows" for acc r
    using that
    by (auto simp: settle_row_def Let_def ok_def split: option.split StaleVerdict.split dest!: verdict_justified)
  have "list_all (ok rows) (fst acc) \<Longrightarrow> set rs \<subseteq> set rows \<Longrightarrow>
      list_all (ok rows) (fst (foldl (settle_row dateParse toIso deps now) acc rs))" for rs acc
    by (induction rs arbitrary: acc) (simp_all add: step)
  from this [of "([], [])" rows] show ?thesis
    by (simp add: settleStaleIntentsRows_def ok_def [abs_def] case_prod_beta')
qed

subsection \<open>Resuming\<close>

lemma first_by_id_set: "set (first_by_id rs) \<subseteq> set rs" "row_id ` set (first_by_id rs) = row_id ` set rs"
proof (induction rs)
  case (Cons r rs)
  { case 1
    then show ?case using Cons.IH(1) by auto
  next
    case 2
    have "row_id ` set (first_by_id (r # rs)) = insert (row_id r) (row_id ` set (first_by_id rs))" by auto
    then show ?case using Cons.IH(2) by auto
  }
qed auto

lemma first_by_id_distinct: "distinct (map row_id (first_by_id rs))"
  by (induction rs) (auto simp: distinct_map_filter)

text \<open>After a restart each swap is followed once: the rows polled have different ids, none of them is
  already being watched, and no swap that should be followed is left out.\<close>

theorem resume_polls_once:
  "distinct (map row_id (rows_to_poll dateParse rows recovered now isActive)) \<and>
   list_all (\<lambda>r. \<not> isActive (coalesce (text_of r F_depositAddress) []) (text_of r F_depositMemo))
     (rows_to_poll dateParse rows recovered now isActive) \<and>
   row_id ` set (rowsToResume dateParse rows now isActive)
     \<subseteq> row_id ` set (rows_to_poll dateParse rows recovered now isActive)"
proof (intro conjI)
  let ?rs = "rowsToResume dateParse rows now isActive @
       filter (\<lambda>r. \<not> isActive (coalesce (text_of r F_depositAddress) []) (text_of r F_depositMemo)) recovered"
  have idle: "\<not> isActive (coalesce (text_of r F_depositAddress) []) (text_of r F_depositMemo)" if "r \<in> set ?rs" for r
    using that by (auto simp: rowsToResume_def split: if_splits)
  show "distinct (map row_id (rows_to_poll dateParse rows recovered now isActive))"
    unfolding rows_to_poll_def by (rule first_by_id_distinct)
  show "list_all (\<lambda>r. \<not> isActive (coalesce (text_of r F_depositAddress) []) (text_of r F_depositMemo))
     (rows_to_poll dateParse rows recovered now isActive)"
    unfolding rows_to_poll_def list_all_iff using first_by_id_set(1) [of ?rs] idle by blast
  show "row_id ` set (rowsToResume dateParse rows now isActive)
     \<subseteq> row_id ` set (rows_to_poll dateParse rows recovered now isActive)"
    unfolding rows_to_poll_def first_by_id_set(2) by auto
qed

subsection \<open>The details view and memo deposits\<close>

text \<open>The details view does not tell memo deposits apart. For every pending row with a deposit memo
  there is an answer about another deposit to the same address that the resume pass would ignore
  and that the details view takes for this swap, settling its row.\<close>

theorem details_take_foreign_status:
  assumes "status_is r StPending" "truthy memo"
  shows "\<exists>resp. \<not> statusDescribesDeposit numText (Some resp) addr memo \<and>
    text_of (r ++ historyPatchFromIntentsStatus numText toIso r (Some resp) now ex) F_status = Some ''success''"
proof -
  obtain m where m: "memo = Some m" "m \<noteq> []" using assms(2) by (elim truthyE)
  define resp where "resp = JObj [(''status'', JStr ''SUCCESS''),
    (''quoteResponse'', JObj [(''quote'', JObj [(''depositMemo'', JStr (CHR ''x'' # m))])])]"
  have "\<not> statusDescribesDeposit numText (Some resp) addr memo"
    by (simp add: statusDescribesDeposit_def resp_def m)
  moreover have "text_of (r ++ historyPatchFromIntentsStatus numText toIso r (Some resp) now ex) F_status = Some ''success''"
    using assms(1)
    by (simp add: text_of_spread history_patch_simps status_patch_status intentsStatusToHistory_def resp_def)
  ultimately show ?thesis by blast
qed

theorem details_take_foreign_status_witness:
  "\<exists>resp. \<not> statusDescribesDeposit (\<lambda>_. []) (Some resp) ''GSHARED'' (Some ''17'') \<and>
    text_of ([F_status \<mapsto> Some (JStr ''pending'')] ++
      historyPatchFromIntentsStatus (\<lambda>_. []) (\<lambda>_. []) [F_status \<mapsto> Some (JStr ''pending'')] (Some resp) 0 (\<lambda>_. None))
      F_status = Some ''success''"
  by (rule details_take_foreign_status) (simp_all add: status_is_def text_of_def prop_of_def)

end
