(* ===== verification/Offers.thy ===== *)
theory Offers
  imports Json "HOL-Library.List_Lexorder" "HOL-Library.Char_ord"
begin

section \<open>The offer book: features/swap-sidecar/types.ts and offers.ts\<close>

text \<open>
  Coin names and amounts of the swap node, offers seen by the taker, and the local mirror of the
  node's bid rules. A finite JavaScript number is a rational; a number that may not be finite is
  an option. Powers of ten, floor and ceiling are exact, so what is shown here about the
  arithmetic is shown of its formulas, not of the rounding of binary fractions.
\<close>

subsection \<open>Coins and amounts\<close>

record BasicSwapCoin =
  coin_ticker :: string
  coin_name :: string
  decimal_places :: "rat option"

definition normalizeCoinKey :: "string option \<Rightarrow> string" where
  "normalizeCoinKey coin =
     to_upper (filter (\<lambda>c. \<not> js_space c \<and> c \<notin> {CHR ''_'', CHR ''-'', CHR ''.''}) (coalesce coin []))"

definition COIN_NAME_TO_TICKER :: "(string \<times> string) list" where
  "COIN_NAME_TO_TICKER =
     [(''PARTICL'', ''PART''), (''PARTICLANON'', ''PART_ANON''), (''PARTICLBLIND'', ''PART_BLIND''),
      (''BITCOIN'', ''BTC''), (''LITECOIN'', ''LTC''), (''LITECOINMWEB'', ''LTC_MWEB''), (''DECRED'', ''DCR''),
      (''NAMECOIN'', ''NMC''), (''MONERO'', ''XMR''), (''WOWNERO'', ''WOW''), (''PIVX'', ''PIVX''),
      (''DASH'', ''DASH''), (''FIRO'', ''FIRO''), (''NAVCOIN'', ''NAV''), (''BITCOINCASH'', ''BCH''),
      (''DOGECOIN'', ''DOGE''), (''ZEPHYR'', ''ZEPH''), (''ZANO'', ''ZANO'')]"

definition DEFAULT_COIN_DECIMALS :: rat where "DEFAULT_COIN_DECIMALS = 8"

definition COIN_DECIMALS :: "(string \<times> rat) list" where
  "COIN_DECIMALS =
     [(''XMR'', 12), (''MONERO'', 12), (''WOW'', 11), (''WOWNERO'', 11), (''ZEPH'', 12), (''ZEPHYR'', 12),
      (''ZANO'', 12)]"

definition SIDECAR_ONLY_TICKERS :: "string list" where "SIDECAR_ONLY_TICKERS = [''XMR'']"

definition SIDECAR_SCRIPTLESS_TICKERS :: "string list" where
  "SIDECAR_SCRIPTLESS_TICKERS = [''XMR'', ''ZEPH'', ''ZANO'']"

definition coin_matches :: "string \<Rightarrow> BasicSwapCoin \<Rightarrow> bool" where
  "coin_matches key c =
     (normalizeCoinKey (Some (coin_ticker c)) = key \<or> normalizeCoinKey (Some (coin_name c)) = key)"

definition is_ticker_char :: "char \<Rightarrow> bool" where
  "is_ticker_char c = (let n = of_char c :: nat in 65 \<le> n \<and> n \<le> 90 \<or> 48 \<le> n \<and> n \<le> 57)"

definition tickerForCoin :: "string option \<Rightarrow> BasicSwapCoin list \<Rightarrow> string option" where
  "tickerForCoin coin coins =
     (let key = normalizeCoinKey coin
      in if key = [] then None
         else case List.find (coin_matches key) coins of
                Some c \<Rightarrow> Some (coin_ticker c)
              | None \<Rightarrow>
                  (case map_of COIN_NAME_TO_TICKER key of
                     Some t \<Rightarrow> Some t
                   | None \<Rightarrow> if length key \<le> 12 \<and> list_all is_ticker_char key then Some key else None))"

definition decimalsForCoin :: "string option \<Rightarrow> BasicSwapCoin list \<Rightarrow> rat" where
  "decimalsForCoin coin coins =
     (let key = normalizeCoinKey coin
      in if key = [] then DEFAULT_COIN_DECIMALS
         else case List.find (\<lambda>c. coin_matches key c \<and> (case decimal_places c of Some d \<Rightarrow> 0 < d | None \<Rightarrow> False)) coins of
                Some c \<Rightarrow> the (decimal_places c)
              | None \<Rightarrow> coalesce (map_of COIN_DECIMALS key) DEFAULT_COIN_DECIMALS)"

definition parseAmount :: "json option \<Rightarrow> rat option" where
  "parseAmount v =
     (case v of
        Some (JNum r) \<Rightarrow> Some r
      | Some (JStr s) \<Rightarrow> if js_trim s = [] then None else js_number (js_trim s)
      | _ \<Rightarrow> None)"

text \<open>\<open>Math.trunc\<close>, and \<open>Math.max(0, Math.min(n, ..))\<close> of it.\<close>

definition trunc :: "rat \<Rightarrow> int" where "trunc r = (if 0 \<le> r then \<lfloor>r\<rfloor> else \<lceil>r\<rceil>)"
definition clamp :: "int \<Rightarrow> rat \<Rightarrow> nat" where "clamp n r = nat (max 0 (min n (trunc r)))"

definition formatAmount :: "rat \<Rightarrow> rat \<Rightarrow> string" where
  "formatAmount amount dec =
     (let s = to_fixed (clamp 20 dec) amount
      in if CHR ''.'' \<in> set s
         then let t = strip_trailing (CHR ''0'') s
              in if t \<noteq> [] \<and> last t = CHR ''.'' then butlast t else t
         else s)"

subsection \<open>Rounding\<close>

definition MAX_SAFE_INTEGER :: rat where "MAX_SAFE_INTEGER = 2 ^ 53 - 1"
definition EPSILON :: rat where "EPSILON = 1 / 2 ^ 52"

definition ulpEpsilon :: "rat \<Rightarrow> rat" where "ulpEpsilon scaled = max (\<bar>scaled\<bar> * EPSILON * 8) EPSILON"

definition clampDecimals :: "rat \<Rightarrow> nat" where "clampDecimals dec = clamp 18 dec"


definition ceilTo :: "rat \<Rightarrow> rat \<Rightarrow> rat" where
  "ceilTo a dec =
     (let factor = 10 ^ clampDecimals dec; scaled = a * factor
      in if MAX_SAFE_INTEGER < \<bar>scaled\<bar> then a
         else of_int \<lceil>scaled - ulpEpsilon scaled\<rceil> / factor)"

definition computeSendAmount :: "rat \<Rightarrow> rat \<Rightarrow> rat \<Rightarrow> rat" where
  "computeSendAmount receiveAmount rate sendDecimals = ceilTo (receiveAmount * rate) sendDecimals"



subsection \<open>Offers in the taker's frame\<close>

definition SWAP_TYPE_XMR :: rat where "SWAP_TYPE_XMR = 5"

definition REVERSED_COIN_KEYS :: "string list" where
  "REVERSED_COIN_KEYS =
     [''XMR'', ''MONERO'', ''WOW'', ''WOWNERO'', ''PARTANON'', ''PARTICLANON'', ''FIRO'', ''DOGE'', ''DOGECOIN'',
      ''PIVX'', ''DASH'', ''ZEPH'', ''ZEPHYR'']"

record BasicSwapOffer =
  offer_id :: string
  swap_type :: "rat option"
  addr_from :: "string option"
  created_at :: rat
  expire_at :: rat
  coin_from :: string
  coin_to :: string
  amount_from :: "json option"
  amount_to :: "json option"
  rate :: "json option"
  min_bid_amount :: "json option"
  is_expired :: "bool option"
  is_own_offer :: "bool option"
  is_revoked :: "bool option"
  amount_negotiable :: "bool option"
  rate_negotiable :: "bool option"

record TakerOffer =
  offerId :: string
  sendCoin :: string
  receiveCoin :: string
  maxReceive :: rat
  maxSend :: rat
  minReceive :: rat
  effectiveRate :: rat
  receivePerSend :: rat
  amountNegotiable :: bool
  rateNegotiable :: bool
  isExpired :: bool
  isOwnOffer :: bool
  isRevoked :: bool
  tradable :: bool
  bidReversed :: bool
  makerAddress :: "string option"
  createdAt :: rat
  expireAt :: rat
  raw :: BasicSwapOffer

definition deriveBidReversed :: "BasicSwapOffer \<Rightarrow> bool" where
  "deriveBidReversed offer =
     (swap_type offer = Some SWAP_TYPE_XMR \<and> normalizeCoinKey (Some (coin_from offer)) \<in> set REVERSED_COIN_KEYS)"

definition minFillableReceive :: "TakerOffer \<Rightarrow> rat \<Rightarrow> rat" where
  "minFillableReceive offer floorReceive =
     (if \<not> amountNegotiable offer then maxReceive offer
      else min (maxReceive offer) (max (minReceive offer) floorReceive))"

definition positive :: "rat option \<Rightarrow> rat option" where
  "positive v = (case v of Some r \<Rightarrow> if 0 < r then Some r else None | None \<Rightarrow> None)"

definition toTakerOffer :: "BasicSwapOffer \<Rightarrow> BasicSwapCoin list \<Rightarrow> TakerOffer option" where
  "toTakerOffer offer coins =
     (let max_send = positive (parseAmount (amount_to offer))
      in case positive (parseAmount (amount_from offer)) of
        None \<Rightarrow> None
      | Some max_receive \<Rightarrow>
          (case or_else (positive (parseAmount (rate offer))) (map_option (\<lambda>s. s / max_receive) max_send) of
             None \<Rightarrow> None
           | Some r \<Rightarrow>
               let expired = (is_expired offer = Some True);
                   own = (is_own_offer offer = Some True);
                   revoked = (is_revoked offer = Some True)
               in Some \<lparr>offerId = offer_id offer, sendCoin = coin_to offer, receiveCoin = coin_from offer,
                    maxReceive = max_receive,
                    maxSend = coalesce max_send (ceilTo (max_receive * r) (decimalsForCoin (Some (coin_to offer)) coins)),
                    minReceive = coalesce (positive (parseAmount (min_bid_amount offer))) 0,
                    effectiveRate = r, receivePerSend = 1 / r,
                    amountNegotiable = (amount_negotiable offer = Some True),
                    rateNegotiable = (rate_negotiable offer = Some True),
                    isExpired = expired, isOwnOffer = own, isRevoked = revoked,
                    tradable = (\<not> expired \<and> \<not> own \<and> \<not> revoked),
                    bidReversed = deriveBidReversed offer, makerAddress = addr_from offer,
                    createdAt = created_at offer, expireAt = expire_at offer, raw = offer\<rparr>))"

definition toTakerOffers :: "BasicSwapOffer list \<Rightarrow> BasicSwapCoin list \<Rightarrow> TakerOffer list" where
  "toTakerOffers offers coins = List.map_filter (\<lambda>x. toTakerOffer x coins) offers"

record DirectionFilter =
  f_sendCoin :: string
  f_receiveCoin :: string
  includeExpired :: bool
  includeOwn :: bool
  includeRevoked :: bool
  f_coins :: "BasicSwapCoin list"

definition sameCoin :: "string \<Rightarrow> string \<Rightarrow> BasicSwapCoin list \<Rightarrow> bool" where
  "sameCoin a b coins =
     (if normalizeCoinKey (Some a) = normalizeCoinKey (Some b) then True
      else case (tickerForCoin (Some a) coins, tickerForCoin (Some b) coins) of
             (Some ta, Some tb) \<Rightarrow> ta = tb
           | _ \<Rightarrow> False)"

definition filterOffersForDirection :: "TakerOffer list \<Rightarrow> DirectionFilter \<Rightarrow> TakerOffer list" where
  "filterOffersForDirection offers f =
     filter (\<lambda>x.
       if \<not> sameCoin (sendCoin x) (f_sendCoin f) (f_coins f) then False
       else if \<not> sameCoin (receiveCoin x) (f_receiveCoin f) (f_coins f) then False
       else if \<not> includeExpired f \<and> isExpired x then False
       else if \<not> includeOwn f \<and> isOwnOffer x then False
       else if \<not> includeRevoked f \<and> isRevoked x then False
       else True) offers"

definition offer_before :: "TakerOffer \<Rightarrow> TakerOffer \<Rightarrow> bool" where
  "offer_before a b = (if effectiveRate a \<noteq> effectiveRate b then effectiveRate a < effectiveRate b
                       else offerId a < offerId b)"

definition rankOffers :: "TakerOffer list \<Rightarrow> TakerOffer list" where
  "rankOffers offers = sort_by offer_before offers"

definition bestOffer :: "TakerOffer list \<Rightarrow> TakerOffer option" where
  "bestOffer offers = (case rankOffers (filter tradable offers) of [] \<Rightarrow> None | x # _ \<Rightarrow> Some x)"

subsection \<open>Floors\<close>

definition PROTOCOL_MIN_COIN_AMOUNT :: rat where "PROTOCOL_MIN_COIN_AMOUNT = 1 / 1000"

datatype binding_leg = BindsSend | BindsReceive

record PairFloor =
  fl_sendCoin :: string
  fl_receiveCoin :: string
  receiveFloor :: rat
  sendFloor :: rat
  binding :: "binding_leg option"
  bindingCoin :: "string option"
  cannotJudge :: bool
  fl_sentence :: string

definition protocolFloorForPair ::
    "string \<Rightarrow> string \<Rightarrow> rat option \<Rightarrow> rat \<Rightarrow> rat \<Rightarrow> rat \<Rightarrow> rat \<Rightarrow> PairFloor" where
  "protocolFloorForPair sendC receiveC r sendMin receiveMin sendDec receiveDec =
     (case positive r of
        None \<Rightarrow>
          \<lparr>fl_sendCoin = sendC, fl_receiveCoin = receiveC, receiveFloor = ceilTo receiveMin receiveDec,
           sendFloor = ceilTo sendMin sendDec, binding = None, bindingCoin = None, cannotJudge = True,
           fl_sentence =
             ''Each side of a swap must be at least '' @ formatAmount receiveMin receiveDec @
             '' of its own coin. Without a price for this pair the wallet cannot work out which side sets the real minimum.''\<rparr>
      | Some rt \<Rightarrow>
          let fromSend = sendMin / rt;
              bindsSend = receiveMin < fromSend;
              rf = ceilTo (max receiveMin fromSend) receiveDec;
              sf = ceilTo (rf * rt) sendDec;
              coin = (if bindsSend then sendC else receiveC)
          in \<lparr>fl_sendCoin = sendC, fl_receiveCoin = receiveC, receiveFloor = rf, sendFloor = sf,
              binding = Some (if bindsSend then BindsSend else BindsReceive), bindingCoin = Some coin,
              cannotJudge = False,
              fl_sentence =
                ''The smallest swap on this pair is '' @ formatAmount sf sendDec @ '' '' @ sendC @
                '' for '' @ formatAmount rf receiveDec @ '' '' @ receiveC @
                ''. Both sides of an atomic swap have to be at least '' @ formatAmount receiveMin receiveDec @
                '' of their own coin, and here the '' @ coin @ '' side is the one that binds.''\<rparr>)"

subsection \<open>The bid rules\<close>

datatype BidValidationCode =
    BidOk
  | OfferUnavailable
  | InvalidAmount
  | NotNegotiableMustBeExact
  | BelowOfferMinimum
  | BelowProtocolMinimum
  | AboveOfferMaximum
  | RateMismatch

record BidValidation =
  bv_code :: BidValidationCode
  bv_message :: string
  receiveAmount :: rat
  sendAmount :: rat
  snapped :: bool
  bv_floor :: PairFloor

record BidValidationOptions =
  receiveDecimals :: "rat option"
  sendDecimals :: "rat option"
  rateTolerance :: "rat option"
  protocolMinimum :: "rat option"
  bo_coins :: "BasicSwapCoin list"

definition bid_ok :: "BidValidation \<Rightarrow> bool" where "bid_ok v = (bv_code v = BidOk)"

definition receive_dec :: "TakerOffer \<Rightarrow> BidValidationOptions \<Rightarrow> rat" where
  "receive_dec offer opts = coalesce (receiveDecimals opts) (decimalsForCoin (Some (receiveCoin offer)) (bo_coins opts))"

definition send_dec :: "TakerOffer \<Rightarrow> BidValidationOptions \<Rightarrow> rat" where
  "send_dec offer opts = coalesce (sendDecimals opts) (decimalsForCoin (Some (sendCoin offer)) (bo_coins opts))"

definition floor_of :: "TakerOffer \<Rightarrow> BidValidationOptions \<Rightarrow> PairFloor" where
  "floor_of offer opts =
     (let m = coalesce (protocolMinimum opts) PROTOCOL_MIN_COIN_AMOUNT
      in protocolFloorForPair (sendCoin offer) (receiveCoin offer) (Some (effectiveRate offer)) m m
           (send_dec offer opts) (receive_dec offer opts))"

definition bid_result ::
    "TakerOffer \<Rightarrow> BidValidationOptions \<Rightarrow> BidValidationCode \<Rightarrow> string \<Rightarrow> rat \<Rightarrow> bool \<Rightarrow> BidValidation" where
  "bid_result offer opts code message receive snap =
     \<lparr>bv_code = code, bv_message = message, receiveAmount = receive,
      sendAmount = computeSendAmount receive (effectiveRate offer) (send_dec offer opts), snapped = snap,
      bv_floor = floor_of offer opts\<rparr>"


subsection \<open>What the node can fund\<close>

record node_row =
  nr_balance :: "json option"
  nr_locked :: bool
  nr_expectedSeed :: "bool option"

datatype FundingVerdict = FundingOk | FundingUnknown string | FundingShort rat rat string

definition assessBidFunding :: "string \<Rightarrow> rat option \<Rightarrow> (string \<rightharpoonup> node_row) \<Rightarrow> rat option \<Rightarrow> FundingVerdict" where
  "assessBidFunding sendTicker amount rows sendDec =
     (let key = to_upper sendTicker
      in case rows key of
        None \<Rightarrow> FundingUnknown (''The swap node has not reported a '' @ key @ '' balance yet.'')
      | Some r \<Rightarrow>
          if nr_locked r then
            FundingUnknown (''The swap node's '' @ key @ '' wallet is locked, so its balance cannot be checked.'')
          else case parseAmount (nr_balance r) of
            None \<Rightarrow> FundingUnknown (''The swap node did not report a readable '' @ key @ '' balance.'')
          | Some have \<Rightarrow>
              (case positive amount of
                 None \<Rightarrow> FundingUnknown ''No amount to check yet.''
               | Some need \<Rightarrow>
                   if need \<le> have then FundingOk
                   else let dp = coalesce sendDec DEFAULT_COIN_DECIMALS
                        in FundingShort have need
                          (''The swap node holds '' @ formatAmount have dp @ '' '' @ key @ '' and this swap needs '' @
                           formatAmount need dp @ '' '' @ key @ ''. Deposit to the node's '' @ key @
                           '' address, or lower the amount '' @ [CHR 0xE2, CHR 0x80, CHR 0x94] @
                           '' a bid it cannot fund is refused when the lock is built.'')))"

datatype WalletSeedVerdict = SeedOk | SeedNotReady string

fun first_unconfirmed :: "(string \<rightharpoonup> node_row) \<Rightarrow> string list \<Rightarrow> WalletSeedVerdict" where
  "first_unconfirmed rows [] = SeedOk"
| "first_unconfirmed rows (t # ts) =
     (case rows (to_upper t) of
        Some r \<Rightarrow> if nr_expectedSeed r = Some False then SeedNotReady (to_upper t) else first_unconfirmed rows ts
      | None \<Rightarrow> first_unconfirmed rows ts)"

definition assessWalletSeedReadiness :: "string \<Rightarrow> string \<Rightarrow> (string \<rightharpoonup> node_row) \<Rightarrow> WalletSeedVerdict" where
  "assessWalletSeedReadiness sendTicker receiveTicker rows = first_unconfirmed rows [sendTicker, receiveTicker]"

subsection \<open>The best offer\<close>

lemma weak_order_offers: "weak_order offer_before"
  unfolding weak_order_def offer_before_def by (auto split: if_splits)

text \<open>The offer put first is the best one: it can be taken, and no offer that can be taken asks less
  for each coin received; there is none exactly when none can be taken.\<close>

theorem best_offer_is_cheapest:
  "case bestOffer offers of
     None \<Rightarrow> filter tradable offers = []
   | Some b \<Rightarrow> b \<in> set (filter tradable offers) \<and>
       list_all (\<lambda>x. effectiveRate b \<le> effectiveRate x) (filter tradable offers)"
proof (cases "rankOffers (filter tradable offers)")
  case Nil
  then show ?thesis by (simp add: bestOffer_def rankOffers_def)
next
  case (Cons b bs)
  have "set (rankOffers (filter tradable offers)) = set (filter tradable offers)"
    by (simp add: rankOffers_def)
  then have b: "b \<in> set (filter tradable offers)" using Cons by auto
  have "effectiveRate b \<le> effectiveRate x" if "x \<in> set (filter tradable offers)" for x
  proof -
    have "\<not> offer_before x b"
      using sort_by_first_least [OF weak_order_offers, of "filter tradable offers" b bs x] Cons that
      by (simp add: rankOffers_def)
    then show ?thesis by (auto simp: offer_before_def split: if_splits)
  qed
  then show ?thesis using b Cons by (simp add: bestOffer_def list_all_iff)
qed

subsection \<open>Which bids pass\<close>


lemma bid_result_simps [simp]:
  "bv_code (bid_result offer opts c m x y) = c" "receiveAmount (bid_result offer opts c m x y) = x"
  "sendAmount (bid_result offer opts c m x y) = computeSendAmount x (effectiveRate offer) (send_dec offer opts)"
  by (simp_all add: bid_result_def)






















subsection \<open>Where rounding down rounds up\<close>

lemma floor_add_int: "\<lfloor>of_int n + (e :: rat)\<rfloor> = n + \<lfloor>e\<rfloor>" by simp










end
