(* ===== verification/Payout.thy ===== *)
theory Payout
  imports Offers Regex
begin

section \<open>Where a peer-to-peer swap pays out\<close>

text \<open>
  \<open>features/swap-sidecar/payoutDestination.ts\<close> and the pure part of \<open>licenceFee.ts\<close>: whether the swap
  engine is asked to pay the address the user reviewed, or the coins stay in the node's wallet.
  The three dots of the example forms are held as their UTF-8 bytes.
\<close>

subsection \<open>The licence fee\<close>

definition SCRIPTLESS_FEE_TICKERS :: "string list" where "SCRIPTLESS_FEE_TICKERS = [''XMR'', ''ZEPH'', ''ZANO'']"

record FeeLeg =
  leg_ticker :: string
  leg_amount :: string

definition feeLegFor :: "string \<Rightarrow> string \<Rightarrow> string \<Rightarrow> string \<Rightarrow> FeeLeg option" where
  "feeLegFor sendC sendA receiveC receiveA =
     (case (tickerForCoin (Some sendC) [], tickerForCoin (Some receiveC) []) of
        (Some send, Some receive) \<Rightarrow>
          (let scriptless = (\<lambda>t. t \<in> set SCRIPTLESS_FEE_TICKERS)
           in if send = receive then None
              else if scriptless send = scriptless receive then None
              else if scriptless send then Some \<lparr>leg_ticker = receive, leg_amount = receiveA\<rparr>
              else Some \<lparr>leg_ticker = send, leg_amount = sendA\<rparr>)
      | _ \<Rightarrow> None)"

definition FEE_SCHEDULE_TICKERS :: "string list" where "FEE_SCHEDULE_TICKERS = [''LTC'', ''BCH'', ''BTC'']"

definition LICENCE_FEE_FRACTION :: rat where "LICENCE_FEE_FRACTION = 5 / 1000"

definition feeBearingPurchase :: "string \<Rightarrow> string \<Rightarrow> bool" where
  "feeBearingPurchase sold bought =
     (case feeLegFor sold [] bought [] of
        None \<Rightarrow> False
      | Some leg \<Rightarrow> Some (leg_ticker leg) = tickerForCoin (Some bought) [] \<and> leg_ticker leg \<in> set FEE_SCHEDULE_TICKERS)"

datatype SidecarFeeQuote = Charge string nat nat | Skip string

datatype LicenceFee = FeeLoading | FeeCharged string string rat | FeeFree string | FeeUnknown

definition fromAtomic :: "nat \<Rightarrow> string" where
  "fromAtomic atomic = nat_str (atomic div 10 ^ 8) @ ''.'' @ pad_start 8 (CHR ''0'') (nat_str (atomic mod 10 ^ 8))"

definition licenceFeeFrom :: "SidecarFeeQuote \<Rightarrow> LicenceFee" where
  "licenceFeeFrom quote =
     (case quote of
        Charge t amount notional \<Rightarrow>
          FeeCharged (fromAtomic amount) t (if 0 < notional then of_nat amount / of_nat notional * 100 else 0)
      | Skip reason \<Rightarrow> FeeFree reason)"

definition licenceFeeLabel :: "LicenceFee \<Rightarrow> string" where
  "licenceFeeLabel fee =
     (case fee of
        FeeCharged a t percent \<Rightarrow> a @ '' '' @ t @ '' ('' @ to_fixed 2 percent @ ''%)''
      | FeeFree reason \<Rightarrow> if reason = ''noScriptlessLeg'' then ''none on this pair'' else ''none on this swap''
      | FeeUnknown \<Rightarrow> [CHR 0xE2, CHR 0x80, CHR 0x94]
      | FeeLoading \<Rightarrow> [CHR 0xE2, CHR 0x80, CHR 0xA6])"

subsection \<open>Address forms\<close>

definition bech32_class :: "(nat \<times> nat) list" where
  "bech32_class = map (\<lambda>c. (of_char c, of_char c)) ''qpzry9x8gf2tvdw0s3jn54khce6mua7l''"

definition base58_class :: "(nat \<times> nat) list" where
  "base58_class = [(49, 57), (65, 72), (74, 78), (80, 90), (97, 107), (109, 122)]"

definition shape :: "string \<Rightarrow> nat \<Rightarrow> (nat \<times> nat) list \<Rightarrow> rx" where
  "shape prefix n cls = Cat [AtStart, lit prefix, Times n n (Cls False cls), AtEnd]"

definition PAYOUT_ADDRESS_SHAPES :: "(string \<times> rx) list" where
  "PAYOUT_ADDRESS_SHAPES =
     [(''BTC'', shape ''bc1q'' 38 bech32_class),
      (''LTC'', shape ''ltc1q'' 38 bech32_class),
      (''BCH'', shape ''bitcoincash:q'' 41 bech32_class),
      (''DOGE'', shape ''D'' 33 base58_class),
      (''DASH'', shape ''X'' 33 base58_class),
      (''XMR'', Cat [AtStart, Cls False [(52, 52), (56, 56)], Times 94 94 (Cls False base58_class), AtEnd]),
      (''ZEPH'', Cat [AtStart, Or [Cat [lit ''ZEPHYR'', Times 95 95 (Cls False base58_class)],
                                  Cat [lit ''ZEPHs'', Times 94 94 (Cls False base58_class)]], AtEnd]),
      (''ZANO'', shape ''Zx'' 95 base58_class)]"

definition dots :: string where "dots = [CHR 0xE2, CHR 0x80, CHR 0xA6]"

definition PAYOUT_ADDRESS_FORM :: "(string \<times> string) list" where
  "PAYOUT_ADDRESS_FORM =
     [(''BTC'', ''bc1q'' @ dots), (''LTC'', ''ltc1q'' @ dots), (''BCH'', ''bitcoincash:q'' @ dots),
      (''DOGE'', ''D'' @ dots), (''DASH'', ''X'' @ dots), (''XMR'', ''4'' @ dots @ '' or 8'' @ dots),
      (''ZEPH'', ''ZEPHYR'' @ dots @ '' or ZEPHs'' @ dots), (''ZANO'', ''Zx'' @ dots)]"

datatype connection_need = NeedElectrum | NeedAny

definition PAYOUT_CONNECTION_REQUIRED :: "(string \<times> connection_need) list" where
  "PAYOUT_CONNECTION_REQUIRED =
     [(''BTC'', NeedElectrum), (''LTC'', NeedElectrum), (''BCH'', NeedElectrum), (''DOGE'', NeedElectrum),
      (''DASH'', NeedElectrum), (''XMR'', NeedAny), (''ZEPH'', NeedAny), (''ZANO'', NeedAny)]"

subsection \<open>The plan\<close>

datatype NodeWalletReason = NoAddress | WrongProtocol | NoRule | FeeTaken | WrongForm | WrongConnection | ConnectionUnknown

datatype PayoutPlan =
    ToAddress string string
  | ToNodeWallet string NodeWalletReason "string option"

record PayoutOffer =
  po_receiveCoin :: string
  po_sendCoin :: string
  po_swapType :: "rat option"
  po_receiveConnection :: "string option"

record PayoutCase =
  pc_offer :: PayoutOffer
  pc_ticker :: string
  pc_sold :: string
  pc_address :: string

definition connectionRefusal :: "string \<Rightarrow> string option \<Rightarrow> NodeWalletReason option" where
  "connectionRefusal t connection =
     (let need = map_of PAYOUT_CONNECTION_REQUIRED t
      in if need = Some NeedAny then None
         else if need = Some NeedElectrum \<and> connection = Some ''electrum'' then None
         else if connection = None then Some ConnectionUnknown else Some WrongConnection)"

definition PAYOUT_CHECKS :: "(string \<times> (PayoutCase \<Rightarrow> NodeWalletReason option)) list" where
  "PAYOUT_CHECKS =
     [(''protocol'', \<lambda>c. if po_swapType (pc_offer c) = Some SWAP_TYPE_XMR then None else Some WrongProtocol),
      (''coin'', \<lambda>c. if map_of PAYOUT_ADDRESS_SHAPES (pc_ticker c) \<noteq> None then None else Some NoRule),
      (''fee'', \<lambda>c. if feeBearingPurchase (pc_sold c) (pc_ticker c) then Some FeeTaken else None),
      (''form'', \<lambda>c. case map_of PAYOUT_ADDRESS_SHAPES (pc_ticker c) of
                        Some re \<Rightarrow> if rx_test False re (pc_address c) then None else Some WrongForm
                      | None \<Rightarrow> Some WrongForm),
      (''connection'', \<lambda>c. connectionRefusal (pc_ticker c) (po_receiveConnection (pc_offer c)))]"

definition normalize_payout :: "string \<Rightarrow> string \<Rightarrow> string" where
  "normalize_payout t address =
     (if t \<noteq> ''BCH'' then address
      else let lower = to_lower address
           in if address \<noteq> lower \<and> address \<noteq> to_upper address then address
              else if starts_with lower ''bitcoincash:'' then lower else ''bitcoincash:'' @ lower)"

definition payout_ticker :: "string \<Rightarrow> string" where
  "payout_ticker coin = to_upper (js_trim (coalesce (tickerForCoin (Some coin) []) coin))"

text \<open>The loop over the checks: the first refusal.\<close>

fun first_refusal :: "(string \<times> (PayoutCase \<Rightarrow> NodeWalletReason option)) list \<Rightarrow> PayoutCase \<Rightarrow> NodeWalletReason option" where
  "first_refusal [] c = None"
| "first_refusal ((_, refuse) # cs) c = (case refuse c of Some r \<Rightarrow> Some r | None \<Rightarrow> first_refusal cs c)"

definition planPayout :: "PayoutOffer \<Rightarrow> string option \<Rightarrow> PayoutPlan" where
  "planPayout offer reviewedAddress =
     (let t = payout_ticker (po_receiveCoin offer);
          address = js_trim (coalesce reviewedAddress [])
      in if address = [] then ToNodeWallet t NoAddress None
         else let c = \<lparr>pc_offer = offer, pc_ticker = t, pc_sold = payout_ticker (po_sendCoin offer),
                       pc_address = normalize_payout t address\<rparr>
              in case first_refusal PAYOUT_CHECKS c of
                   Some reason \<Rightarrow> ToNodeWallet t reason (Some address)
                 | None \<Rightarrow> ToAddress t (pc_address c))"

definition FEE_KEPT_TAIL :: string where
  "FEE_KEPT_TAIL = ''so the swap fee can be taken from it. Sweep back (in Settings) moves it to your wallet, unless that wallet is already shared with this one.''"

definition nodeWalletPayoutNote :: "PayoutPlan \<Rightarrow> string option" where
  "nodeWalletPayoutNote plan =
     (case plan of
        ToAddress _ _ \<Rightarrow> None
      | ToNodeWallet t reason _ \<Rightarrow>
          let place = ''It lands in your swap node's '' @ t @ '' wallet''
          in Some (case reason of
               WrongForm \<Rightarrow> place @ '', not at this address: the swap engine pays a '' @ t @
                 '' address as written only in the '' @ coalesce (map_of PAYOUT_ADDRESS_FORM t) ''default'' @
                 '' form, and would pay this one somewhere else.''
             | WrongProtocol \<Rightarrow> place @ '': this offer's swap protocol pays the node's own wallet whatever address is given.''
             | NoRule \<Rightarrow> place @ '': the wallet has no payout rule for this coin.''
             | FeeTaken \<Rightarrow> place @ '' '' @ FEE_KEPT_TAIL
             | WrongConnection \<Rightarrow> place @ '': your swap node follows '' @ t @
                 '' through a full node, which can confirm a payment only to its own wallet, so this address is not sent.''
             | ConnectionUnknown \<Rightarrow> place @ '': the wallet could not read how your swap node connects to '' @ t @
                 '', so this address is not sent.''
             | NoAddress \<Rightarrow> place @ ''.''))"

subsection \<open>Only the reviewed address is paid\<close>

lemma normalize_payout_cases:
  "normalize_payout t a = a \<or> t = ''BCH'' \<and> (normalize_payout t a = to_lower a \<or>
     normalize_payout t a = ''bitcoincash:'' @ to_lower a)"
  by (auto simp: normalize_payout_def Let_def)

lemma first_refusal_None: "first_refusal cs c = None \<longleftrightarrow> list_all (\<lambda>(_, refuse). refuse c = None) cs"
  by (induction cs c rule: first_refusal.induct) (auto split: option.split)

text \<open>C16. The engine is asked to pay an address only when it pays it as written: the address is the one the
  user reviewed (for Bitcoin Cash up to the prefix and the case), it has the form the engine keeps
  for that coin, the offer uses the protocol that honours it, the node's connection can watch it,
  and no fee has to be taken from the payout.\<close>

theorem payout_address_is_reviewed:
  assumes "planPayout offer reviewed = ToAddress t a"
  shows "(a = js_trim (the reviewed) \<or>
      t = ''BCH'' \<and> (a = to_lower (js_trim (the reviewed)) \<or> a = ''bitcoincash:'' @ to_lower (js_trim (the reviewed)))) \<and>
    t = payout_ticker (po_receiveCoin offer) \<and>
    (\<exists>re. map_of PAYOUT_ADDRESS_SHAPES t = Some re \<and> rx_test False re a) \<and>
    po_swapType offer = Some SWAP_TYPE_XMR \<and>
    \<not> feeBearingPurchase (payout_ticker (po_sendCoin offer)) t \<and>
    (map_of PAYOUT_CONNECTION_REQUIRED t = Some NeedAny \<or>
     map_of PAYOUT_CONNECTION_REQUIRED t = Some NeedElectrum \<and> po_receiveConnection offer = Some ''electrum'')"
proof -
  obtain r where r: "reviewed = Some r" "js_trim r \<noteq> []"
    using assms by (cases reviewed) (auto simp: planPayout_def Let_def split: if_splits)
  define c where "c = \<lparr>pc_offer = offer, pc_ticker = payout_ticker (po_receiveCoin offer),
    pc_sold = payout_ticker (po_sendCoin offer),
    pc_address = normalize_payout (payout_ticker (po_receiveCoin offer)) (js_trim r)\<rparr>"
  have c: "first_refusal PAYOUT_CHECKS c = None" "t = pc_ticker c" "a = pc_address c"
    using assms r by (auto simp: planPayout_def Let_def c_def split: option.splits if_splits)
  note checks = c(1) [unfolded first_refusal_None PAYOUT_CHECKS_def, simplified]
  have "connectionRefusal t (po_receiveConnection offer) = None"
    using checks c(2) by (simp add: c_def)
  then have "map_of PAYOUT_CONNECTION_REQUIRED t = Some NeedAny \<or>
     map_of PAYOUT_CONNECTION_REQUIRED t = Some NeedElectrum \<and> po_receiveConnection offer = Some ''electrum''"
    by (auto simp: connectionRefusal_def Let_def split: if_splits)
  moreover have "\<exists>re. map_of PAYOUT_ADDRESS_SHAPES t = Some re \<and> rx_test False re a"
    using checks c(2,3) by (auto split: option.splits if_splits)
  moreover have "po_swapType offer = Some SWAP_TYPE_XMR" "\<not> feeBearingPurchase (payout_ticker (po_sendCoin offer)) t"
    using checks c(2) by (auto simp: c_def split: if_splits)
  moreover have "a = js_trim r \<or> t = ''BCH'' \<and> (a = to_lower (js_trim r) \<or> a = ''bitcoincash:'' @ to_lower (js_trim r))"
    using normalize_payout_cases [of t "js_trim r"] c(2,3) by (simp add: c_def)
  ultimately show ?thesis using r c(2) by (simp add: c_def)
qed

definition demo_payout :: PayoutOffer where
  "demo_payout = \<lparr>po_receiveCoin = ''Dash'', po_sendCoin = ''Bitcoin'', po_swapType = Some 5,
     po_receiveConnection = Some ''electrum''\<rparr>"

definition demo_dash :: string where "demo_dash = CHR ''X'' # replicate 33 (CHR ''a'')"

lemma demo_plan: "planPayout demo_payout (Some demo_dash) = ToAddress ''DASH'' demo_dash"
  by code_simp

theorem payout_address_is_reviewed_witness:
  "\<exists>re. map_of PAYOUT_ADDRESS_SHAPES ''DASH'' = Some re \<and> rx_test False re demo_dash"
  using payout_address_is_reviewed [OF demo_plan] by blast

end
