(* ===== verification/Rlp.thy ===== *)
theory Rlp
  imports Cbor
begin

section \<open>RLP: the reader of features/swap/safety-invariants.ts\<close>

text \<open>
  The decoder that reads a signed EVM transaction back before it is broadcast. Lengths are 32-bit
  signed numbers, as the shifts of the code make them, and offsets are integers that may run past
  the input or before it. The loop over a list need not end, so it is a partial function: None is
  a call that never returns. \<open>rlp_enc\<close> is the encoding of the Ethereum yellow paper, not code of
  the repository; what it writes is read back.
\<close>

unbundle bit_operations_syntax

datatype RlpItem = RBytes "byte list" | RList "RlpItem list"

datatype rlp_error = TrailingBytes | UnexpectedEnd

subsection \<open>The decoder\<close>

text \<open>\<open>bytes.subarray(begin, end)\<close>: a negative index counts from the end, both are clamped.\<close>

definition clamp_index :: "nat \<Rightarrow> int \<Rightarrow> nat" where
  "clamp_index n i = (if i < 0 then nat (int n + i) else min (nat i) n)"

definition subarray :: "byte list \<Rightarrow> int \<Rightarrow> int \<Rightarrow> byte list" where
  "subarray bytes a e =
     (let a' = clamp_index (length bytes) a; e' = clamp_index (length bytes) e
      in take (e' - a') (drop a' bytes))"

definition readBigEndianUint :: "byte list \<Rightarrow> nat \<Rightarrow> nat \<Rightarrow> int" where
  "readBigEndianUint bytes offset n =
     sint (foldl (\<lambda>v i. push_bit 8 v OR (if offset + i < length bytes then ucast (bytes ! (offset + i)) else 0))
            (0 :: 32 word) [0..<n])"

text \<open>
  What \<open>rlpDecodeItem\<close> finds at an offset inside the input: the bytes of a string or the inner bytes
  of a list, and the offset after it.
\<close>

datatype rlp_part = Leaf "byte list" | Sub "byte list"

definition item_part :: "byte list \<Rightarrow> nat \<Rightarrow> rlp_part \<times> int" where
  "item_part bytes offset =
     (let b = uint (bytes ! offset); p = int offset
      in if b \<le> 0x7f then (Leaf (subarray bytes p (p + 1)), p + 1)
         else if b \<le> 0xb7 then
           let len = b - 0x80 in (Leaf (subarray bytes (p + 1) (p + 1 + len)), p + 1 + len)
         else if b \<le> 0xbf then
           let lenLen = b - 0xb7; len = readBigEndianUint bytes (offset + 1) (nat lenLen)
           in (Leaf (subarray bytes (p + 1 + lenLen) (p + 1 + lenLen + len)), p + 1 + lenLen + len)
         else if b \<le> 0xf7 then
           let len = b - 0xc0 in (Sub (subarray bytes (p + 1) (p + 1 + len)), p + 1 + len)
         else
           let lenLen = b - 0xf7; len = readBigEndianUint bytes (offset + 1) (nat lenLen)
           in (Sub (subarray bytes (p + 1 + lenLen) (p + 1 + lenLen + len)), p + 1 + lenLen + len))"

text \<open>
  The loop of \<open>rlpDecodeList\<close> from an offset on. Before the input \<open>bytes[offset]\<close> is \<open>undefined\<close>: every
  comparison with it fails, the last branch reads no length and takes an empty list, and the next
  offset is \<open>NaN\<close>, which ends the loop.
\<close>

partial_function (option) rlp_list :: "byte list \<Rightarrow> int \<Rightarrow> RlpItem list option" where
  "rlp_list bytes off =
     (if int (length bytes) \<le> off then Some []
      else if off < 0 then Some [RList []]
      else case item_part bytes (nat off) of
        (part, after) \<Rightarrow>
          (case part of
             Leaf d \<Rightarrow> Option.bind (rlp_list bytes after) (\<lambda>items. Some (RBytes d # items))
           | Sub inner \<Rightarrow>
               Option.bind (rlp_list inner 0) (\<lambda>xs.
               Option.bind (rlp_list bytes after) (\<lambda>items. Some (RList xs # items)))))"

definition rlpDecodeList :: "byte list \<Rightarrow> RlpItem list option" where
  "rlpDecodeList bytes = rlp_list bytes 0"

definition rlpDecodeItem :: "byte list \<Rightarrow> nat \<Rightarrow> (rlp_error + RlpItem \<times> int) option" where
  "rlpDecodeItem bytes offset =
     (if length bytes \<le> offset then Some (Inl UnexpectedEnd)
      else case item_part bytes offset of
        (Leaf d, after) \<Rightarrow> Some (Inr (RBytes d, after))
      | (Sub inner, after) \<Rightarrow> map_option (\<lambda>xs. Inr (RList xs, after)) (rlpDecodeList inner))"

definition rlpDecode :: "byte list \<Rightarrow> (rlp_error + RlpItem) option" where
  "rlpDecode bytes =
     map_option (\<lambda>r. case r of
         Inl e \<Rightarrow> Inl e
       | Inr (item, consumed) \<Rightarrow> if consumed \<noteq> int (length bytes) then Inl TrailingBytes else Inr item)
       (rlpDecodeItem bytes 0)"

subsection \<open>The encoding\<close>

definition len_bytes :: "nat \<Rightarrow> nat" where
  "len_bytes n = (if n < 256 then 1 else if n < 65536 then 2 else if n < 16777216 then 3 else 4)"

definition rlp_header :: "int \<Rightarrow> nat \<Rightarrow> byte list" where
  "rlp_header base n =
     (if n \<le> 55 then [byte (base + int n)]
      else byte (base + 55 + int (len_bytes n)) # be_bytes (len_bytes n) (int n))"

fun rlp_enc :: "RlpItem \<Rightarrow> byte list" where
  "rlp_enc (RBytes d) =
     (if length d = 1 \<and> uint (hd d) \<le> 0x7f then d else rlp_header 0x80 (length d) @ d)"
| "rlp_enc (RList xs) =
     (let body = concat (map rlp_enc xs) in rlp_header 0xc0 (length body) @ body)"

fun rlp_fits :: "RlpItem \<Rightarrow> bool" where
  "rlp_fits (RBytes d) = (length d < 2 ^ 31)"
| "rlp_fits (RList xs) = (length (concat (map rlp_enc xs)) < 2 ^ 31 \<and> list_all rlp_fits xs)"

subsection \<open>Reading lengths\<close>

lemma shift_or_byte: "push_bit 8 w OR (ucast (b :: 8 word) :: 32 word) = w * 256 + ucast b"
proof -
  have "push_bit 8 w OR ucast b = push_bit 8 w + (ucast b :: 32 word)"
    by (rule disjunctive_add [symmetric])
      (auto simp: bit_push_bit_iff bit_ucast_iff dest: bit_imp_le_length)
  then show ?thesis by (simp add: push_bit_eq_mult mult.commute)
qed

lemma foldl_shift_or:
  "foldl (\<lambda>v b. push_bit 8 v OR ucast b) (word_of_int a :: 32 word) bs =
   word_of_int (a * 256 ^ length bs + be_val bs)" for bs :: "byte list"
proof (induction bs arbitrary: a)
  case (Cons b bs)
  have "push_bit 8 (word_of_int a :: 32 word) OR ucast b = word_of_int (a * 256 + uint b)"
    by (simp add: shift_or_byte word_of_int_uint)
  then show ?case using Cons [of "a * 256 + uint b"] by (simp add: be_val_Cons algebra_simps)
qed simp

lemma readBigEndianUint_word:
  assumes "length mid = n"
  shows "readBigEndianUint (pre @ mid @ post) (length pre) n = sint (word_of_int (be_val mid) :: 32 word)"
proof -
  have m: "map (\<lambda>i. (pre @ mid @ post) ! (length pre + i)) [0..<n] = mid"
    using assms by (intro nth_equalityI) (simp_all add: nth_append)
  have "foldl (\<lambda>v i. push_bit 8 v OR (if length pre + i < length (pre @ mid @ post)
          then ucast ((pre @ mid @ post) ! (length pre + i)) else 0)) (0 :: 32 word) [0..<n] =
      foldl (\<lambda>v i. push_bit 8 v OR ucast ((pre @ mid @ post) ! (length pre + i))) (0 :: 32 word) [0..<n]"
    using assms by (intro foldl_cong) auto
  also have "\<dots> = foldl (\<lambda>v b. push_bit 8 v OR ucast b) (0 :: 32 word)
      (map (\<lambda>i. (pre @ mid @ post) ! (length pre + i)) [0..<n])"
    by (simp only: foldl_map)
  also have "\<dots> = word_of_int (be_val mid)"
    unfolding m using foldl_shift_or [of 0 mid] by simp
  finally show ?thesis by (simp only: readBigEndianUint_def)
qed

lemma readBigEndianUint_be:
  "length mid = n \<Longrightarrow> be_val mid < 2 ^ 31 \<Longrightarrow>
   readBigEndianUint (pre @ mid @ post) (length pre) n = be_val mid"
  using be_val_bound [of mid]
  by (simp add: readBigEndianUint_word sint_sbintrunc' signed_take_bit_int_eq_self)

subsection \<open>Reading back what the encoding writes\<close>

lemma clamp_index_nat [simp]: "clamp_index n (int i) = min i n"
  by (simp add: clamp_index_def)

lemma subarray_mid: "subarray (pre @ mid @ post) (int (length pre)) (int (length pre) + int (length mid)) = mid"
proof -
  have "int (length pre) + int (length mid) = int (length pre + length mid)" by simp
  then show ?thesis by (simp only: subarray_def clamp_index_nat Let_def) simp
qed

lemma len_bytes_fits: "n < 2 ^ 31 \<Longrightarrow> int n < 2 ^ (8 * len_bytes n)" "1 \<le> len_bytes n" "len_bytes n \<le> 4"
  by (auto simp: len_bytes_def)

lemma be_val_len_bytes: "n < 2 ^ 31 \<Longrightarrow> be_val (be_bytes (len_bytes n) (int n)) = int n"
  using len_bytes_fits(1) [of n] by (simp add: be_val_be_bytes)

text \<open>The base is \<open>0x80\<close> for a string and \<open>0xc0\<close> for a list.\<close>

lemma item_part_header:
  assumes "length body < 2 ^ 31" "base = 0x80 \<and> part = Leaf body \<or> base = 0xc0 \<and> part = Sub body"
  shows "item_part (pre @ rlp_header base (length body) @ body @ post) (length pre) =
    (part, int (length pre + length (rlp_header base (length body)) + length body))"
proof (cases "length body \<le> 55")
  case True
  let ?b = "base + int (length body)"
  have u: "uint (byte ?b) = ?b" using True assms(2) by (intro uint_byte) auto
  have s: "subarray (pre @ byte ?b # body @ post) (int (length pre) + 1) (int (length pre) + 1 + int (length body)) = body"
    using subarray_mid [of "pre @ [byte ?b]" body post] by (simp add: ac_simps)
  show ?thesis using assms(2) True u s
    by (auto simp: item_part_def rlp_header_def Let_def nth_append ac_simps)
next
  case False
  let ?k = "len_bytes (length body)"
  let ?b = "base + 55 + int ?k" and ?l = "be_bytes ?k (int (length body))"
  have k: "1 \<le> ?k" "?k \<le> 4" by (rule len_bytes_fits)+
  have u: "uint (byte ?b) = ?b" using k assms(2) by (intro uint_byte) auto
  have len: "readBigEndianUint (pre @ byte ?b # ?l @ body @ post) (Suc (length pre)) ?k = int (length body)"
    using readBigEndianUint_be [of ?l ?k "pre @ [byte ?b]" "body @ post"] assms(1)
    by (simp add: be_val_len_bytes)
  have s: "subarray (pre @ byte ?b # ?l @ body @ post) (int (length pre) + 1 + int ?k)
      (int (length pre) + 1 + int ?k + int (length body)) = body"
    using subarray_mid [of "pre @ byte ?b # ?l" body post] by (simp add: ac_simps)
  show ?thesis using assms(2) False u s len k
    by (auto simp: item_part_def rlp_header_def Let_def nth_append ac_simps)
qed

lemma item_part_single:
  "uint b \<le> 0x7f \<Longrightarrow> item_part (pre @ b # post) (length pre) = (Leaf [b], int (length pre) + 1)"
  using subarray_mid [of pre "[b]" post] by (simp add: item_part_def Let_def)

lemma rlp_header_not_Nil: "rlp_header base n \<noteq> []"
  by (simp add: rlp_header_def)

lemma rlp_enc_not_Nil: "rlp_enc x \<noteq> []"
  by (cases x) (auto simp: rlp_header_not_Nil Let_def)

lemma item_part_bytes:
  assumes "length d < 2 ^ 31"
  shows "item_part (pre @ rlp_enc (RBytes d) @ post) (length pre) =
    (Leaf d, int (length pre + length (rlp_enc (RBytes d))))"
proof (cases "length d = 1 \<and> uint (hd d) \<le> 0x7f")
  case True
  then obtain b where "d = [b]" "uint b \<le> 0x7f" by (cases d) auto
  then show ?thesis using item_part_single by simp
next
  case False
  then have e: "rlp_enc (RBytes d) = rlp_header 0x80 (length d) @ d" by auto
  show ?thesis unfolding e using item_part_header [OF assms, of "0x80" "Leaf d" pre post] by (simp add: add.assoc)
qed

lemma rlp_list_enc:
  "list_all rlp_fits xs \<Longrightarrow> rlp_list (pre @ concat (map rlp_enc xs)) (int (length pre)) = Some xs"
proof (induction "length (concat (map rlp_enc xs))" arbitrary: xs pre rule: less_induct)
  case less
  show ?case
  proof (cases xs)
    case Nil
    then show ?thesis by (simp add: rlp_list.simps)
  next
    case (Cons x rest)
    let ?tail = "concat (map rlp_enc rest)"
    have "rlp_list ((pre @ rlp_enc x) @ ?tail) (int (length (pre @ rlp_enc x))) = Some rest"
      using less.prems rlp_enc_not_Nil [of x] by (intro less.hyps) (simp_all add: Cons)
    then have rest: "rlp_list (pre @ rlp_enc x @ ?tail) (int (length pre + length (rlp_enc x))) = Some rest"
      by simp
    have inside: "\<not> int (length (pre @ rlp_enc x @ ?tail)) \<le> int (length pre)" "\<not> int (length pre) < 0"
      using rlp_enc_not_Nil [of x] by (cases "rlp_enc x", simp_all)+
    show ?thesis
    proof (cases x)
      case (RBytes d)
      then have "length d < 2 ^ 31" using less.prems by (simp add: Cons)
      from item_part_bytes [OF this, of pre ?tail] rest inside show ?thesis
        unfolding Cons RBytes [symmetric]
        by (subst rlp_list.simps) (simp only: concat.simps list.map RBytes if_False nat_int prod.case
          rlp_part.case bind.bind_lunit)
    next
      case (RList ys)
      then have fits: "length (concat (map rlp_enc ys)) < 2 ^ 31" "list_all rlp_fits ys"
        using less.prems by (simp_all add: Cons)
      have "length (concat (map rlp_enc ys)) < length (concat (map rlp_enc xs))"
        using rlp_header_not_Nil by (simp add: Cons RList Let_def)
      then have "rlp_list ([] @ concat (map rlp_enc ys)) (int (length ([] :: byte list))) = Some ys"
        using fits(2) by (rule less.hyps)
      then have sub: "rlp_list (concat (map rlp_enc ys)) 0 = Some ys" by simp
      have "item_part (pre @ rlp_enc x @ ?tail) (length pre) =
          (Sub (concat (map rlp_enc ys)), int (length pre + length (rlp_enc x)))"
        using item_part_header [OF fits(1), of "0xc0" "Sub (concat (map rlp_enc ys))" pre ?tail]
        by (simp add: RList Let_def add.assoc)
      with sub rest inside show ?thesis
        unfolding Cons
        by (subst rlp_list.simps) (simp only: concat.simps list.map RList if_False nat_int prod.case
          rlp_part.case bind.bind_lunit)
    qed
  qed
qed

lemma rlpDecode_enc:
  assumes "rlp_fits x" shows "rlpDecode (rlp_enc x) = Some (Inr x)"
proof (cases x)
  case (RBytes d)
  then have d: "length d < 2 ^ 31" using assms by simp
  show ?thesis
    using item_part_bytes [OF d, of "[]" "[]"] rlp_enc_not_Nil [of x]
    by (simp add: rlpDecode_def rlpDecodeItem_def RBytes del: rlp_enc.simps)
next
  case (RList xs)
  then have fits: "length (concat (map rlp_enc xs)) < 2 ^ 31" "list_all rlp_fits xs"
    using assms by simp_all
  have "rlp_list (concat (map rlp_enc xs)) 0 = Some xs"
    using rlp_list_enc [OF fits(2), of "[]"] by simp
  then show ?thesis
    using item_part_header [OF fits(1), of "0xc0" "Sub (concat (map rlp_enc xs))" "[]" "[]"]
      rlp_enc_not_Nil [of x]
    by (simp add: rlpDecode_def rlpDecodeItem_def rlpDecodeList_def RList Let_def)
qed

text \<open>The decoder returns, for any nesting of strings and lists, the item that was encoded.\<close>

theorem rlp_roundtrip:
  "rlp_fits x \<Longrightarrow> rlpDecode (rlp_enc x) = Some (Inr x)"
  by (rule rlpDecode_enc)

definition demo_item :: RlpItem where
  "demo_item = RList [RBytes [1], RBytes [0x80, 2], RList [], RBytes (replicate 60 7)]"

theorem rlp_roundtrip_witness: "rlpDecode (rlp_enc demo_item) = Some (Inr demo_item)"
  by (rule rlp_roundtrip) (simp add: demo_item_def rlp_header_def len_bytes_def Let_def)

subsection \<open>An input the decoder does not return from\<close>

text \<open>A four-byte length with the top bit set is negative, so the loop goes back to where it was.\<close>

definition looping :: "byte list" where "looping = [0xbb, 0xff, 0xff, 0xff, 0xfb]"

lemma looping_part: "item_part looping 0 = (Leaf [], 0)"
proof -
  have l: "looping = [0xbb] @ [0xff, 0xff, 0xff, 0xfb] @ []" by (simp add: looping_def)
  have b: "be_val [0xff, 0xff, 0xff, 0xfb] = 4294967291" by (simp add: be_val_def)
  have "readBigEndianUint looping (length [0xbb :: byte]) 4 = sint (word_of_int 4294967291 :: 32 word)"
    unfolding l b [symmetric] by (rule readBigEndianUint_word) simp
  then have len: "readBigEndianUint looping 1 4 = -5" by simp
  have b0: "uint (looping ! 0) = 187" by (simp add: looping_def)
  have "subarray looping 5 0 = []" by (simp add: looping_def subarray_def clamp_index_def)
  then show ?thesis using len by (simp add: item_part_def b0)
qed

lemma looping_never_returns: "rlp_list looping 0 = None"
proof (rule ccontr)
  assume "rlp_list looping 0 \<noteq> None"
  then obtain items where items: "rlp_list looping 0 = Some items" by auto
  have "rlp_list looping 0 = Option.bind (rlp_list looping 0) (\<lambda>items. Some (RBytes [] # items))"
    by (subst rlp_list.simps) (simp add: looping_part, simp add: looping_def)
  then have "items = RBytes [] # items" by (simp add: items)
  then show False by (metis not_Cons_self2)
qed

text \<open>C40. There are six bytes the decoder never returns from: a list that holds a string whose four
  length bytes read as a negative number.\<close>

theorem rlp_decode_can_loop: "rlpDecode (0xc5 # looping) = None"
proof -
  have "item_part (0xc5 # looping) 0 = (Sub looping, 6)"
    by (simp add: item_part_def looping_def subarray_def clamp_index_def)
  then show ?thesis
    by (simp add: rlpDecode_def rlpDecodeItem_def rlpDecodeList_def looping_never_returns)
qed

end
