(* ===== verification/Safety.thy ===== *)
theory Safety
  imports Rlp DecimalAmount Json "HOL-Library.List_Lexorder" "HOL-Library.Char_ord"
begin

section \<open>The guards of a swap: features/swap/safety-invariants.ts and erc20-calldata.ts\<close>

text \<open>
  Every guard either returns or throws; a throw is \<open>Inl\<close> of the id of the invariant that failed. The
  message and the context of an error are for people and logs and are left out. A guard that
  decodes a signed transaction returns an option: None is the loop of the RLP reader that does
  not end. \<open>keccak_256\<close> and the JSON reader are parameters; \<open>Number(bigint)\<close> is taken as exact.
\<close>

datatype SafetyInvariantId =
    QUOTE_AMOUNT_VS_USER_INTENT
  | TX_VALUE_VS_QUOTE
  | TX_NOT_FUNDABLE
  | TX_PLAUSIBLE_OVERSPEND
  | SIGNED_TX_VALUE_DRIFT
  | SIGNED_TX_RECIPIENT_DRIFT
  | VERIFIED_HASH_MISMATCH
  | SOL_PROGRAM_NOT_TRANSFER
  | SOL_RECIPIENT_DRIFT
  | NEAR_ACTION_NOT_TRANSFER
  | NEAR_RECIPIENT_DRIFT
  | PSBT_OUTPUT_VALUE_DRIFT
  | PSBT_RECIPIENT_DRIFT
  | ERC20_SOURCE_VALUE_DRIFT
  | ERC20_SOURCE_CALLDATA_DRIFT
  | DISPLAY_AMOUNT_OVER_THRESHOLD
  | DESK_QUOTE_AMOUNT_VS_USER_INTENT
  | DESK_QUOTE_EXPIRED
  | SOURCE_ASSET_NOT_IN_CATALOG
  | SOURCE_ASSET_CATALOG_MISMATCH
  | DEPOSIT_TX_SHAPE_DRIFT
  | QUOTE_ECHO_MISMATCH

datatype safety_error =
    SafetyInvariantError SafetyInvariantId
  | RlpError rlp_error
  | NotABigInt
  | InvalidDecimals
  | InvalidAtomicUnits
  | NotADecimalAmount
  | InvalidAddress
  | NegativeAmount
  | OverflowsUint256

abbreviation violated :: "SafetyInvariantId \<Rightarrow> safety_error + 'a" where
  "violated i \<equiv> Inl (SafetyInvariantError i)"

definition int_str :: "int \<Rightarrow> string" where
  "int_str n = (if n < 0 then ''-'' @ nat_str (nat (- n)) else nat_str (nat n))"

subsection \<open>ERC-20 calldata: erc20-calldata.ts\<close>

text \<open>\<open>n.toString(16)\<close>, and \<open>BigInt("0x" + s)\<close>: blanks at the end are dropped, no digits is an error.\<close>

fun nat_hex :: "nat \<Rightarrow> string" where
  "nat_hex n = (if n < 16 then [hex_digit n] else nat_hex (n div 16) @ [hex_digit (n mod 16)])"

declare nat_hex.simps [simp del]

definition hex_nat :: "string \<Rightarrow> nat" where
  "hex_nat s = foldl (\<lambda>a c. 16 * a + coalesce (hex_val c) 0) 0 s"

definition big_hex :: "string \<Rightarrow> safety_error + int" where
  "big_hex s =
     (let t = drop 2 (js_trim (''0x'' @ s))
      in if t = [] \<or> list_ex (\<lambda>c. hex_val c = None) t then Inl NotABigInt else Inr (int (hex_nat t)))"

definition TRANSFER_SELECTOR :: string where "TRANSFER_SELECTOR = ''0xa9059cbb''"
definition BALANCE_OF_SELECTOR :: string where "BALANCE_OF_SELECTOR = ''0x70a08231''"

definition strip_0x :: "string \<Rightarrow> string" where
  "strip_0x s = (if starts_with s ''0x'' then drop 2 s else s)"

definition is_address_hex :: "string \<Rightarrow> bool" where
  "is_address_hex s = (length s = 40 \<and> list_all (\<lambda>c. hex_val c \<noteq> None \<and> lower_char c = c) s)"

definition buildErc20TransferCalldata :: "string \<Rightarrow> int \<Rightarrow> safety_error + string" where
  "buildErc20TransferCalldata recipient amountAtomic =
     (let cleanRecipient = strip_0x (to_lower recipient)
      in if \<not> is_address_hex cleanRecipient then Inl InvalidAddress
         else if amountAtomic < 0 then Inl NegativeAmount
         else let amountHex = nat_hex (nat amountAtomic)
              in if 64 < length amountHex then Inl OverflowsUint256
                 else Inr (TRANSFER_SELECTOR @ pad_start 64 (CHR ''0'') cleanRecipient @
                           pad_start 64 (CHR ''0'') amountHex))"

definition buildErc20BalanceOfCalldata :: "string \<Rightarrow> safety_error + string" where
  "buildErc20BalanceOfCalldata holder =
     (let clean = strip_0x (to_lower holder)
      in if \<not> is_address_hex clean then Inl InvalidAddress
         else Inr (BALANCE_OF_SELECTOR @ pad_start 64 (CHR ''0'') clean))"

definition parseErc20TransferCalldata :: "string \<Rightarrow> safety_error + (string \<times> int) option" where
  "parseErc20TransferCalldata calldataHex =
     (let body = strip_0x (to_lower calldataHex)
      in if length body \<noteq> 136 then Inr None
         else if \<not> starts_with body ''a9059cbb'' then Inr None
         else let recipientHex = js_slice 8 72 body; amountHex = drop 72 body
              in if \<not> starts_with recipientHex (replicate 24 (CHR ''0'')) then Inr None
                 else (case big_hex amountHex of
                         Inl e \<Rightarrow> Inl e
                       | Inr n \<Rightarrow> Inr (Some (''0x'' @ drop 24 recipientHex, n))))"

subsection \<open>The quote against what the user typed\<close>

definition QUOTE_AMOUNT_DRIFT_TOLERANCE :: rat where "QUOTE_AMOUNT_DRIFT_TOLERANCE = 1 / 100"

text \<open>Division of bigints cuts towards zero.\<close>

definition bigint_div :: "int \<Rightarrow> int \<Rightarrow> int" where
  "bigint_div a b = sgn a * sgn b * (\<bar>a\<bar> div \<bar>b\<bar>)"

definition assertQuoteAmountMatchesUserIntent :: "int \<Rightarrow> int \<Rightarrow> safety_error + unit" where
  "assertQuoteAmountMatchesUserIntent quoteAmountAtomic userIntendedAtomic =
     (if userIntendedAtomic = 0 then violated QUOTE_AMOUNT_VS_USER_INTENT
      else
        let orderMax = (if 0 < userIntendedAtomic then bigint_div quoteAmountAtomic userIntendedAtomic else 0);
            orderMin = (if 0 < quoteAmountAtomic then bigint_div userIntendedAtomic quoteAmountAtomic else 0)
        in if 100 \<le> orderMax \<or> 100 \<le> orderMin then violated QUOTE_AMOUNT_VS_USER_INTENT
           else let ratio = of_int quoteAmountAtomic / of_int userIntendedAtomic :: rat
                in if ratio < 1 - QUOTE_AMOUNT_DRIFT_TOLERANCE \<or> 1 + QUOTE_AMOUNT_DRIFT_TOLERANCE < ratio
                   then violated QUOTE_AMOUNT_VS_USER_INTENT else Inr ())"

definition assertTxValueMatchesQuote :: "int \<Rightarrow> int \<Rightarrow> safety_error + unit" where
  "assertTxValueMatchesQuote txValueAtomic quoteAmountAtomic =
     (if txValueAtomic \<noteq> quoteAmountAtomic then violated TX_VALUE_VS_QUOTE else Inr ())"

definition assertTxFundable :: "int \<Rightarrow> int \<Rightarrow> int \<Rightarrow> safety_error + unit" where
  "assertTxFundable valueAtomic gasCostAtomic balanceAtomic =
     (if balanceAtomic < valueAtomic + gasCostAtomic then violated TX_NOT_FUNDABLE else Inr ())"

definition assertTxNotPlausibleOverspend :: "int \<Rightarrow> int \<Rightarrow> safety_error + unit" where
  "assertTxNotPlausibleOverspend valueAtomic balanceAtomic =
     (if balanceAtomic = 0 then Inr ()
      else if 2 * balanceAtomic < valueAtomic then violated TX_PLAUSIBLE_OVERSPEND else Inr ())"

subsection \<open>The signed EVM transaction\<close>

record EvmSignedTx =
  evm_to :: string
  evm_value :: int
  evm_data :: string

definition rlp_field :: "RlpItem list \<Rightarrow> nat \<Rightarrow> byte list option" where
  "rlp_field items i =
     (if i < length items then (case items ! i of RBytes b \<Rightarrow> Some b | RList _ \<Rightarrow> None) else None)"

text \<open>The positions of \<open>to\<close> and \<open>value\<close>: by the first byte of a typed envelope, or of a legacy list.\<close>

definition field_positions :: "byte list \<Rightarrow> (nat \<times> nat) option" where
  "field_positions bytes =
     (case bytes of
        [] \<Rightarrow> Some (3, 4)
      | b # _ \<Rightarrow>
          if \<not> (1 \<le> uint b \<and> uint b \<le> 0x7f) then Some (3, 4)
          else if uint b = 1 then Some (4, 5)
          else if uint b = 2 then Some (5, 6)
          else if uint b = 3 then Some (5, 6)
          else None)"

definition tx_payload :: "byte list \<Rightarrow> byte list" where
  "tx_payload bytes =
     (case bytes of [] \<Rightarrow> [] | b # rest \<Rightarrow> if 1 \<le> uint b \<and> uint b \<le> 0x7f then rest else bytes)"

definition tx_fields :: "byte list \<Rightarrow> RlpItem list \<Rightarrow> safety_error + EvmSignedTx" where
  "tx_fields bytes items =
     (case field_positions bytes of
        None \<Rightarrow> violated SIGNED_TX_VALUE_DRIFT
      | Some (toIdx, valueIdx) \<Rightarrow>
          (case (rlp_field items toIdx, rlp_field items valueIdx, rlp_field items (valueIdx + 1)) of
             (Some to, Some value, Some data) \<Rightarrow>
               let h = pad_start 40 (CHR ''0'') (bytesToHex to)
               in Inr \<lparr>evm_to = ''0x'' @ drop (length h - 40) h,
                       evm_value = foldl (\<lambda>v b. push_bit 8 v OR uint b) 0 value,
                       evm_data = ''0x'' @ bytesToHex data\<rparr>
           | _ \<Rightarrow> violated SIGNED_TX_VALUE_DRIFT))"

definition decodeEvmSignedTx :: "string \<Rightarrow> (safety_error + EvmSignedTx) option" where
  "decodeEvmSignedTx rawTxHex =
     (let cleaned = strip_0x rawTxHex
      in if cleaned = [] \<or> odd (length cleaned) then Some (violated SIGNED_TX_VALUE_DRIFT)
         else let bytes = hexToBytes cleaned
              in map_option (\<lambda>r. case r of
                     Inl e \<Rightarrow> Inl (RlpError e)
                   | Inr (RBytes _) \<Rightarrow> violated SIGNED_TX_VALUE_DRIFT
                   | Inr (RList items) \<Rightarrow> tx_fields bytes items)
                 (rlpDecode (tx_payload bytes)))"

definition assertSignedTxValueMatches :: "string \<Rightarrow> int \<Rightarrow> string \<Rightarrow> (safety_error + unit) option" where
  "assertSignedTxValueMatches rawSignedTxHex expectedValueAtomic expectedRecipient =
     map_option (\<lambda>r. case r of
         Inl e \<Rightarrow> Inl e
       | Inr tx \<Rightarrow>
           if evm_value tx \<noteq> expectedValueAtomic then violated SIGNED_TX_VALUE_DRIFT
           else if to_lower (evm_to tx) \<noteq> to_lower expectedRecipient then violated SIGNED_TX_RECIPIENT_DRIFT
           else Inr ())
       (decodeEvmSignedTx rawSignedTxHex)"

definition assertVerifiedHashMatches ::
    "(byte list \<Rightarrow> byte list) \<Rightarrow> string \<Rightarrow> string \<Rightarrow> safety_error + unit" where
  "assertVerifiedHashMatches keccak_256 rawSignedTxHex verifiedHash =
     (let expected = ''0x'' @ bytesToHex (keccak_256 (hexToBytes (strip_0x rawSignedTxHex)))
      in if to_lower verifiedHash \<noteq> to_lower expected then violated VERIFIED_HASH_MISMATCH else Inr ())"

subsection \<open>Transfers on Solana, NEAR and Bitcoin\<close>

definition SYSTEM_PROGRAM :: string where "SYSTEM_PROGRAM = ''11111111111111111111111111111111''"

definition assertSolTransferShape :: "string \<Rightarrow> string \<Rightarrow> string \<Rightarrow> int \<Rightarrow> int \<Rightarrow> safety_error + unit" where
  "assertSolTransferShape programIdBase58 expectedRecipient recipientFromTx amountAtomic expectedAmountAtomic =
     (if programIdBase58 \<noteq> SYSTEM_PROGRAM then violated SOL_PROGRAM_NOT_TRANSFER
      else if recipientFromTx \<noteq> expectedRecipient then violated SOL_RECIPIENT_DRIFT
      else if amountAtomic \<noteq> expectedAmountAtomic then violated TX_VALUE_VS_QUOTE
      else Inr ())"

definition assertNearTransferShape :: "string \<Rightarrow> string \<Rightarrow> int \<Rightarrow> int \<Rightarrow> nat \<Rightarrow> safety_error + unit" where
  "assertNearTransferShape expectedRecipient recipientFromTx yoctoAmountFromTx expectedYoctoAmount actionTag =
     (if actionTag \<noteq> 3 then violated NEAR_ACTION_NOT_TRANSFER
      else if recipientFromTx \<noteq> expectedRecipient then violated NEAR_RECIPIENT_DRIFT
      else if yoctoAmountFromTx \<noteq> expectedYoctoAmount then violated TX_VALUE_VS_QUOTE
      else Inr ())"

record near_action =
  a_tag :: nat
  a_methodName :: "string option"
  a_args :: "byte list option"
  a_deposit :: int

text \<open>
  \<open>parse\<close> stands for \<open>JSON.parse\<close> of the decoded text, None where it throws. An object is its properties; any
  other value is read as the empty object.
\<close>

definition argsOf :: "(byte list \<Rightarrow> json option) \<Rightarrow> near_action \<Rightarrow> (string \<times> json) list" where
  "argsOf parse a =
     (case parse (coalesce (a_args a) []) of Some (JObj ps) \<Rightarrow> ps | _ \<Rightarrow> [])"

definition sorted_keys :: "(string \<times> json) list \<Rightarrow> string" where
  "sorted_keys ps = commas (sort (map fst ps))"

definition registration_check ::
    "(byte list \<Rightarrow> json option) \<Rightarrow> near_action \<Rightarrow> string \<Rightarrow> int \<Rightarrow> safety_error + unit" where
  "registration_check parse reg receiverId storageDeposit =
     (let a = argsOf parse reg
      in if a_tag reg \<noteq> 2 \<or> a_methodName reg \<noteq> Some ''storage_deposit'' \<or>
            sorted_keys a \<noteq> ''account_id,registration_only'' \<or>
            map_of a ''registration_only'' \<noteq> Some (JBool True) then violated NEAR_ACTION_NOT_TRANSFER
         else if map_of a ''account_id'' \<noteq> Some (JStr receiverId) then violated NEAR_RECIPIENT_DRIFT
         else if a_deposit reg \<noteq> storageDeposit then violated NEAR_ACTION_NOT_TRANSFER
         else Inr ())"

definition transfer_check ::
    "(byte list \<Rightarrow> json option) \<Rightarrow> near_action \<Rightarrow> string \<Rightarrow> int \<Rightarrow> safety_error + unit" where
  "transfer_check parse xfer receiverId amountAtomic =
     (let a = argsOf parse xfer
      in if a_tag xfer \<noteq> 2 \<or> a_methodName xfer \<noteq> Some ''ft_transfer'' \<or>
            sorted_keys a \<noteq> ''amount,receiver_id'' then violated NEAR_ACTION_NOT_TRANSFER
         else if a_deposit xfer \<noteq> 1 then violated NEAR_ACTION_NOT_TRANSFER
         else if map_of a ''receiver_id'' \<noteq> Some (JStr receiverId) then violated NEAR_RECIPIENT_DRIFT
         else if map_of a ''amount'' \<noteq> Some (JStr (int_str amountAtomic)) then violated TX_VALUE_VS_QUOTE
         else Inr ())"

definition assertNearTokenTransferShape ::
    "(byte list \<Rightarrow> json option) \<Rightarrow> string \<Rightarrow> near_action list \<Rightarrow> string \<Rightarrow> string \<Rightarrow> int \<Rightarrow> int option \<Rightarrow>
     safety_error + unit" where
  "assertNearTokenTransferShape parse decodedReceiver actions tokenContract receiverId amountAtomic storageDeposit =
     (if decodedReceiver \<noteq> tokenContract then violated NEAR_RECIPIENT_DRIFT
      else if length actions \<noteq> (if storageDeposit = None then 1 else 2) then violated NEAR_ACTION_NOT_TRANSFER
      else case (case storageDeposit of None \<Rightarrow> Inr ()
                 | Some d \<Rightarrow> registration_check parse (hd actions) receiverId d) of
             Inl e \<Rightarrow> Inl e
           | Inr _ \<Rightarrow> transfer_check parse (last actions) receiverId amountAtomic)"

definition assertPsbtOutputShape :: "(string \<times> int) list \<Rightarrow> string \<Rightarrow> int \<Rightarrow> safety_error + unit" where
  "assertPsbtOutputShape outputs expectedRecipient expectedValueSat =
     (case List.find (\<lambda>out. fst out = expectedRecipient) outputs of
        None \<Rightarrow> violated PSBT_RECIPIENT_DRIFT
      | Some deposit \<Rightarrow>
          if snd deposit \<noteq> expectedValueSat then violated PSBT_OUTPUT_VALUE_DRIFT else Inr ())"

subsection \<open>The asset against the catalogue, and the deposit it leads to\<close>

definition contract_hex :: "string \<Rightarrow> bool" where
  "contract_hex s = (starts_with s ''0x'' \<and> length s = 42 \<and> list_all (\<lambda>c. hex_val c \<noteq> None) (drop 2 s))"

definition sameContract :: "string \<Rightarrow> string \<Rightarrow> bool" where
  "sameContract a b =
     (if contract_hex a \<and> contract_hex b then to_lower a = to_lower b else js_trim a = js_trim b)"

record CatalogAsset =
  assetId :: string
  ca_decimals :: nat
  contractAddress :: "string option"

definition assertSourceMetaMatchesCatalog ::
    "string option \<Rightarrow> nat \<Rightarrow> string option \<Rightarrow> CatalogAsset option \<Rightarrow> safety_error + string option" where
  "assertSourceMetaMatchesCatalog nearIntentsAsset decimals tokenContract catalogAsset =
     (case (keep_truthy nearIntentsAsset, catalogAsset) of
        (Some nearAsset, Some c) \<Rightarrow>
          if assetId c \<noteq> nearAsset then violated SOURCE_ASSET_NOT_IN_CATALOG
          else if ca_decimals c \<noteq> decimals then violated SOURCE_ASSET_CATALOG_MISMATCH
          else let catalogContract = keep_truthy (map_option js_trim (contractAddress c));
                   registryContract = keep_truthy (map_option js_trim tokenContract)
               in (case (catalogContract, registryContract) of
                     (Some _, None) \<Rightarrow> violated SOURCE_ASSET_CATALOG_MISMATCH
                   | (None, Some _) \<Rightarrow> violated SOURCE_ASSET_CATALOG_MISMATCH
                   | (Some a, Some b) \<Rightarrow>
                       if \<not> sameContract a b then violated SOURCE_ASSET_CATALOG_MISMATCH else Inr catalogContract
                   | (None, None) \<Rightarrow> Inr None)
      | _ \<Rightarrow> violated SOURCE_ASSET_NOT_IN_CATALOG)"

definition assertEvmDepositShape ::
    "string \<Rightarrow> int \<Rightarrow> string \<Rightarrow> string \<Rightarrow> int \<Rightarrow> string option \<Rightarrow> safety_error + unit" where
  "assertEvmDepositShape to value data depositAddress amountAtomic contract =
     (let d = (if data \<noteq> [] then to_lower data else ''0x'')
      in case keep_truthy contract of
           Some token \<Rightarrow>
             if to_lower to \<noteq> to_lower token then violated DEPOSIT_TX_SHAPE_DRIFT
             else if value \<noteq> 0 then violated DEPOSIT_TX_SHAPE_DRIFT
             else let body = strip_0x d
                  in if length body \<noteq> 136 \<or> \<not> starts_with body ''a9059cbb'' \<or>
                        \<not> starts_with (js_slice 8 72 body) (replicate 24 (CHR ''0'')) then violated DEPOSIT_TX_SHAPE_DRIFT
                     else let recipient = ''0x'' @ js_slice 32 72 body
                          in (case big_hex (drop 72 body) of
                                Inl e \<Rightarrow> Inl e
                              | Inr n \<Rightarrow>
                                  if recipient \<noteq> to_lower depositAddress then violated DEPOSIT_TX_SHAPE_DRIFT
                                  else if n \<noteq> amountAtomic then violated DEPOSIT_TX_SHAPE_DRIFT
                                  else Inr ())
         | None \<Rightarrow>
             if to_lower to \<noteq> to_lower depositAddress then violated DEPOSIT_TX_SHAPE_DRIFT
             else if value \<noteq> amountAtomic then violated DEPOSIT_TX_SHAPE_DRIFT
             else if d \<noteq> ''0x'' then violated DEPOSIT_TX_SHAPE_DRIFT
             else Inr ())"

subsection \<open>Amounts on screen and the desk's quotes\<close>

definition DISPLAY_AMOUNT_HARD_CAP :: rat where "DISPLAY_AMOUNT_HARD_CAP = 10000000"

definition assertDisplayedAmountReasonable :: "rat option \<Rightarrow> bool option \<Rightarrow> safety_error + unit" where
  "assertDisplayedAmountReasonable displayAmount allowHigh =
     (if allowHigh = Some True then Inr ()
      else case displayAmount of
        None \<Rightarrow> violated DISPLAY_AMOUNT_OVER_THRESHOLD
      | Some x \<Rightarrow> if DISPLAY_AMOUNT_HARD_CAP < x then violated DISPLAY_AMOUNT_OVER_THRESHOLD else Inr ())"

definition formatAtomicForDisplay :: "string \<Rightarrow> rat \<Rightarrow> safety_error + string" where
  "formatAtomicForDisplay atomicStr decimals =
     (if decimals < 0 \<or> decimals \<noteq> of_int \<lfloor>decimals\<rfloor> then Inl InvalidDecimals
      else let trimmed = js_trim atomicStr
           in if \<not> is_plain_decimal trimmed then Inl InvalidAtomicUnits
              else let intPartStr = hd (split_on (CHR ''.'') trimmed);
                       negative = starts_with intPartStr ''-'';
                       atomic = str_nat (if negative then tl intPartStr else intPartStr);
                       dec = nat \<lfloor>decimals\<rfloor>;
                       sign = (if negative then ''-'' else [])
                   in if atomic = 0 then Inr ''0''
                      else if dec = 0 then Inr (sign @ nat_str atomic)
                      else let padded = pad_start (dec + 1) (CHR ''0'') (nat_str atomic);
                               display = take (length padded - dec) padded;
                               frac = strip_trailing (CHR ''0'') (drop (length padded - dec) padded);
                               out = (if 0 < length frac then display @ ''.'' @ frac else display)
                           in Inr (sign @ out))"

text \<open>\<open>/^\d*\.?\d*$/\<close>\<close>

definition loose_decimal :: "string \<Rightarrow> bool" where
  "loose_decimal s =
     (case dropWhile is_digit s of [] \<Rightarrow> True | c # f \<Rightarrow> c = CHR ''.'' \<and> list_all is_digit f)"

definition decimalStringToAtomic :: "string \<Rightarrow> nat \<Rightarrow> safety_error + int" where
  "decimalStringToAtomic v decimals =
     (let s = js_trim v
      in if s = [] \<or> s = ''.'' \<or> \<not> loose_decimal s then Inl NotADecimalAmount
         else let parts = split_on (CHR ''.'') s;
                  intPart = hd parts;
                  fracRaw = (case tl parts of [] \<Rightarrow> [] | f # _ \<Rightarrow> f);
                  frac = pad_end decimals (CHR ''0'') (take decimals fracRaw)
              in Inr (int (str_nat (if intPart = [] then ''0'' else intPart) * 10 ^ decimals +
                           str_nat (if frac = [] then ''0'' else frac))))"

definition assertDeskQuoteMatchesUserIntent :: "string \<Rightarrow> string \<Rightarrow> nat \<Rightarrow> safety_error + unit" where
  "assertDeskQuoteMatchesUserIntent quoteAmountInDecimal userTypedDecimal decimals =
     (let toAtomic = (\<lambda>v. case decimalStringToAtomic v decimals of Inl _ \<Rightarrow> 0 | Inr n \<Rightarrow> n);
          quoteAtomic = toAtomic quoteAmountInDecimal;
          userAtomic = toAtomic userTypedDecimal
      in if userAtomic = 0 then violated DESK_QUOTE_AMOUNT_VS_USER_INTENT
         else case assertQuoteAmountMatchesUserIntent quoteAtomic userAtomic of
                Inl _ \<Rightarrow> violated DESK_QUOTE_AMOUNT_VS_USER_INTENT
              | Inr _ \<Rightarrow> Inr ())"

definition assertDeskQuoteFresh :: "rat option \<Rightarrow> rat \<Rightarrow> rat option \<Rightarrow> safety_error + unit" where
  "assertDeskQuoteFresh expiresAt nowSeconds marginSeconds =
     (let e = coalesce expiresAt 0
      in if e = 0 then Inr ()
         else if nowSeconds < e - coalesce marginSeconds 5 then Inr ()
         else violated DESK_QUOTE_EXPIRED)"

subsection \<open>The signed transaction is the one that was built\<close>

lemma foldl_push_be_val: "foldl (\<lambda>v b. push_bit 8 v OR uint b) a bs = a * 256 ^ length bs + be_val bs"
  for bs :: "byte list"
proof (induction bs arbitrary: a)
  case (Cons b bs)
  have "push_bit 8 a OR uint b = a * 256 + uint b"
    using push_or [of "uint b" 8 a] uint_lt2p [of b] by simp
  then show ?case using Cons [of "a * 256 + uint b"] by (simp add: be_val_Cons algebra_simps)
qed simp

text \<open>The bytes of a transaction: the byte of its type, none for a legacy one, and its fields.\<close>

definition signed_tx :: "nat \<Rightarrow> RlpItem list \<Rightarrow> byte list" where
  "signed_tx t items = (if t = 0 then [] else [of_nat t]) @ rlp_enc (RList items)"

definition to_position :: "nat \<Rightarrow> nat" where
  "to_position t = (if t = 0 then 3 else if t = 1 then 4 else 5)"

lemma rlp_list_first:
  assumes "length (concat (map rlp_enc items)) < 2 ^ 31"
  obtains b rest where "rlp_enc (RList items) = b # rest" "0xc0 \<le> uint b"
proof (cases "length (concat (map rlp_enc items)) \<le> 55")
  case True
  then show ?thesis
    using that by (simp add: Let_def rlp_header_def uint_byte)
next
  case False
  have "len_bytes (length (concat (map rlp_enc items))) \<le> 4" by (rule len_bytes_fits)
  with False show ?thesis
    using that by (simp add: Let_def rlp_header_def uint_byte)
qed

lemma signed_tx_parts:
  assumes "t \<le> 3" "rlp_fits (RList items)"
  shows "field_positions (signed_tx t items) = Some (to_position t, to_position t + 1)"
    "tx_payload (signed_tx t items) = rlp_enc (RList items)"
proof -
  obtain b rest where b: "rlp_enc (RList items) = b # rest" "0xc0 \<le> uint b"
    using assms(2) by (auto intro: rlp_list_first [of items])
  have "t = 0 \<or> t = 1 \<or> t = 2 \<or> t = 3" using assms(1) by linarith
  then show "field_positions (signed_tx t items) = Some (to_position t, to_position t + 1)"
      "tx_payload (signed_tx t items) = rlp_enc (RList items)"
    using b by (auto simp: signed_tx_def field_positions_def tx_payload_def to_position_def simp del: rlp_enc.simps)
qed

lemma strip_0x_simps [simp]: "strip_0x (CHR ''0'' # CHR ''x'' # s) = s" "strip_0x (bytesToHex b) = bytesToHex b"
  by (simp add: strip_0x_def starts_with_def) (simp add: strip_0x_def not_0x)

lemma signed_tx_not_Nil: "signed_tx t items \<noteq> []"
  using rlp_enc_not_Nil [of "RList items"] by (simp add: signed_tx_def del: rlp_enc.simps)

lemma decode_signed_tx:
  assumes "t \<le> 3" "rlp_fits (RList items)"
    and "rlp_field items (to_position t) = Some dest" "length dest = 20"
    and "rlp_field items (to_position t + 1) = Some amount"
    and "rlp_field items (to_position t + 2) = Some data"
  shows "decodeEvmSignedTx (''0x'' @ bytesToHex (signed_tx t items)) =
    Some (Inr \<lparr>evm_to = ''0x'' @ bytesToHex dest, evm_value = be_val amount, evm_data = ''0x'' @ bytesToHex data\<rparr>)"
proof -
  have "bytesToHex (signed_tx t items) \<noteq> []"
    using signed_tx_not_Nil [of t items] length_bytesToHex [of "signed_tx t items"] by auto
  moreover have "rlpDecode (tx_payload (signed_tx t items)) = Some (Inr (RList items))"
    unfolding signed_tx_parts(2) [OF assms(1,2)] using assms(2) by (rule rlpDecode_enc)
  moreover have "tx_fields (signed_tx t items) items =
      Inr \<lparr>evm_to = ''0x'' @ bytesToHex dest, evm_value = be_val amount, evm_data = ''0x'' @ bytesToHex data\<rparr>"
    using assms(3-6) by (simp add: tx_fields_def signed_tx_parts(1) [OF assms(1,2)] length_bytesToHex
      pad_start_def foldl_push_be_val)
  ultimately show ?thesis
    by (simp add: decodeEvmSignedTx_def length_bytesToHex)
qed

text \<open>C13. The check of a signed EVM transaction returns for every transaction of the four types it
  knows, and passes exactly when the transaction moves the expected value to the expected
  recipient; a wrong value and a wrong recipient are each named.\<close>

theorem signed_tx_check:
  assumes "t \<le> 3" "rlp_fits (RList items)"
    and "rlp_field items (to_position t) = Some dest" "length dest = 20"
    and "rlp_field items (to_position t + 1) = Some amount"
    and "rlp_field items (to_position t + 2) = Some data"
  shows "assertSignedTxValueMatches (''0x'' @ bytesToHex (signed_tx t items)) expectedValue recipient =
    Some (if be_val amount \<noteq> expectedValue then violated SIGNED_TX_VALUE_DRIFT
          else if to_lower recipient \<noteq> ''0x'' @ bytesToHex dest then violated SIGNED_TX_RECIPIENT_DRIFT
          else Inr ())"
  using decode_signed_tx [OF assms]
  using to_lower_bytesToHex [of dest]
  by (auto simp: assertSignedTxValueMatches_def to_lower_def lower_char_def)

definition demo_tx :: "RlpItem list" where
  "demo_tx = [RBytes [1], RBytes [], RBytes [5], RBytes [9], RBytes [0x52, 8], RBytes (replicate 20 0xab),
     RBytes [1, 0], RBytes [], RList [], RBytes [1], RBytes [7], RBytes [8]]"

theorem signed_tx_check_witness:
  "assertSignedTxValueMatches (''0x'' @ bytesToHex (signed_tx 2 demo_tx)) 256 (''0x'' @ bytesToHex (replicate 20 0xab)) =
   Some (Inr ())"
proof -
  have "rlp_fits (RList demo_tx)" by (simp add: demo_tx_def rlp_header_def Let_def)
  moreover have "rlp_field demo_tx (to_position 2) = Some (replicate 20 0xab)"
      "rlp_field demo_tx (to_position 2 + 1) = Some [1, 0]" "rlp_field demo_tx (to_position 2 + 2) = Some []"
    by (simp_all add: rlp_field_def to_position_def demo_tx_def)
  ultimately have "assertSignedTxValueMatches (''0x'' @ bytesToHex (signed_tx 2 demo_tx)) 256 recipient =
    Some (if be_val [1, 0] \<noteq> 256 then violated SIGNED_TX_VALUE_DRIFT
          else if to_lower recipient \<noteq> ''0x'' @ bytesToHex (replicate 20 0xab) then violated SIGNED_TX_RECIPIENT_DRIFT
          else Inr ())" for recipient
    by (intro signed_tx_check) simp_all
  then show ?thesis
    by (simp add: be_val_def to_lower_def lower_char_def to_lower_bytesToHex [unfolded to_lower_def])
qed

subsection \<open>Token deposits\<close>

lemma js_slice_drop: "js_slice 32 72 s = drop 24 (js_slice 8 72 s)"
  by (simp add: js_slice_def)

text \<open>A token deposit passes the shape check exactly when it calls the token with no native value and
  the reader of ERC-20 calldata finds in it a transfer of the quoted amount to the deposit
  address; the two readers, written apart, agree on every input.\<close>

theorem token_deposit_is_transfer:
  "assertEvmDepositShape to value data depositAddress amountAtomic (Some (c # cs)) = Inr () \<longleftrightarrow>
     to_lower to = to_lower (c # cs) \<and> value = 0 \<and>
     parseErc20TransferCalldata data = Inr (Some (to_lower depositAddress, amountAtomic))"
proof -
  have body: "strip_0x (if data \<noteq> [] then to_lower data else ''0x'') = strip_0x (to_lower data)"
    by (cases data) (simp_all add: strip_0x_def starts_with_def to_lower_def)
  show ?thesis
    unfolding assertEvmDepositShape_def parseErc20TransferCalldata_def Let_def body js_slice_drop
    by (auto split: sum.split)
qed

lemma hex_nat_Nil [simp]: "hex_nat [] = 0" by (simp add: hex_nat_def)

lemma hex_nat_snoc: "hex_nat (s @ [c]) = 16 * hex_nat s + coalesce (hex_val c) 0"
  by (simp add: hex_nat_def)

lemma hex_val_0 [simp]: "hex_val (CHR ''0'') = Some 0"
  by (simp add: hex_val_def)

lemma hex_nat_zeros [simp]: "hex_nat (replicate k (CHR ''0'') @ s) = hex_nat s"
proof (induction s rule: rev_induct)
  case Nil
  show ?case by (induction k) (simp_all add: hex_nat_snoc flip: replicate_append_same)
next
  case (snoc c s)
  then show ?case using hex_nat_snoc [of "replicate k (CHR ''0'') @ s" c] by (simp add: hex_nat_snoc)
qed

lemma hex_nat_hex [simp]: "hex_nat (nat_hex n) = n"
proof (induction n rule: nat_hex.induct)
  case (1 n)
  have "coalesce (hex_val (hex_digit (n mod 16))) 0 = n mod 16" by (simp add: hex_val_digit)
  then show ?case
    using 1 hex_nat_snoc [of "[]" "hex_digit n"]
    by (subst nat_hex.simps) (simp add: hex_nat_snoc hex_val_digit)
qed

lemma hex_digit_not_space: "d < 16 \<Longrightarrow> \<not> js_space (hex_digit d)"
  by (auto simp: js_space_def hex_digit_def dest: arg_cong [where f = "of_char :: char \<Rightarrow> nat"])

lemma nat_hex_digits: "c \<in> set (nat_hex n) \<Longrightarrow> \<exists>d < 16. c = hex_digit d"
proof (induction n arbitrary: c rule: nat_hex.induct)
  case (1 n)
  have "\<exists>d < 16. hex_digit (n mod 16) = hex_digit d" by (rule exI [of _ "n mod 16"]) simp
  then show ?case using 1 by (cases "n < 16") (auto simp: nat_hex.simps [of n])
qed

lemma nat_hex_not_Nil [simp]: "nat_hex n \<noteq> []"
  by (subst nat_hex.simps) simp

lemma big_hex_padded: "big_hex (pad_start k (CHR ''0'') (nat_hex n)) = Inr (int n)"
proof -
  let ?s = "pad_start k (CHR ''0'') (nat_hex n)"
  have "last (nat_hex n) \<in> set (nat_hex n)" by simp
  then have "\<not> js_space (last (nat_hex n))" by (metis nat_hex_digits hex_digit_not_space)
  then have trim: "js_trim (''0x'' @ ?s) = ''0x'' @ ?s"
    by (intro js_trim_noop) (simp add: pad_start_def js_space_def)
  have "hex_val c \<noteq> None" if "c \<in> set ?s" for c
    using that nat_hex_digits [of c n] hex_val_digit by (auto simp: pad_start_def split: if_splits)
  then have "\<not> list_ex (\<lambda>c. hex_val c = None) ?s" by (auto simp: list_ex_iff)
  moreover have "?s \<noteq> []" by (simp add: pad_start_def)
  ultimately show ?thesis by (simp add: big_hex_def trim [simplified]) (simp add: pad_start_def)
qed

lemma nat_hex_lower: "to_lower (nat_hex n) = nat_hex n"
  unfolding to_lower_def using nat_hex_digits [of _ n] to_lower_hex_digit by (intro map_idI) auto

lemma address_hex_lower: "is_address_hex s \<Longrightarrow> to_lower s = s"
  by (auto simp: is_address_hex_def to_lower_def list_all_iff intro: map_idI)

text \<open>The calldata built for a transfer reads back as that transfer, so a deposit built for the quoted
  amount passes the shape check.\<close>

theorem calldata_roundtrip:
  assumes "buildErc20TransferCalldata recipient amountAtomic = Inr data"
  shows "parseErc20TransferCalldata data = Inr (Some (''0x'' @ strip_0x (to_lower recipient), amountAtomic))"
proof -
  let ?r = "strip_0x (to_lower recipient)" and ?n = "nat_hex (nat amountAtomic)"
  have r: "is_address_hex ?r" and n: "0 \<le> amountAtomic" "length ?n \<le> 64"
      and data: "data = TRANSFER_SELECTOR @ pad_start 64 (CHR ''0'') ?r @ pad_start 64 (CHR ''0'') ?n"
    using assms by (auto simp: buildErc20TransferCalldata_def Let_def split: if_splits)
  have l: "length ?r = 40" using r by (simp add: is_address_hex_def)
  let ?body = "''a9059cbb'' @ pad_start 64 (CHR ''0'') ?r @ pad_start 64 (CHR ''0'') ?n"
  have "to_lower data = ''0x'' @ ?body"
    using address_hex_lower [OF r] nat_hex_lower
    by (simp add: data TRANSFER_SELECTOR_def pad_start_def to_lower_append)
      (simp add: to_lower_def lower_char_def)
  then have body: "strip_0x (to_lower data) = ?body" by simp
  have len: "length (pad_start 64 (CHR ''0'') ?r) = 64" "length (pad_start 64 (CHR ''0'') ?n) = 64"
    using l n(2) by (simp_all add: length_pad_start)
  have slice: "js_slice 8 72 ?body = pad_start 64 (CHR ''0'') ?r" "drop 72 ?body = pad_start 64 (CHR ''0'') ?n"
    using len by (simp_all add: js_slice_def)
  have pad: "pad_start 64 (CHR ''0'') ?r = replicate 24 (CHR ''0'') @ ?r"
    using l by (simp add: pad_start_def)
  show ?thesis
    unfolding parseErc20TransferCalldata_def Let_def body slice
    using len n(1) by (simp add: big_hex_padded starts_with_def pad)
qed

theorem calldata_roundtrip_witness:
  "parseErc20TransferCalldata (TRANSFER_SELECTOR @ replicate 64 (CHR ''0'') @ replicate 62 (CHR ''0'') @ ''ff'') =
   Inr (Some (''0x'' @ replicate 40 (CHR ''0''), 255))"
proof -
  have "buildErc20TransferCalldata (''0x'' @ replicate 40 (CHR ''0'')) 255 =
      Inr (TRANSFER_SELECTOR @ replicate 64 (CHR ''0'') @ replicate 62 (CHR ''0'') @ ''ff'')"
    by code_simp
  from calldata_roundtrip [OF this] show ?thesis by (simp add: strip_0x_def starts_with_def to_lower_def lower_char_def)
qed

subsection \<open>Amounts stay within one percent\<close>

lemma bigint_div_bound:
  assumes "0 < b" "of_int a / of_int b \<le> (c :: rat)" "0 \<le> c" shows "of_int (bigint_div a b) \<le> c"
proof (cases "0 \<le> a")
  case True
  have "of_int (a div b) \<le> (of_int a / of_int b :: rat)"
    using of_int_floor_le [of "of_int a / of_int b :: rat"] by (simp add: floor_divide_of_int_eq)
  then show ?thesis using True assms by (simp add: bigint_div_def sgn_if)
next
  case False
  have "0 \<le> \<bar>a\<bar> div \<bar>b\<bar>" by (simp add: div_int_pos_iff)
  then have "of_int (bigint_div a b) \<le> (0 :: rat)" using False assms(1) by (simp add: bigint_div_def sgn_if)
  then show ?thesis using assms(3) by simp
qed

lemma quote_orders:
  assumes "u \<noteq> 0" "99 / 100 \<le> (of_int q / of_int u :: rat)" "of_int q / of_int u \<le> (101 / 100 :: rat)"
  shows "(if 0 < u then bigint_div q u else 0) < 100" "(if 0 < q then bigint_div u q else 0) < 100"
proof -
  have "of_int (bigint_div q u) \<le> (101 / 100 :: rat)" if "0 < u"
    using that assms(3) by (rule bigint_div_bound) simp
  then have "of_int (bigint_div q u) < (of_int 100 :: rat)" if "0 < u" using that by fastforce
  then show "(if 0 < u then bigint_div q u else 0) < 100" by (simp only: of_int_less_iff) simp
  have "of_int (bigint_div u q) \<le> (100 / 99 :: rat)" if "0 < q"
  proof (rule bigint_div_bound [OF that])
    have "(0 :: rat) < of_int q / of_int u" using assms(2) by linarith
    then have "0 < u" using that by (simp add: zero_less_divide_iff)
    then show "of_int u / of_int q \<le> (100 / 99 :: rat)"
      using that assms(2) by (simp add: field_simps)
  qed simp
  then have "of_int (bigint_div u q) < (of_int 100 :: rat)" if "0 < q" using that by fastforce
  then show "(if 0 < q then bigint_div u q else 0) < 100" by (simp only: of_int_less_iff) simp
qed

lemma quote_band:
  "assertQuoteAmountMatchesUserIntent q u = Inr () \<longleftrightarrow>
     u \<noteq> 0 \<and> 99 / 100 \<le> (of_int q / of_int u :: rat) \<and> of_int q / of_int u \<le> (101 / 100 :: rat)"
proof -
  define r :: rat where "r = of_int q / of_int u"
  define mx where "mx = (if 0 < u then bigint_div q u else 0)"
  define mn where "mn = (if 0 < q then bigint_div u q else 0)"
  note orders = quote_orders [of u q, folded r_def mx_def mn_def]
  show ?thesis
    unfolding assertQuoteAmountMatchesUserIntent_def QUOTE_AMOUNT_DRIFT_TOLERANCE_def Let_def
      r_def [symmetric] mx_def [symmetric] mn_def [symmetric]
    using orders by (cases "u = 0") (auto simp: not_le not_less)
qed

lemma wrap_ok: "(case x of Inl _ \<Rightarrow> violated i | Inr _ \<Rightarrow> Inr ()) = Inr () \<longleftrightarrow> x = Inr ()"
  by (cases x) auto

text \<open>The guard on the quoted amount passes exactly when it is within one percent of the amount the user
  typed; the earlier test on the order of magnitude refuses nothing more.\<close>

theorem quote_within_one_percent:
  "assertQuoteAmountMatchesUserIntent q u = Inr () \<longleftrightarrow>
     u \<noteq> 0 \<and> 99 / 100 \<le> (of_int q / of_int u :: rat) \<and> of_int q / of_int u \<le> (101 / 100 :: rat)"
  by (rule quote_band)

text \<open>A desk quote passes exactly when both amounts are readable decimals, the user's is not zero and the
  quoted one is within one percent of it.\<close>

theorem desk_quote_within_one_percent:
  "assertDeskQuoteMatchesUserIntent quoted typed dec = Inr () \<longleftrightarrow>
     (\<exists>q u. decimalStringToAtomic quoted dec = Inr q \<and> decimalStringToAtomic typed dec = Inr u \<and>
        u \<noteq> 0 \<and> 99 / 100 \<le> (of_int q / of_int u :: rat) \<and> of_int q / of_int u \<le> (101 / 100 :: rat))"
  by (cases "decimalStringToAtomic quoted dec"; cases "decimalStringToAtomic typed dec")
    (auto simp: assertDeskQuoteMatchesUserIntent_def Let_def wrap_ok quote_band)

subsection \<open>What is shown is what is moved\<close>

lemma pad_start_snoc: "pad_start (Suc k) c (s @ [x]) = pad_start k c s @ [x]"
  by (simp add: pad_start_def)

lemma nat_str_small: "n < 10 \<Longrightarrow> nat_str n = [digit_char n]"
  by (simp add: nat_str.simps)

lemma nat_str_big: "10 \<le> n \<Longrightarrow> nat_str n = nat_str (n div 10) @ [digit_char (n mod 10)]"
  by (subst nat_str.simps) simp

lemma pad_start_step:
  "pad_start (Suc (Suc k)) (CHR ''0'') (nat_str m) =
   pad_start (Suc k) (CHR ''0'') (nat_str (m div 10)) @ [digit_char (m mod 10)]"
proof (cases "m < 10")
  case True
  then show ?thesis
    by (simp add: nat_str_small pad_start_def replicate_append_same)
next
  case False
  then have "nat_str m = nat_str (m div 10) @ [digit_char (m mod 10)]" by (simp add: nat_str_big)
  then show ?thesis by (simp add: pad_start_snoc)
qed

lemma pad_start_split:
  "pad_start (Suc (Suc k)) (CHR ''0'') (nat_str n) =
   nat_str (n div 10 ^ Suc k) @ pad_start (Suc k) (CHR ''0'') (nat_str (n mod 10 ^ Suc k))"
proof (induction k arbitrary: n)
  case 0
  have "pad_start (Suc 0) (CHR ''0'') (nat_str (n div 10)) = nat_str (n div 10)"
    by (cases "nat_str (n div 10)") (simp_all add: pad_start_def)
  then show ?case
    unfolding pad_start_step by (simp add: nat_str_small pad_start_def)
next
  case (Suc k)
  have e: "n mod 10 ^ Suc (Suc k) = 10 * (n div 10 mod 10 ^ Suc k) + n mod 10"
    by (simp only: power_Suc [of 10 "Suc k"] mod_mult2_eq)
  have m: "n mod 10 ^ Suc (Suc k) div 10 = n div 10 mod 10 ^ Suc k" "n mod 10 ^ Suc (Suc k) mod 10 = n mod 10"
    unfolding e by simp_all
  have l: "pad_start (Suc (Suc (Suc k))) (CHR ''0'') (nat_str n) =
      (nat_str (n div 10 div 10 ^ Suc k) @ pad_start (Suc k) (CHR ''0'') (nat_str (n div 10 mod 10 ^ Suc k))) @
      [digit_char (n mod 10)]"
    unfolding pad_start_step [of "Suc k"] Suc ..
  have r: "pad_start (Suc (Suc k)) (CHR ''0'') (nat_str (n mod 10 ^ Suc (Suc k))) =
      pad_start (Suc k) (CHR ''0'') (nat_str (n div 10 mod 10 ^ Suc k)) @ [digit_char (n mod 10)]"
    unfolding pad_start_step m ..
  have "n div 10 div 10 ^ Suc k = n div 10 ^ Suc (Suc k)"
    by (simp only: power_Suc [of 10 "Suc k"] div_mult2_eq)
  then show ?case unfolding l r by simp
qed

lemma nat_str_no_dot: "CHR ''.'' \<notin> set (nat_str n)"
  using nat_str_digits [of n] by (auto simp: is_digit_def)

lemma nat_str_not_minus: "\<not> starts_with (nat_str n) ''-''"
  using nat_str_hd_last(1) [of n] by (cases "nat_str n") (auto simp: starts_with_def is_digit_def)

lemma is_plain_nat_str: "is_plain_decimal (nat_str n)" "is_plain_decimal (CHR ''-'' # nat_str n)"
proof -
  have w: "takeWhile is_digit (nat_str n) = nat_str n" "dropWhile is_digit (nat_str n) = []"
    using nat_str_digits [of n] by (simp_all add: takeWhile_eq_all_conv dropWhile_eq_Nil_conv)
  have "hd (nat_str n) \<noteq> CHR ''-''" using nat_str_hd_last(1) [of n] by (auto simp: is_digit_def)
  then show "is_plain_decimal (nat_str n)" "is_plain_decimal (CHR ''-'' # nat_str n)"
    by (simp_all add: is_plain_decimal_def w nat_str_digits)
qed

lemma trim_int_str: "js_trim (int_str a) = int_str a"
  using nat_str_hd_last is_digit_not_space
  by (intro js_trim_noop) (auto simp: int_str_def js_space_def)

lemma int_str_parts:
  "is_plain_decimal (int_str a)" "hd (split_on (CHR ''.'') (int_str a)) = int_str a"
  "starts_with (int_str a) ''-'' \<longleftrightarrow> a < 0"
  "str_nat (if a < 0 then tl (int_str a) else int_str a) = nat \<bar>a\<bar>"
  using nat_str_no_dot nat_str_not_minus
  by (auto simp: int_str_def is_plain_nat_str split_on_no_sep starts_with_def)

lemma strip_zeros_Nil: "strip_trailing (CHR ''0'') (pad_start k (CHR ''0'') ''0'') = []"
proof -
  have "pad_start k (CHR ''0'') ''0'' = replicate (Suc (k - 1)) (CHR ''0'')"
    by (simp add: pad_start_def replicate_append_same)
  then show ?thesis by (simp add: strip_trailing_def)
qed

text \<open>A balance in base units is shown as exactly the decimal the send form would parse back: the
  display formatter and \<open>atomicToDecimal\<close> agree on every integer and every number of decimals.\<close>

theorem display_is_atomicToDecimal:
  "formatAtomicForDisplay (int_str a) (of_nat d) = Inr (atomicToDecimal a d)"
proof -
  have dec: "\<not> (of_nat d < (0 :: rat) \<or> of_nat d \<noteq> (of_int \<lfloor>of_nat d :: rat\<rfloor> :: rat))" "nat \<lfloor>of_nat d :: rat\<rfloor> = d"
    by simp_all
  have n: "nat (if a < 0 then - a else a) = nat \<bar>a\<bar>" by simp
  define n where "n = nat \<bar>a\<bar>"
  consider "n = 0" | "n \<noteq> 0" "d = 0" | k where "n \<noteq> 0" "d = Suc k" by (cases d) auto
  then show ?thesis
  proof cases
    case 1
    then have "a = 0" by (simp add: n_def)
    then show ?thesis
      by (simp add: formatAtomicForDisplay_def Let_def dec trim_int_str int_str_parts)
        (simp add: atomicToDecimal_def nat_str_small strip_zeros_Nil int_str_def)
  next
    case 2
    then show ?thesis
      by (simp add: formatAtomicForDisplay_def Let_def trim_int_str int_str_parts n_def)
        (auto simp: atomicToDecimal_def nat_str_small strip_zeros_Nil pad_start_def strip_trailing_def)
  next
    case (3 k)
    let ?w = "nat_str (n div 10 ^ d)" and ?f = "pad_start d (CHR ''0'') (nat_str (n mod 10 ^ d))"
    have "length (nat_str (n mod 10 ^ d)) \<le> d"
      unfolding 3 by (rule nat_str_length_bound) simp
    then have len: "length ?f = d" by (rule length_pad_start)
    have split: "pad_start (d + 1) (CHR ''0'') (nat_str n) = ?w @ ?f"
      using pad_start_split [of k n] by (simp add: 3)
    have "formatAtomicForDisplay (int_str a) (of_nat d) =
        Inr ((if a < 0 then ''-'' else []) @
          (if 0 < length (strip_trailing (CHR ''0'') ?f) then ?w @ ''.'' @ strip_trailing (CHR ''0'') ?f else ?w))"
      unfolding formatAtomicForDisplay_def Let_def dec trim_int_str int_str_parts n_def [symmetric] split
      using 3 len dec(1) by (simp add: int_str_parts)
    then show ?thesis by (auto simp: atomicToDecimal_def Let_def n_def)
  qed
qed

subsection \<open>Decimals of the desk\<close>

text \<open>Every amount the strict parser accepts is read by the desk's parser as the same number of base
  units.\<close>

theorem desk_parser_extends:
  "case decimalToAtomic v d of Inl _ \<Rightarrow> True | Inr n \<Rightarrow> decimalStringToAtomic v d = Inr (int n)"
proof (cases "DECIMAL (js_trim v)")
  case True
  have "\<not> DECIMAL []" "\<not> DECIMAL ''.''" by (simp_all add: DECIMAL_def)
  then have full: "js_trim v \<noteq> []" "js_trim v \<noteq> ''.''" using True by auto
  have loose: "loose_decimal (js_trim v)"
    using True by (cases rule: DECIMAL_cases; fastforce simp: loose_decimal_def dropWhile_append2 list_all_iff
      dropWhile_eq_Nil_conv [THEN iffD2])+
  have "hd (split_on (CHR ''.'') (js_trim v)) \<noteq> []"
    using True by (cases rule: DECIMAL_cases) (auto simp: split_on_no_sep no_dot split_on_append)
  with True loose full show ?thesis
    by (auto simp: decimalToAtomic_def decimalStringToAtomic_def Let_def split: list.split)
qed (simp add: decimalToAtomic_invalid)

subsection \<open>NEAR token transfers\<close>

lemma length_commas: "xs \<noteq> [] \<Longrightarrow> Suc (length (commas xs)) = sum_list (map length xs) + length xs"
  by (induction xs rule: commas.induct) auto

lemma commas_of_two:
  assumes "commas (sort ks) = k @ '','' @ l" "k \<in> set ks" "l \<in> set ks" "k \<noteq> l"
  shows "mset ks = {#k, l#}"
proof -
  have "k \<in># mset ks" using assms(2) by simp
  then obtain N where N: "mset ks = add_mset k N" by (blast dest: multi_member_split)
  have "l \<in># mset ks" using assms(3) by simp
  then have "l \<in># N" using N assms(4) by simp
  then obtain M where "N = add_mset l M" by (blast dest: multi_member_split)
  with N have M: "mset ks = {#k, l#} + M" by simp
  have "sum_list (map length (sort ks)) = sum_mset (image_mset length (mset ks))"
    by (metis mset_map mset_sort sum_mset_sum_list)
  moreover have "length (sort ks) = size (mset ks)" by simp
  moreover have "sort ks \<noteq> []" using assms(2) by (metis in_set_conv_decomp list.distinct(1) set_sort append_is_Nil_conv)
  ultimately have "Suc (length (k @ '','' @ l)) = sum_mset (image_mset length (mset ks)) + size (mset ks)"
    using length_commas [of "sort ks"] assms(1) by simp
  then show ?thesis unfolding M by simp
qed

lemma two_args:
  assumes "sort [k, l] = [k, l]" "sort [l, k] = [k, l]" "k \<noteq> l"
  shows "sorted_keys ps = k @ '','' @ l \<and> map_of ps k = Some v \<and> map_of ps l = Some w \<longleftrightarrow>
    mset ps = {#(k, v), (l, w)#}" (is "?L \<longleftrightarrow> ?R")
proof
  assume ?L
  then have "k \<in> set (map fst ps)" "l \<in> set (map fst ps)"
    by (simp_all add: dom_map_of_conv_image_fst [symmetric] dom_def)
  with \<open>?L\<close> have ks: "mset (map fst ps) = {#k, l#}"
    using assms(3) unfolding sorted_keys_def by (intro commas_of_two) simp_all
  then have "length ps = 2" by (metis length_map size_mset mset.simps size_add_mset size_empty numeral_2_eq_2)
  then obtain p q where "ps = [p, q]" by (metis length_0_conv length_Suc_conv numeral_2_eq_2)
  with ks \<open>?L\<close> assms(3) show ?R
    by (cases p; cases q) (auto simp: add_eq_conv_ex split: if_splits)
next
  assume R: ?R
  then have "length ps = 2" by (metis size_mset size_add_mset size_empty numeral_2_eq_2)
  then obtain p q where pq: "ps = [p, q]" by (metis length_0_conv length_Suc_conv numeral_2_eq_2)
  with R have "p = (k, v) \<and> q = (l, w) \<or> p = (l, w) \<and> q = (k, v)" by (auto simp: add_eq_conv_ex)
  with pq assms show ?L by (auto simp: sorted_keys_def)
qed

text \<open>What a plain transfer and a registration are: one function call whose arguments are these and no
  others.\<close>

definition pays :: "(byte list \<Rightarrow> json option) \<Rightarrow> near_action \<Rightarrow> string \<Rightarrow> int \<Rightarrow> bool" where
  "pays parse x receiverId amountAtomic \<longleftrightarrow>
     a_tag x = 2 \<and> a_methodName x = Some ''ft_transfer'' \<and> a_deposit x = 1 \<and>
     mset (argsOf parse x) = {#(''amount'', JStr (int_str amountAtomic)), (''receiver_id'', JStr receiverId)#}"

definition registers :: "(byte list \<Rightarrow> json option) \<Rightarrow> near_action \<Rightarrow> string \<Rightarrow> int \<Rightarrow> bool" where
  "registers parse x receiverId storageDeposit \<longleftrightarrow>
     a_tag x = 2 \<and> a_methodName x = Some ''storage_deposit'' \<and> a_deposit x = storageDeposit \<and>
     mset (argsOf parse x) = {#(''account_id'', JStr receiverId), (''registration_only'', JBool True)#}"

lemma sorted_arg_names:
  "sort [''amount'', ''receiver_id''] = [''amount'', ''receiver_id'']"
  "sort [''receiver_id'', ''amount''] = [''amount'', ''receiver_id'']"
  "sort [''account_id'', ''registration_only''] = [''account_id'', ''registration_only'']"
  "sort [''registration_only'', ''account_id''] = [''account_id'', ''registration_only'']"
  by code_simp+

lemma transfer_check_iff: "transfer_check parse x r n = Inr () \<longleftrightarrow> pays parse x r n"
  using two_args [OF sorted_arg_names(1,2), of "argsOf parse x" "JStr (int_str n)" "JStr r"]
  by (auto simp: transfer_check_def pays_def Let_def)

lemma registration_check_iff: "registration_check parse x r d = Inr () \<longleftrightarrow> registers parse x r d"
  using two_args [OF sorted_arg_names(3,4), of "argsOf parse x" "JStr r" "JBool True"]
  by (auto simp: registration_check_def registers_def Let_def)

lemma sum_chain: "(case x of Inl e \<Rightarrow> Inl e | Inr _ \<Rightarrow> y) = Inr () \<longleftrightarrow> x = Inr () \<and> y = Inr ()"
  by (cases x) auto

text \<open>A NEAR token deposit passes its check exactly when the transaction calls the token contract and
  consists of one transfer of the amount to the receiver with one yocto attached, after one
  registration of the receiver where that was asked for, and nothing else: no further action, no
  further argument.\<close>

theorem near_token_deposit_shape:
  "assertNearTokenTransferShape parse decodedReceiver actions tokenContract receiverId amountAtomic storageDeposit = Inr () \<longleftrightarrow>
     decodedReceiver = tokenContract \<and>
     (case storageDeposit of
        None \<Rightarrow> (\<exists>x. actions = [x] \<and> pays parse x receiverId amountAtomic)
      | Some d \<Rightarrow> (\<exists>r x. actions = [r, x] \<and> registers parse r receiverId d \<and> pays parse x receiverId amountAtomic))"
proof (cases storageDeposit)
  case None
  have "length actions = 1 \<longleftrightarrow> (\<exists>x. actions = [x])" by (auto simp: length_Suc_conv)
  then show ?thesis
    by (auto simp: assertNearTokenTransferShape_def None transfer_check_iff)
next
  case (Some d)
  have "length actions = 2 \<longleftrightarrow> (\<exists>r x. actions = [r, x])" by (auto simp: length_Suc_conv numeral_2_eq_2)
  then show ?thesis
    by (auto simp: assertNearTokenTransferShape_def Some sum_chain transfer_check_iff registration_check_iff)
qed

end
