(* ===== verification/PolyseedWords.thy ===== *)
theory PolyseedWords
  imports Main
begin

section \<open>The word list of wallets/polyseed-wordlist.ts\<close>

text \<open>
  The 2048 English words, in sixteen parts, and the fact the mnemonic rests on: the first four
  letters, or the whole of a shorter word, are strictly increasing, so no two words share them.
\<close>

definition polyseed_words_0 :: "string list" where
  "polyseed_words_0 =
    [''abandon'', ''ability'', ''able'', ''about'', ''above'', ''absent'', ''absorb'', ''abstract'',
     ''absurd'', ''abuse'', ''access'', ''accident'', ''account'', ''accuse'', ''achieve'', ''acid'',
     ''acoustic'', ''acquire'', ''across'', ''act'', ''action'', ''actor'', ''actress'', ''actual'',
     ''adapt'', ''add'', ''addict'', ''address'', ''adjust'', ''admit'', ''adult'', ''advance'',
     ''advice'', ''aerobic'', ''affair'', ''afford'', ''afraid'', ''again'', ''age'', ''agent'',
     ''agree'', ''ahead'', ''aim'', ''air'', ''airport'', ''aisle'', ''alarm'', ''album'', ''alcohol'',
     ''alert'', ''alien'', ''all'', ''alley'', ''allow'', ''almost'', ''alone'', ''alpha'', ''already'',
     ''also'', ''alter'', ''always'', ''amateur'', ''amazing'', ''among'', ''amount'', ''amused'',
     ''analyst'', ''anchor'', ''ancient'', ''anger'', ''angle'', ''angry'', ''animal'', ''ankle'',
     ''announce'', ''annual'', ''another'', ''answer'', ''antenna'', ''antique'', ''anxiety'', ''any'',
     ''apart'', ''apology'', ''appear'', ''apple'', ''approve'', ''april'', ''arch'', ''arctic'',
     ''area'', ''arena'', ''argue'', ''arm'', ''armed'', ''armor'', ''army'', ''around'', ''arrange'',
     ''arrest'', ''arrive'', ''arrow'', ''art'', ''artefact'', ''artist'', ''artwork'', ''ask'',
     ''aspect'', ''assault'', ''asset'', ''assist'', ''assume'', ''asthma'', ''athlete'', ''atom'',
     ''attack'', ''attend'', ''attitude'', ''attract'', ''auction'', ''audit'', ''august'', ''aunt'',
     ''author'', ''auto'', ''autumn'', ''average'', ''avocado'']"

definition polyseed_words_1 :: "string list" where
  "polyseed_words_1 =
    [''avoid'', ''awake'', ''aware'', ''away'', ''awesome'', ''awful'', ''awkward'', ''axis'', ''baby'',
     ''bachelor'', ''bacon'', ''badge'', ''bag'', ''balance'', ''balcony'', ''ball'', ''bamboo'',
     ''banana'', ''banner'', ''bar'', ''barely'', ''bargain'', ''barrel'', ''base'', ''basic'',
     ''basket'', ''battle'', ''beach'', ''bean'', ''beauty'', ''because'', ''become'', ''beef'',
     ''before'', ''begin'', ''behave'', ''behind'', ''believe'', ''below'', ''belt'', ''bench'',
     ''benefit'', ''best'', ''betray'', ''better'', ''between'', ''beyond'', ''bicycle'', ''bid'',
     ''bike'', ''bind'', ''biology'', ''bird'', ''birth'', ''bitter'', ''black'', ''blade'', ''blame'',
     ''blanket'', ''blast'', ''bleak'', ''bless'', ''blind'', ''blood'', ''blossom'', ''blouse'',
     ''blue'', ''blur'', ''blush'', ''board'', ''boat'', ''body'', ''boil'', ''bomb'', ''bone'',
     ''bonus'', ''book'', ''boost'', ''border'', ''boring'', ''borrow'', ''boss'', ''bottom'', ''bounce'',
     ''box'', ''boy'', ''bracket'', ''brain'', ''brand'', ''brass'', ''brave'', ''bread'', ''breeze'',
     ''brick'', ''bridge'', ''brief'', ''bright'', ''bring'', ''brisk'', ''broccoli'', ''broken'',
     ''bronze'', ''broom'', ''brother'', ''brown'', ''brush'', ''bubble'', ''buddy'', ''budget'',
     ''buffalo'', ''build'', ''bulb'', ''bulk'', ''bullet'', ''bundle'', ''bunker'', ''burden'',
     ''burger'', ''burst'', ''bus'', ''business'', ''busy'', ''butter'', ''buyer'', ''buzz'', ''cabbage'',
     ''cabin'', ''cable'']"

definition polyseed_words_2 :: "string list" where
  "polyseed_words_2 =
    [''cactus'', ''cage'', ''cake'', ''call'', ''calm'', ''camera'', ''camp'', ''can'', ''canal'',
     ''cancel'', ''candy'', ''cannon'', ''canoe'', ''canvas'', ''canyon'', ''capable'', ''capital'',
     ''captain'', ''car'', ''carbon'', ''card'', ''cargo'', ''carpet'', ''carry'', ''cart'', ''case'',
     ''cash'', ''casino'', ''castle'', ''casual'', ''cat'', ''catalog'', ''catch'', ''category'',
     ''cattle'', ''caught'', ''cause'', ''caution'', ''cave'', ''ceiling'', ''celery'', ''cement'',
     ''census'', ''century'', ''cereal'', ''certain'', ''chair'', ''chalk'', ''champion'', ''change'',
     ''chaos'', ''chapter'', ''charge'', ''chase'', ''chat'', ''cheap'', ''check'', ''cheese'', ''chef'',
     ''cherry'', ''chest'', ''chicken'', ''chief'', ''child'', ''chimney'', ''choice'', ''choose'',
     ''chronic'', ''chuckle'', ''chunk'', ''churn'', ''cigar'', ''cinnamon'', ''circle'', ''citizen'',
     ''city'', ''civil'', ''claim'', ''clap'', ''clarify'', ''claw'', ''clay'', ''clean'', ''clerk'',
     ''clever'', ''click'', ''client'', ''cliff'', ''climb'', ''clinic'', ''clip'', ''clock'', ''clog'',
     ''close'', ''cloth'', ''cloud'', ''clown'', ''club'', ''clump'', ''cluster'', ''clutch'', ''coach'',
     ''coast'', ''coconut'', ''code'', ''coffee'', ''coil'', ''coin'', ''collect'', ''color'', ''column'',
     ''combine'', ''come'', ''comfort'', ''comic'', ''common'', ''company'', ''concert'', ''conduct'',
     ''confirm'', ''congress'', ''connect'', ''consider'', ''control'', ''convince'', ''cook'', ''cool'',
     ''copper'']"

definition polyseed_words_3 :: "string list" where
  "polyseed_words_3 =
    [''copy'', ''coral'', ''core'', ''corn'', ''correct'', ''cost'', ''cotton'', ''couch'', ''country'',
     ''couple'', ''course'', ''cousin'', ''cover'', ''coyote'', ''crack'', ''cradle'', ''craft'',
     ''cram'', ''crane'', ''crash'', ''crater'', ''crawl'', ''crazy'', ''cream'', ''credit'', ''creek'',
     ''crew'', ''cricket'', ''crime'', ''crisp'', ''critic'', ''crop'', ''cross'', ''crouch'', ''crowd'',
     ''crucial'', ''cruel'', ''cruise'', ''crumble'', ''crunch'', ''crush'', ''cry'', ''crystal'',
     ''cube'', ''culture'', ''cup'', ''cupboard'', ''curious'', ''current'', ''curtain'', ''curve'',
     ''cushion'', ''custom'', ''cute'', ''cycle'', ''dad'', ''damage'', ''damp'', ''dance'', ''danger'',
     ''daring'', ''dash'', ''daughter'', ''dawn'', ''day'', ''deal'', ''debate'', ''debris'', ''decade'',
     ''december'', ''decide'', ''decline'', ''decorate'', ''decrease'', ''deer'', ''defense'', ''define'',
     ''defy'', ''degree'', ''delay'', ''deliver'', ''demand'', ''demise'', ''denial'', ''dentist'',
     ''deny'', ''depart'', ''depend'', ''deposit'', ''depth'', ''deputy'', ''derive'', ''describe'',
     ''desert'', ''design'', ''desk'', ''despair'', ''destroy'', ''detail'', ''detect'', ''develop'',
     ''device'', ''devote'', ''diagram'', ''dial'', ''diamond'', ''diary'', ''dice'', ''diesel'',
     ''diet'', ''differ'', ''digital'', ''dignity'', ''dilemma'', ''dinner'', ''dinosaur'', ''direct'',
     ''dirt'', ''disagree'', ''discover'', ''disease'', ''dish'', ''dismiss'', ''disorder'', ''display'',
     ''distance'', ''divert'', ''divide'']"

definition polyseed_words_4 :: "string list" where
  "polyseed_words_4 =
    [''divorce'', ''dizzy'', ''doctor'', ''document'', ''dog'', ''doll'', ''dolphin'', ''domain'',
     ''donate'', ''donkey'', ''donor'', ''door'', ''dose'', ''double'', ''dove'', ''draft'', ''dragon'',
     ''drama'', ''drastic'', ''draw'', ''dream'', ''dress'', ''drift'', ''drill'', ''drink'', ''drip'',
     ''drive'', ''drop'', ''drum'', ''dry'', ''duck'', ''dumb'', ''dune'', ''during'', ''dust'',
     ''dutch'', ''duty'', ''dwarf'', ''dynamic'', ''eager'', ''eagle'', ''early'', ''earn'', ''earth'',
     ''easily'', ''east'', ''easy'', ''echo'', ''ecology'', ''economy'', ''edge'', ''edit'', ''educate'',
     ''effort'', ''egg'', ''eight'', ''either'', ''elbow'', ''elder'', ''electric'', ''elegant'',
     ''element'', ''elephant'', ''elevator'', ''elite'', ''else'', ''embark'', ''embody'', ''embrace'',
     ''emerge'', ''emotion'', ''employ'', ''empower'', ''empty'', ''enable'', ''enact'', ''end'',
     ''endless'', ''endorse'', ''enemy'', ''energy'', ''enforce'', ''engage'', ''engine'', ''enhance'',
     ''enjoy'', ''enlist'', ''enough'', ''enrich'', ''enroll'', ''ensure'', ''enter'', ''entire'',
     ''entry'', ''envelope'', ''episode'', ''equal'', ''equip'', ''era'', ''erase'', ''erode'',
     ''erosion'', ''error'', ''erupt'', ''escape'', ''essay'', ''essence'', ''estate'', ''eternal'',
     ''ethics'', ''evidence'', ''evil'', ''evoke'', ''evolve'', ''exact'', ''example'', ''excess'',
     ''exchange'', ''excite'', ''exclude'', ''excuse'', ''execute'', ''exercise'', ''exhaust'',
     ''exhibit'', ''exile'', ''exist'', ''exit'']"

definition polyseed_words_5 :: "string list" where
  "polyseed_words_5 =
    [''exotic'', ''expand'', ''expect'', ''expire'', ''explain'', ''expose'', ''express'', ''extend'',
     ''extra'', ''eye'', ''eyebrow'', ''fabric'', ''face'', ''faculty'', ''fade'', ''faint'', ''faith'',
     ''fall'', ''false'', ''fame'', ''family'', ''famous'', ''fan'', ''fancy'', ''fantasy'', ''farm'',
     ''fashion'', ''fat'', ''fatal'', ''father'', ''fatigue'', ''fault'', ''favorite'', ''feature'',
     ''february'', ''federal'', ''fee'', ''feed'', ''feel'', ''female'', ''fence'', ''festival'',
     ''fetch'', ''fever'', ''few'', ''fiber'', ''fiction'', ''field'', ''figure'', ''file'', ''film'',
     ''filter'', ''final'', ''find'', ''fine'', ''finger'', ''finish'', ''fire'', ''firm'', ''first'',
     ''fiscal'', ''fish'', ''fit'', ''fitness'', ''fix'', ''flag'', ''flame'', ''flash'', ''flat'',
     ''flavor'', ''flee'', ''flight'', ''flip'', ''float'', ''flock'', ''floor'', ''flower'', ''fluid'',
     ''flush'', ''fly'', ''foam'', ''focus'', ''fog'', ''foil'', ''fold'', ''follow'', ''food'', ''foot'',
     ''force'', ''forest'', ''forget'', ''fork'', ''fortune'', ''forum'', ''forward'', ''fossil'',
     ''foster'', ''found'', ''fox'', ''fragile'', ''frame'', ''frequent'', ''fresh'', ''friend'',
     ''fringe'', ''frog'', ''front'', ''frost'', ''frown'', ''frozen'', ''fruit'', ''fuel'', ''fun'',
     ''funny'', ''furnace'', ''fury'', ''future'', ''gadget'', ''gain'', ''galaxy'', ''gallery'',
     ''game'', ''gap'', ''garage'', ''garbage'', ''garden'', ''garlic'', ''garment'']"

definition polyseed_words_6 :: "string list" where
  "polyseed_words_6 =
    [''gas'', ''gasp'', ''gate'', ''gather'', ''gauge'', ''gaze'', ''general'', ''genius'', ''genre'',
     ''gentle'', ''genuine'', ''gesture'', ''ghost'', ''giant'', ''gift'', ''giggle'', ''ginger'',
     ''giraffe'', ''girl'', ''give'', ''glad'', ''glance'', ''glare'', ''glass'', ''glide'', ''glimpse'',
     ''globe'', ''gloom'', ''glory'', ''glove'', ''glow'', ''glue'', ''goat'', ''goddess'', ''gold'',
     ''good'', ''goose'', ''gorilla'', ''gospel'', ''gossip'', ''govern'', ''gown'', ''grab'', ''grace'',
     ''grain'', ''grant'', ''grape'', ''grass'', ''gravity'', ''great'', ''green'', ''grid'', ''grief'',
     ''grit'', ''grocery'', ''group'', ''grow'', ''grunt'', ''guard'', ''guess'', ''guide'', ''guilt'',
     ''guitar'', ''gun'', ''gym'', ''habit'', ''hair'', ''half'', ''hammer'', ''hamster'', ''hand'',
     ''happy'', ''harbor'', ''hard'', ''harsh'', ''harvest'', ''hat'', ''have'', ''hawk'', ''hazard'',
     ''head'', ''health'', ''heart'', ''heavy'', ''hedgehog'', ''height'', ''hello'', ''helmet'',
     ''help'', ''hen'', ''hero'', ''hidden'', ''high'', ''hill'', ''hint'', ''hip'', ''hire'',
     ''history'', ''hobby'', ''hockey'', ''hold'', ''hole'', ''holiday'', ''hollow'', ''home'', ''honey'',
     ''hood'', ''hope'', ''horn'', ''horror'', ''horse'', ''hospital'', ''host'', ''hotel'', ''hour'',
     ''hover'', ''hub'', ''huge'', ''human'', ''humble'', ''humor'', ''hundred'', ''hungry'', ''hunt'',
     ''hurdle'', ''hurry'', ''hurt'', ''husband'']"

definition polyseed_words_7 :: "string list" where
  "polyseed_words_7 =
    [''hybrid'', ''ice'', ''icon'', ''idea'', ''identify'', ''idle'', ''ignore'', ''ill'', ''illegal'',
     ''illness'', ''image'', ''imitate'', ''immense'', ''immune'', ''impact'', ''impose'', ''improve'',
     ''impulse'', ''inch'', ''include'', ''income'', ''increase'', ''index'', ''indicate'', ''indoor'',
     ''industry'', ''infant'', ''inflict'', ''inform'', ''inhale'', ''inherit'', ''initial'', ''inject'',
     ''injury'', ''inmate'', ''inner'', ''innocent'', ''input'', ''inquiry'', ''insane'', ''insect'',
     ''inside'', ''inspire'', ''install'', ''intact'', ''interest'', ''into'', ''invest'', ''invite'',
     ''involve'', ''iron'', ''island'', ''isolate'', ''issue'', ''item'', ''ivory'', ''jacket'',
     ''jaguar'', ''jar'', ''jazz'', ''jealous'', ''jeans'', ''jelly'', ''jewel'', ''job'', ''join'',
     ''joke'', ''journey'', ''joy'', ''judge'', ''juice'', ''jump'', ''jungle'', ''junior'', ''junk'',
     ''just'', ''kangaroo'', ''keen'', ''keep'', ''ketchup'', ''key'', ''kick'', ''kid'', ''kidney'',
     ''kind'', ''kingdom'', ''kiss'', ''kit'', ''kitchen'', ''kite'', ''kitten'', ''kiwi'', ''knee'',
     ''knife'', ''knock'', ''know'', ''lab'', ''label'', ''labor'', ''ladder'', ''lady'', ''lake'',
     ''lamp'', ''language'', ''laptop'', ''large'', ''later'', ''latin'', ''laugh'', ''laundry'',
     ''lava'', ''law'', ''lawn'', ''lawsuit'', ''layer'', ''lazy'', ''leader'', ''leaf'', ''learn'',
     ''leave'', ''lecture'', ''left'', ''leg'', ''legal'', ''legend'', ''leisure'', ''lemon'', ''lend'']"

definition polyseed_words_8 :: "string list" where
  "polyseed_words_8 =
    [''length'', ''lens'', ''leopard'', ''lesson'', ''letter'', ''level'', ''liar'', ''liberty'',
     ''library'', ''license'', ''life'', ''lift'', ''light'', ''like'', ''limb'', ''limit'', ''link'',
     ''lion'', ''liquid'', ''list'', ''little'', ''live'', ''lizard'', ''load'', ''loan'', ''lobster'',
     ''local'', ''lock'', ''logic'', ''lonely'', ''long'', ''loop'', ''lottery'', ''loud'', ''lounge'',
     ''love'', ''loyal'', ''lucky'', ''luggage'', ''lumber'', ''lunar'', ''lunch'', ''luxury'',
     ''lyrics'', ''machine'', ''mad'', ''magic'', ''magnet'', ''maid'', ''mail'', ''main'', ''major'',
     ''make'', ''mammal'', ''man'', ''manage'', ''mandate'', ''mango'', ''mansion'', ''manual'',
     ''maple'', ''marble'', ''march'', ''margin'', ''marine'', ''market'', ''marriage'', ''mask'',
     ''mass'', ''master'', ''match'', ''material'', ''math'', ''matrix'', ''matter'', ''maximum'',
     ''maze'', ''meadow'', ''mean'', ''measure'', ''meat'', ''mechanic'', ''medal'', ''media'',
     ''melody'', ''melt'', ''member'', ''memory'', ''mention'', ''menu'', ''mercy'', ''merge'', ''merit'',
     ''merry'', ''mesh'', ''message'', ''metal'', ''method'', ''middle'', ''midnight'', ''milk'',
     ''million'', ''mimic'', ''mind'', ''minimum'', ''minor'', ''minute'', ''miracle'', ''mirror'',
     ''misery'', ''miss'', ''mistake'', ''mix'', ''mixed'', ''mixture'', ''mobile'', ''model'',
     ''modify'', ''mom'', ''moment'', ''monitor'', ''monkey'', ''monster'', ''month'', ''moon'',
     ''moral'', ''more'', ''morning'']"

definition polyseed_words_9 :: "string list" where
  "polyseed_words_9 =
    [''mosquito'', ''mother'', ''motion'', ''motor'', ''mountain'', ''mouse'', ''move'', ''movie'',
     ''much'', ''muffin'', ''mule'', ''multiply'', ''muscle'', ''museum'', ''mushroom'', ''music'',
     ''must'', ''mutual'', ''myself'', ''mystery'', ''myth'', ''naive'', ''name'', ''napkin'', ''narrow'',
     ''nasty'', ''nation'', ''nature'', ''near'', ''neck'', ''need'', ''negative'', ''neglect'',
     ''neither'', ''nephew'', ''nerve'', ''nest'', ''net'', ''network'', ''neutral'', ''never'', ''news'',
     ''next'', ''nice'', ''night'', ''noble'', ''noise'', ''nominee'', ''noodle'', ''normal'', ''north'',
     ''nose'', ''notable'', ''note'', ''nothing'', ''notice'', ''novel'', ''now'', ''nuclear'',
     ''number'', ''nurse'', ''nut'', ''oak'', ''obey'', ''object'', ''oblige'', ''obscure'', ''observe'',
     ''obtain'', ''obvious'', ''occur'', ''ocean'', ''october'', ''odor'', ''off'', ''offer'', ''office'',
     ''often'', ''oil'', ''okay'', ''old'', ''olive'', ''olympic'', ''omit'', ''once'', ''one'',
     ''onion'', ''online'', ''only'', ''open'', ''opera'', ''opinion'', ''oppose'', ''option'',
     ''orange'', ''orbit'', ''orchard'', ''order'', ''ordinary'', ''organ'', ''orient'', ''original'',
     ''orphan'', ''ostrich'', ''other'', ''outdoor'', ''outer'', ''output'', ''outside'', ''oval'',
     ''oven'', ''over'', ''own'', ''owner'', ''oxygen'', ''oyster'', ''ozone'', ''pact'', ''paddle'',
     ''page'', ''pair'', ''palace'', ''palm'', ''panda'', ''panel'', ''panic'', ''panther'', ''paper'']"

definition polyseed_words_10 :: "string list" where
  "polyseed_words_10 =
    [''parade'', ''parent'', ''park'', ''parrot'', ''party'', ''pass'', ''patch'', ''path'', ''patient'',
     ''patrol'', ''pattern'', ''pause'', ''pave'', ''payment'', ''peace'', ''peanut'', ''pear'',
     ''peasant'', ''pelican'', ''pen'', ''penalty'', ''pencil'', ''people'', ''pepper'', ''perfect'',
     ''permit'', ''person'', ''pet'', ''phone'', ''photo'', ''phrase'', ''physical'', ''piano'',
     ''picnic'', ''picture'', ''piece'', ''pig'', ''pigeon'', ''pill'', ''pilot'', ''pink'', ''pioneer'',
     ''pipe'', ''pistol'', ''pitch'', ''pizza'', ''place'', ''planet'', ''plastic'', ''plate'', ''play'',
     ''please'', ''pledge'', ''pluck'', ''plug'', ''plunge'', ''poem'', ''poet'', ''point'', ''polar'',
     ''pole'', ''police'', ''pond'', ''pony'', ''pool'', ''popular'', ''portion'', ''position'',
     ''possible'', ''post'', ''potato'', ''pottery'', ''poverty'', ''powder'', ''power'', ''practice'',
     ''praise'', ''predict'', ''prefer'', ''prepare'', ''present'', ''pretty'', ''prevent'', ''price'',
     ''pride'', ''primary'', ''print'', ''priority'', ''prison'', ''private'', ''prize'', ''problem'',
     ''process'', ''produce'', ''profit'', ''program'', ''project'', ''promote'', ''proof'', ''property'',
     ''prosper'', ''protect'', ''proud'', ''provide'', ''public'', ''pudding'', ''pull'', ''pulp'',
     ''pulse'', ''pumpkin'', ''punch'', ''pupil'', ''puppy'', ''purchase'', ''purity'', ''purpose'',
     ''purse'', ''push'', ''put'', ''puzzle'', ''pyramid'', ''quality'', ''quantum'', ''quarter'',
     ''question'', ''quick'', ''quit'', ''quiz'']"

definition polyseed_words_11 :: "string list" where
  "polyseed_words_11 =
    [''quote'', ''rabbit'', ''raccoon'', ''race'', ''rack'', ''radar'', ''radio'', ''rail'', ''rain'',
     ''raise'', ''rally'', ''ramp'', ''ranch'', ''random'', ''range'', ''rapid'', ''rare'', ''rate'',
     ''rather'', ''raven'', ''raw'', ''razor'', ''ready'', ''real'', ''reason'', ''rebel'', ''rebuild'',
     ''recall'', ''receive'', ''recipe'', ''record'', ''recycle'', ''reduce'', ''reflect'', ''reform'',
     ''refuse'', ''region'', ''regret'', ''regular'', ''reject'', ''relax'', ''release'', ''relief'',
     ''rely'', ''remain'', ''remember'', ''remind'', ''remove'', ''render'', ''renew'', ''rent'',
     ''reopen'', ''repair'', ''repeat'', ''replace'', ''report'', ''require'', ''rescue'', ''resemble'',
     ''resist'', ''resource'', ''response'', ''result'', ''retire'', ''retreat'', ''return'', ''reunion'',
     ''reveal'', ''review'', ''reward'', ''rhythm'', ''rib'', ''ribbon'', ''rice'', ''rich'', ''ride'',
     ''ridge'', ''rifle'', ''right'', ''rigid'', ''ring'', ''riot'', ''ripple'', ''risk'', ''ritual'',
     ''rival'', ''river'', ''road'', ''roast'', ''robot'', ''robust'', ''rocket'', ''romance'', ''roof'',
     ''rookie'', ''room'', ''rose'', ''rotate'', ''rough'', ''round'', ''route'', ''royal'', ''rubber'',
     ''rude'', ''rug'', ''rule'', ''run'', ''runway'', ''rural'', ''sad'', ''saddle'', ''sadness'',
     ''safe'', ''sail'', ''salad'', ''salmon'', ''salon'', ''salt'', ''salute'', ''same'', ''sample'',
     ''sand'', ''satisfy'', ''satoshi'', ''sauce'', ''sausage'', ''save'', ''say'']"

definition polyseed_words_12 :: "string list" where
  "polyseed_words_12 =
    [''scale'', ''scan'', ''scare'', ''scatter'', ''scene'', ''scheme'', ''school'', ''science'',
     ''scissors'', ''scorpion'', ''scout'', ''scrap'', ''screen'', ''script'', ''scrub'', ''sea'',
     ''search'', ''season'', ''seat'', ''second'', ''secret'', ''section'', ''security'', ''seed'',
     ''seek'', ''segment'', ''select'', ''sell'', ''seminar'', ''senior'', ''sense'', ''sentence'',
     ''series'', ''service'', ''session'', ''settle'', ''setup'', ''seven'', ''shadow'', ''shaft'',
     ''shallow'', ''share'', ''shed'', ''shell'', ''sheriff'', ''shield'', ''shift'', ''shine'', ''ship'',
     ''shiver'', ''shock'', ''shoe'', ''shoot'', ''shop'', ''short'', ''shoulder'', ''shove'', ''shrimp'',
     ''shrug'', ''shuffle'', ''shy'', ''sibling'', ''sick'', ''side'', ''siege'', ''sight'', ''sign'',
     ''silent'', ''silk'', ''silly'', ''silver'', ''similar'', ''simple'', ''since'', ''sing'', ''siren'',
     ''sister'', ''situate'', ''six'', ''size'', ''skate'', ''sketch'', ''ski'', ''skill'', ''skin'',
     ''skirt'', ''skull'', ''slab'', ''slam'', ''sleep'', ''slender'', ''slice'', ''slide'', ''slight'',
     ''slim'', ''slogan'', ''slot'', ''slow'', ''slush'', ''small'', ''smart'', ''smile'', ''smoke'',
     ''smooth'', ''snack'', ''snake'', ''snap'', ''sniff'', ''snow'', ''soap'', ''soccer'', ''social'',
     ''sock'', ''soda'', ''soft'', ''solar'', ''soldier'', ''solid'', ''solution'', ''solve'',
     ''someone'', ''song'', ''soon'', ''sorry'', ''sort'', ''soul'', ''sound'', ''soup'']"

definition polyseed_words_13 :: "string list" where
  "polyseed_words_13 =
    [''source'', ''south'', ''space'', ''spare'', ''spatial'', ''spawn'', ''speak'', ''special'',
     ''speed'', ''spell'', ''spend'', ''sphere'', ''spice'', ''spider'', ''spike'', ''spin'', ''spirit'',
     ''split'', ''spoil'', ''sponsor'', ''spoon'', ''sport'', ''spot'', ''spray'', ''spread'', ''spring'',
     ''spy'', ''square'', ''squeeze'', ''squirrel'', ''stable'', ''stadium'', ''staff'', ''stage'',
     ''stairs'', ''stamp'', ''stand'', ''start'', ''state'', ''stay'', ''steak'', ''steel'', ''stem'',
     ''step'', ''stereo'', ''stick'', ''still'', ''sting'', ''stock'', ''stomach'', ''stone'', ''stool'',
     ''story'', ''stove'', ''strategy'', ''street'', ''strike'', ''strong'', ''struggle'', ''student'',
     ''stuff'', ''stumble'', ''style'', ''subject'', ''submit'', ''subway'', ''success'', ''such'',
     ''sudden'', ''suffer'', ''sugar'', ''suggest'', ''suit'', ''summer'', ''sun'', ''sunny'', ''sunset'',
     ''super'', ''supply'', ''supreme'', ''sure'', ''surface'', ''surge'', ''surprise'', ''surround'',
     ''survey'', ''suspect'', ''sustain'', ''swallow'', ''swamp'', ''swap'', ''swarm'', ''swear'',
     ''sweet'', ''swift'', ''swim'', ''swing'', ''switch'', ''sword'', ''symbol'', ''symptom'', ''syrup'',
     ''system'', ''table'', ''tackle'', ''tag'', ''tail'', ''talent'', ''talk'', ''tank'', ''tape'',
     ''target'', ''task'', ''taste'', ''tattoo'', ''taxi'', ''teach'', ''team'', ''tell'', ''ten'',
     ''tenant'', ''tennis'', ''tent'', ''term'', ''test'', ''text'', ''thank'', ''that'']"

definition polyseed_words_14 :: "string list" where
  "polyseed_words_14 =
    [''theme'', ''then'', ''theory'', ''there'', ''they'', ''thing'', ''this'', ''thought'', ''three'',
     ''thrive'', ''throw'', ''thumb'', ''thunder'', ''ticket'', ''tide'', ''tiger'', ''tilt'', ''timber'',
     ''time'', ''tiny'', ''tip'', ''tired'', ''tissue'', ''title'', ''toast'', ''tobacco'', ''today'',
     ''toddler'', ''toe'', ''together'', ''toilet'', ''token'', ''tomato'', ''tomorrow'', ''tone'',
     ''tongue'', ''tonight'', ''tool'', ''tooth'', ''top'', ''topic'', ''topple'', ''torch'', ''tornado'',
     ''tortoise'', ''toss'', ''total'', ''tourist'', ''toward'', ''tower'', ''town'', ''toy'', ''track'',
     ''trade'', ''traffic'', ''tragic'', ''train'', ''transfer'', ''trap'', ''trash'', ''travel'',
     ''tray'', ''treat'', ''tree'', ''trend'', ''trial'', ''tribe'', ''trick'', ''trigger'', ''trim'',
     ''trip'', ''trophy'', ''trouble'', ''truck'', ''true'', ''truly'', ''trumpet'', ''trust'', ''truth'',
     ''try'', ''tube'', ''tuition'', ''tumble'', ''tuna'', ''tunnel'', ''turkey'', ''turn'', ''turtle'',
     ''twelve'', ''twenty'', ''twice'', ''twin'', ''twist'', ''two'', ''type'', ''typical'', ''ugly'',
     ''umbrella'', ''unable'', ''unaware'', ''uncle'', ''uncover'', ''under'', ''undo'', ''unfair'',
     ''unfold'', ''unhappy'', ''uniform'', ''unique'', ''unit'', ''universe'', ''unknown'', ''unlock'',
     ''until'', ''unusual'', ''unveil'', ''update'', ''upgrade'', ''uphold'', ''upon'', ''upper'',
     ''upset'', ''urban'', ''urge'', ''usage'', ''use'', ''used'', ''useful'']"

definition polyseed_words_15 :: "string list" where
  "polyseed_words_15 =
    [''useless'', ''usual'', ''utility'', ''vacant'', ''vacuum'', ''vague'', ''valid'', ''valley'',
     ''valve'', ''van'', ''vanish'', ''vapor'', ''various'', ''vast'', ''vault'', ''vehicle'', ''velvet'',
     ''vendor'', ''venture'', ''venue'', ''verb'', ''verify'', ''version'', ''very'', ''vessel'',
     ''veteran'', ''viable'', ''vibrant'', ''vicious'', ''victory'', ''video'', ''view'', ''village'',
     ''vintage'', ''violin'', ''virtual'', ''virus'', ''visa'', ''visit'', ''visual'', ''vital'',
     ''vivid'', ''vocal'', ''voice'', ''void'', ''volcano'', ''volume'', ''vote'', ''voyage'', ''wage'',
     ''wagon'', ''wait'', ''walk'', ''wall'', ''walnut'', ''want'', ''warfare'', ''warm'', ''warrior'',
     ''wash'', ''wasp'', ''waste'', ''water'', ''wave'', ''way'', ''wealth'', ''weapon'', ''wear'',
     ''weasel'', ''weather'', ''web'', ''wedding'', ''weekend'', ''weird'', ''welcome'', ''west'',
     ''wet'', ''whale'', ''what'', ''wheat'', ''wheel'', ''when'', ''where'', ''whip'', ''whisper'',
     ''wide'', ''width'', ''wife'', ''wild'', ''will'', ''win'', ''window'', ''wine'', ''wing'', ''wink'',
     ''winner'', ''winter'', ''wire'', ''wisdom'', ''wise'', ''wish'', ''witness'', ''wolf'', ''woman'',
     ''wonder'', ''wood'', ''wool'', ''word'', ''work'', ''world'', ''worry'', ''worth'', ''wrap'',
     ''wreck'', ''wrestle'', ''wrist'', ''write'', ''wrong'', ''yard'', ''year'', ''yellow'', ''you'',
     ''young'', ''youth'', ''zebra'', ''zero'', ''zone'', ''zoo'']"

definition POLYSEED_ENGLISH_WORDS :: "string list" where
  "POLYSEED_ENGLISH_WORDS =
    concat [polyseed_words_0, polyseed_words_1, polyseed_words_2, polyseed_words_3, polyseed_words_4, polyseed_words_5, polyseed_words_6, polyseed_words_7, polyseed_words_8, polyseed_words_9, polyseed_words_10, polyseed_words_11, polyseed_words_12, polyseed_words_13, polyseed_words_14, polyseed_words_15]"

definition POLYSEED_ENGLISH_PREFIX_LEN :: nat where "POLYSEED_ENGLISH_PREFIX_LEN = 4"

subsection \<open>The prefixes are distinct\<close>

fun str_before :: "string \<Rightarrow> string \<Rightarrow> bool" where
  "str_before s [] = False"
| "str_before [] (d # t) = True"
| "str_before (c # s) (d # t) = (if c = d then str_before s t else (of_char c :: nat) < of_char d)"

fun increasing :: "string list \<Rightarrow> bool" where
  "increasing (x # y # r) = (str_before (take 4 x) (take 4 y) \<and> increasing (y # r))"
| "increasing _ = True"

lemma part_0: "length polyseed_words_0 = 128" "increasing polyseed_words_0"
    "hd polyseed_words_0 = ''abandon''" "last polyseed_words_0 = ''avocado''"
  by (simp_all add: polyseed_words_0_def)

lemma part_1: "length polyseed_words_1 = 128" "increasing polyseed_words_1"
    "hd polyseed_words_1 = ''avoid''" "last polyseed_words_1 = ''cable''"
  by (simp_all add: polyseed_words_1_def)

lemma part_2: "length polyseed_words_2 = 128" "increasing polyseed_words_2"
    "hd polyseed_words_2 = ''cactus''" "last polyseed_words_2 = ''copper''"
  by (simp_all add: polyseed_words_2_def)

lemma part_3: "length polyseed_words_3 = 128" "increasing polyseed_words_3"
    "hd polyseed_words_3 = ''copy''" "last polyseed_words_3 = ''divide''"
  by (simp_all add: polyseed_words_3_def)

lemma part_4: "length polyseed_words_4 = 128" "increasing polyseed_words_4"
    "hd polyseed_words_4 = ''divorce''" "last polyseed_words_4 = ''exit''"
  by (simp_all add: polyseed_words_4_def)

lemma part_5: "length polyseed_words_5 = 128" "increasing polyseed_words_5"
    "hd polyseed_words_5 = ''exotic''" "last polyseed_words_5 = ''garment''"
  by (simp_all add: polyseed_words_5_def)

lemma part_6: "length polyseed_words_6 = 128" "increasing polyseed_words_6"
    "hd polyseed_words_6 = ''gas''" "last polyseed_words_6 = ''husband''"
  by (simp_all add: polyseed_words_6_def)

lemma part_7: "length polyseed_words_7 = 128" "increasing polyseed_words_7"
    "hd polyseed_words_7 = ''hybrid''" "last polyseed_words_7 = ''lend''"
  by (simp_all add: polyseed_words_7_def)

lemma part_8: "length polyseed_words_8 = 128" "increasing polyseed_words_8"
    "hd polyseed_words_8 = ''length''" "last polyseed_words_8 = ''morning''"
  by (simp_all add: polyseed_words_8_def)

lemma part_9: "length polyseed_words_9 = 128" "increasing polyseed_words_9"
    "hd polyseed_words_9 = ''mosquito''" "last polyseed_words_9 = ''paper''"
  by (simp_all add: polyseed_words_9_def)

lemma part_10: "length polyseed_words_10 = 128" "increasing polyseed_words_10"
    "hd polyseed_words_10 = ''parade''" "last polyseed_words_10 = ''quiz''"
  by (simp_all add: polyseed_words_10_def)

lemma part_11: "length polyseed_words_11 = 128" "increasing polyseed_words_11"
    "hd polyseed_words_11 = ''quote''" "last polyseed_words_11 = ''say''"
  by (simp_all add: polyseed_words_11_def)

lemma part_12: "length polyseed_words_12 = 128" "increasing polyseed_words_12"
    "hd polyseed_words_12 = ''scale''" "last polyseed_words_12 = ''soup''"
  by (simp_all add: polyseed_words_12_def)

lemma part_13: "length polyseed_words_13 = 128" "increasing polyseed_words_13"
    "hd polyseed_words_13 = ''source''" "last polyseed_words_13 = ''that''"
  by (simp_all add: polyseed_words_13_def)

lemma part_14: "length polyseed_words_14 = 128" "increasing polyseed_words_14"
    "hd polyseed_words_14 = ''theme''" "last polyseed_words_14 = ''useful''"
  by (simp_all add: polyseed_words_14_def)

lemma part_15: "length polyseed_words_15 = 128" "increasing polyseed_words_15"
    "hd polyseed_words_15 = ''useless''" "last polyseed_words_15 = ''zoo''"
  by (simp_all add: polyseed_words_15_def)

lemmas parts =
  part_0
  part_1
  part_2
  part_3
  part_4
  part_5
  part_6
  part_7
  part_8
  part_9
  part_10
  part_11
  part_12
  part_13
  part_14
  part_15

lemma str_before_trans: "str_before s t \<Longrightarrow> str_before t u \<Longrightarrow> str_before s u"
proof (induction s t arbitrary: u rule: str_before.induct)
  case (2 d t)
  then show ?case by (cases u) auto
next
  case (3 c s d t)
  then show ?case by (cases u) (auto split: if_splits)
qed simp

lemma str_before_irrefl: "\<not> str_before s s"
  by (induction s) auto

lemma increasing_append:
  "increasing xs \<Longrightarrow> increasing ys \<Longrightarrow> xs \<noteq> [] \<Longrightarrow> ys \<noteq> [] \<Longrightarrow>
   str_before (take 4 (last xs)) (take 4 (hd ys)) \<Longrightarrow> increasing (xs @ ys)"
proof (induction xs rule: induct_list012)
  case (2 x)
  then show ?case by (cases ys) auto
qed auto

lemma increasing_concat:
  "list_all (\<lambda>xs. xs \<noteq> [] \<and> increasing xs) xss \<Longrightarrow>
   successively (\<lambda>xs ys. str_before (take 4 (last xs)) (take 4 (hd ys))) xss \<Longrightarrow> increasing (concat xss)"
proof (induction xss rule: induct_list012)
  case (3 xs ys zss)
  then have "increasing (concat (ys # zss))" by simp
  then show ?case using 3 by (auto intro: increasing_append)
qed auto

lemma increasing_sorted: "increasing xs \<Longrightarrow> sorted_wrt str_before (map (take 4) xs)"
proof (induction xs rule: increasing.induct)
  case (1 x y r)
  then have ih: "sorted_wrt str_before (map (take 4) (y # r))" and xy: "str_before (take 4 x) (take 4 y)"
    by simp_all
  then show ?case by (auto dest: str_before_trans [OF xy])
qed auto

lemma sorted_distinct: "sorted_wrt str_before xs \<Longrightarrow> distinct xs"
  by (induction xs) (auto simp: str_before_irrefl)

lemma words_length: "length POLYSEED_ENGLISH_WORDS = 2048"
  by (simp add: POLYSEED_ENGLISH_WORDS_def parts)

lemma part_not_Nil: "length xs = 128 \<Longrightarrow> xs \<noteq> []" by auto

lemma prefixes_distinct: "distinct (map (take 4) POLYSEED_ENGLISH_WORDS)"
proof -
  have "increasing POLYSEED_ENGLISH_WORDS"
    unfolding POLYSEED_ENGLISH_WORDS_def
    by (rule increasing_concat) (simp_all add: parts part_not_Nil)
  then show ?thesis by (intro sorted_distinct increasing_sorted)
qed

text \<open>Every character of a word has a code from 96 to 127, so it is no blank and no capital.\<close>

fun small_char :: "char \<Rightarrow> bool" where
  "small_char (Char b0 b1 b2 b3 b4 b5 b6 b7) = (\<not> b7 \<and> b6 \<and> b5)"

definition small_word :: "string \<Rightarrow> bool" where
  "small_word w = (w \<noteq> [] \<and> list_all small_char w)"

lemma small_char_code: "small_char c \<Longrightarrow> 96 \<le> (of_char c :: nat)"
  by (cases c) (simp add: of_char_def)

lemma small_0: "list_all small_word polyseed_words_0"
  by (simp add: polyseed_words_0_def small_word_def)

lemma small_1: "list_all small_word polyseed_words_1"
  by (simp add: polyseed_words_1_def small_word_def)

lemma small_2: "list_all small_word polyseed_words_2"
  by (simp add: polyseed_words_2_def small_word_def)

lemma small_3: "list_all small_word polyseed_words_3"
  by (simp add: polyseed_words_3_def small_word_def)

lemma small_4: "list_all small_word polyseed_words_4"
  by (simp add: polyseed_words_4_def small_word_def)

lemma small_5: "list_all small_word polyseed_words_5"
  by (simp add: polyseed_words_5_def small_word_def)

lemma small_6: "list_all small_word polyseed_words_6"
  by (simp add: polyseed_words_6_def small_word_def)

lemma small_7: "list_all small_word polyseed_words_7"
  by (simp add: polyseed_words_7_def small_word_def)

lemma small_8: "list_all small_word polyseed_words_8"
  by (simp add: polyseed_words_8_def small_word_def)

lemma small_9: "list_all small_word polyseed_words_9"
  by (simp add: polyseed_words_9_def small_word_def)

lemma small_10: "list_all small_word polyseed_words_10"
  by (simp add: polyseed_words_10_def small_word_def)

lemma small_11: "list_all small_word polyseed_words_11"
  by (simp add: polyseed_words_11_def small_word_def)

lemma small_12: "list_all small_word polyseed_words_12"
  by (simp add: polyseed_words_12_def small_word_def)

lemma small_13: "list_all small_word polyseed_words_13"
  by (simp add: polyseed_words_13_def small_word_def)

lemma small_14: "list_all small_word polyseed_words_14"
  by (simp add: polyseed_words_14_def small_word_def)

lemma small_15: "list_all small_word polyseed_words_15"
  by (simp add: polyseed_words_15_def small_word_def)

lemma words_small: "list_all small_word POLYSEED_ENGLISH_WORDS"
  by (simp add: POLYSEED_ENGLISH_WORDS_def list_all_append
    small_0 small_1 small_2 small_3 small_4 small_5 small_6 small_7 small_8 small_9 small_10 small_11
    small_12 small_13 small_14 small_15)

end
