(* ===== verification/Polyseed.thy ===== *)
theory Polyseed
  imports Cbor PolyseedWords
begin

section \<open>Monero's sixteen words: wallets/polyseed.ts\<close>

text \<open>
  A polyseed packs 150 secret bits, a birthday and five feature bits into fifteen numbers of eleven
  bits and puts a check number over the field with 2048 elements in front. The two loops that move
  bits have data-independent control but no obvious bound, so they are partial functions (None: a
  loop that does not end); the lemmas show that they end and what they compute: the same list of
  bits cut into tens and into eights. \<open>pbkdf2\<close> is a parameter.
\<close>

unbundle bit_operations_syntax

subsection \<open>Constants\<close>

definition POLYSEED_NUM_WORDS :: nat where "POLYSEED_NUM_WORDS = 16"
definition GF_BITS :: nat where "GF_BITS = 11"
definition GF_SIZE :: nat where "GF_SIZE = 2048"
definition POLY_NUM_CHECK_DIGITS :: nat where "POLY_NUM_CHECK_DIGITS = 1"
definition DATA_WORDS :: nat where "DATA_WORDS = 15"
definition SHARE_BITS :: nat where "SHARE_BITS = 10"
definition SECRET_BITS :: nat where "SECRET_BITS = 150"
definition SECRET_SIZE :: nat where "SECRET_SIZE = 19"
definition SECRET_BUFFER_SIZE :: nat where "SECRET_BUFFER_SIZE = 32"
definition CLEAR_MASK :: byte where "CLEAR_MASK = 0x3f"
definition DATE_BITS :: nat where "DATE_BITS = 10"
definition DATE_MASK :: nat where "DATE_MASK = 1023"
definition FEATURE_BITS :: nat where "FEATURE_BITS = 5"
definition USER_FEATURES :: nat where "USER_FEATURES = 3"
definition USER_FEATURES_MASK :: nat where "USER_FEATURES_MASK = 7"
definition ENCRYPTED_MASK :: nat where "ENCRYPTED_MASK = 16"
definition FEATURE_MASK :: nat where "FEATURE_MASK = 31"
definition EPOCH :: int where "EPOCH = 1635768000"
definition TIME_STEP :: int where "TIME_STEP = 2629746"
definition KDF_NUM_ITERATIONS :: nat where "KDF_NUM_ITERATIONS = 10000"
definition POLYSEED_COIN_MONERO :: nat where "POLYSEED_COIN_MONERO = 0"

lemmas poly_consts = POLYSEED_NUM_WORDS_def GF_BITS_def GF_SIZE_def POLY_NUM_CHECK_DIGITS_def DATA_WORDS_def
  SHARE_BITS_def SECRET_BITS_def SECRET_SIZE_def SECRET_BUFFER_SIZE_def DATE_BITS_def DATE_MASK_def
  FEATURE_BITS_def USER_FEATURES_def USER_FEATURES_MASK_def ENCRYPTED_MASK_def FEATURE_MASK_def POLYSEED_COIN_MONERO_def
  POLYSEED_ENGLISH_PREFIX_LEN_def

subsection \<open>The field\<close>

definition MUL2_TABLE :: "nat list" where "MUL2_TABLE = [5, 7, 1, 3, 13, 15, 9, 11]"

definition gfMul2 :: "nat \<Rightarrow> nat" where
  "gfMul2 x =
     (if x < 1024 then (2 * x) AND 0xffff else MUL2_TABLE ! (x mod 8) + 16 * ((x - 1024) div 8))"

definition gfPolyEval :: "nat list \<Rightarrow> nat" where
  "gfPolyEval coeffs =
     fold (\<lambda>i result. gfMul2 result XOR coeffs ! i) (rev [0..<POLYSEED_NUM_WORDS - 1])
       (coeffs ! (POLYSEED_NUM_WORDS - 1))"

definition gfPolyEncode :: "nat list \<Rightarrow> nat list" where
  "gfPolyEncode coeffs = coeffs[0 := gfPolyEval coeffs]"

definition gfPolyCheck :: "nat list \<Rightarrow> bool" where
  "gfPolyCheck coeffs = (gfPolyEval coeffs = 0)"

subsection \<open>Packing\<close>

record PolyseedData =
  birthday :: nat
  features :: nat
  secret :: "byte list"
  checksum :: nat

datatype polyseed_error =
    EncodeInvariantBroken
  | DecodeInvariantBroken
  | CoinOutOfRange nat
  | WordCount nat
  | UnknownWord nat string
  | ChecksumFailed
  | UnsupportedFeatures
  | SanityUndecodable polyseed_error
  | SanityMismatch

text \<open>A byte past the end of the array is \<open>undefined\<close>, which the bit operators read as 0.\<close>

definition byte_of :: "byte list \<Rightarrow> nat \<Rightarrow> nat" where
  "byte_of s i = (if i < length s then unat (s ! i) else 0)"

record packer =
  secretIdx :: nat
  secretVal :: nat
  secretBitsRem :: nat
  seedRemBits :: nat

definition refill :: "byte list \<Rightarrow> packer \<Rightarrow> packer" where
  "refill s p =
     (if secretBitsRem p = 0 then
        (let idx = secretIdx p + 1; r = min (seedRemBits p) 8
         in \<lparr>secretIdx = idx, secretVal = byte_of s idx, secretBitsRem = r, seedRemBits = seedRemBits p - r\<rparr>)
      else p)"

text \<open>The inner loop, with \<open>wordBits\<close> and \<open>wordVal\<close>.\<close>

partial_function (option) fill_word :: "byte list \<Rightarrow> nat \<Rightarrow> nat \<Rightarrow> packer \<Rightarrow> (nat \<times> packer) option" where
  "fill_word s wordBits wordVal p =
     (if wordBits < SHARE_BITS then
        let q = refill s p;
            chunkBits = min (secretBitsRem q) (SHARE_BITS - wordBits);
            r = secretBitsRem q - chunkBits
        in fill_word s (wordBits + chunkBits)
             (push_bit chunkBits wordVal OR (drop_bit r (secretVal q) AND (2 ^ chunkBits - 1)))
             (q\<lparr>secretBitsRem := r\<rparr>)
      else Some (wordVal, p))"

text \<open>The loop over the words: the numbers, the bits of \<open>extraVal\<close> left, and what is left of the secret.\<close>

fun pack_words :: "byte list \<Rightarrow> nat \<Rightarrow> nat \<Rightarrow> nat \<Rightarrow> packer \<Rightarrow> (nat list \<times> nat \<times> packer) option" where
  "pack_words s extraVal extraBits 0 p = Some ([], extraBits, p)"
| "pack_words s extraVal extraBits (Suc n) p =
     Option.bind (fill_word s 0 0 p) (\<lambda>(wordVal, q).
       let e = extraBits - 1;
           w = (push_bit 1 wordVal OR (drop_bit e extraVal AND 1)) AND 0x7ff
       in Option.bind (pack_words s extraVal e n q) (\<lambda>(ws, eb, r). Some (w # ws, eb, r)))"

definition polyseedDataToPoly :: "PolyseedData \<Rightarrow> nat list \<Rightarrow> (polyseed_error + nat list) option" where
  "polyseedDataToPoly data coeffs =
     (let extraVal = push_bit DATE_BITS (features data) OR birthday data;
          start = \<lparr>secretIdx = 0, secretVal = byte_of (secret data) 0, secretBitsRem = 8,
                   seedRemBits = SECRET_BITS - 8\<rparr>
      in map_option (\<lambda>(ws, eb, p).
           if seedRemBits p \<noteq> 0 \<or> secretBitsRem p \<noteq> 0 \<or> eb \<noteq> 0 then Inl EncodeInvariantBroken
           else Inr (take POLY_NUM_CHECK_DIGITS coeffs @ ws))
         (pack_words (secret data) extraVal (FEATURE_BITS + DATE_BITS) DATA_WORDS start))"

record unpacker =
  u_secret :: "byte list"
  u_idx :: nat
  u_filled :: nat
  u_written :: nat

definition next_byte :: "unpacker \<Rightarrow> unpacker" where
  "next_byte u = (if u_filled u = 8 then u\<lparr>u_idx := u_idx u + 1, u_written := u_written u + 8, u_filled := 0\<rparr> else u)"

partial_function (option) unpack_word :: "nat \<Rightarrow> nat \<Rightarrow> unpacker \<Rightarrow> unpacker option" where
  "unpack_word wordVal wordBits u =
     (if 0 < wordBits then
        let v = next_byte u;
            chunkBits = min wordBits (8 - u_filled v);
            rest = wordBits - chunkBits;
            b = u_secret v ! u_idx v;
            shifted = (if chunkBits < 8 then push_bit chunkBits b else b);
            b' = shifted OR of_nat (drop_bit rest wordVal AND (2 ^ chunkBits - 1))
        in unpack_word wordVal rest
             (v\<lparr>u_secret := (u_secret v)[u_idx v := b'], u_filled := u_filled v + chunkBits\<rparr>)
      else Some u)"

fun unpack_words :: "nat list \<Rightarrow> nat \<Rightarrow> nat \<Rightarrow> unpacker \<Rightarrow> (nat \<times> nat \<times> unpacker) option" where
  "unpack_words [] extraVal extraBits u = Some (extraVal, extraBits, u)"
| "unpack_words (w # ws) extraVal extraBits u =
     Option.bind (unpack_word (drop_bit 1 w) (GF_BITS - 1) u) (\<lambda>v.
       unpack_words ws (push_bit 1 extraVal OR (w AND 1)) (extraBits + 1) v)"

definition polyseedPolyToData :: "nat list \<Rightarrow> (polyseed_error + PolyseedData) option" where
  "polyseedPolyToData coeffs =
     map_option (\<lambda>(extraVal, extraBits, u).
         if u_written u + u_filled u \<noteq> SECRET_BITS \<or> extraBits \<noteq> FEATURE_BITS + DATE_BITS
         then Inl DecodeInvariantBroken
         else Inr \<lparr>birthday = extraVal AND DATE_MASK, features = drop_bit DATE_BITS extraVal AND FEATURE_MASK,
                  secret = u_secret u, checksum = coeffs ! 0\<rparr>)
       (unpack_words (drop POLY_NUM_CHECK_DIGITS coeffs) 0 0
         \<lparr>u_secret = replicate SECRET_BUFFER_SIZE 0, u_idx = 0, u_filled = 0, u_written = 0\<rparr>)"

subsection \<open>Words\<close>

text \<open>The map from words and from their first letters to their numbers; a later entry replaces an earlier one.\<close>

definition WORD_INDEX :: "string list \<Rightarrow> string \<rightharpoonup> nat" where
  "WORD_INDEX ws =
     fold (\<lambda>i m. m(ws ! i \<mapsto> i, take POLYSEED_ENGLISH_PREFIX_LEN (ws ! i) \<mapsto> i)) [0..<length ws] Map.empty"

definition normalizePolyseed :: "string \<Rightarrow> string" where
  "normalizePolyseed phrase = to_lower (squeeze_spaces (js_trim phrase))"

fun join_words :: "string list \<Rightarrow> string" where
  "join_words [] = []"
| "join_words [w] = w"
| "join_words (w # ws) = w @ CHR '' '' # join_words ws"

definition polyseedEncode :: "PolyseedData \<Rightarrow> nat \<Rightarrow> (polyseed_error + string \<times> PolyseedData) option" where
  "polyseedEncode data coin =
     (if GF_SIZE \<le> coin then Some (Inl (CoinOutOfRange coin))
      else map_option (\<lambda>r. case r of
             Inl e \<Rightarrow> Inl e
           | Inr packed \<Rightarrow>
               let coeffs = gfPolyEncode packed;
                   coeffs = coeffs[POLY_NUM_CHECK_DIGITS := coeffs ! POLY_NUM_CHECK_DIGITS XOR coin]
               in Inr (join_words (map (\<lambda>c. POLYSEED_ENGLISH_WORDS ! c) coeffs),
                       data\<lparr>checksum := coeffs ! 0\<rparr>))
         (polyseedDataToPoly data (replicate POLYSEED_NUM_WORDS 0)))"

definition word_number :: "string \<Rightarrow> nat option" where
  "word_number w =
     or_else (WORD_INDEX POLYSEED_ENGLISH_WORDS w)
       (WORD_INDEX POLYSEED_ENGLISH_WORDS (take POLYSEED_ENGLISH_PREFIX_LEN w))"

fun word_numbers :: "nat \<Rightarrow> string list \<Rightarrow> polyseed_error + nat list" where
  "word_numbers i [] = Inr []"
| "word_numbers i (w # ws) =
     (case word_number w of
        None \<Rightarrow> Inl (UnknownWord (i + 1) w)
      | Some n \<Rightarrow> (case word_numbers (i + 1) ws of Inl e \<Rightarrow> Inl e | Inr ns \<Rightarrow> Inr (n # ns)))"

definition polyseedFeaturesSupported :: "nat \<Rightarrow> bool" where
  "polyseedFeaturesSupported fs =
     (let reservedMask = FEATURE_MASK XOR ENCRYPTED_MASK XOR USER_FEATURES_MASK in fs AND reservedMask = 0)"

definition polyseedIsEncrypted :: "PolyseedData \<Rightarrow> bool" where
  "polyseedIsEncrypted data = (features data AND ENCRYPTED_MASK \<noteq> 0)"

definition decode_numbers :: "nat list \<Rightarrow> nat \<Rightarrow> (polyseed_error + PolyseedData) option" where
  "decode_numbers numbers coin =
     (let coeffs = numbers[POLY_NUM_CHECK_DIGITS := numbers ! POLY_NUM_CHECK_DIGITS XOR coin]
      in if \<not> gfPolyCheck coeffs then Some (Inl ChecksumFailed)
         else map_option (\<lambda>r. case r of
                Inl e \<Rightarrow> Inl e
              | Inr data \<Rightarrow> if polyseedFeaturesSupported (features data) then Inr data else Inl UnsupportedFeatures)
            (polyseedPolyToData coeffs))"

definition polyseedDecode :: "string \<Rightarrow> nat \<Rightarrow> (polyseed_error + PolyseedData) option" where
  "polyseedDecode phrase coin =
     (let words = filter (\<lambda>w. w \<noteq> []) (split_on (CHR '' '') (normalizePolyseed phrase))
      in if length words \<noteq> POLYSEED_NUM_WORDS then Some (Inl (WordCount (length words)))
         else case word_numbers 0 words of
                Inl e \<Rightarrow> Some (Inl e)
              | Inr numbers \<Rightarrow> decode_numbers numbers coin)"

subsection \<open>Dates, keys and new seeds\<close>

definition birthdayEncode :: "int \<Rightarrow> nat" where
  "birthdayEncode unixSeconds =
     (if unixSeconds < EPOCH then 0 else nat ((unixSeconds - EPOCH) div TIME_STEP) AND DATE_MASK)"

definition birthdayDecode :: "nat \<Rightarrow> int" where
  "birthdayDecode b = EPOCH + int (b AND DATE_MASK) * TIME_STEP"

definition writeUInt32LE :: "byte list \<Rightarrow> nat \<Rightarrow> nat \<Rightarrow> byte list" where
  "writeUInt32LE buf offset value =
     buf[offset := of_nat (value AND 0xff), offset + 1 := of_nat (drop_bit 8 value AND 0xff),
         offset + 2 := of_nat (drop_bit 16 value AND 0xff), offset + 3 := of_nat (drop_bit 24 value AND 0xff)]"

definition keygen_salt :: "PolyseedData \<Rightarrow> nat \<Rightarrow> byte list" where
  "keygen_salt data coin =
     (let label = utf8 ''POLYSEED key'';
          salt = (label @ replicate (32 - length label) 0)[13 := 0xff, 14 := 0xff, 15 := 0xff]
      in writeUInt32LE (writeUInt32LE (writeUInt32LE salt 16 coin) 20 (birthday data)) 24 (features data))"

definition keygen_password :: "byte list \<Rightarrow> byte list" where
  "keygen_password s = take SECRET_BUFFER_SIZE s @ replicate (SECRET_BUFFER_SIZE - length s) 0"

definition polyseedKeygen ::
    "(byte list \<Rightarrow> byte list \<Rightarrow> nat \<Rightarrow> nat \<Rightarrow> byte list) \<Rightarrow> PolyseedData \<Rightarrow> nat \<Rightarrow> nat \<Rightarrow> polyseed_error + byte list" where
  "polyseedKeygen pbkdf2 data coin keySize =
     (if GF_SIZE \<le> coin then Inl (CoinOutOfRange coin)
      else Inr (pbkdf2 (keygen_password (secret data)) (keygen_salt data coin) KDF_NUM_ITERATIONS keySize))"

text \<open>\<open>entropy\<close> is what the backend's generator returned, 19 bytes; \<open>now\<close> is the clock in seconds.\<close>

definition fresh_data :: "byte list \<Rightarrow> int \<Rightarrow> nat \<Rightarrow> PolyseedData" where
  "fresh_data entropy now fs =
     (let s = entropy @ replicate (SECRET_BUFFER_SIZE - length entropy) 0
      in \<lparr>birthday = birthdayEncode now, features = fs AND USER_FEATURES_MASK,
          secret = s[SECRET_SIZE - 1 := s ! (SECRET_SIZE - 1) AND CLEAR_MASK], checksum = 0\<rparr>)"

definition bytesEqual :: "byte list \<Rightarrow> byte list \<Rightarrow> bool" where
  "bytesEqual a b =
     (if length a \<noteq> length b then False
      else fold (\<lambda>i diff. diff OR (a ! i XOR b ! i)) [0..<length a] 0 = 0)"

definition generatePolyseed :: "byte list \<Rightarrow> int \<Rightarrow> nat \<Rightarrow> (polyseed_error + string \<times> PolyseedData) option" where
  "generatePolyseed entropy now fs =
     (if drop_bit USER_FEATURES fs \<noteq> 0 then Some (Inl UnsupportedFeatures)
      else
        let data = fresh_data entropy now fs
        in Option.bind (polyseedEncode data POLYSEED_COIN_MONERO) (\<lambda>r. case r of
             Inl e \<Rightarrow> Some (Inl e)
           | Inr (phrase, encoded) \<Rightarrow>
               map_option (\<lambda>d. case d of
                   Inl e \<Rightarrow> Inl (SanityUndecodable e)
                 | Inr decoded \<Rightarrow>
                     if features decoded \<noteq> features data \<or> birthday decoded \<noteq> birthday data \<or>
                        \<not> bytesEqual (take SECRET_SIZE (secret decoded)) (take SECRET_SIZE (secret data))
                     then Inl SanityMismatch else Inr (phrase, encoded))
                 (polyseedDecode phrase POLYSEED_COIN_MONERO)))"

definition polyseedToMoneroSpendKey ::
    "(byte list \<Rightarrow> byte list \<Rightarrow> nat \<Rightarrow> nat \<Rightarrow> byte list) \<Rightarrow> string \<Rightarrow>
     (polyseed_error + PolyseedData \<times> byte list) option" where
  "polyseedToMoneroSpendKey pbkdf2 phrase =
     map_option (\<lambda>r. case r of
         Inl e \<Rightarrow> Inl e
       | Inr data \<Rightarrow>
           (case polyseedKeygen pbkdf2 data POLYSEED_COIN_MONERO 32 of
              Inl e \<Rightarrow> Inl e | Inr k \<Rightarrow> Inr (data, k)))
       (polyseedDecode phrase POLYSEED_COIN_MONERO)"

definition validatePolyseed :: "string \<Rightarrow> (polyseed_error + unit) option" where
  "validatePolyseed phrase =
     map_option (\<lambda>r. case r of Inl e \<Rightarrow> Inl e | Inr _ \<Rightarrow> Inr ()) (polyseedDecode phrase POLYSEED_COIN_MONERO)"

subsection \<open>Times and heights\<close>

text \<open>The times are whole seconds. The quotients of the source are floating point, but with whole
  arguments they stay further from the next integer than the rounding reaches (the divisors are below
  \<open>2\<^sup>2\<^sup>8\<close> and the heights below \<open>2\<^sup>2\<^sup>2\<close>), so its floor is that of the exact quotient.\<close>

definition MONERO_ANCHORS :: "(int \<times> int) list" where
  "MONERO_ANCHORS = [(0, 1397818193), (1009827, 1458748658), (3000000, 1697813342)]"

definition MONERO_BLOCK_SEC :: int where "MONERO_BLOCK_SEC = 120"
definition ZEPHYR_GENESIS :: int where "ZEPHYR_GENESIS = 1685664000"
definition ZEPHYR_BLOCK_SEC :: int where "ZEPHYR_BLOCK_SEC = 120"
definition SAFETY_MARGIN_SEC :: int where "SAFETY_MARGIN_SEC = 30 * 86400"

fun height_from :: "(int \<times> int) list \<Rightarrow> int \<Rightarrow> int" where
  "height_from [] unix = 0"
| "height_from [(hLast, tLast)] unix = hLast + (unix - tLast) div MONERO_BLOCK_SEC"
| "height_from ((hPrev, tPrev) # (h, t) # as) unix =
     (if unix < t then hPrev + ((unix - tPrev) * (h - hPrev)) div (t - tPrev)
      else height_from ((h, t) # as) unix)"

definition moneroHeightAtUnix :: "int \<Rightarrow> int" where
  "moneroHeightAtUnix unix =
     (let (h0, t0) = MONERO_ANCHORS ! 0
      in if unix \<le> t0 then h0 else height_from MONERO_ANCHORS unix)"

text \<open>\<open>date_parse\<close> is the engine's \<open>Date.parse\<close>: the milliseconds of a text it reads as a time.\<close>

definition parseDate :: "(string \<Rightarrow> int option) \<Rightarrow> string \<Rightarrow> int option" where
  "parseDate date_parse dateStr = map_option (\<lambda>t. t div 1000) (date_parse (dateStr @ ''T00:00:00Z''))"

definition dateStringToMoneroHeight :: "(string \<Rightarrow> int option) \<Rightarrow> string \<Rightarrow> int" where
  "dateStringToMoneroHeight date_parse dateStr =
     (if dateStr = [] then 0
      else case parseDate date_parse dateStr of
             None \<Rightarrow> 0
           | Some unix \<Rightarrow> moneroHeightAtUnix (unix - SAFETY_MARGIN_SEC))"

definition dateStringToZephyrHeight :: "(string \<Rightarrow> int option) \<Rightarrow> string \<Rightarrow> int" where
  "dateStringToZephyrHeight date_parse dateStr =
     (if dateStr = [] then 0
      else case parseDate date_parse dateStr of
             None \<Rightarrow> 0
           | Some unix \<Rightarrow>
               (let biased = unix - SAFETY_MARGIN_SEC in max 0 ((biased - ZEPHYR_GENESIS) div ZEPHYR_BLOCK_SEC)))"

definition birthdayToRestoreHeight :: "nat \<Rightarrow> int" where
  "birthdayToRestoreHeight b = moneroHeightAtUnix (birthdayDecode b - TIME_STEP)"

subsection \<open>Doubling in the field\<close>

lemma xor_top: "q < 2 ^ k \<Longrightarrow> (2 ^ k + q) XOR 2 ^ k = (q :: nat)"
proof -
  assume q: "q < 2 ^ k"
  then have t: "take_bit k q = q" by (simp add: take_bit_nat_eq_self)
  have nb: "\<not> bit q n" if "k \<le> n" for n
    using that by (metis bit_take_bit_iff not_le t)
  have "2 ^ k + q = 2 ^ k OR q"
    by (rule disjunctive_add) (use nb in \<open>auto simp: bit_exp_iff\<close>)
  then show ?thesis
    by (auto intro!: bit_eqI simp: bit_xor_iff bit_or_iff bit_exp_iff nb)
qed

lemma high_half:
  fixes x :: nat
  assumes "1024 \<le> x" "x < 2048"
  obtains q r where "x = 1024 + 8 * q + r" "q < 128" "r < 8" "x mod 8 = r" "(x - 1024) div 8 = q"
proof
  let ?q = "(x - 1024) div 8" and ?r = "(x - 1024) mod 8"
  show x: "x = 1024 + 8 * ?q + ?r" using assms by simp
  show "?q < 128" using assms by (simp add: less_mult_imp_div_less)
  show "?r < 8" by simp
  have "x = ?r + (128 + ?q) * 8" using x by simp
  then show "x mod 8 = ?r" by (metis mod_mult_self1 mod_mod_trivial)
qed simp

lemma low_doubles: "x < 1024 \<Longrightarrow> (2 * x) AND 65535 = (2 * x :: nat)"
  using take_bit_eq_mask [of 16 "2 * x"] by (simp add: mask_eq_exp_minus_1 take_bit_nat_eq_self)

lemma table_bounds: "r < 8 \<Longrightarrow> 0 < MUL2_TABLE ! r \<and> MUL2_TABLE ! r < 16"
proof -
  have "list_all (\<lambda>v. 0 < v \<and> v < 16) MUL2_TABLE" "length MUL2_TABLE = 8" by (simp_all add: MUL2_TABLE_def)
  then show "r < 8 \<Longrightarrow> 0 < MUL2_TABLE ! r \<and> MUL2_TABLE ! r < 16" by (simp add: list_all_length)
qed

lemma gfMul2_shift:
  assumes "x < 2048" shows "gfMul2 x = push_bit 1 x XOR (if bit x 10 then 2053 else 0)"
proof (cases "x < 1024")
  case True
  then have "\<not> bit x 10" by (simp add: bit_iff_odd)
  then show ?thesis using True by (simp add: gfMul2_def low_doubles push_bit_eq_mult mult.commute [of x])
next
  case False
  then obtain q r where x: "x = 1024 + 8 * q + r" "q < 128" "r < 8" "x mod 8 = r" "(x - 1024) div 8 = q"
    using high_half [of x] assms by auto
  let ?y = "push_bit 1 x XOR 2053"
  have "push_bit 1 x = 16 * (128 + q) + 2 * r" by (simp add: push_bit_eq_mult x(1))
  then have p: "drop_bit 4 (push_bit 1 x) = 128 + q" "take_bit 4 (push_bit 1 x) = 2 * r"
  proof -
    have "(16 * k + 2 * r) div 16 = k" "(16 * k + 2 * r) mod 16 = 2 * r" for k
      using x(3) by simp_all
    note this [of "128 + q"]
    moreover assume "push_bit 1 x = 16 * (128 + q) + 2 * r"
    ultimately show "drop_bit 4 (push_bit 1 x) = 128 + q" "take_bit 4 (push_bit 1 x) = 2 * r"
      by (simp_all add: drop_bit_eq_div take_bit_eq_mod del: distrib_left_numeral)
  qed
  have "drop_bit 4 ?y = q"
    unfolding drop_bit_xor p using xor_top [of q 7] x(2) by (simp add: drop_bit_eq_div)
  moreover have "take_bit 4 ?y = (2 * r) XOR 5" unfolding take_bit_xor p by (simp add: take_bit_eq_mod)
  ultimately have "?y = 16 * q + ((2 * r) XOR 5)" using bits_ident [of 4 ?y] by (simp add: push_bit_eq_mult)
  also have "(2 * r) XOR 5 = MUL2_TABLE ! r"
  proof -
    have "r \<in> {0, 1, 2, 3, 4, 5, 6, 7}" using x(3) by auto
    then show ?thesis by (auto simp: MUL2_TABLE_def)
  qed
  finally have "?y = 16 * q + MUL2_TABLE ! r" .
  moreover have "bit x 10" using False assms by (simp add: bit_iff_odd div_if)
  ultimately show ?thesis using False x(4,5) by (simp add: gfMul2_def)
qed

text \<open>Doubling is linear and loses nothing, so a change of one number changes the check.\<close>

lemma below_2048: "x < 2048 \<longleftrightarrow> take_bit 11 x = (x :: nat)"
  using take_bit_nat_eq_self_iff [of 11 x] by simp

lemma xor_2048: "x < 2048 \<Longrightarrow> y < 2048 \<Longrightarrow> x XOR y < (2048 :: nat)"
  by (simp add: below_2048 take_bit_xor)

lemma gfMul2_bound: "x < 2048 \<Longrightarrow> gfMul2 x < 2048"
proof (cases "x < 1024")
  case False
  assume "x < 2048"
  then obtain q r where "x = 1024 + 8 * q + r" "q < 128" "r < 8" "x mod 8 = r" "(x - 1024) div 8 = q"
    using high_half [of x] False by auto
  then show ?thesis using False table_bounds [of r] by (simp add: gfMul2_def)
qed (simp add: gfMul2_def low_doubles)

lemma gfMul2_xor: "x < 2048 \<Longrightarrow> y < 2048 \<Longrightarrow> gfMul2 (x XOR y) = gfMul2 x XOR gfMul2 y"
  by (simp add: gfMul2_shift xor_2048 push_bit_xor bit_xor_iff xor.assoc xor.left_commute)

lemma gfMul2_0 [simp]: "gfMul2 0 = 0"
  by (simp add: gfMul2_def)

lemma gfMul2_eq_0: "x < 2048 \<Longrightarrow> gfMul2 x = 0 \<longleftrightarrow> x = 0"
  using table_bounds [of "x mod 8"] by (auto simp: gfMul2_def low_doubles)

lemma gfMul2_not_fixed: "x < 2048 \<Longrightarrow> gfMul2 x = x \<longleftrightarrow> x = 0"
proof (cases "x < 1024")
  case False
  assume "x < 2048"
  then obtain q r where x: "x = 1024 + 8 * q + r" "q < 128" "r < 8" "x mod 8 = r" "(x - 1024) div 8 = q"
    using high_half [of x] False by auto
  have "r \<in> {0, 1, 2, 3, 4, 5, 6, 7}" using x(3) by auto
  then have "MUL2_TABLE ! r + 16 * q \<noteq> 1024 + 8 * q + r"
    using x(2) by (elim insertE emptyE; simp add: MUL2_TABLE_def; presburger)
  then show ?thesis using False x(1,4,5) by (simp add: gfMul2_def)
qed (simp add: gfMul2_def low_doubles)

subsection \<open>The check number\<close>

fun horner :: "nat list \<Rightarrow> nat" where
  "horner [] = 0"
| "horner (c # cs) = gfMul2 (horner cs) XOR c"

lemma foldr_horner:
  "k \<le> n \<Longrightarrow> length cs = Suc n \<Longrightarrow>
   foldr (\<lambda>i r. gfMul2 r XOR cs ! i) [k..<n] (cs ! n) = horner (drop k cs)"
proof (induction "n - k" arbitrary: k)
  case 0
  then have "drop k cs = [cs ! n]" by (simp add: Cons_nth_drop_Suc [symmetric])
  then show ?case using 0 by simp
next
  case (Suc d)
  then have "[k..<n] = k # [Suc k..<n]" "drop k cs = cs ! k # drop (Suc k) cs"
    by (simp_all add: upt_conv_Cons Cons_nth_drop_Suc)
  then show ?case using Suc by simp
qed

lemma gfPolyEval_horner: "length cs = 16 \<Longrightarrow> gfPolyEval cs = horner cs"
  using foldr_horner [of 0 15 cs] by (simp add: gfPolyEval_def POLYSEED_NUM_WORDS_def foldr_conv_fold)

abbreviation small :: "nat list \<Rightarrow> bool" where "small \<equiv> list_all (\<lambda>c. c < 2048)"

lemma horner_bound: "small cs \<Longrightarrow> horner cs < 2048"
  by (induction cs) (auto simp: gfMul2_bound xor_2048)

lemma xor_eq_0: "x XOR y = 0 \<longleftrightarrow> x = (y :: nat)"
  by (metis xor.assoc xor_self_eq xor.left_neutral xor.right_neutral)

lemma xor_cancel: "x XOR a = y XOR a \<longleftrightarrow> x = (y :: nat)"
  by (metis xor.assoc xor_self_eq xor.right_neutral)

lemma xor_fixed: "x XOR k = x \<longleftrightarrow> k = (0 :: nat)"
  by (metis xor_eq_0 xor.commute xor.right_neutral xor_cancel)

lemma gfMul2_inj: "x < 2048 \<Longrightarrow> y < 2048 \<Longrightarrow> gfMul2 x = gfMul2 y \<longleftrightarrow> x = y"
  using gfMul2_xor [of x y] gfMul2_eq_0 [of "x XOR y"] xor_2048 [of x y] by (metis xor_eq_0)

lemma horner_prefix:
  assumes "small pre" "small us" "small vs" "horner us \<noteq> horner vs"
  shows "horner (pre @ us) \<noteq> horner (pre @ vs)"
  using assms(1)
proof (induction pre)
  case (Cons c pre)
  then have "horner (pre @ us) \<noteq> horner (pre @ vs)" by simp
  moreover have "horner (pre @ us) < 2048" "horner (pre @ vs) < 2048"
    using Cons.prems assms(2,3) by (auto intro: horner_bound)
  ultimately show ?case by (simp add: xor_cancel gfMul2_inj)
qed (use assms(4) in simp)

lemma horner_one_change:
  assumes "small pre" "small post" "a < 2048" "b < 2048" "a \<noteq> b"
  shows "horner (pre @ a # post) \<noteq> horner (pre @ b # post)"
  using assms by (intro horner_prefix) (auto simp: xor.commute [of "gfMul2 _"] xor_cancel)

lemma horner_pair_change:
  assumes "small pre" "small post" "a < 2048" "b < 2048" "d < 2048" "d \<noteq> 0"
  shows "horner (pre @ a # b # post) \<noteq> horner (pre @ (a XOR d) # (b XOR d) # post)"
proof (rule horner_prefix)
  let ?h = "gfMul2 (gfMul2 (horner post))"
  have h: "gfMul2 (horner post) < 2048" using assms(2) by (simp add: horner_bound gfMul2_bound)
  have k: "gfMul2 d XOR d \<noteq> 0" using gfMul2_not_fixed [OF assms(5)] assms(6) by (simp add: xor_eq_0)
  have "horner ((a XOR d) # (b XOR d) # post) = horner (a # b # post) XOR (gfMul2 d XOR d)"
    using h assms(4,5) by (simp add: gfMul2_xor xor_2048 ac_simps)
  then show "horner (a # b # post) \<noteq> horner ((a XOR d) # (b XOR d) # post)"
    using k by (metis xor_fixed)
qed (use assms in \<open>auto simp: xor_2048\<close>)

subsection \<open>Lists of bits\<close>

definition bits :: "nat \<Rightarrow> 'a :: semiring_bit_operations \<Rightarrow> bool list" where
  "bits n v = map (bit v) (rev [0..<n])"

lemma length_bits [simp]: "length (bits n v) = n" by (simp add: bits_def)

lemma bits_0 [simp]: "bits 0 v = []" by (simp add: bits_def)

lemma bits_Suc: "bits (Suc n) v = bit v n # bits n v" by (simp add: bits_def)

lemma bits_cong: "(\<And>i. i < n \<Longrightarrow> bit v i = bit w i) \<Longrightarrow> bits n v = bits n w"
  by (simp add: bits_def)

lemma bits_eqD: "bits n v = bits n w \<Longrightarrow> i < n \<Longrightarrow> bit v i = bit w i"
  by (simp add: bits_def map_eq_conv)

lemma bits_drop_append: "bits m (drop_bit k v) @ bits k v = bits (m + k) v"
  by (induction m) (simp_all add: bits_Suc bit_drop_bit_eq add.commute)

lemma bits_append:
  assumes "\<And>i. i < m \<Longrightarrow> bit v (i + k) = bit a i" "\<And>i. i < k \<Longrightarrow> bit v i = bit b i"
  shows "bits (m + k) v = bits m a @ bits k b"
proof -
  have "bits m (drop_bit k v) = bits m a"
    using assms(1) by (simp add: bits_def bit_drop_bit_eq add.commute)
  moreover have "bits k v = bits k b" using assms(2) by (rule bits_cong)
  ultimately show ?thesis using bits_drop_append [of m k v] by simp
qed

lemma and_mask_nat: "(x :: nat) AND (2 ^ n - 1) = take_bit n x"
  using take_bit_eq_mask [of n x] by (simp add: mask_eq_exp_minus_1)

lemma bits_shift_or: "bits (k + c) (push_bit c w OR (x AND (2 ^ c - 1))) = bits k w @ bits c (x :: nat)"
  unfolding and_mask_nat
  by (rule bits_append) (auto simp: bit_or_iff bit_push_bit_iff bit_take_bit_iff)

subsection \<open>Packing cuts the bits of the secret into tens\<close>

function later :: "byte list \<Rightarrow> nat \<Rightarrow> nat \<Rightarrow> bool list" where
  "later s i n = (if n = 0 then [] else bits (min n 8) (byte_of s i) @ later s (i + 1) (n - min n 8))"
  by pat_completeness auto
termination by (relation "measure (\<lambda>(_, _, n). n)") auto

declare later.simps [simp del]

lemma later_0 [simp]: "later s i 0 = []"
  by (subst later.simps) simp

lemma length_later [simp]: "length (later s i n) = n"
proof (induction s i n rule: later.induct)
  case (1 s i n)
  then show ?case by (subst later.simps) simp
qed

definition ahead :: "byte list \<Rightarrow> packer \<Rightarrow> bool list" where
  "ahead s p = bits (secretBitsRem p) (secretVal p) @ later s (secretIdx p + 1) (seedRemBits p)"

lemma length_ahead [simp]: "length (ahead s p) = secretBitsRem p + seedRemBits p"
  by (simp add: ahead_def)

lemma ahead_refill [simp]: "ahead s (refill s p) = ahead s p"
proof (cases "secretBitsRem p = 0")
  case True
  then show ?thesis
    by (subst ahead_def, subst ahead_def)
      (simp add: refill_def Let_def later.simps [of s "Suc (secretIdx p)" "seedRemBits p"])
qed (simp add: refill_def)

lemma refill_total: "secretBitsRem (refill s p) + seedRemBits (refill s p) = secretBitsRem p + seedRemBits p"
  by (simp add: refill_def Let_def)

lemma refill_nonempty:
  "0 < secretBitsRem p + seedRemBits p \<Longrightarrow> 0 < secretBitsRem (refill s p)"
  by (auto simp: refill_def Let_def)

lemma fill_word_bits:
  assumes "k \<le> 10" "10 - k \<le> length (ahead s p)"
  shows "\<exists>w q. fill_word s k v p = Some (w, q) \<and> bits 10 w = bits k v @ take (10 - k) (ahead s p) \<and>
    ahead s q = drop (10 - k) (ahead s p)"
  using assms
proof (induction "10 - k" arbitrary: k v p rule: less_induct)
  case less
  show ?case
  proof (cases "k < 10")
    case False
    then show ?thesis using less.prems by (simp add: fill_word.simps SHARE_BITS_def)
  next
    case True
    define q where "q = refill s p"
    define c where "c = min (secretBitsRem q) (10 - k)"
    define r where "r = secretBitsRem q - c"
    let ?v = "push_bit c v OR (drop_bit r (secretVal q) AND (2 ^ c - 1))"
    let ?q = "q\<lparr>secretBitsRem := r\<rparr>"
    have "0 < secretBitsRem q" unfolding q_def using less.prems True by (intro refill_nonempty) auto
    then have c: "0 < c" "c \<le> 10 - k" "c \<le> secretBitsRem q" using True by (auto simp: c_def)
    have split: "bits (secretBitsRem q) (secretVal q) = bits c (drop_bit r (secretVal q)) @ bits r (secretVal q)"
      using c(3) by (simp add: bits_drop_append r_def)
    have q: "ahead s p = bits c (drop_bit r (secretVal q)) @ ahead s ?q"
      unfolding ahead_refill [of s p, symmetric] q_def [symmetric] by (simp add: ahead_def split)
    have len: "length (ahead s p) = c + length (ahead s ?q)" unfolding q by simp
    have "\<exists>w q'. fill_word s (k + c) ?v ?q = Some (w, q') \<and>
        bits 10 w = bits (k + c) ?v @ take (10 - (k + c)) (ahead s ?q) \<and>
        ahead s q' = drop (10 - (k + c)) (ahead s ?q)"
      using True c less.prems len by (intro less.hyps) simp_all
    then obtain w q' where w: "fill_word s (k + c) ?v ?q = Some (w, q')"
        "bits 10 w = bits (k + c) ?v @ take (10 - (k + c)) (ahead s ?q)"
        "ahead s q' = drop (10 - (k + c)) (ahead s ?q)" by blast
    have "fill_word s k v p = Some (w, q')"
      using w(1) True by (subst fill_word.simps) (simp add: SHARE_BITS_def Let_def q_def [symmetric] c_def [symmetric] r_def [symmetric])
    moreover have "bits 10 w = bits k v @ take (10 - k) (ahead s p)"
      unfolding w(2) bits_shift_or q using c by (simp add: add.commute)
    moreover have "ahead s q' = drop (10 - k) (ahead s p)" unfolding w(3) q using c by (simp add: add.commute)
    ultimately show ?thesis by blast
  qed
qed

lemma bit_double_Suc: "bit (w * 2 :: nat) (Suc i) = bit w i" by (simp add: bit_Suc)

lemma bit_parity_Suc: "\<not> bit (x mod 2 :: nat) (Suc i)" by (simp add: bit_Suc)

lemma word_parts:
  fixes w x :: nat
  defines "c \<equiv> (push_bit 1 w OR (x AND 1)) AND 0x7ff"
  shows "bits 10 (drop_bit 1 c) = bits 10 w" "odd c \<longleftrightarrow> odd x" "c < 2048"
proof -
  have c: "c = take_bit 11 (push_bit 1 w OR (x AND 1))"
    unfolding c_def using and_mask_nat [of "push_bit 1 w OR (x AND 1)" 11] by simp
  have "c < 2 ^ 11" unfolding c by (rule take_bit_nat_less_exp)
  then show "c < 2048" by simp
  have x1: "x AND 1 = take_bit 1 x" using and_mask_nat [of x 1] by simp
  show "bits 10 (drop_bit 1 c) = bits 10 w"
    unfolding c x1
    by (rule bits_cong) (auto simp: bit_drop_bit_eq bit_take_bit_iff bit_or_iff bit_push_bit_iff bit_double_Suc bit_parity_Suc)
  have "bit c 0 \<longleftrightarrow> bit x 0"
    unfolding c x1 by (simp only: bit_take_bit_iff bit_or_iff bit_push_bit_iff) simp
  then show "odd c \<longleftrightarrow> odd x" by (simp add: bit_0)
qed

lemma pack_words_bits:
  assumes "n \<le> eb" "10 * n \<le> length (ahead s p)"
  shows "\<exists>ws q. pack_words s ev eb n p = Some (ws, eb - n, q) \<and> length ws = n \<and> small ws \<and>
    concat (map (\<lambda>w. bits 10 (drop_bit 1 w)) ws) = take (10 * n) (ahead s p) \<and>
    map odd ws = take n (bits eb ev) \<and> ahead s q = drop (10 * n) (ahead s p)"
  using assms
proof (induction n arbitrary: eb p)
  case (Suc n)
  obtain v q where v: "fill_word s 0 0 p = Some (v, q)" "bits 10 v = take 10 (ahead s p)"
      "ahead s q = drop 10 (ahead s p)"
    using fill_word_bits [of 0 s p 0] Suc.prems by auto
  define c where "c = (push_bit 1 v OR (drop_bit (eb - 1) ev AND 1)) AND 0x7ff"
  note c = word_parts [of v "drop_bit (eb - 1) ev", folded c_def]
  have "\<exists>ws r. pack_words s ev (eb - 1) n q = Some (ws, eb - 1 - n, r) \<and> length ws = n \<and> small ws \<and>
      concat (map (\<lambda>w. bits 10 (drop_bit 1 w)) ws) = take (10 * n) (ahead s q) \<and>
      map odd ws = take n (bits (eb - 1) ev) \<and> ahead s r = drop (10 * n) (ahead s q)"
    using Suc.prems v(3) by (intro Suc.IH) (simp_all del: length_ahead)
  then obtain ws r where ws: "pack_words s ev (eb - 1) n q = Some (ws, eb - 1 - n, r)" "length ws = n" "small ws"
      "concat (map (\<lambda>w. bits 10 (drop_bit 1 w)) ws) = take (10 * n) (ahead s q)"
      "map odd ws = take n (bits (eb - 1) ev)" "ahead s r = drop (10 * n) (ahead s q)" by blast
  have p1: "pack_words s ev eb (Suc n) p = Some (c # ws, eb - Suc n, r)"
    using v(1) ws(1) by (simp add: c_def)
  have p2: "concat (map (\<lambda>w. bits 10 (drop_bit 1 w)) (c # ws)) = take (10 * Suc n) (ahead s p)"
    using c(1) v ws(4) by (simp add: take_add del: One_nat_def)
  have p3: "map odd (c # ws) = take (Suc n) (bits eb ev)"
  proof -
    obtain e where e: "eb = Suc e" using Suc.prems by (cases eb) auto
    have "odd (drop_bit e ev) = bit ev e" by (simp add: bit_iff_odd_drop_bit)
    then show ?thesis using c(2) ws(5) by (simp add: e bits_Suc)
  qed
  have p4: "ahead s r = drop (10 * Suc n) (ahead s p)" unfolding ws(6) v(3) by (simp add: add.commute)
  show ?case
    by (intro exI [of _ "c # ws"] exI [of _ r] conjI p1 p2 p3 p4) (use ws(2,3) c(3) in simp_all)
qed simp

subsection \<open>Unpacking joins them again\<close>

definition joined :: "unpacker \<Rightarrow> bool list" where
  "joined u = concat (map (bits 8) (take (u_idx u) (u_secret u))) @ bits (u_filled u) (u_secret u ! u_idx u)"

definition filling :: "unpacker \<Rightarrow> bool" where
  "filling u \<longleftrightarrow> length (u_secret u) = 32 \<and> u_filled u \<le> 8 \<and> u_idx u < 32 \<and> u_written u = 8 * u_idx u \<and>
     (\<forall>j. u_idx u < j \<longrightarrow> j < 32 \<longrightarrow> u_secret u ! j = 0) \<and>
     (\<forall>i. bit (u_secret u ! u_idx u) i \<longrightarrow> i < u_filled u)"

lemma length_joined: "filling u \<Longrightarrow> length (joined u) = 8 * u_idx u + u_filled u"
  by (simp add: filling_def joined_def length_concat o_def sum_list_triv)

lemma next_byte_filling:
  assumes "filling u" "8 * u_idx u + u_filled u < 256"
  shows "filling (next_byte u)" "joined (next_byte u) = joined u" "u_filled (next_byte u) < 8"
  using assms by (auto simp: filling_def next_byte_def joined_def take_Suc_conv_app_nth)

lemma bits_push_word:
  fixes b :: byte
  assumes "f + c \<le> 8"
  shows "bits (f + c) (push_bit c b OR of_nat (x AND (2 ^ c - 1))) = bits f b @ bits c x"
  unfolding and_mask_nat
  using assms by (intro bits_append) (auto simp: bit_or_iff bit_push_bit_iff bit_take_bit_iff bit_of_nat_iff)

lemma unpack_word_joined:
  assumes "filling u" "8 * u_idx u + u_filled u + k \<le> 256"
  shows "\<exists>u'. unpack_word v k u = Some u' \<and> filling u' \<and> joined u' = joined u @ bits k v \<and> (0 < k \<longrightarrow> 0 < u_filled u')"
  using assms
proof (induction k arbitrary: u rule: less_induct)
  case (less k)
  show ?case
  proof (cases "k = 0")
    case True
    then show ?thesis using less.prems by (simp add: unpack_word.simps)
  next
    case False
    define w where "w = next_byte u"
    have w: "filling w" "joined w = joined u" "u_filled w < 8"
      using next_byte_filling [of u] less.prems False by (simp_all add: w_def)
    define c where "c = min k (8 - u_filled w)"
    define b where "b = u_secret w ! u_idx w"
    define b' where "b' = push_bit c b OR of_nat (drop_bit (k - c) v AND (2 ^ c - 1))"
    have b': "b' = push_bit c b OR of_nat (take_bit c (drop_bit (k - c) v))"
      unfolding b'_def and_mask_nat ..
    define w' where "w' = w\<lparr>u_secret := (u_secret w)[u_idx w := b'], u_filled := u_filled w + c\<rparr>"
    have c: "0 < c" "c \<le> k" "u_filled w + c \<le> 8" using False w(3) by (auto simp: c_def)
    have "b = 0" if "\<not> c < 8"
    proof -
      have "u_filled w = 0" using that c(3) by simp
      then have "\<not> bit b i" for i using w(1) by (auto simp: filling_def b_def)
      then show ?thesis by (auto intro: bit_eqI)
    qed
    then have shifted: "(if c < 8 then push_bit c b else b) = push_bit c b" by auto
    have "bits (u_filled w + c) b' = bits (u_filled w) b @ bits c (drop_bit (k - c) v)"
      unfolding b'_def by (rule bits_push_word) (rule c(3))
    then have joined': "joined w' = joined u @ bits c (drop_bit (k - c) v)"
      using w(1) unfolding w(2) [symmetric] by (simp add: joined_def w'_def b_def filling_def)
    have fill': "filling w'"
      using w(1) c(3) b' by (auto simp: filling_def w'_def b_def bit_or_iff bit_push_bit_iff
          bit_take_bit_iff bit_of_nat_iff)
    have len: "8 * u_idx w' + u_filled w' = 8 * u_idx u + u_filled u + c"
      using length_joined [OF fill'] length_joined [OF less.prems(1)] joined' by simp
    have "\<exists>u'. unpack_word v (k - c) w' = Some u' \<and> filling u' \<and> joined u' = joined w' @ bits (k - c) v \<and>
        (0 < k - c \<longrightarrow> 0 < u_filled u')"
      using c fill' len less.prems(2) by (intro less.IH) auto
    then obtain u' where u': "unpack_word v (k - c) w' = Some u'" "filling u'" "joined u' = joined w' @ bits (k - c) v"
        "0 < k - c \<longrightarrow> 0 < u_filled u'" by (elim exE conjE) (rule that)
    have k: "0 < k" using False by simp
    have "unpack_word v k u = unpack_word v (k - c) w'"
      by (subst unpack_word.simps) (simp only: k if_True Let_def w_def [symmetric] c_def [symmetric]
          b_def [symmetric] shifted b'_def [symmetric] w'_def [symmetric])
    then have "unpack_word v k u = Some u'" using u'(1) by simp
    moreover have "joined u' = joined u @ bits k v"
      using bits_drop_append [of c "k - c" v] c(2) by (simp add: u'(3) joined')
    moreover have "0 < u_filled u'"
    proof (cases "k = c")
      case True
      then have "u' = w'" using u'(1) by (simp add: unpack_word.simps)
      then show ?thesis using c(1) by (simp add: w'_def)
    qed (use u'(4) c(2) in simp)
    ultimately show ?thesis using u'(2) by blast
  qed
qed

lemma unpack_words_joined:
  assumes "filling u" "8 * u_idx u + u_filled u + 10 * length ws \<le> 256"
  shows "\<exists>u'. unpack_words ws ev eb u = Some (foldl (\<lambda>e w. push_bit 1 e OR (w AND 1)) ev ws, eb + length ws, u') \<and>
    filling u' \<and> joined u' = joined u @ concat (map (\<lambda>w. bits 10 (drop_bit 1 w)) ws) \<and>
    (ws \<noteq> [] \<longrightarrow> 0 < u_filled u')"
  using assms
proof (induction ws arbitrary: u ev eb)
  case (Cons w ws)
  obtain x where x: "unpack_word (drop_bit 1 w) 10 u = Some x" "filling x" "joined x = joined u @ bits 10 (drop_bit 1 w)"
      "0 < u_filled x"
    using unpack_word_joined [of u 10 "drop_bit 1 w"] Cons.prems by auto
  have len: "8 * u_idx x + u_filled x = 8 * u_idx u + u_filled u + 10"
    using length_joined [OF x(2)] length_joined [OF Cons.prems(1)] x(3) by simp
  obtain u' where u': "unpack_words ws (push_bit 1 ev OR (w AND 1)) (eb + 1) x =
        Some (foldl (\<lambda>e w. push_bit 1 e OR (w AND 1)) (push_bit 1 ev OR (w AND 1)) ws, eb + 1 + length ws, u')"
      "filling u'" "joined u' = joined x @ concat (map (\<lambda>w. bits 10 (drop_bit 1 w)) ws)" "ws \<noteq> [] \<longrightarrow> 0 < u_filled u'"
    using Cons.IH [of x "push_bit 1 ev OR (w AND 1)" "eb + 1"] x(2) len Cons.prems(2) by auto
  have "0 < u_filled u'" using u'(1,4) x(4) by (cases ws) auto
  then show ?case using x u' by (simp add: GF_BITS_def)
qed auto

subsection \<open>Data and numbers\<close>

definition polyseed_valid :: "PolyseedData \<Rightarrow> bool" where
  "polyseed_valid d \<longleftrightarrow>
     length (secret d) = 32 \<and> list_all (\<lambda>b. b = 0) (drop 19 (secret d)) \<and> secret d ! 18 < 64 \<and>
     birthday d < 1024 \<and> features d < 32"

lemma valid_zero:
  assumes "polyseed_valid d" "19 \<le> j" "j < 32" shows "secret d ! j = 0"
proof -
  have "\<forall>n < 13. secret d ! (19 + n) = 0"
    using assms by (simp add: polyseed_valid_def list_all_length)
  from this [rule_format, of "j - 19"] show ?thesis using assms(2,3) by simp
qed

lemma small_byte_bits: "(b :: byte) < 64 \<Longrightarrow> bit b i \<Longrightarrow> i < 6"
proof -
  assume "b < 64" "bit b i"
  then have "unat b < 64" by (simp add: word_less_nat_alt)
  then have "take_bit 6 (unat b) = unat b" by (simp add: take_bit_nat_eq_self)
  moreover have "bit (unat b) i" using \<open>bit b i\<close> by (simp add: bit_unsigned_iff)
  ultimately show "i < 6" by (metis bit_take_bit_iff)
qed

lemma bits_unat [simp]: "bits n (unat (b :: byte)) = bits n b"
  by (rule bits_cong) (simp add: bit_unsigned_iff)

lemma bits_byte_eq: "bits 8 (a :: byte) = bits 8 b \<Longrightarrow> a = b"
  by (rule bit_word_eqI) (auto dest: bits_eqD)

definition secret_bits :: "byte list \<Rightarrow> bool list" where
  "secret_bits s = concat (map (bits 8) (take 18 s)) @ bits 6 (s ! 18)"

lemma later_bytes:
  "i + n < length s \<Longrightarrow>
   later s i (8 * n + 6) = concat (map (bits 8) (take n (drop i s))) @ bits 6 (s ! (i + n))"
proof (induction n arbitrary: i)
  case 0
  then show ?case by (subst later.simps) (simp add: byte_of_def)
next
  case (Suc n)
  then have "take (Suc n) (drop i s) = s ! i # take n (drop (Suc i) s)"
    by (simp add: Cons_nth_drop_Suc [symmetric])
  then show ?case using Suc.IH [of "Suc i"] Suc.prems
    by (subst later.simps) (simp add: byte_of_def add.commute)
qed

lemma start_ahead:
  assumes "length s = 32"
  shows "ahead s \<lparr>secretIdx = 0, secretVal = byte_of s 0, secretBitsRem = 8, seedRemBits = 142\<rparr> = secret_bits s"
proof -
  have "later s 1 (8 * 17 + 6) = concat (map (bits 8) (take 17 (drop 1 s))) @ bits 6 (s ! (1 + 17))"
    using assms by (intro later_bytes) simp
  moreover have "take 18 s = s ! 0 # take 17 (drop 1 s)"
    using assms by (cases s) simp_all
  ultimately show ?thesis using assms by (simp add: ahead_def secret_bits_def byte_of_def)
qed

lemma length_secret_bits: "length s = 32 \<Longrightarrow> length (secret_bits s) = 150"
  by (simp add: secret_bits_def length_concat o_def sum_list_triv)

lemma data_to_poly:
  assumes "polyseed_valid d"
  obtains ws where "polyseedDataToPoly d (replicate 16 0) = Some (Inr (0 # ws))" "length ws = 15" "small ws"
    "concat (map (\<lambda>w. bits 10 (drop_bit 1 w)) ws) = secret_bits (secret d)"
    "map odd ws = bits 15 (push_bit 10 (features d) OR birthday d)"
proof -
  let ?p = "\<lparr>secretIdx = 0, secretVal = byte_of (secret d) 0, secretBitsRem = 8, seedRemBits = 142\<rparr>"
  let ?ev = "push_bit 10 (features d) OR birthday d"
  have l: "length (secret d) = 32" using assms by (simp add: polyseed_valid_def)
  note a = start_ahead [OF l]
  have "length (ahead (secret d) ?p) = 150" unfolding a using l by (rule length_secret_bits)
  then obtain ws q where ws: "pack_words (secret d) ?ev 15 15 ?p = Some (ws, 15 - 15, q)" "length ws = 15" "small ws"
      "concat (map (\<lambda>w. bits 10 (drop_bit 1 w)) ws) = take (10 * 15) (ahead (secret d) ?p)"
      "map odd ws = take 15 (bits 15 ?ev)" "ahead (secret d) q = drop (10 * 15) (ahead (secret d) ?p)"
    using pack_words_bits [of 15 15 "secret d" ?p ?ev] by auto
  have "ahead (secret d) q = []" using ws(6) \<open>length _ = 150\<close> by simp
  then have "secretBitsRem q = 0 \<and> seedRemBits q = 0" by (metis add_is_0 length_ahead list.size(3))
  then have "polyseedDataToPoly d (replicate 16 0) = Some (Inr (0 # ws))"
    using ws(1) by (simp add: polyseedDataToPoly_def poly_consts Let_def)
  then show ?thesis
    using that [of ws] ws(2-5) a length_secret_bits [OF l] by simp
qed

lemma foldl_parities:
  "bits (n + length ws) (foldl (\<lambda>e w. push_bit 1 e OR (w AND 1)) e ws) = bits n e @ map odd (ws :: nat list)"
proof (induction ws arbitrary: e n)
  case (Cons w ws)
  have "bits (n + 1) (push_bit 1 e OR (w AND (2 ^ 1 - 1))) = bits n e @ bits 1 w" by (rule bits_shift_or)
  then have "bits (Suc n) (push_bit 1 e OR (w AND 1)) = bits n e @ [odd w]" by (simp add: bits_Suc bit_0)
  then show ?case using Cons [of "Suc n" "push_bit 1 e OR (w AND 1)"] by simp
qed simp

lemma take_bit_bits: "bits n v = bits n w \<Longrightarrow> take_bit n v = take_bit n (w :: nat)"
  by (rule bit_eqI) (auto simp: bit_take_bit_iff dest: bits_eqD)

lemma concat_bits_eq:
  "length xs = length ys \<Longrightarrow> concat (map (bits 8) xs) = concat (map (bits 8) ys) \<Longrightarrow> xs = (ys :: byte list)"
proof (induction xs ys rule: list_induct2)
  case (Cons x xs y ys)
  then show ?case using bits_byte_eq [of x y] by simp
qed simp

lemma poly_to_data:
  assumes "polyseed_valid d" "length ws = 15"
    and "concat (map (\<lambda>w. bits 10 (drop_bit 1 w)) ws) = secret_bits (secret d)"
    and "map odd ws = bits 15 (push_bit 10 (features d) OR birthday d)"
  shows "polyseedPolyToData (c # ws) = Some (Inr (d\<lparr>checksum := c\<rparr>))"
proof -
  let ?u = "\<lparr>u_secret = replicate 32 0, u_idx = 0, u_filled = 0, u_written = 0\<rparr>"
  let ?ev = "foldl (\<lambda>e w. push_bit 1 e OR (w AND 1)) 0 ws"
  have l: "length (secret d) = 32" using assms(1) by (simp add: polyseed_valid_def)
  have u0: "filling ?u" "joined ?u = []" by (simp_all add: filling_def joined_def)
  obtain u where "unpack_words ws 0 0 ?u = Some (?ev, 0 + length ws, u) \<and> filling u \<and>
      joined u = joined ?u @ concat (map (\<lambda>w. bits 10 (drop_bit 1 w)) ws) \<and> (ws \<noteq> [] \<longrightarrow> 0 < u_filled u)"
    using unpack_words_joined [of ?u ws 0 0] u0 assms(2) by auto
  then have u: "unpack_words ws 0 0 ?u = Some (?ev, 15, u)" "filling u" "joined u = secret_bits (secret d)" "0 < u_filled u"
    using assms(2,3) u0(2) by auto
  have "8 * u_idx u + u_filled u = 150"
    using length_joined [OF u(2)] u(3) length_secret_bits [OF l] by simp
  moreover have "u_filled u \<le> 8" using u(2) by (simp add: filling_def)
  ultimately have at: "u_idx u = 18" "u_filled u = 6" using u(4) by presburger+
  have lu: "length (u_secret u) = 32" using u(2) by (simp add: filling_def)
  have parts: "concat (map (bits 8) (take 18 (u_secret u))) = concat (map (bits 8) (take 18 (secret d)))"
      "bits 6 (u_secret u ! 18) = bits 6 (secret d ! 18)"
    using u(3) l lu by (simp_all add: joined_def secret_bits_def at append_eq_append_conv)
  have first: "take 18 (u_secret u) = take 18 (secret d)"
    using parts(1) l lu by (intro concat_bits_eq) simp_all
  have "u_secret u ! 18 = secret d ! 18"
  proof (rule bit_word_eqI)
    fix i
    have "i < 6" if "bit (u_secret u ! 18) i" using u(2) that at by (auto simp: filling_def)
    moreover have "i < 6" if "bit (secret d ! 18) i"
      using assms(1) that small_byte_bits by (auto simp: polyseed_valid_def)
    ultimately show "bit (u_secret u ! 18) i = bit (secret d ! 18) i" using bits_eqD [OF parts(2), of i] by blast
  qed
  then have "u_secret u ! j = secret d ! j" if "j < 32" for j
  proof -
    consider "j < 18" | "j = 18" | "18 < j" by linarith
    then show ?thesis
    proof cases
      case 1
      then show ?thesis using arg_cong [OF first, of "\<lambda>s. s ! j"] by simp
    next
      case 3
      then have "u_secret u ! j = 0" using u(2) at that by (simp add: filling_def)
      then show ?thesis using valid_zero [OF assms(1), of j] 3 that by simp
    qed (use \<open>u_secret u ! 18 = secret d ! 18\<close> in simp)
  qed
  then have secret: "u_secret u = secret d" using l lu by (intro nth_equalityI) simp_all
  let ?e = "push_bit 10 (features d) OR birthday d"
  have "bits 15 ?ev = bits 15 ?e" using foldl_parities [of 0 ws 0] assms(2,4) by simp
  then have ev: "take_bit 15 ?ev = take_bit 15 ?e" by (rule take_bit_bits)
  have b: "birthday d < 1024" and f: "features d < 32" using assms(1) by (simp_all add: polyseed_valid_def)
  have tb: "take_bit 10 (birthday d) = birthday d" "drop_bit 10 (birthday d) = 0" "take_bit 5 (features d) = features d"
    using b f by (simp_all add: take_bit_nat_eq_self drop_bit_eq_div)
  have dp: "drop_bit 10 (push_bit 10 (features d)) = features d"
    by (simp add: drop_bit_eq_div push_bit_eq_mult)
  have "?ev AND DATE_MASK = take_bit 10 (take_bit 15 ?ev)"
    using and_mask_nat [of ?ev 10] by (simp add: DATE_MASK_def)
  also have "\<dots> = birthday d" unfolding ev using tb by (simp add: take_bit_or take_bit_push_bit)
  finally have birthday: "?ev AND DATE_MASK = birthday d" .
  have "drop_bit 10 ?ev AND FEATURE_MASK = drop_bit 10 (take_bit 15 ?ev)"
    using and_mask_nat [of "drop_bit 10 ?ev" 5] by (simp add: FEATURE_MASK_def drop_bit_take_bit)
  also have "\<dots> = features d"
    unfolding ev using tb dp by (simp add: drop_bit_take_bit drop_bit_or)
  finally have features: "drop_bit 10 ?ev AND FEATURE_MASK = features d" .
  have w: "u_written u = 144" using u(2) at by (simp add: filling_def)
  have "polyseedPolyToData (c # ws) = Some (Inr \<lparr>birthday = ?ev AND DATE_MASK,
      features = drop_bit 10 ?ev AND FEATURE_MASK, secret = u_secret u, checksum = c\<rparr>)"
    unfolding polyseedPolyToData_def using u(1) w at(2)
    by (simp add: POLY_NUM_CHECK_DIGITS_def SECRET_BITS_def FEATURE_BITS_def DATE_BITS_def SECRET_BUFFER_SIZE_def)
  then show ?thesis unfolding birthday features secret by simp
qed

subsection \<open>Phrases\<close>

lemma word_index_distinct:
  assumes "distinct (map (take 4) ws)" "i < length ws"
  shows "WORD_INDEX ws (ws ! i) = Some i"
proof -
  have ne: "take 4 (ws ! i) \<noteq> take 4 (ws ! k)" if "i < k" "k < length ws" for i k
    using assms(1) that nth_eq_iff_index_eq [of "map (take 4) ws" i k] by simp
  have "fold (\<lambda>i m. m(ws ! i \<mapsto> i, take 4 (ws ! i) \<mapsto> i)) [0..<k] Map.empty (ws ! i) = Some i"
    if "k \<le> length ws" "i < k" for k i
    using that
  proof (induction k)
    case (Suc k)
    show ?case
    proof (cases "i = k")
      case False
      then have "i < k" using Suc.prems by simp
      then have d: "take 4 (ws ! i) \<noteq> take 4 (ws ! k)" using ne Suc.prems by simp
      then have "ws ! i \<noteq> ws ! k" by auto
      moreover have "ws ! i \<noteq> take 4 (ws ! k)"
      proof
        assume "ws ! i = take 4 (ws ! k)"
        then have "take 4 (ws ! i) = take 4 (ws ! k)" by simp
        with d show False by simp
      qed
      ultimately show ?thesis using Suc.IH Suc.prems \<open>i < k\<close> by simp
    qed (use Suc.prems in simp)
  qed simp
  then show ?thesis using assms(2) by (simp add: WORD_INDEX_def POLYSEED_ENGLISH_PREFIX_LEN_def)
qed

lemma word_number_word: "c < 2048 \<Longrightarrow> word_number (POLYSEED_ENGLISH_WORDS ! c) = Some c"
  using word_index_distinct [OF prefixes_distinct, of c] by (simp add: word_number_def words_length)

lemma word_numbers_words: "small cs \<Longrightarrow> word_numbers i (map ((!) POLYSEED_ENGLISH_WORDS) cs) = Inr cs"
  by (induction cs arbitrary: i) (simp_all add: word_number_word)

lemma word_small: "c < 2048 \<Longrightarrow> small_word (POLYSEED_ENGLISH_WORDS ! c)"
  using words_small by (simp add: list_all_length words_length)

lemma small_char_plain: "small_char c \<Longrightarrow> \<not> js_space c \<and> lower_char c = c \<and> c \<noteq> CHR '' ''"
  using small_char_code [of c] by (auto simp: js_space_def lower_char_def Let_def)

lemma squeeze_plain: "list_all (\<lambda>c. \<not> js_space c) w \<Longrightarrow> squeeze_spaces (w @ r) = w @ squeeze_spaces r"
  by (induction w) (simp_all add: squeeze_spaces.simps(2))

lemma small_word_plain: "small_word w \<Longrightarrow> w \<noteq> [] \<and> list_all (\<lambda>c. \<not> js_space c) w"
  by (auto simp: small_word_def list_all_iff small_char_plain)

lemma join_words_Cons: "ws \<noteq> [] \<Longrightarrow> join_words (w # ws) = w @ CHR '' '' # join_words ws"
  by (cases ws) simp_all

lemma join_words_not_space:
  "list_all small_word ws \<Longrightarrow> ws \<noteq> [] \<Longrightarrow>
   join_words ws \<noteq> [] \<and> \<not> js_space (hd (join_words ws)) \<and> \<not> js_space (last (join_words ws))"
proof (induction ws rule: join_words.induct)
  case (2 w)
  then show ?case using small_word_plain [of w] by (simp add: list_all_iff)
next
  case (3 w v vs)
  then show ?case using small_word_plain [of w] by (simp add: list_all_iff)
qed simp

lemma squeeze_join: "list_all small_word ws \<Longrightarrow> squeeze_spaces (join_words ws) = join_words ws"
proof (induction ws rule: join_words.induct)
  case (2 w)
  then show ?case using squeeze_plain [of w "[]"] small_word_plain [of w] by simp
next
  case (3 w v vs)
  let ?r = "join_words (v # vs)"
  have r: "dropWhile js_space ?r = ?r"
    using join_words_not_space [of "v # vs"] 3 by (cases ?r) auto
  have "squeeze_spaces (CHR '' '' # ?r) = CHR '' '' # squeeze_spaces ?r"
    unfolding squeeze_spaces.simps(2) r by (simp add: js_space_def)
  then show ?case using squeeze_plain [of w] small_word_plain [of w] 3 by simp
qed simp

lemma lower_join: "list_all small_word ws \<Longrightarrow> to_lower (join_words ws) = join_words ws"
proof (induction ws rule: join_words.induct)
  case (2 w)
  then show ?case by (auto simp: to_lower_def small_word_def list_all_iff small_char_plain intro: map_idI)
next
  case (3 w v vs)
  have "map lower_char w = w"
    using 3 by (auto simp: small_word_def list_all_iff small_char_plain intro: map_idI)
  then show ?case using 3 by (simp add: to_lower_def) (simp add: lower_char_def)
qed (simp add: to_lower_def)

lemma normalize_join:
  assumes "list_all small_word ws" "ws \<noteq> []"
  shows "normalizePolyseed (join_words ws) = join_words ws"
proof -
  have "js_trim (join_words ws) = join_words ws"
    using join_words_not_space [OF assms] by (intro js_trim_noop) auto
  then show ?thesis using assms(1) by (simp add: normalizePolyseed_def squeeze_join lower_join)
qed

lemma split_join: "list_all small_word ws \<Longrightarrow> ws \<noteq> [] \<Longrightarrow> split_on (CHR '' '') (join_words ws) = ws"
proof (induction ws rule: join_words.induct)
  case (2 w)
  then have "CHR '' '' \<notin> set w" using small_char_plain by (auto simp: small_word_def list_all_iff)
  then show ?case by (simp add: split_on_no_sep)
next
  case (3 w v vs)
  then have "CHR '' '' \<notin> set w" using small_char_plain by (auto simp: small_word_def list_all_iff)
  then show ?case using 3 by (simp add: split_on_append)
qed simp

definition phrase_of :: "nat list \<Rightarrow> string" where
  "phrase_of cs = join_words (map ((!) POLYSEED_ENGLISH_WORDS) cs)"

lemma decode_phrase:
  assumes "small cs" "length cs = 16"
  shows "polyseedDecode (phrase_of cs) coin = decode_numbers cs coin"
proof -
  let ?ws = "map ((!) POLYSEED_ENGLISH_WORDS) cs"
  have ws: "list_all small_word ?ws" "?ws \<noteq> []" using assms word_small by (auto simp: list_all_iff)
  have "filter (\<lambda>w. w \<noteq> []) ?ws = ?ws"
    using ws(1) by (intro filter_True) (auto simp: list_all_iff small_word_def)
  then show ?thesis
    using word_numbers_words [OF assms(1)] assms(2)
    by (simp add: polyseedDecode_def phrase_of_def normalize_join [OF ws] split_join [OF ws] POLYSEED_NUM_WORDS_def)
qed

subsection \<open>A phrase reads back as the seed it was written from\<close>

text \<open>The sixteen numbers of a seed, before the coin is mixed into the second.\<close>

lemma encode_numbers:
  assumes "polyseed_valid d" "coin < 2048"
  obtains e w ws where "polyseedEncode d coin = Some (Inr (phrase_of (e # (w XOR coin) # ws), d\<lparr>checksum := e\<rparr>))"
    "small (e # w # ws)" "length ws = 14" "horner (e # w # ws) = 0"
    "polyseedPolyToData (e # w # ws) = Some (Inr (d\<lparr>checksum := e\<rparr>))"
proof -
  obtain vs where vs: "polyseedDataToPoly d (replicate 16 0) = Some (Inr (0 # vs))" "length vs = 15" "small vs"
      "concat (map (\<lambda>w. bits 10 (drop_bit 1 w)) vs) = secret_bits (secret d)"
      "map odd vs = bits 15 (push_bit 10 (features d) OR birthday d)"
    using assms(1) by (rule data_to_poly)
  obtain w ws where w: "vs = w # ws" using vs(2) by (cases vs) auto
  let ?e = "horner (0 # vs)"
  have e: "gfPolyEncode (0 # vs) = ?e # vs"
    using vs(2) by (simp add: gfPolyEncode_def gfPolyEval_horner)
  have "polyseedEncode d coin = Some (Inr (phrase_of (?e # (w XOR coin) # ws), d\<lparr>checksum := ?e\<rparr>))"
    using vs(1) assms(2) e by (simp add: polyseedEncode_def poly_consts Let_def phrase_of_def w)
  moreover have "small (?e # w # ws)" using vs(3) horner_bound [of "0 # vs"] by (simp add: w)
  moreover have "horner (?e # w # ws) = 0" by (simp add: w)
  moreover have "polyseedPolyToData (?e # w # ws) = Some (Inr (d\<lparr>checksum := ?e\<rparr>))"
    using poly_to_data [OF assms(1) vs(2,4,5), of ?e] by (simp add: w)
  ultimately show ?thesis using that [of ?e w ws] vs(2) by (simp add: w)
qed

lemma decode_phrase_parts:
  assumes "small (e # w # ws)" "length ws = 14" "coin < 2048"
  shows "polyseedDecode (phrase_of (e # (w XOR coin) # ws)) coin =
    (if horner (e # w # ws) \<noteq> 0 then Some (Inl ChecksumFailed)
     else map_option (\<lambda>r. case r of Inl e \<Rightarrow> Inl e
            | Inr data \<Rightarrow> if polyseedFeaturesSupported (features data) then Inr data else Inl UnsupportedFeatures)
          (polyseedPolyToData (e # w # ws)))"
proof -
  have "w XOR coin < 2048" using assms by (simp add: xor_2048)
  then have d: "polyseedDecode (phrase_of (e # (w XOR coin) # ws)) coin = decode_numbers (e # (w XOR coin) # ws) coin"
    using assms by (intro decode_phrase) simp_all
  have "(e # (w XOR coin) # ws)[POLY_NUM_CHECK_DIGITS := (e # (w XOR coin) # ws) ! POLY_NUM_CHECK_DIGITS XOR coin] =
      e # ((w XOR coin) XOR coin) # ws"
    by (simp add: POLY_NUM_CHECK_DIGITS_def)
  also have "(w XOR coin) XOR coin = w" by (simp add: xor.assoc)
  finally have m: "(e # (w XOR coin) # ws)[POLY_NUM_CHECK_DIGITS :=
      (e # (w XOR coin) # ws) ! POLY_NUM_CHECK_DIGITS XOR coin] = e # w # ws" .
  have "gfPolyCheck (e # w # ws) \<longleftrightarrow> horner (e # w # ws) = 0"
    using assms(2) by (simp add: gfPolyCheck_def gfPolyEval_horner del: horner.simps)
  then show ?thesis unfolding d decode_numbers_def Let_def m by simp
qed

lemma encode_decode:
  assumes "polyseed_valid d" "coin < 2048"
  shows "\<exists>phrase c. polyseedEncode d coin = Some (Inr (phrase, d\<lparr>checksum := c\<rparr>)) \<and>
    polyseedDecode phrase coin =
      Some (if polyseedFeaturesSupported (features d) then Inr (d\<lparr>checksum := c\<rparr>) else Inl UnsupportedFeatures)"
proof -
  obtain e w ws where s: "polyseedEncode d coin = Some (Inr (phrase_of (e # (w XOR coin) # ws), d\<lparr>checksum := e\<rparr>))"
      "small (e # w # ws)" "length ws = 14" "horner (e # w # ws) = 0"
      "polyseedPolyToData (e # w # ws) = Some (Inr (d\<lparr>checksum := e\<rparr>))"
    using assms by (rule encode_numbers)
  have "polyseedDecode (phrase_of (e # (w XOR coin) # ws)) coin =
      Some (if polyseedFeaturesSupported (features d) then Inr (d\<lparr>checksum := e\<rparr>) else Inl UnsupportedFeatures)"
    using decode_phrase_parts [OF s(2,3) assms(2)] s(4,5) by simp
  then show ?thesis using s(1) by blast
qed

text \<open>C22. The sixteen words written for a seed decode, for any coin, to the same secret, birthday and
  features; both loops end.\<close>

theorem polyseed_roundtrip:
  assumes "polyseed_valid d" "polyseedFeaturesSupported (features d)" "coin < 2048"
  shows "\<exists>phrase c. polyseedEncode d coin = Some (Inr (phrase, d\<lparr>checksum := c\<rparr>)) \<and>
    polyseedDecode phrase coin = Some (Inr (d\<lparr>checksum := c\<rparr>))"
  using encode_decode [OF assms(1,3)] assms(2) by simp

definition demo_seed :: PolyseedData where
  "demo_seed = \<lparr>birthday = 57, features = 2, secret = replicate 18 0xa5 @ 0x2a # replicate 13 0, checksum = 0\<rparr>"

lemma demo_seed_valid: "polyseed_valid demo_seed"
  by (simp add: polyseed_valid_def demo_seed_def nth_append list_all_iff)

theorem polyseed_roundtrip_witness:
  "\<exists>phrase c. polyseedEncode demo_seed 1 = Some (Inr (phrase, demo_seed\<lparr>checksum := c\<rparr>)) \<and>
    polyseedDecode phrase 1 = Some (Inr (demo_seed\<lparr>checksum := c\<rparr>))"
proof (rule polyseed_roundtrip [OF demo_seed_valid])
  show "polyseedFeaturesSupported (features demo_seed)"
    by (simp add: demo_seed_def polyseedFeaturesSupported_def poly_consts)
qed simp

subsection \<open>Slips of the pen\<close>

lemma xor_swapped: "a XOR (a XOR b) = b" "a XOR (b XOR (a XOR c)) = b XOR (c :: nat)"
  by (rule bit_eqI; auto simp: bit_xor_iff)+

text \<open>The numbers of a phrase with the coin taken out again.\<close>

definition unmix :: "nat \<Rightarrow> nat list \<Rightarrow> nat list" where
  "unmix coin xs = xs[1 := xs ! 1 XOR coin]"

lemma length_unmix [simp]: "length (unmix coin xs) = length xs" by (simp add: unmix_def)

lemma small_unmix: "small xs \<Longrightarrow> coin < 2048 \<Longrightarrow> length xs = 16 \<Longrightarrow> small (unmix coin xs)"
  by (auto simp: unmix_def list_all_length nth_list_update xor_2048)

lemma unmix_zero_iff:
  assumes "small xs" "length xs = 16"
  shows "horner (unmix coin xs) \<noteq> 0 \<Longrightarrow> polyseedDecode (phrase_of xs) coin = Some (Inl ChecksumFailed)"
    and "polyseedDecode (phrase_of xs) coin = Some (Inr d) \<Longrightarrow> horner (unmix coin xs) = 0"
  using assms by (auto simp: decode_phrase decode_numbers_def gfPolyCheck_def gfPolyEval_horner unmix_def
      POLY_NUM_CHECK_DIGITS_def Let_def split: if_splits)

lemma horner_update:
  assumes "small xs" "horner xs = 0" "i < length xs" "u < 2048" "u \<noteq> xs ! i"
  shows "horner (xs[i := u]) \<noteq> 0"
proof -
  have "horner (take i xs @ xs ! i # drop (Suc i) xs) \<noteq> horner (take i xs @ u # drop (Suc i) xs)"
    using assms by (intro horner_one_change) (auto simp: list_all_length)
  then show ?thesis using assms(2,3) by (simp add: upd_conv_take_nth_drop id_take_nth_drop [symmetric])
qed

lemma horner_update_two:
  assumes "small xs" "horner xs = 0" "Suc i < length xs" "k < 2048" "k \<noteq> 0"
  shows "horner (xs[i := xs ! i XOR k, Suc i := xs ! Suc i XOR k]) \<noteq> 0"
proof -
  let ?p = "take i xs" and ?a = "xs ! i" and ?b = "xs ! Suc i" and ?r = "drop (Suc (Suc i)) xs"
  have s: "xs = ?p @ ?a # ?b # ?r" using assms(3) by (simp add: Cons_nth_drop_Suc)
  have "horner (?p @ ?a # ?b # ?r) \<noteq> horner (?p @ (?a XOR k) # (?b XOR k) # ?r)"
    using assms by (intro horner_pair_change) (auto simp: list_all_length)
  moreover have "xs[i := ?a XOR k, Suc i := ?b XOR k] = ?p @ (?a XOR k) # (?b XOR k) # ?r"
    using assms(3) by (subst (1) s) (simp add: list_update_append)
  ultimately show ?thesis using assms(2) s by simp
qed

text \<open>One wrong word, or two different neighbours in the wrong order, never pass for a seed: a phrase
  that decodes is refused after either slip, with the checksum as the reason.\<close>

theorem one_slip_is_refused:
  assumes "polyseedDecode (phrase_of cs) coin = Some (Inr d)" "small cs" "length cs = 16" "coin < 2048"
  shows "(i < 16 \<and> v < 2048 \<and> v \<noteq> cs ! i \<longrightarrow> polyseedDecode (phrase_of (cs[i := v])) coin = Some (Inl ChecksumFailed)) \<and>
    (i < 15 \<and> cs ! i \<noteq> cs ! (i + 1) \<longrightarrow>
     polyseedDecode (phrase_of (cs[i := cs ! (i + 1), i + 1 := cs ! i])) coin = Some (Inl ChecksumFailed))"
proof -
  note passed = unmix_zero_iff(2) [OF assms(2,3,1)]
  have mixed: "small (unmix coin cs)" using assms(2-4) by (intro small_unmix)
  have first: "polyseedDecode (phrase_of (cs[i := v])) coin = Some (Inl ChecksumFailed)"
    if "i < 16" "v < 2048" "v \<noteq> cs ! i"
  proof (rule unmix_zero_iff(1))
    have "unmix coin (cs[i := v]) = (unmix coin cs)[i := if i = 1 then v XOR coin else v]"
      using assms(3) by (auto simp: unmix_def list_update_swap)
    then show "horner (unmix coin (cs[i := v])) \<noteq> 0"
      using horner_update [OF mixed passed, of i "if i = 1 then v XOR coin else v"] that assms(3,4)
      by (auto simp: xor_2048 unmix_def xor_cancel)
  qed (use that assms(2,3) in \<open>auto simp: list_all_length nth_list_update\<close>)
  have second: "polyseedDecode (phrase_of (cs[i := cs ! (i + 1), i + 1 := cs ! i])) coin = Some (Inl ChecksumFailed)"
    if "i < 15" "cs ! i \<noteq> cs ! (i + 1)"
  proof (rule unmix_zero_iff(1))
    let ?k = "cs ! i XOR cs ! (i + 1)"
    have "unmix coin (cs[i := cs ! (i + 1), i + 1 := cs ! i]) =
        (unmix coin cs)[i := unmix coin cs ! i XOR ?k, Suc i := unmix coin cs ! Suc i XOR ?k]"
      using assms(3) that(1)
      by (intro nth_equalityI) (auto simp: unmix_def nth_list_update xor_swapped ac_simps)
    moreover have "?k < 2048" "?k \<noteq> 0" using that assms(2,3) by (auto simp: list_all_length xor_2048 xor_eq_0)
    ultimately show "horner (unmix coin (cs[i := cs ! (i + 1), i + 1 := cs ! i])) \<noteq> 0"
      using horner_update_two [OF mixed passed, of i ?k] that(1) assms(3) by simp
  qed (use that assms(2,3) in \<open>auto simp: list_all_length nth_list_update\<close>)
  show ?thesis using first second by blast
qed

definition demo_numbers :: "nat list" where
  "demo_numbers = [0, 0, 0, 0, 0, 0, 0, 0, 0, 0, 0, 0, 0, 0, 0, 0]"

text \<open>The sixteen times repeated first word decodes: it is the empty seed of the first month.\<close>

lemma demo_numbers_decode: "polyseedDecode (phrase_of demo_numbers) 0 = Some (Inr
    \<lparr>birthday = 0, features = 0, secret = replicate 32 0, checksum = 0\<rparr>)"
proof -
  let ?z = "\<lparr>birthday = 0, features = 0, secret = replicate 32 0, checksum = 0\<rparr> :: PolyseedData"
  have n: "demo_numbers = 0 # (0 XOR 0) # replicate 14 0"
    by (simp add: demo_numbers_def numeral_eq_Suc)
  have h: "horner (replicate k 0) = 0" for k by (induction k) simp_all
  have v: "polyseed_valid ?z" by (simp add: polyseed_valid_def list_all_iff)
  obtain vs where vs: "polyseedDataToPoly ?z (replicate 16 0) = Some (Inr (0 # vs))" "length vs = 15" "small vs"
      "concat (map (\<lambda>w. bits 10 (drop_bit 1 w)) vs) = secret_bits (secret ?z)"
      "map odd vs = bits 15 (push_bit 10 (features ?z) OR birthday ?z)"
    using v by (rule data_to_poly)
  have zero: "concat (map (\<lambda>w. bits 10 (drop_bit 1 w)) (replicate 15 (0 :: nat))) = secret_bits (secret ?z)"
    by (simp add: secret_bits_def bits_def numeral_eq_Suc)
  have par: "map odd (replicate 15 (0 :: nat)) = bits 15 (push_bit 10 (features ?z) OR birthday ?z)"
    by (simp add: bits_def numeral_eq_Suc)
  have "polyseedPolyToData (0 # replicate 15 0) = Some (Inr (?z\<lparr>checksum := 0\<rparr>))"
    using poly_to_data [OF v, of "replicate 15 0" 0] zero par by simp
  moreover have "(0 :: nat) # 0 # replicate 14 0 = 0 # replicate 15 0" "(0 :: nat) # 0 # replicate 14 0 = replicate 16 0"
    by (simp_all add: numeral_eq_Suc)
  ultimately show ?thesis
    unfolding n using decode_phrase_parts [of 0 0 "replicate 14 0" 0] h [of 16]
    by (simp add: polyseedFeaturesSupported_def list_all_iff del: horner.simps)
qed

theorem one_slip_is_refused_witness:
  "polyseedDecode (phrase_of (demo_numbers[3 := 7])) 0 = Some (Inl ChecksumFailed)"
  using one_slip_is_refused [OF demo_numbers_decode, of 3 7] by (simp add: demo_numbers_def)

subsection \<open>Encrypted seeds\<close>

text \<open>A seed whose encryption bit is set is accepted when it is imported: validation passes, and the
  spend key is derived from the encrypted secret as if it were the plain one.\<close>

theorem encrypted_seed_accepted:
  assumes "polyseed_valid d" "polyseedIsEncrypted d" "features d AND 8 = 0"
  shows "\<exists>phrase c. polyseedEncode d POLYSEED_COIN_MONERO = Some (Inr (phrase, d\<lparr>checksum := c\<rparr>)) \<and>
    validatePolyseed phrase = Some (Inr ()) \<and>
    polyseedToMoneroSpendKey pbkdf2 phrase = Some (Inr (d\<lparr>checksum := c\<rparr>,
      pbkdf2 (keygen_password (secret d)) (keygen_salt d POLYSEED_COIN_MONERO) KDF_NUM_ITERATIONS 32))"
proof -
  have "polyseedFeaturesSupported (features d)"
    using assms(3) by (simp add: polyseedFeaturesSupported_def poly_consts)
  then show ?thesis
    using encode_decode [OF assms(1), of POLYSEED_COIN_MONERO]
    by (auto simp: POLYSEED_COIN_MONERO_def GF_SIZE_def validatePolyseed_def polyseedToMoneroSpendKey_def
        polyseedKeygen_def keygen_salt_def)
qed

definition demo_encrypted :: PolyseedData where "demo_encrypted = demo_seed\<lparr>features := 16\<rparr>"

theorem encrypted_seed_accepted_witness:
  "\<exists>phrase. validatePolyseed phrase = Some (Inr ()) \<and>
    (\<exists>d. polyseedToMoneroSpendKey (\<lambda>p s n k. take k p) phrase = Some (Inr (d, secret demo_seed)) \<and> polyseedIsEncrypted d)"
proof -
  have v: "polyseed_valid demo_encrypted"
    using demo_seed_valid by (simp add: demo_encrypted_def polyseed_valid_def)
  have e: "polyseedIsEncrypted demo_encrypted"
    by (simp add: demo_encrypted_def polyseedIsEncrypted_def poly_consts)
  have s: "secret demo_encrypted = secret demo_seed" "length (secret demo_seed) = 32"
    by (simp_all add: demo_encrypted_def demo_seed_def)
  obtain phrase c where p: "validatePolyseed phrase = Some (Inr ())"
    "polyseedToMoneroSpendKey (\<lambda>p s n k. take k p) phrase = Some (Inr (demo_encrypted\<lparr>checksum := c\<rparr>,
      take 32 (keygen_password (secret demo_encrypted))))"
    using encrypted_seed_accepted [OF v e, of "\<lambda>p s n k. take k p"] by (auto simp: demo_encrypted_def)
  have "take 32 (keygen_password (secret demo_encrypted)) = secret demo_seed"
    using s by (simp add: keygen_password_def poly_consts)
  moreover have "polyseedIsEncrypted (demo_encrypted\<lparr>checksum := c\<rparr>)" using e by (simp add: polyseedIsEncrypted_def)
  ultimately show ?thesis using p by auto
qed

subsection \<open>New seeds\<close>

lemma fold_or_zero: "fold (\<lambda>i d. d OR f i) is d = (0 :: byte) \<longleftrightarrow> d = 0 \<and> (\<forall>i \<in> set is. f i = 0)"
  by (induction "is" arbitrary: d) (auto simp: or_eq_0_iff)

lemma bytesEqual_same: "bytesEqual a a"
  by (simp add: bytesEqual_def fold_or_zero del: bit.xor_self xor_self_eq) simp

text \<open>The comparison that never stops early is equality.\<close>

theorem bytesEqual_is_equality: "bytesEqual a b \<longleftrightarrow> a = b"
proof -
  have x: "u XOR v = 0 \<longleftrightarrow> u = (v :: byte)" for u v
  proof
    assume z: "u XOR v = 0"
    have "u = (u XOR v) XOR v" by (simp add: xor.assoc)
    then show "u = v" unfolding z by simp
  qed simp
  show ?thesis by (auto simp: bytesEqual_def fold_or_zero x list_eq_iff_nth_eq [of a b])
qed

lemma birthdayEncode_bound: "birthdayEncode t < 1024"
proof -
  have "n AND 1023 < (1024 :: nat)" for n using and_mask_nat [of n 10] take_bit_nat_less_exp [of 10 n] by simp
  then show ?thesis by (simp add: birthdayEncode_def DATE_MASK_def)
qed

lemma fresh_valid:
  assumes "length entropy = 19" "fs < 8" shows "polyseed_valid (fresh_data entropy now fs)"
proof -
  have "b AND 0x3f < (64 :: byte)" for b
    by (rule le_less_trans [OF word_and_le1]) simp
  moreover have "fs AND 7 < 32" using and_mask_nat [of fs 3] take_bit_nat_less_exp [of 3 fs] by simp
  ultimately show ?thesis
    using assms(1) birthdayEncode_bound [of now]
    by (simp add: polyseed_valid_def fresh_data_def poly_consts CLEAR_MASK_def list_all_iff nth_append)
qed

text \<open>A new wallet always gets its phrase: neither sanity check of the generator ever fails, whatever
  the generator and the clock return; and the phrase it hands out decodes to the seed it drew.\<close>

theorem generate_never_fails:
  assumes "length entropy = SECRET_SIZE" "fs < 8"
  shows "\<exists>phrase c. generatePolyseed entropy now fs = Some (Inr (phrase, (fresh_data entropy now fs)\<lparr>checksum := c\<rparr>)) \<and>
    polyseedDecode phrase POLYSEED_COIN_MONERO = Some (Inr ((fresh_data entropy now fs)\<lparr>checksum := c\<rparr>))"
proof -
  let ?d = "fresh_data entropy now fs"
  have "(fs AND 7) AND 8 = (0 :: nat)"
    by (simp add: and.assoc)
  then have s: "polyseedFeaturesSupported (features ?d)"
    by (simp add: polyseedFeaturesSupported_def fresh_data_def poly_consts Let_def)
  obtain phrase c where p: "polyseedEncode ?d 0 = Some (Inr (phrase, ?d\<lparr>checksum := c\<rparr>))"
      "polyseedDecode phrase 0 = Some (Inr (?d\<lparr>checksum := c\<rparr>))"
    using encode_decode [OF fresh_valid [of entropy fs now], of 0] assms s by (auto simp: SECRET_SIZE_def)
  moreover have "drop_bit USER_FEATURES fs = 0" using assms(2) by (simp add: USER_FEATURES_def drop_bit_eq_div)
  ultimately show ?thesis by (auto simp: generatePolyseed_def POLYSEED_COIN_MONERO_def Let_def bytesEqual_same)
qed

theorem generate_never_fails_witness:
  "\<exists>phrase c. generatePolyseed (replicate 19 0xff) 1700000000 0 =
      Some (Inr (phrase, (fresh_data (replicate 19 0xff) 1700000000 0)\<lparr>checksum := c\<rparr>))"
  using generate_never_fails [of "replicate 19 0xff" 0 1700000000] by (auto simp: SECRET_SIZE_def)

subsection \<open>Restore heights\<close>

fun ascending :: "(int \<times> int) list \<Rightarrow> bool" where
  "ascending ((h, t) # (h', t') # as) = (h \<le> h' \<and> t < t' \<and> ascending ((h', t') # as))"
| "ascending _ = True"

lemma height_from_lower: "ascending ((h, t) # as) \<Longrightarrow> t \<le> u \<Longrightarrow> h \<le> height_from ((h, t) # as) u"
proof (induction as arbitrary: h t)
  case Nil
  then show ?case by (simp add: MONERO_BLOCK_SEC_def pos_imp_zdiv_nonneg_iff)
next
  case (Cons a as)
  obtain h' t' where a: "a = (h', t')" by (cases a)
  have "0 \<le> ((u - t) * (h' - h)) div (t' - t)"
    using Cons.prems a by (intro iffD2 [OF pos_imp_zdiv_nonneg_iff]) simp_all
  moreover have "h' \<le> height_from ((h', t') # as) u" if "t' \<le> u"
    using Cons.IH Cons.prems(1) a that by simp
  ultimately show ?case using Cons.prems(1) by (auto simp: a)
qed

lemma height_from_mono:
  "ascending ((h, t) # as) \<Longrightarrow> t \<le> u \<Longrightarrow> u \<le> v \<Longrightarrow> height_from ((h, t) # as) u \<le> height_from ((h, t) # as) v"
proof (induction as arbitrary: h t)
  case Nil
  then show ?case by (simp add: MONERO_BLOCK_SEC_def zdiv_mono1)
next
  case (Cons a as)
  obtain h' t' where a: "a = (h', t')" by (cases a)
  have asc: "h \<le> h'" "t < t'" "ascending ((h', t') # as)" using Cons.prems(1) a by simp_all
  consider "v < t'" | "u < t'" "t' \<le> v" | "t' \<le> u" by linarith
  then show ?case
  proof cases
    case 1
    have "((u - t) * (h' - h)) div (t' - t) \<le> ((v - t) * (h' - h)) div (t' - t)"
      using asc Cons.prems(3) by (intro zdiv_mono1 mult_right_mono) simp_all
    then show ?thesis using 1 Cons.prems(3) a by simp
  next
    case 2
    have "((u - t) * (h' - h)) div (t' - t) \<le> ((t' - t) * (h' - h)) div (t' - t)"
      using asc 2 by (intro zdiv_mono1 mult_right_mono) simp_all
    moreover have "h' \<le> height_from ((h', t') # as) v" using asc(3) 2(2) by (rule height_from_lower)
    ultimately show ?thesis using 2 asc(2) a by simp
  next
    case 3
    then show ?thesis using Cons.IH [OF asc(3) 3 Cons.prems(3)] Cons.prems(3) a by simp
  qed
qed

lemma anchors_ascending: "ascending MONERO_ANCHORS" by (simp add: MONERO_ANCHORS_def)

lemma moneroHeight_mono: "u \<le> v \<Longrightarrow> moneroHeightAtUnix u \<le> moneroHeightAtUnix v"
  using height_from_mono [of 0 1397818193 "tl MONERO_ANCHORS" u v]
    height_from_lower [of 0 1397818193 "tl MONERO_ANCHORS" v] anchors_ascending
  by (auto simp: moneroHeightAtUnix_def MONERO_ANCHORS_def simp del: height_from.simps)

lemma birthday_not_after: "EPOCH \<le> now \<Longrightarrow> birthdayDecode (birthdayEncode now) \<le> now"
proof -
  assume e: "EPOCH \<le> now"
  let ?q = "nat ((now - EPOCH) div TIME_STEP)"
  have m: "x AND 1023 = x mod 1024" for x :: nat using and_mask_nat [of x 10] by (simp add: take_bit_eq_mod)
  have "int (?q mod 1024) \<le> (now - EPOCH) div TIME_STEP"
    using e by (simp add: TIME_STEP_def pos_imp_zdiv_nonneg_iff zmod_int zmod_le_nonneg_dividend)
  then have "int (?q mod 1024) * TIME_STEP \<le> now - EPOCH"
    by (simp add: TIME_STEP_def)
  then show ?thesis using e by (simp add: birthdayDecode_def birthdayEncode_def m DATE_MASK_def)
qed

lemma moneroHeight_nonneg: "0 \<le> moneroHeightAtUnix t"
  using height_from_lower [of 0 1397818193 "tl MONERO_ANCHORS" t] anchors_ascending
  by (auto simp: moneroHeightAtUnix_def MONERO_ANCHORS_def simp del: height_from.simps)

lemma date_restore_height:
  "parseDate date_parse d = Some u \<Longrightarrow> u \<le> t \<Longrightarrow> dateStringToMoneroHeight date_parse d \<le> moneroHeightAtUnix t"
  using moneroHeight_mono [of "u - SAFETY_MARGIN_SEC" t] moneroHeight_nonneg [of t]
  by (auto simp: dateStringToMoneroHeight_def SAFETY_MARGIN_SEC_def parseDate_def split: if_splits)

text \<open>Restoring a phrase never skips a block its wallet could own: the height the scan starts at is
  never negative and never past the chain's height when the seed was made, even once the ten bits of the
  birthday have wrapped round; heights never fall as time passes.\<close>

theorem restore_height_safe:
  "(EPOCH \<le> created \<and> created \<le> t \<longrightarrow> birthdayToRestoreHeight (birthdayEncode created) \<le> moneroHeightAtUnix t) \<and>
   0 \<le> birthdayToRestoreHeight b \<and>
   (u \<le> v \<longrightarrow> moneroHeightAtUnix u \<le> moneroHeightAtUnix v)"
proof (intro conjI impI)
  assume c: "EPOCH \<le> created \<and> created \<le> t"
  then have "birthdayDecode (birthdayEncode created) - TIME_STEP \<le> t"
    using birthday_not_after [of created] by (simp add: TIME_STEP_def)
  then show "birthdayToRestoreHeight (birthdayEncode created) \<le> moneroHeightAtUnix t"
    unfolding birthdayToRestoreHeight_def by (rule moneroHeight_mono)
next
  show "0 \<le> birthdayToRestoreHeight b" unfolding birthdayToRestoreHeight_def by (rule moneroHeight_nonneg)
qed (rule moneroHeight_mono)

theorem restore_height_safe_witness:
  "birthdayToRestoreHeight (birthdayEncode 1757750400) \<le> moneroHeightAtUnix 1757750400"
  using restore_height_safe [of 1757750400 1757750400 0 0 0] by (simp add: EPOCH_def)

end
