(* ===== verification/SendFlow.thy ===== *)
theory SendFlow
  imports ErrorText Regex Cbor Interfaces
begin

section \<open>Pressing Send: features/send and wallets/send-quote.ts\<close>

text \<open>
  The form of the Send modal, the quote it was priced with, and the handler of its button. The
  handler is a function of what it can see (the wallet, the adapter's capabilities, the replies of the
  guard and of the wallet call, the clock) and of the form; it returns the form afterwards and the
  wallet calls it made. The guard is asked and the call is made without another press in between; the
  form's fields do not change while they are awaited.
\<close>

subsection \<open>The tag and the memo: sendAssetStore.ts\<close>

definition MAX_DESTINATION_TAG :: nat where "MAX_DESTINATION_TAG = 4294967295"

datatype send_error =
    Caught thrown
  | BadDestinationTag
  | BadMemoId
  | MemoTooLong nat nat
  | NotReviewed
  | GuardRefusal string

definition parseDestinationTag :: "string \<Rightarrow> send_error + nat option" where
  "parseDestinationTag raw =
     (let t = js_trim raw
      in if t = [] then Inr None
         else if \<not> (list_all is_digit t \<and> length t \<le> 10) \<or> MAX_DESTINATION_TAG < str_nat t
         then Inl BadDestinationTag
         else Inr (Some (str_nat t)))"

datatype SendMemoType = MemoText | MemoId

record SendMemo =
  memo_type :: SendMemoType
  memo_value :: string

record SendMemoInput =
  memo_raw :: string
  memo_kind :: SendMemoType

definition EMPTY_MEMO :: SendMemoInput where
  "EMPTY_MEMO = \<lparr>memo_raw = [], memo_kind = MemoText\<rparr>"

definition MAX_MEMO_ID :: nat where "MAX_MEMO_ID = 18446744073709551615"

definition parseSendMemo :: "string \<Rightarrow> SendMemoType \<Rightarrow> nat \<Rightarrow> send_error + SendMemo option" where
  "parseSendMemo raw type textMaxBytes =
     (let t = js_trim raw
      in if t = [] then Inr None
         else if type = MemoId then
           if \<not> (list_all is_digit t \<and> length t \<le> 20) \<or> MAX_MEMO_ID < str_nat t then Inl BadMemoId
           else Inr (Some \<lparr>memo_type = MemoId, memo_value = nat_str (str_nat t)\<rparr>)
         else
           let bytes = length (utf8 t)
           in if textMaxBytes < bytes then Inl (MemoTooLong textMaxBytes bytes)
              else Inr (Some \<lparr>memo_type = MemoText, memo_value = t\<rparr>))"

subsection \<open>Banners: sendErrors.ts and send-outcome.ts\<close>

text \<open>What a send throws: an outcome that is not known, with the hash if there is one, or a failure.\<close>

datatype send_thrown =
    SendOutcomeUnknownError thrown "string option"
  | Failure send_error

fun isSendOutcomeUnknown :: "send_thrown \<Rightarrow> bool" where
  "isSendOutcomeUnknown (SendOutcomeUnknownError _ _) = True"
| "isSendOutcomeUnknown (Failure _) = False"

fun error_message :: "send_error \<Rightarrow> thrown" where
  "error_message (Caught e) = e"
| "error_message BadDestinationTag = ThrownError ''A destination tag is a whole number from 0 to 4294967295.''"
| "error_message BadMemoId =
     ThrownError ''A memo ID is a whole number from 0 to 18446744073709551615, digits only.''"
| "error_message (MemoTooLong mx n) =
     ThrownError (''A text memo is at most '' @ nat_str mx @ '' bytes; this one is '' @ nat_str n @
       ''. Use the memo exactly as the recipient gave it.'')"
| "error_message NotReviewed =
     ThrownError (''This send was not reviewed, or it changed after its review, so nothing was broadcast. '' @
       ''Review it to see its exact fee, then confirm. Nothing was sent.'')"
| "error_message (GuardRefusal m) = ThrownError m"

record TxResult =
  tx_hash :: string
  tx_pending :: "bool option"

definition sendFailureText :: "send_error \<Rightarrow> string" where
  "sendFailureText e =
     ''Transaction failed: '' @ errorText (error_message e) ''the wallet returned no error message.''"

definition sendOutcomeUnknownText :: "thrown \<Rightarrow> string option \<Rightarrow> string" where
  "sendOutcomeUnknownText e h =
     (let detail = errorText e []
      in ''Not confirmed: this transaction may have been sent. '' @
         (case keep_truthy h of Some x \<Rightarrow> ''Hash: '' @ x @ ''. '' | None \<Rightarrow> []) @
         ''Check Activity or a block explorer before sending again.'' @
         (if detail \<noteq> [] then '' ('' @ detail @ '')'' else []))"

definition sendSuccessText :: "TxResult \<Rightarrow> string" where
  "sendSuccessText r =
     (if tx_pending r = Some True then ''Transaction submitted, not confirmed yet. Hash: '' @ tx_hash r
      else ''Transaction sent! Hash: '' @ tx_hash r)"

subsection \<open>Quotes: wallets/send-quote.ts\<close>

text \<open>A ticket is the adapter's own handle for the transaction it built.\<close>

record SendQuote =
  q_to :: string
  q_amount :: string
  q_assetType :: "string option"
  q_fee :: string
  q_feeTicker :: "string option"
  q_feeNote :: "string option"
  q_quotedAt :: rat
  q_ticket :: nat

text \<open>A value that may be a quote: a field is None where it is missing or of another type.\<close>

record quote_like =
  l_to :: "string option"
  l_amount :: "string option"
  l_assetType :: "string option"
  l_quotedAt :: "rat option"
  l_ticket :: "nat option"

definition as_quote_like :: "SendQuote \<Rightarrow> quote_like" where
  "as_quote_like q =
     \<lparr>l_to = Some (q_to q), l_amount = Some (q_amount q), l_assetType = q_assetType q,
      l_quotedAt = Some (q_quotedAt q), l_ticket = Some (q_ticket q)\<rparr>"

datatype SendQuoteErrorKind = InsufficientFunds | InvalidAddress | NotReady | OtherKind

datatype quote_thrown = SendQuoteError SendQuoteErrorKind string | NotAQuoteError thrown

fun quoteErrorKind :: "quote_thrown \<Rightarrow> SendQuoteErrorKind" where
  "quoteErrorKind (SendQuoteError k _) = k"
| "quoteErrorKind (NotAQuoteError _) = OtherKind"

definition isDefinitiveQuoteError :: "quote_thrown \<Rightarrow> bool" where
  "isDefinitiveQuoteError e = (let k = quoteErrorKind e in k = InsufficientFunds \<or> k = InvalidAddress)"

definition SEND_QUOTE_MAX_AGE_MS :: rat where "SEND_QUOTE_MAX_AGE_MS = 90000"

record send_target =
  t_to :: string
  t_amount :: string
  t_assetType :: "string option"

text \<open>\<open>maxAgeMs\<close> is None for infinity.\<close>

definition quoteMatchesSend :: "quote_like option \<Rightarrow> send_target \<Rightarrow> rat \<Rightarrow> rat option \<Rightarrow> bool" where
  "quoteMatchesSend quote send now maxAgeMs =
     (case quote of
        None \<Rightarrow> False
      | Some q \<Rightarrow>
          (case (l_to q, l_amount q, l_quotedAt q, l_ticket q) of
             (Some to, Some amount, Some quotedAt, Some _) \<Rightarrow>
               if to \<noteq> js_trim (t_to send) \<or> amount \<noteq> js_trim (t_amount send) then False
               else if l_assetType q \<noteq> t_assetType send then False
               else let age = now - quotedAt
                    in 0 \<le> age \<and> (case maxAgeMs of None \<Rightarrow> True | Some m \<Rightarrow> age < m)
           | _ \<Rightarrow> False))"

datatype QuotedSendRoute = Relay quote_like | Build | is_Refuse: Refuse send_error

record adapter =
  has_sendFromAccount :: bool
  supportsAccountSend :: "(string \<Rightarrow> string \<Rightarrow> bool) option"
  has_sendQuoted :: bool
  quoteBuildsSpend :: "bool option"
  has_destinationTag :: bool
  ad_memo :: "nat option"

definition routeQuotedSend :: "adapter \<Rightarrow> quote_like option \<Rightarrow> send_target \<Rightarrow> rat \<Rightarrow> QuotedSendRoute" where
  "routeQuotedSend ad quote send now =
     (let reviewed = (quoteBuildsSpend ad = Some True);
          maxAgeMs = (if reviewed then None else Some SEND_QUOTE_MAX_AGE_MS)
      in if has_sendQuoted ad \<and> quoteMatchesSend quote send now maxAgeMs then Relay (the quote)
         else if reviewed then Refuse NotReviewed
         else Build)"

subsection \<open>The account path: accountSend.ts\<close>

record AccountSendInputs =
  hasAccountSend :: bool
  accountMatches :: bool
  hasMnemonic :: bool
  in_assetType :: "string option"

definition shouldUseAccountSend :: "AccountSendInputs \<Rightarrow> bool" where
  "shouldUseAccountSend i =
     (hasAccountSend i \<and> hasMnemonic i \<and> accountMatches i \<and> \<not> truthy (in_assetType i))"

subsection \<open>The fee box: feeDisplay.ts\<close>

record FeeEstimate =
  fe_unit :: string
  fe_typicalTxVBytes :: "rat option"
  fe_isFallback :: "bool option"

definition feeNoteText :: "string option \<Rightarrow> string option" where
  "feeNoteText feeNote = keep_truthy (map_option js_trim feeNote)"

definition PER_BYTE_RATE :: rx where
  "PER_BYTE_RATE = Cat [AtStart, Or [lit ''sat'', lit ''duffs''], lit ''/'', opt (lit ''v''), lit ''B'', AtEnd]"

definition isPerByteRate :: "string option \<Rightarrow> bool" where
  "isPerByteRate unit =
     (case keep_truthy unit of None \<Rightarrow> False | Some u \<Rightarrow> rx_test True PER_BYTE_RATE (js_trim u))"

text \<open>\<open>Number(undefined)\<close> is not a number.\<close>

definition tier_rate :: "string option \<Rightarrow> rat option" where
  "tier_rate tierValue = Option.bind tierValue js_number"

definition feeRateForSend :: "FeeEstimate option \<Rightarrow> string option \<Rightarrow> int option" where
  "feeRateForSend estimate tierValue =
     (case estimate of
        None \<Rightarrow> None
      | Some est \<Rightarrow>
          if fe_isFallback est = Some True \<or> \<not> isPerByteRate (Some (fe_unit est)) then None
          else case tier_rate tierValue of
                 None \<Rightarrow> None
               | Some n \<Rightarrow> if n \<le> 0 then None else Some (max \<lceil>n\<rceil> 1))"

definition formatUsd :: "rat \<Rightarrow> rat option \<Rightarrow> string option" where
  "formatUsd coins usdPrice =
     (case usdPrice of
        None \<Rightarrow> None
      | Some p \<Rightarrow>
          if p \<le> 0 then None
          else let usd = coins * p
               in if usd < 1 / 100 then Some ''< $0.01'' else Some (''$'' @ to_fixed 2 usd))"

definition feeTotalFor :: "FeeEstimate option \<Rightarrow> string option \<Rightarrow> rat option \<Rightarrow> (string \<times> string option) option" where
  "feeTotalFor estimate tierValue usdPrice =
     (case estimate of
        None \<Rightarrow> None
      | Some est \<Rightarrow>
          if \<not> isPerByteRate (Some (fe_unit est)) then None
          else case (fe_typicalTxVBytes est, tier_rate tierValue) of
                 (Some vb, Some rate) \<Rightarrow>
                   if vb = 0 \<or> rate \<le> 0 then None
                   else let coins = of_int (max \<lceil>rate\<rceil> 1) * vb / 100000000
                        in Some (to_fixed 8 coins, formatUsd coins usdPrice)
               | _ \<Rightarrow> None)"

subsection \<open>The handler: useSend.ts\<close>

record WalletInfo =
  wi_address :: string
  wi_mnemonic :: string
  wi_privateKey :: string

record SendOptions =
  o_destinationTag :: "nat option"
  o_memo :: "SendMemo option"
  o_feeRate :: "rat option"

datatype send_call =
    SendOverride string string "SendOptions option"
  | SendFromAccount string string string string "rat option"
  | SendQuoted quote_like
  | SendTransaction string string string "string option" "SendOptions option"

record send_env =
  e_wallet :: "WalletInfo option"
  e_adapter :: adapter
  activeChain :: string
  xmrSeedLoaded :: "string option"
  has_sendOverride :: bool
  sendGuard :: "(string \<Rightarrow> string \<Rightarrow> send_thrown + string option) option"
  wallet_reply :: "send_call \<Rightarrow> send_thrown + TxResult"
  date_now :: rat

record send_state =
  sendTo :: string
  sendAmount :: string
  sending :: bool
  showSendModal :: bool
  sendAssetType :: "string option"
  tagRaw :: string
  memoState :: SendMemoInput
  error_banner :: string
  success_banner :: string
  refreshes :: nat

text \<open>\<open>openSendModal\<close> gets None for an argument that is not a string.\<close>

definition openSendModal :: "string option \<Rightarrow> send_state \<Rightarrow> send_state" where
  "openSendModal assetType s =
     s\<lparr>sendAssetType := assetType, tagRaw := [], memoState := EMPTY_MEMO, showSendModal := True\<rparr>"

text \<open>The form is forgotten as one: recipient, amount, asset, tag and memo.\<close>

definition closeSendModal :: "send_state \<Rightarrow> send_state" where
  "closeSendModal s =
     s\<lparr>showSendModal := False, sendAssetType := None, tagRaw := [], memoState := EMPTY_MEMO,
       sendTo := [], sendAmount := []\<rparr>"

definition keyMaterial :: "send_env \<Rightarrow> WalletInfo \<Rightarrow> string" where
  "keyMaterial env w =
     (if activeChain env = ''monero'' \<and> truthy (xmrSeedLoaded env) then the (xmrSeedLoaded env)
      else if activeChain env = ''cardano'' \<and> wi_mnemonic w \<noteq> [] then wi_mnemonic w
      else wi_privateKey w)"

definition useAccountSend :: "send_env \<Rightarrow> WalletInfo \<Rightarrow> send_state \<Rightarrow> bool" where
  "useAccountSend env w s = shouldUseAccountSend
     \<lparr>hasAccountSend = has_sendFromAccount (e_adapter env),
      accountMatches =
        (if wi_mnemonic w \<noteq> [] then
           (case supportsAccountSend (e_adapter env) of None \<Rightarrow> False | Some f \<Rightarrow> f (wi_mnemonic w) (wi_address w))
         else False),
      hasMnemonic = (wi_mnemonic w \<noteq> []), in_assetType = sendAssetType s\<rparr>"

definition guard_passes :: "send_env \<Rightarrow> send_state \<Rightarrow> send_thrown + unit" where
  "guard_passes env s =
     (case sendGuard env of
        None \<Rightarrow> Inr ()
      | Some g \<Rightarrow>
          (case g (sendTo s) (sendAmount s) of
             Inl e \<Rightarrow> Inl e
           | Inr refusal \<Rightarrow>
               (case keep_truthy refusal of Some m \<Rightarrow> Inl (Failure (GuardRefusal m)) | None \<Rightarrow> Inr ())))"

definition send_options :: "nat option \<Rightarrow> SendMemo option \<Rightarrow> rat option \<Rightarrow> SendOptions option" where
  "send_options tag memo feeRate =
     (if tag \<noteq> None \<or> memo \<noteq> None \<or> feeRate \<noteq> None
      then Some \<lparr>o_destinationTag = tag, o_memo = memo, o_feeRate = feeRate\<rparr> else None)"

text \<open>Everything up to the wallet call: what is thrown before it, or the call.\<close>

definition prepare_send ::
    "send_env \<Rightarrow> WalletInfo \<Rightarrow> send_state \<Rightarrow> rat option \<Rightarrow> quote_like option \<Rightarrow> send_thrown + send_call" where
  "prepare_send env w s feeRate quoteArg =
     (let account = useAccountSend env w s;
          route = routeQuotedSend (e_adapter env) quoteArg
                    \<lparr>t_to = sendTo s, t_amount = sendAmount s, t_assetType = sendAssetType s\<rparr> (date_now env)
      in case guard_passes env s of
           Inl e \<Rightarrow> Inl e
         | Inr _ \<Rightarrow>
             if \<not> has_sendOverride env \<and> \<not> account \<and> is_Refuse route then Inl (Failure NotReviewed)
             else case (if has_destinationTag (e_adapter env) then parseDestinationTag (tagRaw s) else Inr None) of
               Inl e \<Rightarrow> Inl (Failure e)
             | Inr tag \<Rightarrow>
                 (case (case ad_memo (e_adapter env) of
                          None \<Rightarrow> Inr None
                        | Some mx \<Rightarrow> parseSendMemo (memo_raw (memoState s)) (memo_kind (memoState s)) mx) of
                    Inl e \<Rightarrow> Inl (Failure e)
                  | Inr memo \<Rightarrow>
                      Inr (if has_sendOverride env
                           then SendOverride (sendTo s) (sendAmount s) (send_options tag memo feeRate)
                           else if account
                           then SendFromAccount (wi_mnemonic w) (sendTo s) (sendAmount s) (wi_address w) feeRate
                           else case route of
                                  Relay q \<Rightarrow> SendQuoted q
                                | _ \<Rightarrow> SendTransaction (keyMaterial env w) (sendTo s) (sendAmount s)
                                         (sendAssetType s) (send_options tag memo feeRate))))"

definition send_failed :: "send_thrown \<Rightarrow> send_state \<Rightarrow> send_state" where
  "send_failed e s =
     (case e of
        SendOutcomeUnknownError t h \<Rightarrow>
          (closeSendModal s)\<lparr>error_banner := sendOutcomeUnknownText t h, refreshes := refreshes s + 1\<rparr>
      | Failure f \<Rightarrow> s\<lparr>error_banner := sendFailureText f\<rparr>)"

definition send_done :: "TxResult \<Rightarrow> send_state \<Rightarrow> send_state" where
  "send_done r s = (closeSendModal s)\<lparr>success_banner := sendSuccessText r, refreshes := refreshes s + 1\<rparr>"

text \<open>\<open>feeRateArg\<close> is None for anything that is not a finite number.\<close>

definition handleSend ::
    "send_env \<Rightarrow> rat option \<Rightarrow> quote_like option \<Rightarrow> send_state \<Rightarrow> send_state \<times> send_call list" where
  "handleSend env feeRateArg quoteArg s =
     (case e_wallet env of
        None \<Rightarrow> (s, [])
      | Some w \<Rightarrow>
          let feeRate = (case feeRateArg of Some r \<Rightarrow> if 0 < r then Some r else None | None \<Rightarrow> None);
              s1 = s\<lparr>error_banner := [], success_banner := [], sending := True\<rparr>;
              (s2, calls) =
                (case prepare_send env w s1 feeRate quoteArg of
                   Inl e \<Rightarrow> (send_failed e s1, [])
                 | Inr c \<Rightarrow>
                     (case wallet_reply env c of
                        Inl e \<Rightarrow> (send_failed e s1, [c])
                      | Inr r \<Rightarrow> (send_done r s1, [c])))
          in (s2\<lparr>sending := False\<rparr>, calls))"

subsection \<open>What a press of Send does\<close>

lemma matches_target:
  "quoteMatchesSend (Some l) t now m \<Longrightarrow>
     l_to l = Some (js_trim (t_to t)) \<and> l_amount l = Some (js_trim (t_amount t)) \<and> l_assetType l = t_assetType t"
  by (auto simp: quoteMatchesSend_def split: option.splits if_splits)

lemma route_relay:
  "routeQuotedSend ad quote t now = Relay l \<longleftrightarrow>
     quote = Some l \<and> has_sendQuoted ad \<and>
     quoteMatchesSend quote t now (if quoteBuildsSpend ad = Some True then None else Some SEND_QUOTE_MAX_AGE_MS)"
  by (cases quote) (auto simp: routeQuotedSend_def quoteMatchesSend_def)

lemma route_build: "routeQuotedSend ad quote t now = Build \<Longrightarrow> quoteBuildsSpend ad \<noteq> Some True"
  by (auto simp: routeQuotedSend_def split: if_splits)

text \<open>The recipient, the amount and the asset a wallet call moves.\<close>

fun call_moves :: "send_call \<Rightarrow> string option \<times> string option \<times> string option" where
  "call_moves (SendOverride to amount _) = (Some (js_trim to), Some (js_trim amount), None)"
| "call_moves (SendFromAccount _ to amount _ _) = (Some (js_trim to), Some (js_trim amount), None)"
| "call_moves (SendQuoted l) = (l_to l, l_amount l, l_assetType l)"
| "call_moves (SendTransaction _ to amount assetType _) = (Some (js_trim to), Some (js_trim amount), assetType)"

fun call_options :: "send_call \<Rightarrow> SendOptions option option" where
  "call_options (SendOverride _ _ opts) = Some opts"
| "call_options (SendTransaction _ _ _ _ opts) = Some opts"
| "call_options _ = None"

lemma send_options_memo: "Option.bind (send_options tag memo feeRate) o_memo = memo"
  "Option.bind (send_options tag memo feeRate) o_destinationTag = tag"
  by (auto simp: send_options_def)

lemma prepare_call:
  assumes "prepare_send env w s feeRate quoteArg = Inr c"
  obtains tag memo where
    "guard_passes env s = Inr ()"
    "(if has_destinationTag (e_adapter env) then parseDestinationTag (tagRaw s) else Inr None) = Inr tag"
    "(case ad_memo (e_adapter env) of None \<Rightarrow> Inr None
      | Some mx \<Rightarrow> parseSendMemo (memo_raw (memoState s)) (memo_kind (memoState s)) mx) = Inr memo"
    "c = SendOverride (sendTo s) (sendAmount s) (send_options tag memo feeRate) \<and> has_sendOverride env \<or>
     c = SendFromAccount (wi_mnemonic w) (sendTo s) (sendAmount s) (wi_address w) feeRate \<and>
       \<not> has_sendOverride env \<and> useAccountSend env w s \<or>
     \<not> has_sendOverride env \<and> \<not> useAccountSend env w s \<and>
       (\<exists>l. quoteArg = Some l \<and> c = SendQuoted l \<and> quoteMatchesSend quoteArg
          \<lparr>t_to = sendTo s, t_amount = sendAmount s, t_assetType = sendAssetType s\<rparr> (date_now env)
          (if quoteBuildsSpend (e_adapter env) = Some True then None else Some SEND_QUOTE_MAX_AGE_MS)) \<or>
     \<not> has_sendOverride env \<and> \<not> useAccountSend env w s \<and> quoteBuildsSpend (e_adapter env) \<noteq> Some True \<and>
       c = SendTransaction (keyMaterial env w) (sendTo s) (sendAmount s) (sendAssetType s)
         (send_options tag memo feeRate)"
proof -
  let ?r = "routeQuotedSend (e_adapter env) quoteArg
      \<lparr>t_to = sendTo s, t_amount = sendAmount s, t_assetType = sendAssetType s\<rparr> (date_now env)"
  let ?t = "if has_destinationTag (e_adapter env) then parseDestinationTag (tagRaw s) else Inr None"
  let ?m = "case ad_memo (e_adapter env) of None \<Rightarrow> Inr None
      | Some mx \<Rightarrow> parseSendMemo (memo_raw (memoState s)) (memo_kind (memoState s)) mx"
  have g: "guard_passes env s = Inr ()" and r: "has_sendOverride env \<or> useAccountSend env w s \<or> \<not> is_Refuse ?r"
    using assms by (auto simp: prepare_send_def Let_def split: sum.splits if_split_asm)
  then obtain tag where t: "?t = Inr tag"
    using assms by (cases ?t) (auto simp: prepare_send_def Let_def simp del: not_None_eq)
  obtain memo where m: "?m = Inr memo"
    using assms g r t by (cases ?m) (auto simp: prepare_send_def Let_def simp del: not_None_eq)
  have c: "c = (if has_sendOverride env then SendOverride (sendTo s) (sendAmount s) (send_options tag memo feeRate)
      else if useAccountSend env w s
      then SendFromAccount (wi_mnemonic w) (sendTo s) (sendAmount s) (wi_address w) feeRate
      else case ?r of Relay q \<Rightarrow> SendQuoted q
        | _ \<Rightarrow> SendTransaction (keyMaterial env w) (sendTo s) (sendAmount s) (sendAssetType s)
            (send_options tag memo feeRate))"
    using assms g r t m by (auto simp: prepare_send_def Let_def)
  show ?thesis
  proof (cases ?r)
    case (Relay l)
    then show ?thesis using c route_relay [THEN iffD1, OF Relay] by (intro that [OF g t m]) auto
  next
    case Build
    then show ?thesis using c route_build [OF Build] by (intro that [OF g t m]) auto
  next
    case (Refuse e)
    then show ?thesis using r c by (intro that [OF g t m]) auto
  qed
qed

lemma prepare_frame:
  "prepare_send env w (s\<lparr>error_banner := a, success_banner := b, sending := c\<rparr>) = prepare_send env w s"
  by (intro ext) (simp add: prepare_send_def useAccountSend_def guard_passes_def Let_def
      cong del: sum.case_cong_weak option.case_cong_weak QuotedSendRoute.case_cong_weak if_weak_cong)

lemma account_send_is_native: "useAccountSend env w s \<Longrightarrow> \<not> truthy (sendAssetType s)"
  by (simp add: useAccountSend_def shouldUseAccountSend_def)

definition faithful_call :: "send_env \<Rightarrow> quote_like option \<Rightarrow> send_state \<Rightarrow> send_call \<Rightarrow> bool" where
  "faithful_call env quoteArg s c =
     (fst (call_moves c) = Some (js_trim (sendTo s)) \<and>
      fst (snd (call_moves c)) = Some (js_trim (sendAmount s)) \<and>
      (snd (snd (call_moves c)) = sendAssetType s \<or> has_sendOverride env \<or> \<not> truthy (sendAssetType s)) \<and>
      (case call_options c of None \<Rightarrow> True
       | Some opts \<Rightarrow>
           (has_destinationTag (e_adapter env) \<longrightarrow>
              parseDestinationTag (tagRaw s) = Inr (Option.bind opts o_destinationTag)) \<and>
           (case ad_memo (e_adapter env) of None \<Rightarrow> True
            | Some mx \<Rightarrow>
                parseSendMemo (memo_raw (memoState s)) (memo_kind (memoState s)) mx = Inr (Option.bind opts o_memo))))"

lemma prepared_call_faithful:
  assumes "prepare_send env w s feeRate quoteArg = Inr c"
  shows "faithful_call env quoteArg s c \<and> guard_passes env s = Inr () \<and>
    (quoteBuildsSpend (e_adapter env) = Some True \<longrightarrow> has_sendOverride env \<or> useAccountSend env w s \<or>
       (\<exists>l. quoteArg = Some l \<and> c = SendQuoted l))"
  using assms
proof (rule prepare_call)
  fix tag memo
  assume g: "guard_passes env s = Inr ()"
    and t: "(if has_destinationTag (e_adapter env) then parseDestinationTag (tagRaw s) else Inr None) = Inr tag"
    and m: "(case ad_memo (e_adapter env) of None \<Rightarrow> Inr None
      | Some mx \<Rightarrow> parseSendMemo (memo_raw (memoState s)) (memo_kind (memoState s)) mx) = Inr memo"
    and c: "c = SendOverride (sendTo s) (sendAmount s) (send_options tag memo feeRate) \<and> has_sendOverride env \<or>
     c = SendFromAccount (wi_mnemonic w) (sendTo s) (sendAmount s) (wi_address w) feeRate \<and>
       \<not> has_sendOverride env \<and> useAccountSend env w s \<or>
     \<not> has_sendOverride env \<and> \<not> useAccountSend env w s \<and>
       (\<exists>l. quoteArg = Some l \<and> c = SendQuoted l \<and> quoteMatchesSend quoteArg
          \<lparr>t_to = sendTo s, t_amount = sendAmount s, t_assetType = sendAssetType s\<rparr> (date_now env)
          (if quoteBuildsSpend (e_adapter env) = Some True then None else Some SEND_QUOTE_MAX_AGE_MS)) \<or>
     \<not> has_sendOverride env \<and> \<not> useAccountSend env w s \<and> quoteBuildsSpend (e_adapter env) \<noteq> Some True \<and>
       c = SendTransaction (keyMaterial env w) (sendTo s) (sendAmount s) (sendAssetType s)
         (send_options tag memo feeRate)"
  have opts: "has_destinationTag (e_adapter env) \<longrightarrow> parseDestinationTag (tagRaw s) = Inr tag"
    "case ad_memo (e_adapter env) of None \<Rightarrow> True
     | Some mx \<Rightarrow> parseSendMemo (memo_raw (memoState s)) (memo_kind (memoState s)) mx = Inr memo"
    using t m by (auto split: option.splits)
  from c show ?thesis
  proof (elim disjE conjE exE)
    fix l
    assume l: "quoteArg = Some l" "c = SendQuoted l" "quoteMatchesSend quoteArg
        \<lparr>t_to = sendTo s, t_amount = sendAmount s, t_assetType = sendAssetType s\<rparr> (date_now env)
        (if quoteBuildsSpend (e_adapter env) = Some True then None else Some SEND_QUOTE_MAX_AGE_MS)"
    then show ?thesis using matches_target [OF l(3) [unfolded l(1)]] g by (simp add: faithful_call_def)
  qed (use opts g account_send_is_native in \<open>auto simp: faithful_call_def send_options_memo split: option.splits\<close>)
qed

lemma handleSend_cases:
  assumes "e_wallet env = Some w"
  obtains e s1 feeRate where "prepare_send env w s feeRate quoteArg = Inl e" "s1 = s\<lparr>error_banner := [], success_banner := [], sending := True\<rparr>"
      "handleSend env feeRateArg quoteArg s = ((send_failed e s1)\<lparr>sending := False\<rparr>, [])"
  | c s1 feeRate where "prepare_send env w s feeRate quoteArg = Inr c" "s1 = s\<lparr>error_banner := [], success_banner := [], sending := True\<rparr>"
      "handleSend env feeRateArg quoteArg s =
        ((case wallet_reply env c of Inl e \<Rightarrow> send_failed e s1 | Inr r \<Rightarrow> send_done r s1)\<lparr>sending := False\<rparr>, [c])"
proof -
  let ?f = "case feeRateArg of Some r \<Rightarrow> if 0 < r then Some r else None | None \<Rightarrow> None"
  show ?thesis
  proof (cases "prepare_send env w s ?f quoteArg")
    case (Inl e)
    then show ?thesis using that(1) [OF Inl refl] assms by (simp add: handleSend_def Let_def prepare_frame)
  next
    case (Inr c)
    then show ?thesis using that(2) [OF Inr refl] assms
      by (simp add: handleSend_def Let_def prepare_frame split: sum.splits)
  qed
qed

text \<open>C7. A press of Send makes at most one wallet call. The call moves the amount in the form to the
  recipient in the form, in the asset in the form (the account path and the session transports
  carry the native coin), with exactly the tag and memo the form shows; it is made only after the
  guard has passed; and where a quote is the reviewed spend, the call relays the quote that was
  reviewed and never builds.\<close>

theorem send_makes_one_faithful_call:
  assumes "e_wallet env = Some w"
  shows "length (snd (handleSend env feeRateArg quoteArg s)) \<le> 1 \<and>
    list_all (\<lambda>c. faithful_call env quoteArg s c \<and> guard_passes env s = Inr () \<and>
        (quoteBuildsSpend (e_adapter env) = Some True \<longrightarrow> has_sendOverride env \<or> useAccountSend env w s \<or>
           (\<exists>l. quoteArg = Some l \<and> c = SendQuoted l)))
      (snd (handleSend env feeRateArg quoteArg s))"
  by (rule handleSend_cases [OF assms, of s quoteArg feeRateArg]) (auto dest: prepared_call_faithful)

definition form_cleared :: "send_state \<Rightarrow> bool" where
  "form_cleared s = (closeSendModal s = s)"

lemma closed_modal: "\<not> showSendModal (closeSendModal s)" by (simp add: closeSendModal_def)

lemma form_clearedD:
  assumes "form_cleared s" shows "sendTo s = [] \<and> sendAmount s = []"
proof -
  have "sendTo (closeSendModal s) = [] \<and> sendAmount (closeSendModal s) = []" by (simp add: closeSendModal_def)
  then show ?thesis using assms by (simp add: form_cleared_def)
qed

definition form_kept :: "send_state \<Rightarrow> send_state \<Rightarrow> bool" where
  "form_kept s s' =
     (s'\<lparr>error_banner := error_banner s, success_banner := success_banner s, sending := sending s\<rparr> = s)"

lemma sendFailureText_not_Nil [simp]: "sendFailureText e \<noteq> []" by (simp add: sendFailureText_def)
lemma sendOutcomeUnknownText_not_Nil [simp]: "sendOutcomeUnknownText t h \<noteq> []"
  by (simp add: sendOutcomeUnknownText_def Let_def)

text \<open>What a press leaves behind. When the wallet took the transaction, and when it may have taken it,
  the form is forgotten as a whole, so the same press cannot be repeated and no tag, memo or asset
  rides along on the next send; a transaction that may be out is never called failed. Only a
  definite failure keeps the form as it was, and it always says so.\<close>

theorem what_a_press_leaves:
  assumes "e_wallet env = Some w" "handleSend env feeRateArg quoteArg s = (s', calls)"
  shows "\<not> sending s' \<and>
    (case calls of
       [] \<Rightarrow> error_banner s' \<noteq> [] \<and> success_banner s' = []
     | c # _ \<Rightarrow>
         (case wallet_reply env c of
            Inr r \<Rightarrow> form_cleared s' \<and> error_banner s' = [] \<and> success_banner s' = sendSuccessText r
          | Inl (SendOutcomeUnknownError t h) \<Rightarrow>
              form_cleared s' \<and> error_banner s' = sendOutcomeUnknownText t h \<and> success_banner s' = []
          | Inl (Failure f) \<Rightarrow>
              form_kept s s' \<and> error_banner s' = sendFailureText f \<and> success_banner s' = []))"
  by (rule handleSend_cases [OF assms(1), of s quoteArg feeRateArg])
    (use assms(2) in \<open>auto simp: send_failed_def send_done_def closeSendModal_def form_cleared_def form_kept_def
       split: sum.splits send_thrown.splits\<close>)

subsection \<open>The form between sends\<close>

text \<open>What the user can do. The fields are edited, and Send is pressed, in the open modal only.\<close>

datatype send_event =
    OpenModal "string option"
  | CloseModal
  | TypeForm string string
  | TypeTag string
  | TypeMemo string
  | PickMemoType SendMemoType
  | PressSend send_env "rat option" "quote_like option"

fun send_event_step :: "send_state \<Rightarrow> send_event \<Rightarrow> send_state" where
  "send_event_step s (OpenModal a) = (if showSendModal s then s else openSendModal a s)"
| "send_event_step s CloseModal = closeSendModal s"
| "send_event_step s (TypeForm to amount) = (if showSendModal s then s\<lparr>sendTo := to, sendAmount := amount\<rparr> else s)"
| "send_event_step s (TypeTag t) = (if showSendModal s then s\<lparr>tagRaw := t\<rparr> else s)"
| "send_event_step s (TypeMemo t) =
     (if showSendModal s then s\<lparr>memoState := \<lparr>memo_raw = t, memo_kind = memo_kind (memoState s)\<rparr>\<rparr> else s)"
| "send_event_step s (PickMemoType k) =
     (if showSendModal s then s\<lparr>memoState := \<lparr>memo_raw = memo_raw (memoState s), memo_kind = k\<rparr>\<rparr> else s)"
| "send_event_step s (PressSend env feeRateArg quoteArg) =
     (if showSendModal s then fst (handleSend env feeRateArg quoteArg s) else s)"

definition closed_is_blank :: "send_state \<Rightarrow> bool" where
  "closed_is_blank s \<longleftrightarrow> \<not> showSendModal s \<longrightarrow> form_cleared s"

definition send_init :: send_state where
  "send_init = \<lparr>sendTo = [], sendAmount = [], sending = False, showSendModal = False, sendAssetType = None,
     tagRaw = [], memoState = EMPTY_MEMO, error_banner = [], success_banner = [], refreshes = 0\<rparr>"

lemma press_keeps_modal:
  "showSendModal s \<Longrightarrow> closed_is_blank (fst (handleSend env feeRateArg quoteArg s))"
proof (cases "e_wallet env")
  case (Some w)
  assume "showSendModal s"
  then show ?thesis
    by - (rule handleSend_cases [OF Some, of s quoteArg feeRateArg];
      auto simp: closed_is_blank_def send_failed_def send_done_def closeSendModal_def form_cleared_def
        split: sum.splits send_thrown.splits)
qed (simp add: handleSend_def closed_is_blank_def)

interpretation send_form: event_machine send_event_step closed_is_blank
proof
  fix s e
  assume "closed_is_blank s"
  then show "closed_is_blank (send_event_step s e)"
    by (cases e) (simp_all add: press_keeps_modal, simp_all add: closed_is_blank_def form_cleared_def openSendModal_def closeSendModal_def)
qed

text \<open>Whatever was typed, sent, refused or cancelled before, the modal opens blank: no recipient, no
  amount, no tag and no memo of an earlier send, and the asset it was opened for.\<close>

theorem modal_opens_blank:
  assumes "\<not> showSendModal (foldl send_event_step send_init es)"
  shows "case send_event_step (foldl send_event_step send_init es) (OpenModal a) of s \<Rightarrow>
    sendTo s = [] \<and> sendAmount s = [] \<and> tagRaw s = [] \<and> memoState s = EMPTY_MEMO \<and>
    sendAssetType s = a \<and> showSendModal s"
proof -
  let ?s = "foldl send_event_step send_init es"
  have "closed_is_blank send_init"
    by (simp add: closed_is_blank_def send_init_def form_cleared_def closeSendModal_def)
  then have "closed_is_blank ?s" by (rule send_form.run_good)
  then have "form_cleared ?s" using assms by (simp add: closed_is_blank_def)
  then show ?thesis using assms form_clearedD [of ?s] by (simp add: openSendModal_def)
qed

subsection \<open>Tags and memos read back\<close>

lemma nat_str_trim [simp]: "js_trim (nat_str n) = nat_str n"
  using nat_str_hd_last [of n] by (intro js_trim_noop) (auto dest: is_digit_not_space)

lemma nat_str_fits: "n < 10 ^ Suc k \<Longrightarrow> list_all is_digit (nat_str n) \<and> length (nat_str n) \<le> Suc k"
  using nat_str_digits [of n] nat_str_length_bound [of n k] by (simp add: list_all_iff)

lemma parse_tag: "parseDestinationTag (nat_str n) = Inr (Some n) \<longleftrightarrow> n < 2 ^ 32"
  using nat_str_fits [of n 9] by (auto simp: parseDestinationTag_def MAX_DESTINATION_TAG_def Let_def)

text \<open>A destination tag and a numeric memo are what was typed or nothing: every number in range is read
  back, what is read is in range and is the number the digits spell, and a text memo is the trimmed
  text, whole.\<close>

theorem tag_and_memo_exact:
  "(parseDestinationTag (nat_str n) = Inr (Some n) \<longleftrightarrow> n < 2 ^ 32) \<and>
   (parseSendMemo (nat_str n) MemoId mx = Inr (Some \<lparr>memo_type = MemoId, memo_value = nat_str n\<rparr>) \<longleftrightarrow> n < 2 ^ 64) \<and>
   (case parseDestinationTag raw of
      Inr (Some t) \<Rightarrow> t < 2 ^ 32 \<and> t = str_nat (js_trim raw) \<and> list_all is_digit (js_trim raw)
    | Inr None \<Rightarrow> js_trim raw = []
    | Inl e \<Rightarrow> e = BadDestinationTag) \<and>
   (case parseSendMemo raw k mx of
      Inr (Some m) \<Rightarrow> memo_type m = k \<and>
        (if k = MemoId then str_nat (memo_value m) = str_nat (js_trim raw) \<and> str_nat (memo_value m) < 2 ^ 64
         else memo_value m = js_trim raw \<and> length (utf8 (memo_value m)) \<le> mx)
    | Inr None \<Rightarrow> js_trim raw = []
    | Inl e \<Rightarrow> js_trim raw \<noteq> [])"
proof (intro conjI)
  show "parseDestinationTag (nat_str n) = Inr (Some n) \<longleftrightarrow> n < 2 ^ 32"
    by (rule parse_tag)
  show "parseSendMemo (nat_str n) MemoId mx = Inr (Some \<lparr>memo_type = MemoId, memo_value = nat_str n\<rparr>) \<longleftrightarrow> n < 2 ^ 64"
    using nat_str_fits [of n 19] by (auto simp: parseSendMemo_def MAX_MEMO_ID_def Let_def)
qed (cases k; auto simp: parseDestinationTag_def parseSendMemo_def MAX_DESTINATION_TAG_def MAX_MEMO_ID_def Let_def
    split: sum.splits option.splits)+

lemma feeRateForSend_rounds_up:
  assumes "feeRateForSend est tier = Some r"
  shows "1 \<le> r \<and> (\<exists>n. tier_rate tier = Some n \<and> n \<le> of_int r \<and> of_int r < n + 1 \<or> r = 1)"
proof -
  from assms obtain n where n: "tier_rate tier = Some n" "0 < n" "r = max \<lceil>n\<rceil> 1"
    by (auto simp: feeRateForSend_def split: option.splits if_splits)
  have "n \<le> of_int \<lceil>n\<rceil>" "of_int \<lceil>n\<rceil> < n + 1" by linarith+
  then show ?thesis using n by (auto simp: max_def)
qed

subsection \<open>A send, pressed\<close>

definition demo_env :: send_env where
  "demo_env = \<lparr>e_wallet = Some \<lparr>wi_address = ''r'', wi_mnemonic = [], wi_privateKey = ''k''\<rparr>,
     e_adapter = \<lparr>has_sendFromAccount = False, supportsAccountSend = None, has_sendQuoted = False,
       quoteBuildsSpend = None, has_destinationTag = True, ad_memo = None\<rparr>,
     activeChain = ''xrp'', xmrSeedLoaded = None, has_sendOverride = False, sendGuard = None,
     wallet_reply = (\<lambda>c. Inl (SendOutcomeUnknownError (ThrownString ''timeout'') None)), date_now = 0\<rparr>"

definition demo_form :: send_state where
  "demo_form = send_init\<lparr>sendTo := ''rX'', sendAmount := ''1'', tagRaw := nat_str 7, showSendModal := True\<rparr>"

definition demo_call :: send_call where
  "demo_call = SendTransaction ''k'' ''rX'' ''1'' None (Some \<lparr>o_destinationTag = Some 7, o_memo = None, o_feeRate = None\<rparr>)"

lemma demo_prepare: "prepare_send demo_env \<lparr>wi_address = ''r'', wi_mnemonic = [], wi_privateKey = ''k''\<rparr> demo_form None None =
    Inr demo_call"
  by (simp add: prepare_send_def guard_passes_def useAccountSend_def shouldUseAccountSend_def
      routeQuotedSend_def quoteMatchesSend_def keyMaterial_def send_options_def parse_tag [THEN iffD2] Let_def
      demo_env_def demo_form_def demo_call_def send_init_def EMPTY_MEMO_def)

lemma demo_wallet: "e_wallet demo_env = Some \<lparr>wi_address = ''r'', wi_mnemonic = [], wi_privateKey = ''k''\<rparr>"
  by (simp add: demo_env_def)

lemma demo_press: "snd (handleSend demo_env None None demo_form) = [demo_call]"
  by (simp add: handleSend_def demo_wallet Let_def prepare_frame demo_prepare split: sum.split)

theorem send_makes_one_faithful_call_witness: "faithful_call demo_env None demo_form demo_call"
  using send_makes_one_faithful_call [OF demo_wallet, of None None demo_form] unfolding demo_press by simp

theorem what_a_press_leaves_witness: "form_cleared (fst (handleSend demo_env None None demo_form))"
proof -
  obtain s' where h: "handleSend demo_env None None demo_form = (s', [demo_call])"
    using demo_press by (metis prod.collapse)
  from what_a_press_leaves [OF demo_wallet this] show ?thesis unfolding h by (simp add: demo_env_def)
qed

lemma demo_press_cleared: "form_cleared (fst (handleSend demo_env None None demo_form))"
  by (rule handleSend_cases [OF demo_wallet, of demo_form None None])
    (use demo_press in \<open>auto simp: demo_env_def send_failed_def form_cleared_def closeSendModal_def\<close>)

theorem modal_opens_blank_witness:
  "tagRaw (send_event_step (foldl send_event_step send_init
     [OpenModal None, TypeTag (nat_str 7), TypeForm ''rX'' ''1'', PressSend demo_env None None])
     (OpenModal (Some ''ZSD''))) = []"
proof -
  let ?es = "[OpenModal None, TypeTag (nat_str 7), TypeForm ''rX'' ''1'', PressSend demo_env None None]"
  have "foldl send_event_step send_init ?es = fst (handleSend demo_env None None demo_form)"
    by (simp add: demo_form_def openSendModal_def send_init_def EMPTY_MEMO_def)
  then have "closeSendModal (foldl send_event_step send_init ?es) = foldl send_event_step send_init ?es"
    using demo_press_cleared by (simp only: form_cleared_def)
  then have "\<not> showSendModal (foldl send_event_step send_init ?es)" by (metis closed_modal)
  from modal_opens_blank [OF this, of "Some ''ZSD''"] show ?thesis by simp
qed

end
