(* ===== verification/QuoteController.thy ===== *)
theory QuoteController
  imports SendFlow
begin

section \<open>Pricing the send being typed: features/send/quoteController.ts\<close>

text \<open>
  The closure of \<open>createQuoteController\<close> as a state, its methods and its two callbacks (the timer and
  the settling of the wallet call) as events. \<open>run\<close> is cut at its \<open>await\<close>: what it captured before
  is \<open>call\<close>, and the rest of it is the event \<open>Settles\<close>. An event that cannot happen in a state (a
  timer that is not set, a reply when nothing was asked) changes nothing. \<open>onChange\<close> only stores the
  snapshot. The fields from \<open>emitted\<close> on are for the statements; no step reads them.
\<close>

subsection \<open>Inputs\<close>

definition QUOTE_DEBOUNCE_MS :: nat where "QUOTE_DEBOUNCE_MS = 600"
definition QUOTE_REFRESH_MS :: nat where "QUOTE_REFRESH_MS = 60000"

datatype QuoteMode = Auto | OnRequest

definition quoteModeFor :: "adapter \<Rightarrow> QuoteMode" where
  "quoteModeFor ad = (if quoteBuildsSpend ad = Some True then OnRequest else Auto)"

record QuoteInputs =
  i_to :: string
  i_amount :: string
  i_assetType :: "string option"

record QuoteFailure =
  f_kind :: SendQuoteErrorKind
  f_message :: string
  f_definitive :: bool

record QuoteSnapshot =
  inputs :: "QuoteInputs option"
  quote :: "SendQuote option"
  failure :: "QuoteFailure option"
  pending :: bool

definition EMPTY_QUOTE :: QuoteSnapshot where
  "EMPTY_QUOTE = \<lparr>inputs = None, quote = None, failure = None, pending = False\<rparr>"

definition DECIMAL_RX :: rx where
  "DECIMAL_RX = Cat [AtStart, plus digit, opt (Cat [lit ''.'', plus digit]), AtEnd]"

definition quotableInputs :: "string \<Rightarrow> string \<Rightarrow> string option \<Rightarrow> QuoteInputs option" where
  "quotableInputs to amount assetType =
     (let t = js_trim to; a = js_trim amount
      in if length t < 26 \<or> list_ex js_space t then None
         else if \<not> rx_test False DECIMAL_RX a \<or> \<not> list_ex (\<lambda>c. is_digit c \<and> c \<noteq> CHR ''0'') a then None
         else Some \<lparr>i_to = t, i_amount = a, i_assetType = assetType\<rparr>)"

definition sameInputs :: "QuoteInputs option \<Rightarrow> QuoteInputs option \<Rightarrow> bool" where
  "sameInputs a b =
     (case (a, b) of
        (Some x, Some y) \<Rightarrow> i_to x = i_to y \<and> i_amount x = i_amount y \<and> i_assetType x = i_assetType y
      | (None, None) \<Rightarrow> True
      | _ \<Rightarrow> False)"

fun quote_thrown_value :: "quote_thrown \<Rightarrow> thrown" where
  "quote_thrown_value (SendQuoteError _ m) = ThrownError m"
| "quote_thrown_value (NotAQuoteError t) = t"

definition describeQuoteFailure :: "quote_thrown \<Rightarrow> QuoteFailure" where
  "describeQuoteFailure e =
     \<lparr>f_kind = quoteErrorKind e,
      f_message = errorText (quote_thrown_value e) ''The wallet could not price this send.'',
      f_definitive = isDefinitiveQuoteError e\<rparr>"

subsection \<open>The controller\<close>

record controller =
  snap :: QuoteSnapshot
  timer :: "nat option"
  generation :: nat
  inFlight :: bool
  inFlightInputs :: "QuoteInputs option"
  rerun :: bool
  disposed :: bool
  lastBuild :: "(QuoteInputs \<times> SendQuote) option"
  forgetCount :: nat
  call :: "(QuoteInputs \<times> nat \<times> nat) option"
  emitted :: "QuoteSnapshot list"
  calls :: "QuoteInputs list"
  answers :: "(QuoteInputs \<times> SendQuote) list"
  settles :: nat
  requests :: nat

definition createQuoteController :: controller where
  "createQuoteController =
     \<lparr>snap = EMPTY_QUOTE, timer = None, generation = 0, inFlight = False, inFlightInputs = None, rerun = False,
      disposed = False, lastBuild = None, forgetCount = 0, call = None,
      emitted = [], calls = [], answers = [], settles = 0, requests = 0\<rparr>"

definition emit :: "QuoteSnapshot \<Rightarrow> controller \<Rightarrow> controller" where
  "emit next s = s\<lparr>snap := next, emitted := (if disposed s then emitted s else next # emitted s)\<rparr>"

definition clear :: "controller \<Rightarrow> controller" where "clear s = s\<lparr>timer := None\<rparr>"

definition schedule :: "nat \<Rightarrow> controller \<Rightarrow> controller" where "schedule ms s = (clear s)\<lparr>timer := Some ms\<rparr>"

text \<open>The part of \<open>run\<close> from \<open>inFlight = true\<close> to the wallet call.\<close>

definition start :: "QuoteInputs \<Rightarrow> controller \<Rightarrow> controller" where
  "start i s =
     (let s1 = s\<lparr>inFlight := True, rerun := False, inFlightInputs := Some i,
                 call := Some (i, generation s, forgetCount s)\<rparr>;
          s2 = (if \<not> pending (snap s1) then emit ((snap s1)\<lparr>pending := True\<rparr>) s1 else s1)
      in s2\<lparr>calls := i # calls s2\<rparr>)"

definition run :: "QuoteMode \<Rightarrow> controller \<Rightarrow> controller" where
  "run mode s =
     (case inputs (snap s) of
        None \<Rightarrow> s
      | Some i \<Rightarrow>
          if disposed s then s
          else if inFlight s then
            if mode = OnRequest \<and> sameInputs (inFlightInputs s) (Some i) then s
            else let s1 = s\<lparr>rerun := True\<rparr>
                 in if mode = OnRequest \<and> \<not> pending (snap s1) then emit ((snap s1)\<lparr>pending := True\<rparr>) s1 else s1
          else case lastBuild s of
                 Some (j, q) \<Rightarrow>
                   if mode = OnRequest \<and> sameInputs (Some j) (Some i)
                   then emit \<lparr>inputs = Some i, quote = Some q, failure = None, pending = False\<rparr> s
                   else start i s
               | None \<Rightarrow> start i s)"

definition settled :: "QuoteInputs \<Rightarrow> quote_thrown + SendQuote \<Rightarrow> QuoteSnapshot" where
  "settled i r =
     (case r of
        Inr q \<Rightarrow> \<lparr>inputs = Some i, quote = Some q, failure = None, pending = False\<rparr>
      | Inl e \<Rightarrow> \<lparr>inputs = Some i, quote = None, failure = Some (describeQuoteFailure e), pending = False\<rparr>)"

text \<open>The \<open>try\<close> and its \<open>finally\<close>: what is remembered, and that nothing is in flight.\<close>

definition land :: "QuoteMode \<Rightarrow> QuoteInputs \<Rightarrow> nat \<Rightarrow> quote_thrown + SendQuote \<Rightarrow> controller \<Rightarrow> controller" where
  "land mode i forgets r s =
     (let s1 = (case r of
          Inl _ \<Rightarrow> s
        | Inr q \<Rightarrow>
            s\<lparr>lastBuild := (if mode = OnRequest \<and> forgets = forgetCount s then Some (i, q) else lastBuild s),
              answers := (i, q) # answers s\<rparr>)
      in s1\<lparr>inFlight := False, inFlightInputs := None, call := None, settles := settles s1 + 1\<rparr>)"

text \<open>The rest of \<open>run\<close>, after the wallet call has settled.\<close>

definition settle :: "QuoteMode \<Rightarrow> quote_thrown + SendQuote \<Rightarrow> controller \<Rightarrow> controller" where
  "settle mode r s =
     (case call s of
        None \<Rightarrow> s
      | Some (i, gen, forgets) \<Rightarrow>
          let s2 = land mode i forgets r s
          in if disposed s2 then s2
             else if rerun s2 then run mode (s2\<lparr>rerun := False\<rparr>)
             else if gen \<noteq> generation s2 then s2
             else let s3 = emit (settled i r) s2
                  in if mode = Auto then schedule QUOTE_REFRESH_MS s3 else s3)"

definition request_build :: "controller \<Rightarrow> controller" where
  "request_build s =
     (if disposed s \<or> inputs (snap s) = None then s
      else if quote (snap s) \<noteq> None then s
      else run OnRequest s)"

definition reprice :: "controller \<Rightarrow> controller" where
  "reprice s =
     (if disposed s \<or> inputs (snap s) = None then s
      else run Auto (clear (s\<lparr>generation := generation s + 1\<rparr>)))"

definition setInputs :: "QuoteMode \<Rightarrow> QuoteInputs option \<Rightarrow> controller \<Rightarrow> controller" where
  "setInputs mode next s =
     (if disposed s \<or> sameInputs next (inputs (snap s)) then s
      else let s1 = clear (s\<lparr>generation := generation s + 1\<rparr>)
           in if next = None then emit EMPTY_QUOTE s1
              else if mode = OnRequest
              then emit \<lparr>inputs = next, quote = None, failure = None, pending = False\<rparr> (s1\<lparr>rerun := False\<rparr>)
              else schedule QUOTE_DEBOUNCE_MS
                     (emit \<lparr>inputs = next, quote = None, failure = None, pending = True\<rparr> s1))"

definition retry :: "QuoteMode \<Rightarrow> controller \<Rightarrow> controller" where
  "retry mode s = (if mode = OnRequest then request_build s else reprice s)"

definition request :: "QuoteMode \<Rightarrow> controller \<Rightarrow> controller" where
  "request mode s = (if mode = Auto then reprice s else request_build s)"

definition discard :: "controller \<Rightarrow> controller" where
  "discard s =
     (if disposed s then s
      else let s1 = clear (s\<lparr>lastBuild := None, forgetCount := forgetCount s + 1, generation := generation s + 1\<rparr>)
           in if quote (snap s1) \<noteq> None \<or> failure (snap s1) \<noteq> None \<or> pending (snap s1)
              then emit \<lparr>inputs = inputs (snap s1), quote = None, failure = None, pending = False\<rparr> s1
              else s1)"

definition dispose :: "controller \<Rightarrow> controller" where
  "dispose s = clear (s\<lparr>disposed := True, generation := generation s + 1\<rparr>)"

datatype quote_event =
    SetInputs "QuoteInputs option"
  | Retry
  | Request
  | Discard
  | Dispose
  | TimerFires
  | Settles "quote_thrown + SendQuote"

fun quote_step :: "QuoteMode \<Rightarrow> controller \<Rightarrow> quote_event \<Rightarrow> controller" where
  "quote_step mode s (SetInputs next) = setInputs mode next s"
| "quote_step mode s Retry = retry mode (s\<lparr>requests := requests s + 1\<rparr>)"
| "quote_step mode s Request = request mode (s\<lparr>requests := requests s + 1\<rparr>)"
| "quote_step mode s Discard = discard s"
| "quote_step mode s Dispose = dispose s"
| "quote_step mode s TimerFires = (if timer s = None then s else run mode (s\<lparr>timer := None\<rparr>))"
| "quote_step mode s (Settles r) = settle mode r s"

subsection \<open>What every event keeps\<close>

lemma sameInputs_iff [simp]: "sameInputs a b \<longleftrightarrow> a = b"
  by (cases a; cases b) (auto simp: sameInputs_def)

text \<open>A quote is shown only with the inputs it answers.\<close>

definition shown_ok :: "(QuoteInputs \<times> SendQuote) list \<Rightarrow> QuoteSnapshot \<Rightarrow> bool" where
  "shown_ok as p \<longleftrightarrow> (\<forall>q. quote p = Some q \<longrightarrow> (\<exists>i. inputs p = Some i \<and> (i, q) \<in> set as))"

lemma shown_ok_more: "shown_ok as p \<Longrightarrow> shown_ok (a # as) p"
  by (auto simp: shown_ok_def)

lemma shown_ok_simps [simp]:
  "shown_ok as (p\<lparr>pending := b\<rparr>) = shown_ok as p"
  "shown_ok as \<lparr>inputs = i, quote = None, failure = f, pending = b\<rparr>"
  "shown_ok as \<lparr>inputs = Some j, quote = Some q, failure = f, pending = b\<rparr> \<longleftrightarrow> (j, q) \<in> set as"
  by (simp_all add: shown_ok_def)

text \<open>The call in flight, the history, and the promise that what is pending will come.\<close>

definition flight_ok :: "controller \<Rightarrow> bool" where
  "flight_ok s \<longleftrightarrow>
     (inFlight s \<longleftrightarrow> call s \<noteq> None) \<and> inFlightInputs s = map_option fst (call s) \<and>
     (\<forall>i g f. call s = Some (i, g, f) \<longrightarrow> g \<le> generation s \<and> (g = generation s \<longrightarrow> inputs (snap s) = Some i)) \<and>
     length (calls s) = settles s + (if inFlight s then 1 else 0)"

definition history_ok :: "controller \<Rightarrow> bool" where
  "history_ok s \<longleftrightarrow>
     shown_ok (answers s) (snap s) \<and> list_all (shown_ok (answers s)) (emitted s) \<and>
     (\<forall>b. lastBuild s = Some b \<longrightarrow> b \<in> set (answers s))"

definition coming :: "controller \<Rightarrow> bool" where
  "coming s \<longleftrightarrow> timer s \<noteq> None \<or> (\<exists>i g f. call s = Some (i, g, f) \<and> (rerun s \<or> g = generation s))"

definition promise_ok :: "QuoteMode \<Rightarrow> controller \<Rightarrow> bool" where
  "promise_ok mode s \<longleftrightarrow>
     (pending (snap s) \<longrightarrow> inputs (snap s) \<noteq> None \<and> (disposed s \<or> coming s)) \<and>
     (mode = OnRequest \<longrightarrow> timer s = None \<and> length (calls s) + (if rerun s then 1 else 0) \<le> requests s) \<and>
     (mode = Auto \<and> forgetCount s = 0 \<and> inputs (snap s) \<noteq> None \<longrightarrow> disposed s \<or> coming s)"

definition controller_good :: "QuoteMode \<Rightarrow> controller \<Rightarrow> bool" where
  "controller_good mode s \<longleftrightarrow> flight_ok s \<and> history_ok s \<and> promise_ok mode s"

lemma good_init: "controller_good mode createQuoteController"
  by (simp add: controller_good_def createQuoteController_def EMPTY_QUOTE_def flight_ok_def history_ok_def promise_ok_def)

text \<open>What \<open>run\<close> needs: all of it but the promise that an answer is coming, and a request to spend.\<close>

definition ready :: "QuoteMode \<Rightarrow> controller \<Rightarrow> bool" where
  "ready mode s \<longleftrightarrow>
     (pending (snap s) \<longrightarrow> inputs (snap s) \<noteq> None) \<and>
     (mode = OnRequest \<longrightarrow> timer s = None \<and> length (calls s) + 1 \<le> requests s \<and>
        (inFlight s \<and> pending (snap s) \<longrightarrow> disposed s \<or> coming s))"

lemma run_cases [consumes 1, case_names none gone same queue again start]:
  assumes "flight_ok s"
  obtains "inputs (snap s) = None" "run mode s = s"
  | "disposed s" "run mode s = s"
  | i g f where "\<not> disposed s" "mode = OnRequest" "inputs (snap s) = Some i" "call s = Some (i, g, f)" "run mode s = s"
  | i j g f where "\<not> disposed s" "inputs (snap s) = Some i" "call s = Some (j, g, f)" "mode = OnRequest \<longrightarrow> j \<noteq> i"
      "run mode s = (if mode = OnRequest \<and> \<not> pending (snap s) then emit ((snap s)\<lparr>pending := True\<rparr>) (s\<lparr>rerun := True\<rparr>)
                     else s\<lparr>rerun := True\<rparr>)"
  | i q where "\<not> disposed s" "inputs (snap s) = Some i" "call s = None" "mode = OnRequest" "lastBuild s = Some (i, q)"
      "run mode s = emit \<lparr>inputs = Some i, quote = Some q, failure = None, pending = False\<rparr> s"
  | i where "\<not> disposed s" "inputs (snap s) = Some i" "call s = None" "run mode s = start i s"
proof (cases "inputs (snap s)")
  case None
  then show ?thesis using that(1) by (simp add: run_def)
next
  case (Some i)
  show ?thesis
  proof (cases "disposed s")
    case True
    then show ?thesis using that(2) Some by (simp add: run_def)
  next
    case live: False
    show ?thesis
    proof (cases "call s")
      case None
      then have "\<not> inFlight s" using assms by (simp add: flight_ok_def)
      then show ?thesis using that(5,6) Some live None
        by (cases "lastBuild s"; cases "mode = OnRequest \<and> fst (the (lastBuild s)) = i") (auto simp: run_def)
    next
      case c: (Some cl)
      obtain j g f where cl: "cl = (j, g, f)" by (cases cl)
      have "inFlight s" "inFlightInputs s = Some j" using assms c cl by (auto simp: flight_ok_def)
      then show ?thesis using that(3,4) Some live c cl
        by (cases "mode = OnRequest \<and> j = i") (auto simp: run_def Let_def)
    qed
  qed
qed

lemma start_simps:
  "snap (start i s) = (snap s)\<lparr>pending := True\<rparr>" "timer (start i s) = timer s" "generation (start i s) = generation s"
  "inFlight (start i s)" "inFlightInputs (start i s) = Some i" "\<not> rerun (start i s)"
  "disposed (start i s) = disposed s" "lastBuild (start i s) = lastBuild s" "forgetCount (start i s) = forgetCount s"
  "call (start i s) = Some (i, generation s, forgetCount s)" "calls (start i s) = i # calls s"
  "answers (start i s) = answers s" "settles (start i s) = settles s" "requests (start i s) = requests s"
  "emitted (start i s) = (if pending (snap s) \<or> disposed s then emitted s else (snap s)\<lparr>pending := True\<rparr> # emitted s)"
  by (simp_all add: start_def emit_def Let_def)

lemma controller_run_good:
  assumes "flight_ok s" "history_ok s" "ready mode s" shows "controller_good mode (run mode s)"
  using assms(1)
proof (cases rule: run_cases [where mode = mode])
  case none
  then show ?thesis using assms by (auto simp: controller_good_def ready_def promise_ok_def)
next
  case gone
  then show ?thesis using assms by (auto simp: controller_good_def ready_def promise_ok_def)
next
  case (same i g f)
  then show ?thesis using assms by (auto simp: controller_good_def ready_def promise_ok_def flight_ok_def)
next
  case (queue i j g f)
  then show ?thesis using assms
    by (auto simp: controller_good_def ready_def promise_ok_def flight_ok_def history_ok_def emit_def coming_def)
next
  case (again i q)
  then show ?thesis using assms
    by (auto simp: controller_good_def ready_def promise_ok_def flight_ok_def history_ok_def emit_def)
next
  case (start i)
  then show ?thesis using assms
    by (auto simp: controller_good_def ready_def promise_ok_def flight_ok_def history_ok_def start_simps coming_def)
qed

lemma reprice_good: "controller_good Auto s \<Longrightarrow> controller_good Auto (reprice s)"
  unfolding reprice_def
  by (auto intro!: controller_run_good simp: clear_def)
    (auto simp: ready_def controller_good_def flight_ok_def history_ok_def)

lemma more_requests_good: "controller_good mode s \<Longrightarrow> controller_good mode (s\<lparr>requests := Suc (requests s)\<rparr>)"
  by (auto simp: controller_good_def flight_ok_def history_ok_def promise_ok_def coming_def)

lemma request_build_good:
  assumes "controller_good OnRequest s"
  shows "controller_good OnRequest (request_build (s\<lparr>requests := Suc (requests s)\<rparr>))"
proof -
  have "controller_good OnRequest (run OnRequest (s\<lparr>requests := Suc (requests s)\<rparr>))"
    using assms by (intro controller_run_good)
      (auto simp: ready_def controller_good_def flight_ok_def history_ok_def promise_ok_def coming_def split: if_splits)
  then show ?thesis using more_requests_good [OF assms] by (simp add: request_build_def)
qed

lemma timer_good:
  "controller_good mode s \<Longrightarrow> timer s \<noteq> None \<Longrightarrow> controller_good mode (run mode (s\<lparr>timer := None\<rparr>))"
  by (rule controller_run_good) (auto simp: ready_def controller_good_def flight_ok_def history_ok_def promise_ok_def)

lemma setInputs_good:
  assumes g: "controller_good mode s" shows "controller_good mode (setInputs mode next s)"
proof (cases "disposed s \<or> sameInputs next (inputs (snap s))")
  case True
  then show ?thesis using g by (simp add: setInputs_def)
next
  case False
  let ?u = "setInputs mode next s"
  have u: "generation ?u = generation s + 1" "inFlight ?u = inFlight s" "inFlightInputs ?u = inFlightInputs s"
      "call ?u = call s" "calls ?u = calls s" "settles ?u = settles s" "lastBuild ?u = lastBuild s"
      "answers ?u = answers s" "requests ?u = requests s" "quote (snap ?u) = None" "emitted ?u = snap ?u # emitted s"
      "inputs (snap ?u) = next" "pending (snap ?u) \<longleftrightarrow> mode = Auto \<and> next \<noteq> None"
      "timer ?u = (if mode = Auto \<and> next \<noteq> None then Some QUOTE_DEBOUNCE_MS else None)"
      "rerun ?u = (rerun s \<and> (mode = Auto \<or> next = None))"
    using False by (cases mode; cases "next"; simp add: setInputs_def clear_def emit_def schedule_def EMPTY_QUOTE_def Let_def)+
  have "flight_ok ?u" using g by (auto simp: controller_good_def flight_ok_def u)
  moreover have "history_ok ?u" using g by (auto simp: controller_good_def history_ok_def u shown_ok_def)
  moreover have "promise_ok mode ?u"
  proof -
    have "coming ?u" if "mode = Auto" "next \<noteq> None" using that unfolding coming_def u by auto
    moreover have "length (calls s) + (if rerun s then 1 else 0) \<le> requests s" if "mode = OnRequest"
      using that g by (simp add: controller_good_def promise_ok_def)
    ultimately show ?thesis unfolding promise_ok_def u by (cases mode) auto
  qed
  ultimately show ?thesis by (simp add: controller_good_def)
qed

lemma discard_good:
  assumes g: "controller_good mode s" shows "controller_good mode (discard s)"
proof (cases "disposed s")
  case True
  then show ?thesis using g by (simp add: discard_def)
next
  case False
  let ?u = "discard s"
  have u: "generation ?u = generation s + 1" "inFlight ?u = inFlight s" "inFlightInputs ?u = inFlightInputs s"
      "call ?u = call s" "calls ?u = calls s" "settles ?u = settles s" "lastBuild ?u = None" "answers ?u = answers s"
      "requests ?u = requests s" "forgetCount ?u = forgetCount s + 1" "\<not> pending (snap ?u)" "timer ?u = None"
      "rerun ?u = rerun s" "inputs (snap ?u) = inputs (snap s)" "quote (snap ?u) = None"
    using False by (auto simp: discard_def clear_def emit_def Let_def)
  have e: "emitted ?u = emitted s \<or> emitted ?u = snap ?u # emitted s"
    using False by (auto simp: discard_def clear_def emit_def Let_def)
  have "flight_ok ?u" using g by (auto simp: controller_good_def flight_ok_def u)
  moreover have "shown_ok (answers ?u) (snap ?u)" by (simp add: shown_ok_def u)
  then have "history_ok ?u" using g e by (auto simp: controller_good_def history_ok_def u)
  moreover have "promise_ok mode ?u" using g by (auto simp: controller_good_def promise_ok_def u split: if_splits)
  ultimately show ?thesis by (simp add: controller_good_def)
qed

lemma dispose_good: "controller_good mode s \<Longrightarrow> controller_good mode (dispose s)"
  by (auto simp: dispose_def clear_def controller_good_def flight_ok_def history_ok_def promise_ok_def)

lemma land_simps:
  "snap (land mode i f r s) = snap s" "timer (land mode i f r s) = timer s" "generation (land mode i f r s) = generation s"
  "\<not> inFlight (land mode i f r s)" "inFlightInputs (land mode i f r s) = None" "rerun (land mode i f r s) = rerun s"
  "disposed (land mode i f r s) = disposed s" "forgetCount (land mode i f r s) = forgetCount s"
  "call (land mode i f r s) = None" "calls (land mode i f r s) = calls s" "emitted (land mode i f r s) = emitted s"
  "settles (land mode i f r s) = settles s + 1" "requests (land mode i f r s) = requests s"
  "answers (land mode i f r s) = (case r of Inl e \<Rightarrow> answers s | Inr q \<Rightarrow> (i, q) # answers s)"
  by (simp_all add: land_def Let_def split: sum.split)

lemma land_history: "history_ok s \<Longrightarrow> history_ok (land mode i f r s)"
  by (auto simp: history_ok_def land_def Let_def list_all_iff shown_ok_more split: sum.split)

lemma land_flight: "flight_ok s \<Longrightarrow> call s \<noteq> None \<Longrightarrow> flight_ok (land mode i f r s)"
  by (auto simp: flight_ok_def land_simps)

lemma settle_good:
  assumes "controller_good mode s" shows "controller_good mode (settle mode r s)"
proof (cases "call s")
  case (Some c)
  obtain i g f where c: "c = (i, g, f)" by (cases c)
  let ?u = "land mode i f r s"
  have h: "history_ok ?u" "flight_ok ?u" using assms Some by (auto simp: controller_good_def land_history land_flight)
  have u: "settle mode r s = (if disposed ?u then ?u else if rerun ?u then run mode (?u\<lparr>rerun := False\<rparr>)
      else if g \<noteq> generation ?u then ?u
      else let s3 = emit (settled i r) ?u in if mode = Auto then schedule QUOTE_REFRESH_MS s3 else s3)"
    using Some c by (simp add: settle_def Let_def)
  consider (gone) "disposed s" | (rerun) "\<not> disposed s" "rerun s"
    | (stale) "\<not> disposed s" "\<not> rerun s" "g \<noteq> generation s"
    | (shown) "\<not> disposed s" "\<not> rerun s" "g = generation s" by blast
  then show ?thesis
  proof cases
    case gone
    then show ?thesis using assms h
      by (auto simp: u land_simps controller_good_def promise_ok_def)
  next
    case rerun
    have "controller_good mode (run mode (?u\<lparr>rerun := False\<rparr>))"
    proof (rule controller_run_good)
      show "flight_ok (?u\<lparr>rerun := False\<rparr>)" using h(2) by (simp add: flight_ok_def)
      show "history_ok (?u\<lparr>rerun := False\<rparr>)" using h(1) by (simp add: history_ok_def)
      show "ready mode (?u\<lparr>rerun := False\<rparr>)" using assms rerun
        by (auto simp: ready_def land_simps controller_good_def promise_ok_def)
    qed
    then show ?thesis using rerun by (simp add: u land_simps)
  next
    case stale
    then show ?thesis using assms h Some c
      by (auto simp: u land_simps controller_good_def promise_ok_def coming_def)
  next
    case shown
    have i: "inputs (snap s) = Some i" using assms Some c shown by (simp add: controller_good_def flight_ok_def)
    have "history_ok (emit (settled i r) ?u)"
      using h(1) by (auto simp: history_ok_def emit_def settled_def land_simps split: sum.split)
    moreover have "flight_ok (emit (settled i r) ?u)" using h(2) by (simp add: flight_ok_def emit_def land_simps)
    moreover have "\<not> pending (settled i r)" "inputs (settled i r) = Some i" by (auto simp: settled_def split: sum.split)
    ultimately show ?thesis using assms shown i
      by (auto simp: u land_simps controller_good_def promise_ok_def Let_def schedule_def clear_def emit_def
          flight_ok_def history_ok_def coming_def)
  qed
qed (use assms in \<open>simp add: settle_def\<close>)

lemma quote_step_good: "controller_good mode s \<Longrightarrow> controller_good mode (quote_step mode s e)"
proof (cases e)
  case Retry
  assume "controller_good mode s"
  then show ?thesis unfolding Retry
    by (cases mode) (simp_all add: retry_def request_build_good reprice_good more_requests_good)
next
  case Request
  assume "controller_good mode s"
  then show ?thesis unfolding Request
    by (cases mode) (simp_all add: request_def request_build_good reprice_good more_requests_good)
qed (auto simp: setInputs_good discard_good dispose_good settle_good timer_good)

interpretation pricing: event_machine "quote_step mode" "controller_good mode" for mode
  by unfold_locales (rule quote_step_good)

definition session :: "QuoteMode \<Rightarrow> quote_event list \<Rightarrow> controller" where
  "session mode es = foldl (quote_step mode) createQuoteController es"

lemma session_good: "controller_good mode (session mode es)"
  unfolding session_def by (rule pricing.run_good [OF good_init])

text \<open>The inputs the modal last gave, as long as the controller lives.\<close>

fun modal_step :: "bool \<times> QuoteInputs option \<Rightarrow> quote_event \<Rightarrow> bool \<times> QuoteInputs option" where
  "modal_step (gone, i) (SetInputs next) = (gone, if gone then i else next)"
| "modal_step (gone, i) Dispose = (True, i)"
| "modal_step (gone, i) _ = (gone, i)"

lemma run_inputs:
  assumes "flight_ok s"
  shows "inputs (snap (run mode s)) = inputs (snap s)" "disposed (run mode s) = disposed s"
  using assms by (cases rule: run_cases [where mode = mode]; simp add: emit_def start_simps)+

lemma step_inputs:
  assumes g: "controller_good mode s"
  shows "(disposed (quote_step mode s e), inputs (snap (quote_step mode s e))) = modal_step (disposed s, inputs (snap s)) e"
proof (cases e)
  case (Settles r)
  show ?thesis
  proof (cases "call s")
    case (Some c)
    obtain i gen f where c: "c = (i, gen, f)" by (cases c)
    have l: "flight_ok ((land mode i f r s)\<lparr>rerun := False\<rparr>)" and i: "gen = generation s \<longrightarrow> inputs (snap s) = Some i"
      using g Some c land_flight [of s mode i f r] by (auto simp: controller_good_def flight_ok_def)
    show ?thesis using Some c i run_inputs [OF l, of mode]
      by (auto simp: Settles settle_def land_simps emit_def schedule_def clear_def Let_def settled_def split: sum.split)
  qed (simp add: Settles settle_def)
next
  case TimerFires
  have "flight_ok (s\<lparr>timer := None\<rparr>)" using g by (simp add: controller_good_def flight_ok_def)
  then show ?thesis using run_inputs [of "s\<lparr>timer := None\<rparr>" mode] by (simp add: TimerFires)
next
  case Retry
  have "flight_ok (s\<lparr>requests := k\<rparr>)" "flight_ok (clear (s\<lparr>requests := k, generation := generation s + 1\<rparr>))" for k
    using g by (auto simp: controller_good_def flight_ok_def clear_def)
  then show ?thesis by (auto simp: Retry retry_def request_build_def reprice_def run_inputs) (simp_all add: clear_def)
next
  case Request
  have "flight_ok (s\<lparr>requests := k\<rparr>)" "flight_ok (clear (s\<lparr>requests := k, generation := generation s + 1\<rparr>))" for k
    using g by (auto simp: controller_good_def flight_ok_def clear_def)
  then show ?thesis by (auto simp: Request request_def request_build_def reprice_def run_inputs) (simp_all add: clear_def)
qed (auto simp: setInputs_def discard_def dispose_def emit_def clear_def schedule_def EMPTY_QUOTE_def Let_def)

lemma session_inputs:
  "(disposed (session mode es), inputs (snap (session mode es))) = foldl modal_step (False, None) es"
proof (induction es rule: rev_induct)
  case (snoc e es)
  have "session mode (es @ [e]) = quote_step mode (session mode es) e" by (simp add: session_def)
  then show ?case using step_inputs [OF session_good, of mode es e] snoc.IH by simp
qed (simp add: session_def createQuoteController_def EMPTY_QUOTE_def)

text \<open>C28. However edits, requests, timers and replies fall, a quote is only ever shown with the inputs the
  wallet was asked to price when it gave that quote; what is shown is for the inputs the modal
  last gave; and the wallet is never asked twice at once.\<close>

theorem shown_quote_answers_shown_inputs:
  "list_all (\<lambda>p. case quote p of None \<Rightarrow> True
       | Some q \<Rightarrow> (case inputs p of None \<Rightarrow> False | Some i \<Rightarrow> (i, q) \<in> set (answers (session mode es))))
     (snap (session mode es) # emitted (session mode es)) \<and>
   inputs (snap (session mode es)) = snd (foldl modal_step (False, None) es) \<and>
   length (calls (session mode es)) = settles (session mode es) + (if inFlight (session mode es) then 1 else 0)"
proof (intro conjI)
  show "inputs (snap (session mode es)) = snd (foldl modal_step (False, None) es)"
    using session_inputs [of mode es] by (metis snd_conv)
qed (use session_good [of mode es] in \<open>force simp: controller_good_def history_ok_def flight_ok_def list_all_iff
      shown_ok_def split: option.split\<close>)+

subsection \<open>Builds on request\<close>

lemma run_requests [simp]: "requests (run mode s) = requests s"
  by (simp add: run_def emit_def start_simps Let_def split: option.split prod.split)

lemma settle_requests [simp]: "requests (settle mode r s) = requests s"
  by (simp add: settle_def emit_def schedule_def clear_def land_simps Let_def split: option.split prod.split)

lemma step_requests:
  "requests (quote_step mode s e) = requests s + (if e = Retry \<or> e = Request then 1 else 0)"
  by (cases e) (simp_all add: setInputs_def retry_def request_def request_build_def reprice_def discard_def dispose_def
      emit_def schedule_def clear_def Let_def)

lemma session_requests: "requests (session mode es) = length (filter (\<lambda>e. e = Retry \<or> e = Request) es)"
proof (induction es rule: rev_induct)
  case (snoc e es)
  then show ?case by (simp add: session_def step_requests)
qed (simp add: session_def createQuoteController_def)

text \<open>Where a quote builds the spend, no edit and no timer builds anything: the wallet is asked to build
  at most once for each press of Review or Retry, and no timer is ever set.\<close>

theorem builds_only_on_request:
  "length (calls (session OnRequest es)) \<le> length (filter (\<lambda>e. e = Retry \<or> e = Request) es) \<and>
   timer (session OnRequest es) = None"
  using session_good [of OnRequest es]
  by (auto simp: controller_good_def promise_ok_def session_requests split: if_splits)

subsection \<open>What is pending comes\<close>

text \<open>The next thing that happens while the user does nothing: the call settles, else the timer fires.\<close>

definition next_internal :: "QuoteMode \<Rightarrow> quote_thrown + SendQuote \<Rightarrow> controller \<Rightarrow> controller" where
  "next_internal mode r s = quote_step mode s (if inFlight s then Settles r else TimerFires)"

definition fresh_call :: "controller \<Rightarrow> bool" where
  "fresh_call s \<longleftrightarrow> (\<exists>i f. call s = Some (i, generation s, f)) \<and> inFlight s \<and> \<not> rerun s \<and> \<not> disposed s"

lemma settled_simps: "\<not> pending (settled i r)" "inputs (settled i r) = Some i"
  by (simp_all add: settled_def split: sum.split)

lemma fresh_call_shown: "fresh_call s \<Longrightarrow> \<not> pending (snap (next_internal mode r s))"
  by (cases mode)
    (auto simp: fresh_call_def next_internal_def settle_def land_simps emit_def schedule_def clear_def settled_simps Let_def)

lemma two_le_three: "(2 :: nat) \<le> 3" by simp

lemma two_steps:
  assumes "\<not> pending (snap (next_internal mode r s)) \<or> fresh_call (next_internal mode r s)"
  shows "\<exists>n \<le> 2. \<not> pending (snap ((next_internal mode r ^^ n) s))"
  using assms
proof
  assume "\<not> pending (snap (next_internal mode r s))"
  then show ?thesis by (intro exI [of _ 1]) simp
next
  assume "fresh_call (next_internal mode r s)"
  then show ?thesis by (intro exI [of _ 2]) (simp add: numeral_2_eq_2 fresh_call_shown)
qed

lemma run_fresh:
  assumes "flight_ok s" "call s = None" "\<not> disposed s" "inputs (snap s) \<noteq> None"
  shows "\<not> pending (snap (run mode s)) \<or> fresh_call (run mode s)"
  using assms(1) by (cases rule: run_cases [where mode = mode])
    (use assms(2-4) in \<open>auto simp: fresh_call_def start_simps emit_def\<close>)

lemma timer_shown:
  assumes "controller_good mode s" "pending (snap s)" "\<not> disposed s" "call s = None"
  shows "\<exists>n \<le> 2. \<not> pending (snap ((next_internal mode r ^^ n) s))"
proof -
  have t: "timer s \<noteq> None" "inputs (snap s) \<noteq> None" "\<not> inFlight s" "flight_ok s"
    using assms by (auto simp: controller_good_def promise_ok_def coming_def flight_ok_def)
  then have n: "next_internal mode r s = run mode (s\<lparr>timer := None\<rparr>)" by (auto simp: next_internal_def)
  have "flight_ok (s\<lparr>timer := None\<rparr>)" using t(4) by (simp add: flight_ok_def)
  then have "\<not> pending (snap (next_internal mode r s)) \<or> fresh_call (next_internal mode r s)"
    unfolding n using assms(3,4) t(2) by (intro run_fresh) simp_all
  then show ?thesis by (rule two_steps)
qed

lemma pending_comes:
  assumes g: "controller_good mode s" and p: "pending (snap s)" "\<not> disposed s"
  shows "\<exists>n \<le> 3. \<not> pending (snap ((next_internal mode r ^^ n) s))"
proof (cases "call s")
  case None
  then show ?thesis using timer_shown [OF g p, of r] by (meson le_trans two_le_three)
next
  case (Some c)
  obtain i gen f where c: "c = (i, gen, f)" by (cases c)
  have t: "inputs (snap s) \<noteq> None" "inFlight s" "rerun s \<or> gen = generation s \<or> timer s \<noteq> None"
    using g p Some c by (auto simp: controller_good_def promise_ok_def coming_def flight_ok_def)
  then have n: "next_internal mode r s = settle mode r s" by (simp add: next_internal_def)
  consider (again) "rerun s" | (now) "\<not> rerun s" "gen = generation s"
    | (stale) "\<not> rerun s" "gen \<noteq> generation s" "timer s \<noteq> None" using t(3) by blast
  then show ?thesis
  proof cases
    case again
    let ?u = "(land mode i f r s)\<lparr>rerun := False\<rparr>"
    have "next_internal mode r s = run mode ?u"
      using Some c again p by (simp add: n settle_def land_simps Let_def)
    moreover have "flight_ok ?u" using g Some by (auto simp: controller_good_def flight_ok_def land_simps)
    then have "\<not> pending (snap (run mode ?u)) \<or> fresh_call (run mode ?u)"
      using p t(1) by (intro run_fresh) (simp_all add: land_simps)
    ultimately have "\<exists>n \<le> 2. \<not> pending (snap ((next_internal mode r ^^ n) s))" by (intro two_steps) simp
    then show ?thesis by (meson le_trans two_le_three)
  next
    case now
    then have "fresh_call s" using Some c t(2) p by (simp add: fresh_call_def)
    then show ?thesis by (intro exI [of _ 1]) (simp add: fresh_call_shown)
  next
    case stale
    have u: "next_internal mode r s = land mode i f r s"
      using Some c stale p by (simp add: n settle_def land_simps Let_def)
    have "controller_good mode (next_internal mode r s)" unfolding next_internal_def by (rule quote_step_good [OF g])
    then obtain k where "k \<le> 2" "\<not> pending (snap ((next_internal mode r ^^ k) (next_internal mode r s)))"
      using timer_shown [of mode "next_internal mode r s" r] p unfolding u by (auto simp: land_simps)
    then show ?thesis by (intro exI [of _ "Suc k"]) (simp add: funpow_swap1)
  qed
qed

text \<open>What is shown as pending is never left hanging: with no further input from the user, and whatever
  the wallet answers, at most three internal events (the call settling, the timer firing) end it.\<close>

theorem pending_never_hangs:
  assumes "pending (snap (session mode es))" "\<not> disposed (session mode es)"
  shows "\<exists>n \<le> 3. \<not> pending (snap ((next_internal mode r ^^ n) (session mode es)))"
  by (rule pending_comes [OF session_good assms])

subsection \<open>Confirming what is shown\<close>

text \<open>What \<open>quoteSend\<close> promises of its quotes: they name the send they price, and are not from the future.\<close>

definition prices :: "rat \<Rightarrow> QuoteInputs \<times> SendQuote \<Rightarrow> bool" where
  "prices now a \<longleftrightarrow> q_to (snd a) = i_to (fst a) \<and> q_amount (snd a) = i_amount (fst a) \<and>
     q_assetType (snd a) = i_assetType (fst a) \<and> q_quotedAt (snd a) \<le> now"

lemma quotable_inputs:
  "quotableInputs to amount assetType = Some i \<Longrightarrow>
     i_to i = js_trim to \<and> i_amount i = js_trim amount \<and> i_assetType i = assetType"
  by (auto simp: quotableInputs_def Let_def split: if_splits)

text \<open>C23. Confirm sends exactly the transaction on screen: when the modal of a chain whose quotes build the
  spend shows a quote for what the form says, pressing Send relays that very quote, whatever its
  age. It rests on the adapter's promise that a quote names the send it prices.\<close>

theorem confirm_relays_what_is_shown:
  assumes shown: "quote (snap (session OnRequest es)) = Some q"
    and form: "inputs (snap (session OnRequest es)) = quotableInputs (sendTo f) (sendAmount f) (sendAssetType f)"
    and promise: "\<forall>a \<in> set (answers (session OnRequest es)). prices (date_now env) a"
    and ad: "has_sendQuoted (e_adapter env)" "quoteModeFor (e_adapter env) = OnRequest"
      "\<not> has_destinationTag (e_adapter env)" "ad_memo (e_adapter env) = None"
    and env: "e_wallet env = Some w" "\<not> has_sendOverride env" "\<not> useAccountSend env w f" "guard_passes env f = Inr ()"
  shows "snd (handleSend env feeRateArg (Some (as_quote_like q)) f) = [SendQuoted (as_quote_like q)]"
proof -
  have "history_ok (session OnRequest es)" using session_good by (simp add: controller_good_def)
  then obtain i where i: "inputs (snap (session OnRequest es)) = Some i" "(i, q) \<in> set (answers (session OnRequest es))"
    using shown by (auto simp: history_ok_def shown_ok_def)
  then have p: "prices (date_now env) (i, q)" using promise by blast
  have t: "i_to i = js_trim (sendTo f) \<and> i_amount i = js_trim (sendAmount f) \<and> i_assetType i = sendAssetType f"
    using i(1) form by (intro quotable_inputs) simp
  have r: "quoteBuildsSpend (e_adapter env) = Some True" using ad(2) by (simp add: quoteModeFor_def split: if_splits)
  have "quoteMatchesSend (Some (as_quote_like q))
      \<lparr>t_to = sendTo f, t_amount = sendAmount f, t_assetType = sendAssetType f\<rparr> (date_now env) None"
    using p t by (simp add: quoteMatchesSend_def as_quote_like_def prices_def)
  then have "routeQuotedSend (e_adapter env) (Some (as_quote_like q))
      \<lparr>t_to = sendTo f, t_amount = sendAmount f, t_assetType = sendAssetType f\<rparr> (date_now env) = Relay (as_quote_like q)"
    using ad(1) r by (simp add: route_relay)
  then have "prepare_send env w f fr (Some (as_quote_like q)) = Inr (SendQuoted (as_quote_like q))" for fr
    using ad env by (simp add: prepare_send_def Let_def)
  then show ?thesis by (simp add: handleSend_def env(1) Let_def prepare_frame split: sum.split)
qed

subsection \<open>A review that is lost\<close>

text \<open>A review can be swallowed. The user reviews a send, edits the form, edits it back while the first
  build still runs and presses Review again: the press changes nothing, nothing is shown as
  pending although the build of these very inputs is in flight, and when it lands it is
  remembered but not shown.\<close>

theorem review_swallowed:
  assumes "a \<noteq> b"
  shows "case session OnRequest [SetInputs (Some a), Request, SetInputs (Some b), SetInputs (Some a)] of s \<Rightarrow>
    snap (quote_step OnRequest s Request) = snap s \<and> calls (quote_step OnRequest s Request) = calls s \<and>
    inputs (snap s) = Some a \<and> inFlightInputs s = Some a \<and> \<not> pending (snap s) \<and>
    (case quote_step OnRequest (quote_step OnRequest s Request) (Settles (Inr q)) of t \<Rightarrow>
       quote (snap t) = None \<and> \<not> pending (snap t) \<and> lastBuild t = Some (a, q))"
  using assms
  by (simp add: session_def createQuoteController_def EMPTY_QUOTE_def setInputs_def request_def request_build_def
      run_def start_def settle_def land_def emit_def clear_def Let_def)

subsection \<open>A session\<close>

definition demo_to :: string where "demo_to = replicate 30 (CHR ''4'')"

definition demo_inputs :: "string \<Rightarrow> QuoteInputs" where
  "demo_inputs amount = \<lparr>i_to = demo_to, i_amount = amount, i_assetType = None\<rparr>"

definition demo_quote :: SendQuote where
  "demo_quote = \<lparr>q_to = demo_to, q_amount = ''1'', q_assetType = None, q_fee = ''0.1'', q_feeTicker = None,
     q_feeNote = None, q_quotedAt = 0, q_ticket = 7\<rparr>"

lemmas session_eval = session_def createQuoteController_def EMPTY_QUOTE_def setInputs_def request_def request_build_def
  run_def start_def settle_def settled_def land_def emit_def clear_def schedule_def Let_def

theorem review_swallowed_witness:
  "\<not> pending (snap (session OnRequest [SetInputs (Some (demo_inputs ''1'')), Request,
     SetInputs (Some (demo_inputs ''2'')), SetInputs (Some (demo_inputs ''1''))]))"
proof -
  have "demo_inputs ''1'' \<noteq> demo_inputs ''2''" by (simp add: demo_inputs_def)
  from review_swallowed [OF this, of demo_quote] show ?thesis by simp
qed

theorem pending_never_hangs_witness:
  "\<exists>n \<le> 3. \<not> pending (snap ((next_internal Auto (Inr demo_quote) ^^ n)
     (session Auto [SetInputs (Some (demo_inputs ''1''))])))"
  by (rule pending_never_hangs) (simp_all add: session_eval)

definition demo_modal :: send_state where
  "demo_modal = send_init\<lparr>sendTo := demo_to, sendAmount := ''1'', showSendModal := True\<rparr>"

definition demo_review_env :: send_env where
  "demo_review_env = demo_env\<lparr>e_adapter := \<lparr>has_sendFromAccount = False, supportsAccountSend = None,
     has_sendQuoted = True, quoteBuildsSpend = Some True, has_destinationTag = False, ad_memo = None\<rparr>,
     date_now := 86400000\<rparr>"

lemma demo_quotable: "quotableInputs demo_to ''1'' None = Some (demo_inputs ''1'')"
proof -
  have "js_trim demo_to = demo_to" "js_trim ''1'' = ''1''" "list_ex js_space demo_to = False" "length demo_to = 30"
    by (simp_all add: demo_to_def js_trim_noop js_space_def list_ex_iff)
  moreover have "rx_test False DECIMAL_RX ''1''" by code_simp
  ultimately show ?thesis by (simp add: quotableInputs_def demo_inputs_def is_digit_def Let_def)
qed

theorem confirm_relays_what_is_shown_witness:
  "snd (handleSend demo_review_env None (Some (as_quote_like demo_quote)) demo_modal) =
     [SendQuoted (as_quote_like demo_quote)]"
proof (rule confirm_relays_what_is_shown [where
      es = "[SetInputs (Some (demo_inputs ''1'')), Request, Settles (Inr demo_quote)]" and
      w = "\<lparr>wi_address = ''r'', wi_mnemonic = [], wi_privateKey = ''k''\<rparr>"])
  let ?s = "session OnRequest [SetInputs (Some (demo_inputs ''1'')), Request, Settles (Inr demo_quote)]"
  have s: "snap ?s = \<lparr>inputs = Some (demo_inputs ''1''), quote = Some demo_quote, failure = None, pending = False\<rparr>"
    "answers ?s = [(demo_inputs ''1'', demo_quote)]"
    by (simp_all add: session_eval)
  show "quote (snap ?s) = Some demo_quote" by (simp add: s)
  show "inputs (snap ?s) = quotableInputs (sendTo demo_modal) (sendAmount demo_modal) (sendAssetType demo_modal)"
    by (simp add: s demo_modal_def send_init_def demo_quotable)
  show "\<forall>a \<in> set (answers ?s). prices (date_now demo_review_env) a"
    unfolding s by (simp add: prices_def demo_inputs_def demo_quote_def demo_review_env_def)
qed (simp_all add: demo_review_env_def demo_env_def quoteModeFor_def useAccountSend_def shouldUseAccountSend_def
    guard_passes_def)

end
