(* ===== verification/AlgoTx.thy ===== *)
theory AlgoTx
  imports Cbor DecimalAmount Json Interfaces
begin

section \<open>Algorand payments: wallets/algo-tx.ts\<close>

text \<open>
  The canonical msgpack encoder, addresses, the payment and its signature, and \<open>sendAlgo\<close> as a function
  of the node's replies that also returns what was posted. \<open>sha512_256\<close>, \<open>ed25519.sign\<close>, \<open>base32\<close> and
  the printing of numbers are parameters. A reply's body is a JSON value, None where it does not parse.
\<close>

subsection \<open>Canonical msgpack\<close>

datatype MsgValue = MBig int | MNum int | MText string | MBin "byte list"

datatype algo_error =
    NegativeInteger
  | StringTooLong
  | BytesTooLong
  | MapTooLarge
  | AddressLength nat
  | AddressNotBase32
  | AddressDecodedLength
  | AddressChecksum
  | BadAlgoAmount decimal_error
  | AlgoNotPositive
  | NodeHttp int
  | NotEnoughAlgo int
  | AlgodRefusal int
  | OutcomeUnknown string
  | Raised

definition encodeUint :: "int \<Rightarrow> algo_error + byte list" where
  "encodeUint n =
     (if n < 0 then Inl NegativeInteger
      else if n < 128 then Inr [byte n]
      else if n \<le> 0xff then Inr [0xcc, byte n]
      else if n \<le> 0xffff then Inr [0xcd, byte_at 8 n, byte_at 0 n]
      else if n \<le> 0xffffffff then Inr [0xce, byte_at 24 n, byte_at 16 n, byte_at 8 n, byte_at 0 n]
      else Inr (0xcf # map (\<lambda>i. byte_at (8 * (7 - i)) n) [0..<8]))"

definition encodeStr :: "string \<Rightarrow> algo_error + byte list" where
  "encodeStr s =
     (let b = utf8 s
      in if length b < 32 then Inr (byte (0xa0 OR int (length b)) # b)
         else if length b \<le> 0xff then Inr (0xd9 # byte (int (length b)) # b)
         else Inl StringTooLong)"

definition encodeBin :: "byte list \<Rightarrow> algo_error + byte list" where
  "encodeBin b =
     (if length b \<le> 0xff then Inr (0xc4 # byte (int (length b)) # b)
      else if length b \<le> 0xffff
      then Inr (0xc5 # byte_at 8 (int (length b)) # byte_at 0 (int (length b)) # b)
      else Inl BytesTooLong)"

fun encodeValue :: "MsgValue \<Rightarrow> algo_error + byte list" where
  "encodeValue (MBin b) = encodeBin b"
| "encodeValue (MText s) = encodeStr s"
| "encodeValue (MBig n) = encodeUint n"
| "encodeValue (MNum n) = encodeUint n"

fun zero_value :: "MsgValue \<Rightarrow> bool" where
  "zero_value (MBig n) = (n = 0)"
| "zero_value (MNum n) = (n = 0)"
| "zero_value (MText s) = (s = [])"
| "zero_value (MBin b) = (b = [])"

definition kept_fields :: "(string \<times> MsgValue option) list \<Rightarrow> (string \<times> MsgValue) list" where
  "kept_fields fields =
     List.map_filter (\<lambda>(k, v). case v of None \<Rightarrow> None | Some x \<Rightarrow> if zero_value x then None else Some (k, x)) fields"

fun bytes_before :: "byte list \<Rightarrow> byte list \<Rightarrow> bool" where
  "bytes_before (a # as) (b # bs) = (if a \<noteq> b then uint a < uint b else bytes_before as bs)"
| "bytes_before [] bs = (bs \<noteq> [])"
| "bytes_before as [] = False"

definition key_before :: "string \<times> MsgValue \<Rightarrow> string \<times> MsgValue \<Rightarrow> bool" where
  "key_before a b = bytes_before (utf8 (fst a)) (utf8 (fst b))"

fun encode_parts :: "(string \<times> MsgValue) list \<Rightarrow> algo_error + byte list" where
  "encode_parts [] = Inr []"
| "encode_parts ((k, v) # kvs) =
     (case encodeStr k of
        Inl e \<Rightarrow> Inl e
      | Inr a \<Rightarrow>
          (case encodeValue v of
             Inl e \<Rightarrow> Inl e
           | Inr b \<Rightarrow> (case encode_parts kvs of Inl e \<Rightarrow> Inl e | Inr r \<Rightarrow> Inr (a @ b @ r))))"

definition encodeCanonicalMap :: "(string \<times> MsgValue option) list \<Rightarrow> algo_error + byte list" where
  "encodeCanonicalMap fields =
     (let kept = sort_by key_before (kept_fields fields)
      in if 15 < length kept then Inl MapTooLarge
         else case encode_parts kept of
                Inl e \<Rightarrow> Inl e
              | Inr r \<Rightarrow> Inr (byte (0x80 OR int (length kept)) # r))"

subsection \<open>Addresses and amounts\<close>

definition addressToPublicKey ::
    "(string \<Rightarrow> byte list option) \<Rightarrow> (byte list \<Rightarrow> byte list) \<Rightarrow> string \<Rightarrow> algo_error + byte list" where
  "addressToPublicKey b32decode sha address =
     (let clean = to_upper (js_trim address)
      in if length clean \<noteq> 58 then Inl (AddressLength (length clean))
         else case b32decode (clean @ ''======'') of
                None \<Rightarrow> Inl AddressNotBase32
              | Some raw \<Rightarrow>
                  if length raw \<noteq> 36 then Inl AddressDecodedLength
                  else let pub = take 32 raw; expect = sha pub
                       in if drop 32 raw \<noteq> drop (length expect - 4) expect then Inl AddressChecksum
                          else Inr pub)"

definition algoToMicro :: "string \<Rightarrow> algo_error + int" where
  "algoToMicro amount =
     (case decimalToAtomic amount 6 of Inl e \<Rightarrow> Inl (BadAlgoAmount e) | Inr n \<Rightarrow> Inr (int n))"

definition ALGO_MIN_BALANCE_MICRO :: int where "ALGO_MIN_BALANCE_MICRO = 100000"

definition accountMinBalance :: "json option \<Rightarrow> int" where
  "accountMinBalance account =
     (case jnum (jprop account ''min-balance'') of
        Some v \<Rightarrow> if v = of_int \<lfloor>v\<rfloor> \<and> \<bar>v\<bar> \<le> 2 ^ 53 - 1 \<and> 0 \<le> v then \<lfloor>v\<rfloor> else ALGO_MIN_BALANCE_MICRO
      | None \<Rightarrow> ALGO_MIN_BALANCE_MICRO)"

subsection \<open>Suggested parameters\<close>

text \<open>\<open>BigInt(v)\<close>; None where it throws.\<close>

fun js_BigInt :: "json option \<Rightarrow> int option" where
  "js_BigInt (Some (JNum r)) = (if r = of_int \<lfloor>r\<rfloor> then Some \<lfloor>r\<rfloor> else None)"
| "js_BigInt (Some (JBool b)) = Some (if b then 1 else 0)"
| "js_BigInt (Some (JStr s)) = js_BigInt_text s"
| "js_BigInt _ = None"

definition or_default :: "json option \<Rightarrow> int \<Rightarrow> json option" where
  "or_default v d = (case v of None \<Rightarrow> Some (JNum (of_int d)) | Some JNull \<Rightarrow> Some (JNum (of_int d)) | Some x \<Rightarrow> Some x)"

text \<open>\<open>atob\<close>: white space is dropped, one or two \<open>=\<close> may end a text whose length is a multiple of four.\<close>

definition b64_digit :: "char \<Rightarrow> nat option" where
  "b64_digit c =
     (let n = (of_char c :: nat)
      in if 65 \<le> n \<and> n \<le> 90 then Some (n - 65)
         else if 97 \<le> n \<and> n \<le> 122 then Some (n - 71)
         else if 48 \<le> n \<and> n \<le> 57 then Some (n + 4)
         else if n = 43 then Some 62 else if n = 47 then Some 63 else None)"

fun b64_groups :: "nat list \<Rightarrow> byte list" where
  "b64_groups (a # b # c # d # r) =
     of_nat (a * 4 + b div 16) # of_nat (b mod 16 * 16 + c div 4) # of_nat (c mod 4 * 64 + d) # b64_groups r"
| "b64_groups [a, b, c] = [of_nat (a * 4 + b div 16), of_nat (b mod 16 * 16 + c div 4)]"
| "b64_groups [a, b] = [of_nat (a * 4 + b div 16)]"
| "b64_groups _ = []"

definition base64ToBytes :: "string \<Rightarrow> byte list option" where
  "base64ToBytes b64 =
     (let s = filter (\<lambda>c. of_char c \<notin> {9 :: nat, 10, 12, 13, 32}) b64;
          s = (if length s mod 4 = 0 \<and> s \<noteq> [] \<and> last s = CHR ''='' then
                 (let t = butlast s in if t \<noteq> [] \<and> last t = CHR ''='' then butlast t else t) else s)
      in if length s mod 4 = 1 \<or> \<not> list_all (\<lambda>c. b64_digit c \<noteq> None) s then None
         else Some (b64_groups (map (\<lambda>c. the (b64_digit c)) s)))"

record AlgoSuggestedParams =
  ap_fee :: int
  ap_minFee :: int
  ap_firstValid :: int
  ap_lastValid :: int
  ap_genesisId :: string
  ap_genesisHash :: "byte list"

text \<open>A reply of the node: none, or a status and a body.\<close>

datatype http_reply = NoAnswer | Reply int "json option"

definition http_ok :: "int \<Rightarrow> bool" where "http_ok st = (200 \<le> st \<and> st \<le> 299)"

definition suggested_params :: "(rat \<Rightarrow> string) \<Rightarrow> json \<Rightarrow> AlgoSuggestedParams option" where
  "suggested_params numText p =
     (let text = (\<lambda>v. case v of None \<Rightarrow> ''undefined'' | Some x \<Rightarrow> js_String numText x)
      in if p = JNull then None
         else case (js_BigInt (or_default (jget p ''min-fee'') 1000), js_BigInt (or_default (jget p ''fee'') 0),
                    js_BigInt (jget p ''last-round''), base64ToBytes (text (jget p ''genesis-hash''))) of
                (Some minFee, Some suggested, Some lastRound, Some gh) \<Rightarrow>
                  Some \<lparr>ap_fee = (if minFee < suggested then suggested else minFee), ap_minFee = minFee,
                        ap_firstValid = lastRound, ap_lastValid = lastRound + 1000,
                        ap_genesisId = text (jget p ''genesis-id''), ap_genesisHash = gh\<rparr>
              | _ \<Rightarrow> None)"

definition fetchSuggestedParams :: "(rat \<Rightarrow> string) \<Rightarrow> http_reply \<Rightarrow> algo_error + AlgoSuggestedParams" where
  "fetchSuggestedParams numText r =
     (case r of
        NoAnswer \<Rightarrow> Inl Raised
      | Reply st body \<Rightarrow>
          if \<not> http_ok st then Inl (NodeHttp st)
          else (case body of
                  None \<Rightarrow> Inl Raised
                | Some p \<Rightarrow> (case suggested_params numText p of None \<Rightarrow> Inl Raised | Some ps \<Rightarrow> Inr ps)))"

subsection \<open>The payment\<close>

record payment =
  pay_from :: "byte list"
  pay_to :: "byte list"
  pay_amount :: int
  pay_params :: AlgoSuggestedParams
  pay_note :: "byte list option"

definition pay_fields :: "payment \<Rightarrow> (string \<times> MsgValue option) list" where
  "pay_fields p =
     [(''amt'', Some (MBig (pay_amount p))), (''fee'', Some (MBig (ap_fee (pay_params p)))),
      (''fv'', Some (MBig (ap_firstValid (pay_params p)))), (''gen'', Some (MText (ap_genesisId (pay_params p)))),
      (''gh'', Some (MBin (ap_genesisHash (pay_params p)))), (''lv'', Some (MBig (ap_lastValid (pay_params p)))),
      (''note'', map_option MBin (pay_note p)), (''rcv'', Some (MBin (pay_to p))),
      (''snd'', Some (MBin (pay_from p))), (''type'', Some (MText ''pay''))]"

definition encodePayTransaction :: "payment \<Rightarrow> algo_error + byte list" where
  "encodePayTransaction p = encodeCanonicalMap (pay_fields p)"

definition transactionId :: "(byte list \<Rightarrow> string) \<Rightarrow> (byte list \<Rightarrow> byte list) \<Rightarrow> byte list \<Rightarrow> string" where
  "transactionId b32encode sha encodedTxn =
     strip_trailing (CHR ''='') (b32encode (sha (utf8 ''TX'' @ encodedTxn)))"

definition signTransaction ::
    "(byte list \<Rightarrow> byte list \<Rightarrow> byte list) \<Rightarrow> byte list \<Rightarrow> byte list \<Rightarrow> algo_error + byte list" where
  "signTransaction sign encodedTxn privateKey =
     (let sig = sign (utf8 ''TX'' @ encodedTxn) privateKey
      in case (encodeStr ''sig'', encodeBin sig, encodeStr ''txn'') of
           (Inr a, Inr b, Inr c) \<Rightarrow> Inr (0x82 # a @ b @ c @ encodedTxn)
         | (Inl e, _, _) \<Rightarrow> Inl e
         | (_, Inl e, _) \<Rightarrow> Inl e
         | (_, _, Inl e) \<Rightarrow> Inl e)"

text \<open>What the node said to the blob: its id if it gave one, a refusal, or nothing clear.\<close>

definition submitTransaction :: "http_reply \<Rightarrow> algo_error + json option" where
  "submitTransaction r =
     (case r of
        NoAnswer \<Rightarrow> Inl Raised
      | Reply st body \<Rightarrow>
          if \<not> http_ok st then (if 400 \<le> st \<and> st < 500 then Inl (AlgodRefusal st) else Inl (NodeHttp st))
          else Inr (jprop body ''txId''))"

subsection \<open>Sending\<close>

record algo_env =
  b32decode :: "string \<Rightarrow> byte list option"
  b32encode :: "byte list \<Rightarrow> string"
  sha512_256 :: "byte list \<Rightarrow> byte list"
  ed_sign :: "byte list \<Rightarrow> byte list \<Rightarrow> byte list"
  num_text :: "rat \<Rightarrow> string"
  params_reply :: http_reply
  account_reply :: http_reply
  post_reply :: "byte list \<Rightarrow> http_reply"

record algo_args =
  a_privateKey :: "byte list"
  a_fromAddress :: string
  a_to :: string
  a_amount :: string
  a_note :: "string option"

text \<open>The balance check: nothing is refused when the account could not be read.\<close>

definition balance_check :: "http_reply \<Rightarrow> int \<Rightarrow> int \<Rightarrow> algo_error + unit" where
  "balance_check r amountMicro fee =
     (case r of
        NoAnswer \<Rightarrow> Inl Raised
      | Reply st body \<Rightarrow>
          if \<not> http_ok st then Inr ()
          else (case body of
                  None \<Rightarrow> Inl Raised
                | Some acct \<Rightarrow>
                    if acct = JNull then Inl Raised
                    else (case js_BigInt (or_default (jget acct ''amount'') 0) of
                            None \<Rightarrow> Inl Raised
                          | Some balance \<Rightarrow>
                              let required = amountMicro + fee + accountMinBalance (Some acct)
                              in if balance < required then Inl (NotEnoughAlgo (required - balance)) else Inr ())))"

text \<open>Everything before the blob is posted: the payment, its encoding and the signed blob.\<close>

definition build_payment :: "algo_env \<Rightarrow> algo_args \<Rightarrow> algo_error + (payment \<times> byte list \<times> byte list)" where
  "build_payment env a =
     (case addressToPublicKey (b32decode env) (sha512_256 env) (a_fromAddress a) of
        Inl e \<Rightarrow> Inl e
      | Inr from \<Rightarrow>
     (case addressToPublicKey (b32decode env) (sha512_256 env) (a_to a) of
        Inl e \<Rightarrow> Inl e
      | Inr to \<Rightarrow>
     (case algoToMicro (a_amount a) of
        Inl e \<Rightarrow> Inl e
      | Inr amountMicro \<Rightarrow>
          if amountMicro \<le> 0 then Inl AlgoNotPositive
          else
     (case fetchSuggestedParams (num_text env) (params_reply env) of
        Inl e \<Rightarrow> Inl e
      | Inr params \<Rightarrow>
     (case balance_check (account_reply env) amountMicro (ap_fee params) of
        Inl e \<Rightarrow> Inl e
      | Inr _ \<Rightarrow>
          let p = \<lparr>pay_from = from, pay_to = to, pay_amount = amountMicro, pay_params = params,
                   pay_note = map_option utf8 (keep_truthy (a_note a))\<rparr>
          in case encodePayTransaction p of
               Inl e \<Rightarrow> Inl e
             | Inr encoded \<Rightarrow>
                 (case signTransaction (ed_sign env) encoded (a_privateKey a) of
                    Inl e \<Rightarrow> Inl e
                  | Inr blob \<Rightarrow> Inr (p, encoded, blob)))))))"

fun is_refusal :: "algo_error \<Rightarrow> bool" where
  "is_refusal (AlgodRefusal _) = True"
| "is_refusal _ = False"

definition sendAlgo :: "algo_env \<Rightarrow> algo_args \<Rightarrow> byte list list \<times> (algo_error + string)" where
  "sendAlgo env a =
     (case build_payment env a of
        Inl e \<Rightarrow> ([], Inl e)
      | Inr (p, encoded, blob) \<Rightarrow>
          let localId = transactionId (b32encode env) (sha512_256 env) encoded
          in ([blob],
              case submitTransaction (post_reply env blob) of
                Inl e \<Rightarrow> Inl (if is_refusal e then e else OutcomeUnknown localId)
              | Inr nodeId \<Rightarrow>
                  Inr (case nodeId of Some v \<Rightarrow> if jtruthy v then js_String (num_text env) v else localId
                       | None \<Rightarrow> localId)))"

subsection \<open>A reference decoder\<close>

definition take_text :: "nat \<Rightarrow> byte list \<Rightarrow> (MsgValue \<times> byte list) option" where
  "take_text k r = (if length r < k then None else map_option (\<lambda>s. (MText s, drop k r)) (dec_utf8 (take k r)))"

definition take_bin :: "nat \<Rightarrow> byte list \<Rightarrow> (MsgValue \<times> byte list) option" where
  "take_bin k r = (if length r < k then None else Some (MBin (take k r), drop k r))"

definition take_num :: "nat \<Rightarrow> byte list \<Rightarrow> (MsgValue \<times> byte list) option" where
  "take_num k r = (if length r < k then None else Some (MBig (be_val (take k r)), drop k r))"

fun dec_msg :: "byte list \<Rightarrow> (MsgValue \<times> byte list) option" where
  "dec_msg [] = None"
| "dec_msg (b # r) =
     (let n = uint b
      in if n < 128 then Some (MBig n, r)
         else if 0xa0 \<le> n \<and> n < 0xc0 then take_text (nat (n - 0xa0)) r
         else if n = 0xd9 then (case r of l # r' \<Rightarrow> take_text (nat (uint l)) r' | [] \<Rightarrow> None)
         else if n = 0xc4 then (case r of l # r' \<Rightarrow> take_bin (nat (uint l)) r' | [] \<Rightarrow> None)
         else if n = 0xc5 then (case r of h # l # r' \<Rightarrow> take_bin (nat (uint h * 256 + uint l)) r' | _ \<Rightarrow> None)
         else if n = 0xcc then take_num 1 r
         else if n = 0xcd then take_num 2 r
         else if n = 0xce then take_num 4 r
         else if n = 0xcf then take_num 8 r
         else None)"

fun dec_fields :: "nat \<Rightarrow> byte list \<Rightarrow> ((string \<times> MsgValue) list \<times> byte list) option" where
  "dec_fields 0 bs = Some ([], bs)"
| "dec_fields (Suc n) bs =
     (case dec_msg bs of
        Some (MText k, r) \<Rightarrow>
          (case dec_msg r of
             None \<Rightarrow> None
           | Some (v, r') \<Rightarrow> map_option (\<lambda>(fs, r). ((k, v) # fs, r)) (dec_fields n r'))
      | _ \<Rightarrow> None)"

fun dec_map :: "byte list \<Rightarrow> ((string \<times> MsgValue) list \<times> byte list) option" where
  "dec_map [] = None"
| "dec_map (b # r) = (if 0x80 \<le> uint b \<and> uint b < 0x90 then dec_fields (nat (uint b - 0x80)) r else None)"

subsection \<open>Values read back\<close>

fun value_fits :: "MsgValue \<Rightarrow> bool" where
  "value_fits (MBig n) = (0 \<le> n \<and> n < 2 ^ 64)"
| "value_fits (MNum n) = (0 \<le> n \<and> n < 2 ^ 64)"
| "value_fits (MText s) = (length (utf8 s) \<le> 255)"
| "value_fits (MBin b) = (length b \<le> 65535)"

fun norm_value :: "MsgValue \<Rightarrow> MsgValue" where
  "norm_value (MNum n) = MBig n"
| "norm_value v = v"

lemma big_endian:
  "0 \<le> n \<Longrightarrow> n < 256 \<Longrightarrow> [byte n] = be_bytes 1 n"
  "[byte_at 8 n, byte_at 0 n] = be_bytes 2 n"
  "[byte_at 24 n, byte_at 16 n, byte_at 8 n, byte_at 0 n] = be_bytes 4 n"
  "map (\<lambda>i. byte_at (8 * (7 - i)) n) [0..<8] = be_bytes 8 n"
  by (simp_all add: numeral_eq_Suc upt_rec byte_at_def and_255)

lemma take_num_be: "0 \<le> n \<Longrightarrow> n < 2 ^ (8 * k) \<Longrightarrow> take_num k (be_bytes k n @ r) = Some (MBig n, r)"
  by (simp add: take_num_def be_val_be_bytes)

lemma encodeUint_be:
  "0 \<le> n \<Longrightarrow> encodeUint n = Inr
     (if n < 128 then [byte n] else if n \<le> 0xff then 0xcc # be_bytes 1 n
      else if n \<le> 0xffff then 0xcd # be_bytes 2 n
      else if n \<le> 0xffffffff then 0xce # be_bytes 4 n else 0xcf # be_bytes 8 n)"
  using big_endian [of n] by (simp add: encodeUint_def)

lemma encodeUint_decode:
  assumes "0 \<le> n" "n < 2 ^ 64"
  obtains bs where "encodeUint n = Inr bs" "\<And>r. dec_msg (bs @ r) = Some (MBig n, r)"
proof -
  consider "n < 128" | "128 \<le> n" "n \<le> 0xff" | "0xff < n" "n \<le> 0xffff" | "0xffff < n" "n \<le> 0xffffffff" | "0xffffffff < n"
    by linarith
  then show ?thesis
  proof cases
    case 1
    then show ?thesis using assms by (intro that [of "[byte n]"]) (simp_all add: encodeUint_def uint_byte)
  next
    case 2
    then show ?thesis using assms
      by (intro that [of "0xcc # be_bytes 1 n"]) (simp_all add: encodeUint_be take_num_be del: be_bytes.simps)
  next
    case 3
    then show ?thesis using assms
      by (intro that [of "0xcd # be_bytes 2 n"]) (simp_all add: encodeUint_be take_num_be del: be_bytes.simps)
  next
    case 4
    then show ?thesis using assms
      by (intro that [of "0xce # be_bytes 4 n"]) (simp_all add: encodeUint_be take_num_be del: be_bytes.simps)
  next
    case 5
    then show ?thesis using assms
      by (intro that [of "0xcf # be_bytes 8 n"]) (simp_all add: encodeUint_be take_num_be del: be_bytes.simps)
  qed
qed

lemma take_text_utf8: "take_text (length (utf8 s)) (utf8 s @ r) = Some (MText s, r)"
  by (simp add: take_text_def dec_utf8_utf8)

lemma or_a0: "0 \<le> k \<Longrightarrow> k < 32 \<Longrightarrow> 0xa0 OR k = 0xa0 + (k :: int)"
  using push_or [of k 5 5] by simp

lemma encodeStr_decode:
  assumes "length (utf8 s) \<le> 255"
  obtains bs where "encodeStr s = Inr bs" "\<And>r. dec_msg (bs @ r) = Some (MText s, r)"
proof (cases "length (utf8 s) < 32")
  case True
  have "uint (byte (0xa0 OR int (length (utf8 s)))) = 0xa0 + int (length (utf8 s))"
    using True by (simp add: or_a0 uint_byte)
  then show ?thesis using True
    by (intro that [of "byte (0xa0 OR int (length (utf8 s))) # utf8 s"])
      (simp_all add: encodeStr_def take_text_utf8 Let_def)
next
  case False
  then show ?thesis using assms
    by (intro that [of "0xd9 # byte (int (length (utf8 s))) # utf8 s"])
      (simp_all add: encodeStr_def take_text_utf8 uint_byte Let_def)
qed

lemma take_bin_all: "take_bin (length b) (b @ r) = Some (MBin b, r)"
  by (simp add: take_bin_def)

lemma encodeBin_decode:
  assumes "length b \<le> 65535"
  obtains bs where "encodeBin b = Inr bs" "\<And>r. dec_msg (bs @ r) = Some (MBin b, r)"
proof (cases "length b \<le> 255")
  case True
  then show ?thesis
    by (intro that [of "0xc4 # byte (int (length b)) # b"]) (simp_all add: encodeBin_def take_bin_all uint_byte)
next
  case False
  have "nat (uint (byte_at 8 (int (length b))) * 256 + uint (byte_at 0 (int (length b)))) = length b"
    using assms by (simp add: uint_byte_at)
  then show ?thesis using False assms
    by (intro that [of "0xc5 # byte_at 8 (int (length b)) # byte_at 0 (int (length b)) # b"])
      (simp_all add: encodeBin_def take_bin_all)
qed

lemma encodeValue_decode:
  assumes "value_fits v"
  obtains bs where "encodeValue v = Inr bs" "\<And>r. dec_msg (bs @ r) = Some (norm_value v, r)"
  using assms encodeUint_decode encodeStr_decode encodeBin_decode by (cases v) (auto, blast+)

interpretation algo_value: prefix_codec "\<lambda>v. projr (encodeValue v)" dec_msg "\<lambda>v. value_fits v \<and> norm_value v = v"
proof
  fix v r
  assume v: "value_fits v \<and> norm_value v = v"
  then obtain bs where "encodeValue v = Inr bs" "\<And>r. dec_msg (bs @ r) = Some (norm_value v, r)"
    using encodeValue_decode by blast
  then show "dec_msg (projr (encodeValue v) @ r) = Some (v, r)" using v by simp
qed

subsection \<open>Maps read back\<close>

lemma encode_parts_decode:
  "list_all (\<lambda>(k, v). length (utf8 k) \<le> 255 \<and> value_fits v) kvs \<Longrightarrow>
   \<exists>bs. encode_parts kvs = Inr bs \<and> (\<forall>r. dec_fields (length kvs) (bs @ r) = Some (map (\<lambda>(k, v). (k, norm_value v)) kvs, r))"
proof (induction kvs)
  case (Cons kv kvs)
  obtain k v where kv: "kv = (k, v)" by (cases kv)
  obtain a where a: "encodeStr k = Inr a" "\<And>r. dec_msg (a @ r) = Some (MText k, r)"
    using encodeStr_decode [of k] Cons.prems kv by auto
  obtain b where b: "encodeValue v = Inr b" "\<And>r. dec_msg (b @ r) = Some (norm_value v, r)"
    using encodeValue_decode [of v] Cons.prems kv by auto
  obtain c where c: "encode_parts kvs = Inr c"
      "\<forall>r. dec_fields (length kvs) (c @ r) = Some (map (\<lambda>(k, v). (k, norm_value v)) kvs, r)"
    using Cons by auto
  then show ?case using kv a b by (intro exI [of _ "a @ b @ c"]) simp
qed simp

lemma canonical_map_decode:
  assumes "list_all (\<lambda>(k, v). length (utf8 k) \<le> 255 \<and> value_fits v) (kept_fields fds)" "length (kept_fields fds) \<le> 15"
  obtains bs where "encodeCanonicalMap fds = Inr bs"
    "\<And>r. dec_map (bs @ r) = Some (map (\<lambda>(k, v). (k, norm_value v)) (sort_by key_before (kept_fields fds)), r)"
proof -
  let ?k = "sort_by key_before (kept_fields fds)"
  have l: "length ?k = length (kept_fields fds)" by simp
  have "list_all (\<lambda>(k, v). length (utf8 k) \<le> 255 \<and> value_fits v) ?k" using assms(1) by (simp add: list_all_iff)
  then obtain bs where bs: "encode_parts ?k = Inr bs"
      "\<forall>r. dec_fields (length ?k) (bs @ r) = Some (map (\<lambda>(k, v). (k, norm_value v)) ?k, r)"
    using encode_parts_decode by blast
  have "0x80 OR int n = 0x80 + int n" if "n \<le> 15" for n
    using push_or [of "int n" 4 8] that by simp
  then have h: "uint (byte (0x80 OR int (length ?k))) = 0x80 + int (length ?k)"
    using assms(2) l by (simp add: uint_byte)
  have "encodeCanonicalMap fds = Inr (byte (0x80 OR int (length ?k)) # bs)"
    using bs(1) assms(2) by (simp add: encodeCanonicalMap_def)
  moreover have "dec_map ((byte (0x80 OR int (length ?k)) # bs) @ r) = Some (map (\<lambda>(k, v). (k, norm_value v)) ?k, r)" for r
    using bs(2) h assms(2) l by simp
  ultimately show ?thesis by (rule that)
qed

subsection \<open>What an encoding says\<close>

text \<open>The encoder checks lengths and signs but not the width of a number: what it writes of one past 64
  bits is its low 64.\<close>

definition in_64_bits :: "int \<Rightarrow> int" where "in_64_bits n = n mod 2 ^ 64"

fun read_value :: "MsgValue \<Rightarrow> MsgValue" where
  "read_value (MBig n) = MBig (in_64_bits n)"
| "read_value (MNum n) = MBig (in_64_bits n)"
| "read_value v = v"

lemma byte_at_mod: "s + 8 \<le> m \<Longrightarrow> byte_at s (n mod 2 ^ m) = byte_at s n"
proof -
  assume "s + 8 \<le> m"
  then obtain d where m: "m = s + (8 + d)" by (metis add.assoc le_add_diff_inverse)
  have "n div 2 ^ s = (n div 2 ^ m * (256 * 2 ^ d) * 2 ^ s + n mod 2 ^ m) div 2 ^ s"
    using div_mult_mod_eq [of n "2 ^ m"] by (simp add: m power_add mult.assoc mult.left_commute mult.commute)
  also have "\<dots> = 256 * (2 ^ d * (n div 2 ^ m)) + n mod 2 ^ m div 2 ^ s" by simp
  finally have "uint (byte_at s (n mod 2 ^ m)) = uint (byte_at s n)" by (simp add: uint_byte_at)
  then show ?thesis by (rule word_uint_eqI)
qed

lemma be_bytes_mod: "8 * k \<le> m \<Longrightarrow> be_bytes k (n mod 2 ^ m) = be_bytes k n"
  by (induction k) (simp_all add: byte_at_mod)

lemma encodeUint_reads:
  assumes "encodeUint n = Inr bs"
  shows "0 \<le> n \<and> dec_msg (bs @ r) = Some (MBig (in_64_bits n), r)"
proof (cases "n < 2 ^ 64")
  case True
  have z: "0 \<le> n" using assms by (simp add: encodeUint_def split: if_splits)
  obtain cs where "encodeUint n = Inr cs" "\<And>r. dec_msg (cs @ r) = Some (MBig n, r)"
    using encodeUint_decode [OF z True] by blast
  then show ?thesis using assms z True by (simp add: in_64_bits_def)
next
  case False
  have bs: "bs = 0xcf # be_bytes 8 n" using assms False encodeUint_be [of n] by (simp del: be_bytes.simps)
  have "take_num 8 (be_bytes 8 (in_64_bits n) @ r) = Some (MBig (in_64_bits n), r)"
    by (rule take_num_be) (simp_all add: in_64_bits_def)
  then show ?thesis using False be_bytes_mod [of 8 64 n] by (simp add: bs in_64_bits_def del: be_bytes.simps)
qed

lemma encodeStr_reads:
  assumes "encodeStr s = Inr bs"
  shows "dec_msg (bs @ r) = Some (MText s, r)"
proof -
  have "length (utf8 s) \<le> 255" using assms by (simp add: encodeStr_def Let_def split: if_splits)
  then show ?thesis using assms encodeStr_decode [of s] by (metis sum.inject(2))
qed

lemma encodeBin_reads:
  assumes "encodeBin b = Inr bs"
  shows "dec_msg (bs @ r) = Some (MBin b, r)"
proof -
  have "length b \<le> 65535" using assms by (simp add: encodeBin_def split: if_splits)
  then show ?thesis using assms encodeBin_decode [of b] by (metis sum.inject(2))
qed

lemma encodeValue_reads: "encodeValue v = Inr bs \<Longrightarrow> dec_msg (bs @ r) = Some (read_value v, r)"
  using encodeUint_reads encodeStr_reads encodeBin_reads by (cases v) auto

lemma encode_parts_reads:
  "encode_parts kvs = Inr bs \<Longrightarrow> dec_fields (length kvs) (bs @ r) = Some (map (\<lambda>(k, v). (k, read_value v)) kvs, r)"
proof (induction kvs arbitrary: bs)
  case (Cons kv kvs)
  obtain k v where kv: "kv = (k, v)" by (cases kv)
  obtain a b c where p: "encodeStr k = Inr a" "encodeValue v = Inr b" "encode_parts kvs = Inr c" "bs = a @ b @ c"
    using Cons.prems kv by (auto split: sum.splits)
  show ?case using Cons.IH [OF p(3)] encodeStr_reads [OF p(1)] encodeValue_reads [OF p(2)] kv p(4) by simp
qed simp

lemma uint_map_byte:
  assumes "n \<le> 15"
  shows "uint (byte (0x80 OR int n)) = 0x80 + int n"
proof -
  have "0x80 OR int n = 0x80 + int n" using push_or [of "int n" 4 8] assms by simp
  then show ?thesis using assms by (simp add: uint_byte)
qed

lemma canonical_map_reads:
  assumes "encodeCanonicalMap fds = Inr bs"
  shows "dec_map (bs @ r) = Some (map (\<lambda>(k, v). (k, read_value v)) (sort_by key_before (kept_fields fds)), r)"
proof -
  let ?k = "sort_by key_before (kept_fields fds)"
  obtain cs where cs: "encode_parts ?k = Inr cs" "length ?k \<le> 15" "bs = byte (0x80 OR int (length ?k)) # cs"
    using assms by (auto simp: encodeCanonicalMap_def Let_def split: if_splits sum.splits)
  show ?thesis using encode_parts_reads [OF cs(1), of r] uint_map_byte [OF cs(2)] cs(2)
    by (simp add: cs(3) del: length_sort_by)
qed

subsection \<open>A payment reads back\<close>

lemma kept_filter:
  "kept_fields fds = map (\<lambda>(k, v). (k, the v)) (filter (\<lambda>(k, v). v \<noteq> None \<and> \<not> zero_value (the v)) fds)"
  by (induction fds) (auto simp: kept_fields_def List.map_filter_simps split: option.splits if_splits)

lemma kept_keys: "j \<notin> fst ` set fds \<Longrightarrow> map_of (kept_fields fds) j = None"
  by (force simp: map_of_eq_None_iff kept_filter)

lemma map_of_kept:
  "distinct (map fst fds) \<Longrightarrow> map_of (kept_fields fds) k =
     (case map_of fds k of Some (Some v) \<Rightarrow> if zero_value v then None else Some v | _ \<Rightarrow> None)"
proof (induction fds)
  case (Cons f fds)
  obtain j v where f: "f = (j, v)" by (cases f)
  have "map_of (kept_fields fds) j = None" using Cons.prems f by (intro kept_keys) simp
  then show ?case using Cons f by (cases v) (auto simp: kept_filter)
qed (simp add: kept_filter)

text \<open>What a decoded map says of the payment; a field that is not there is zero or empty.\<close>

fun msg_int :: "MsgValue option \<Rightarrow> int" where
  "msg_int (Some (MBig n)) = n"
| "msg_int _ = 0"

fun msg_bin :: "MsgValue option \<Rightarrow> byte list" where
  "msg_bin (Some (MBin b)) = b"
| "msg_bin _ = []"

fun msg_text :: "MsgValue option \<Rightarrow> string" where
  "msg_text (Some (MText s)) = s"
| "msg_text _ = []"

definition says_payment :: "(string \<times> MsgValue) list \<Rightarrow> payment \<Rightarrow> bool" where
  "says_payment fs p \<longleftrightarrow>
     (let m = map_of fs; ps = pay_params p
      in msg_text (m ''type'') = ''pay'' \<and> msg_int (m ''amt'') = pay_amount p \<and> msg_bin (m ''rcv'') = pay_to p \<and>
         msg_bin (m ''snd'') = pay_from p \<and> msg_int (m ''fee'') = ap_fee ps \<and> msg_int (m ''fv'') = ap_firstValid ps \<and>
         msg_int (m ''lv'') = ap_lastValid ps \<and> msg_text (m ''gen'') = ap_genesisId ps \<and>
         msg_bin (m ''gh'') = ap_genesisHash ps \<and> msg_bin (m ''note'') = coalesce (pay_note p) [])"

definition u64 :: "int \<Rightarrow> bool" where "u64 n \<longleftrightarrow> 0 \<le> n \<and> n < 2 ^ 64"

definition payment_fits :: "payment \<Rightarrow> bool" where
  "payment_fits p \<longleftrightarrow>
     u64 (pay_amount p) \<and> u64 (ap_fee (pay_params p)) \<and> u64 (ap_firstValid (pay_params p)) \<and>
     u64 (ap_lastValid (pay_params p)) \<and> length (utf8 (ap_genesisId (pay_params p))) \<le> 255 \<and>
     length (ap_genesisHash (pay_params p)) \<le> 65535 \<and> length (pay_to p) \<le> 65535 \<and>
     length (pay_from p) \<le> 65535 \<and> length (coalesce (pay_note p) []) \<le> 65535"

lemma pay_keys: "map fst (pay_fields p) = [''amt'', ''fee'', ''fv'', ''gen'', ''gh'', ''lv'', ''note'', ''rcv'', ''snd'', ''type'']"
  by (simp add: pay_fields_def)

lemma utf8_keys:
  "utf8 ''amt'' = [0x61, 0x6d, 0x74]" "utf8 ''fee'' = [0x66, 0x65, 0x65]" "utf8 ''fv'' = [0x66, 0x76]"
  "utf8 ''gen'' = [0x67, 0x65, 0x6e]" "utf8 ''gh'' = [0x67, 0x68]" "utf8 ''lv'' = [0x6c, 0x76]"
  "utf8 ''note'' = [0x6e, 0x6f, 0x74, 0x65]" "utf8 ''rcv'' = [0x72, 0x63, 0x76]" "utf8 ''snd'' = [0x73, 0x6e, 0x64]"
  "utf8 ''type'' = [0x74, 0x79, 0x70, 0x65]"
  by (simp_all add: utf8_def utf8_char_def byte_def)

definition pay_key_before :: "string \<Rightarrow> string \<Rightarrow> bool" where
  "pay_key_before a b = bytes_before (utf8 a) (utf8 b)"

lemma pay_keys_sorted: "sorted_wrt (\<lambda>a b. \<not> pay_key_before b a) (map fst (pay_fields p))"
  unfolding pay_keys by (simp add: pay_key_before_def utf8_keys)

lemma kept_sorted: "sort_by key_before (kept_fields (pay_fields p)) = kept_fields (pay_fields p)"
proof (rule sort_by_id)
  have "sorted_wrt (\<lambda>a b. \<not> pay_key_before (fst b) (fst a)) (pay_fields p)"
    using pay_keys_sorted [of p] by (simp add: sorted_wrt_map)
  then have "sorted_wrt (\<lambda>a b. \<not> pay_key_before (fst b) (fst a))
      (filter (\<lambda>(k, v). v \<noteq> None \<and> \<not> zero_value (the v)) (pay_fields p))"
    by (rule sorted_wrt_filter)
  then show "by_less key_before (kept_fields (pay_fields p))"
    by (simp add: kept_filter sorted_wrt_map key_before_def pay_key_before_def case_prod_beta)
qed

lemma kept_fits:
  assumes "payment_fits p"
  shows "list_all (\<lambda>(k, v). length (utf8 k) \<le> 255 \<and> value_fits v) (kept_fields (pay_fields p))"
proof -
  have "length (utf8 k) \<le> 255 \<and> (\<forall>x. v = Some x \<longrightarrow> value_fits x)" if "(k, v) \<in> set (pay_fields p)" for k v
    using that assms by (auto simp: pay_fields_def utf8_keys payment_fits_def u64_def utf8_def utf8_char_def)
  then show ?thesis by (fastforce simp: kept_filter list_all_iff)
qed

lemma kept_count: "length (kept_fields (pay_fields p)) \<le> 15"
proof -
  have "length (kept_fields (pay_fields p)) \<le> length (pay_fields p)" by (simp add: kept_filter)
  also have "\<dots> = 10" by (simp add: pay_fields_def)
  finally show ?thesis by simp
qed

lemma norm_kept: "map (\<lambda>(k, v). (k, norm_value v)) (kept_fields (pay_fields p)) = kept_fields (pay_fields p)"
proof (rule map_idI)
  fix f
  assume "f \<in> set (kept_fields (pay_fields p))"
  then obtain k v where "f = (k, v)" "(k, Some v) \<in> set (pay_fields p)" by (auto simp: kept_filter)
  then show "(\<lambda>(k, v). (k, norm_value v)) f = f" by (cases "pay_note p") (auto simp: pay_fields_def)
qed

lemma payment_encoded:
  assumes "payment_fits p"
  obtains bs where "encodePayTransaction p = Inr bs" "dec_map bs = Some (kept_fields (pay_fields p), [])"
proof -
  obtain bs where bs: "encodeCanonicalMap (pay_fields p) = Inr bs"
      "\<And>r. dec_map (bs @ r) = Some (map (\<lambda>(k, v). (k, norm_value v)) (sort_by key_before (kept_fields (pay_fields p))), r)"
    using canonical_map_decode [OF kept_fits [OF assms] kept_count] by blast
  show ?thesis using bs(1) bs(2) [of "[]"] by (intro that [of bs]) (simp_all add: encodePayTransaction_def kept_sorted norm_kept)
qed

lemma kept_says: "says_payment (kept_fields (pay_fields p)) p"
proof -
  have d: "distinct (map fst (pay_fields p))" unfolding pay_keys by simp
  show ?thesis by (simp add: says_payment_def map_of_kept [OF d] Let_def)
    (simp add: pay_fields_def split: option.split)
qed

text \<open>The bytes that are signed are the payment and nothing else: every payment whose numbers fit 64
  bits is encoded, an independent msgpack reader finds in the bytes exactly its fields, in
  ascending order and without the zero ones, and what those say is the payment.\<close>

theorem payment_reads_back:
  assumes "payment_fits p"
  shows "\<exists>bs fs. encodePayTransaction p = Inr bs \<and> dec_map bs = Some (fs, []) \<and> says_payment fs p \<and>
    list_all (\<lambda>(k, v). \<not> zero_value v) fs \<and> sorted_wrt (\<lambda>a b. bytes_before (utf8 (fst a)) (utf8 (fst b))) fs"
proof -
  have s: "sorted_wrt pay_key_before (map fst (pay_fields p))"
    unfolding pay_keys by (simp add: pay_key_before_def utf8_keys)
  have "sorted_wrt (\<lambda>a b. bytes_before (utf8 (fst a)) (utf8 (fst b))) (kept_fields (pay_fields p))"
    using sorted_wrt_filter [OF s [unfolded sorted_wrt_map], of "\<lambda>(k, v). v \<noteq> None \<and> \<not> zero_value (the v)"]
    by (simp add: kept_filter sorted_wrt_map pay_key_before_def case_prod_beta)
  moreover have "list_all (\<lambda>(k, v). \<not> zero_value v) (kept_fields (pay_fields p))"
    by (auto simp: kept_filter list_all_iff)
  ultimately show ?thesis using payment_encoded [OF assms] kept_says [of p] by blast
qed

lemma payment_reads_back_witness:
  "\<exists>bs fs. encodePayTransaction
      \<lparr>pay_from = [1, 2], pay_to = [3], pay_amount = 1500000,
       pay_params = \<lparr>ap_fee = 1000, ap_minFee = 1000, ap_firstValid = 7, ap_lastValid = 1007,
                     ap_genesisId = ''mainnet-v1.0'', ap_genesisHash = [9]\<rparr>, pay_note = None\<rparr> = Inr bs \<and>
     dec_map bs = Some (fs, []) \<and> msg_int (map_of fs ''amt'') = 1500000"
  using payment_reads_back [of "\<lparr>pay_from = [1, 2], pay_to = [3], pay_amount = 1500000,
       pay_params = \<lparr>ap_fee = 1000, ap_minFee = 1000, ap_firstValid = 7, ap_lastValid = 1007,
                     ap_genesisId = ''mainnet-v1.0'', ap_genesisHash = [9]\<rparr>, pay_note = None\<rparr>"]
  by (auto simp: payment_fits_def u64_def coalesce_def utf8_def utf8_char_def says_payment_def Let_def)

subsection \<open>What a send posts\<close>

definition asked :: "algo_env \<Rightarrow> algo_args \<Rightarrow> payment \<Rightarrow> bool" where
  "asked env a p \<longleftrightarrow>
     addressToPublicKey (b32decode env) (sha512_256 env) (a_fromAddress a) = Inr (pay_from p) \<and>
     addressToPublicKey (b32decode env) (sha512_256 env) (a_to a) = Inr (pay_to p) \<and>
     algoToMicro (a_amount a) = Inr (pay_amount p) \<and> 0 < pay_amount p \<and>
     fetchSuggestedParams (num_text env) (params_reply env) = Inr (pay_params p) \<and>
     balance_check (account_reply env) (pay_amount p) (ap_fee (pay_params p)) = Inr () \<and>
     pay_note p = map_option utf8 (keep_truthy (a_note a))"

text \<open>The wrapper of a signed transaction: the signature and the bytes it is over.\<close>

definition dec_signed :: "byte list \<Rightarrow> (byte list \<times> byte list) option" where
  "dec_signed bs =
     (if bs = [] \<or> hd bs \<noteq> 0x82 then None
      else case dec_msg (tl bs) of
             Some (MText k, r) \<Rightarrow>
               (if k \<noteq> ''sig'' then None
                else case dec_msg r of
                       Some (MBin s, r') \<Rightarrow>
                         (case dec_msg r' of
                            Some (MText j, txn) \<Rightarrow> if j = ''txn'' then Some (s, txn) else None
                          | _ \<Rightarrow> None)
                     | _ \<Rightarrow> None)
           | _ \<Rightarrow> None)"

lemma build_payment_Inr:
  assumes "build_payment env a = Inr (p, encoded, blob)"
  shows "asked env a p \<and> encodePayTransaction p = Inr encoded \<and>
    signTransaction (ed_sign env) encoded (a_privateKey a) = Inr blob"
  using assms by (auto simp: build_payment_def asked_def Let_def split: sum.splits if_splits)

lemma short_texts: "length (utf8 ''sig'') \<le> 255" "length (utf8 ''txn'') \<le> 255"
  by (simp_all add: utf8_def utf8_char_def)

lemma signed_opens:
  assumes "signTransaction sign encoded key = Inr blob"
  shows "dec_signed blob = Some (sign (utf8 ''TX'' @ encoded) key, encoded)"
proof -
  let ?s = "sign (utf8 ''TX'' @ encoded) key"
  obtain a where a: "encodeStr ''sig'' = Inr a" "\<And>r. dec_msg (a @ r) = Some (MText ''sig'', r)"
    using encodeStr_decode [OF short_texts(1)] by blast
  obtain c where c: "encodeStr ''txn'' = Inr c" "\<And>r. dec_msg (c @ r) = Some (MText ''txn'', r)"
    using encodeStr_decode [OF short_texts(2)] by blast
  obtain b where b: "encodeBin ?s = Inr b" "blob = 0x82 # a @ b @ c @ encoded"
    using assms a(1) c(1) by (auto simp: signTransaction_def split: sum.splits)
  have "length ?s \<le> 65535" using b(1) by (auto simp: encodeBin_def split: if_splits)
  then have "dec_msg (b @ r) = Some (MBin ?s, r)" for r
    using b(1) by (metis encodeBin_decode sum.inject(2))
  then show ?thesis using a(2) b(2) c(2) by (simp add: dec_signed_def)
qed

lemma sendAlgo_posted:
  assumes "sendAlgo env a = (posted, r)" "posted \<noteq> []"
  obtains p encoded blob where "build_payment env a = Inr (p, encoded, blob)" "posted = [blob]"
  using assms by (auto simp: sendAlgo_def Let_def split: sum.splits)

text \<open>The payment a reader of the signed bytes finds.\<close>

definition as_read :: "payment \<Rightarrow> payment" where
  "as_read p = p\<lparr>pay_amount := in_64_bits (pay_amount p),
     pay_params := (pay_params p)\<lparr>ap_fee := in_64_bits (ap_fee (pay_params p)),
       ap_firstValid := in_64_bits (ap_firstValid (pay_params p)),
       ap_lastValid := in_64_bits (ap_lastValid (pay_params p))\<rparr>\<rparr>"

lemma as_read_id: "payment_fits p \<Longrightarrow> as_read p = p"
  by (simp add: as_read_def in_64_bits_def payment_fits_def u64_def)

lemma kept_reads: "says_payment (map (\<lambda>(k, v). (k, read_value v)) (kept_fields (pay_fields p))) (as_read p)"
proof -
  have d: "distinct (map fst (pay_fields p))" unfolding pay_keys by simp
  show ?thesis by (simp add: says_payment_def map_of_map map_of_kept [OF d] Let_def)
    (simp add: pay_fields_def as_read_def in_64_bits_def coalesce_def split: option.split)
qed

lemma posted_bytes_read:
  assumes "encodePayTransaction p = Inr bs"
  obtains fs where "dec_map bs = Some (fs, [])" "says_payment fs (as_read p)"
  using canonical_map_reads [of "pay_fields p" bs "[]"] assms kept_reads [of p]
  by (intro that [of "map (\<lambda>(k, v). (k, read_value v)) (kept_fields (pay_fields p))"])
    (simp_all add: encodePayTransaction_def kept_sorted)

lemma balance_kept:
  assumes "balance_check (Reply st body) amount fee = Inr ()" "http_ok st"
  shows "\<exists>acct balance. body = Some acct \<and> js_BigInt (or_default (jget acct ''amount'') 0) = Some balance \<and>
    amount + fee + accountMinBalance (Some acct) \<le> balance"
  using assms by (auto simp: balance_check_def Let_def split: option.splits if_splits)

text \<open>C17. A send posts one blob at most, and only what was asked: its wrapper opens to the signature of the
  transaction's own bytes, both addresses passed their checksum and the amount is the typed decimal
  exactly and positive. The signed bytes always read back as that payment with each number reduced
  to its low 64 bits, so as the payment itself when its numbers fit; and where the node answered the
  request for the account, the amount, the fee and the account's minimum are within its balance. (A
  node that fails that request leaves the balance unchecked.)\<close>

theorem send_posts_what_was_asked:
  assumes "sendAlgo env a = (posted, r)" "posted \<noteq> []"
  shows "\<exists>p encoded blob fs. posted = [blob] \<and> asked env a p \<and>
    dec_signed blob = Some (ed_sign env (utf8 ''TX'' @ encoded) (a_privateKey a), encoded) \<and>
    dec_map encoded = Some (fs, []) \<and> says_payment fs (as_read p) \<and>
    (pay_amount p < 2 ^ 64 \<longrightarrow> pay_amount (as_read p) = pay_amount p) \<and>
    (payment_fits p \<longrightarrow> as_read p = p) \<and>
    (\<forall>st body. account_reply env = Reply st body \<and> http_ok st \<longrightarrow>
       (\<exists>acct balance. body = Some acct \<and> js_BigInt (or_default (jget acct ''amount'') 0) = Some balance \<and>
          pay_amount p + ap_fee (pay_params p) + accountMinBalance (Some acct) \<le> balance))"
proof -
  obtain p encoded blob where b: "build_payment env a = Inr (p, encoded, blob)" "posted = [blob]"
    using sendAlgo_posted [OF assms] .
  have k: "asked env a p" "encodePayTransaction p = Inr encoded" "signTransaction (ed_sign env) encoded (a_privateKey a) = Inr blob"
    using build_payment_Inr [OF b(1)] by auto
  obtain fs where fs: "dec_map encoded = Some (fs, [])" "says_payment fs (as_read p)"
    using posted_bytes_read [OF k(2)] .
  have "0 < pay_amount p" "balance_check (account_reply env) (pay_amount p) (ap_fee (pay_params p)) = Inr ()"
    using k(1) by (simp_all add: asked_def)
  then have "pay_amount p < 2 ^ 64 \<longrightarrow> pay_amount (as_read p) = pay_amount p"
    and "\<forall>st body. account_reply env = Reply st body \<and> http_ok st \<longrightarrow>
       (\<exists>acct balance. body = Some acct \<and> js_BigInt (or_default (jget acct ''amount'') 0) = Some balance \<and>
          pay_amount p + ap_fee (pay_params p) + accountMinBalance (Some acct) \<le> balance)"
    using balance_kept by (auto simp: as_read_def in_64_bits_def)
  then show ?thesis using k b(2) signed_opens [OF k(3)] fs as_read_id by blast
qed

definition sample_algo :: algo_env where
  "sample_algo = \<lparr>b32decode = \<lambda>_. Some (replicate 36 0), b32encode = \<lambda>_. [], sha512_256 = \<lambda>_. replicate 32 0,
     ed_sign = \<lambda>_ _. replicate 64 1, num_text = \<lambda>_. [],
     params_reply = Reply 200 (Some (JObj [(''min-fee'', JNum 1000), (''last-round'', JNum 7), (''genesis-id'', JStr ''m''),
       (''genesis-hash'', JStr [])])), account_reply = Reply 500 None, post_reply = \<lambda>_. Reply 200 None\<rparr>"

definition sample_payment :: algo_args where
  "sample_payment = \<lparr>a_privateKey = [], a_fromAddress = replicate 58 (CHR ''A''), a_to = replicate 58 (CHR ''A''),
     a_amount = ''5'', a_note = None\<rparr>"

lemma sample_public: "addressToPublicKey (b32decode sample_algo) (sha512_256 sample_algo) (replicate 58 (CHR ''A'')) = Inr (replicate 32 0)"
proof -
  have "js_trim (replicate 58 (CHR ''A'')) = replicate 58 (CHR ''A'')"
    by (rule js_trim_noop) (simp add: js_space_def)
  then show ?thesis by (simp add: addressToPublicKey_def sample_algo_def to_upper_def)
qed

lemma sample_params: "fetchSuggestedParams (num_text sample_algo) (params_reply sample_algo) =
    Inr \<lparr>ap_fee = 1000, ap_minFee = 1000, ap_firstValid = 7, ap_lastValid = 1007, ap_genesisId = ''m'', ap_genesisHash = []\<rparr>"
  by (simp add: fetchSuggestedParams_def sample_algo_def http_ok_def suggested_params_def or_default_def base64ToBytes_def Let_def)

lemma sample_posts: "\<exists>blob r. sendAlgo sample_algo sample_payment = ([blob], r)"
proof -
  let ?p = "\<lparr>pay_from = replicate 32 0, pay_to = replicate 32 0, pay_amount = 5000000,
     pay_params = \<lparr>ap_fee = 1000, ap_minFee = 1000, ap_firstValid = 7, ap_lastValid = 1007, ap_genesisId = ''m'', ap_genesisHash = []\<rparr>,
     pay_note = None\<rparr>"
  have "js_trim ''5'' = ''5''" by (rule js_trim_noop) (simp add: js_space_def)
  then have amount: "algoToMicro ''5'' = Inr 5000000"
    by (simp add: algoToMicro_def decimalToAtomic_whole [of "''5''" "''5''"] is_digit_def str_nat_def digit_val_def)
  have "payment_fits ?p" by (simp add: payment_fits_def u64_def utf8_def utf8_char_def)
  then obtain bs where "encodePayTransaction ?p = Inr bs" by (rule payment_encoded)
  moreover have "\<exists>b. signTransaction (ed_sign sample_algo) bs [] = Inr b"
    by (simp add: signTransaction_def sample_algo_def encodeStr_def encodeBin_def utf8_def utf8_char_def Let_def)
  ultimately show ?thesis using amount sample_public sample_params
    by (auto simp: sendAlgo_def build_payment_def sample_payment_def balance_check_def sample_algo_def http_ok_def Let_def)
qed

lemma send_posts_what_was_asked_witness:
  "\<exists>p encoded blob r fs. sendAlgo sample_algo sample_payment = ([blob], r) \<and> asked sample_algo sample_payment p \<and>
     dec_signed blob = Some (replicate 64 1, encoded) \<and> dec_map encoded = Some (fs, []) \<and> says_payment fs (as_read p)"
proof -
  obtain blob r where s: "sendAlgo sample_algo sample_payment = ([blob], r)" using sample_posts by blast
  have "ed_sign sample_algo m k = replicate 64 1" for m k by (simp add: sample_algo_def)
  then show ?thesis using send_posts_what_was_asked [OF s] s by auto
qed

fun unclear :: "algo_error \<Rightarrow> bool" where
  "unclear (OutcomeUnknown _) = True"
| "unclear _ = False"

definition refused_by_node :: "http_reply \<Rightarrow> bool" where
  "refused_by_node r \<longleftrightarrow> (case r of Reply st _ \<Rightarrow> 400 \<le> st \<and> st < 500 | NoAnswer \<Rightarrow> False)"

lemma codec_errors_clear:
  "encodeUint n = Inl e \<Longrightarrow> \<not> unclear e" "encodeStr s = Inl e \<Longrightarrow> \<not> unclear e" "encodeBin b = Inl e \<Longrightarrow> \<not> unclear e"
  by (auto simp: encodeUint_def encodeStr_def encodeBin_def Let_def split: if_splits)

lemma value_error_clear: "encodeValue v = Inl e \<Longrightarrow> \<not> unclear e"
  using codec_errors_clear by (cases v) auto

lemma parts_error_clear: "encode_parts kvs = Inl e \<Longrightarrow> \<not> unclear e"
  using codec_errors_clear value_error_clear
  by (induction kvs arbitrary: e) (auto split: sum.splits)

lemma pay_error_clear: "encodePayTransaction p = Inl e \<Longrightarrow> \<not> unclear e"
  using parts_error_clear by (auto simp: encodePayTransaction_def encodeCanonicalMap_def Let_def split: sum.splits if_splits)

lemma sign_error_clear: "signTransaction sign t k = Inl e \<Longrightarrow> \<not> unclear e"
  using codec_errors_clear by (auto simp: signTransaction_def Let_def split: sum.splits)

lemma step_errors_clear:
  "addressToPublicKey d h s = Inl e \<Longrightarrow> \<not> unclear e" "algoToMicro t = Inl e \<Longrightarrow> \<not> unclear e"
  "fetchSuggestedParams nt q = Inl e \<Longrightarrow> \<not> unclear e" "balance_check q m f = Inl e \<Longrightarrow> \<not> unclear e"
  by (auto simp: addressToPublicKey_def algoToMicro_def fetchSuggestedParams_def balance_check_def Let_def
      split: if_splits option.splits sum.splits http_reply.splits)

lemma build_error_clear: "build_payment env a = Inl e \<Longrightarrow> \<not> unclear e"
  using step_errors_clear pay_error_clear sign_error_clear
  by (auto simp: build_payment_def Let_def split: sum.splits if_splits)

text \<open>A send is reported as failed exactly when nothing was sent: no blob was posted, or the node refused
  the one that was. Every other answer, a lost connection or a gateway's error among them, is
  reported as an unknown outcome with the transaction's id, or is the success the node confirmed.\<close>

theorem failure_means_nothing_sent:
  "case sendAlgo env a of (posted, r) \<Rightarrow>
     ((\<exists>e. r = Inl e \<and> \<not> unclear e) \<longleftrightarrow> posted = [] \<or> refused_by_node (post_reply env (hd posted))) \<and>
     ((\<exists>h. r = Inr h) \<longleftrightarrow> (\<exists>st b. posted \<noteq> [] \<and> post_reply env (hd posted) = Reply st b \<and> http_ok st))"
  using build_error_clear [of env a]
  by (auto simp: sendAlgo_def submitTransaction_def refused_by_node_def http_ok_def Let_def
      split: sum.splits http_reply.splits if_splits)

text \<open>The integer encoder has no upper bound: a number past 64 bits is cut to its low 64 without an error,
  so what is signed is a different, smaller amount.\<close>

theorem large_amount_wraps:
  assumes "0 \<le> n" "n < 2 ^ 64"
  shows "\<exists>bs. encodeUint (2 ^ 64 + n) = Inr bs \<and> dec_msg bs = Some (MBig n, [])"
proof -
  have "be_bytes 8 (2 ^ 64 + n) = be_bytes 8 n"
    using be_bytes_mod [of 8 64 "2 ^ 64 + n"] be_bytes_mod [of 8 64 n] by (simp del: be_bytes.simps)
  then have "encodeUint (2 ^ 64 + n) = Inr (0xcf # be_bytes 8 n)"
    using assms encodeUint_be [of "2 ^ 64 + n"] by (simp del: be_bytes.simps)
  then show ?thesis using assms take_num_be [of n 8 "[]"] by (simp del: be_bytes.simps)
qed

lemma large_amount_wraps_witness:
  "\<exists>bs. encodeUint (2 ^ 64 + 5) = Inr bs \<and> dec_msg bs = Some (MBig 5, [])"
  using large_amount_wraps [of 5] by simp

end
