(* ===== verification/CardanoTx.thy ===== *)
theory CardanoTx
  imports Cbor DecimalAmount Json Interfaces
begin

section \<open>ADA transfers: wallets/cardano-tx.ts\<close>

text \<open>
  Who may be paid, which key may sign, the transaction's body, and the choice of inputs with the exact
  fee. bech32 and the hashes are parameters. \<open>settleFee\<close> loops until the fee covers the body it is
  encoded in: it is an option value, None standing for a loop that does not end, and \<open>planning_ends\<close>
  shows that it always does. A value that Koios reports as a text is read by \<open>BigInt\<close>.
\<close>

datatype ada_error =
    ByronAddress
  | NotCardanoAddress
  | TestnetAddress
  | StakeAddress
  | ScriptAddress
  | InvalidPaymentAddress
  | UndecodableAddress
  | KeyDoesNotControl
  | AmountMissing
  | BadAdaAmount decimal_error
  | BelowOutputMinimum
  | NoUtxos
  | AdaHeldWithTokens
  | InsufficientAda int int int bool
  | SmallChange int int int int "int option"
  | UnsupportedCbor
  | KoiosRaised string
  | KoiosRefused string
  | AdaOutcomeUnknown string
  | NotABigInt

definition MIN_UTXO_VALUE :: int where "MIN_UTXO_VALUE = 1000000"
definition TTL_OFFSET_SLOTS :: int where "TTL_OFFSET_SLOTS = 7200"

subsection \<open>Addresses\<close>

text \<open>\<open>bech32.decode\<close> and \<open>bech32.fromWords\<close>: the prefix and the words, and the bytes of the words.\<close>

record bech32_lib =
  b_decode :: "string \<Rightarrow> (string \<times> nat list) option"
  b_fromWords :: "nat list \<Rightarrow> byte list option"

definition decodeAddressBytes :: "bech32_lib \<Rightarrow> string \<Rightarrow> byte list option" where
  "decodeAddressBytes lib address = Option.bind (b_decode lib address) (\<lambda>(_, ws). b_fromWords lib ws)"

definition KEY_PAYMENT_TYPES :: "int list" where "KEY_PAYMENT_TYPES = [0, 2, 4, 6]"
definition SCRIPT_PAYMENT_TYPES :: "int list" where "SCRIPT_PAYMENT_TYPES = [1, 3, 5, 7]"
definition NETWORK_MAINNET :: int where "NETWORK_MAINNET = 1"

text \<open>One variable-length natural: bytes with the top bit set and one without, ten at most.\<close>

fun skip_natural :: "nat \<Rightarrow> byte list \<Rightarrow> byte list option" where
  "skip_natural len [] = None"
| "skip_natural len (b # r) =
     (if 10 < Suc len then None else if b AND 0x80 = 0 then Some r else skip_natural (Suc len) r)"

definition isPointerTail :: "byte list \<Rightarrow> bool" where
  "isPointerTail b =
     (Option.bind (Option.bind (skip_natural 0 b) (skip_natural 0)) (skip_natural 0) = Some [])"

definition base58_char :: "char \<Rightarrow> bool" where
  "base58_char c = (is_digit c \<and> c \<noteq> CHR ''0'' \<or>
     (let n = (of_char c :: nat)
      in (65 \<le> n \<and> n \<le> 90 \<and> c \<noteq> CHR ''I'' \<and> c \<noteq> CHR ''O'') \<or> (97 \<le> n \<and> n \<le> 122 \<and> c \<noteq> CHR ''l'')))"

definition byron_address :: "string \<Rightarrow> bool" where
  "byron_address a =
     (\<exists>p \<in> {''Ae2'', ''DdzFF''}. starts_with a p \<and> drop (length p) a \<noteq> [] \<and> list_all base58_char (drop (length p) a))"

definition addr_type :: "byte list \<Rightarrow> int" where
  "addr_type bytes = (case bytes of b # _ \<Rightarrow> uint b div 16 | [] \<Rightarrow> -1)"

definition addr_network :: "byte list \<Rightarrow> int" where
  "addr_network bytes = (case bytes of b # _ \<Rightarrow> uint b mod 16 | [] \<Rightarrow> -1)"

definition recipientAddressBytes :: "bech32_lib \<Rightarrow> string \<Rightarrow> ada_error + byte list" where
  "recipientAddressBytes lib address =
     (let a = js_trim address
      in if byron_address a then Inl ByronAddress
         else case b_decode lib a of
           None \<Rightarrow> Inl NotCardanoAddress
         | Some (prefix, ws) \<Rightarrow>
             if prefix = ''addr_test'' then Inl TestnetAddress
             else if prefix = ''stake'' \<or> prefix = ''stake_test'' then Inl StakeAddress
             else if prefix \<noteq> ''addr'' then Inl NotCardanoAddress
             else case b_fromWords lib ws of
                None \<Rightarrow> Inl UndecodableAddress
              | Some bytes \<Rightarrow>
                  let type = addr_type bytes; network = addr_network bytes;
                      lengthOk = (if type = 0 \<or> type = 2 then length bytes = 57
                                  else if type = 6 then length bytes = 29
                                  else if type = 4 then 29 < length bytes \<and> isPointerTail (drop 29 bytes)
                                  else False)
                  in if type \<in> set SCRIPT_PAYMENT_TYPES then Inl ScriptAddress
                     else if type \<notin> set KEY_PAYMENT_TYPES \<or> network \<noteq> NETWORK_MAINNET \<or> \<not> lengthOk
                     then Inl InvalidPaymentAddress
                     else Inr bytes)"

subsection \<open>Signers\<close>

record CardanoSigner =
  s_publicKey :: "byte list"
  s_sign :: "byte list \<Rightarrow> byte list"

definition assertSignerControls :: "(byte list \<Rightarrow> byte list) \<Rightarrow> byte list \<Rightarrow> CardanoSigner \<Rightarrow> bool" where
  "assertSignerControls blake224 fromBytes signer =
     (let credential = blake224 (s_publicKey signer)
      in addr_type fromBytes \<in> set KEY_PAYMENT_TYPES \<and> 29 \<le> length fromBytes \<and>
         take (length credential) (drop 1 fromBytes) = credential)"

subsection \<open>The body and the witnesses\<close>

record ada_output =
  o_address :: "byte list"
  o_coin :: int

record TxBodyInputs =
  tb_inputs :: "(byte list \<times> int) list"
  tb_outputs :: "ada_output list"
  tb_fee :: int
  tb_ttl :: int

definition buildTxBody :: "TxBodyInputs \<Rightarrow> CborValue" where
  "buildTxBody b =
     (let inputArray = arrayCbor (map (\<lambda>(h, i). arrayCbor [bytesCbor h, uintCbor i]) (tb_inputs b));
          outputArray = arrayCbor (map (\<lambda>p. arrayCbor [bytesCbor (o_address p), uintCbor (o_coin p)]) (tb_outputs b))
      in mapCbor [(uintCbor 0, inputArray), (uintCbor 1, outputArray),
                  (uintCbor 2, uintCbor (tb_fee b)), (uintCbor 3, uintCbor (tb_ttl b))])"

definition buildWitnessSet :: "(byte list \<times> byte list) list \<Rightarrow> CborValue" where
  "buildWitnessSet vkeys =
     mapCbor [(uintCbor 0, arrayCbor (map (\<lambda>(pubkey, sig). arrayCbor [bytesCbor pubkey, bytesCbor sig]) vkeys))]"

subsection \<open>Selecting inputs\<close>

record KoiosUtxo =
  u_tx_hash :: string
  u_tx_index :: int
  u_value :: string
  u_asset_list :: "(string \<times> string \<times> string) list option"

definition lovelace :: "KoiosUtxo \<Rightarrow> int" where
  "lovelace u = coalesce (js_BigInt_text (u_value u)) 0"

definition ada_only :: "KoiosUtxo \<Rightarrow> bool" where
  "ada_only u = (case u_asset_list u of None \<Rightarrow> True | Some as \<Rightarrow> as = [])"

text \<open>\<open>BigInt\<close> throws where a value is no number; every value kept is read by the comparison or by the
  loop that adds them.\<close>

definition spendableLargestFirst :: "KoiosUtxo list \<Rightarrow> KoiosUtxo list option" where
  "spendableLargestFirst utxos =
     (let kept = filter ada_only utxos
      in if list_all (\<lambda>u. js_BigInt_text (u_value u) \<noteq> None) kept
         then Some (sort_by (\<lambda>a b. lovelace b < lovelace a) kept) else None)"

fun select_until :: "int \<Rightarrow> KoiosUtxo list \<Rightarrow> int \<Rightarrow> KoiosUtxo list \<Rightarrow> KoiosUtxo list \<times> int" where
  "select_until target selected tot [] = (selected, tot)"
| "select_until target selected tot (u # us) =
     (let tot' = tot + lovelace u
      in if target \<le> tot' then (selected @ [u], tot') else select_until target (selected @ [u]) tot' us)"

definition selectUtxosForAmount :: "KoiosUtxo list \<Rightarrow> int \<Rightarrow> int \<Rightarrow> (KoiosUtxo list \<times> int) option" where
  "selectUtxosForAmount utxos amount feeFloor =
     map_option (select_until (amount + feeFloor + MIN_UTXO_VALUE) [] 0) (spendableLargestFirst utxos)"

subsection \<open>Settling the fee\<close>

definition WITNESS_BYTES :: int where "WITNESS_BYTES = 110"

definition body_bytes :: "KoiosUtxo list \<Rightarrow> ada_output list \<Rightarrow> int \<Rightarrow> int \<Rightarrow> byte list" where
  "body_bytes inputs outputs fee ttl =
     encodeCbor (buildTxBody \<lparr>tb_inputs = map (\<lambda>u. (hexToBytes (u_tx_hash u), u_tx_index u)) inputs,
                              tb_outputs = outputs, tb_fee = fee, tb_ttl = ttl\<rparr>)"

record settled =
  st_fee :: int
  st_body :: "byte list"
  st_outputs :: "ada_output list"

partial_function (option) settle_loop ::
    "KoiosUtxo list \<Rightarrow> (int \<Rightarrow> ada_output list) \<Rightarrow> int \<Rightarrow> int \<Rightarrow> int \<Rightarrow> int \<Rightarrow> settled option" where
  "settle_loop inputs outputsFor ttl minA minB fee =
     (let outputs = outputsFor fee;
          body = body_bytes inputs outputs fee ttl;
          required = (int (length body) + WITNESS_BYTES) * minA + minB
      in if required \<le> fee then Some \<lparr>st_fee = fee, st_body = body, st_outputs = outputs\<rparr>
         else settle_loop inputs outputsFor ttl minA minB required)"

definition settleFee ::
    "KoiosUtxo list \<Rightarrow> (int \<Rightarrow> ada_output list) \<Rightarrow> int \<Rightarrow> int \<Rightarrow> int \<Rightarrow> settled option" where
  "settleFee inputs outputsFor ttl minA minB = settle_loop inputs outputsFor ttl minA minB minB"

subsection \<open>The plan\<close>

record plan_args =
  pa_amount :: int
  pa_to :: "byte list"
  pa_from :: "byte list"
  pa_ttl :: int
  pa_minA :: int
  pa_minB :: int

record Plan =
  pl_inputs :: "KoiosUtxo list"
  pl_outputs :: "ada_output list"
  pl_fee :: int
  pl_body :: "byte list"

definition exactFor :: "plan_args \<Rightarrow> KoiosUtxo list \<Rightarrow> int \<Rightarrow> settled option" where
  "exactFor a inputs send =
     settleFee inputs (\<lambda>_. [\<lparr>o_address = pa_to a, o_coin = send\<rparr>]) (pa_ttl a) (pa_minA a) (pa_minB a)"

definition withChangeFor :: "plan_args \<Rightarrow> KoiosUtxo list \<Rightarrow> int \<Rightarrow> int \<Rightarrow> settled option" where
  "withChangeFor a inputs send tot =
     settleFee inputs
       (\<lambda>fee. let change = tot - send - fee
              in [\<lparr>o_address = pa_to a, o_coin = send\<rparr>,
                  \<lparr>o_address = pa_from a, o_coin = (if 0 < change then change else 0)\<rparr>])
       (pa_ttl a) (pa_minA a) (pa_minB a)"

definition plan_of :: "KoiosUtxo list \<Rightarrow> settled \<Rightarrow> Plan" where
  "plan_of inputs s = \<lparr>pl_inputs = inputs, pl_outputs = st_outputs s, pl_fee = st_fee s, pl_body = st_body s\<rparr>"

text \<open>The loop: a plan, or the total, the rest and the fee it ended with.\<close>

fun plan_loop :: "plan_args \<Rightarrow> KoiosUtxo list \<Rightarrow> KoiosUtxo list \<Rightarrow> int \<Rightarrow> int \<Rightarrow> int \<Rightarrow> (Plan + int \<times> int \<times> int) option" where
  "plan_loop a taken [] tot rest exactFee = Some (Inr (tot, rest, exactFee))"
| "plan_loop a taken (u # us) tot rest exactFee =
     (let inputs = taken @ [u]; tot' = tot + lovelace u
      in Option.bind (withChangeFor a inputs (pa_amount a) tot') (\<lambda>withChange.
           if MIN_UTXO_VALUE \<le> tot' - pa_amount a - st_fee withChange then Some (Inl (plan_of inputs withChange))
           else Option.bind (exactFor a inputs (pa_amount a)) (\<lambda>exact.
             let rest' = tot' - pa_amount a - st_fee exact
             in if rest' = 0 then Some (Inl (plan_of inputs exact))
                else plan_loop a inputs us tot' rest' (st_fee exact))))"

fun send_all_loop :: "nat \<Rightarrow> plan_args \<Rightarrow> KoiosUtxo list \<Rightarrow> int \<Rightarrow> int \<Rightarrow> int option" where
  "send_all_loop 0 a us tot sendAll = Some sendAll"
| "send_all_loop (Suc i) a us tot sendAll =
     Option.bind (exactFor a us sendAll) (\<lambda>s.
       let nxt = tot - st_fee s
       in if nxt = sendAll then Some sendAll else send_all_loop i a us tot nxt)"

fun keep_loop :: "nat \<Rightarrow> plan_args \<Rightarrow> KoiosUtxo list \<Rightarrow> int \<Rightarrow> int \<Rightarrow> int option" where
  "keep_loop 0 a us tot keep = Some keep"
| "keep_loop (Suc i) a us tot keep =
     (if keep \<le> 0 then Some keep
      else Option.bind (withChangeFor a us keep tot) (\<lambda>s.
        let nxt = tot - st_fee s - MIN_UTXO_VALUE
        in if nxt = keep then Some keep else keep_loop i a us tot nxt))"

definition small_change :: "plan_args \<Rightarrow> KoiosUtxo list \<Rightarrow> int \<Rightarrow> int \<Rightarrow> int \<Rightarrow> ada_error option" where
  "small_change a us tot rest exactFee =
     Option.bind (send_all_loop 4 a us tot (tot - exactFee)) (\<lambda>sendAll.
     Option.bind (withChangeFor a us (pa_amount a) tot) (\<lambda>s.
     Option.bind (keep_loop 4 a us tot (tot - st_fee s - MIN_UTXO_VALUE)) (\<lambda>keep.
       Some (SmallChange (pa_amount a) rest sendAll (tot - sendAll)
               (if MIN_UTXO_VALUE \<le> keep then Some keep else None)))))"

definition planTransfer :: "KoiosUtxo list \<Rightarrow> plan_args \<Rightarrow> (ada_error + Plan) option" where
  "planTransfer utxos a =
     (case spendableLargestFirst utxos of
        None \<Rightarrow> Some (Inl NotABigInt)
      | Some us \<Rightarrow>
          Option.bind (plan_loop a [] us 0 (-1) 0) (\<lambda>r.
            case r of
              Inl p \<Rightarrow> Some (Inr p)
            | Inr (tot, rest, exactFee) \<Rightarrow>
                if us = [] then Some (Inl AdaHeldWithTokens)
                else if rest < 0
                then Some (Inl (InsufficientAda tot (pa_amount a + exactFee) exactFee (length us < length utxos)))
                else map_option Inl (small_change a us tot rest exactFee)))"

subsection \<open>The fee settles\<close>

lemma length_head_le: "length (head mt v) \<le> 9"
  by (simp add: head_split head_args_def)

definition output_room :: "byte list \<Rightarrow> nat" where "output_room a = length a + 27"

definition input_room :: "KoiosUtxo \<Rightarrow> nat" where "input_room u = length (hexToBytes (u_tx_hash u)) + 27"

lemma enc_pair_le: "length (enc (CArray [CBytes b, CUint n])) \<le> length b + 27"
  using length_head_le [of MT_ARRAY 2] length_head_le [of MT_BYTES "int (length b)"] length_head_le [of MT_UINT n] by simp

lemma concat_pairs_le:
  "length (concat (map (\<lambda>x. enc (CArray [CBytes (f x), CUint (g x)])) xs)) \<le> sum_list (map (\<lambda>x. length (f x) + 27) xs)"
proof (induction xs)
  case (Cons x xs)
  then show ?case using enc_pair_le [of "f x" "g x"] by (simp del: enc.simps)
qed simp

lemma body_bytes_le:
  "length (body_bytes inputs outputs fee ttl) \<le>
     81 + sum_list (map input_room inputs) + sum_list (map output_room (map o_address outputs))"
proof -
  let ?i = "\<lambda>u. enc (CArray [CBytes (hexToBytes (u_tx_hash u)), CUint (u_tx_index u)])"
  let ?o = "\<lambda>p. enc (CArray [CBytes (o_address p), CUint (o_coin p)])"
  have "body_bytes inputs outputs fee ttl =
      head MT_MAP 4 @ head MT_UINT 0 @ head MT_ARRAY (int (length inputs)) @ concat (map ?i inputs) @
      head MT_UINT 1 @ head MT_ARRAY (int (length outputs)) @ concat (map ?o outputs) @
      head MT_UINT 2 @ head MT_UINT fee @ head MT_UINT 3 @ head MT_UINT ttl"
    by (simp add: body_bytes_def encodeCbor_enc buildTxBody_def mapCbor_def arrayCbor_def uintCbor_def bytesCbor_def
        o_def)
  moreover have "length (concat (map ?i inputs)) \<le> sum_list (map input_room inputs)"
    using concat_pairs_le [of "\<lambda>u. hexToBytes (u_tx_hash u)" u_tx_index inputs] by (simp add: input_room_def [abs_def] del: enc.simps)
  moreover have "length (concat (map ?o outputs)) \<le> sum_list (map output_room (map o_address outputs))"
    using concat_pairs_le [of o_address o_coin outputs] by (simp add: output_room_def [abs_def] o_def del: enc.simps)
  ultimately show ?thesis
    using length_head_le [of MT_MAP 4] length_head_le [of MT_UINT 0] length_head_le [of MT_ARRAY "int (length inputs)"]
      length_head_le [of MT_UINT 1] length_head_le [of MT_ARRAY "int (length outputs)"] length_head_le [of MT_UINT 2]
      length_head_le [of MT_UINT fee] length_head_le [of MT_UINT 3] length_head_le [of MT_UINT ttl]
    by (simp del: enc.simps)
qed

lemma settle_loop_returns:
  assumes "0 \<le> minA" "\<And>f. map o_address (outputsFor f) = addrs"
  shows "\<exists>s. settle_loop inputs outputsFor ttl minA minB fee = Some s"
proof -
  define K where "K = (int (81 + sum_list (map input_room inputs) + sum_list (map output_room addrs)) + WITNESS_BYTES) * minA + minB"
  have K: "(int (length (body_bytes inputs (outputsFor f) f ttl)) + WITNESS_BYTES) * minA + minB \<le> K" for f
    using body_bytes_le [of inputs "outputsFor f" f ttl] assms unfolding K_def
    by (intro add_right_mono mult_right_mono) simp_all
  show ?thesis
  proof (induction "nat (K - fee)" arbitrary: fee rule: less_induct)
    case less
    let ?req = "(int (length (body_bytes inputs (outputsFor fee) fee ttl)) + WITNESS_BYTES) * minA + minB"
    show ?case
    proof (cases "?req \<le> fee")
      case True
      then show ?thesis by (subst settle_loop.simps) (simp add: Let_def)
    next
      case False
      then have "nat (K - ?req) < nat (K - fee)" using K [of fee] by linarith
      then show ?thesis using less False by (subst settle_loop.simps) (simp add: Let_def)
    qed
  qed
qed

lemma settle_loop_result:
  assumes "settle_loop inputs outputsFor ttl minA minB fee = Some s"
  shows "st_outputs s = outputsFor (st_fee s) \<and> st_body s = body_bytes inputs (st_outputs s) (st_fee s) ttl \<and>
    (int (length (st_body s)) + WITNESS_BYTES) * minA + minB \<le> st_fee s \<and> fee \<le> st_fee s"
  using assms
proof (rule settle_loop.raw_induct [rotated], goal_cases)
  case (1 settle ins f t a b fee s)
  then show ?case by (fastforce simp: Let_def split: if_splits)
qed

lemma withChange_total: "0 \<le> pa_minA a \<Longrightarrow> \<exists>s. withChangeFor a inputs send tot = Some s"
  unfolding withChangeFor_def settleFee_def
  by (rule settle_loop_returns [where addrs = "[pa_to a, pa_from a]"]) (simp_all add: Let_def)

lemma exact_total: "0 \<le> pa_minA a \<Longrightarrow> \<exists>s. exactFor a inputs send = Some s"
  unfolding exactFor_def settleFee_def
  by (rule settle_loop_returns [where addrs = "[pa_to a]"]) simp_all

lemma plan_loop_total: "0 \<le> pa_minA a \<Longrightarrow> \<exists>r. plan_loop a taken us tot rest f = Some r"
proof (induction us arbitrary: taken tot rest f)
  case (Cons u us)
  show ?case using Cons withChange_total [OF Cons.prems, of "taken @ [u]" "pa_amount a" "tot + lovelace u"]
      exact_total [OF Cons.prems, of "taken @ [u]" "pa_amount a"]
    by (auto simp: Let_def)
qed simp

lemma send_all_total: "0 \<le> pa_minA a \<Longrightarrow> \<exists>r. send_all_loop i a us tot n = Some r"
proof (induction i arbitrary: n)
  case (Suc i)
  then show ?case using exact_total [OF Suc.prems, of us n] by (auto simp: Let_def)
qed simp

lemma keep_total: "0 \<le> pa_minA a \<Longrightarrow> \<exists>r. keep_loop i a us tot n = Some r"
proof (induction i arbitrary: n)
  case (Suc i)
  then show ?case using withChange_total [OF Suc.prems, of us n tot] by (auto simp: Let_def)
qed simp

text \<open>C33. Planning a transfer ends: whatever Koios reports and whatever the amount, the fee of every
  candidate transaction settles as long as the ledger's price of a byte is not negative.\<close>

theorem planning_ends: "0 \<le> pa_minA a \<Longrightarrow> \<exists>r. planTransfer utxos a = Some r"
proof -
  assume m: "0 \<le> pa_minA a"
  have "\<exists>e. small_change a us tot rest f = Some e" for us tot rest f
  proof -
    obtain x where "send_all_loop 4 a us tot (tot - f) = Some x" using send_all_total [OF m] by blast
    moreover obtain s where "withChangeFor a us (pa_amount a) tot = Some s" using withChange_total [OF m] by blast
    moreover obtain k where "keep_loop 4 a us tot (tot - st_fee s - MIN_UTXO_VALUE) = Some k" using keep_total [OF m] by blast
    ultimately show ?thesis by (simp add: small_change_def)
  qed
  note small = this
  show ?thesis
  proof (cases "spendableLargestFirst utxos")
    case None
    then show ?thesis by (simp add: planTransfer_def)
  next
    case (Some us)
    obtain r where r: "plan_loop a [] us 0 (-1) 0 = Some r" using plan_loop_total [OF m] by blast
    show ?thesis
    proof (cases r)
      case (Inl p)
      then show ?thesis using Some r by (simp add: planTransfer_def)
    next
      case (Inr q)
      obtain t rest f where q: "q = (t, rest, f)" by (cases q)
      obtain e where "small_change a us t rest f = Some e" using small by blast
      then show ?thesis using Some r Inr q by (simp add: planTransfer_def)
    qed
  qed
qed

lemma planning_ends_witness:
  "\<exists>r. planTransfer [] \<lparr>pa_amount = 2000000, pa_to = [], pa_from = [], pa_ttl = 9, pa_minA = 44, pa_minB = 155381\<rparr> = Some r"
  by (rule planning_ends) simp

subsection \<open>A plan balances\<close>

definition total_lovelace :: "KoiosUtxo list \<Rightarrow> int" where
  "total_lovelace us = sum_list (map lovelace us)"

definition pays_exactly :: "plan_args \<Rightarrow> ada_output list \<Rightarrow> bool" where
  "pays_exactly a outs \<longleftrightarrow>
     outs = [\<lparr>o_address = pa_to a, o_coin = pa_amount a\<rparr>] \<or>
     (\<exists>c \<ge> MIN_UTXO_VALUE. outs = [\<lparr>o_address = pa_to a, o_coin = pa_amount a\<rparr>, \<lparr>o_address = pa_from a, o_coin = c\<rparr>])"

definition balanced :: "plan_args \<Rightarrow> Plan \<Rightarrow> bool" where
  "balanced a p \<longleftrightarrow>
     total_lovelace (pl_inputs p) = sum_list (map o_coin (pl_outputs p)) + pl_fee p \<and>
     pays_exactly a (pl_outputs p) \<and>
     pl_body p = body_bytes (pl_inputs p) (pl_outputs p) (pl_fee p) (pa_ttl a) \<and>
     (int (length (pl_body p)) + WITNESS_BYTES) * pa_minA a + pa_minB a \<le> pl_fee p"

lemma withChange_result:
  assumes "withChangeFor a inputs send tot = Some s"
  shows "st_outputs s = [\<lparr>o_address = pa_to a, o_coin = send\<rparr>,
      \<lparr>o_address = pa_from a, o_coin = (if 0 < tot - send - st_fee s then tot - send - st_fee s else 0)\<rparr>] \<and>
    st_body s = body_bytes inputs (st_outputs s) (st_fee s) (pa_ttl a) \<and>
    (int (length (st_body s)) + WITNESS_BYTES) * pa_minA a + pa_minB a \<le> st_fee s"
  using settle_loop_result [OF assms [unfolded withChangeFor_def settleFee_def]] by (auto simp: Let_def)

lemma exact_result:
  assumes "exactFor a inputs send = Some s"
  shows "st_outputs s = [\<lparr>o_address = pa_to a, o_coin = send\<rparr>] \<and>
    st_body s = body_bytes inputs (st_outputs s) (st_fee s) (pa_ttl a) \<and>
    (int (length (st_body s)) + WITNESS_BYTES) * pa_minA a + pa_minB a \<le> st_fee s"
  using settle_loop_result [OF assms [unfolded exactFor_def settleFee_def]] by auto

lemma withChange_balanced:
  assumes "withChangeFor a inputs (pa_amount a) (total_lovelace inputs) = Some s"
    "MIN_UTXO_VALUE \<le> total_lovelace inputs - pa_amount a - st_fee s"
  shows "balanced a (plan_of inputs s)"
  using withChange_result [OF assms(1)] assms(2)
  by (auto simp: balanced_def plan_of_def pays_exactly_def MIN_UTXO_VALUE_def)

lemma exact_balanced:
  assumes "exactFor a inputs (pa_amount a) = Some s" "total_lovelace inputs - pa_amount a - st_fee s = 0"
  shows "balanced a (plan_of inputs s)"
  using exact_result [OF assms(1)] assms(2) by (auto simp: balanced_def plan_of_def pays_exactly_def)

lemma plan_loop_plan:
  assumes "plan_loop a taken us (total_lovelace taken) rest f = Some (Inl p)"
  shows "balanced a p \<and> (\<exists>n. pl_inputs p = taken @ take (Suc n) us)"
  using assms
proof (induction us arbitrary: taken rest f)
  case (Cons u us)
  let ?in = "taken @ [u]"
  have t: "total_lovelace taken + lovelace u = total_lovelace ?in" by (simp add: total_lovelace_def)
  obtain w where w: "withChangeFor a ?in (pa_amount a) (total_lovelace ?in) = Some w"
    using Cons.prems by (auto simp: t Let_def bind_eq_Some_conv)
  show ?case
  proof (cases "MIN_UTXO_VALUE \<le> total_lovelace ?in - pa_amount a - st_fee w")
    case True
    then have "p = plan_of ?in w" using Cons.prems w by (simp add: t Let_def)
    then show ?thesis using withChange_balanced [OF w True] by (auto simp: plan_of_def intro: exI [of _ 0])
  next
    case False
    then obtain x where x: "exactFor a ?in (pa_amount a) = Some x"
      using Cons.prems w by (auto simp: t Let_def bind_eq_Some_conv)
    show ?thesis
    proof (cases "total_lovelace ?in - pa_amount a - st_fee x = 0")
      case True
      then have "p = plan_of ?in x" using Cons.prems w x False by (simp add: t Let_def)
      then show ?thesis using exact_balanced [OF x True] by (auto simp: plan_of_def intro: exI [of _ 0])
    next
      case no: False
      then have "plan_loop a ?in us (total_lovelace ?in) (total_lovelace ?in - pa_amount a - st_fee x) (st_fee x) = Some (Inl p)"
        using Cons.prems w x False by (simp add: t Let_def)
      from Cons.IH [OF this] show ?thesis by (auto intro: exI [of _ "Suc _"])
    qed
  qed
qed simp

lemma spendable_sorted:
  assumes "spendableLargestFirst utxos = Some us"
  shows "mset us = mset (filter ada_only utxos)" "sorted_wrt (\<lambda>u v. lovelace v \<le> lovelace u) us"
proof -
  have us: "us = sort_by (\<lambda>a b. lovelace b < lovelace a) (filter ada_only utxos)"
    using assms by (auto simp: spendableLargestFirst_def Let_def split: if_splits)
  show "mset us = mset (filter ada_only utxos)" by (simp add: us)
  have "weak_order (\<lambda>a b. lovelace b < lovelace a)" by (auto simp: weak_order_def)
  from by_less_sort_by [OF this, of "filter ada_only utxos"]
  show "sorted_wrt (\<lambda>u v. lovelace v \<le> lovelace u) us" by (simp add: us not_less)
qed

lemma planTransfer_cases:
  assumes "planTransfer utxos a = Some r" "spendableLargestFirst utxos = Some us"
  obtains (plan) p where "r = Inr p" "plan_loop a [] us (total_lovelace []) (-1) 0 = Some (Inl p)"
  | (refused) t rest f e where "plan_loop a [] us (total_lovelace []) (-1) 0 = Some (Inr (t, rest, f))" "r = Inl e"
      "us = [] \<and> e = AdaHeldWithTokens \<or>
       us \<noteq> [] \<and> rest < 0 \<and> e = InsufficientAda t (pa_amount a + f) f (length us < length utxos) \<or>
       us \<noteq> [] \<and> 0 \<le> rest \<and> small_change a us t rest f = Some e"
proof -
  obtain x where x: "plan_loop a [] us (total_lovelace []) (-1) 0 = Some x"
    using assms by (auto simp: planTransfer_def total_lovelace_def bind_eq_Some_conv)
  show thesis
  proof (cases x)
    case (Inl p)
    then show thesis using assms x by (intro plan [of p]) (simp_all add: planTransfer_def total_lovelace_def)
  next
    case (Inr q)
    obtain t rest f where q: "q = (t, rest, f)" by (cases q)
    have "(if us = [] then Some (Inl AdaHeldWithTokens)
           else if rest < 0 then Some (Inl (InsufficientAda t (pa_amount a + f) f (length us < length utxos)))
           else map_option Inl (small_change a us t rest f)) = Some r"
      using assms x Inr q by (simp add: planTransfer_def total_lovelace_def)
    then show thesis using x Inr q
      by (auto split: if_splits intro: refused)
  qed
qed

lemma planTransfer_plan:
  assumes "planTransfer utxos a = Some (Inr p)"
  obtains us n where "balanced a p" "pl_inputs p = take (Suc n) us" "mset us = mset (filter ada_only utxos)"
    "sorted_wrt (\<lambda>u v. lovelace v \<le> lovelace u) us"
proof -
  obtain us where us: "spendableLargestFirst utxos = Some us"
    using assms by (auto simp: planTransfer_def split: option.splits)
  then have "plan_loop a [] us (total_lovelace []) (-1) 0 = Some (Inl p)"
    by (rule planTransfer_cases [OF assms]) auto
  from plan_loop_plan [OF this] show thesis using that spendable_sorted [OF us] by auto
qed

text \<open>C8. A planned transfer keeps every lovelace: the inputs are exactly the outputs and the fee, the
  recipient gets the amount to the unit, what is left returns to the sender in an output of at least
  one ADA or there is nothing left, the fee covers the bytes of the body and the witness, and the
  inputs are the largest of the address's outputs that hold no token.\<close>

theorem plan_keeps_every_lovelace:
  assumes "planTransfer utxos a = Some (Inr p)"
  shows "balanced a p \<and> (\<exists>us n. pl_inputs p = take (Suc n) us \<and> mset us = mset (filter ada_only utxos) \<and>
    sorted_wrt (\<lambda>u v. lovelace v \<le> lovelace u) us)"
  using planTransfer_plan [OF assms] by metis

lemma plan_loop_end:
  assumes "plan_loop a taken us (total_lovelace taken) rest f = Some (Inr (t, rest', f'))" "us \<noteq> []"
  shows "t = total_lovelace (taken @ us) \<and> rest' \<noteq> 0 \<and> rest' = t - pa_amount a - f' \<and>
    (\<exists>s. exactFor a (taken @ us) (pa_amount a) = Some s \<and> f' = st_fee s)"
  using assms
proof (induction us arbitrary: taken rest f)
  case (Cons u us)
  let ?in = "taken @ [u]"
  have t: "total_lovelace taken + lovelace u = total_lovelace ?in" by (simp add: total_lovelace_def)
  obtain x where x: "exactFor a ?in (pa_amount a) = Some x" "total_lovelace ?in - pa_amount a - st_fee x \<noteq> 0"
      "plan_loop a ?in us (total_lovelace ?in) (total_lovelace ?in - pa_amount a - st_fee x) (st_fee x) = Some (Inr (t, rest', f'))"
    using Cons.prems(1) by (auto simp: t Let_def bind_eq_Some_conv split: if_splits)
  show ?case using Cons.IH [OF x(3)] x by (cases "us = []") auto
qed simp

text \<open>What a refusal says is so: every output without tokens was counted, the fee is the one of the
  transaction without change over all of them, and the numbers named follow from the two.\<close>

fun refusal_true :: "KoiosUtxo list \<Rightarrow> plan_args \<Rightarrow> ada_error \<Rightarrow> bool" where
  "refusal_true us a AdaHeldWithTokens = (us = [])"
| "refusal_true us a (InsufficientAda t need f tokens) =
     (t = total_lovelace us \<and> need = pa_amount a + f \<and> t < need \<and> map_option st_fee (exactFor a us (pa_amount a)) = Some f)"
| "refusal_true us a (SmallChange amount rest sendAll allFee keep) =
     (amount = pa_amount a \<and> 0 < rest \<and> sendAll + allFee = total_lovelace us \<and>
      map_option (\<lambda>s. total_lovelace us - amount - st_fee s) (exactFor a us amount) = Some rest)"
| "refusal_true us a _ = False"

text \<open>A refused transfer is refused for the reason it names, with the numbers it names: no output is free
  of tokens, or all of them together are short of the amount and the exact fee, or the change is
  positive and all of it would have gone to the fee.\<close>

theorem refusal_names_the_reason:
  assumes "planTransfer utxos a = Some (Inl e)" "spendableLargestFirst utxos = Some us"
  shows "refusal_true us a e"
proof (rule planTransfer_cases [OF assms])
  fix t rest f e'
  assume l: "plan_loop a [] us (total_lovelace []) (-1) 0 = Some (Inr (t, rest, f))" and "Inl e = (Inl e' :: ada_error + Plan)"
    and r: "us = [] \<and> e' = AdaHeldWithTokens \<or>
       us \<noteq> [] \<and> rest < 0 \<and> e' = InsufficientAda t (pa_amount a + f) f (length us < length utxos) \<or>
       us \<noteq> [] \<and> 0 \<le> rest \<and> small_change a us t rest f = Some e'"
  then have e: "e' = e" by simp
  show ?thesis
  proof (cases "us = []")
    case False
    from plan_loop_end [OF l False] obtain s where s: "t = total_lovelace us" "rest \<noteq> 0" "rest = t - pa_amount a - f"
      "exactFor a us (pa_amount a) = Some s" "f = st_fee s" by auto
    then show ?thesis using r False unfolding e by (auto simp: small_change_def bind_eq_Some_conv)
  qed (use r e in simp)
qed simp

subsection \<open>Two concrete plans\<close>

lemma settle_two:
  assumes "int (length (body_bytes inputs (f b) b ttl)) = n" "int (length (body_bytes inputs (f fee) fee ttl)) = n"
    "fee = (n + WITNESS_BYTES) * a + b" "b < fee"
  shows "settle_loop inputs f ttl a b b = Some \<lparr>st_fee = fee, st_body = body_bytes inputs (f fee) fee ttl, st_outputs = f fee\<rparr>"
proof -
  have "settle_loop inputs f ttl a b b = settle_loop inputs f ttl a b fee"
    by (subst settle_loop.simps) (use assms in \<open>simp add: Let_def\<close>)
  also have "\<dots> = Some \<lparr>st_fee = fee, st_body = body_bytes inputs (f fee) fee ttl, st_outputs = f fee\<rparr>"
    by (subst settle_loop.simps) (use assms in \<open>simp add: Let_def\<close>)
  finally show ?thesis .
qed

lemmas body_length = body_bytes_def encodeCbor_enc buildTxBody_def mapCbor_def arrayCbor_def uintCbor_def bytesCbor_def
  length_head head_len_def

definition sample_utxo :: "string \<Rightarrow> KoiosUtxo" where
  "sample_utxo v = \<lparr>u_tx_hash = replicate 64 (CHR ''0''), u_tx_index = 0, u_value = v, u_asset_list = None\<rparr>"

definition sample_args :: plan_args where
  "sample_args = \<lparr>pa_amount = 2000000, pa_to = replicate 57 0, pa_from = replicate 57 0, pa_ttl = 100000000,
     pa_minA = 44, pa_minB = 155381\<rparr>"

lemma sample_hash: "length (hexToBytes (u_tx_hash (sample_utxo v))) = 32" "u_tx_index (sample_utxo v) = 0"
  by (simp_all add: sample_utxo_def hexToBytes_def starts_with_def numeral_eq_Suc)

lemma sample_exact:
  "65536 \<le> n \<Longrightarrow> n < 4294967296 \<Longrightarrow> map_option st_fee (exactFor sample_args [sample_utxo v] n) = Some 165413"
  unfolding exactFor_def settleFee_def
  by (subst settle_two [where n = 118 and fee = 165413]) (simp_all add: sample_args_def WITNESS_BYTES_def body_length sample_hash)

lemma sample_change:
  "65536 \<le> n \<Longrightarrow> n < 4294967296 \<Longrightarrow> 300000 \<le> t - n \<Longrightarrow> t - n < 4294967296 \<Longrightarrow>
   map_option st_fee (withChangeFor sample_args [sample_utxo v] n t) = Some 168273"
  unfolding withChangeFor_def settleFee_def
  by (subst settle_two [where n = 183 and fee = 168273]) (simp_all add: sample_args_def WITNESS_BYTES_def body_length sample_hash Let_def)

lemma sample_value: "js_BigInt_text ''3168272'' = Some 3168272" "js_BigInt_text ''1000000'' = Some 1000000"
    "js_BigInt_text ''5000000'' = Some 5000000"
  by (simp_all add: js_BigInt_text_def js_trim_def js_space_def Let_def to_lower_def lower_char_def is_digit_def str_nat_def
      digit_val_def)

lemma sample_spendable:
  assumes "js_BigInt_text v = Some n"
  shows "spendableLargestFirst [sample_utxo v] = Some [sample_utxo v]" "lovelace (sample_utxo v) = n"
  using assms by (simp_all add: spendableLargestFirst_def ada_only_def sample_utxo_def lovelace_def)

lemma sample_total: "total_lovelace [sample_utxo v] = lovelace (sample_utxo v)"
  by (simp add: total_lovelace_def)

lemma sample_plan:
  "\<exists>p. planTransfer [sample_utxo ''5000000''] sample_args = Some (Inr p) \<and> pl_fee p = 168273 \<and> pl_inputs p = [sample_utxo ''5000000'']"
proof -
  obtain w where w: "withChangeFor sample_args [sample_utxo ''5000000''] 2000000 5000000 = Some w" "st_fee w = 168273"
    using sample_change [of 2000000 5000000 "''5000000''"] by (auto simp: map_option_case split: option.splits)
  have "pa_amount sample_args = 2000000" by (simp add: sample_args_def)
  then show ?thesis using w sample_spendable [OF sample_value(3)]
    by (simp add: planTransfer_def MIN_UTXO_VALUE_def plan_of_def)
qed

lemma sample_short:
  "planTransfer [sample_utxo ''1000000''] sample_args = Some (Inl (InsufficientAda 1000000 2165413 165413 False))"
proof -
  have a: "pa_amount sample_args = 2000000" "0 \<le> pa_minA sample_args" by (simp_all add: sample_args_def)
  obtain w where w: "withChangeFor sample_args [sample_utxo ''1000000''] 2000000 1000000 = Some w"
    using withChange_total [OF a(2)] by blast
  then have "0 \<le> st_fee w" using withChange_result [OF w] by (simp add: sample_args_def WITNESS_BYTES_def)
  moreover obtain x where x: "exactFor sample_args [sample_utxo ''1000000''] 2000000 = Some x" "st_fee x = 165413"
    using sample_exact [of 2000000 "''1000000''"] by (auto simp: map_option_case split: option.splits)
  ultimately show ?thesis using w a sample_spendable [OF sample_value(2)]
    by (simp add: planTransfer_def MIN_UTXO_VALUE_def)
qed

lemma plan_keeps_every_lovelace_witness:
  "\<exists>p. planTransfer [sample_utxo ''5000000''] sample_args = Some (Inr p) \<and> balanced sample_args p"
  using sample_plan plan_keeps_every_lovelace by blast

lemma refusal_names_the_reason_witness:
  "refusal_true [sample_utxo ''1000000''] sample_args (InsufficientAda 1000000 2165413 165413 False)"
  by (rule refusal_names_the_reason [OF sample_short sample_spendable(1) [OF sample_value(2)]])

text \<open>The refusal for small change is also given when the change could have been an output: the fee with
  change is larger than the one without, so what is left is at times a little over the minimum of one
  ADA, and the message says that it would be lost.\<close>

theorem small_change_can_be_an_output:
  "\<exists>utxos a rest keep. planTransfer utxos a = Some (Inl (SmallChange (pa_amount a) rest 3002859 165413 keep)) \<and> MIN_UTXO_VALUE < rest"
proof -
  let ?u = "sample_utxo ''3168272''"
  have a: "pa_amount sample_args = 2000000" by (simp add: sample_args_def)
  note v = sample_spendable [OF sample_value(1)]
  obtain w where w: "withChangeFor sample_args [?u] 2000000 3168272 = Some w" "st_fee w = 168273"
    using sample_change [of 2000000 3168272 "''3168272''"] by (auto simp: map_option_case split: option.splits)
  obtain x where x: "exactFor sample_args [?u] 2000000 = Some x" "st_fee x = 165413"
    using sample_exact [of 2000000 "''3168272''"] by (auto simp: map_option_case split: option.splits)
  obtain y where y: "exactFor sample_args [?u] 3002859 = Some y" "st_fee y = 165413"
    using sample_exact [of 3002859 "''3168272''"] by (auto simp: map_option_case split: option.splits)
  obtain z where z: "withChangeFor sample_args [?u] 1999999 3168272 = Some z" "st_fee z = 168273"
    using sample_change [of 1999999 3168272 "''3168272''"] by (auto simp: map_option_case split: option.splits)
  have "send_all_loop 4 sample_args [?u] 3168272 3002859 = Some 3002859"
    by (simp add: eval_nat_numeral y)
  moreover have "keep_loop 4 sample_args [?u] 3168272 1999999 = Some 1999999"
    by (simp add: eval_nat_numeral z MIN_UTXO_VALUE_def)
  ultimately have "small_change sample_args [?u] 3168272 1002859 165413 = Some (SmallChange 2000000 1002859 3002859 165413 (Some 1999999))"
    by (simp add: small_change_def a w MIN_UTXO_VALUE_def)
  then have "planTransfer [?u] sample_args = Some (Inl (SmallChange (pa_amount sample_args) 1002859 3002859 165413 (Some 1999999)))"
    using v w x a by (simp add: planTransfer_def MIN_UTXO_VALUE_def)
  then show ?thesis unfolding MIN_UTXO_VALUE_def by (intro exI conjI) (assumption, simp)
qed

subsection \<open>Who can be paid\<close>

definition natural :: "byte list \<Rightarrow> bool" where
  "natural x \<longleftrightarrow> x \<noteq> [] \<and> length x \<le> 10 \<and> last x AND 0x80 = 0 \<and> list_all (\<lambda>b. b AND 0x80 \<noteq> 0) (butlast x)"

text \<open>A mainnet address whose payment part is the hash of a key, as CIP-19 lays it out: the header, the
  credential, and a stake credential, a pointer or nothing.\<close>

definition key_payment_address :: "byte list \<Rightarrow> bool" where
  "key_payment_address bs \<longleftrightarrow>
     (\<exists>h cred rest. bs = h # cred @ rest \<and> length cred = 28 \<and> uint h mod 16 = 1 \<and>
        (uint h div 16 \<in> {0, 2} \<and> length rest = 28 \<or>
         uint h div 16 = 4 \<and> (\<exists>x y z. rest = x @ y @ z \<and> natural x \<and> natural y \<and> natural z) \<or>
         uint h div 16 = 6 \<and> rest = []))"

lemma skip_natural_iff:
  "skip_natural k b = Some r \<longleftrightarrow>
    (\<exists>x. b = x @ r \<and> x \<noteq> [] \<and> length x + k \<le> 10 \<and> last x AND 0x80 = 0 \<and> list_all (\<lambda>b. b AND 0x80 \<noteq> 0) (butlast x))"
proof (induction k b rule: skip_natural.induct)
  case (2 len b rest)
  show ?case
  proof (cases "10 < Suc len \<or> b AND 0x80 = 0")
    case True
    then show ?thesis
      by (auto simp: Cons_eq_append_conv split: if_splits)
  next
    case False
    then show ?thesis using 2
      by (auto simp: Cons_eq_append_conv split: if_splits)
  qed
qed simp

lemma skip_natural_natural: "skip_natural 0 b = Some r \<longleftrightarrow> (\<exists>x. b = x @ r \<and> natural x)"
  by (simp add: skip_natural_iff natural_def)

lemma isPointerTail_iff: "isPointerTail b \<longleftrightarrow> (\<exists>x y z. b = x @ y @ z \<and> natural x \<and> natural y \<and> natural z)"
  unfolding isPointerTail_def bind_eq_Some_conv skip_natural_natural by auto

lemma key_address_shape:
  "key_payment_address bs \<longleftrightarrow>
    29 \<le> length bs \<and> addr_network bs = 1 \<and>
    (addr_type bs \<in> {0, 2} \<and> length bs = 57 \<or> addr_type bs = 4 \<and> isPointerTail (drop 29 bs) \<or>
     addr_type bs = 6 \<and> length bs = 29)" (is "?L \<longleftrightarrow> ?R")
proof
  assume ?L
  then show ?R
    unfolding key_payment_address_def by (elim exE conjE) (auto simp: addr_network_def addr_type_def isPointerTail_iff)
next
  assume r: ?R
  then obtain h t where h: "bs = h # t" by (cases bs) auto
  have t: "t = take 28 t @ drop 28 t" "length (take 28 t) = 28" using r h by auto
  show ?L unfolding key_payment_address_def
    using r h t by (intro exI [of _ h] exI [of _ "take 28 t"] exI [of _ "drop 28 t"])
      (auto simp: addr_network_def addr_type_def isPointerTail_iff)
qed

lemma pointer_longer: "isPointerTail (drop 29 bs) \<Longrightarrow> 29 < length bs"
  by (rule ccontr) (simp add: isPointerTail_def)

text \<open>ADA is sent to a mainnet address that a key controls and to nothing else: of the texts that decode with
  the prefix of a mainnet address, exactly those are accepted whose bytes have the header, the credential
  and the tail that CIP-19 gives such an address.\<close>

theorem recipient_is_key_address:
  assumes "\<not> byron_address (js_trim address)" "b_decode lib (js_trim address) = Some (''addr'', ws)"
    "b_fromWords lib ws = Some bytes"
  shows "recipientAddressBytes lib address = Inr r \<longleftrightarrow> r = bytes \<and> key_payment_address bytes"
proof -
  let ?ok = "addr_type bytes \<in> {0, 2} \<and> length bytes = 57 \<or> addr_type bytes = 4 \<and> 29 < length bytes \<and> isPointerTail (drop 29 bytes) \<or>
     addr_type bytes = 6 \<and> length bytes = 29"
  have "recipientAddressBytes lib address = Inr r \<longleftrightarrow> r = bytes \<and> addr_network bytes = 1 \<and> ?ok"
    using assms by (auto simp: recipientAddressBytes_def Let_def KEY_PAYMENT_TYPES_def SCRIPT_PAYMENT_TYPES_def NETWORK_MAINNET_def)
  moreover have "addr_network bytes = 1 \<and> ?ok \<longleftrightarrow> key_payment_address bytes"
    using pointer_longer [of bytes] by (auto simp: key_address_shape)
  ultimately show ?thesis by blast
qed

definition sample_bech32 :: bech32_lib where
  "sample_bech32 = \<lparr>b_decode = \<lambda>_. Some (''addr'', []), b_fromWords = \<lambda>_. Some (0x61 # replicate 28 0)\<rparr>"

lemma recipient_is_key_address_witness:
  "recipientAddressBytes sample_bech32 ''addr1'' = Inr (0x61 # replicate 28 0)"
proof -
  have "key_payment_address (0x61 # replicate 28 0)"
    by (simp add: key_address_shape addr_network_def addr_type_def)
  moreover have "\<not> byron_address (js_trim ''addr1'')"
    by (simp add: byron_address_def starts_with_def js_trim_def js_space_def)
  ultimately show ?thesis
    using recipient_is_key_address [of "''addr1''" sample_bech32 "[]"]
    by (simp add: sample_bech32_def)
qed

end
