(* ===== verification/CardanoSend.thy ===== *)
theory CardanoSend
  imports CardanoTx
begin

section \<open>Signing and submitting ADA transfers: wallets/cardano-tx.ts, wallets/cardano-koios.ts\<close>

text \<open>
  The checks before any network call, the body read back and spliced into the signed transaction, and the
  submission: \<open>sendAda\<close> returns what was submitted and what the caller gets. The theorems read the signed
  bytes with the reference CBOR reader and say which failures mean that nothing was sent.
\<close>

subsection \<open>Reading the body back\<close>

text \<open>\<open>MinimalCborDecoder\<close>: the offset is the rest of the bytes; past the end a byte reads as zero in an
  initial byte and throws in a length. The first argument bounds the nesting.\<close>

definition read_be :: "nat \<Rightarrow> byte list \<Rightarrow> (int \<times> byte list) option" where
  "read_be k bs = (if length bs < k then None else Some (be_val (take k bs), drop k bs))"

definition readLength :: "int \<Rightarrow> byte list \<Rightarrow> (int \<times> byte list) option" where
  "readLength ai bs =
     (if ai < 24 then Some (ai, bs) else if ai = 24 then read_be 1 bs else if ai = 25 then read_be 2 bs
      else if ai = 26 then read_be 4 bs else if ai = 27 then read_be 8 bs else None)"

fun read_times :: "nat \<Rightarrow> (byte list \<Rightarrow> ('a \<times> byte list) option) \<Rightarrow> byte list \<Rightarrow> ('a list \<times> byte list) option" where
  "read_times 0 rd bs = Some ([], bs)"
| "read_times (Suc n) rd bs =
     Option.bind (rd bs) (\<lambda>(x, r). map_option (\<lambda>(xs, r). (x # xs, r)) (read_times n rd r))"

definition read_entry :: "(byte list \<Rightarrow> ('a \<times> byte list) option) \<Rightarrow> byte list \<Rightarrow> (('a \<times> 'a) \<times> byte list) option" where
  "read_entry rd bs = Option.bind (rd bs) (\<lambda>(k, r). map_option (\<lambda>(v, r). ((k, v), r)) (rd r))"

fun readValue :: "nat \<Rightarrow> byte list \<Rightarrow> (CborValue \<times> byte list) option" where
  "readValue 0 bs = None"
| "readValue (Suc d) bs =
     (let initial = (case bs of [] \<Rightarrow> 0 | b # _ \<Rightarrow> uint b); mt = initial div 32; ai = initial mod 32
      in Option.bind (readLength ai (tl bs)) (\<lambda>(len, r).
           if mt = MT_UINT then Some (uintCbor len, r)
           else if mt = MT_BYTES then Some (bytesCbor (take (nat len) r), drop (nat len) r)
           else if mt = MT_ARRAY then map_option (\<lambda>(vs, r). (arrayCbor vs, r)) (read_times (nat len) (readValue d) r)
           else if mt = MT_MAP then map_option (\<lambda>(es, r). (mapCbor es, r)) (read_times (nat len) (read_entry (readValue d)) r)
           else None))"

definition decodeBodyForReuse :: "byte list \<Rightarrow> CborValue option" where
  "decodeBodyForReuse bytes = map_option fst (readValue (Suc (length bytes)) bytes)"

subsection \<open>Building and signing\<close>

record ada_env =
  ae_bech32 :: bech32_lib
  ae_blake224 :: "byte list \<Rightarrow> byte list"
  ae_blake256 :: "byte list \<Rightarrow> byte list"
  ae_default :: "string \<Rightarrow> CardanoSigner"
  ae_params :: "(int \<times> int) option"
  ae_tip :: "int option"
  ae_utxos :: "KoiosUtxo list option"

record BuildTxArgs =
  bt_mnemonic :: string
  bt_from :: string
  bt_to :: string
  bt_amountAda :: "string option"
  bt_amountLovelace :: "int option"
  bt_signer :: "CardanoSigner option"

record BuiltTxResult =
  br_txCborBytes :: "byte list"
  br_txHashHex :: string
  br_fee :: int
  br_ttl :: int

definition ada_amount :: "BuildTxArgs \<Rightarrow> ada_error + int" where
  "ada_amount args =
     (case bt_amountLovelace args of
        Some n \<Rightarrow> Inr n
      | None \<Rightarrow>
          (case keep_truthy (bt_amountAda args) of
             None \<Rightarrow> Inl AmountMissing
           | Some t \<Rightarrow> (case decimalToAtomic t 6 of Inl e \<Rightarrow> Inl (BadAdaAmount e) | Inr n \<Rightarrow> Inr (int n))))"

definition ada_signer :: "ada_env \<Rightarrow> BuildTxArgs \<Rightarrow> CardanoSigner" where
  "ada_signer env args = coalesce (bt_signer args) (ae_default env (bt_mnemonic args))"

text \<open>What is checked before any network call: the amount and the two addresses.\<close>

definition ada_checks :: "ada_env \<Rightarrow> BuildTxArgs \<Rightarrow> ada_error + int \<times> byte list \<times> byte list" where
  "ada_checks env args =
     (case ada_amount args of
        Inl e \<Rightarrow> Inl e
      | Inr amount \<Rightarrow>
          if amount < MIN_UTXO_VALUE then Inl BelowOutputMinimum
          else case recipientAddressBytes (ae_bech32 env) (bt_to args) of
             Inl e \<Rightarrow> Inl e
           | Inr destBytes \<Rightarrow>
               (case decodeAddressBytes (ae_bech32 env) (bt_from args) of
                  None \<Rightarrow> Inl UndecodableAddress
                | Some fromBytes \<Rightarrow>
                    if assertSignerControls (ae_blake224 env) fromBytes (ada_signer env args)
                    then Inr (amount, destBytes, fromBytes) else Inl KeyDoesNotControl))"

definition sign_plan :: "ada_env \<Rightarrow> CardanoSigner \<Rightarrow> int \<Rightarrow> Plan \<Rightarrow> ada_error + BuiltTxResult" where
  "sign_plan env signer ttl p =
     (let bodyHash = ae_blake256 env (pl_body p);
          witnessSet = buildWitnessSet [(s_publicKey signer, s_sign signer bodyHash)]
      in case decodeBodyForReuse (pl_body p) of
           None \<Rightarrow> Inl UnsupportedCbor
         | Some body \<Rightarrow>
             Inr \<lparr>br_txCborBytes = encodeCbor (arrayCbor [body, witnessSet, boolCbor True, nullCbor]),
                  br_txHashHex = bytesToHex bodyHash, br_fee = pl_fee p, br_ttl = ttl\<rparr>)"

definition buildAndSignTx :: "ada_env \<Rightarrow> BuildTxArgs \<Rightarrow> (ada_error + BuiltTxResult) option" where
  "buildAndSignTx env args =
     (case ada_checks env args of
        Inl e \<Rightarrow> Some (Inl e)
      | Inr (amount, destBytes, fromBytes) \<Rightarrow>
          (case (ae_params env, ae_tip env, ae_utxos env) of
             (Some (minA, minB), Some tip, Some utxos) \<Rightarrow>
               if utxos = [] then Some (Inl NoUtxos)
               else map_option
                 (\<lambda>r. case r of Inl e \<Rightarrow> Inl e | Inr p \<Rightarrow> sign_plan env (ada_signer env args) (tip + TTL_OFFSET_SLOTS) p)
                 (planTransfer utxos \<lparr>pa_amount = amount, pa_to = destBytes, pa_from = fromBytes,
                    pa_ttl = tip + TTL_OFFSET_SLOTS, pa_minA = minA, pa_minB = minB\<rparr>)
           | _ \<Rightarrow> Some (Inl (KoiosRaised []))))"

subsection \<open>Submitting: wallets/cardano-koios.ts, submitTx\<close>

datatype koios_reply = ProxyRaised string | KoiosReply nat string

record json_lib =
  j_parse :: "string \<Rightarrow> json option"
  j_stringify :: "json \<Rightarrow> string"
  j_number :: "rat \<Rightarrow> string"

definition koios_message :: "json_lib \<Rightarrow> string \<Rightarrow> string" where
  "koios_message lib body =
     (let parsed = j_parse lib body; kept = (\<lambda>k. case jprop parsed k of None \<Rightarrow> None | Some v \<Rightarrow> if jtruthy v then Some v else None)
      in case kept ''contents'' of
           Some v \<Rightarrow> take 500 (j_stringify lib v)
         | None \<Rightarrow> (case kept ''message'' of Some v \<Rightarrow> js_String (j_number lib) v | None \<Rightarrow> take 500 body))"

definition koios_failed :: string where "koios_failed = ''Koios submit failed (HTTP ''"

text \<open>The error's text, or the hash. A success whose body starts with a quote is parsed, which may throw.\<close>

definition submitTx :: "json_lib \<Rightarrow> koios_reply \<Rightarrow> string + string" where
  "submitTx lib r =
     (case r of
        ProxyRaised t \<Rightarrow> Inl t
      | KoiosReply status body \<Rightarrow>
          if status < 200 \<or> 300 \<le> status
          then Inl (koios_failed @ nat_str status @ ''): '' @ koios_message lib body)
          else let trimmed = js_trim body
               in if starts_with trimmed ''\"''
                  then (case jstr (j_parse lib trimmed) of Some h \<Rightarrow> Inr h | None \<Rightarrow> Inl ''SyntaxError'')
                  else Inr trimmed)"

text \<open>\<open>/Koios submit failed \(HTTP (\d{3})\)/.exec(text)?.[1]\<close>\<close>

fun koios_status :: "string \<Rightarrow> nat option" where
  "koios_status [] = None"
| "koios_status (c # s) =
     (let t = c # s; d = take 3 (drop (length koios_failed) t)
      in if starts_with t koios_failed \<and> length d = 3 \<and> list_all is_digit d \<and>
            starts_with (drop (length koios_failed + 3) t) '')''
         then Some (str_nat d) else koios_status s)"

definition submitFailure :: "string \<Rightarrow> string \<Rightarrow> ada_error" where
  "submitFailure text txHashHex =
     (case koios_status text of
        Some status \<Rightarrow> if 400 \<le> status \<and> status < 500 then KoiosRefused text else AdaOutcomeUnknown txHashHex
      | None \<Rightarrow> AdaOutcomeUnknown txHashHex)"

text \<open>What was submitted, and what the caller gets: the hash and the fee.\<close>

definition sendAda ::
    "ada_env \<Rightarrow> json_lib \<Rightarrow> (byte list \<Rightarrow> koios_reply) \<Rightarrow> BuildTxArgs \<Rightarrow>
     (byte list list \<times> (ada_error + string \<times> int)) option" where
  "sendAda env lib submit args =
     map_option
       (\<lambda>r. case r of
          Inl e \<Rightarrow> ([], Inl e)
        | Inr built \<Rightarrow>
            ([br_txCborBytes built],
             case submitTx lib (submit (br_txCborBytes built)) of
               Inl text \<Rightarrow> Inl (submitFailure text (br_txHashHex built))
             | Inr txHash \<Rightarrow> Inr (txHash, br_fee built)))
       (buildAndSignTx env args)"

subsection \<open>The body read back is the body\<close>

text \<open>The values the body is made of.\<close>

fun plain :: "CborValue \<Rightarrow> bool" where
  "plain (CUint n) = True"
| "plain (CBytes b) = True"
| "plain (CArray vs) = list_all plain vs"
| "plain (CMap es) = list_all (\<lambda>(k, x). plain k \<and> plain x) es"
| "plain _ = False"

lemma read_be_bytes: "0 \<le> v \<Longrightarrow> v < 2 ^ (8 * k) \<Longrightarrow> read_be k (be_bytes k v @ r) = Some (v, r)"
  by (simp add: read_be_def be_val_be_bytes)

lemma readLength_head: "0 \<le> v \<Longrightarrow> v < 2 ^ 64 \<Longrightarrow> readLength (head_info v) (head_args v @ r) = Some (v, r)"
  by (simp add: head_args_be readLength_def head_info_def head_len_def read_be_bytes del: be_bytes.simps(2))

lemma head_info_range: "0 \<le> v \<Longrightarrow> 0 \<le> head_info v \<and> head_info v < 32"
  by (simp add: head_info_def)

lemma readValue_head:
  assumes "0 \<le> v" "v < 2 ^ 64" "0 \<le> mt" "mt < 8"
  shows "readValue (Suc d) (head mt v @ r) =
    (if mt = MT_UINT then Some (uintCbor v, r)
     else if mt = MT_BYTES then Some (bytesCbor (take (nat v) r), drop (nat v) r)
     else if mt = MT_ARRAY then map_option (\<lambda>(vs, r). (arrayCbor vs, r)) (read_times (nat v) (readValue d) r)
     else if mt = MT_MAP then map_option (\<lambda>(es, r). (mapCbor es, r)) (read_times (nat v) (read_entry (readValue d)) r)
     else None)"
proof -
  have "uint (byte (push_bit 5 mt OR head_info v)) = mt * 32 + head_info v"
    using assms head_info_range [of v] by (intro uint_top) auto
  then show ?thesis using readLength_head [of v r] assms head_info_range [of v]
    by (simp add: head_split Let_def)
qed

lemma read_times_concat:
  "(\<And>x r. x \<in> set xs \<Longrightarrow> rd (f x @ r) = Some (x, r)) \<Longrightarrow> read_times (length xs) rd (concat (map f xs) @ r) = Some (xs, r)"
  by (induction xs arbitrary: r) auto

lemma enc_part_shorter:
  "v \<in> set vs \<Longrightarrow> length (enc v) < length (enc (CArray vs))"
  "(k, x) \<in> set es \<Longrightarrow> length (enc k) < length (enc (CMap es)) \<and> length (enc x) < length (enc (CMap es))"
proof -
  assume "v \<in> set vs"
  then have "length (enc v) \<le> length (concat (map enc vs))"
    by (induction vs) auto
  then show "length (enc v) < length (enc (CArray vs))" by (simp add: head_split)
next
  assume "(k, x) \<in> set es"
  then have "length (enc k @ enc x) \<le> length (concat (map (\<lambda>(k, x). enc k @ enc x) es))"
    by (induction es) auto
  then show "length (enc k) < length (enc (CMap es)) \<and> length (enc x) < length (enc (CMap es))"
    by (simp add: head_split)
qed

lemma readValue_enc:
  "plain v \<Longrightarrow> fits v \<Longrightarrow> length (enc v) \<le> d \<Longrightarrow> readValue d (enc v @ r) = Some (v, r)"
proof (induction d arbitrary: v r)
  case 0
  then show ?case by simp
next
  case (Suc d)
  have IH: "readValue d (enc x @ r) = Some (x, r)" if "plain x" "fits x" "length (enc x) < length (enc v)" for x r
    using Suc.IH [of x r] Suc.prems(3) that by simp
  show ?case
  proof (cases v)
    case (CUint n)
    then show ?thesis using Suc.prems readValue_head [of n MT_UINT d r] by (simp add: MT_UINT_def uintCbor_def)
  next
    case (CBytes b)
    then show ?thesis using Suc.prems readValue_head [of "int (length b)" MT_BYTES d "b @ r"]
      by (simp add: MT_UINT_def MT_BYTES_def bytesCbor_def)
  next
    case (CArray vs)
    have "read_times (length vs) (readValue d) (concat (map enc vs) @ r) = Some (vs, r)"
      using Suc.prems CArray enc_part_shorter(1) [of _ vs]
      by (intro read_times_concat IH) (auto simp: list_all_iff)
    then show ?thesis using Suc.prems CArray readValue_head [of "int (length vs)" MT_ARRAY d "concat (map enc vs) @ r"]
      by (simp add: MT_UINT_def MT_BYTES_def MT_ARRAY_def arrayCbor_def)
  next
    case (CMap es)
    have "read_entry (readValue d) ((\<lambda>(k, x). enc k @ enc x) e @ r) = Some (e, r)" if e: "e \<in> set es" for e r
    proof -
      obtain k x where kx: "e = (k, x)" by (cases e)
      have "plain k" "plain x" "fits k" "fits x" using Suc.prems CMap e kx by (auto simp: list_all_iff)
      then show ?thesis using IH [of k "enc x @ r"] IH [of x r] enc_part_shorter(2) [of k x es] e kx CMap
        by (simp add: read_entry_def)
    qed
    then have "read_times (length es) (read_entry (readValue d)) (concat (map (\<lambda>(k, x). enc k @ enc x) es) @ r) = Some (es, r)"
      by (rule read_times_concat)
    then show ?thesis using Suc.prems CMap
        readValue_head [of "int (length es)" MT_MAP d "concat (map (\<lambda>(k, x). enc k @ enc x) es) @ r"]
      by (simp add: MT_UINT_def MT_BYTES_def MT_ARRAY_def MT_MAP_def mapCbor_def)
  qed (use Suc.prems in auto)
qed

text \<open>The signed body is the body that was priced: decoding it to splice it into the transaction gives
  back the value it was encoded from, for every value of numbers, byte strings, arrays and maps
  within 64 bits.\<close>

theorem body_decoder_inverts:
  "plain v \<Longrightarrow> fits v \<Longrightarrow> decodeBodyForReuse (encodeCbor v) = Some v"
  using readValue_enc [of v "Suc (length (enc v))" "[]"]
  by (simp add: decodeBodyForReuse_def encodeCbor_enc del: readValue.simps)

lemma body_decoder_inverts_witness:
  "decodeBodyForReuse (encodeCbor (CMap [(CUint 0, CArray [CArray [CBytes [1, 2], CUint 70000]]), (CUint 2, CUint 5000000000)]))
   = Some (CMap [(CUint 0, CArray [CArray [CBytes [1, 2], CUint 70000]]), (CUint 2, CUint 5000000000)])"
  by (rule body_decoder_inverts) simp_all

subsection \<open>The signed transaction\<close>

text \<open>What the ledger guarantees of the numbers Koios reports: 64 bits hold them.\<close>

definition utxo_fits :: "KoiosUtxo \<Rightarrow> bool" where
  "utxo_fits u \<longleftrightarrow> 0 \<le> lovelace u \<and> 0 \<le> u_tx_index u \<and> u_tx_index u < 2 ^ 64 \<and> length (hexToBytes (u_tx_hash u)) < 2 ^ 64"

definition within64 :: "KoiosUtxo list \<Rightarrow> plan_args \<Rightarrow> bool" where
  "within64 utxos a \<longleftrightarrow>
     list_all utxo_fits utxos \<and> total_lovelace (filter ada_only utxos) < 2 ^ 64 \<and> length utxos < 2 ^ 64 \<and>
     0 \<le> pa_ttl a \<and> pa_ttl a < 2 ^ 64 \<and> length (pa_to a) < 2 ^ 64 \<and> length (pa_from a) < 2 ^ 64 \<and>
     0 \<le> pa_amount a \<and> 0 \<le> pa_minA a \<and> 0 \<le> pa_minB a"

definition plan_body :: "plan_args \<Rightarrow> Plan \<Rightarrow> CborValue" where
  "plan_body a p = buildTxBody \<lparr>tb_inputs = map (\<lambda>u. (hexToBytes (u_tx_hash u), u_tx_index u)) (pl_inputs p),
     tb_outputs = pl_outputs p, tb_fee = pl_fee p, tb_ttl = pa_ttl a\<rparr>"

lemma total_mset: "total_lovelace us = sum_mset (image_mset lovelace (mset us))"
  by (simp add: total_lovelace_def flip: mset_map sum_mset_sum_list)

lemma total_nonneg: "list_all utxo_fits us \<Longrightarrow> 0 \<le> total_lovelace us"
  by (induction us) (auto simp: total_lovelace_def utxo_fits_def)

lemma plan_fits:
  assumes "planTransfer utxos a = Some (Inr p)" "within64 utxos a"
  shows "plain (plan_body a p)" "fits (plan_body a p)"
proof -
  obtain us n where p: "balanced a p" "pl_inputs p = take (Suc n) us" "mset us = mset (filter ada_only utxos)"
    by (rule planTransfer_plan [OF assms(1)])
  have sub: "set us \<subseteq> set utxos" using mset_eq_setD [OF p(3)] by auto
  have f: "list_all utxo_fits us" using assms(2) sub by (auto simp: within64_def list_all_iff)
  then have fi: "list_all utxo_fits (pl_inputs p)" "list_all utxo_fits (drop (Suc n) us)"
    using set_take_subset [of "Suc n" us] set_drop_subset [of "Suc n" us] p(2) by (auto simp: list_all_iff)
  have "total_lovelace us = total_lovelace (filter ada_only utxos)" using p(3) by (simp add: total_mset)
  moreover have "total_lovelace us = total_lovelace (pl_inputs p) + total_lovelace (drop (Suc n) us)"
    unfolding p(2) total_lovelace_def map_append [symmetric] sum_list_append [symmetric] append_take_drop_id ..
  ultimately have t: "total_lovelace (pl_inputs p) < 2 ^ 64"
    using assms(2) total_nonneg [OF fi(2)] by (simp add: within64_def)
  have len: "length (pl_inputs p) < 2 ^ 64"
  proof -
    have "length us = length (filter ada_only utxos)" using p(3) by (metis size_mset)
    then have "length us \<le> length utxos" by simp
    then show ?thesis using assms(2) p(2) by (simp add: within64_def min_def)
  qed
  have "0 \<le> (int (length (pl_body p)) + WITNESS_BYTES) * pa_minA a + pa_minB a"
    using assms(2) by (simp add: within64_def WITNESS_BYTES_def)
  then have fee: "0 \<le> pl_fee p" using p(1) unfolding balanced_def by linarith
  have outs: "\<forall>o' \<in> set (pl_outputs p). length (o_address o') < 2 ^ 64 \<and> 0 \<le> o_coin o' \<and> o_coin o' < 2 ^ 64"
    "length (pl_outputs p) \<le> 2" "pl_fee p < 2 ^ 64"
    using p(1) fee t assms(2) by (auto simp: balanced_def pays_exactly_def within64_def MIN_UTXO_VALUE_def)
  show "plain (plan_body a p)"
    by (simp add: plan_body_def buildTxBody_def mapCbor_def arrayCbor_def uintCbor_def bytesCbor_def list_all_iff case_prod_beta)
  show "fits (plan_body a p)"
    using fi(1) len outs fee assms(2)
    by (auto simp: plan_body_def buildTxBody_def mapCbor_def arrayCbor_def uintCbor_def bytesCbor_def list_all_iff
        utxo_fits_def within64_def)
qed

lemma sign_plan_decodes:
  assumes "planTransfer utxos a = Some (Inr p)" "within64 utxos a"
  shows "sign_plan env signer ttl p = Inr \<lparr>br_txCborBytes = encodeCbor (CArray [plan_body a p,
      buildWitnessSet [(s_publicKey signer, s_sign signer (ae_blake256 env (pl_body p)))], CBool True, CNull]),
    br_txHashHex = bytesToHex (ae_blake256 env (pl_body p)), br_fee = pl_fee p, br_ttl = ttl\<rparr>"
proof -
  have b: "pl_body p = encodeCbor (plan_body a p)"
    by (rule planTransfer_plan [OF assms(1)]) (simp add: balanced_def plan_body_def body_bytes_def)
  have "readValue (Suc (length (pl_body p))) (pl_body p @ []) = Some (plan_body a p, [])"
    unfolding b encodeCbor_enc by (rule readValue_enc) (use plan_fits [OF assms] in simp_all)
  then have "decodeBodyForReuse (pl_body p) = Some (plan_body a p)" by (simp add: decodeBodyForReuse_def)
  then show ?thesis by (simp add: sign_plan_def Let_def arrayCbor_def boolCbor_def nullCbor_def)
qed

lemma buildAndSignTx_built:
  assumes "buildAndSignTx env args = Some (Inr b)" "ada_checks env args = Inr (amount, dst, src)"
    "ae_params env = Some (minA, minB)" "ae_tip env = Some tip" "ae_utxos env = Some utxos"
    "a = \<lparr>pa_amount = amount, pa_to = dst, pa_from = src, pa_ttl = tip + TTL_OFFSET_SLOTS, pa_minA = minA, pa_minB = minB\<rparr>"
  obtains p where "planTransfer utxos a = Some (Inr p)" "sign_plan env (ada_signer env args) (pa_ttl a) p = Inr b"
proof -
  obtain z where z: "planTransfer utxos a = Some z"
      "(case z of Inl e \<Rightarrow> Inl e | Inr p \<Rightarrow> sign_plan env (ada_signer env args) (pa_ttl a) p) = Inr b"
    using assms by (auto simp: buildAndSignTx_def split: if_splits cong del: sum.case_cong_weak)
  then show thesis using that by (cases z) auto
qed

lemma signed_length:
  assumes "length k = 32" "length g = 64"
  shows "length (encodeCbor (CArray [body, buildWitnessSet [(k, g)], CBool True, CNull])) = length (encodeCbor body) + 107"
  using assms
  by (simp add: encodeCbor_enc buildWitnessSet_def mapCbor_def arrayCbor_def uintCbor_def bytesCbor_def length_head head_len_def)

text \<open>C14. What is submitted is the plan, signed: an independent CBOR reader finds in the bytes the planned
  body, one witness with the key that controls the sending address and its signature of the body's
  hash, and nothing else; the hash that is shown is the hash of that body, and the fee pays for every
  byte of the transaction.\<close>

theorem signed_transfer_is_the_plan:
  assumes "buildAndSignTx env args = Some (Inr b)" "ada_checks env args = Inr (amount, dst, src)"
    "ae_params env = Some (minA, minB)" "ae_tip env = Some tip" "ae_utxos env = Some utxos"
    "a = \<lparr>pa_amount = amount, pa_to = dst, pa_from = src, pa_ttl = tip + TTL_OFFSET_SLOTS, pa_minA = minA, pa_minB = minB\<rparr>"
    "within64 utxos a"
    "length (s_publicKey (ada_signer env args)) = 32" "\<And>m. length (s_sign (ada_signer env args) m) = 64"
  shows "\<exists>p. planTransfer utxos a = Some (Inr p) \<and> br_fee b = pl_fee p \<and>
    decode (br_txCborBytes b) = Some (CArray [plan_body a p,
      buildWitnessSet [(s_publicKey (ada_signer env args),
        s_sign (ada_signer env args) (ae_blake256 env (encodeCbor (plan_body a p))))], CBool True, CNull], []) \<and>
    br_txHashHex b = bytesToHex (ae_blake256 env (encodeCbor (plan_body a p))) \<and>
    int (length (br_txCborBytes b)) * minA + minB \<le> br_fee b"
proof -
  let ?k = "s_publicKey (ada_signer env args)"
  obtain p where p: "planTransfer utxos a = Some (Inr p)" "sign_plan env (ada_signer env args) (pa_ttl a) p = Inr b"
    by (rule buildAndSignTx_built [OF assms(1-6)])
  have bal: "balanced a p" by (rule planTransfer_plan [OF p(1)])
  have body: "pl_body p = encodeCbor (plan_body a p)" using bal by (simp add: balanced_def plan_body_def body_bytes_def)
  let ?s = "s_sign (ada_signer env args) (ae_blake256 env (encodeCbor (plan_body a p)))"
  let ?tx = "CArray [plan_body a p, buildWitnessSet [(?k, ?s)], CBool True, CNull]"
  have b: "br_txCborBytes b = encodeCbor ?tx" "br_txHashHex b = bytesToHex (ae_blake256 env (pl_body p))" "br_fee b = pl_fee p"
    using sign_plan_decodes [OF p(1) assms(7), of env "ada_signer env args" "pa_ttl a"] p(2) body by auto
  have "fits ?tx" using plan_fits(2) [OF p(1) assms(7)] assms(8,9)
    by (simp add: buildWitnessSet_def mapCbor_def arrayCbor_def uintCbor_def bytesCbor_def)
  then have d: "decode (br_txCborBytes b) = Some (?tx, [])" using decode_enc [of ?tx "[]"] b by simp
  have l: "length (br_txCborBytes b) = length (pl_body p) + 107"
    using signed_length [OF assms(8) assms(9)] b body by simp
  have m: "pa_minA a = minA" "pa_minB a = minB" "0 \<le> minA" using assms(6,7) by (simp_all add: within64_def)
  have "int (length (br_txCborBytes b)) * minA \<le> (int (length (pl_body p)) + WITNESS_BYTES) * minA"
    using m l by (intro mult_right_mono) (simp_all add: WITNESS_BYTES_def)
  moreover have "(int (length (pl_body p)) + WITNESS_BYTES) * minA + minB \<le> br_fee b"
    using bal unfolding balanced_def m b by blast
  ultimately have "int (length (br_txCborBytes b)) * minA + minB \<le> br_fee b" by linarith
  then show ?thesis using p(1) b d body by auto
qed

definition sample_env :: ada_env where
  "sample_env = \<lparr>ae_bech32 = sample_bech32,
     ae_blake224 = \<lambda>_. replicate 28 0, ae_blake256 = \<lambda>_. replicate 32 7,
     ae_default = \<lambda>_. \<lparr>s_publicKey = replicate 32 1, s_sign = \<lambda>_. replicate 64 2\<rparr>,
     ae_params = Some (0, 155381), ae_tip = Some 90000000, ae_utxos = Some [sample_utxo ''5000000'']\<rparr>"

definition sample_send :: BuildTxArgs where
  "sample_send = \<lparr>bt_mnemonic = [], bt_from = ''addr1'', bt_to = ''addr1'', bt_amountAda = None,
     bt_amountLovelace = Some 2000000, bt_signer = None\<rparr>"

lemma sample_checks: "ada_checks sample_env sample_send = Inr (2000000, 0x61 # replicate 28 0, 0x61 # replicate 28 0)"
  by (simp add: ada_checks_def ada_amount_def sample_env_def sample_bech32_def sample_send_def MIN_UTXO_VALUE_def recipientAddressBytes_def
      byron_address_def starts_with_def decodeAddressBytes_def assertSignerControls_def ada_signer_def addr_type_def
      addr_network_def KEY_PAYMENT_TYPES_def SCRIPT_PAYMENT_TYPES_def NETWORK_MAINNET_def js_trim_def js_space_def Let_def)

lemma settle_free: "settle_loop inputs f ttl 0 b b = Some \<lparr>st_fee = b, st_body = body_bytes inputs (f b) b ttl, st_outputs = f b\<rparr>"
  by (subst settle_loop.simps) (simp add: Let_def)

lemma sample_built: "\<exists>b. buildAndSignTx sample_env sample_send = Some (Inr b) \<and> br_fee b = 155381"
proof -
  let ?a = "\<lparr>pa_amount = 2000000, pa_to = 0x61 # replicate 28 0, pa_from = 0x61 # replicate 28 0, pa_ttl = 90007200,
     pa_minA = 0, pa_minB = 155381\<rparr>"
  obtain p where p: "planTransfer [sample_utxo ''5000000''] ?a = Some (Inr p)" "pl_fee p = 155381"
    using sample_spendable [OF sample_value(3)]
    by (simp add: planTransfer_def withChangeFor_def settleFee_def settle_free MIN_UTXO_VALUE_def plan_of_def Let_def)
  have "within64 [sample_utxo ''5000000''] ?a"
    using sample_spendable(2) [OF sample_value(3)]
    by (simp add: within64_def utxo_fits_def sample_hash total_lovelace_def)
  from sign_plan_decodes [OF p(1) this] show ?thesis
    using p sample_checks by (simp add: buildAndSignTx_def sample_env_def TTL_OFFSET_SLOTS_def)
qed

lemma signed_transfer_is_the_plan_witness:
  "\<exists>b body w. buildAndSignTx sample_env sample_send = Some (Inr b) \<and>
     decode (br_txCborBytes b) = Some (CArray [body, w, CBool True, CNull], [])"
proof -
  obtain b where b: "buildAndSignTx sample_env sample_send = Some (Inr b)" using sample_built by blast
  have s: "ae_params sample_env = Some (0, 155381)" "ae_tip sample_env = Some 90000000"
    "ae_utxos sample_env = Some [sample_utxo ''5000000'']"
    "length (s_publicKey (ada_signer sample_env sample_send)) = 32"
    "length (s_sign (ada_signer sample_env sample_send) m) = 64" for m
    by (simp_all add: sample_env_def ada_signer_def sample_send_def)
  have "within64 [sample_utxo ''5000000''] \<lparr>pa_amount = 2000000, pa_to = 0x61 # replicate 28 0,
      pa_from = 0x61 # replicate 28 0, pa_ttl = 90000000 + TTL_OFFSET_SLOTS, pa_minA = 0, pa_minB = 155381\<rparr>"
    using sample_spendable(2) [OF sample_value(3)]
    by (simp add: within64_def utxo_fits_def sample_hash total_lovelace_def TTL_OFFSET_SLOTS_def)
  from signed_transfer_is_the_plan [OF b sample_checks s(1,2,3) refl this s(4,5)] show ?thesis using b by blast
qed

subsection \<open>What a failed submission means\<close>

fun ada_unclear :: "ada_error \<Rightarrow> bool" where
  "ada_unclear (AdaOutcomeUnknown _) = True"
| "ada_unclear _ = False"

definition koios_refused :: "koios_reply \<Rightarrow> bool" where
  "koios_refused r \<longleftrightarrow> (case r of KoiosReply st _ \<Rightarrow> 400 \<le> st \<and> st < 500 | ProxyRaised _ \<Rightarrow> False)"

lemma nat_str_three: "100 \<le> n \<Longrightarrow> n < 1000 \<Longrightarrow> length (nat_str n) = 3"
proof -
  assume n: "100 \<le> n" "n < 1000"
  have "length (nat_str n) \<le> Suc 2" by (rule nat_str_length_bound) (use n in simp)
  moreover have "n < 10 ^ length (nat_str n)" using str_nat_less [OF nat_str_digits, of n] by simp
  then have "\<not> length (nat_str n) \<le> 2" using n power_increasing [of "length (nat_str n)" 2 "10 :: nat"] by auto
  ultimately show ?thesis by simp
qed

lemma koios_status_here:
  assumes "starts_with t koios_failed" "d = take 3 (drop (length koios_failed) t)" "length d = 3" "list_all is_digit d"
    "starts_with (drop (length koios_failed + 3) t) '')''"
  shows "koios_status t = Some (str_nat d)"
  using assms by (cases t) (simp_all add: Let_def)

lemma koios_status_of_error:
  assumes "100 \<le> n" "n < 1000"
  shows "koios_status (koios_failed @ nat_str n @ ''): '' @ m) = Some n"
proof -
  have d: "length (nat_str n) = 3" "list_all is_digit (nat_str n)"
    using nat_str_three [OF assms] nat_str_digits [of n] by (simp_all add: list_all_iff)
  show ?thesis
    using koios_status_here [of "koios_failed @ nat_str n @ ''): '' @ m" "nat_str n"] d by (simp add: starts_with_def)
qed

lemma checks_clear: "ada_checks env args = Inl e \<Longrightarrow> \<not> ada_unclear e"
  by (auto simp: ada_checks_def ada_amount_def recipientAddressBytes_def Let_def split: if_splits option.splits sum.splits)

lemma plan_error_clear: "planTransfer utxos a = Some (Inl e) \<Longrightarrow> \<not> ada_unclear e"
proof (cases "spendableLargestFirst utxos")
  case (Some us)
  assume p: "planTransfer utxos a = Some (Inl e)"
  show ?thesis by (rule planTransfer_cases [OF p Some]) (auto simp: small_change_def bind_eq_Some_conv)
qed (auto simp: planTransfer_def)

lemma build_ada_clear:
  assumes "buildAndSignTx env args = Some (Inl e)"
  shows "\<not> ada_unclear e"
proof (cases "ada_checks env args")
  case (Inl e')
  then show ?thesis using checks_clear assms by (auto simp: buildAndSignTx_def)
next
  case (Inr q)
  show ?thesis
  proof (cases "\<exists>z. (case z of Inl e \<Rightarrow> Inl e | Inr p \<Rightarrow> sign_plan env (ada_signer env args) (the (ae_tip env) + TTL_OFFSET_SLOTS) p) = (Inl e :: ada_error + BuiltTxResult) \<and>
      (\<exists>utxos a. planTransfer utxos a = Some z)")
    case True
    then obtain z utxos a where z: "planTransfer utxos a = Some z"
        "(case z of Inl e \<Rightarrow> Inl e | Inr p \<Rightarrow> sign_plan env (ada_signer env args) (the (ae_tip env) + TTL_OFFSET_SLOTS) p) = (Inl e :: ada_error + BuiltTxResult)"
      by blast
    then show ?thesis using plan_error_clear by (cases z) (auto simp: sign_plan_def Let_def split: option.splits)
  next
    case False
    then show ?thesis using assms Inr by (auto simp: buildAndSignTx_def split: prod.splits option.splits if_splits cong del: sum.case_cong_weak)
  qed
qed

text \<open>C25. An ADA transfer is reported as failed exactly when nothing was sent: nothing was submitted, or Koios
  answered with a refusal. A lost connection, a gateway's error or an unreadable success is reported
  as an unknown outcome, with the hash of the body that was signed.\<close>

theorem ada_failure_means_nothing_sent:
  assumes "sendAda env lib submit args = Some (posted, r)"
    "\<And>t. posted \<noteq> [] \<Longrightarrow> submit (hd posted) = ProxyRaised t \<Longrightarrow> koios_status t = None"
    "\<And>st body. posted \<noteq> [] \<Longrightarrow> submit (hd posted) = KoiosReply st body \<Longrightarrow> 100 \<le> st \<and> st < 1000"
  shows "((\<exists>e. r = Inl e \<and> \<not> ada_unclear e) \<longleftrightarrow> posted = [] \<or> koios_refused (submit (hd posted))) \<and> length posted \<le> 1"
proof -
  obtain z where z: "buildAndSignTx env args = Some z" using assms(1) by (auto simp: sendAda_def)
  show ?thesis
  proof (cases z)
    case (Inl e)
    then show ?thesis using build_ada_clear [of env args e] assms(1) z by (auto simp: sendAda_def)
  next
    case (Inr b)
    then have p: "posted = [br_txCborBytes b]"
        "r = (case submitTx lib (submit (br_txCborBytes b)) of Inl t \<Rightarrow> Inl (submitFailure t (br_txHashHex b))
              | Inr h \<Rightarrow> Inr (h, br_fee b))"
      using assms(1) z by (auto simp: sendAda_def)
    show ?thesis
    proof (cases "submit (br_txCborBytes b)")
      case (ProxyRaised t)
      then show ?thesis using p assms(2) by (simp add: submitTx_def submitFailure_def koios_refused_def)
    next
      case (KoiosReply st body)
      have "koios_status ''SyntaxError'' = None" by (simp add: koios_failed_def starts_with_def)
      then show ?thesis using KoiosReply p assms(3) koios_status_of_error [of st]
        by (auto simp: submitTx_def submitFailure_def koios_refused_def Let_def split: option.splits if_splits)
    qed
  qed
qed

lemma ada_failure_means_nothing_sent_witness:
  "\<exists>posted e. sendAda sample_env \<lparr>j_parse = \<lambda>_. None, j_stringify = \<lambda>_. [], j_number = \<lambda>_. []\<rparr>
      (\<lambda>_. KoiosReply 400 []) sample_send = Some (posted, Inl e) \<and> \<not> ada_unclear e"
proof -
  let ?lib = "\<lparr>j_parse = \<lambda>_. None, j_stringify = \<lambda>_. [], j_number = \<lambda>_. []\<rparr>"
  obtain b where b: "buildAndSignTx sample_env sample_send = Some (Inr b)" using sample_built by blast
  obtain posted r where s: "sendAda sample_env ?lib (\<lambda>_. KoiosReply 400 []) sample_send = Some (posted, r)"
    using b by (simp add: sendAda_def)
  have "(\<exists>e. r = Inl e \<and> \<not> ada_unclear e) \<longleftrightarrow> posted = [] \<or> koios_refused (KoiosReply 400 [])"
    using ada_failure_means_nothing_sent [OF s] by simp
  then show ?thesis using s by (auto simp: koios_refused_def)
qed

end
