(* ===== verification/Spec2Isabelle.thy ===== *)
theory Spec2Isabelle
  imports DecimalAmount VaultMerge VaultRepair TronVerify SwapTaking PollGate ActiveSwaps
    Fees UtxoSend BtcSend SwapTracking Payout Safety Polyseed QuoteController AlgoTx CardanoSend
begin

text \<open>
  PwndaWallet is a self-custody wallet. Its TypeScript core keeps the encrypted vault of seeds and
  contexts, reads and builds transactions for many chains, and runs two kinds of swap: deposits
  to NEAR Intents quotes and atomic swaps through a local BasicSwap node. These theories model the
  modules that decide something about money or keys, in the order data flows through them.

  \<^bold>\<open>Theories and sources\<close> (paths under \<open>src/src\<close>)

  \<^item> \<open>Prelude\<close>: JavaScript's strings, case folding, trimming, searching, padding, \<open>??\<close> and \<open>||\<close>,
    stable sorting; \<open>Interfaces\<close>: the contracts several components meet (an event machine with an
    invariant, a prefix-free codec, rows edited under a key), each interpreted on the component
    that provides it; \<open>Json\<close>: untyped values and number printing; \<open>Regex\<close>: an executable matcher
    for the regular expressions the code writes.
  \<^item> \<open>DecimalAmount\<close>: \<open>wallets/decimal-amount.ts\<close>. Exact conversion between typed decimals and
    base units.
  \<^item> \<open>Vault\<close>, \<open>VaultContexts\<close>, \<open>VaultMerge\<close>, \<open>VaultRepair\<close>: \<open>vault-schema.ts\<close>. The version 2 and 3
    payloads, migration, projection, merge, contexts, and the repair of shared sidecar files. The
    lemmas show that reading back what was written gives the same payload, that other contexts
    are untouched, and that no two wallets are left on one file.
  \<^item> \<open>Cbor\<close>: \<open>wallets/cardano-cbor.ts\<close>, with a decoder written for the proof; \<open>decode\<close> takes fuel
    of twice the length of its input, which the round trip shows to be enough.
  \<^item> \<open>CardanoTx\<close>, \<open>CardanoSend\<close>: \<open>wallets/cardano-tx.ts\<close>, \<open>submitTx\<close> of \<open>wallets/cardano-koios.ts\<close>. Who may
    be paid, the choice of inputs, the fee loop (a partial function, shown to end), the signed
    transaction and what a failed submission means. The lemmas show that a plan keeps every
    lovelace, that the signed bytes are the plan, and that the body's own decoder (its nesting
    bounded by the length of its input) inverts the encoder.
  \<^item> \<open>AlgoTx\<close>: \<open>wallets/algo-tx.ts\<close>. Canonical msgpack with a reader written for the proof, the payment
    that is signed, and what a failed submission means. The encoder cuts a number to 64 bits, so what
    is posted reads back as the payment with its numbers modulo \<open>2 ^ 64\<close>.
  \<^item> \<open>TronVerify\<close>: \<open>wallets/tron-tx-verify.ts\<close>. A transaction built by the remote node is accepted
    only if it is the one asked for, and an honest one is always accepted.
  \<^item> \<open>Fees\<close>: \<open>wallets/btc-rbf-policy.ts\<close> and \<open>wallets/cryptonote-fee.ts\<close>. The loop of the weight
    computation is a partial function; its termination is characterised.
  \<^item> \<open>ErrorText\<close>, \<open>UtxoSend\<close>: \<open>lib/errorText.ts\<close>, \<open>wallets/utxo-send.ts\<close>,
    \<open>features/swap/broadcast-outcome.ts\<close>. What a broadcast may tell the user.
  \<^item> \<open>UtxoProbes\<close>, \<open>UtxoAccount\<close>, \<open>UtxoScan\<close>: \<open>wallets/_utxo-probes.ts\<close>, \<open>wallets/utxo-account.ts\<close>. What
    explorers say of an address, the gap walk, fresh addresses, recovery risk and the choice of outputs. A
    locale states what a truthful explorer promises; the lemmas show that a complete scan misses nothing a
    gap limit can find, that stranded funds are those a restore does not reach, and that a plan keeps
    every unit and spends the fewest outputs. The runaway bound of the walk (25 gap limits) is its measure.
  \<^item> \<open>BtcSend\<close>: \<open>wallets/btc-wallet.ts\<close>. The account send, the single-key send and the legacy sweep, from the
    typed amount to one broadcast, and the Bitcoin explorers as such a truthful source.
  \<^item> \<open>BtcRecords\<close>, \<open>BtcSpeedUp\<close>: \<open>wallets/tx-replacements.ts\<close>, \<open>wallets/btc-own-txs.ts\<close>, \<open>wallets/btc-rbf.ts\<close>
    and \<open>addBtcInput\<close> of \<open>wallets/btc-wallet.ts\<close>. Two session records as event machines, and a speed-up
    from reading the original to one broadcast. The lemmas show that only the wallet's change pays
    for it, that it is sent once and refused again for as long as the record of the last 200 replacements
    holds it, whatever the session does, and that a transaction of unknown origin is left alone.
  \<^item> \<open>SendFlow\<close>, \<open>QuoteController\<close>: \<open>features/send/useSend.ts\<close>, \<open>sendAssetStore.ts\<close>, \<open>accountSend.ts\<close>,
    \<open>feeDisplay.ts\<close>, \<open>sendErrors.ts\<close>, \<open>quoteController.ts\<close>, \<open>wallets/send-quote.ts\<close>,
    \<open>wallets/send-outcome.ts\<close>. The press of Send as a function of the form and of what the wallet
    replies; the controller that prices the form as a machine over its events. The lemmas show
    which call a press makes and what it leaves, that a shown quote belongs to the shown inputs, and
    that confirming it relays it.
  \<^item> \<open>IntentsDeposits\<close>, \<open>QuoteBinding\<close>: \<open>features/swap/intents-attempts.ts\<close>,
    \<open>intents-quote-binding.ts\<close>, \<open>intents-deposit-memo.ts\<close>. One deposit per quote; the quote is the
    one that was asked for; a shared deposit address gets its memo.
  \<^item> \<open>Stablecoins\<close>, \<open>Assets\<close>: \<open>wallets/stablecoins.ts\<close>, \<open>features/swap/asset-capabilities.ts\<close>,
    \<open>wallets/index.ts\<close>. The two registries and their agreement.
  \<^item> \<open>SwapHistory\<close>, \<open>SwapTracking\<close>: \<open>features/swap/swap-history-store.ts\<close>, \<open>swap-details.ts\<close>,
    \<open>swap-actual-received.ts\<close>, \<open>intents-stale-rows.ts\<close>, \<open>intents-status-resume.ts\<close>, \<open>router-modes.ts\<close>.
    The rows of past swaps, the queue that serialises their writers and its refinement of one
    sequence of writes, and what a status read may change.
  \<^item> \<open>BidStates\<close>, \<open>SwapTaking\<close>, \<open>PollGate\<close>, \<open>ActiveSwaps\<close>: \<open>features/swap-sidecar/bidStates.ts\<close>,
    \<open>spread.ts\<close>, \<open>offerCooldown.ts\<close>, \<open>autoRetry.ts\<close>, \<open>pollGate.ts\<close>, \<open>activeSwaps.ts\<close>,
    \<open>sharedCoinSendGuard.ts\<close>. The states of a bid, when an offer may be taken, single-flight polling
    as a step relation with reachable states, and the guard of coins locked in a swap.
  \<^item> \<open>Offers\<close>, \<open>Payout\<close>: \<open>features/swap-sidecar/types.ts\<close>, \<open>offers.ts\<close>, \<open>licenceFee.ts\<close>,
    \<open>payoutDestination.ts\<close>. The offer book in the taker's frame, the local mirror of the node's bid
    rules, and when the engine may be asked to pay an address. The lemmas say which amounts pass, in
    smallest units and without the code's rounding, and for which sizes that rounding goes wrong.
  \<^item> \<open>Rlp\<close>, \<open>Safety\<close>: \<open>features/swap/safety-invariants.ts\<close>, \<open>erc20-calldata.ts\<close>. The guards every swap
    passes before money moves, and the reader of signed transactions they rest on; its loop is a
    partial function, shown to end on every encoded transaction and not to end on six bytes.
  \<^item> \<open>PolyseedWords\<close>, \<open>Polyseed\<close>: \<open>wallets/polyseed-wordlist.ts\<close>, \<open>wallets/polyseed.ts\<close>,
    \<open>utils/heightFromDate.ts\<close> and the comparison of \<open>secure-random.ts\<close>. Monero's sixteen words: both
    bit-moving loops end and are inverse, a single slip is refused, new seeds pass their own sanity
    checks and a restored wallet scans from early enough.

  \<^bold>\<open>Conventions.\<close> Interfaces become records and tagged unions datatypes with the source's names; a
  name that clashes with another gets a prefix. A missing property is \<open>None\<close>. An exception is \<open>Inl\<close> of
  an error datatype, one constructor for each \<open>throw\<close>. Strings are lists of \<open>char\<close>: one per code
  unit up to U+00FF; a constant with a character above that is held as its UTF-8 bytes. BigInts
  are \<open>int\<close>; numbers are exact rationals, with \<open>None\<close> for a value that is not finite where the code
  checks it, so a theorem about an amount is about its formula, not about binary rounding; 32-bit
  shifts are on words. Maps that JavaScript iterates are association lists in insertion order.

  \<^bold>\<open>Parameters.\<close> Code that is not in the repository is an argument: \<open>Date.parse\<close>, \<open>toISOString\<close>,
  \<open>JSON.parse\<close>, the printing of numbers where its digits do not matter, address decoding, sha256, random ids, the
  clock, pbkdf2, keccak, bech32, base32, blake2b, ed25519, the network and the backend. Hypotheses on them are stated where they are used and have
  a witness with a concrete function.

  \<^bold>\<open>Not modelled.\<close> The Rust backend and the scripts; React views and hooks; the mock backend;
  generated tables; key derivation and signing, which rest on third-party
  cryptography; the bodies of remote calls. Of the modelled modules, hooks, log lines and texts
  that no code reads back are left out, as each component of the manifest says.
\<close>

end
